(* ===== verification/Prelude.thy ===== *)
theory Prelude
  imports Main "HOL-Library.Product_Lexorder" "HOL-Library.Sublist"
begin

text \<open>
  Shared vocabulary of the development: the exceptions a handler may throw, handlers as
  state-passing functions, the SQL fragments the services issue (selection, update, deletion,
  primary keys, paging, \<open>LIKE\<close>), and the small JavaScript helpers that every service uses
  (\<open>src/common/helpers\<close>, decimal printing in template strings, lower-casing, prefix tests).
\<close>

named_theorems keys \<open>facts on primary keys of a table\<close>
named_theorems handler \<open>evaluation of handlers\<close>

section \<open>Exceptions and handlers\<close>

text \<open>
  NestJS exceptions by class, an error reported by PostgreSQL with its SQLSTATE
  (\<open>23505\<close> unique, \<open>23503\<close> foreign key, \<open>23514\<close> check, \<open>22003\<close> numeric range),
  and a plain \<open>Error\<close>.
\<close>

datatype http_error =
    BadRequest string
  | Unauthorized string
  | Forbidden string
  | NotFound string
  | Conflict string
  | ServiceUnavailable string
  | SqlError string
  | PlainError string

type_synonym 'a result = "http_error + 'a"
type_synonym ('s, 'a) handler = "'s \<Rightarrow> 'a result \<times> 's"
type_synonym time = int

text \<open>
  The status code \<open>HttpExceptionFilter\<close> answers with: the exception's own status for an
  \<open>HttpException\<close>, 500 for everything else.
\<close>

fun http_status :: "http_error \<Rightarrow> nat" where
  "http_status (BadRequest _) = 400"
| "http_status (Unauthorized _) = 401"
| "http_status (Forbidden _) = 403"
| "http_status (NotFound _) = 404"
| "http_status (Conflict _) = 409"
| "http_status (ServiceUnavailable _) = 503"
| "http_status (SqlError _) = 500"
| "http_status (PlainError _) = 500"

text \<open>Sequencing of two awaited calls: an exception of the first skips the second.\<close>

definition bind_h :: "('s, 'a) handler \<Rightarrow> ('a \<Rightarrow> ('s, 'b) handler) \<Rightarrow> ('s, 'b) handler" where
  "bind_h m k s = (case m s of (Inl e, s') \<Rightarrow> (Inl e, s') | (Inr a, s') \<Rightarrow> k a s')"

lemma bind_h_Inl [handler]: "m s = (Inl e, s') \<Longrightarrow> bind_h m k s = (Inl e, s')"
  by (simp add: bind_h_def)

lemma bind_h_Inr [handler]: "m s = (Inr a, s') \<Longrightarrow> bind_h m k s = k a s'"
  by (simp add: bind_h_def)

lemma bind_h_InrE:
  assumes "bind_h m k s = (Inr b, s'')"
  obtains a s' where "m s = (Inr a, s')" "k a s' = (Inr b, s'')"
  using assms by (auto simp: bind_h_def split: prod.splits sum.splits)

text \<open>A relation every step keeps is kept by the sequence.\<close>

lemma bind_h_preserves:
  assumes "\<And>s. P s \<Longrightarrow> P (snd (m s))" and "\<And>a s. P s \<Longrightarrow> P (snd (k a s))" and "P s"
  shows "P (snd (bind_h m k s))"
proof -
  obtain x s' where m: "m s = (x, s')" by fastforce
  with assms(1)[OF assms(3)] have "P s'" by simp
  with m assms(2) show ?thesis by (cases x) (auto simp: bind_h_def)
qed

text \<open>A final read leaves the state alone.\<close>

lemma bind_h_read: "snd (bind_h m (\<lambda>_ t. (g t, t)) s) = snd (m s)"
  by (simp add: bind_h_def split: prod.split sum.split)

text \<open>A \<open>for\<close> loop whose body awaits: the first exception ends it.\<close>

fun for_each :: "('x \<Rightarrow> ('s, unit) handler) \<Rightarrow> 'x list \<Rightarrow> ('s, unit) handler" where
  "for_each f [] s = (Inr (), s)"
| "for_each f (x # xs) s = (case f x s of (Inl e, s') \<Rightarrow> (Inl e, s') | (Inr _, s') \<Rightarrow> for_each f xs s')"

lemma for_each_preserves:
  assumes "\<And>x s. P s \<Longrightarrow> P (snd (f x s))" and "P s"
  shows "P (snd (for_each f xs s))"
  using assms(2)
proof (induction xs arbitrary: s)
  case Nil
  then show ?case by simp
next
  case (Cons x xs)
  obtain r s' where f: "f x s = (r, s')" by fastforce
  with assms(1) [OF Cons.prems, of x] have "P s'" by simp
  with Cons.IH f show ?case by (cases r) auto
qed

lemma for_each_append:
  "for_each f (xs @ ys) s =
     (case for_each f xs s of (Inl e, s') \<Rightarrow> (Inl e, s') | (Inr _, s') \<Rightarrow> for_each f ys s')"
  by (induction xs arbitrary: s) (auto split: prod.splits sum.splits)

lemma for_each_ConsE:
  assumes "for_each f (x # xs) s = (Inr (), s'')"
  obtains s' where "f x s = (Inr (), s')" "for_each f xs s' = (Inr (), s'')"
  using assms by (auto split: prod.splits sum.splits)

text \<open>The value of an expression that is a result already.\<close>

definition is_ok :: "'a result \<Rightarrow> bool" where
  "is_ok r \<longleftrightarrow> (case r of Inl _ \<Rightarrow> False | Inr _ \<Rightarrow> True)"

lemma is_ok_simps [simp]: "is_ok (Inr a)" "\<not> is_ok (Inl e)"
  by (simp_all add: is_ok_def)

lemma is_okE: "is_ok r \<Longrightarrow> (\<And>a. r = Inr a \<Longrightarrow> P) \<Longrightarrow> P"
  by (cases r) auto

section \<open>Tables\<close>

text \<open>
  A table is the list of its rows in insertion order; \<open>key\<close> is its primary key and \<open>n\<close> the
  next value of its identity sequence.
\<close>

definition update_where :: "('r \<Rightarrow> bool) \<Rightarrow> ('r \<Rightarrow> 'r) \<Rightarrow> 'r list \<Rightarrow> 'r list" where
  "update_where p f t = map (\<lambda>r. if p r then f r else r) t"

definition delete_where :: "('r \<Rightarrow> bool) \<Rightarrow> 'r list \<Rightarrow> 'r list" where
  "delete_where p t = filter (\<lambda>r. \<not> p r) t"

definition row_by :: "('r \<Rightarrow> 'k) \<Rightarrow> 'k \<Rightarrow> 'r list \<Rightarrow> 'r option" where
  "row_by key i t = find (\<lambda>r. key r = i) t"

definition has_key :: "('r \<Rightarrow> 'k) \<Rightarrow> 'k \<Rightarrow> 'r list \<Rightarrow> bool" where
  "has_key key i t \<longleftrightarrow> list_ex (\<lambda>r. key r = i) t"

definition pk :: "('r \<Rightarrow> int) \<Rightarrow> int \<Rightarrow> 'r list \<Rightarrow> bool" where
  "pk key n t \<longleftrightarrow> distinct (map key t) \<and> (\<forall>r \<in> set t. key r < n)"

definition page :: "int \<Rightarrow> int \<Rightarrow> 'r list \<Rightarrow> 'r list" where
  "page lim off t = take (nat lim) (drop (nat off) t)"

lemma find_SomeD: "find p t = Some r \<Longrightarrow> r \<in> set t \<and> p r"
  by (auto simp: find_Some_iff)

lemma find_update_where:
  assumes "\<And>r. r \<in> set t \<Longrightarrow> q (if p r then f r else r) \<longleftrightarrow> q r"
  shows "find q (update_where p f t) = map_option (\<lambda>r. if p r then f r else r) (find q t)"
  using assms by (induction t) (auto simp: update_where_def)

lemma has_key_iff: "has_key key i t \<longleftrightarrow> i \<in> key ` set t"
  by (auto simp: has_key_def list_ex_iff)

lemma row_by_None_iff: "row_by key i t = None \<longleftrightarrow> i \<notin> key ` set t"
  by (auto simp: row_by_def find_None_iff)

lemma row_by_Some: "row_by key i t = Some r \<Longrightarrow> r \<in> set t \<and> key r = i"
  by (auto simp: row_by_def find_Some_iff)

lemma has_key_row_by: "has_key key i t \<longleftrightarrow> (\<exists>r. row_by key i t = Some r)"
  using row_by_None_iff [of key i t] by (auto simp: has_key_iff simp del: not_None_eq)

lemma row_by_Cons [simp]:
  "row_by key i (r # t) = (if key r = i then Some r else row_by key i t)"
  by (simp add: row_by_def)

lemma row_by_Nil [simp]: "row_by key i [] = None"
  by (simp add: row_by_def)

lemma row_by_append:
  "row_by key i (t @ u) = (case row_by key i t of None \<Rightarrow> row_by key i u | Some r \<Rightarrow> Some r)"
  by (induction t) auto

lemma row_by_member: "distinct (map key t) \<Longrightarrow> r \<in> set t \<Longrightarrow> row_by key (key r) t = Some r"
  by (induction t) auto

lemma pk_row_by [keys]: "pk key n t \<Longrightarrow> r \<in> set t \<Longrightarrow> row_by key (key r) t = Some r"
  by (simp add: pk_def row_by_member)

lemma pk_row_by_iff: "pk key n t \<Longrightarrow> row_by key i t = Some r \<longleftrightarrow> r \<in> set t \<and> key r = i"
  using pk_row_by row_by_Some by metis

lemma pk_unique: "pk key n t \<Longrightarrow> x \<in> set t \<Longrightarrow> y \<in> set t \<Longrightarrow> key x = key y \<Longrightarrow> x = y"
  by (auto simp: pk_def distinct_map inj_on_def)

text \<open>
  A lookup on the key and one more condition (\<open>WHERE id = $1 AND user_id = $2\<close>) is the lookup
  on the key, filtered.
\<close>

lemma pk_find_and:
  assumes "pk key n t"
  shows "find (\<lambda>r. key r = i \<and> p r) t =
    (case row_by key i t of None \<Rightarrow> None | Some r \<Rightarrow> if p r then Some r else None)"
proof -
  have "distinct (map key t)" using assms by (simp add: pk_def)
  then show ?thesis
  proof (induction t)
    case Nil
    then show ?case by simp
  next
    case (Cons a t)
    show ?case
    proof (cases "key a = i")
      case True
      with Cons.prems have "i \<notin> key ` set t" by auto
      then have "find (\<lambda>r. key r = i \<and> p r) t = None" by (auto simp: find_None_iff)
      with True show ?thesis by simp
    next
      case False
      with Cons show ?thesis by simp
    qed
  qed
qed

lemma row_by_update_same:
  assumes "\<And>r. key (f r) = key r"
  shows "row_by key i (update_where (\<lambda>r. key r = i) f t) = map_option f (row_by key i t)"
  by (induction t) (auto simp: update_where_def assms)

lemma row_by_update_other:
  assumes "\<And>r. key (f r) = key r" and "\<And>r. key r = i \<Longrightarrow> \<not> p r"
  shows "row_by key i (update_where p f t) = row_by key i t"
  by (induction t) (use assms in \<open>auto simp: update_where_def\<close>)

lemma row_by_update:
  assumes "\<And>r. key (f r) = key r"
  shows "row_by key i (update_where p f t) =
    map_option (\<lambda>r. if p r then f r else r) (row_by key i t)"
  by (induction t) (auto simp: update_where_def assms)

lemma update_where_ids: "(\<And>r. g (f r) = g r) \<Longrightarrow> map g (update_where p f t) = map g t"
  by (auto simp: update_where_def)

lemma update_where_image: "(\<And>r. g (f r) = g r) \<Longrightarrow> g ` set (update_where p f t) = g ` set t"
  by (metis set_map update_where_ids)

lemma set_update_where: "set (update_where p f t) = (\<lambda>r. if p r then f r else r) ` set t"
  by (simp add: update_where_def)

lemma set_delete_where [simp]: "set (delete_where p t) = {r \<in> set t. \<not> p r}"
  by (simp add: delete_where_def)

lemma length_update_where [simp]: "length (update_where p f t) = length t"
  by (simp add: update_where_def)

lemma update_where_none: "(\<And>r. r \<in> set t \<Longrightarrow> \<not> p r) \<Longrightarrow> update_where p f t = t"
  by (induction t) (auto simp: update_where_def)

lemma pk_Nil [keys, simp]: "pk key n []"
  by (simp add: pk_def)

lemma pk_insert [keys]: "pk key n t \<Longrightarrow> key r = n \<Longrightarrow> pk key (n + 1) (t @ [r])"
  by (force simp: pk_def)

lemma pk_mono: "pk key n t \<Longrightarrow> n \<le> m \<Longrightarrow> pk key m t"
  by (force simp: pk_def)

lemma pk_step [keys]: "pk key n t \<Longrightarrow> pk key (n + 1) t"
  by (rule pk_mono) auto

lemma pk_update [keys]: "(\<And>r. key (f r) = key r) \<Longrightarrow> pk key n t \<Longrightarrow> pk key n (update_where p f t)"
  by (auto simp: pk_def update_where_ids set_update_where)

lemma pk_delete [keys]: "pk key n t \<Longrightarrow> pk key n (delete_where p t)"
  by (auto simp: pk_def delete_where_def distinct_map intro: inj_on_subset)

lemma pk_fresh: "pk key n t \<Longrightarrow> n \<notin> key ` set t"
  by (auto simp: pk_def)

lemma row_by_fresh: "pk key n t \<Longrightarrow> row_by key n t = None"
  by (simp add: row_by_None_iff pk_fresh)

lemma row_by_inserted: "pk key n t \<Longrightarrow> key r = n \<Longrightarrow> row_by key n (t @ [r]) = Some r"
  by (simp add: row_by_append row_by_fresh)

lemma row_by_insert_other: "key r \<noteq> i \<Longrightarrow> row_by key i (t @ [r]) = row_by key i t"
  by (simp add: row_by_append split: option.splits)

lemma page_length: "length (page lim off t) \<le> nat lim"
  by (simp add: page_def)

lemma page_subset: "set (page lim off t) \<subseteq> set t"
  unfolding page_def by (meson order_trans set_drop_subset set_take_subset)

text \<open>
  Consecutive pages of one size tile the result: the pages with offsets \<open>0, n, 2n, \<dots>\<close>,
  concatenated, are a prefix of the whole list.
\<close>

lemma pages_tile:
  assumes "0 \<le> lim"
  shows "concat (map (\<lambda>k. page lim (int k * lim) t) [0..<m]) = take (m * nat lim) t"
proof (induction m)
  case 0
  then show ?case by simp
next
  case (Suc m)
  have "nat (int m * lim) = m * nat lim" using assms by (simp add: nat_mult_distrib)
  then show ?case using Suc by (simp add: page_def take_add [symmetric] add.commute)
qed

text \<open>Sorting by a key depends on the order of the keys alone.\<close>

lemma insort_key_same_order:
  assumes "\<And>y. y \<in> set ys \<Longrightarrow> f x \<le> f y \<longleftrightarrow> g x \<le> g y"
  shows "insort_key f x ys = insort_key g x ys"
  using assms by (induction ys) auto

lemma sort_key_same_order:
  assumes "\<And>x y. x \<in> set xs \<Longrightarrow> y \<in> set xs \<Longrightarrow> f x \<le> f y \<longleftrightarrow> g x \<le> g y"
  shows "sort_key f xs = sort_key g xs"
  using assms
proof (induction xs)
  case Nil
  then show ?case by simp
next
  case (Cons x xs)
  have "sort_key f xs = sort_key g xs" using Cons by simp
  moreover have "insort_key f x (sort_key g xs) = insort_key g x (sort_key g xs)"
    by (rule insort_key_same_order) (use Cons.prems in auto)
  ultimately show ?case by simp
qed

text \<open>A last element with a maximal key stays last.\<close>

lemma insort_key_snoc: "f x \<le> f m \<Longrightarrow> insort_key f x (ys @ [m]) = insort_key f x ys @ [m]"
  by (induction ys) auto

lemma sort_key_snoc_max:
  "(\<And>x. x \<in> set xs \<Longrightarrow> f x \<le> f m) \<Longrightarrow> sort_key f (xs @ [m]) = sort_key f xs @ [m]"
  by (induction xs) (simp_all add: insort_key_snoc)

lemma sorted_take_drop: "sorted (map f xs) \<Longrightarrow> sorted (map f (page lim off xs))"
  by (simp add: page_def sorted_wrt_take sorted_wrt_drop flip: take_map drop_map)

section \<open>Grouping rows by a key\<close>

text \<open>
  The services build a JavaScript \<open>Map\<close> from an owner id to the list of its rows, by pushing
  each row of a result onto its owner's bucket.
\<close>

definition bucket_push :: "('a \<Rightarrow> 'k) \<Rightarrow> ('a \<Rightarrow> 'b) \<Rightarrow> ('k \<rightharpoonup> 'b list) \<Rightarrow> 'a \<Rightarrow> ('k \<rightharpoonup> 'b list)" where
  "bucket_push key val m x =
     m(key x \<mapsto> (case m (key x) of None \<Rightarrow> [] | Some b \<Rightarrow> b) @ [val x])"

definition bucket_by :: "('a \<Rightarrow> 'k) \<Rightarrow> ('a \<Rightarrow> 'b) \<Rightarrow> 'a list \<Rightarrow> ('k \<rightharpoonup> 'b list)" where
  "bucket_by key val xs = foldl (bucket_push key val) Map.empty xs"

definition bucket_get :: "('k \<rightharpoonup> 'b list) \<Rightarrow> 'k \<Rightarrow> 'b list" where
  "bucket_get m k = (case m k of None \<Rightarrow> [] | Some b \<Rightarrow> b)"

lemma bucket_get_push:
  "bucket_get (bucket_push key val m x) k = bucket_get m k @ (if key x = k then [val x] else [])"
  by (simp add: bucket_get_def bucket_push_def)

lemma bucket_get_foldl:
  "bucket_get (foldl (bucket_push key val) m xs) k =
     bucket_get m k @ map val (filter (\<lambda>x. key x = k) xs)"
  by (induction xs arbitrary: m) (auto simp: bucket_get_push)

text \<open>Looking a key up afterwards gives exactly the rows of that key, in their order.\<close>

lemma bucket_by_get: "bucket_get (bucket_by key val xs) k = map val (filter (\<lambda>x. key x = k) xs)"
  by (simp add: bucket_by_def bucket_get_foldl) (simp add: bucket_get_def)

section \<open>Averages\<close>

text \<open>
  \<open>COALESCE(ROUND(AVG(rating_value)::numeric, 2), 0)\<close> in hundredths: ratings are positive, so
  rounding half away from zero is rounding half up.
\<close>

definition avg2 :: "int list \<Rightarrow> int" where
  "avg2 xs = (if xs = [] then 0
     else (200 * sum_list xs + int (length xs)) div (2 * int (length xs)))"

lemma sum_list_bounds:
  fixes xs :: "int list"
  assumes "\<forall>x \<in> set xs. lo \<le> x \<and> x \<le> hi"
  shows "lo * int (length xs) \<le> sum_list xs \<and> sum_list xs \<le> hi * int (length xs)"
  using assms by (induction xs) (auto simp: algebra_simps)

lemma avg2_bounds:
  assumes "xs \<noteq> []" and "\<forall>x \<in> set xs. lo \<le> x \<and> x \<le> hi"
  shows "100 * lo \<le> avg2 xs \<and> avg2 xs \<le> 100 * hi"
proof -
  define n where "n = int (length xs)"
  define a where "a = 200 * sum_list xs + n"
  have n: "0 < n" using assms(1) by (simp add: n_def)
  from sum_list_bounds [OF assms(2)]
  have s: "lo * n \<le> sum_list xs" "sum_list xs \<le> hi * n" by (auto simp: n_def)
  have "a = 2 * n * (a div (2 * n)) + a mod (2 * n)" by simp
  moreover have "0 \<le> a mod (2 * n)" "a mod (2 * n) < 2 * n" using n by simp_all
  ultimately have "2 * n * (a div (2 * n)) \<le> a" "a < 2 * n * (a div (2 * n) + 1)"
    by (simp_all add: algebra_simps)
  moreover have "2 * n * (100 * lo) \<le> a" "a < 2 * n * (100 * hi + 1)"
    using s n by (simp_all add: a_def algebra_simps)
  ultimately have "2 * n * (100 * lo) < 2 * n * (a div (2 * n) + 1)"
    and "2 * n * (a div (2 * n)) < 2 * n * (100 * hi + 1)" by linarith+
  then have "100 * lo < a div (2 * n) + 1" and "a div (2 * n) < 100 * hi + 1"
    using n by (simp_all add: mult_less_cancel_left)
  moreover have "avg2 xs = a div (2 * n)" using assms(1) by (simp add: avg2_def a_def n_def)
  ultimately show ?thesis by simp
qed

end
