(* ===== verification/Schema.thy ===== *)
theory Schema
  imports Prelude
begin

text \<open>
  The database the services share: one record type per table of \<open>db/migrations\<close>, the enumerated
  column types, and the record \<open>db\<close> that holds every table, the identity sequences and the clock.
  Column prefixes are the table aliases the SQL of the services uses (\<open>cp\<close>, \<open>po\<close>, \<open>oi\<close>, \<open>fr\<close>,
  \<open>so\<close>, \<dots>). Identifiers are mathematical integers; \<open>NUMERIC(12,2)\<close> prices are held as their
  number of hundredths; a nullable column is an option.
\<close>

section \<open>Enumerations\<close>

datatype order_status =
  Order_RECEIVED | Order_READY_TO_SHIP | Order_ON_THE_WAY | Order_CANCELLED | Order_DELIVERED

datatype fault_status =
  Fault_RECEIVED | Fault_ASSIGNED | Fault_ON_THE_WAY | Fault_IN_PROGRESS | Fault_FINISHED | Fault_CANCELLED

datatype service_status =
  Service_NOT_STARTED | Service_IN_PROGRESS | Service_CANCELLED | Service_FINISHED

datatype fault_severity = Severity_NORMAL | Severity_HIGH | Severity_URGENT | Severity_EMERGENT

datatype service_type = Type_DESIGNING | Type_MAINTENANCE | Type_RENEWAL

datatype item_type = Item_ORDER | Item_FAULT | Item_SERVICE

datatype availability_filter = Filter_ACTIVE | Filter_INACTIVE | Filter_ALL

datatype sort_direction = Dir_ASC | Dir_DESC

datatype asset_type = Asset_image | Asset_file

datatype user_status = User_active | User_paused | User_banned

datatype file_status = File_pending | File_uploaded | File_failed | File_deleted

datatype file_purpose = Purpose_avatar | Purpose_product_image | Purpose_chat_attachment | Purpose_document

datatype listing_status = Listing_available | Listing_sold | Listing_archived

datatype otp_purpose = Otp_registration | Otp_password_reset

section \<open>Rows\<close>

record user =
  u_id :: int
  u_name :: string
  u_phone :: "string option"
  u_email :: "string option"
  u_address :: "string option"
  u_password_hash :: string
  u_avatar_file_id :: "int option"
  u_contact_info :: "string option"
  u_status :: user_status
  u_is_admin :: bool
  u_token_version :: int
  u_deleted_at :: "time option"
  u_created_at :: time
  u_updated_at :: time

record file_row =
  f_id :: int
  f_uploader_user_id :: "int option"
  f_owner_type :: string
  f_owner_id :: "int option"
  f_purpose :: file_purpose
  f_storage_provider :: string
  f_bucket :: "string option"
  f_object_key :: string
  f_original_filename :: "string option"
  f_mime_type :: "string option"
  f_file_size_bytes :: "int option"
  f_checksum_sha256 :: "string option"
  f_status :: file_status
  f_uploaded_at :: "time option"
  f_created_at :: time
  f_updated_at :: time

record catalog_product =
  cp_id :: int
  cp_title :: string
  cp_description :: string
  cp_amount :: int
  cp_price :: int
  cp_details :: "string option"
  cp_is_active :: bool
  cp_created_by :: int
  cp_updated_by :: int
  cp_deleted_at :: "time option"
  cp_created_at :: time
  cp_updated_at :: time

record product_asset =
  pa_id :: int
  pa_product_id :: int
  pa_file_id :: int
  pa_asset_type :: asset_type
  pa_sort_order :: int

record product_order =
  po_id :: int
  po_user_id :: int
  po_delivery_address :: string
  po_status :: order_status
  po_cancelled_at :: "time option"
  po_created_at :: time
  po_updated_at :: time

record order_item =
  oi_id :: int
  oi_order_id :: int
  oi_product_id :: int
  oi_quantity :: int
  oi_unit_price :: int

text \<open>The three \<open>*_status_history\<close> tables have one shape, over their own status type.\<close>

record 's history =
  h_id :: int
  h_item_id :: int
  h_status :: 's
  h_changed_by :: int

record cart_item =
  ci_id :: int
  ci_user_id :: int
  ci_product_id :: int
  ci_quantity :: int
  ci_created_at :: time
  ci_updated_at :: time

record product_rating =
  pr_id :: int
  pr_user_id :: int
  pr_order_id :: int
  pr_product_id :: int
  pr_rating_value :: int
  pr_comment :: "string option"
  pr_created_at :: time

record fault_report =
  fr_id :: int
  fr_user_id :: int
  fr_title :: string
  fr_description :: string
  fr_severity :: fault_severity
  fr_address :: string
  fr_status :: fault_status
  fr_cancelled_at :: "time option"
  fr_created_at :: time
  fr_updated_at :: time

record fault_asset =
  fa_id :: int
  fa_fault_id :: int
  fa_file_id :: int
  fa_sort_order :: int

record service_order =
  so_id :: int
  so_user_id :: int
  so_service_type :: service_type
  so_description :: string
  so_address :: string
  so_status :: service_status
  so_cancelled_at :: "time option"
  so_created_at :: time
  so_updated_at :: time

record followup_step =
  fs_id :: int
  fs_item_type :: item_type
  fs_item_id :: int
  fs_title :: string
  fs_step_image_file_id :: "int option"
  fs_sort_order :: int
  fs_created_by :: int
  fs_created_at :: time
  fs_updated_at :: time

record followup_conversation =
  fc_id :: int
  fc_item_type :: item_type
  fc_item_id :: int
  fc_user_id :: int
  fc_admin_id :: int
  fc_created_at :: time

record followup_message =
  fm_id :: int
  fm_conversation_id :: int
  fm_sender_id :: int
  fm_message_text :: string
  fm_sent_at :: time

record item_rating =
  ir_id :: int
  ir_user_id :: int
  ir_item_type :: item_type
  ir_item_id :: int
  ir_rating_value :: int
  ir_comment :: "string option"
  ir_created_at :: time

record gallery_item =
  gi_id :: int
  gi_title :: string
  gi_description :: string
  gi_is_active :: bool
  gi_created_by :: int
  gi_updated_by :: int
  gi_deleted_at :: "time option"
  gi_created_at :: time
  gi_updated_at :: time

record gallery_asset =
  ga_id :: int
  ga_gallery_item_id :: int
  ga_file_id :: int
  ga_sort_order :: int

record auth_otp =
  ao_id :: int
  ao_user_id :: "int option"
  ao_email :: string
  ao_code_hash :: string
  ao_salt :: string
  ao_purpose :: otp_purpose
  ao_expires_at :: time
  ao_used_at :: "time option"
  ao_created_at :: time

record otp_attempt =
  at_email :: string
  at_purpose :: otp_purpose
  at_attempts :: int
  at_expires_at :: time

record refresh_token =
  rt_jti :: string
  rt_user_id :: int
  rt_expires_at :: time
  rt_revoked_at :: "time option"

record pending_registration =
  pg_id :: int
  pg_email :: string
  pg_phone :: "string option"
  pg_name :: string
  pg_address :: "string option"
  pg_password_hash :: string
  pg_expires_at :: time
  pg_created_at :: time

record listing =
  p_id :: int
  p_owner_id :: int
  p_category :: string
  p_subcategory :: "string option"
  p_name :: string
  p_description :: string
  p_price :: int
  p_city :: string
  p_address_text :: string
  p_details :: "string option"
  p_status :: listing_status
  p_is_negotiable :: bool
  p_preferred_contact_method :: string
  p_deleted_at :: "time option"
  p_created_at :: time
  p_updated_at :: time

record product_image =
  pi_id :: int
  pi_product_id :: int
  pi_file_id :: int
  pi_object_key :: string
  pi_sort_order :: int

record conversation =
  c_id :: int
  c_user_a_id :: int
  c_user_b_id :: int
  c_product_id :: "int option"
  c_last_message_id :: "int option"
  c_created_at :: time

record message =
  m_id :: int
  m_conversation_id :: int
  m_sender_id :: int
  m_message_text :: string
  m_sent_at :: time
  m_read_at :: "time option"

record user_rating =
  ur_id :: int
  ur_rater_id :: int
  ur_rated_user_id :: int
  ur_rating_value :: int
  ur_comment :: "string option"
  ur_created_at :: time
  ur_updated_at :: time

record admin_warning =
  aw_id :: int
  aw_admin_id :: int
  aw_target_user_id :: int
  aw_message :: string
  aw_created_at :: time

record audit_log =
  al_id :: int
  al_actor_id :: int
  al_action :: string
  al_target_id :: int

section \<open>The database\<close>

datatype table =
    T_users | T_files | T_catalog_products | T_product_assets | T_product_orders | T_order_items
  | T_order_history | T_cart_items | T_product_ratings | T_fault_reports | T_fault_assets
  | T_fault_history | T_service_orders | T_service_history | T_followup_steps
  | T_followup_conversations | T_followup_messages | T_item_ratings | T_gallery_items
  | T_gallery_assets | T_auth_otps | T_pending_registrations | T_products | T_product_images
  | T_conversations | T_messages | T_user_ratings | T_admin_warnings | T_audit_logs

record db =
  clock :: time
  seqs :: "table \<Rightarrow> int"
  users :: "user list"
  files :: "file_row list"
  catalog_products :: "catalog_product list"
  product_assets :: "product_asset list"
  product_orders :: "product_order list"
  order_items :: "order_item list"
  order_history :: "order_status history list"
  cart_items :: "cart_item list"
  product_ratings :: "product_rating list"
  fault_reports :: "fault_report list"
  fault_assets :: "fault_asset list"
  fault_history :: "fault_status history list"
  service_orders :: "service_order list"
  service_history :: "service_status history list"
  followup_steps :: "followup_step list"
  followup_conversations :: "followup_conversation list"
  followup_messages :: "followup_message list"
  item_ratings :: "item_rating list"
  gallery_items :: "gallery_item list"
  gallery_assets :: "gallery_asset list"
  auth_otps :: "auth_otp list"
  otp_attempts :: "otp_attempt list"
  refresh_tokens :: "refresh_token list"
  pending_registrations :: "pending_registration list"
  products :: "listing list"
  product_images :: "product_image list"
  conversations :: "conversation list"
  messages :: "message list"
  user_ratings :: "user_rating list"
  admin_warnings :: "admin_warning list"
  audit_logs :: "audit_log list"

definition empty_db :: db where
  "empty_db = \<lparr>clock = 0, seqs = (\<lambda>_. 1), users = [], files = [], catalog_products = [],
     product_assets = [], product_orders = [], order_items = [], order_history = [],
     cart_items = [], product_ratings = [], fault_reports = [], fault_assets = [],
     fault_history = [], service_orders = [], service_history = [], followup_steps = [],
     followup_conversations = [], followup_messages = [], item_ratings = [], gallery_items = [],
     gallery_assets = [], auth_otps = [], otp_attempts = [], refresh_tokens = [],
     pending_registrations = [], products = [], product_images = [], conversations = [],
     messages = [], user_ratings = [], admin_warnings = [], audit_logs = []\<rparr>"

text \<open>
  Drawing the next identity of a table. PostgreSQL evaluates the identity default before it
  checks any constraint, so a failed or conflicting \<open>INSERT\<close> has drawn its number too.
\<close>

definition bump :: "table \<Rightarrow> db \<Rightarrow> db" where
  "bump t s = s\<lparr>seqs := (seqs s)(t := seqs s t + 1)\<rparr>"

lemma bump_sel [simp]:
  "seqs (bump t s) = (seqs s)(t := seqs s t + 1)"
  "clock (bump t s) = clock s"
  "users (bump t s) = users s"
  "files (bump t s) = files s"
  "catalog_products (bump t s) = catalog_products s"
  "product_assets (bump t s) = product_assets s"
  "product_orders (bump t s) = product_orders s"
  "order_items (bump t s) = order_items s"
  "order_history (bump t s) = order_history s"
  "cart_items (bump t s) = cart_items s"
  "product_ratings (bump t s) = product_ratings s"
  "fault_reports (bump t s) = fault_reports s"
  "fault_assets (bump t s) = fault_assets s"
  "fault_history (bump t s) = fault_history s"
  "service_orders (bump t s) = service_orders s"
  "service_history (bump t s) = service_history s"
  "followup_steps (bump t s) = followup_steps s"
  "followup_conversations (bump t s) = followup_conversations s"
  "followup_messages (bump t s) = followup_messages s"
  "item_ratings (bump t s) = item_ratings s"
  "gallery_items (bump t s) = gallery_items s"
  "gallery_assets (bump t s) = gallery_assets s"
  "auth_otps (bump t s) = auth_otps s"
  "otp_attempts (bump t s) = otp_attempts s"
  "refresh_tokens (bump t s) = refresh_tokens s"
  "pending_registrations (bump t s) = pending_registrations s"
  "products (bump t s) = products s"
  "product_images (bump t s) = product_images s"
  "conversations (bump t s) = conversations s"
  "messages (bump t s) = messages s"
  "user_ratings (bump t s) = user_ratings s"
  "admin_warnings (bump t s) = admin_warnings s"
  "audit_logs (bump t s) = audit_logs s"
  by (simp_all add: bump_def)

text \<open>
  \<open>DatabaseService.withTransaction\<close>: an exception of the callback rolls every table back;
  identity sequences are not transactional and keep their values.
\<close>

definition with_transaction :: "(db, 'a) handler \<Rightarrow> (db, 'a) handler" where
  "with_transaction callback s =
     (case callback s of
        (Inr result, s') \<Rightarrow> (Inr result, s')
      | (Inl error, s') \<Rightarrow> (Inl error, s\<lparr>seqs := seqs s'\<rparr>))"

lemma with_transaction_Inr [handler]:
  "callback s = (Inr a, s') \<Longrightarrow> with_transaction callback s = (Inr a, s')"
  by (simp add: with_transaction_def)

lemma with_transaction_Inl [handler]:
  "callback s = (Inl e, s') \<Longrightarrow> with_transaction callback s = (Inl e, s\<lparr>seqs := seqs s'\<rparr>)"
  by (simp add: with_transaction_def)

lemma with_transaction_InrE:
  assumes "with_transaction callback s = (Inr a, s')"
  shows "callback s = (Inr a, s')"
  using assms by (auto simp: with_transaction_def split: prod.splits sum.splits)

lemma with_transaction_InlE:
  assumes "with_transaction callback s = (Inl e, s')"
  obtains s'' where "callback s = (Inl e, s'')" "s' = s\<lparr>seqs := seqs s''\<rparr>"
  using assms by (auto simp: with_transaction_def split: prod.splits sum.splits)

text \<open>An aborted transaction leaves every table as it was.\<close>

lemma with_transaction_atomic:
  "with_transaction callback s = (Inl e, s') \<Longrightarrow> s'\<lparr>seqs := seqs s\<rparr> = s"
  by (auto elim: with_transaction_InlE)

text \<open>
  The user rows a statement sees as live; \<open>int4\<close> is the range of an \<open>INTEGER\<close> column.
\<close>

definition int4 :: "int \<Rightarrow> bool" where
  "int4 n \<longleftrightarrow> - (2 ^ 31) \<le> n \<and> n < 2 ^ 31"

record auth_user =
  sub :: int
  isAdmin :: bool

definition live_user :: "db \<Rightarrow> int \<Rightarrow> user option" where
  "live_user s i = find (\<lambda>u. u_id u = i \<and> u_deleted_at u = None) (users s)"

text \<open>\<open>assertUserExists\<close> of \<open>db.helpers.ts\<close>.\<close>

definition assertUserExists :: "db \<Rightarrow> int \<Rightarrow> string \<Rightarrow> unit result" where
  "assertUserExists s userId label =
     (case live_user s userId of
        None \<Rightarrow> Inl (NotFound (label @ '' not found''))
      | Some _ \<Rightarrow> Inr ())"

section \<open>Optional parameters and ordering\<close>

text \<open>An optional bound that constrains a value when it is present.\<close>

definition opt_holds :: "'a option \<Rightarrow> ('a \<Rightarrow> bool) \<Rightarrow> bool" where
  "opt_holds b p \<longleftrightarrow> (case b of None \<Rightarrow> True | Some x \<Rightarrow> p x)"

lemma opt_holds_simps [simp]: "opt_holds None p" "opt_holds (Some x) p = p x"
  by (simp_all add: opt_holds_def)

text \<open>\<open>ORDER BY column direction, id DESC\<close>, as an ascending sort on a pair of keys.\<close>

definition order_key :: "sort_direction \<Rightarrow> int \<Rightarrow> int \<Rightarrow> int \<times> int" where
  "order_key dir column ident = (case dir of Dir_ASC \<Rightarrow> column | Dir_DESC \<Rightarrow> - column, - ident)"

text \<open>\<open>COALESCE($n, column)\<close>, also \<open>dto.x ?? d\<close>.\<close>

definition coalesce :: "'a option \<Rightarrow> 'a \<Rightarrow> 'a" where
  "coalesce v d = (case v of None \<Rightarrow> d | Some x \<Rightarrow> x)"

definition coalesce_opt :: "'a option \<Rightarrow> 'a option \<Rightarrow> 'a option" where
  "coalesce_opt v d = (case v of None \<Rightarrow> d | Some x \<Rightarrow> Some x)"

lemma coalesce_simps [simp]: "coalesce None d = d" "coalesce (Some x) d = x"
  by (simp_all add: coalesce_def)

text \<open>\<open>if (ids) await sync(ids)\<close>: an absent list leaves the rows alone, an empty one clears them.\<close>

definition sync_if :: "(int list \<Rightarrow> (db, unit) handler) \<Rightarrow> int list option \<Rightarrow> (db, unit) handler" where
  "sync_if sync ids s = (case ids of None \<Rightarrow> (Inr (), s) | Some fs \<Rightarrow> sync fs s)"

end
