(* ===== verification/TextOps.thy ===== *)
theory TextOps
  imports Prelude
begin

text \<open>
  The text operations of the services: decimal printing (template strings) and reading
  (\<open>parseInt\<close>), ASCII lower-casing (\<open>toLowerCase\<close>, SQL \<open>LOWER\<close>), \<open>startsWith\<close>, the \<open>LIKE\<close> matcher
  of PostgreSQL with backslash as escape character, \<open>escapeLike\<close>
  (\<open>src/common/helpers/db.helpers.ts\<close> and \<open>KayanService.escapeLike\<close>), and the pagination helper
  \<open>resolveOffsetPagination\<close> (\<open>src/common/helpers/pagination.helpers.ts\<close>) with the validator of its
  input (\<open>src/common/dto/offset-pagination-query.dto.ts\<close>).
\<close>

section \<open>Numbers in text\<close>

definition digit_char :: "nat \<Rightarrow> char" where
  "digit_char d = char_of (48 + d)"

fun show_nat :: "nat \<Rightarrow> string" where
  "show_nat n = (if n < 10 then [digit_char n] else show_nat (n div 10) @ [digit_char (n mod 10)])"

declare show_nat.simps [simp del]

definition show_int :: "int \<Rightarrow> string" where
  "show_int i = (if i < 0 then CHR ''-'' # show_nat (nat (- i)) else show_nat (nat i))"

definition is_digit :: "char \<Rightarrow> bool" where
  "is_digit c \<longleftrightarrow> 48 \<le> (of_char c :: nat) \<and> (of_char c :: nat) \<le> 57"

definition digit_val :: "char \<Rightarrow> nat" where
  "digit_val c = of_char c - 48"

definition parse_digits :: "string \<Rightarrow> nat" where
  "parse_digits s = foldl (\<lambda>n c. 10 * n + digit_val c) 0 s"

text \<open>A text that matches \<open>^\d+$\<close>.\<close>

definition all_digits :: "string \<Rightarrow> bool" where
  "all_digits s \<longleftrightarrow> s \<noteq> [] \<and> list_all is_digit s"

lemma of_digit_char: "d < 10 \<Longrightarrow> (of_char (digit_char d) :: nat) = 48 + d"
  by (simp add: digit_char_def)

lemma digit_char_digit: "d < 10 \<Longrightarrow> is_digit (digit_char d) \<and> digit_val (digit_char d) = d"
  by (simp add: is_digit_def digit_val_def of_digit_char)

lemma parse_digits_snoc: "parse_digits (s @ [c]) = 10 * parse_digits s + digit_val c"
  by (simp add: parse_digits_def)

lemma parse_show_nat: "parse_digits (show_nat n) = n"
proof (induction n rule: show_nat.induct)
  case (1 n)
  show ?case
  proof (cases "n < 10")
    case True
    then show ?thesis
      by (subst show_nat.simps) (simp add: parse_digits_def digit_char_digit)
  next
    case False
    with 1 have "parse_digits (show_nat (n div 10)) = n div 10" by simp
    with False show ?thesis
      by (subst show_nat.simps) (simp add: parse_digits_snoc digit_char_digit)
  qed
qed

lemma all_digits_show_nat: "all_digits (show_nat n)"
proof (induction n rule: show_nat.induct)
  case (1 n)
  then show ?case
    by (subst show_nat.simps) (auto simp: all_digits_def digit_char_digit)
qed

lemma show_nat_inj: "show_nat m = show_nat n \<Longrightarrow> m = n"
  by (metis parse_show_nat)

lemma show_int_inj: "show_int i = show_int j \<Longrightarrow> i = j"
proof -
  have minus: "show_nat k \<noteq> CHR ''-'' # t" for k t
    using all_digits_show_nat [of k] by (auto simp: all_digits_def is_digit_def)
  assume "show_int i = show_int j"
  then show "i = j"
    using minus minus [symmetric]
    by (auto simp: show_int_def dest!: show_nat_inj split: if_splits)
qed

section \<open>Letter case and prefixes\<close>

definition lower_char :: "char \<Rightarrow> char" where
  "lower_char c = (let n = (of_char c :: nat) in if 65 \<le> n \<and> n \<le> 90 then char_of (n + 32) else c)"

definition lower :: "string \<Rightarrow> string" where
  "lower s = map lower_char s"

definition starts_with :: "string \<Rightarrow> string \<Rightarrow> bool" where
  "starts_with s p \<longleftrightarrow> take (length p) s = p"

text \<open>\<open>!x || !x.startsWith(p)\<close> is false.\<close>

definition opt_starts :: "string option \<Rightarrow> string \<Rightarrow> bool" where
  "opt_starts x p \<longleftrightarrow> (case x of None \<Rightarrow> False | Some t \<Rightarrow> t \<noteq> [] \<and> starts_with t p)"

lemma lower_char_idem [simp]: "lower_char (lower_char c) = lower_char c"
proof -
  have "n + 32 < 256" if "n \<le> 90" for n :: nat using that by simp
  then show ?thesis by (auto simp: lower_char_def Let_def)
qed

lemma lower_idem [simp]: "lower (lower s) = lower s"
  by (simp add: lower_def)

lemma lower_append [simp]: "lower (s @ t) = lower s @ lower t"
  by (simp add: lower_def)

lemma starts_with_iff: "starts_with s p \<longleftrightarrow> (\<exists>t. s = p @ t)"
  by (metis append_eq_conv_conj append_take_drop_id starts_with_def)

section \<open>LIKE patterns\<close>

definition esc :: char where "esc = CHR 0x5C"

text \<open>
  \<open>s LIKE p ESCAPE '\'\<close>: \<open>%\<close> matches any text, \<open>_\<close> one character, the escape character makes the
  next one literal. (PostgreSQL rejects a pattern that ends in the escape character; that pattern
  matches nothing here, and no service builds one.)
\<close>

fun like :: "string \<Rightarrow> string \<Rightarrow> bool" where
  "like [] s = (s = [])"
| "like (c # p) s =
     (if c = CHR ''%'' then like p s \<or> (case s of [] \<Rightarrow> False | _ # s' \<Rightarrow> like (c # p) s')
      else if c = CHR ''_'' then (case s of [] \<Rightarrow> False | _ # s' \<Rightarrow> like p s')
      else if c = esc then
        (case p of [] \<Rightarrow> False
         | e # p' \<Rightarrow> (case s of [] \<Rightarrow> False | d # s' \<Rightarrow> e = d \<and> like p' s'))
      else (case s of [] \<Rightarrow> False | d # s' \<Rightarrow> c = d \<and> like p s'))"

declare like.simps(2) [simp del]

definition ilike :: "string \<Rightarrow> string \<Rightarrow> bool" where
  "ilike s p = like (lower p) (lower s)"

text \<open>\<open>value.replace(/[\\%_]/g, '\\$&')\<close>: a backslash before each of the three characters.\<close>

definition escapeLike :: "string \<Rightarrow> string" where
  "escapeLike value =
     concat (map (\<lambda>c. if c = esc \<or> c = CHR ''%'' \<or> c = CHR ''_'' then [esc, c] else [c]) value)"

text \<open>The parameter the services bind: \<open>`%${escapeLike(q)}%`\<close>.\<close>

definition contains_pattern :: "string \<Rightarrow> string" where
  "contains_pattern q = [CHR ''%''] @ escapeLike q @ [CHR ''%'']"

lemma escapeLike_Nil [simp]: "escapeLike [] = []"
  by (simp add: escapeLike_def)

lemma escapeLike_Cons:
  "escapeLike (c # q) =
     (if c = esc \<or> c = CHR ''%'' \<or> c = CHR ''_'' then [esc, c] else [c]) @ escapeLike q"
  by (simp add: escapeLike_def)

lemma like_percent_all: "like [CHR ''%''] s"
  by (induction s) (simp_all add: like.simps(2))

lemma like_literal: "like (escapeLike q @ [CHR ''%'']) s \<longleftrightarrow> (\<exists>t. s = q @ t)"
proof (induction q arbitrary: s)
  case Nil
  then show ?case by (simp add: like_percent_all)
next
  case (Cons c q)
  show ?case
  proof (cases s)
    case Nil
    then show ?thesis by (auto simp: escapeLike_Cons like.simps(2) esc_def)
  next
    case (Cons d s')
    then show ?thesis
      using Cons.IH [of s'] by (auto simp: escapeLike_Cons like.simps(2) esc_def)
  qed
qed

lemma like_percent: "like (CHR ''%'' # p) s \<longleftrightarrow> (\<exists>a b. s = a @ b \<and> like p b)"
proof (induction s)
  case Nil
  then show ?case by (simp add: like.simps(2))
next
  case (Cons d s)
  have "like (CHR ''%'' # p) (d # s) \<longleftrightarrow> like p (d # s) \<or> (\<exists>a b. s = a @ b \<and> like p b)"
    by (subst like.simps(2)) (simp add: Cons.IH)
  also have "\<dots> \<longleftrightarrow> (\<exists>a b. d # s = a @ b \<and> like p b)"
    by (auto simp: Cons_eq_append_conv)
  finally show ?case .
qed

lemma like_contains_pattern: "like (contains_pattern q) s \<longleftrightarrow> sublist q s"
  by (auto simp: contains_pattern_def like_percent like_literal sublist_def)

lemma lower_esc: "lower_char c = esc \<longleftrightarrow> c = esc"
  and lower_pct: "lower_char c = CHR ''%'' \<longleftrightarrow> c = CHR ''%''"
  and lower_und: "lower_char c = CHR ''_'' \<longleftrightarrow> c = CHR ''_''"
proof -
  have low: "(of_char (lower_char c) :: nat) = (let n = of_char c in if 65 \<le> n \<and> n \<le> 90 then n + 32 else n)"
    by (auto simp: lower_char_def Let_def)
  have cmp: "lower_char c = d \<longleftrightarrow> c = d" if d: "(of_char d :: nat) < 97" "\<not> (65 \<le> (of_char d :: nat) \<and> (of_char d :: nat) \<le> 90)" for d
  proof
    assume "lower_char c = d"
    then have "(of_char (lower_char c) :: nat) = of_char d" by simp
    with low d have "(of_char c :: nat) = of_char d" by (auto simp: Let_def split: if_splits)
    then show "c = d" by simp
  next
    assume "c = d"
    with d show "lower_char c = d" by (auto simp: lower_char_def Let_def)
  qed
  show "lower_char c = esc \<longleftrightarrow> c = esc" by (rule cmp) (simp_all add: esc_def)
  show "lower_char c = CHR ''%'' \<longleftrightarrow> c = CHR ''%''" by (rule cmp) simp_all
  show "lower_char c = CHR ''_'' \<longleftrightarrow> c = CHR ''_''" by (rule cmp) simp_all
qed

lemma lower_simps [simp]:
  "lower [] = []" "lower (c # s) = lower_char c # lower s"
  by (simp_all add: lower_def)

lemma lower_char_fixed [simp]:
  "lower_char esc = esc" "lower_char (CHR ''%'') = CHR ''%''" "lower_char (CHR ''_'') = CHR ''_''"
  by (simp_all only: lower_esc lower_pct lower_und)

lemma lower_escapeLike: "lower (escapeLike q) = escapeLike (lower q)"
  by (induction q) (auto simp: escapeLike_Cons lower_esc lower_pct lower_und)

text \<open>
  Searching with an escaped pattern is case-insensitive substring search: nothing the user types
  acts as a wildcard.
\<close>

lemma ilike_contains_pattern: "ilike s (contains_pattern q) \<longleftrightarrow> sublist (lower q) (lower s)"
proof -
  have "lower (contains_pattern q) = contains_pattern (lower q)"
    by (simp add: contains_pattern_def lower_escapeLike)
  then show ?thesis by (simp add: ilike_def like_contains_pattern)
qed

section \<open>Pagination\<close>

record page_query =
  pq_page :: "int option"
  pq_limit :: "int option"
  pq_offset :: "int option"

definition default_page_size :: int where "default_page_size = 20"

definition no_paging :: page_query where
  "no_paging = \<lparr>pq_page = None, pq_limit = None, pq_offset = None\<rparr>"

definition resolveOffsetPagination :: "page_query \<Rightarrow> int option \<Rightarrow> int \<Rightarrow> int \<times> int" where
  "resolveOffsetPagination q defaultLimitOpt maxLimit =
     (let defaultLimit = (case defaultLimitOpt of None \<Rightarrow> default_page_size | Some d \<Rightarrow> d);
          lim = min (case pq_limit q of None \<Rightarrow> defaultLimit | Some l \<Rightarrow> l) maxLimit;
          pg = max ((case pq_page q of None \<Rightarrow> 1 | Some p \<Rightarrow> p) - 1) 0;
          off = (case pq_offset q of None \<Rightarrow> pg * lim | Some k \<Rightarrow> k)
      in (lim, off))"

text \<open>What the validation pipe lets through to a service.\<close>

definition valid_page_query :: "int \<Rightarrow> page_query \<Rightarrow> bool" where
  "valid_page_query maxLimit q \<longleftrightarrow>
     (\<forall>p \<in> set_option (pq_page q). 1 \<le> p) \<and>
     (\<forall>l \<in> set_option (pq_limit q). 1 \<le> l \<and> l \<le> maxLimit) \<and>
     (\<forall>k \<in> set_option (pq_offset q). 0 \<le> k)"

definition paged :: "page_query \<Rightarrow> int \<Rightarrow> int \<Rightarrow> 'r list \<Rightarrow> 'r list" where
  "paged q defaultLimit maxLimit rows =
     (let (lim, off) = resolveOffsetPagination q (Some defaultLimit) maxLimit in page lim off rows)"

lemma resolve_bounds:
  assumes "valid_page_query maxLimit q" "1 \<le> maxLimit" "1 \<le> d"
    and "resolveOffsetPagination q (Some d) maxLimit = (lim, off)"
  shows "1 \<le> lim \<and> lim \<le> maxLimit \<and> 0 \<le> off"
  using assms
  by (auto simp: resolveOffsetPagination_def valid_page_query_def Let_def split: option.splits)

lemma paged_subset: "set (paged q d m rows) \<subseteq> set rows"
  by (auto simp: paged_def split: prod.splits dest: subsetD [OF page_subset])

lemma paged_sorted: "sorted (map f rows) \<Longrightarrow> sorted (map f (paged q d m rows))"
  by (simp add: paged_def sorted_take_drop split: prod.splits)

lemma paged_length: "0 \<le> m \<Longrightarrow> int (length (paged q d m rows)) \<le> m"
proof -
  assume m: "0 \<le> m"
  obtain lim off where r: "resolveOffsetPagination q (Some d) m = (lim, off)" by fastforce
  then have "lim \<le> m" by (auto simp: resolveOffsetPagination_def Let_def)
  moreover have "length (page lim off rows) \<le> nat lim" by (rule page_length)
  ultimately show "int (length (paged q d m rows)) \<le> m" using m r by (simp add: paged_def)
qed

lemma paged_tile:
  assumes "1 \<le> l" "l \<le> m"
  shows "concat (map (\<lambda>k. paged \<lparr>pq_page = Some (int k + 1), pq_limit = Some l, pq_offset = None\<rparr> d m rows)
           [0..<n]) = take (n * nat l) rows"
proof -
  have "paged \<lparr>pq_page = Some (int k + 1), pq_limit = Some l, pq_offset = None\<rparr> d m rows
      = page l (int k * l) rows" for k
    using assms by (simp add: paged_def resolveOffsetPagination_def)
  then show ?thesis using pages_tile [of l] assms by simp
qed

end
