(* ===== verification/Assets.thy ===== *)
theory Assets
  imports Schema TextOps
begin

text \<open>
  File attachments. Catalog products, gallery items and fault reports each own an ordered list of
  files in a table of their own, rewritten as a whole by a \<open>sync*Assets\<close> method of
  \<open>src/kayan/kayan.service.ts\<close> (delete the owner's rows, insert the new ones with their index as
  \<open>sort_order\<close>) and read back by an \<open>attach*Assets\<close> method. This theory holds what they share: the
  payload of one file, and the contract of such a table, the locale \<open>asset_store\<close>, whose lemmas
  say what an owner's list is after a rewrite. The tables interpret it in their own theories.
\<close>

record asset_view =
  av_file_id :: int
  av_sort_order :: int
  av_object_key :: "string option"
  av_original_filename :: "string option"
  av_mime_type :: "string option"
  av_status :: "file_status option"

text \<open>The payload built for one row of \<open>\<dots> LEFT JOIN files f ON f.id = \<dots>.file_id\<close>.\<close>

definition asset_payload :: "db \<Rightarrow> int \<Rightarrow> int \<Rightarrow> asset_view" where
  "asset_payload s file_id sort_order =
     (let f = row_by f_id file_id (files s) in
      \<lparr>av_file_id = file_id, av_sort_order = sort_order,
       av_object_key = map_option f_object_key f,
       av_original_filename = Option.bind f f_original_filename,
       av_mime_type = Option.bind f f_mime_type,
       av_status = map_option f_status f\<rparr>)"

lemma asset_payload_id [simp]:
  "av_file_id (asset_payload s f i) = f" "av_sort_order (asset_payload s f i) = i"
  by (simp_all add: asset_payload_def Let_def)

text \<open>The rows of a rewritten list: each file with its index.\<close>

definition indexed :: "int list \<Rightarrow> (int \<times> int) list" where
  "indexed fileIds = map (\<lambda>(i, f). (f, int i)) (enumerate 0 fileIds)"

lemma indexed_files [simp]: "map fst (indexed fs) = fs"
proof -
  have "map fst (indexed fs) = map snd (enumerate 0 fs)"
    by (simp add: indexed_def comp_def case_prod_unfold)
  then show ?thesis by simp
qed

lemma indexed_orders: "map snd (indexed fs) = map int [0..<length fs]"
proof -
  have "map snd (indexed fs) = map (\<lambda>p. int (fst p)) (enumerate 0 fs)"
    by (simp add: indexed_def comp_def case_prod_unfold)
  also have "\<dots> = map int (map fst (enumerate 0 fs))" by (simp only: map_map comp_def)
  also have "\<dots> = map int [0..<length fs]" by (simp only: map_fst_enumerate add_0)
  finally show ?thesis .
qed

lemma length_indexed [simp]: "length (indexed fs) = length fs"
  by (simp add: indexed_def)

locale asset_store =
  fixes insert_asset :: "int \<Rightarrow> int \<Rightarrow> int \<Rightarrow> (db, unit) handler"
    and clear :: "int \<Rightarrow> db \<Rightarrow> db"
    and sync :: "int \<Rightarrow> int list \<Rightarrow> (db, unit) handler"
    and rows :: "db \<Rightarrow> int \<Rightarrow> (int \<times> int) list"
  assumes sync_loop: "sync own fs s =
        for_each (\<lambda>(i, f). insert_asset own f (int i)) (enumerate 0 fs) (clear own s)"
    and clear_own: "rows (clear own s) own = []"
    and clear_other: "other \<noteq> own \<Longrightarrow> rows (clear own s) other = rows s other"
    and insert_own: "insert_asset own f i s = (Inr (), s') \<Longrightarrow> rows s' own = rows s own @ [(f, i)]"
    and insert_other: "other \<noteq> own \<Longrightarrow> rows (snd (insert_asset own f i s)) other = rows s other"
begin

lemma loop_own:
  "for_each (\<lambda>(i, f). insert_asset own f (int i)) (enumerate n fs) s = (Inr (), s') \<Longrightarrow>
     rows s' own = rows s own @ map (\<lambda>(i, f). (f, int i)) (enumerate n fs)"
proof (induction fs arbitrary: n s)
  case Nil
  then show ?case by simp
next
  case (Cons f fs)
  from Cons.prems obtain s1 where
    "insert_asset own f (int n) s = (Inr (), s1)"
    and "for_each (\<lambda>(i, f). insert_asset own f (int i)) (enumerate (Suc n) fs) s1 = (Inr (), s')"
    by (auto split: prod.splits sum.splits)
  then show ?case using Cons.IH insert_own by fastforce
qed

lemma loop_other:
  "other \<noteq> own \<Longrightarrow>
     rows (snd (for_each (\<lambda>(i, f). insert_asset own f (int i)) (enumerate n fs) s)) other = rows s other"
  by (rule for_each_preserves [where P = "\<lambda>t. rows t other = rows s other"])
     (auto simp: insert_other)

text \<open>After a successful rewrite the owner's rows are the given files, numbered from zero.\<close>

lemma sync_rows: "sync own fs s = (Inr (), s') \<Longrightarrow> rows s' own = indexed fs"
  using loop_own [of own 0 fs "clear own s" s'] by (simp add: sync_loop clear_own indexed_def)

lemma sync_other: "other \<noteq> own \<Longrightarrow> rows (snd (sync own fs s)) other = rows s other"
  by (simp add: sync_loop loop_other clear_other)

text \<open>An owner's list depends on the last rewrite alone.\<close>

lemma sync_overwrites:
  "sync own fs s = (Inr (), s1) \<Longrightarrow> sync own gs s1 = (Inr (), s2) \<Longrightarrow> rows s2 own = indexed gs"
  by (rule sync_rows)

lemma sync_empty: "sync own [] s = (Inr (), clear own s)"
  by (simp add: sync_loop)

end

text \<open>
  A store that accepts a file exactly when its owner and the file exist and the owner does not have
  the file yet (\<open>UNIQUE(owner, file)\<close>): then a rewrite succeeds exactly on a list of existing files
  without repetition.
\<close>

locale unique_asset_store = asset_store +
  fixes owned :: "db \<Rightarrow> int \<Rightarrow> bool"
  assumes insert_ok: "is_ok (fst (insert_asset own f i s)) \<longleftrightarrow>
        f \<notin> fst ` set (rows s own) \<and> owned s own \<and> has_key f_id f (files s)"
    and insert_frame: "files (snd (insert_asset own f i s)) = files s"
        "owned (snd (insert_asset own f i s)) j = owned s j"
    and clear_frame: "files (clear own s) = files s" "owned (clear own s) j = owned s j"
begin

lemma loop_ok:
  "is_ok (fst (for_each (\<lambda>(i, f). insert_asset own f (int i)) (enumerate n fs) s)) \<longleftrightarrow>
     distinct fs \<and> (\<forall>f \<in> set fs. f \<notin> fst ` set (rows s own) \<and> owned s own \<and> has_key f_id f (files s))"
proof (induction fs arbitrary: n s)
  case Nil
  then show ?case by simp
next
  case (Cons f fs)
  obtain x s1 where run: "insert_asset own f (int n) s = (x, s1)" by fastforce
  show ?case
  proof (cases x)
    case (Inl e)
    then show ?thesis using insert_ok [of own f "int n" s] run by auto
  next
    case (Inr u)
    have ok: "f \<notin> fst ` set (rows s own)" "owned s own" "has_key f_id f (files s)"
      using insert_ok [of own f "int n" s] run Inr by auto
    moreover have "rows s1 own = rows s own @ [(f, int n)]"
      using insert_own [of own f "int n" s s1] run Inr by simp
    moreover have "files s1 = files s" "owned s1 own = owned s own"
      using insert_frame [of own f "int n" s] run by simp_all
    ultimately show ?thesis using Cons.IH [of "Suc n" s1] run Inr by auto
  qed
qed

lemma sync_ok_iff:
  "is_ok (fst (sync own fs s)) \<longleftrightarrow>
     distinct fs \<and> (\<forall>f \<in> set fs. owned s own \<and> has_key f_id f (files s))"
  by (simp add: sync_loop loop_ok clear_own clear_frame)

end

text \<open>
  Rows whose \<open>sort_order\<close> values are the indices are already in the order the \<open>SELECT\<close> asks for.
\<close>

lemma sort_indexed:
  assumes "map g xs = map snd (indexed fs)"
    and "\<And>x y. x \<in> set xs \<Longrightarrow> y \<in> set xs \<Longrightarrow> g x < g y \<Longrightarrow> key x \<le> (key y :: 'k :: linorder)"
  shows "sort_key key xs = xs"
proof (rule sort_key_id_if_sorted)
  have "sorted_wrt (\<lambda>x y. g x < g y) xs"
  proof -
    have "sorted_wrt (<) (map int [0..<n])" for n
      by (simp add: sorted_wrt_map)
    then have "sorted_wrt (<) (map g xs)" by (simp add: assms(1) indexed_orders)
    then show ?thesis by (simp add: sorted_wrt_map)
  qed
  then have "sorted_wrt (\<lambda>x y. key x \<le> key y) xs"
    by (rule sorted_wrt_mono_rel [rotated]) (use assms(2) in auto)
  then show "sorted (map key xs)" by (simp add: sorted_map)
qed

end
