(* ===== verification/Samples.thy ===== *)
theory Samples
  imports Schema
begin

text \<open>
  Concrete rows and a small populated database, used by the witnesses: an administrator (id 1) and two
  customers (2 and 3), two products on sale, a cart, an order, and files.
\<close>

definition sample_user :: "int \<Rightarrow> bool \<Rightarrow> user" where
  "sample_user i admin =
     \<lparr>u_id = i, u_name = ''Mona'', u_phone = Some ''010'', u_email = Some ''m@x.io'',
      u_address = Some ''Cairo'', u_password_hash = ''h'', u_avatar_file_id = None,
      u_contact_info = None, u_status = User_active, u_is_admin = admin, u_token_version = 1,
      u_deleted_at = None, u_created_at = 1, u_updated_at = 1\<rparr>"

definition sample_product :: "int \<Rightarrow> string \<Rightarrow> int \<Rightarrow> int \<Rightarrow> catalog_product" where
  "sample_product i title amount price =
     \<lparr>cp_id = i, cp_title = title, cp_description = ''LED'', cp_amount = amount, cp_price = price,
      cp_details = None, cp_is_active = True, cp_created_by = 1, cp_updated_by = 1,
      cp_deleted_at = None, cp_created_at = i, cp_updated_at = i\<rparr>"

definition sample_file :: "int \<Rightarrow> file_row" where
  "sample_file i =
     \<lparr>f_id = i, f_uploader_user_id = Some 2, f_owner_type = ''user'', f_owner_id = Some 2,
      f_purpose = Purpose_product_image, f_storage_provider = ''cloudinary'', f_bucket = None,
      f_object_key = ''k'', f_original_filename = Some ''a.png'', f_mime_type = Some ''image/png'',
      f_file_size_bytes = Some 10, f_checksum_sha256 = None, f_status = File_uploaded,
      f_uploaded_at = Some 1, f_created_at = 1, f_updated_at = 1\<rparr>"

definition sample_cart :: "int \<Rightarrow> int \<Rightarrow> int \<Rightarrow> int \<Rightarrow> cart_item" where
  "sample_cart i u p q =
     \<lparr>ci_id = i, ci_user_id = u, ci_product_id = p, ci_quantity = q, ci_created_at = i, ci_updated_at = i\<rparr>"

definition sample_order :: "int \<Rightarrow> int \<Rightarrow> order_status \<Rightarrow> product_order" where
  "sample_order i u st =
     \<lparr>po_id = i, po_user_id = u, po_delivery_address = ''Cairo'', po_status = st,
      po_cancelled_at = None, po_created_at = i, po_updated_at = i\<rparr>"

definition sample_db :: db where
  "sample_db = empty_db\<lparr>clock := 100,
     seqs := (\<lambda>t. case t of T_users \<Rightarrow> 4 | T_files \<Rightarrow> 10 | T_catalog_products \<Rightarrow> 3 | T_product_orders \<Rightarrow> 2
       | T_order_items \<Rightarrow> 2 | T_order_history \<Rightarrow> 2 | T_cart_items \<Rightarrow> 3 | _ \<Rightarrow> 1),
     users := [sample_user 1 True, sample_user 2 False, sample_user 3 False],
     files := [sample_file 7, sample_file 8],
     catalog_products := [sample_product 1 ''Lamp'' 5 250, sample_product 2 ''Cable'' 9 100],
     product_orders := [sample_order 1 2 Order_RECEIVED],
     order_items := [\<lparr>oi_id = 1, oi_order_id = 1, oi_product_id = 2, oi_quantity = 1, oi_unit_price = 90\<rparr>],
     order_history := [\<lparr>h_id = 1, h_item_id = 1, h_status = Order_RECEIVED, h_changed_by = 2\<rparr>],
     cart_items := [sample_cart 1 2 2 3, sample_cart 2 2 1 1]\<rparr>"

abbreviation sample_admin :: auth_user where
  "sample_admin \<equiv> \<lparr>sub = 1, isAdmin = True\<rparr>"

abbreviation sample_customer :: auth_user where
  "sample_customer \<equiv> \<lparr>sub = 2, isAdmin = False\<rparr>"

end
