(* ===== verification/JsValue.thy ===== *)
theory JsValue
  imports TextOps Schema
begin

text \<open>
  JavaScript values as the code that handles untyped data sees them (\<open>unknown\<close>, parsed JSON, database
  rows): the value type, \<open>String.prototype.trim\<close>, the conversion \<open>Number(text)\<close> with the grammar of
  numeric literals, \<open>parseInt\<close>, and the helpers \<open>toPositiveInt\<close> (\<open>src/common/helpers/id.helpers.ts\<close>,
  repeated in \<open>jwt.strategy.ts\<close> and \<open>fk-expansion.service.ts\<close>) and \<open>mapToAppUser\<close>
  (\<open>src/common/mappers/app-user.mapper.ts\<close>).

  Numbers are exact decimals \<open>m / 10 ^ k\<close>; rounding to double precision is not modelled, so the model
  speaks of numbers the program holds exactly (identifiers below \<open>2 ^ 53\<close> among them); only \<open>FkExpansion\<close>, which
  takes ids from free data, rounds them.
\<close>

section \<open>Numbers\<close>

datatype num_value = NaN | Infinite | Dec int nat

definition whole :: "int \<Rightarrow> num_value" where
  "whole n = Dec n 0"

definition is_finite :: "num_value \<Rightarrow> bool" where
  "is_finite v = (case v of Dec _ _ \<Rightarrow> True | _ \<Rightarrow> False)"

text \<open>\<open>Number.isInteger(v)\<close>, with the integer.\<close>

definition to_integer :: "num_value \<Rightarrow> int option" where
  "to_integer v = (case v of Dec m k \<Rightarrow> if m mod 10 ^ k = 0 then Some (m div 10 ^ k) else None | _ \<Rightarrow> None)"

lemma to_integer_whole [simp]: "to_integer (whole n) = Some n"
  by (simp add: to_integer_def whole_def)

section \<open>Reading numbers\<close>

definition is_space :: "char \<Rightarrow> bool" where
  "is_space c \<longleftrightarrow> (let n = (of_char c :: nat) in n = 32 \<or> n = 160 \<or> (9 \<le> n \<and> n \<le> 13))"

definition trim :: "string \<Rightarrow> string" where
  "trim s = rev (dropWhile is_space (rev (dropWhile is_space s)))"

definition hex_val :: "char \<Rightarrow> nat option" where
  "hex_val c = (let n = (of_char c :: nat) in
     if 48 \<le> n \<and> n \<le> 57 then Some (n - 48)
     else if 97 \<le> n \<and> n \<le> 102 then Some (n - 87)
     else if 65 \<le> n \<and> n \<le> 70 then Some (n - 55)
     else None)"

fun radix_digits :: "nat \<Rightarrow> nat \<Rightarrow> string \<Rightarrow> nat option" where
  "radix_digits b n [] = Some n"
| "radix_digits b n (c # s) =
     (case hex_val c of None \<Rightarrow> None
      | Some d \<Rightarrow> if d < b then radix_digits b (b * n + d) s else None)"

definition radix_literal :: "nat \<Rightarrow> string \<Rightarrow> num_value" where
  "radix_literal b s =
     (if s = [] then NaN else case radix_digits b 0 s of None \<Rightarrow> NaN | Some n \<Rightarrow> whole (int n))"

text \<open>\<open>m / 10 ^ k\<close> scaled by a power of ten; beyond the range of a double it is infinite.\<close>

definition scale :: "int \<Rightarrow> nat \<Rightarrow> int \<Rightarrow> num_value" where
  "scale m k e =
     (if e \<le> 0 then Dec m (k + nat (- e))
      else if m \<noteq> 0 \<and> 400 + int k < e then Infinite
      else if m = 0 then whole 0
      else if (2 ^ 1024 - 2 ^ 970) * 10 ^ k \<le> \<bar>m\<bar> * 10 ^ nat e then Infinite
      else Dec (m * 10 ^ nat e) k)"

text \<open>An optional sign in front of the rest.\<close>

definition split_sign :: "string \<Rightarrow> int \<times> string" where
  "split_sign s =
     (if s \<noteq> [] \<and> hd s = CHR ''-'' then (- 1, tl s)
      else if s \<noteq> [] \<and> hd s = CHR ''+'' then (1, tl s)
      else (1, s))"

definition exponent_part :: "string \<Rightarrow> int option" where
  "exponent_part s =
     (if s = [] then Some 0
      else if hd s = CHR ''e'' \<or> hd s = CHR ''E'' then
        (let (sg, d) = split_sign (tl s) in
         if all_digits d then Some (sg * int (parse_digits d)) else None)
      else None)"

definition decimal_literal :: "int \<Rightarrow> string \<Rightarrow> num_value" where
  "decimal_literal sg s =
     (if s = ''Infinity'' then Infinite
      else
        let a = takeWhile is_digit s; r = dropWhile is_digit s;
            (b, r') = (if r \<noteq> [] \<and> hd r = CHR ''.''
                       then (takeWhile is_digit (tl r), dropWhile is_digit (tl r)) else ([], r))
        in if a @ b = [] then NaN
           else case exponent_part r' of
               None \<Rightarrow> NaN
             | Some e \<Rightarrow> scale (sg * int (parse_digits (a @ b))) (length b) e)"

definition js_Number :: "string \<Rightarrow> num_value" where
  "js_Number s =
     (let t = trim s; p = take 2 t; d = drop 2 t in
      if t = [] then whole 0
      else if p = ''0x'' \<or> p = ''0X'' then radix_literal 16 d
      else if p = ''0o'' \<or> p = ''0O'' then radix_literal 8 d
      else if p = ''0b'' \<or> p = ''0B'' then radix_literal 2 d
      else let (sg, r) = split_sign t in decimal_literal sg r)"

text \<open>\<open>parseInt(text, 10)\<close>: the longest prefix of digits; \<open>None\<close> is \<open>NaN\<close>.\<close>

definition js_parseInt :: "string \<Rightarrow> int option" where
  "js_parseInt s =
     (let t = dropWhile is_space s;
          (sg, d) = split_sign t;
          p = takeWhile is_digit d
      in if p = [] then None else Some (sg * int (parse_digits p)))"

section \<open>Values\<close>

datatype js =
    Undefined
  | Null
  | Bool bool
  | Num num_value
  | Str string
  | Arr "js list"
  | Obj "(string \<times> js) list"

text \<open>A property read: the last entry of a key counts; everything but an object answers \<open>undefined\<close>.\<close>

definition field :: "js \<Rightarrow> string \<Rightarrow> js" where
  "field v k = (case v of Obj kvs \<Rightarrow> (case map_of (rev kvs) k of None \<Rightarrow> Undefined | Some x \<Rightarrow> x) | _ \<Rightarrow> Undefined)"

text \<open>\<open>a ?? b\<close>.\<close>

definition nullish :: "js \<Rightarrow> bool" where
  "nullish v \<longleftrightarrow> v = Undefined \<or> v = Null"

definition orElse :: "js \<Rightarrow> js \<Rightarrow> js" where
  "orElse a b = (if nullish a then b else a)"

definition toPositiveInt :: "js \<Rightarrow> int option" where
  "toPositiveInt value =
     (case value of
        Num v \<Rightarrow> (case to_integer v of Some n \<Rightarrow> if 0 < n then Some n else None | None \<Rightarrow> None)
      | Str t \<Rightarrow>
          if trim t = [] then None
          else (case to_integer (js_Number t) of Some n \<Rightarrow> if 0 < n then Some n else None | None \<Rightarrow> None)
      | _ \<Rightarrow> None)"

lemma toPositiveInt_pos: "toPositiveInt v = Some n \<Longrightarrow> 0 < n"
  by (auto simp: toPositiveInt_def split: js.splits option.splits if_splits)

lemma toPositiveInt_whole [simp]: "0 < n \<Longrightarrow> toPositiveInt (Num (whole n)) = Some n"
  by (simp add: toPositiveInt_def)

text \<open>An identifier printed by the database driver (a \<open>BIGINT\<close> column is a string) reads back as itself.\<close>

lemma trim_no_space: "list_all (\<lambda>c. \<not> is_space c) s \<Longrightarrow> trim s = s"
proof -
  assume s: "list_all (\<lambda>c. \<not> is_space c) s"
  have "dropWhile is_space t = t" if "list_all (\<lambda>c. \<not> is_space c) t" for t
    using that by (cases t) auto
  moreover have "list_all (\<lambda>c. \<not> is_space c) (rev s)" using s by (simp add: list_all_iff)
  ultimately show ?thesis using s by (simp add: trim_def)
qed

lemma digit_not_space: "is_digit c \<Longrightarrow> \<not> is_space c"
  by (auto simp: is_digit_def is_space_def Let_def)

lemma decimal_literal_digits: "all_digits s \<Longrightarrow> decimal_literal 1 s = whole (int (parse_digits s))"
proof -
  assume d: "all_digits s"
  then have t: "takeWhile is_digit s = s" "dropWhile is_digit s = []"
    by (auto simp: all_digits_def list_all_iff takeWhile_eq_all_conv dropWhile_eq_Nil_conv)
  have "s \<noteq> ''Infinity''" using d by (auto simp: all_digits_def is_digit_def)
  moreover have "s \<noteq> []" using d by (simp add: all_digits_def)
  ultimately show ?thesis
    by (simp add: decimal_literal_def t Let_def exponent_part_def scale_def whole_def)
qed

lemma js_Number_digits:
  assumes "all_digits s"
  shows "js_Number s = whole (int (parse_digits s))"
proof -
  have all: "list_all is_digit s" "s \<noteq> []" using assms by (auto simp: all_digits_def)
  have "trim s = s" using all digit_not_space by (intro trim_no_space) (auto simp: list_all_iff)
  moreover have second: "take 2 s \<noteq> [c, d]" if "\<not> is_digit d" for c d
    using all that by (cases s; cases "tl s") (auto simp: list_all_iff)
  moreover have "\<not> is_digit (CHR ''x'')" "\<not> is_digit (CHR ''X'')" "\<not> is_digit (CHR ''o'')"
    "\<not> is_digit (CHR ''O'')" "\<not> is_digit (CHR ''b'')" "\<not> is_digit (CHR ''B'')"
    by (simp_all add: is_digit_def)
  moreover have "split_sign s = (1, s)"
    using all by (cases s) (auto simp: split_sign_def is_digit_def)
  ultimately show ?thesis
    using decimal_literal_digits [OF assms] all by (simp add: js_Number_def Let_def)
qed

lemma toPositiveInt_show: "0 < n \<Longrightarrow> toPositiveInt (Str (show_int n)) = Some n"
proof -
  assume n: "0 < n"
  let ?d = "show_nat (nat n)"
  have s: "show_int n = ?d" using n by (simp add: show_int_def)
  have ad: "all_digits ?d" by (rule all_digits_show_nat)
  then have "trim ?d = ?d" using digit_not_space
    by (intro trim_no_space) (auto simp: all_digits_def list_all_iff)
  then show ?thesis using n ad js_Number_digits [OF ad]
    by (simp add: toPositiveInt_def s parse_show_nat) (auto simp: all_digits_def)
qed

section \<open>String conversion\<close>

definition pad_left :: "nat \<Rightarrow> string \<Rightarrow> string" where
  "pad_left n s = replicate (n - length s) (CHR ''0'') @ s"

definition num_text :: "num_value \<Rightarrow> string" where
  "num_text v =
     (case v of
        NaN \<Rightarrow> ''NaN''
      | Infinite \<Rightarrow> ''Infinity''
      | Dec m k \<Rightarrow>
          (case to_integer v of
             Some n \<Rightarrow> show_int n
           | None \<Rightarrow>
               let a = nat \<bar>m\<bar>; frac = pad_left k (show_nat (a mod 10 ^ k))
               in (if m < 0 then ''-'' else []) @ show_nat (a div 10 ^ k) @ ''.'' @
                  rev (dropWhile (\<lambda>c. c = CHR ''0'') (rev frac))))"

fun join :: "string \<Rightarrow> string list \<Rightarrow> string" where
  "join sep [] = []"
| "join sep [x] = x"
| "join sep (x # y # ys) = x @ sep @ join sep (y # ys)"

text \<open>\<open>String(v)\<close>.\<close>

fun js_String :: "js \<Rightarrow> string" where
  "js_String Undefined = ''undefined''"
| "js_String Null = ''null''"
| "js_String (Bool b) = (if b then ''true'' else ''false'')"
| "js_String (Num v) = num_text v"
| "js_String (Str t) = t"
| "js_String (Arr xs) = join '','' (map (\<lambda>x. if nullish x then [] else js_String x) xs)"
| "js_String (Obj kvs) = ''[object Object]''"

section \<open>The user of an answer\<close>

record app_user =
  au_id :: num_value
  au_name :: string
  au_phone :: string
  au_email :: string
  au_profileState :: "string option"

definition asString :: "js \<Rightarrow> string" where
  "asString v = (case v of Str t \<Rightarrow> t | _ \<Rightarrow> [])"

definition asNullableString :: "js \<Rightarrow> string option" where
  "asNullableString v = (if nullish v then None else Some (js_String v))"

definition js_toNumber :: "js \<Rightarrow> num_value" where
  "js_toNumber v =
     (case v of
        Num x \<Rightarrow> x
      | Str t \<Rightarrow> js_Number t
      | Bool b \<Rightarrow> whole (if b then 1 else 0)
      | Undefined \<Rightarrow> NaN
      | Null \<Rightarrow> whole 0
      | Arr xs \<Rightarrow> js_Number (js_String v)
      | Obj kvs \<Rightarrow> NaN)"

definition toNumber :: "js \<Rightarrow> num_value" where
  "toNumber v = (case v of Num x \<Rightarrow> x | _ \<Rightarrow> js_toNumber (orElse v (Num (whole 0))))"

definition mapToAppUser :: "js \<Rightarrow> app_user" where
  "mapToAppUser source =
     \<lparr>au_id = toNumber (field source ''id''),
      au_name = asString (field source ''name''),
      au_phone = asString (field source ''phone''),
      au_email = asString (field source ''email''),
      au_profileState = asNullableString (orElse (field source ''profile_state'') (field source ''status''))\<rparr>"

text \<open>The user columns a query selects, as the driver hands them over (a \<open>BIGINT\<close> is a string).\<close>

definition opt_str :: "string option \<Rightarrow> js" where
  "opt_str v = (case v of None \<Rightarrow> Null | Some t \<Rightarrow> Str t)"

fun user_status_text :: "user_status \<Rightarrow> string" where
  "user_status_text User_active = ''active''"
| "user_status_text User_paused = ''paused''"
| "user_status_text User_banned = ''banned''"

definition user_js :: "user \<Rightarrow> js" where
  "user_js u = Obj [(''id'', Str (show_int (u_id u))), (''name'', Str (u_name u)), (''phone'', opt_str (u_phone u)),
     (''email'', opt_str (u_email u)), (''status'', Str (user_status_text (u_status u)))]"

lemma js_Number_show: "0 < n \<Longrightarrow> js_Number (show_int n) = whole n"
  using js_Number_digits [OF all_digits_show_nat, of "nat n"] by (simp add: show_int_def parse_show_nat)

text \<open>The mapper of a user row: the id as a number, a missing phone or e-mail as the empty text.\<close>

lemma mapToAppUser_row:
  assumes "0 < u_id u"
  shows "mapToAppUser (user_js u) =
    \<lparr>au_id = whole (u_id u), au_name = u_name u, au_phone = coalesce (u_phone u) [],
     au_email = coalesce (u_email u) [], au_profileState = Some (user_status_text (u_status u))\<rparr>"
  using assms
  by (cases "u_phone u"; cases "u_email u")
    (simp_all add: mapToAppUser_def user_js_def field_def toNumber_def orElse_def nullish_def asString_def
      asNullableString_def opt_str_def js_toNumber_def js_Number_show)

end
