(* ===== verification/Catalog.thy ===== *)
theory Catalog
  imports Assets Samples JsValue
begin

text \<open>
  The catalog of \<open>KayanService\<close> (\<open>src/kayan/kayan.service.ts\<close>): the public product list with its
  filters, the product page, and the administrator's create, update and delete, with the product's
  images and files (\<open>syncProductAssets\<close>, \<open>attachProductAssets\<close>). Stored prices, and the bounds of a price filter, are
  integers in hundredths; the price an administrator sends is any number.
\<close>

section \<open>Statements on \<open>catalog_products\<close> and \<open>product_assets\<close>\<close>

text \<open>
  The column constraints of \<open>catalog_products\<close>: \<open>amount\<close> is an \<open>INTEGER\<close>, \<open>price\<close> a
  \<open>NUMERIC(12,2)\<close>, and neither is negative.
\<close>

definition cp_range :: "catalog_product \<Rightarrow> bool" where
  "cp_range r \<longleftrightarrow> int4 (cp_amount r) \<and> \<bar>cp_price r\<bar> < 10 ^ 12"

text \<open>
  A price arrives as a number of JavaScript and is stored in hundredths: PostgreSQL rounds the decimal it is sent to two
  places, half away from zero. An infinite one is beyond the column (as is \<open>10 ^ 12\<close>); \<open>NaN\<close> does not pass validation.
\<close>

definition numeric_cents :: "num_value \<Rightarrow> int" where
  "numeric_cents v =
     (case v of Dec m k \<Rightarrow> sgn m * ((200 * \<bar>m\<bar> + 10 ^ k) div (2 * 10 ^ k)) | _ \<Rightarrow> 10 ^ 12)"

definition cp_check :: "catalog_product \<Rightarrow> bool" where
  "cp_check r \<longleftrightarrow> 0 \<le> cp_amount r \<and> 0 \<le> cp_price r"

text \<open>\<open>UPDATE catalog_products SET \<dots> WHERE \<dots>\<close>; the result is its row count.\<close>

definition sql_update_products ::
  "(catalog_product \<Rightarrow> bool) \<Rightarrow> (catalog_product \<Rightarrow> catalog_product) \<Rightarrow> (db, nat) handler" where
  "sql_update_products p f s =
     (let hit = filter p (catalog_products s) in
      if \<not> list_all (\<lambda>r. cp_range (f r)) hit then (Inl (SqlError ''22003''), s)
      else if \<not> list_all (\<lambda>r. cp_check (f r)) hit then (Inl (SqlError ''23514''), s)
      else if list_ex (\<lambda>r. cp_updated_by (f r) \<noteq> cp_updated_by r \<and>
                            \<not> has_key u_id (cp_updated_by (f r)) (users s)) hit
      then (Inl (SqlError ''23503''), s)
      else (Inr (length hit), s\<lparr>catalog_products := update_where p f (catalog_products s)\<rparr>))"

definition live_product :: "db \<Rightarrow> int \<Rightarrow> catalog_product option" where
  "live_product s i = find (\<lambda>r. cp_id r = i \<and> cp_deleted_at r = None) (catalog_products s)"

definition insert_product_asset :: "asset_type \<Rightarrow> int \<Rightarrow> int \<Rightarrow> int \<Rightarrow> (db, unit) handler" where
  "insert_product_asset ty productId fileId i s =
     (let s1 = bump T_product_assets s in
      if list_ex (\<lambda>a. pa_product_id a = productId \<and> pa_file_id a = fileId) (product_assets s)
      then (Inl (SqlError ''23505''), s1)
      else if \<not> has_key cp_id productId (catalog_products s) \<or> \<not> has_key f_id fileId (files s)
      then (Inl (SqlError ''23503''), s1)
      else (Inr (), s1\<lparr>product_assets := product_assets s @
             [\<lparr>pa_id = seqs s T_product_assets, pa_product_id = productId, pa_file_id = fileId,
               pa_asset_type = ty, pa_sort_order = i\<rparr>]\<rparr>))"

definition clear_product_assets :: "asset_type \<Rightarrow> int \<Rightarrow> db \<Rightarrow> db" where
  "clear_product_assets ty productId s =
     s\<lparr>product_assets :=
        delete_where (\<lambda>a. pa_product_id a = productId \<and> pa_asset_type a = ty) (product_assets s)\<rparr>"

definition syncProductAssets :: "asset_type \<Rightarrow> int \<Rightarrow> int list \<Rightarrow> (db, unit) handler" where
  "syncProductAssets ty productId fileIds s =
     for_each (\<lambda>(i, f). insert_product_asset ty productId f (int i)) (enumerate 0 fileIds)
       (clear_product_assets ty productId s)"

section \<open>Reading products\<close>

text \<open>\<open>asset_type\<close> is a text column: \<open>'file'\<close> sorts before \<open>'image'\<close>.\<close>

fun asset_type_rank :: "asset_type \<Rightarrow> int" where
  "asset_type_rank Asset_file = 0"
| "asset_type_rank Asset_image = 1"

definition pair_bucket :: "(int \<rightharpoonup> 'a list \<times> 'a list) \<Rightarrow> int \<Rightarrow> 'a list \<times> 'a list" where
  "pair_bucket m k = (case m k of None \<Rightarrow> ([], []) | Some b \<Rightarrow> b)"

definition push_product_asset ::
  "db \<Rightarrow> (int \<rightharpoonup> asset_view list \<times> asset_view list) \<Rightarrow> product_asset \<Rightarrow>
     (int \<rightharpoonup> asset_view list \<times> asset_view list)" where
  "push_product_asset s m a =
     (let (images, fls) = pair_bucket m (pa_product_id a);
          payload = asset_payload s (pa_file_id a) (pa_sort_order a)
      in m(pa_product_id a \<mapsto>
            (if pa_asset_type a = Asset_image then (images @ [payload], fls)
             else (images, fls @ [payload]))))"

definition attachProductAssets ::
  "db \<Rightarrow> ('p \<Rightarrow> int) \<Rightarrow> 'p list \<Rightarrow> ('p \<times> asset_view list \<times> asset_view list) list" where
  "attachProductAssets s pid ps =
     (if ps = [] then []
      else
        let productIds = map pid ps;
            assets = sort_key
              (\<lambda>a. (pa_product_id a, asset_type_rank (pa_asset_type a), pa_sort_order a, pa_id a))
              (filter (\<lambda>a. pa_product_id a \<in> set productIds) (product_assets s));
            byProductId = foldl (push_product_asset s) Map.empty assets
        in map (\<lambda>p. (p, pair_bucket byProductId (pid p))) ps)"

record product_view =
  pv_id :: int
  pv_title :: string
  pv_description :: string
  pv_amount :: int
  pv_price :: int
  pv_details :: "string option"
  pv_is_active :: bool
  pv_created_at :: time
  pv_updated_at :: time
  pv_rate :: int

definition product_rate :: "db \<Rightarrow> int \<Rightarrow> int" where
  "product_rate s i = avg2 (map pr_rating_value (filter (\<lambda>r. pr_product_id r = i) (product_ratings s)))"

definition product_row :: "db \<Rightarrow> catalog_product \<Rightarrow> product_view" where
  "product_row s r =
     \<lparr>pv_id = cp_id r, pv_title = cp_title r, pv_description = cp_description r,
      pv_amount = cp_amount r, pv_price = cp_price r, pv_details = cp_details r,
      pv_is_active = cp_is_active r, pv_created_at = cp_created_at r,
      pv_updated_at = cp_updated_at r, pv_rate = product_rate s (cp_id r)\<rparr>"

type_synonym product_detail = "product_view \<times> asset_view list \<times> asset_view list"

definition getProductWithAssets :: "db \<Rightarrow> int \<Rightarrow> product_detail result" where
  "getProductWithAssets s productId =
     (case live_product s productId of
        None \<Rightarrow> Inl (NotFound ''Product not found'')
      | Some r \<Rightarrow> Inr (hd (attachProductAssets s pv_id [product_row s r])))"

definition getProduct :: "db \<Rightarrow> int \<Rightarrow> product_detail result" where
  "getProduct s productId = getProductWithAssets s productId"

datatype product_sort_by = Sort_CREATED_AT | Sort_PRICE

record list_products_query = page_query +
  lp_query :: "string option"
  lp_minPrice :: "int option"
  lp_maxPrice :: "int option"
  lp_fromDate :: "time option"
  lp_toDate :: "time option"
  lp_availability :: "availability_filter option"
  lp_sortBy :: "product_sort_by option"
  lp_sortDirection :: "sort_direction option"
  lp_minRate :: "int option"
  lp_maxRate :: "int option"

text \<open>The \<open>WHERE\<close> conditions. An empty search text is falsy in JavaScript and adds none.\<close>

definition product_where :: "list_products_query \<Rightarrow> catalog_product \<Rightarrow> bool" where
  "product_where q r \<longleftrightarrow>
     cp_deleted_at r = None \<and>
     (case lp_availability q of
        None \<Rightarrow> cp_is_active r
      | Some Filter_ACTIVE \<Rightarrow> cp_is_active r
      | Some Filter_INACTIVE \<Rightarrow> \<not> cp_is_active r
      | Some Filter_ALL \<Rightarrow> True) \<and>
     opt_holds (lp_query q) (\<lambda>t. t = [] \<or>
        ilike (cp_title r) (contains_pattern t) \<or> ilike (cp_description r) (contains_pattern t)) \<and>
     opt_holds (lp_minPrice q) (\<lambda>b. cp_price r \<ge> b) \<and>
     opt_holds (lp_maxPrice q) (\<lambda>b. cp_price r \<le> b)"

text \<open>The \<open>HAVING\<close> conditions, on the rounded average (held in hundredths).\<close>

definition product_having :: "list_products_query \<Rightarrow> product_view \<Rightarrow> bool" where
  "product_having q v \<longleftrightarrow>
     opt_holds (lp_minRate q) (\<lambda>b. pv_rate v \<ge> 100 * b) \<and>
     opt_holds (lp_maxRate q) (\<lambda>b. pv_rate v \<le> 100 * b)"

definition product_order_key :: "list_products_query \<Rightarrow> product_view \<Rightarrow> int \<times> int" where
  "product_order_key q v =
     order_key (case lp_sortDirection q of None \<Rightarrow> Dir_DESC | Some d \<Rightarrow> d)
       (case lp_sortBy q of Some Sort_PRICE \<Rightarrow> pv_price v | _ \<Rightarrow> pv_created_at v) (pv_id v)"

text \<open>All products a query selects, in its order, before paging.\<close>

definition selected_products :: "db \<Rightarrow> list_products_query \<Rightarrow> product_view list" where
  "selected_products s q =
     sort_key (product_order_key q)
       (filter (product_having q) (map (product_row s) (filter (product_where q) (catalog_products s))))"

text \<open>
  The two date conditions name the column \<open>created_at\<close> without the alias of its table, and both joined
  tables have one (migration 0021): PostgreSQL rejects the statement as ambiguous (\<open>42702\<close>). A date
  filter is a non-empty text after validation, so its condition is always pushed.
\<close>

definition listProducts :: "db \<Rightarrow> list_products_query \<Rightarrow> product_detail list result" where
  "listProducts s q =
     (if lp_fromDate q \<noteq> None \<or> lp_toDate q \<noteq> None then Inl (SqlError ''42702'')
      else Inr (attachProductAssets s pv_id
             (paged (page_query.truncate q) 20 100 (selected_products s q))))"

section \<open>Administration\<close>

record admin_create_product =
  nc_title :: string
  nc_description :: string
  nc_amount :: int
  nc_price :: num_value
  nc_details :: "string option"
  nc_imageFileIds :: "int list option"
  nc_fileIds :: "int list option"

record admin_update_product =
  uc_title :: "string option"
  uc_description :: "string option"
  uc_amount :: "int option"
  uc_price :: "num_value option"
  uc_details :: "string option"
  uc_isActive :: "bool option"
  uc_imageFileIds :: "int list option"
  uc_fileIds :: "int list option"

definition insert_product :: "int \<Rightarrow> admin_create_product \<Rightarrow> (db, int) handler" where
  "insert_product adminId dto s =
     (let s1 = bump T_catalog_products s;
          r = \<lparr>cp_id = seqs s T_catalog_products, cp_title = nc_title dto,
               cp_description = nc_description dto, cp_amount = nc_amount dto,
               cp_price = numeric_cents (nc_price dto), cp_details = nc_details dto, cp_is_active = True,
               cp_created_by = adminId, cp_updated_by = adminId, cp_deleted_at = None,
               cp_created_at = clock s, cp_updated_at = clock s\<rparr>
      in if \<not> cp_range r then (Inl (SqlError ''22003''), s1)
         else if \<not> cp_check r then (Inl (SqlError ''23514''), s1)
         else if \<not> has_key u_id adminId (users s) then (Inl (SqlError ''23503''), s1)
         else (Inr (cp_id r), s1\<lparr>catalog_products := catalog_products s @ [r]\<rparr>))"

definition adminCreateProduct :: "auth_user \<Rightarrow> admin_create_product \<Rightarrow> (db, product_detail) handler" where
  "adminCreateProduct admin dto =
     with_transaction
       (bind_h (insert_product (sub admin) dto) (\<lambda>productId.
        bind_h (syncProductAssets Asset_image productId (coalesce (nc_imageFileIds dto) [])) (\<lambda>_.
        bind_h (syncProductAssets Asset_file productId (coalesce (nc_fileIds dto) [])) (\<lambda>_ s.
        (getProductWithAssets s productId, s)))))"

definition product_update_set ::
  "int \<Rightarrow> admin_update_product \<Rightarrow> time \<Rightarrow> catalog_product \<Rightarrow> catalog_product" where
  "product_update_set adminId dto now r =
     r\<lparr>cp_title := coalesce (uc_title dto) (cp_title r),
       cp_description := coalesce (uc_description dto) (cp_description r),
       cp_amount := coalesce (uc_amount dto) (cp_amount r),
       cp_price := coalesce (map_option numeric_cents (uc_price dto)) (cp_price r),
       cp_details := coalesce_opt (uc_details dto) (cp_details r),
       cp_is_active := coalesce (uc_isActive dto) (cp_is_active r),
       cp_updated_by := adminId, cp_updated_at := now\<rparr>"

definition adminUpdateProduct ::
  "auth_user \<Rightarrow> int \<Rightarrow> admin_update_product \<Rightarrow> (db, product_detail) handler" where
  "adminUpdateProduct admin productId dto =
     with_transaction
       (bind_h (\<lambda>s. sql_update_products (\<lambda>r. cp_id r = productId \<and> cp_deleted_at r = None)
                       (product_update_set (sub admin) dto (clock s)) s) (\<lambda>rowCount.
        if rowCount = 0 then (\<lambda>s. (Inl (NotFound ''Product not found''), s))
        else
          bind_h (sync_if (syncProductAssets Asset_image productId) (uc_imageFileIds dto)) (\<lambda>_.
          bind_h (sync_if (syncProductAssets Asset_file productId) (uc_fileIds dto)) (\<lambda>_ s.
          (getProductWithAssets s productId, s)))))"

definition adminDeleteProduct :: "auth_user \<Rightarrow> int \<Rightarrow> (db, string) handler" where
  "adminDeleteProduct admin productId s =
     (case sql_update_products (\<lambda>r. cp_id r = productId \<and> cp_deleted_at r = None)
             (\<lambda>r. r\<lparr>cp_deleted_at := Some (clock s), cp_updated_by := sub admin,
                     cp_updated_at := clock s\<rparr>) s of
        (Inl e, s1) \<Rightarrow> (Inl e, s1)
      | (Inr rowCount, s1) \<Rightarrow>
          if rowCount = 0 then (Inl (NotFound ''Product not found''), s1)
          else (Inr ''Product deleted'', s1))"

section \<open>The product page\<close>

lemma pair_bucket_push:
  "pair_bucket (push_product_asset s m a) k =
     (fst (pair_bucket m k) @ (if pa_product_id a = k \<and> pa_asset_type a = Asset_image
        then [asset_payload s (pa_file_id a) (pa_sort_order a)] else []),
      snd (pair_bucket m k) @ (if pa_product_id a = k \<and> pa_asset_type a = Asset_file
        then [asset_payload s (pa_file_id a) (pa_sort_order a)] else []))"
proof -
  obtain i f where "pair_bucket m (pa_product_id a) = (i, f)" by fastforce
  then show ?thesis
    by (cases "pa_asset_type a") (auto simp: push_product_asset_def Let_def pair_bucket_def)
qed

lemma pair_bucket_foldl:
  fixes s
  defines "payload \<equiv> \<lambda>a. asset_payload s (pa_file_id a) (pa_sort_order a)"
  shows "pair_bucket (foldl (push_product_asset s) m xs) k =
     (fst (pair_bucket m k) @
        map payload (filter (\<lambda>a. pa_product_id a = k \<and> pa_asset_type a = Asset_image) xs),
      snd (pair_bucket m k) @
        map payload (filter (\<lambda>a. pa_product_id a = k \<and> pa_asset_type a = Asset_file) xs))"
  by (induction xs arbitrary: m) (auto simp: pair_bucket_push payload_def)

text \<open>What the product page shows: the product's files of one kind, by \<open>sort_order\<close> and then id.\<close>

definition product_files :: "db \<Rightarrow> asset_type \<Rightarrow> int \<Rightarrow> asset_view list" where
  "product_files s ty i =
     map (\<lambda>a. asset_payload s (pa_file_id a) (pa_sort_order a))
       (sort_key (\<lambda>a. (pa_sort_order a, pa_id a))
         (filter (\<lambda>a. pa_product_id a = i \<and> pa_asset_type a = ty) (product_assets s)))"

lemma product_assets_query:
  assumes "i \<in> ids"
  shows "filter (\<lambda>a. pa_product_id a = i \<and> pa_asset_type a = ty)
      (sort_key (\<lambda>a. (pa_product_id a, asset_type_rank (pa_asset_type a), pa_sort_order a, pa_id a))
        (filter (\<lambda>a. pa_product_id a \<in> ids) (product_assets s))) =
    sort_key (\<lambda>a. (pa_sort_order a, pa_id a))
      (filter (\<lambda>a. pa_product_id a = i \<and> pa_asset_type a = ty) (product_assets s))"
proof -
  have "filter (\<lambda>a. pa_product_id a = i \<and> pa_asset_type a = ty)
          (filter (\<lambda>a. pa_product_id a \<in> ids) (product_assets s)) =
        filter (\<lambda>a. pa_product_id a = i \<and> pa_asset_type a = ty) (product_assets s)"
    using assms by (auto intro!: filter_cong)
  then show ?thesis
    by (simp only: filter_sort) (rule sort_key_same_order, auto simp: less_eq_prod_def)
qed

lemma attachProductAssets_eq:
  "attachProductAssets s pid ps =
     map (\<lambda>p. (p, product_files s Asset_image (pid p), product_files s Asset_file (pid p))) ps"
proof (cases "ps = []")
  case True
  then show ?thesis by (simp add: attachProductAssets_def)
next
  case False
  show ?thesis
    unfolding attachProductAssets_def Let_def if_not_P [OF False] pair_bucket_foldl
    by (rule map_cong [OF refl]) (simp add: product_assets_query product_files_def pair_bucket_def)
qed

lemma attachProductAssets_fst [simp]: "map fst (attachProductAssets s pid ps) = ps"
  by (simp add: attachProductAssets_eq comp_def)

lemma getProductWithAssets_eq:
  "getProductWithAssets s i =
     (case live_product s i of
        None \<Rightarrow> Inl (NotFound ''Product not found'')
      | Some r \<Rightarrow> Inr (product_row s r, product_files s Asset_image i, product_files s Asset_file i))"
  by (auto simp: getProductWithAssets_def attachProductAssets_eq product_row_def live_product_def
      dest: find_SomeD split: option.splits)

section \<open>The attachments of a product\<close>

definition product_asset_rows :: "asset_type \<Rightarrow> db \<Rightarrow> int \<Rightarrow> (int \<times> int) list" where
  "product_asset_rows ty s i =
     map (\<lambda>a. (pa_file_id a, pa_sort_order a))
       (filter (\<lambda>a. pa_product_id a = i \<and> pa_asset_type a = ty) (product_assets s))"

interpretation product_store:
  asset_store "insert_product_asset ty" "clear_product_assets ty" "syncProductAssets ty"
    "product_asset_rows ty" for ty
proof unfold_locales
  show "syncProductAssets ty own fs s = for_each (\<lambda>(i, f). insert_product_asset ty own f (int i))
          (enumerate 0 fs) (clear_product_assets ty own s)" for own fs s
    by (simp add: syncProductAssets_def)
  show "product_asset_rows ty (clear_product_assets ty own s) own = []" for own s
    by (simp add: product_asset_rows_def clear_product_assets_def delete_where_def)
  show "product_asset_rows ty (clear_product_assets ty own s) other = product_asset_rows ty s other"
    if "other \<noteq> own" for other own s
    using that
    by (auto simp: product_asset_rows_def clear_product_assets_def delete_where_def
        intro!: arg_cong [where f = "map _"] filter_cong)
  show "product_asset_rows ty s' own = product_asset_rows ty s own @ [(f, i)]"
    if "insert_product_asset ty own f i s = (Inr (), s')" for own f i s s'
    using that by (auto simp: insert_product_asset_def product_asset_rows_def Let_def split: if_splits)
  show "product_asset_rows ty (snd (insert_product_asset ty own f i s)) other = product_asset_rows ty s other"
    if "other \<noteq> own" for other own f i s
    using that by (auto simp: insert_product_asset_def product_asset_rows_def bump_def Let_def)
qed

text \<open>Rewriting a product's images does not touch its files, and the other way round.\<close>

lemma sync_other_type:
  assumes "ty' \<noteq> ty"
  shows "product_asset_rows ty' (snd (syncProductAssets ty own fs s)) i = product_asset_rows ty' s i"
  unfolding syncProductAssets_def
proof (rule for_each_preserves [where P = "\<lambda>t. product_asset_rows ty' t i = product_asset_rows ty' s i"])
  show "product_asset_rows ty' (snd ((\<lambda>(i, f). insert_product_asset ty own f (int i)) x t)) i
      = product_asset_rows ty' s i"
    if "product_asset_rows ty' t i = product_asset_rows ty' s i" for x t
    using that assms
    by (auto simp: insert_product_asset_def product_asset_rows_def bump_def Let_def split: prod.splits)
  show "product_asset_rows ty' (clear_product_assets ty own s) i = product_asset_rows ty' s i"
    using assms by (auto simp: product_asset_rows_def clear_product_assets_def delete_where_def
        intro!: arg_cong [where f = "map _"] filter_cong)
qed

lemma product_files_indexed:
  assumes "product_asset_rows ty s i = indexed fs"
  shows "map av_file_id (product_files s ty i) = fs"
proof -
  let ?xs = "filter (\<lambda>a. pa_product_id a = i \<and> pa_asset_type a = ty) (product_assets s)"
  have "map snd (product_asset_rows ty s i) = map snd (indexed fs)"
    and ids: "map fst (product_asset_rows ty s i) = fs" using assms by simp_all
  then have "map pa_sort_order ?xs = map snd (indexed fs)"
    by (simp add: product_asset_rows_def comp_def)
  then have "sort_key (\<lambda>a. (pa_sort_order a, pa_id a)) ?xs = ?xs"
    by (rule sort_indexed) auto
  then show ?thesis
    using ids by (simp add: product_files_def product_asset_rows_def comp_def)
qed

section \<open>The product list\<close>

lemma product_row_sel [simp]:
  "pv_id (product_row s r) = cp_id r" "pv_is_active (product_row s r) = cp_is_active r"
  "pv_price (product_row s r) = cp_price r" "pv_rate (product_row s r) = product_rate s (cp_id r)"
  "pv_title (product_row s r) = cp_title r" "pv_description (product_row s r) = cp_description r"
  "pv_created_at (product_row s r) = cp_created_at r" "pv_amount (product_row s r) = cp_amount r"
  by (simp_all add: product_row_def)

text \<open>The products of an answer, without their files.\<close>

definition listed :: "db \<Rightarrow> list_products_query \<Rightarrow> product_view list" where
  "listed s q = (case listProducts s q of Inl _ \<Rightarrow> [] | Inr items \<Rightarrow> map fst items)"

lemma listed_eq:
  "lp_fromDate q = None \<Longrightarrow> lp_toDate q = None \<Longrightarrow>
     listed s q = paged (page_query.truncate q) 20 100 (selected_products s q)"
  by (simp add: listed_def listProducts_def)

lemma listed_subset: "set (listed s q) \<subseteq> set (selected_products s q)"
proof (cases "lp_fromDate q = None \<and> lp_toDate q = None")
  case True
  then show ?thesis by (simp add: listed_eq paged_subset)
next
  case False
  then show ?thesis by (auto simp: listed_def listProducts_def)
qed

lemma set_selected_products:
  "set (selected_products s q) =
     {v. \<exists>r \<in> set (catalog_products s). v = product_row s r \<and> product_where q r \<and>
          product_having q (product_row s r)}"
  by (auto simp: selected_products_def)

text \<open>C15: every product a \<open>GET /products\<close> answer lists is a row of the catalog that is not
  soft-deleted, is active unless the caller asked otherwise, contains the search text in its title or
  description ignoring case (no character of the text acts as a wildcard), lies in the price range and
  has an average rating in the requested range. A request with a date filter never gets an answer: it
  fails in the database, because the filtered column name is ambiguous.\<close>

theorem listProducts_sound:
  "case listProducts s q of
     Inl e \<Rightarrow> e = SqlError ''42702'' \<and> (lp_fromDate q \<noteq> None \<or> lp_toDate q \<noteq> None)
   | Inr items \<Rightarrow> lp_fromDate q = None \<and> lp_toDate q = None \<and>
       (\<forall>v \<in> fst ` set items.
         \<exists>r \<in> set (catalog_products s). v = product_row s r \<and> cp_deleted_at r = None \<and>
           (lp_availability q \<noteq> Some Filter_ALL \<longrightarrow>
              cp_is_active r = (lp_availability q \<noteq> Some Filter_INACTIVE)) \<and>
           (\<forall>t. lp_query q = Some t \<longrightarrow> sublist (lower t) (lower (cp_title r)) \<or>
              sublist (lower t) (lower (cp_description r))) \<and>
           (\<forall>b. lp_minPrice q = Some b \<longrightarrow> b \<le> cp_price r) \<and>
           (\<forall>b. lp_maxPrice q = Some b \<longrightarrow> cp_price r \<le> b) \<and>
           (\<forall>b. lp_minRate q = Some b \<longrightarrow> 100 * b \<le> product_rate s (cp_id r)) \<and>
           (\<forall>b. lp_maxRate q = Some b \<longrightarrow> product_rate s (cp_id r) \<le> 100 * b))"
proof (cases "listProducts s q")
  case (Inl e)
  then show ?thesis by (auto simp: listProducts_def split: if_splits)
next
  case (Inr items)
  have "\<exists>r \<in> set (catalog_products s). v = product_row s r \<and> cp_deleted_at r = None \<and>
      (lp_availability q \<noteq> Some Filter_ALL \<longrightarrow>
         cp_is_active r = (lp_availability q \<noteq> Some Filter_INACTIVE)) \<and>
      (\<forall>t. lp_query q = Some t \<longrightarrow> sublist (lower t) (lower (cp_title r)) \<or>
         sublist (lower t) (lower (cp_description r))) \<and>
      (\<forall>b. lp_minPrice q = Some b \<longrightarrow> b \<le> cp_price r) \<and>
      (\<forall>b. lp_maxPrice q = Some b \<longrightarrow> cp_price r \<le> b) \<and>
      (\<forall>b. lp_minRate q = Some b \<longrightarrow> 100 * b \<le> product_rate s (cp_id r)) \<and>
      (\<forall>b. lp_maxRate q = Some b \<longrightarrow> product_rate s (cp_id r) \<le> 100 * b)"
    if "v \<in> fst ` set items" for v
  proof -
    have "v \<in> set (listed s q)" using that Inr by (simp add: listed_def)
    then have "v \<in> set (selected_products s q)" by (rule subsetD [OF listed_subset])
    then obtain r where r: "r \<in> set (catalog_products s)" "v = product_row s r"
        and wh: "product_where q r" and hv: "product_having q (product_row s r)"
      by (auto simp: set_selected_products)
    show ?thesis
    proof (intro bexI [OF _ r(1)] conjI)
      show "lp_availability q \<noteq> Some Filter_ALL \<longrightarrow>
          cp_is_active r = (lp_availability q \<noteq> Some Filter_INACTIVE)"
        using wh by (auto simp: product_where_def split: option.splits availability_filter.splits)
      show "\<forall>t. lp_query q = Some t \<longrightarrow> sublist (lower t) (lower (cp_title r)) \<or>
          sublist (lower t) (lower (cp_description r))"
        using wh by (auto simp: product_where_def ilike_contains_pattern)
    qed (use r wh hv in \<open>auto simp: product_where_def product_having_def\<close>)
  qed
  then show ?thesis using Inr by (auto simp: listProducts_def split: if_splits)
qed

text \<open>Paging through \<open>GET /products\<close> with a fixed page size visits every selected product once,
  in the order of the query: the first \<open>n\<close> pages are the first \<open>n\<close> times \<open>l\<close> products of the whole
  sorted selection.\<close>

theorem listProducts_pages:
  assumes "1 \<le> l" and "l \<le> 100" and "lp_fromDate q = None" and "lp_toDate q = None"
  shows "concat (map (\<lambda>k. listed s
             (q\<lparr>pq_page := Some (int k + 1), pq_limit := Some l, pq_offset := None\<rparr>)) [0..<n])
       = take (n * nat l) (selected_products s q) \<and>
     sorted (map (product_order_key q) (selected_products s q))"
proof
  have "selected_products s (q\<lparr>pq_page := a, pq_limit := b, pq_offset := c\<rparr>) = selected_products s q"
    for a b c
    by (simp add: selected_products_def product_where_def [abs_def] product_having_def [abs_def]
        product_order_key_def [abs_def])
  then have "listed s (q\<lparr>pq_page := Some (int k + 1), pq_limit := Some l, pq_offset := None\<rparr>)
      = paged \<lparr>pq_page = Some (int k + 1), pq_limit = Some l, pq_offset = None\<rparr> 20 100
          (selected_products s q)" for k
    by (simp add: listed_eq assms(3,4) page_query.defs)
  then show "concat (map (\<lambda>k. listed s
      (q\<lparr>pq_page := Some (int k + 1), pq_limit := Some l, pq_offset := None\<rparr>)) [0..<n])
    = take (n * nat l) (selected_products s q)"
    using paged_tile [OF assms(1,2)] by simp
  show "sorted (map (product_order_key q) (selected_products s q))"
    by (simp add: selected_products_def)
qed

section \<open>Create, update, delete\<close>

text \<open>The invariant of the catalog: unique identifiers below the sequence, and the column checks.\<close>

definition catalog_inv :: "db \<Rightarrow> bool" where
  "catalog_inv s \<longleftrightarrow> pk cp_id (seqs s T_catalog_products) (catalog_products s) \<and>
     (\<forall>r \<in> set (catalog_products s). cp_check r \<and> cp_range r)"

lemma catalog_inv_mono:
  assumes "catalog_inv s" "catalog_products s' = catalog_products s"
    and "seqs s T_catalog_products \<le> seqs s' T_catalog_products"
  shows "catalog_inv s'"
  using assms pk_mono by (auto simp: catalog_inv_def)

lemma sync_keeps_catalog:
  "catalog_products (snd (syncProductAssets ty i fs s)) = catalog_products s \<and>
   product_ratings (snd (syncProductAssets ty i fs s)) = product_ratings s \<and>
   seqs (snd (syncProductAssets ty i fs s)) T_catalog_products = seqs s T_catalog_products"
  unfolding syncProductAssets_def
  by (rule for_each_preserves [where P = "\<lambda>t. catalog_products t = catalog_products s \<and>
        product_ratings t = product_ratings s \<and> seqs t T_catalog_products = seqs s T_catalog_products"])
     (auto simp: insert_product_asset_def clear_product_assets_def bump_def Let_def split: prod.splits)

lemma live_product_pk:
  "catalog_inv s \<Longrightarrow> live_product s i =
     (case row_by cp_id i (catalog_products s) of
        None \<Rightarrow> None | Some r \<Rightarrow> if cp_deleted_at r = None then Some r else None)"
  unfolding live_product_def catalog_inv_def by (rule pk_find_and) blast

lemma live_product_cong:
  "catalog_products s = catalog_products s' \<Longrightarrow> live_product s i = live_product s' i"
  by (simp add: live_product_def)

lemma product_row_cong:
  "product_ratings s = product_ratings s' \<Longrightarrow> product_row s r = product_row s' r"
  by (simp add: product_row_def product_rate_def)

lemma numeric_cents_nearest:
  assumes "0 \<le> m"
  shows "(2 * numeric_cents (Dec m k) - 1) * 10 ^ k \<le> 200 * m" "200 * m < (2 * numeric_cents (Dec m k) + 1) * 10 ^ k"
proof -
  let ?d = "2 * 10 ^ k :: int" and ?n = "200 * m + 10 ^ k"
  have c: "numeric_cents (Dec m k) = ?n div ?d" using assms by (cases "m = 0") (simp_all add: numeric_cents_def div_pos_pos_trivial)
  define q r where "q = ?n div ?d" and "r = ?n mod ?d"
  then have n: "?n = q * ?d + r" and r: "0 \<le> r" "r < ?d"
    by (simp_all only: div_mult_mod_eq) (simp_all add: pos_mod_bound)
  show "(2 * numeric_cents (Dec m k) - 1) * 10 ^ k \<le> 200 * m" "200 * m < (2 * numeric_cents (Dec m k) + 1) * 10 ^ k"
    unfolding c q_def [symmetric] using n r by (simp_all add: algebra_simps)
qed

text \<open>C16: when \<open>POST /admin/products\<close> succeeds, the product it answers with (and the product page
  afterwards) has the given title and stock, and as its price the given decimal \<open>m / 10 ^ k\<close> rounded to the nearest
  hundredth, half up (an infinite price never succeeds); it is active, and lists exactly the given image and
  file ids, in the given order; every other product is untouched.\<close>

theorem adminCreateProduct_roundtrip:
  assumes inv: "catalog_inv s"
    and ok: "adminCreateProduct admin dto s = (Inr (v, images, fls), s')"
  shows "getProduct s' (pv_id v) = Inr (v, images, fls) \<and> pv_title v = nc_title dto \<and>
     (\<exists>m k. nc_price dto = Dec m k \<and>
        (0 \<le> m \<longrightarrow> (2 * pv_price v - 1) * 10 ^ k \<le> 200 * m \<and> 200 * m < (2 * pv_price v + 1) * 10 ^ k)) \<and>
     pv_amount v = nc_amount dto \<and> pv_is_active v \<and>
     map av_file_id images = coalesce (nc_imageFileIds dto) [] \<and>
     map av_file_id fls = coalesce (nc_fileIds dto) [] \<and>
     (\<forall>i. i \<noteq> pv_id v \<longrightarrow> live_product s' i = live_product s i) \<and> catalog_inv s'"
proof -
  let ?i = "seqs s T_catalog_products"
  obtain s1 s2 where ins: "insert_product (sub admin) dto s = (Inr ?i, s1)"
    and imgs: "syncProductAssets Asset_image ?i (coalesce (nc_imageFileIds dto) []) s1 = (Inr (), s2)"
    and fls: "syncProductAssets Asset_file ?i (coalesce (nc_fileIds dto) []) s2 = (Inr (), s')"
    and get: "getProductWithAssets s' ?i = Inr (v, images, fls)"
    using with_transaction_InrE [OF ok [unfolded adminCreateProduct_def]]
    by (auto simp: bind_h_def insert_product_def Let_def split: prod.splits sum.splits if_splits)
  obtain r where r: "catalog_products s1 = catalog_products s @ [r]" "cp_id r = ?i"
      "cp_title r = nc_title dto" "cp_price r = numeric_cents (nc_price dto)" "cp_amount r = nc_amount dto"
      "cp_is_active r" "cp_deleted_at r = None" "cp_check r" "cp_range r"
      "seqs s1 T_catalog_products = ?i + 1"
    using ins by (auto simp: insert_product_def Let_def split: if_splits)
  have same: "catalog_products s' = catalog_products s1"
      "seqs s' T_catalog_products = seqs s1 T_catalog_products"
    using sync_keeps_catalog [of Asset_image ?i "coalesce (nc_imageFileIds dto) []" s1]
      sync_keeps_catalog [of Asset_file ?i "coalesce (nc_fileIds dto) []" s2] imgs fls by simp_all
  have pk: "pk cp_id ?i (catalog_products s)" using inv by (simp add: catalog_inv_def)
  have inv': "catalog_inv s'"
    using inv r same by (auto simp: catalog_inv_def intro: pk_insert)
  have "live_product s' ?i = Some r"
    using row_by_inserted [OF pk r(2)] r same by (simp add: live_product_pk [OF inv'])
  then have v: "v = product_row s' r" "images = product_files s' Asset_image ?i"
      "fls = product_files s' Asset_file ?i"
    using get by (simp_all add: getProductWithAssets_eq)
  have "product_asset_rows Asset_image s' ?i = product_asset_rows Asset_image s2 ?i"
    using sync_other_type [of Asset_image Asset_file ?i "coalesce (nc_fileIds dto) []" s2 ?i] fls by simp
  then have "map av_file_id images = coalesce (nc_imageFileIds dto) []"
    and "map av_file_id fls = coalesce (nc_fileIds dto) []"
    using product_store.sync_rows [OF imgs] product_store.sync_rows [OF fls] v product_files_indexed
    by metis+
  moreover have "\<forall>i. i \<noteq> ?i \<longrightarrow> live_product s' i = live_product s i"
    using row_by_insert_other [of cp_id r _ "catalog_products s"] r same
    by (auto simp: live_product_pk [OF inv'] live_product_pk [OF inv])
  moreover obtain m k where price: "nc_price dto = Dec m k"
    using r(4,9) by (cases "nc_price dto") (simp_all add: numeric_cents_def cp_range_def)
  moreover have "0 \<le> m \<longrightarrow> (2 * pv_price v - 1) * 10 ^ k \<le> 200 * m \<and> 200 * m < (2 * pv_price v + 1) * 10 ^ k"
    using numeric_cents_nearest [of m k] v(1) r(4) price by simp
  ultimately show ?thesis using v r get inv' by (simp add: getProduct_def)
qed

lemma sql_update_products_total:
  assumes "catalog_inv s"
    and "\<And>r. cp_amount (f r) = cp_amount r" "\<And>r. cp_price (f r) = cp_price r"
    and "\<And>r. cp_updated_by (f r) = a" "has_key u_id a (users s)"
  shows "sql_update_products p f s =
     (Inr (length (filter p (catalog_products s))),
      s\<lparr>catalog_products := update_where p f (catalog_products s)\<rparr>)"
  using assms
  by (auto simp: sql_update_products_def Let_def catalog_inv_def cp_range_def cp_check_def
      list_all_iff list_ex_iff)

lemma catalog_inv_update:
  assumes "catalog_inv s" "\<And>r. cp_id (f r) = cp_id r" "sql_update_products p f s = (x, s')"
  shows "catalog_inv s'"
proof (cases x)
  case (Inl e)
  then show ?thesis
    using assms(1,3) by (auto simp: sql_update_products_def Let_def split: if_splits)
next
  case (Inr n)
  then have s': "s' = s\<lparr>catalog_products := update_where p f (catalog_products s)\<rparr>"
    and ok: "\<forall>r \<in> set (catalog_products s). p r \<longrightarrow> cp_range (f r) \<and> cp_check (f r)"
    using assms(3) by (auto simp: sql_update_products_def Let_def list_all_iff split: if_splits)
  show ?thesis
    using assms(1) ok by (auto simp: s' catalog_inv_def set_update_where pk_update assms(2))
qed

lemma delete_product_state:
  assumes inv: "catalog_inv s" and admin: "has_key u_id (sub admin) (users s)"
  shows "adminDeleteProduct admin i s =
     (if live_product s i = None then Inl (NotFound ''Product not found'') else Inr ''Product deleted'',
      s\<lparr>catalog_products := update_where (\<lambda>r. cp_id r = i \<and> cp_deleted_at r = None)
          (\<lambda>r. r\<lparr>cp_deleted_at := Some (clock s), cp_updated_by := sub admin, cp_updated_at := clock s\<rparr>)
          (catalog_products s)\<rparr>)"
proof -
  have "live_product s i = None \<longleftrightarrow>
      filter (\<lambda>r. cp_id r = i \<and> cp_deleted_at r = None) (catalog_products s) = []"
    by (auto simp: live_product_def find_None_iff filter_empty_conv)
  then show ?thesis
    by (simp add: adminDeleteProduct_def sql_update_products_total [OF inv _ _ _ admin])
qed

text \<open>\<open>DELETE /admin/products/:id\<close> (by an existing administrator) succeeds exactly on a product
  that is not deleted yet; afterwards the product page is a 404 and no list shows the product, while
  every other product page reads as before.\<close>

theorem adminDeleteProduct_effect:
  assumes inv: "catalog_inv s" and admin: "has_key u_id (sub admin) (users s)"
    and run: "adminDeleteProduct admin i s = (answer, s')"
  shows "answer = (if live_product s i = None then Inl (NotFound ''Product not found'')
                   else Inr ''Product deleted'') \<and>
     getProduct s' i = Inl (NotFound ''Product not found'') \<and>
     i \<notin> pv_id ` set (listed s' q) \<and>
     (\<forall>j. j \<noteq> i \<longrightarrow> getProduct s' j = getProduct s j)"
proof -
  let ?f = "\<lambda>r. r\<lparr>cp_deleted_at := Some (clock s), cp_updated_by := sub admin, cp_updated_at := clock s\<rparr>"
  let ?p = "\<lambda>r. cp_id r = i \<and> cp_deleted_at r = None"
  from run have s': "s' = s\<lparr>catalog_products := update_where ?p ?f (catalog_products s)\<rparr>"
    and ans: "answer = (if live_product s i = None then Inl (NotFound ''Product not found'')
                   else Inr ''Product deleted'')"
    by (simp_all add: delete_product_state [OF inv admin])
  have cat: "catalog_products s' = update_where ?p ?f (catalog_products s)" by (simp add: s')
  have gone: "cp_deleted_at r \<noteq> None" if "r \<in> set (catalog_products s')" "cp_id r = i" for r
  proof -
    from that(1) obtain r' where r': "r = (if ?p r' then ?f r' else r')"
      unfolding cat set_update_where by blast
    show ?thesis using that(2) by (cases "?p r'") (simp_all add: r')
  qed
  then have "live_product s' i = None" by (auto simp: live_product_def find_None_iff)
  moreover have "i \<notin> pv_id ` set (listed s' q)"
  proof
    assume "i \<in> pv_id ` set (listed s' q)"
    then obtain v where v: "v \<in> set (listed s' q)" and id: "pv_id v = i" by blast
    from v have "v \<in> set (selected_products s' q)"
      by (rule subsetD [OF listed_subset])
    then obtain r where "r \<in> set (catalog_products s')" "v = product_row s' r" "product_where q r"
      unfolding set_selected_products by blast
    then show False using gone [of r] id by (simp add: product_where_def)
  qed
  moreover have "live_product s' j = live_product s j" if "j \<noteq> i" for j
  proof -
    have "live_product s' j = map_option (\<lambda>r. if ?p r then ?f r else r) (live_product s j)"
      unfolding live_product_def cat by (rule find_update_where) (use that in auto)
    also have "\<dots> = live_product s j"
      using that by (cases "live_product s j") (auto simp: live_product_def dest: find_SomeD)
    finally show ?thesis .
  qed
  moreover have "product_files s' = product_files s" "product_row s' = product_row s"
    by (auto simp: s' product_files_def product_row_def product_rate_def asset_payload_def fun_eq_iff)
  ultimately show ?thesis by (simp add: ans getProduct_def getProductWithAssets_eq split: option.split)
qed

section \<open>Witnesses\<close>

definition sample_query :: list_products_query where
  "sample_query = \<lparr>pq_page = None, pq_limit = None, pq_offset = None, lp_query = Some ''lam'',
     lp_minPrice = Some 200, lp_maxPrice = None, lp_fromDate = None, lp_toDate = None,
     lp_availability = None, lp_sortBy = None, lp_sortDirection = None, lp_minRate = None,
     lp_maxRate = None\<rparr>"

theorem listProducts_sound_witness:
  "(\<exists>items v. listProducts sample_db sample_query = Inr items \<and> v \<in> fst ` set items \<and>
     (\<exists>r \<in> set (catalog_products sample_db). v = product_row sample_db r \<and> 200 \<le> cp_price r)) \<and>
   listProducts sample_db (sample_query\<lparr>lp_fromDate := Some 5\<rparr>) = Inl (SqlError ''42702'')"
proof -
  have "listed sample_db sample_query \<noteq> []" by code_simp
  then obtain items where items: "listProducts sample_db sample_query = Inr items" "items \<noteq> []"
    by (auto simp: listed_def split: sum.splits)
  then obtain v where v: "v \<in> fst ` set items" by (meson image_eqI list.set_sel(1))
  have "lp_minPrice sample_query = Some 200" by (simp add: sample_query_def)
  moreover have "\<exists>r \<in> set (catalog_products sample_db). v = product_row sample_db r \<and>
      (\<forall>b. lp_minPrice sample_query = Some b \<longrightarrow> b \<le> cp_price r)"
    using listProducts_sound [of sample_query sample_db, unfolded items(1) sum.case] v by blast
  moreover have "listProducts sample_db (sample_query\<lparr>lp_fromDate := Some 5\<rparr>) = Inl (SqlError ''42702'')"
    using listProducts_sound [of "sample_query\<lparr>lp_fromDate := Some 5\<rparr>" sample_db]
    by (cases "listProducts sample_db (sample_query\<lparr>lp_fromDate := Some 5\<rparr>)") simp_all
  ultimately show ?thesis using items v by blast
qed

theorem listProducts_pages_witness:
  "concat (map (\<lambda>k. listed sample_db
      (sample_query\<lparr>pq_page := Some (int k + 1), pq_limit := Some 1, pq_offset := None\<rparr>)) [0..<2]) =
    take (2 * nat 1) (selected_products sample_db sample_query)"
  using listProducts_pages [of 1 sample_query sample_db 2] by (simp add: sample_query_def)

theorem adminCreateProduct_roundtrip_witness:
  "\<exists>v images fls s'. adminCreateProduct sample_admin
      \<lparr>nc_title = ''Fan'', nc_description = ''d'', nc_amount = 4, nc_price = Dec 19999 3, nc_details = None,
       nc_imageFileIds = Some [8, 7], nc_fileIds = None\<rparr> sample_db = (Inr (v, images, fls), s') \<and>
    pv_price v = 2000 \<and> map av_file_id images = [8, 7] \<and> live_product s' 1 = live_product sample_db 1"
proof -
  let ?dto = "\<lparr>nc_title = ''Fan'', nc_description = ''d'', nc_amount = 4, nc_price = Dec 19999 3, nc_details = None,
       nc_imageFileIds = Some [8, 7], nc_fileIds = None\<rparr>"
  have inv: "catalog_inv sample_db" by code_simp
  have "is_ok (fst (adminCreateProduct sample_admin ?dto sample_db))" by code_simp
  then obtain v images fls s' where
    run: "adminCreateProduct sample_admin ?dto sample_db = (Inr (v, images, fls), s')"
    by (metis is_okE prod.collapse)
  have "pv_id v \<noteq> 1"
    using arg_cong [OF run, of "\<lambda>x. case fst x of Inl _ \<Rightarrow> True | Inr (v, _) \<Rightarrow> pv_id v = 3"]
    by code_simp simp
  moreover have "pv_price v = 2000" using adminCreateProduct_roundtrip [OF inv run] by simp
  ultimately show ?thesis using adminCreateProduct_roundtrip [OF inv run] run by auto
qed

theorem adminDeleteProduct_effect_witness:
  "\<exists>s'. adminDeleteProduct sample_admin 1 sample_db = (Inr ''Product deleted'', s') \<and>
     getProduct s' 1 = Inl (NotFound ''Product not found'') \<and> getProduct s' 2 = getProduct sample_db 2"
proof -
  have inv: "catalog_inv sample_db" and adm: "has_key u_id (sub sample_admin) (users sample_db)"
    and live: "live_product sample_db 1 \<noteq> None" by code_simp+
  obtain x s' where run: "adminDeleteProduct sample_admin 1 sample_db = (x, s')" by fastforce
  show ?thesis using adminDeleteProduct_effect [OF inv adm run] live run by auto
qed

end
