(* ===== verification/Workflow.thy ===== *)
theory Workflow
  imports Schema
begin

text \<open>
  What orders, fault reports and service orders have in common: a customer opens a ticket, may cancel
  it before processing starts, and an administrator moves it through its statuses, each move writing a
  row of a \<open>*_status_history\<close> table. The locale \<open>ticket_desk\<close> is the contract of such a component;
  its lemmas say that the history of every ticket is a path of its transition graph that starts in the
  initial status and ends in the current one, when requests are handled one after another. \<open>Orders\<close>, \<open>Faults\<close> and
  \<open>Services\<close> interpret it. The second section drops that proviso: the statements of requests interleave.
\<close>

definition log_in :: "'s history list \<Rightarrow> int \<Rightarrow> 's list" where
  "log_in hs i = map h_status (filter (\<lambda>h. h_item_id h = i) hs)"

lemma log_in_snoc [simp]:
  "log_in (hs @ [\<lparr>h_id = k, h_item_id = j, h_status = st, h_changed_by = u\<rparr>]) i =
     log_in hs i @ (if j = i then [st] else [])"
  by (simp add: log_in_def)

lemma log_in_Nil [simp]: "log_in [] i = []"
  by (simp add: log_in_def)

definition trail :: "('s \<Rightarrow> 's \<Rightarrow> bool) \<Rightarrow> 's \<Rightarrow> 's option \<Rightarrow> 's list \<Rightarrow> bool" where
  "trail legal initial status log \<longleftrightarrow>
     (case status of
        None \<Rightarrow> log = []
      | Some st \<Rightarrow> log \<noteq> [] \<and> hd log = initial \<and> last log = st \<and> successively legal log)"

lemma trail_None [simp]: "trail legal initial None log \<longleftrightarrow> log = []"
  by (simp add: trail_def)

lemma trail_start: "trail legal initial (Some initial) [initial]"
  by (simp add: trail_def)

lemma trail_move:
  assumes "trail legal initial (Some cur) log" and "legal cur next"
  shows "trail legal initial (Some next) (log @ [next])"
  using assms by (auto simp: trail_def successively_append_iff)

locale ticket_desk =
  fixes wf :: "db \<Rightarrow> bool"
    and status_of :: "db \<Rightarrow> int \<Rightarrow> 's option"
    and owner_of :: "db \<Rightarrow> int \<Rightarrow> int option"
    and log_of :: "db \<Rightarrow> int \<Rightarrow> 's list"
    and create :: "auth_user \<Rightarrow> 'c \<Rightarrow> (db, 'v) handler"
    and cancel :: "auth_user \<Rightarrow> int \<Rightarrow> (db, 'w) handler"
    and advance :: "auth_user \<Rightarrow> int \<Rightarrow> 's \<Rightarrow> (db, 'w) handler"
    and initial :: 's
    and cancelled :: 's
    and legal :: "'s \<Rightarrow> 's \<Rightarrow> bool"
  assumes create_ok: "wf s \<Longrightarrow> create user c s = (Inr v, s') \<Longrightarrow>
        \<exists>i. status_of s i = None \<and>
          status_of s' = (status_of s)(i := Some initial) \<and>
          owner_of s' = (owner_of s)(i := Some (sub user)) \<and>
          log_of s' = (log_of s)(i := log_of s i @ [initial])"
    and create_wf: "wf s \<Longrightarrow> wf (snd (create user c s))"
    and create_fail: "wf s \<Longrightarrow> create user c s = (Inl e, s') \<Longrightarrow>
        status_of s' = status_of s \<and> owner_of s' = owner_of s \<and> log_of s' = log_of s"
    and cancel_ok: "wf s \<Longrightarrow> cancel user i s = (Inr w, s') \<Longrightarrow>
        status_of s i = Some initial \<and> owner_of s i = Some (sub user) \<and>
          status_of s' = (status_of s)(i := Some cancelled) \<and> owner_of s' = owner_of s \<and>
          log_of s' = (log_of s)(i := log_of s i @ [cancelled])"
    and cancel_wf: "wf s \<Longrightarrow> wf (snd (cancel user i s))"
    and cancel_fail: "wf s \<Longrightarrow> cancel user i s = (Inl e, s') \<Longrightarrow> s' = s"
    and advance_ok: "wf s \<Longrightarrow> has_key u_id (sub admin) (users s) \<Longrightarrow>
        advance admin i st s = (Inr w, s') \<Longrightarrow>
        (\<exists>cur. status_of s i = Some cur \<and> legal cur st) \<and>
          status_of s' = (status_of s)(i := Some st) \<and> owner_of s' = owner_of s \<and>
          log_of s' = (log_of s)(i := log_of s i @ [st])"
    and advance_wf: "wf s \<Longrightarrow> wf (snd (advance admin i st s))"
    and advance_fail: "wf s \<Longrightarrow> has_key u_id (sub admin) (users s) \<Longrightarrow>
        advance admin i st s = (Inl e, s') \<Longrightarrow> s' = s"
    and cancel_legal: "legal initial cancelled"
begin

text \<open>Every ticket's history is a path of the transition graph that ends in its status.\<close>

definition audited :: "db \<Rightarrow> bool" where
  "audited s \<longleftrightarrow> wf s \<and> (\<forall>i. trail legal initial (status_of s i) (log_of s i))"

lemma create_audited:
  assumes "audited s" and "create user c s = (x, s')"
  shows "audited s'"
proof (cases x)
  case (Inl e)
  then have "status_of s' = status_of s \<and> owner_of s' = owner_of s \<and> log_of s' = log_of s"
    using assms create_fail by (simp add: audited_def)
  then show ?thesis using assms create_wf [of s user c] by (simp add: audited_def)
next
  case (Inr v)
  then obtain i where "status_of s i = None" "status_of s' = (status_of s)(i := Some initial)"
      "log_of s' = (log_of s)(i := log_of s i @ [initial])"
    using create_ok [of s user c v s'] assms by (auto simp: audited_def)
  moreover from this have "log_of s i = []" using assms(1) by (metis audited_def trail_None)
  ultimately show ?thesis using assms create_wf [of s user c] by (simp add: audited_def trail_start)
qed

lemma cancel_audited:
  assumes "audited s" and "cancel user i s = (x, s')"
  shows "audited s'"
proof (cases x)
  case (Inl e)
  then have "s' = s" using assms cancel_fail by (simp add: audited_def)
  then show ?thesis using assms by simp
next
  case (Inr w)
  then have "status_of s i = Some initial" "status_of s' = (status_of s)(i := Some cancelled)"
      "log_of s' = (log_of s)(i := log_of s i @ [cancelled])"
    using assms cancel_ok by (auto simp: audited_def)
  moreover from this have "trail legal initial (Some cancelled) (log_of s i @ [cancelled])"
    using assms(1) cancel_legal trail_move by (metis audited_def)
  ultimately show ?thesis using assms cancel_wf [of s user i] by (simp add: audited_def)
qed

lemma advance_audited:
  assumes "audited s" "has_key u_id (sub admin) (users s)" and "advance admin i st s = (x, s')"
  shows "audited s'"
proof (cases x)
  case (Inl e)
  then have "s' = s" using assms advance_fail by (simp add: audited_def)
  then show ?thesis using assms by simp
next
  case (Inr w)
  then obtain cur where "status_of s i = Some cur" "legal cur st"
      "status_of s' = (status_of s)(i := Some st)"
      "log_of s' = (log_of s)(i := log_of s i @ [st])"
    using advance_ok [of s admin i st w s'] assms by (auto simp: audited_def)
  moreover from this have "trail legal initial (Some st) (log_of s i @ [st])"
    using assms(1) trail_move by (metis audited_def)
  ultimately show ?thesis using assms advance_wf [of s admin i st] by (simp add: audited_def)
qed

text \<open>A ticket is cancelled by its owner only, and only while nobody has started on it.\<close>

lemma cancel_guard:
  "wf s \<Longrightarrow> cancel user i s = (Inr w, s') \<Longrightarrow>
     status_of s i = Some initial \<and> owner_of s i = Some (sub user) \<and> status_of s' i = Some cancelled"
  using cancel_ok [of s user i w s'] by simp

text \<open>No operation changes the owner of a ticket.\<close>

lemma owner_stable:
  assumes "wf s" "has_key u_id (sub user) (users s)" "status_of s i \<noteq> None"
  shows "owner_of (snd (create user c s)) i = owner_of s i"
    and "owner_of (snd (cancel user j s)) i = owner_of s i"
    and "owner_of (snd (advance user j st s)) i = owner_of s i"
proof -
  show "owner_of (snd (create user c s)) i = owner_of s i"
  proof (cases "create user c s")
    case (Pair x s')
    then show ?thesis
      using create_fail [OF assms(1)] create_ok [OF assms(1)] assms(3) by (cases x) fastforce+
  qed
  show "owner_of (snd (cancel user j s)) i = owner_of s i"
  proof (cases "cancel user j s")
    case (Pair x s')
    then show ?thesis
      using cancel_fail [OF assms(1)] cancel_ok [OF assms(1)] by (cases x) fastforce+
  qed
  show "owner_of (snd (advance user j st s)) i = owner_of s i"
  proof (cases "advance user j st s")
    case (Pair x s')
    then show ?thesis
      using advance_fail [OF assms(1,2)] advance_ok [OF assms(1,2)] by (cases x) fastforce+
  qed
qed

text \<open>Histories only grow.\<close>

lemma log_grows:
  assumes "wf s" "has_key u_id (sub user) (users s)"
  shows "\<exists>more. log_of (snd (create user c s)) i = log_of s i @ more"
    and "\<exists>more. log_of (snd (cancel user j s)) i = log_of s i @ more"
    and "\<exists>more. log_of (snd (advance user j st s)) i = log_of s i @ more"
proof -
  show "\<exists>more. log_of (snd (create user c s)) i = log_of s i @ more"
  proof (cases "create user c s")
    case (Pair x s')
    then show ?thesis
      using create_fail [OF assms(1)] create_ok [OF assms(1)] by (cases x) fastforce+
  qed
  show "\<exists>more. log_of (snd (cancel user j s)) i = log_of s i @ more"
  proof (cases "cancel user j s")
    case (Pair x s')
    then show ?thesis
      using cancel_fail [OF assms(1)] cancel_ok [OF assms(1)] by (cases x) fastforce+
  qed
  show "\<exists>more. log_of (snd (advance user j st s)) i = log_of s i @ more"
  proof (cases "advance user j st s")
    case (Pair x s')
    then show ?thesis
      using advance_fail [OF assms] advance_ok [OF assms] by (cases x) fastforce+
  qed
qed

end

section \<open>Status changes statement by statement\<close>

text \<open>
  A status change is not one transaction: a request reads the status, then writes the new one, then inserts the row
  of the history, and other requests are served in between. \<open>change\<close> is such a request under way; a \<open>ledger\<close> is
  what the tickets show, the changes under way by the number of their request, the tickets two changes of which were
  under way at once, and those of which a change broke off after its \<open>UPDATE\<close>. The last two are for the record: no
  step depends on them.
\<close>

record 's change =
  ch_item :: int
  ch_status :: 's
  ch_by :: int
  ch_cancel :: bool
  ch_written :: bool

record 's ledger =
  lg_status :: "int \<Rightarrow> 's option"
  lg_log :: "int \<Rightarrow> 's list"
  lg_open :: "nat \<Rightarrow> 's change option"
  lg_overlapped :: "int set"
  lg_broken :: "int set"

text \<open>The changes under way on a ticket, with the numbers of their requests.\<close>

definition changes_on :: "(nat \<Rightarrow> 's change option) \<Rightarrow> int \<Rightarrow> (nat \<times> 's change) set" where
  "changes_on under_way i = {(k, c). under_way k = Some c \<and> ch_item c = i}"

definition mark_overlap :: "(nat \<Rightarrow> 's change option) \<Rightarrow> int \<Rightarrow> int set \<Rightarrow> int set" where
  "mark_overlap under_way i X = (if changes_on under_way i = {} then X else insert i X)"

definition mark_break :: "'s change \<Rightarrow> int set \<Rightarrow> int set" where
  "mark_break c X = (if ch_written c then insert (ch_item c) X else X)"

text \<open>
  What a statement may do to a ledger: a ticket is opened with its first history row, or the row follows later; a
  change reads a status that allows it, writes, records, or breaks off.
\<close>

inductive ledger_step :: "('s \<Rightarrow> 's \<Rightarrow> bool) \<Rightarrow> 's \<Rightarrow> 's ledger \<Rightarrow> 's ledger \<Rightarrow> bool" for legal initial where
  opened: "lg_status l i = None \<Longrightarrow> ledger_step legal initial l
     (l\<lparr>lg_status := (lg_status l)(i \<mapsto> initial), lg_log := (lg_log l)(i := lg_log l i @ [initial])\<rparr>)"
| inserted: "lg_status l (ch_item c) = None \<Longrightarrow> ch_status c = initial \<Longrightarrow> ch_written c \<Longrightarrow> lg_open l k = None \<Longrightarrow>
     ledger_step legal initial l
       (l\<lparr>lg_status := (lg_status l)(ch_item c \<mapsto> initial), lg_open := (lg_open l)(k \<mapsto> c)\<rparr>)"
| reads: "lg_status l (ch_item c) = Some cur \<Longrightarrow> legal cur (ch_status c) \<Longrightarrow> \<not> ch_written c \<Longrightarrow> lg_open l k = None \<Longrightarrow>
     ledger_step legal initial l
       (l\<lparr>lg_open := (lg_open l)(k \<mapsto> c), lg_overlapped := mark_overlap (lg_open l) (ch_item c) (lg_overlapped l)\<rparr>)"
| writes: "lg_open l k = Some c \<Longrightarrow> \<not> ch_written c \<Longrightarrow> ledger_step legal initial l
     (l\<lparr>lg_status := (lg_status l)(ch_item c \<mapsto> ch_status c), lg_open := (lg_open l)(k \<mapsto> c\<lparr>ch_written := True\<rparr>)\<rparr>)"
| records: "lg_open l k = Some c \<Longrightarrow> ch_written c \<Longrightarrow> ledger_step legal initial l
     (l\<lparr>lg_log := (lg_log l)(ch_item c := lg_log l (ch_item c) @ [ch_status c]), lg_open := (lg_open l)(k := None)\<rparr>)"
| breaks: "lg_open l k = Some c \<Longrightarrow> ledger_step legal initial l
     (l\<lparr>lg_open := (lg_open l)(k := None), lg_broken := mark_break c (lg_broken l)\<rparr>)"

text \<open>
  A change alone on its ticket extends a legal history; and whatever overlaps, a status is in the history, or its
  change is still under way, or that change broke off.
\<close>

definition change_ok :: "('s \<Rightarrow> 's \<Rightarrow> bool) \<Rightarrow> 's \<Rightarrow> 's option \<Rightarrow> 's list \<Rightarrow> 's change \<Rightarrow> bool" where
  "change_ok legal initial status log c \<longleftrightarrow>
     trail legal initial (Some (ch_status c)) (log @ [ch_status c]) \<and>
     (if ch_written c then status = Some (ch_status c) else trail legal initial status log)"

definition ticket_ok ::
  "('s \<Rightarrow> 's \<Rightarrow> bool) \<Rightarrow> 's \<Rightarrow> 's option \<Rightarrow> 's list \<Rightarrow> (nat \<times> 's change) set \<Rightarrow> bool \<Rightarrow> bool \<Rightarrow> bool" where
  "ticket_ok legal initial status log under_way overlapped broken \<longleftrightarrow>
     (status = None \<longrightarrow> log = [] \<and> under_way = {}) \<and>
     (\<not> broken \<longrightarrow> (\<forall>st. status = Some st \<longrightarrow> st \<in> set log \<or>
        (\<exists>p \<in> under_way. ch_written (snd p) \<and> ch_status (snd p) = st))) \<and>
     (\<not> overlapped \<longrightarrow>
        (\<forall>p \<in> under_way. \<forall>p' \<in> under_way. p = p') \<and>
        (\<not> broken \<longrightarrow>
           (under_way = {} \<longrightarrow> trail legal initial status log) \<and>
           (\<forall>p \<in> under_way. change_ok legal initial status log (snd p))))"

definition ledger_ok :: "('s \<Rightarrow> 's \<Rightarrow> bool) \<Rightarrow> 's \<Rightarrow> 's ledger \<Rightarrow> bool" where
  "ledger_ok legal initial l \<longleftrightarrow>
     (\<forall>i. ticket_ok legal initial (lg_status l i) (lg_log l i) (changes_on (lg_open l) i)
        (i \<in> lg_overlapped l) (i \<in> lg_broken l))"

lemma changes_on_add:
  "under_way k = None \<Longrightarrow> changes_on (under_way(k \<mapsto> c)) i =
     (if ch_item c = i then insert (k, c) (changes_on under_way i) else changes_on under_way i)"
  by (auto simp: changes_on_def split: if_splits)

lemma changes_on_replace:
  "under_way k = Some c \<Longrightarrow> ch_item c' = ch_item c \<Longrightarrow> changes_on (under_way(k \<mapsto> c')) i =
     (if ch_item c = i then insert (k, c') (changes_on under_way i - {(k, c)}) else changes_on under_way i)"
  by (auto simp: changes_on_def split: if_splits)

lemma changes_on_remove:
  "under_way k = Some c \<Longrightarrow> changes_on (under_way(k := None)) i =
     (if ch_item c = i then changes_on under_way i - {(k, c)} else changes_on under_way i)"
  by (auto simp: changes_on_def split: if_splits)

lemma changes_on_mem: "under_way k = Some c \<Longrightarrow> (k, c) \<in> changes_on under_way (ch_item c)"
  by (simp add: changes_on_def)

lemma changes_on_empty [simp]: "changes_on Map.empty i = {}"
  by (simp add: changes_on_def)

text \<open>The steps on the one ticket they concern.\<close>

lemma ticket_opened: "ticket_ok legal initial None log C ov br \<Longrightarrow> ticket_ok legal initial (Some initial) (log @ [initial]) C ov br"
  by (simp add: ticket_ok_def trail_start)

lemma ticket_inserted:
  "ticket_ok legal (ch_status c) None log C ov br \<Longrightarrow> ch_written c \<Longrightarrow>
   ticket_ok legal (ch_status c) (Some (ch_status c)) log (insert (k, c) C) ov br"
  by (simp add: ticket_ok_def change_ok_def trail_start)

lemma ticket_reads:
  "ticket_ok legal initial (Some cur) log C ov br \<Longrightarrow> legal cur (ch_status c) \<Longrightarrow> \<not> ch_written c \<Longrightarrow>
   ticket_ok legal initial (Some cur) log (insert (k, c) C) (ov \<or> C \<noteq> {}) br"
  by (auto simp: ticket_ok_def change_ok_def intro: trail_move)

lemma ticket_writes:
  "ticket_ok legal initial status log C ov br \<Longrightarrow> (k, c) \<in> C \<Longrightarrow> \<not> ch_written c \<Longrightarrow>
   ticket_ok legal initial (Some (ch_status c)) log (insert (k, c\<lparr>ch_written := True\<rparr>) (C - {(k, c)})) ov br"
  by (fastforce simp: ticket_ok_def change_ok_def)

lemma ticket_records:
  "ticket_ok legal initial status log C ov br \<Longrightarrow> (k, c) \<in> C \<Longrightarrow> ch_written c \<Longrightarrow>
   ticket_ok legal initial status (log @ [ch_status c]) (C - {(k, c)}) ov br"
  by (fastforce simp: ticket_ok_def change_ok_def)

lemma ticket_breaks:
  "ticket_ok legal initial status log C ov br \<Longrightarrow> (k, c) \<in> C \<Longrightarrow>
   ticket_ok legal initial status log (C - {(k, c)}) ov (br \<or> ch_written c)"
  by (fastforce simp: ticket_ok_def change_ok_def)

lemma ledger_step_ok: "ledger_step legal initial l l' \<Longrightarrow> ledger_ok legal initial l \<Longrightarrow> ledger_ok legal initial l'"
proof (induction rule: ledger_step.induct)
  case (opened l i)
  then show ?case using ticket_opened [of legal initial "lg_log l i"] by (auto simp: ledger_ok_def dest: spec [of _ i])
next
  case (inserted l c k)
  then show ?case using ticket_inserted [of legal c "lg_log l (ch_item c)"]
    by (auto simp: ledger_ok_def changes_on_add dest: spec [of _ "ch_item c"])
next
  case (reads l c cur k)
  have ok: "ticket_ok legal initial (lg_status l i) (lg_log l i) (changes_on (lg_open l) i) (i \<in> lg_overlapped l) (i \<in> lg_broken l)" for i
    using reads(5) by (simp add: ledger_ok_def)
  have "ticket_ok legal initial (Some cur) (lg_log l (ch_item c)) (insert (k, c) (changes_on (lg_open l) (ch_item c)))
      (ch_item c \<in> lg_overlapped l \<or> changes_on (lg_open l) (ch_item c) \<noteq> {}) (ch_item c \<in> lg_broken l)"
    using ok [of "ch_item c"] reads(1-3) by (intro ticket_reads) auto
  then show ?case
    using ok reads(1,4) by (cases "changes_on (lg_open l) (ch_item c) = {}") (auto simp: ledger_ok_def changes_on_add mark_overlap_def)
next
  case (writes l k c)
  then show ?case
    using ticket_writes [of legal initial "lg_status l (ch_item c)", OF _ changes_on_mem [of "lg_open l" k c, OF writes(1)] writes(2)]
    by (simp add: ledger_ok_def changes_on_replace)
next
  case (records l k c)
  then show ?case
    using ticket_records [OF _ changes_on_mem [of "lg_open l" k c, OF records(1)] records(2)]
    by (simp add: ledger_ok_def changes_on_remove)
next
  case (breaks l k c)
  then show ?case
    using ticket_breaks [where br = "ch_item c \<in> lg_broken l", OF _ changes_on_mem [of "lg_open l" k c, OF breaks(1)]]
    by (auto simp: ledger_ok_def changes_on_remove mark_break_def)
qed

lemma ledger_steps_ok: "(ledger_step legal initial)\<^sup>*\<^sup>* l l' \<Longrightarrow> ledger_ok legal initial l \<Longrightarrow> ledger_ok legal initial l'"
  by (induction rule: rtranclp_induct) (auto intro: ledger_step_ok)

text \<open>A database with the changes under way, as the requests of a desk see it.\<close>

record 's desk_run =
  ru_db :: db
  ru_open :: "nat \<Rightarrow> 's change option"
  ru_overlapped :: "int set"
  ru_broken :: "int set"

definition idle_run :: "db \<Rightarrow> 's desk_run" where
  "idle_run s = \<lparr>ru_db = s, ru_open = Map.empty, ru_overlapped = {}, ru_broken = {}\<rparr>"

definition begin_change :: "nat \<Rightarrow> 's change \<Rightarrow> 's desk_run \<Rightarrow> 's desk_run" where
  "begin_change k c r =
     r\<lparr>ru_open := (ru_open r)(k \<mapsto> c), ru_overlapped := mark_overlap (ru_open r) (ch_item c) (ru_overlapped r)\<rparr>"

definition written_change :: "nat \<Rightarrow> 's change \<Rightarrow> db \<Rightarrow> 's desk_run \<Rightarrow> 's desk_run" where
  "written_change k c s r = r\<lparr>ru_db := s, ru_open := (ru_open r)(k \<mapsto> c\<lparr>ch_written := True\<rparr>)\<rparr>"

definition recorded_change :: "nat \<Rightarrow> db \<Rightarrow> 's desk_run \<Rightarrow> 's desk_run" where
  "recorded_change k s r = r\<lparr>ru_db := s, ru_open := (ru_open r)(k := None)\<rparr>"

definition broken_change :: "nat \<Rightarrow> 's change \<Rightarrow> 's desk_run \<Rightarrow> 's desk_run" where
  "broken_change k c r =
     r\<lparr>ru_open := (ru_open r)(k := None), ru_broken := mark_break c (ru_broken r)\<rparr>"

definition ledger_of :: "(db \<Rightarrow> int \<Rightarrow> 's option) \<Rightarrow> (db \<Rightarrow> int \<Rightarrow> 's list) \<Rightarrow> 's desk_run \<Rightarrow> 's ledger" where
  "ledger_of status_of log_of r =
     \<lparr>lg_status = status_of (ru_db r), lg_log = log_of (ru_db r), lg_open = ru_open r,
      lg_overlapped = ru_overlapped r, lg_broken = ru_broken r\<rparr>"

lemmas run_defs = idle_run_def begin_change_def written_change_def recorded_change_def broken_change_def ledger_of_def

lemma trail_ticket: "trail legal initial status log \<Longrightarrow> ticket_ok legal initial status log {} ov br"
  by (auto simp: ticket_ok_def trail_def split: option.splits)

lemma idle_ledger_ok:
  "(\<And>i. trail legal initial (status_of s i) (log_of s i)) \<Longrightarrow> ledger_ok legal initial (ledger_of status_of log_of (idle_run s))"
  by (simp add: ledger_ok_def run_defs trail_ticket)

lemma settled_ticket:
  assumes "ledger_ok legal initial (ledger_of status_of log_of r)" and "changes_on (ru_open r) i = {}"
    and "i \<notin> ru_broken r"
  shows "status_of (ru_db r) i = Some st \<Longrightarrow> st \<in> set (log_of (ru_db r) i)"
    and "i \<notin> ru_overlapped r \<Longrightarrow> trail legal initial (status_of (ru_db r) i) (log_of (ru_db r) i)"
  using assms by (auto simp: ledger_ok_def ledger_of_def ticket_ok_def dest: spec [of _ i])

end
