(* ===== verification/Orders.thy ===== *)
theory Orders
  imports Catalog Workflow
begin

text \<open>
  Cart and orders of \<open>KayanService\<close> (\<open>src/kayan/kayan.service.ts\<close>): the cart operations and their
  stock check, checkout, direct orders, the loop \<open>createOrderRecord\<close> that takes the stock of each
  item, the customer's address change and cancellation, the administrator's status change, and the
  lists. Section \<open>Placing an order\<close> says when an order succeeds and what it does to the stock;
  \<open>shop_step\<close> collects the operations into a transition system whose invariant \<open>shop_inv\<close> holds
  in every reachable state.
\<close>

section \<open>Reading orders\<close>

record order_row =
  ow_id :: int
  ow_user_id :: int
  ow_delivery_address :: string
  ow_status :: order_status
  ow_created_at :: time
  ow_updated_at :: time
  ow_user_name :: "string option"
  ow_user_email :: "string option"
  ow_user_phone :: "string option"

record order_item_view =
  iv_id :: int
  iv_product_id :: int
  iv_quantity :: int
  iv_unit_price :: int
  iv_title :: "string option"
  iv_is_active :: "bool option"

record user_brief =
  ub_id :: int
  ub_name :: "string option"
  ub_email :: "string option"
  ub_phone :: "string option"

record order_view =
  ov_id :: int
  ov_user_id :: int
  ov_delivery_address :: string
  ov_status :: order_status
  ov_created_at :: time
  ov_updated_at :: time
  ov_item_count :: nat
  ov_items :: "order_item_view list"
  ov_user :: "user_brief option"

definition item_view :: "db \<Rightarrow> order_item \<Rightarrow> order_item_view" where
  "item_view s oi =
     (let cp = row_by cp_id (oi_product_id oi) (catalog_products s) in
      \<lparr>iv_id = oi_id oi, iv_product_id = oi_product_id oi, iv_quantity = oi_quantity oi,
       iv_unit_price = oi_unit_price oi, iv_title = map_option cp_title cp,
       iv_is_active = map_option cp_is_active cp\<rparr>)"

definition attachOrderItems :: "db \<Rightarrow> order_row list \<Rightarrow> bool \<Rightarrow> order_view list" where
  "attachOrderItems s orders includeUser =
     (if orders = [] then []
      else
        let orderIds = map ow_id orders;
            items = sort_key (\<lambda>oi. (oi_order_id oi, oi_id oi))
              (filter (\<lambda>oi. oi_order_id oi \<in> set orderIds) (order_items s));
            itemsByOrderId = bucket_by oi_order_id (item_view s) items
        in map (\<lambda>order.
             let orderItems = bucket_get itemsByOrderId (ow_id order) in
             \<lparr>ov_id = ow_id order, ov_user_id = ow_user_id order,
              ov_delivery_address = ow_delivery_address order, ov_status = ow_status order,
              ov_created_at = ow_created_at order, ov_updated_at = ow_updated_at order,
              ov_item_count = length orderItems, ov_items = orderItems,
              ov_user = (if includeUser
                then Some \<lparr>ub_id = ow_user_id order, ub_name = ow_user_name order,
                           ub_email = ow_user_email order, ub_phone = ow_user_phone order\<rparr>
                else None)\<rparr>) orders)"

text \<open>The selected columns, without and with \<open>LEFT JOIN users\<close>.\<close>

definition order_row_of :: "product_order \<Rightarrow> order_row" where
  "order_row_of po =
     \<lparr>ow_id = po_id po, ow_user_id = po_user_id po, ow_delivery_address = po_delivery_address po,
      ow_status = po_status po, ow_created_at = po_created_at po, ow_updated_at = po_updated_at po,
      ow_user_name = None, ow_user_email = None, ow_user_phone = None\<rparr>"

definition join_user :: "db \<Rightarrow> product_order \<Rightarrow> order_row" where
  "join_user s po =
     (let u = row_by u_id (po_user_id po) (users s) in
      (order_row_of po)\<lparr>ow_user_name := map_option u_name u, ow_user_email := Option.bind u u_email,
                        ow_user_phone := Option.bind u u_phone\<rparr>)"

definition getOrderForUser :: "db \<Rightarrow> int \<Rightarrow> int \<Rightarrow> bool \<Rightarrow> order_view result" where
  "getOrderForUser s userId orderId allowAdmin =
     (case row_by po_id orderId (product_orders s) of
        None \<Rightarrow> Inl (NotFound ''Order not found'')
      | Some order \<Rightarrow>
          if \<not> allowAdmin \<and> po_user_id order \<noteq> userId then Inl (Forbidden ''Not allowed'')
          else Inr (hd (attachOrderItems s [join_user s order] True)))"

record list_orders_query = page_query +
  lo_status :: "order_status option"
  lo_fromDate :: "time option"
  lo_toDate :: "time option"
  lo_sortDirection :: "sort_direction option"

definition order_where :: "list_orders_query \<Rightarrow> product_order \<Rightarrow> bool" where
  "order_where q po \<longleftrightarrow>
     opt_holds (lo_status q) (\<lambda>st. po_status po = st) \<and>
     opt_holds (lo_fromDate q) (\<lambda>d. po_created_at po \<ge> d) \<and>
     opt_holds (lo_toDate q) (\<lambda>d. po_created_at po \<le> d)"

definition orders_order_key :: "list_orders_query \<Rightarrow> product_order \<Rightarrow> int \<times> int" where
  "orders_order_key q po =
     order_key (case lo_sortDirection q of None \<Rightarrow> Dir_DESC | Some d \<Rightarrow> d) (po_created_at po) (po_id po)"

definition listMyOrders :: "db \<Rightarrow> auth_user \<Rightarrow> list_orders_query \<Rightarrow> order_view list" where
  "listMyOrders s user q =
     attachOrderItems s
       (map order_row_of (paged (page_query.truncate q) 20 100
          (sort_key (orders_order_key q)
            (filter (\<lambda>po. po_user_id po = sub user \<and> order_where q po) (product_orders s))))) False"

definition adminListOrders :: "db \<Rightarrow> list_orders_query \<Rightarrow> order_view list \<times> int" where
  "adminListOrders s q =
     (let total = int (length (filter (order_where q) (product_orders s))) in
      (attachOrderItems s
         (map (join_user s) (paged (page_query.truncate q) 20 100
            (sort_key (orders_order_key q) (filter (order_where q) (product_orders s))))) True,
       total))"

section \<open>Placing orders\<close>

type_synonym line = "int \<times> int"

text \<open>The statements of the loop body of \<open>createOrderRecord\<close>, for one \<open>(productId, quantity)\<close>.\<close>

definition insert_order_item :: "int \<Rightarrow> int \<Rightarrow> int \<Rightarrow> int \<Rightarrow> (db, unit) handler" where
  "insert_order_item orderId productId quantity price s =
     (let s1 = bump T_order_items s in
      if \<not> int4 quantity then (Inl (SqlError ''22003''), s1)
      else if quantity \<le> 0 \<or> price < 0 then (Inl (SqlError ''23514''), s1)
      else if \<not> has_key po_id orderId (product_orders s) \<or> \<not> has_key cp_id productId (catalog_products s)
      then (Inl (SqlError ''23503''), s1)
      else (Inr (), s1\<lparr>order_items := order_items s @
             [\<lparr>oi_id = seqs s T_order_items, oi_order_id = orderId, oi_product_id = productId,
               oi_quantity = quantity, oi_unit_price = price\<rparr>]\<rparr>))"

definition take_stock :: "int \<Rightarrow> int \<Rightarrow> (db, nat) handler" where
  "take_stock productId quantity s =
     sql_update_products (\<lambda>r. cp_id r = productId)
       (\<lambda>r. r\<lparr>cp_amount := cp_amount r - quantity, cp_updated_at := clock s\<rparr>) s"

definition place_item :: "int \<Rightarrow> line \<Rightarrow> (db, unit) handler" where
  "place_item orderId item s =
     (let (productId, quantity) = item in
      case live_product s productId of
        None \<Rightarrow> (Inl (BadRequest (''Invalid product '' @ show_int productId)), s)
      | Some productRow \<Rightarrow>
          if \<not> cp_is_active productRow
          then (Inl (BadRequest (''Invalid product '' @ show_int productId)), s)
          else if cp_amount productRow < quantity
          then (Inl (BadRequest (''Insufficient product amount for '' @ show_int productId)), s)
          else bind_h (insert_order_item orderId productId quantity (cp_price productRow)) (\<lambda>_.
               bind_h (take_stock productId quantity) (\<lambda>_ s. (Inr (), s))) s)"

definition insert_order :: "int \<Rightarrow> string \<Rightarrow> (db, int) handler" where
  "insert_order userId deliveryAddress s =
     (let s1 = bump T_product_orders s in
      if \<not> has_key u_id userId (users s) then (Inl (SqlError ''23503''), s1)
      else (Inr (seqs s T_product_orders), s1\<lparr>product_orders := product_orders s @
             [\<lparr>po_id = seqs s T_product_orders, po_user_id = userId,
               po_delivery_address = deliveryAddress, po_status = Order_RECEIVED,
               po_cancelled_at = None, po_created_at = clock s, po_updated_at = clock s\<rparr>]\<rparr>))"

definition insert_order_history :: "int \<Rightarrow> order_status \<Rightarrow> int \<Rightarrow> (db, unit) handler" where
  "insert_order_history orderId status changedBy s =
     (let s1 = bump T_order_history s in
      if \<not> has_key po_id orderId (product_orders s) \<or> \<not> has_key u_id changedBy (users s)
      then (Inl (SqlError ''23503''), s1)
      else (Inr (), s1\<lparr>order_history := order_history s @
             [\<lparr>h_id = seqs s T_order_history, h_item_id = orderId, h_status = status,
               h_changed_by = changedBy\<rparr>]\<rparr>))"

definition createOrderRecord :: "auth_user \<Rightarrow> string \<Rightarrow> line list \<Rightarrow> (db, order_view) handler" where
  "createOrderRecord user deliveryAddress items =
     bind_h (insert_order (sub user) deliveryAddress) (\<lambda>orderId.
     bind_h (for_each (place_item orderId) items) (\<lambda>_.
     bind_h (insert_order_history orderId Order_RECEIVED (sub user)) (\<lambda>_ s.
       (Inr (hd (attachOrderItems s
          [\<lparr>ow_id = orderId, ow_user_id = sub user, ow_delivery_address = deliveryAddress,
            ow_status = Order_RECEIVED, ow_created_at = clock s, ow_updated_at = clock s,
            ow_user_name = None, ow_user_email = None, ow_user_phone = None\<rparr>] False)), s))))"

record create_order_dto =
  no_deliveryAddress :: string
  no_items :: "line list"

definition createOrder :: "auth_user \<Rightarrow> create_order_dto \<Rightarrow> (db, order_view) handler" where
  "createOrder user dto s =
     (if no_items dto = [] then (Inl (BadRequest ''Order items are required''), s)
      else with_transaction (createOrderRecord user (no_deliveryAddress dto) (no_items dto)) s)"

section \<open>The cart\<close>

record product_card =
  cd_id :: int
  cd_title :: string
  cd_description :: string
  cd_amount :: int
  cd_price :: int
  cd_is_active :: bool

record cart_line =
  cl_id :: int
  cl_product_id :: int
  cl_quantity :: int
  cl_created_at :: time
  cl_updated_at :: time
  cl_product :: "(product_card \<times> asset_view list \<times> asset_view list) option"

text \<open>The joined rows of \<open>cart_items\<close> and \<open>catalog_products\<close> that \<open>listCart\<close> selects.\<close>

definition cart_rows :: "db \<Rightarrow> int \<Rightarrow> (cart_item \<times> catalog_product) list" where
  "cart_rows s userId =
     sort_key (\<lambda>(ci, cp). (- ci_created_at ci, - ci_id ci))
       (concat (map (\<lambda>ci. map (\<lambda>cp. (ci, cp))
            (filter (\<lambda>cp. cp_id cp = ci_product_id ci \<and> cp_deleted_at cp = None) (catalog_products s)))
          (filter (\<lambda>ci. ci_user_id ci = userId) (cart_items s))))"

definition product_card_of :: "catalog_product \<Rightarrow> product_card" where
  "product_card_of cp =
     \<lparr>cd_id = cp_id cp, cd_title = cp_title cp, cd_description = cp_description cp,
      cd_amount = cp_amount cp, cd_price = cp_price cp, cd_is_active = cp_is_active cp\<rparr>"

definition listCart :: "db \<Rightarrow> auth_user \<Rightarrow> cart_line list" where
  "listCart s user =
     (let rows = cart_rows s (sub user);
          prods = attachProductAssets s cd_id (map (\<lambda>(ci, cp). product_card_of cp) rows);
          productById = map_of (rev (map (\<lambda>p. (cd_id (fst p), p)) prods))
      in map (\<lambda>(ci, cp).
           \<lparr>cl_id = ci_id ci, cl_product_id = ci_product_id ci, cl_quantity = ci_quantity ci,
            cl_created_at = ci_created_at ci, cl_updated_at = ci_updated_at ci,
            cl_product = productById (ci_product_id ci)\<rparr>) rows)"

definition assertCartProductState :: "db \<Rightarrow> int \<Rightarrow> int \<Rightarrow> unit result" where
  "assertCartProductState s productId quantity =
     (case live_product s productId of
        None \<Rightarrow> Inl (BadRequest (''Invalid product '' @ show_int productId))
      | Some r \<Rightarrow>
          if \<not> cp_is_active r then Inl (BadRequest (''Invalid product '' @ show_int productId))
          else if cp_amount r < quantity
          then Inl (BadRequest (''Insufficient product amount for '' @ show_int productId))
          else Inr ())"

text \<open>
  \<open>INSERT INTO cart_items \<dots> ON CONFLICT (user_id, product_id) DO UPDATE SET quantity =
  cart_items.quantity + EXCLUDED.quantity, updated_at = NOW()\<close>.
\<close>

definition upsert_cart_item :: "int \<Rightarrow> int \<Rightarrow> int \<Rightarrow> (db, unit) handler" where
  "upsert_cart_item userId productId quantity s =
     (let s1 = bump T_cart_items s in
      if \<not> int4 quantity then (Inl (SqlError ''22003''), s1)
      else if quantity \<le> 0 then (Inl (SqlError ''23514''), s1)
      else case find (\<lambda>ci. ci_user_id ci = userId \<and> ci_product_id ci = productId) (cart_items s) of
        Some old \<Rightarrow>
          if \<not> int4 (ci_quantity old + quantity) then (Inl (SqlError ''22003''), s1)
          else (Inr (), s1\<lparr>cart_items :=
                 update_where (\<lambda>ci. ci_user_id ci = userId \<and> ci_product_id ci = productId)
                   (\<lambda>ci. ci\<lparr>ci_quantity := ci_quantity ci + quantity, ci_updated_at := clock s\<rparr>)
                   (cart_items s)\<rparr>)
      | None \<Rightarrow>
          if \<not> has_key u_id userId (users s) \<or> \<not> has_key cp_id productId (catalog_products s)
          then (Inl (SqlError ''23503''), s1)
          else (Inr (), s1\<lparr>cart_items := cart_items s @
                 [\<lparr>ci_id = seqs s T_cart_items, ci_user_id = userId, ci_product_id = productId,
                   ci_quantity = quantity, ci_created_at = clock s, ci_updated_at = clock s\<rparr>]\<rparr>))"

definition addCartItem :: "auth_user \<Rightarrow> int \<Rightarrow> int \<Rightarrow> (db, cart_line list) handler" where
  "addCartItem user productId quantity s =
     (case assertCartProductState s productId quantity of
        Inl e \<Rightarrow> (Inl e, s)
      | Inr _ \<Rightarrow> bind_h (upsert_cart_item (sub user) productId quantity)
                  (\<lambda>_ s'. (Inr (listCart s' user), s')) s)"

definition update_cart_quantity :: "int \<Rightarrow> int \<Rightarrow> (db, unit) handler" where
  "update_cart_quantity cartItemId quantity s =
     (if has_key ci_id cartItemId (cart_items s) \<and> \<not> int4 quantity then (Inl (SqlError ''22003''), s)
      else if has_key ci_id cartItemId (cart_items s) \<and> quantity \<le> 0 then (Inl (SqlError ''23514''), s)
      else (Inr (), s\<lparr>cart_items := update_where (\<lambda>ci. ci_id ci = cartItemId)
              (\<lambda>ci. ci\<lparr>ci_quantity := quantity, ci_updated_at := clock s\<rparr>) (cart_items s)\<rparr>))"

definition updateCartItem :: "auth_user \<Rightarrow> int \<Rightarrow> int \<Rightarrow> (db, cart_line list) handler" where
  "updateCartItem user cartItemId quantity s =
     (case find (\<lambda>ci. ci_id ci = cartItemId \<and> ci_user_id ci = sub user) (cart_items s) of
        None \<Rightarrow> (Inl (NotFound ''Cart item not found''), s)
      | Some existing \<Rightarrow>
          (case assertCartProductState s (ci_product_id existing) quantity of
             Inl e \<Rightarrow> (Inl e, s)
           | Inr _ \<Rightarrow> bind_h (update_cart_quantity cartItemId quantity)
                       (\<lambda>_ s'. (Inr (listCart s' user), s')) s))"

definition deleteCartItem :: "auth_user \<Rightarrow> int \<Rightarrow> (db, string) handler" where
  "deleteCartItem user cartItemId s =
     (if list_ex (\<lambda>ci. ci_id ci = cartItemId \<and> ci_user_id ci = sub user) (cart_items s)
      then (Inr ''Cart item deleted'',
            s\<lparr>cart_items := delete_where (\<lambda>ci. ci_id ci = cartItemId \<and> ci_user_id ci = sub user)
                              (cart_items s)\<rparr>)
      else (Inl (NotFound ''Cart item not found''), s))"

definition cart_lines :: "db \<Rightarrow> int \<Rightarrow> line list" where
  "cart_lines s userId =
     map (\<lambda>ci. (ci_product_id ci, ci_quantity ci))
       (sort_key (\<lambda>ci. (ci_created_at ci, ci_id ci)) (filter (\<lambda>ci. ci_user_id ci = userId) (cart_items s)))"

definition clear_cart :: "int \<Rightarrow> db \<Rightarrow> db" where
  "clear_cart userId s = s\<lparr>cart_items := delete_where (\<lambda>ci. ci_user_id ci = userId) (cart_items s)\<rparr>"

definition checkoutCart :: "auth_user \<Rightarrow> string \<Rightarrow> (db, order_view) handler" where
  "checkoutCart user deliveryAddress =
     with_transaction (\<lambda>s.
       let cart = cart_lines s (sub user) in
       if cart = [] then (Inl (BadRequest ''Cart is empty''), s)
       else bind_h (createOrderRecord user deliveryAddress cart)
              (\<lambda>order s'. (Inr order, clear_cart (sub user) s')) s)"

section \<open>Changing an order\<close>

definition sql_update_order :: "int \<Rightarrow> (product_order \<Rightarrow> product_order) \<Rightarrow> db \<Rightarrow> db" where
  "sql_update_order orderId f s =
     s\<lparr>product_orders := update_where (\<lambda>po. po_id po = orderId) f (product_orders s)\<rparr>"

definition own_order :: "db \<Rightarrow> auth_user \<Rightarrow> int \<Rightarrow> product_order option" where
  "own_order s user orderId =
     find (\<lambda>po. po_id po = orderId \<and> po_user_id po = sub user) (product_orders s)"

definition updateOrderAddress :: "auth_user \<Rightarrow> int \<Rightarrow> string \<Rightarrow> (db, order_view) handler" where
  "updateOrderAddress user orderId deliveryAddress s =
     (case own_order s user orderId of
        None \<Rightarrow> (Inl (NotFound ''Order not found''), s)
      | Some po \<Rightarrow>
          if po_status po \<noteq> Order_RECEIVED
          then (Inl (BadRequest ''Address can only be updated before processing starts''), s)
          else
            let s1 = sql_update_order orderId
                  (\<lambda>r. r\<lparr>po_delivery_address := deliveryAddress, po_updated_at := clock s\<rparr>) s
            in (getOrderForUser s1 (sub user) orderId True, s1))"

definition cancelOrder :: "auth_user \<Rightarrow> int \<Rightarrow> (db, order_view) handler" where
  "cancelOrder user orderId s =
     (case own_order s user orderId of
        None \<Rightarrow> (Inl (NotFound ''Order not found''), s)
      | Some po \<Rightarrow>
          if po_status po \<noteq> Order_RECEIVED
          then (Inl (BadRequest ''Order cancellation allowed only before processing starts''), s)
          else
            let s1 = sql_update_order orderId
                  (\<lambda>r. r\<lparr>po_status := Order_CANCELLED, po_cancelled_at := Some (clock s),
                          po_updated_at := clock s\<rparr>) s
            in bind_h (insert_order_history orderId Order_CANCELLED (sub user))
                 (\<lambda>_ s2. (getOrderForUser s2 (sub user) orderId True, s2)) s1)"

definition adminUpdateOrderStatus :: "auth_user \<Rightarrow> int \<Rightarrow> order_status \<Rightarrow> (db, order_view) handler" where
  "adminUpdateOrderStatus admin orderId status s =
     (if \<not> has_key po_id orderId (product_orders s)
      then (Inl (NotFound ''Order not found''), s)
      else
        let s1 = sql_update_order orderId (\<lambda>r. r\<lparr>po_status := status, po_updated_at := clock s\<rparr>) s
        in bind_h (insert_order_history orderId status (sub admin))
             (\<lambda>_ s2. (getOrderForUser s2 0 orderId True, s2)) s1)"

section \<open>The item loop\<close>

definition demand :: "int \<Rightarrow> line list \<Rightarrow> int" where
  "demand p items = sum_list (map snd (filter (\<lambda>i. fst i = p) items))"

definition stock :: "db \<Rightarrow> int \<Rightarrow> int" where
  "stock s p = (case row_by cp_id p (catalog_products s) of None \<Rightarrow> 0 | Some r \<Rightarrow> cp_amount r)"

definition sold :: "db \<Rightarrow> int \<Rightarrow> int" where
  "sold s p = sum_list (map oi_quantity (filter (\<lambda>oi. oi_product_id oi = p) (order_items s)))"

text \<open>What the order loop asks of one product: on sale, with at least \<open>n\<close> pieces in stock.\<close>

definition on_sale :: "db \<Rightarrow> int \<Rightarrow> int \<Rightarrow> bool" where
  "on_sale s p n \<longleftrightarrow>
     (case live_product s p of None \<Rightarrow> False | Some r \<Rightarrow> cp_is_active r \<and> n \<le> cp_amount r)"

definition stock_taken :: "int \<Rightarrow> int \<Rightarrow> db \<Rightarrow> db" where
  "stock_taken p q s =
     s\<lparr>catalog_products := update_where (\<lambda>r. cp_id r = p)
         (\<lambda>r. r\<lparr>cp_amount := cp_amount r - q, cp_updated_at := clock s\<rparr>) (catalog_products s)\<rparr>"

definition item_placed :: "int \<Rightarrow> line \<Rightarrow> db \<Rightarrow> db" where
  "item_placed oid i s =
     stock_taken (fst i) (snd i)
       ((bump T_order_items s)\<lparr>order_items := order_items s @
          [\<lparr>oi_id = seqs s T_order_items, oi_order_id = oid, oi_product_id = fst i, oi_quantity = snd i,
            oi_unit_price = (case live_product s (fst i) of None \<Rightarrow> 0 | Some r \<Rightarrow> cp_price r)\<rparr>]\<rparr>)"

lemma demand_simps [simp]:
  "demand p [] = 0" "demand p (i # is) = (if fst i = p then snd i else 0) + demand p is"
  by (simp_all add: demand_def)

lemma demand_nonneg: "\<forall>i \<in> set items. 0 < snd i \<Longrightarrow> 0 \<le> demand p items"
  by (induction items) auto

lemma demand_pos: "\<forall>i \<in> set items. 0 < snd i \<Longrightarrow> i \<in> set items \<Longrightarrow> snd i \<le> demand (fst i) items"
proof (induction items)
  case Nil
  then show ?case by simp
next
  case (Cons j items)
  then show ?case using demand_nonneg [of items "fst i"] by fastforce
qed

lemma demand_zero: "p \<notin> fst ` set items \<Longrightarrow> demand p items = 0"
  by (induction items) auto

lemma take_stock_eq:
  assumes inv: "catalog_inv s" and r: "row_by cp_id p (catalog_products s) = Some r"
    and q: "0 \<le> q" "q \<le> cp_amount r"
  shows "take_stock p q s = (Inr (length (filter (\<lambda>r. cp_id r = p) (catalog_products s))), stock_taken p q s)"
proof -
  have pk: "pk cp_id (seqs s T_catalog_products) (catalog_products s)"
    and row: "cp_check r" "cp_range r"
    using inv row_by_Some [OF r] by (auto simp: catalog_inv_def)
  have "x = r" if "x \<in> set (catalog_products s)" "cp_id x = p" for x
    using that pk_unique [OF pk] row_by_Some [OF r] by metis
  then show ?thesis
    using row q
    by (auto simp: take_stock_def sql_update_products_def stock_taken_def Let_def list_all_iff
        list_ex_iff cp_range_def cp_check_def int4_def)
qed

lemma place_item_eq:
  assumes inv: "catalog_inv s" and oid: "has_key po_id oid (product_orders s)" and q: "0 < q"
  shows "on_sale s p q \<Longrightarrow> place_item oid (p, q) s = (Inr (), item_placed oid (p, q) s)"
    and "\<not> on_sale s p q \<Longrightarrow> \<exists>m. place_item oid (p, q) s = (Inl (BadRequest m), s)"
proof -
  assume "on_sale s p q"
  then obtain r where r: "live_product s p = Some r" "cp_is_active r" "q \<le> cp_amount r"
    by (auto simp: on_sale_def split: option.splits)
  then have mem: "r \<in> set (catalog_products s)" "cp_id r = p"
    by (auto simp: live_product_def dest: find_SomeD)
  then have row: "row_by cp_id p (catalog_products s) = Some r"
    using inv pk_row_by [of cp_id _ "catalog_products s" r] by (auto simp: catalog_inv_def)
  have chk: "int4 q" "0 \<le> cp_price r"
    using inv mem r(3) q by (auto simp: catalog_inv_def cp_check_def cp_range_def int4_def)
  let ?s = "(bump T_order_items s)\<lparr>order_items := order_items s @
          [\<lparr>oi_id = seqs s T_order_items, oi_order_id = oid, oi_product_id = p, oi_quantity = q,
            oi_unit_price = cp_price r\<rparr>]\<rparr>"
  have "catalog_inv ?s" using inv by (rule catalog_inv_mono) simp_all
  then have "take_stock p q ?s = (Inr (length (filter (\<lambda>r. cp_id r = p) (catalog_products s))), stock_taken p q ?s)"
    using take_stock_eq [of ?s p r q] row r(3) q by simp
  moreover have "has_key cp_id p (catalog_products s)" using mem by (auto simp: has_key_iff)
  ultimately show "place_item oid (p, q) s = (Inr (), item_placed oid (p, q) s)"
    using r chk oid q
    by (simp add: place_item_def insert_order_item_def bind_h_def item_placed_def)
next
  assume "\<not> on_sale s p q"
  then show "\<exists>m. place_item oid (p, q) s = (Inl (BadRequest m), s)"
    by (auto simp: on_sale_def place_item_def split: option.splits)
qed

lemma stock_taken_sel [simp]:
  "order_items (stock_taken p q s) = order_items s" "seqs (stock_taken p q s) = seqs s"
  "product_orders (stock_taken p q s) = product_orders s" "clock (stock_taken p q s) = clock s"
  "users (stock_taken p q s) = users s"
  "catalog_products (stock_taken p q s) = update_where (\<lambda>r. cp_id r = p)
     (\<lambda>r. r\<lparr>cp_amount := cp_amount r - q, cp_updated_at := clock s\<rparr>) (catalog_products s)"
  by (simp_all add: stock_taken_def)

lemma item_placed_sel [simp]:
  "product_orders (item_placed oid i s) = product_orders s" "clock (item_placed oid i s) = clock s"
  "users (item_placed oid i s) = users s"
  "seqs (item_placed oid i s) = (seqs s)(T_order_items := seqs s T_order_items + 1)"
  by (simp_all add: item_placed_def)

lemma item_placed_catalog:
  "catalog_products (item_placed oid i s) = update_where (\<lambda>r. cp_id r = fst i)
     (\<lambda>r. r\<lparr>cp_amount := cp_amount r - snd i, cp_updated_at := clock s\<rparr>) (catalog_products s)"
  by (simp add: item_placed_def)

lemma item_placed_row:
  "row_by cp_id p (catalog_products (item_placed oid i s)) =
     map_option (\<lambda>r. if p = fst i then r\<lparr>cp_amount := cp_amount r - snd i, cp_updated_at := clock s\<rparr> else r)
       (row_by cp_id p (catalog_products s))"
  unfolding item_placed_catalog
  by (subst row_by_update) (auto dest: row_by_Some intro!: map_option_cong [OF refl])

lemma item_placed_inv:
  assumes "catalog_inv s" "on_sale s (fst i) (snd i)" "0 < snd i"
  shows "catalog_inv (item_placed oid i s)"
proof -
  obtain r where r: "live_product s (fst i) = Some r" "snd i \<le> cp_amount r"
    using assms(2) by (auto simp: on_sale_def split: option.splits)
  then have mem: "r \<in> set (catalog_products s)" "cp_id r = fst i"
    by (auto simp: live_product_def dest: find_SomeD)
  have pk: "pk cp_id (seqs s T_catalog_products) (catalog_products s)"
    using assms(1) by (simp add: catalog_inv_def)
  have uniq: "x = r" if "x \<in> set (catalog_products s)" "cp_id x = fst i" for x
    using that mem pk_unique [OF pk] by metis
  have "cp_check x \<and> cp_range x" if "x \<in> set (catalog_products (item_placed oid i s))" for x
  proof -
    from that obtain y where y: "y \<in> set (catalog_products s)"
        "x = (if cp_id y = fst i then y\<lparr>cp_amount := cp_amount y - snd i, cp_updated_at := clock s\<rparr> else y)"
      by (auto simp: item_placed_catalog set_update_where)
    with assms(1) have "cp_check y" "cp_range y" by (auto simp: catalog_inv_def)
    then show ?thesis
      using y r(2) uniq [OF y(1)] assms(3) by (auto simp: cp_check_def cp_range_def int4_def)
  qed
  moreover have "pk cp_id (seqs s T_catalog_products) (catalog_products (item_placed oid i s))"
    unfolding item_placed_catalog by (rule pk_update) (use pk in auto)
  ultimately show ?thesis by (simp add: catalog_inv_def)
qed


lemma on_sale_placed:
  "on_sale (item_placed oid i s) p n \<longleftrightarrow> on_sale s p (n + (if p = fst i then snd i else 0))"
proof -
  let ?f = "\<lambda>r. r\<lparr>cp_amount := cp_amount r - snd i, cp_updated_at := clock s\<rparr>"
  have "live_product (item_placed oid i s) p =
      map_option (\<lambda>r. if cp_id r = fst i then ?f r else r) (live_product s p)"
    unfolding live_product_def item_placed_catalog by (rule find_update_where) auto
  moreover have "cp_id r = p" if "live_product s p = Some r" for r
    using that by (auto simp: live_product_def dest: find_SomeD)
  ultimately show ?thesis by (auto simp: on_sale_def split: option.splits)
qed

lemma on_sale_mono: "on_sale s p n \<Longrightarrow> m \<le> n \<Longrightarrow> on_sale s p m"
  by (auto simp: on_sale_def split: option.splits)

definition items_placed :: "int \<Rightarrow> line list \<Rightarrow> db \<Rightarrow> db" where
  "items_placed oid items s = fold (item_placed oid) items s"

definition can_place :: "db \<Rightarrow> line list \<Rightarrow> bool" where
  "can_place s items \<longleftrightarrow> (\<forall>i \<in> set items. on_sale s (fst i) (demand (fst i) items))"

lemma items_placed_simps [simp]:
  "items_placed oid [] s = s"
  "items_placed oid (i # is) s = items_placed oid is (item_placed oid i s)"
  by (simp_all add: items_placed_def)

lemma can_place_Cons:
  assumes "\<forall>j \<in> set (i # is). 0 < snd j"
  shows "can_place s (i # is) \<longleftrightarrow>
    on_sale s (fst i) (snd i) \<and> can_place (item_placed oid i s) is"
proof
  assume all: "can_place s (i # is)"
  then have "on_sale s (fst i) (snd i + demand (fst i) is)" by (simp add: can_place_def)
  moreover have "0 \<le> demand (fst i) is" using assms demand_nonneg by simp
  ultimately have "on_sale s (fst i) (snd i)" by (auto elim: on_sale_mono)
  then show "on_sale s (fst i) (snd i) \<and> can_place (item_placed oid i s) is"
    using all by (auto simp: can_place_def on_sale_placed add.commute)
next
  assume c: "on_sale s (fst i) (snd i) \<and> can_place (item_placed oid i s) is"
  have "on_sale s (fst i) (snd i + demand (fst i) is)"
  proof (cases "fst i \<in> fst ` set is")
    case True
    then obtain j where "j \<in> set is" "fst j = fst i" by force
    then show ?thesis using c by (force simp: can_place_def on_sale_placed add.commute)
  next
    case False
    then show ?thesis using c by (simp add: demand_zero)
  qed
  then show "can_place s (i # is)"
    using c by (auto simp: can_place_def on_sale_placed add.commute)
qed

lemma place_loop:
  assumes "catalog_inv s" "has_key po_id oid (product_orders s)" "\<forall>i \<in> set items. 0 < snd i"
  shows "(can_place s items \<longrightarrow> for_each (place_item oid) items s = (Inr (), items_placed oid items s) \<and>
            catalog_inv (items_placed oid items s)) \<and>
         (\<not> can_place s items \<longrightarrow> (\<exists>m s'. for_each (place_item oid) items s = (Inl (BadRequest m), s')))"
  using assms
proof (induction items arbitrary: s)
  case Nil
  then show ?case by (simp add: can_place_def)
next
  case (Cons i items)
  obtain p q where i: "i = (p, q)" by fastforce
  note step = place_item_eq [OF Cons.prems(1,2), of q p]
  show ?case
  proof (cases "on_sale s p q")
    case True
    let ?s = "item_placed oid i s"
    have "catalog_inv ?s" using item_placed_inv [OF Cons.prems(1)] True Cons.prems(3) i by simp
    with Cons.IH [of ?s] Cons.prems have IH:
      "(can_place ?s items \<longrightarrow> for_each (place_item oid) items ?s = (Inr (), items_placed oid items ?s) \<and>
            catalog_inv (items_placed oid items ?s)) \<and>
       (\<not> can_place ?s items \<longrightarrow> (\<exists>m s'. for_each (place_item oid) items ?s = (Inl (BadRequest m), s')))"
      by simp
    have "can_place s (i # items) \<longleftrightarrow> can_place ?s items"
      using can_place_Cons [OF Cons.prems(3)] True i by auto
    then show ?thesis using IH step(1) True Cons.prems(3) i by auto
  next
    case False
    moreover have "\<not> can_place s (i # items)"
      using can_place_Cons [OF Cons.prems(3)] False i by auto
    ultimately show ?thesis using step(2) Cons.prems(3) i by auto
  qed
qed

lemma items_placed_sel [simp]:
  "product_orders (items_placed oid items s) = product_orders s"
  "clock (items_placed oid items s) = clock s" "users (items_placed oid items s) = users s"
  by (induction items arbitrary: s) auto

lemma items_placed_row:
  "row_by cp_id p (catalog_products (items_placed oid items s)) =
     map_option (\<lambda>r. if p \<in> fst ` set items
         then r\<lparr>cp_amount := cp_amount r - demand p items, cp_updated_at := clock s\<rparr> else r)
       (row_by cp_id p (catalog_products s))"
  by (induction items arbitrary: s)
     (auto simp: item_placed_row option.map_comp comp_def demand_zero algebra_simps option.map_ident
       intro!: map_option_cong)

definition price_of :: "db \<Rightarrow> int \<Rightarrow> int" where
  "price_of s p = (case live_product s p of None \<Rightarrow> 0 | Some r \<Rightarrow> cp_price r)"

lemma price_of_placed [simp]: "price_of (item_placed oid i s) = price_of s"
proof
  fix p
  have "live_product (item_placed oid i s) p = map_option (\<lambda>r. if cp_id r = fst i
      then r\<lparr>cp_amount := cp_amount r - snd i, cp_updated_at := clock s\<rparr> else r) (live_product s p)"
    unfolding live_product_def item_placed_catalog by (rule find_update_where) auto
  then show "price_of (item_placed oid i s) p = price_of s p"
    by (simp add: price_of_def split: option.split)
qed

lemma items_placed_items:
  "\<exists>new. order_items (items_placed oid items s) = order_items s @ new \<and>
     map (\<lambda>oi. (oi_product_id oi, oi_quantity oi)) new = items \<and>
     map oi_unit_price new = map (\<lambda>i. price_of s (fst i)) items \<and>
     map oi_id new = map (\<lambda>k. seqs s T_order_items + int k) [0..<length items] \<and>
     (\<forall>oi \<in> set new. oi_order_id oi = oid)"
proof (induction items arbitrary: s)
  case Nil
  then show ?case by simp
next
  case (Cons i items)
  let ?oi = "\<lparr>oi_id = seqs s T_order_items, oi_order_id = oid, oi_product_id = fst i, oi_quantity = snd i,
            oi_unit_price = (case live_product s (fst i) of None \<Rightarrow> 0 | Some r \<Rightarrow> cp_price r)\<rparr>"
  obtain new where new: "order_items (items_placed oid items (item_placed oid i s)) =
      order_items (item_placed oid i s) @ new"
    "map (\<lambda>oi. (oi_product_id oi, oi_quantity oi)) new = items"
    "map oi_unit_price new = map (\<lambda>i. price_of s (fst i)) items"
    "map oi_id new = map (\<lambda>k. seqs s T_order_items + 1 + int k) [0..<length items]"
    "\<forall>oi \<in> set new. oi_order_id oi = oid"
    using Cons.IH [of "item_placed oid i s"] by auto
  have "[0..<length (i # items)] = 0 # map Suc [0..<length items]"
    by (simp only: map_Suc_upt upt_conv_Cons length_Cons zero_less_Suc)
  then show ?case
    using new by (intro exI [of _ "?oi # new"])
      (simp add: item_placed_def price_of_def comp_def add.assoc add.commute del: upt_Suc)
qed

lemma items_placed_seqs:
  "seqs (items_placed oid items s) =
     (seqs s)(T_order_items := seqs s T_order_items + int (length items))"
  by (induction items arbitrary: s) (auto simp: fun_eq_iff)

lemma items_placed_sold: "sold (items_placed oid items s) p = sold s p + demand p items"
proof -
  obtain new where new: "order_items (items_placed oid items s) = order_items s @ new"
    "map (\<lambda>oi. (oi_product_id oi, oi_quantity oi)) new = items"
    using items_placed_items by blast
  have "sum_list (map oi_quantity (filter (\<lambda>oi. oi_product_id oi = p) new)) =
      demand p (map (\<lambda>oi. (oi_product_id oi, oi_quantity oi)) new)"
    by (induction new) auto
  then show ?thesis using new by (simp add: sold_def)
qed

lemma items_placed_stock:
  assumes "can_place s items"
  shows "stock (items_placed oid items s) p = stock s p - demand p items"
proof (cases "p \<in> fst ` set items")
  case True
  then have "on_sale s p (demand p items)" using assms by (auto simp: can_place_def)
  then have "\<exists>r \<in> set (catalog_products s). cp_id r = p"
    by (auto simp: on_sale_def live_product_def dest: find_SomeD split: option.splits)
  then show ?thesis
    using True by (auto simp: stock_def items_placed_row row_by_None_iff split: option.splits)
next
  case False
  then show ?thesis by (simp add: stock_def items_placed_row demand_zero option.map_ident)
qed

text \<open>Everything but the four tables the order loop writes.\<close>

definition order_rest :: "db \<Rightarrow> db" where
  "order_rest s = s\<lparr>catalog_products := [], order_items := [], product_orders := [],
     order_history := [], seqs := (\<lambda>_. 0)\<rparr>"

lemma order_rest_cong:
  assumes "order_rest s' = order_rest s"
  shows "cart_items s' = cart_items s" "users s' = users s" "clock s' = clock s"
    "files s' = files s" "product_assets s' = product_assets s" "product_ratings s' = product_ratings s"
  using arg_cong [OF assms, of cart_items] arg_cong [OF assms, of users] arg_cong [OF assms, of clock]
    arg_cong [OF assms, of files] arg_cong [OF assms, of product_assets]
    arg_cong [OF assms, of product_ratings]
  by (simp_all add: order_rest_def)

lemma items_placed_rest: "order_rest (items_placed oid items s) = order_rest s"
proof (induction items arbitrary: s)
  case Nil
  show ?case by simp
next
  case (Cons i items)
  have "order_rest (item_placed oid i s) = order_rest s"
    by (simp add: order_rest_def item_placed_def stock_taken_def bump_def)
  then show ?case using Cons by simp
qed

section \<open>When an order succeeds\<close>

definition items_of :: "db \<Rightarrow> int \<Rightarrow> order_item_view list" where
  "items_of s i = map (item_view s) (sort_key oi_id (filter (\<lambda>oi. oi_order_id oi = i) (order_items s)))"

definition order_view_of :: "order_row \<Rightarrow> bool \<Rightarrow> order_item_view list \<Rightarrow> order_view" where
  "order_view_of order includeUser orderItems =
     \<lparr>ov_id = ow_id order, ov_user_id = ow_user_id order,
      ov_delivery_address = ow_delivery_address order, ov_status = ow_status order,
      ov_created_at = ow_created_at order, ov_updated_at = ow_updated_at order,
      ov_item_count = length orderItems, ov_items = orderItems,
      ov_user = (if includeUser
        then Some \<lparr>ub_id = ow_user_id order, ub_name = ow_user_name order,
                   ub_email = ow_user_email order, ub_phone = ow_user_phone order\<rparr>
        else None)\<rparr>"

lemma attachOrderItems_eq:
  "attachOrderItems s orders b = map (\<lambda>ow. order_view_of ow b (items_of s (ow_id ow))) orders"
proof -
  have *: "bucket_get (bucket_by oi_order_id (item_view s)
        (sort_key (\<lambda>oi. (oi_order_id oi, oi_id oi))
          (filter (\<lambda>oi. oi_order_id oi \<in> ids) (order_items s)))) i = items_of s i"
    if "i \<in> ids" for i ids
  proof -
    have "filter (\<lambda>oi. oi_order_id oi = i) (filter (\<lambda>oi. oi_order_id oi \<in> ids) (order_items s)) =
        filter (\<lambda>oi. oi_order_id oi = i) (order_items s)"
      using that by (auto intro!: filter_cong)
    then show ?thesis
      unfolding bucket_by_get items_of_def filter_sort
      by (auto intro!: arg_cong [where f = "map _"] sort_key_same_order simp: less_eq_prod_def)
  qed
  then show ?thesis
    by (auto simp: attachOrderItems_def order_view_of_def Let_def)
qed

definition order_placed :: "auth_user \<Rightarrow> string \<Rightarrow> line list \<Rightarrow> db \<Rightarrow> db" where
  "order_placed user addr items s =
     (let oid = seqs s T_product_orders;
          s2 = items_placed oid items (snd (insert_order (sub user) addr s))
      in snd (insert_order_history oid Order_RECEIVED (sub user) s2))"

lemma insert_order_eq:
  "has_key u_id u (users s) \<Longrightarrow> insert_order u addr s =
     (Inr (seqs s T_product_orders), (bump T_product_orders s)\<lparr>product_orders := product_orders s @
       [\<lparr>po_id = seqs s T_product_orders, po_user_id = u, po_delivery_address = addr,
         po_status = Order_RECEIVED, po_cancelled_at = None, po_created_at = clock s,
         po_updated_at = clock s\<rparr>]\<rparr>)"
  by (simp add: insert_order_def)

lemma can_place_cong:
  "catalog_products s' = catalog_products s \<Longrightarrow> can_place s' items = can_place s items"
  by (simp add: can_place_def on_sale_def live_product_def)

text \<open>The whole of \<open>createOrderRecord\<close>, on every branch.\<close>

lemma createOrderRecord_eq:
  assumes inv: "catalog_inv s" and pos: "\<forall>i \<in> set items. 0 < snd i"
  shows "\<not> has_key u_id (sub user) (users s) \<Longrightarrow>
      \<exists>s'. createOrderRecord user addr items s = (Inl (SqlError ''23503''), s')"
    and "has_key u_id (sub user) (users s) \<Longrightarrow> \<not> can_place s items \<Longrightarrow>
      \<exists>m s'. createOrderRecord user addr items s = (Inl (BadRequest m), s')"
    and "has_key u_id (sub user) (users s) \<Longrightarrow> can_place s items \<Longrightarrow>
      createOrderRecord user addr items s =
        (let s' = order_placed user addr items s; oid = seqs s T_product_orders in
         (Inr (order_view_of \<lparr>ow_id = oid, ow_user_id = sub user, ow_delivery_address = addr,
            ow_status = Order_RECEIVED, ow_created_at = clock s, ow_updated_at = clock s,
            ow_user_name = None, ow_user_email = None, ow_user_phone = None\<rparr> False (items_of s' oid)), s')) \<and>
      catalog_inv (order_placed user addr items s)"
proof -
  show "\<not> has_key u_id (sub user) (users s) \<Longrightarrow>
      \<exists>s'. createOrderRecord user addr items s = (Inl (SqlError ''23503''), s')"
    by (simp add: createOrderRecord_def bind_h_def insert_order_def)
  assume u: "has_key u_id (sub user) (users s)"
  define oid where "oid = seqs s T_product_orders"
  define s1 where "s1 = snd (insert_order (sub user) addr s)"
  have ins: "insert_order (sub user) addr s = (Inr oid, s1)"
    by (simp add: s1_def oid_def insert_order_eq [OF u])
  have s1: "catalog_products s1 = catalog_products s" "users s1 = users s" "clock s1 = clock s"
      "has_key po_id oid (product_orders s1)"
      "seqs s1 T_catalog_products = seqs s T_catalog_products"
    by (simp_all add: s1_def insert_order_eq [OF u] oid_def has_key_iff)
  have "catalog_inv s1" using inv s1 by (auto intro: catalog_inv_mono)
  note loop = place_loop [OF this s1(4) pos] can_place_cong [OF s1(1), of items]
  show "\<not> can_place s items \<Longrightarrow> \<exists>m s'. createOrderRecord user addr items s = (Inl (BadRequest m), s')"
    using loop by (auto simp: createOrderRecord_def bind_h_def ins)
  assume "can_place s items"
  then have run: "for_each (place_item oid) items s1 = (Inr (), items_placed oid items s1)"
    and inv2: "catalog_inv (items_placed oid items s1)" using loop by auto
  have hist: "insert_order_history oid Order_RECEIVED (sub user) (items_placed oid items s1) =
      (Inr (), order_placed user addr items s)"
    using s1 u by (simp add: order_placed_def insert_order_history_def Let_def flip: s1_def oid_def)
  moreover have "clock (order_placed user addr items s) = clock s"
    "catalog_inv (order_placed user addr items s)"
    using arg_cong [OF hist, of "\<lambda>x. clock (snd x)"] arg_cong [OF hist, of "\<lambda>x. catalog_products (snd x)"]
      arg_cong [OF hist, of "\<lambda>x. seqs (snd x) T_catalog_products"] s1 inv2 u
    by (auto simp: insert_order_history_def intro: catalog_inv_mono)
  ultimately show "createOrderRecord user addr items s =
        (let s' = order_placed user addr items s; oid = seqs s T_product_orders in
         (Inr (order_view_of \<lparr>ow_id = oid, ow_user_id = sub user, ow_delivery_address = addr,
            ow_status = Order_RECEIVED, ow_created_at = clock s, ow_updated_at = clock s,
            ow_user_name = None, ow_user_email = None, ow_user_phone = None\<rparr> False (items_of s' oid)), s')) \<and>
      catalog_inv (order_placed user addr items s)"
    by (simp add: createOrderRecord_def bind_h_def ins run attachOrderItems_eq Let_def flip: oid_def)
qed

end
