(* ===== verification/Shop.thy ===== *)
theory Shop
  imports Orders Samples
begin

text \<open>
  The correctness of the cart and order operations of \<open>Orders\<close>: what a placed order leaves behind, the
  invariants of the order tables, orders as a \<open>ticket_desk\<close>, the cart, and the shop as a transition
  system (\<open>shop_step\<close>) with its reachable-state theorems.
\<close>


section \<open>What a placed order leaves behind\<close>

lemma order_placed_sel:
  assumes "has_key u_id (sub user) (users s)"
  shows "product_orders (order_placed user addr items s) = product_orders s @
      [\<lparr>po_id = seqs s T_product_orders, po_user_id = sub user, po_delivery_address = addr,
        po_status = Order_RECEIVED, po_cancelled_at = None, po_created_at = clock s,
        po_updated_at = clock s\<rparr>]"
    and "\<exists>k. order_history (order_placed user addr items s) = order_history s @
      [\<lparr>h_id = k, h_item_id = seqs s T_product_orders, h_status = Order_RECEIVED, h_changed_by = sub user\<rparr>]"
    and "order_rest (order_placed user addr items s) = order_rest s"
    and "order_items (order_placed user addr items s) =
      order_items (items_placed (seqs s T_product_orders) items (snd (insert_order (sub user) addr s)))"
    and "catalog_products (order_placed user addr items s) =
      catalog_products (items_placed (seqs s T_product_orders) items (snd (insert_order (sub user) addr s)))"
    and "seqs (order_placed user addr items s) = (seqs s)
      (T_product_orders := seqs s T_product_orders + 1,
       T_order_items := seqs s T_order_items + int (length items),
       T_order_history := seqs s T_order_history + 1)"
proof -
  define oid where "oid = seqs s T_product_orders"
  define s1 where "s1 = snd (insert_order (sub user) addr s)"
  have s1: "product_orders s1 = product_orders s @
      [\<lparr>po_id = oid, po_user_id = sub user, po_delivery_address = addr,
        po_status = Order_RECEIVED, po_cancelled_at = None, po_created_at = clock s,
        po_updated_at = clock s\<rparr>]"
    "users s1 = users s" "order_history s1 = order_history s" "order_rest s1 = order_rest s"
    "seqs s1 = (seqs s)(T_product_orders := oid + 1)"
    by (simp_all add: s1_def insert_order_eq [OF assms] oid_def order_rest_def)
  define s2 where "s2 = items_placed oid items s1"
  have s2: "product_orders s2 = product_orders s1" "users s2 = users s1" "order_rest s2 = order_rest s1"
    "seqs s2 = (seqs s1)(T_order_items := seqs s1 T_order_items + int (length items))"
    by (simp_all add: s2_def items_placed_rest items_placed_seqs)
  have h2: "order_history s2 = order_history s1"
    unfolding s2_def by (induction items arbitrary: s1) (simp_all add: item_placed_def stock_taken_def)
  have p: "order_placed user addr items s = (bump T_order_history s2)\<lparr>order_history := order_history s2 @
      [\<lparr>h_id = seqs s2 T_order_history, h_item_id = oid, h_status = Order_RECEIVED, h_changed_by = sub user\<rparr>]\<rparr>"
    using s1 s2 assms
    by (simp add: order_placed_def Let_def insert_order_history_def has_key_iff flip: oid_def s1_def s2_def)
  have "order_rest (bump t x\<lparr>order_history := y\<rparr>) = order_rest x" for t x y
    by (simp add: order_rest_def bump_def)
  then show "order_rest (order_placed user addr items s) = order_rest s"
    by (simp add: p s1 s2)
  show "\<exists>k. order_history (order_placed user addr items s) = order_history s @
      [\<lparr>h_id = k, h_item_id = seqs s T_product_orders, h_status = Order_RECEIVED, h_changed_by = sub user\<rparr>]"
    by (simp add: p s1 h2 oid_def)
  show "product_orders (order_placed user addr items s) = product_orders s @
      [\<lparr>po_id = seqs s T_product_orders, po_user_id = sub user, po_delivery_address = addr,
        po_status = Order_RECEIVED, po_cancelled_at = None, po_created_at = clock s,
        po_updated_at = clock s\<rparr>]"
    by (simp add: p s1 s2 oid_def)
  show "order_items (order_placed user addr items s) =
      order_items (items_placed (seqs s T_product_orders) items (snd (insert_order (sub user) addr s)))"
    and "catalog_products (order_placed user addr items s) =
      catalog_products (items_placed (seqs s T_product_orders) items (snd (insert_order (sub user) addr s)))"
    by (simp_all add: p flip: s1_def oid_def s2_def)
  show "seqs (order_placed user addr items s) = (seqs s)
      (T_product_orders := seqs s T_product_orders + 1,
       T_order_items := seqs s T_order_items + int (length items),
       T_order_history := seqs s T_order_history + 1)"
    by (simp add: p s1 s2 fun_eq_iff oid_def)
qed


definition orders_inv :: "db \<Rightarrow> bool" where
  "orders_inv s \<longleftrightarrow>
     pk po_id (seqs s T_product_orders) (product_orders s) \<and>
     pk oi_id (seqs s T_order_items) (order_items s) \<and>
     (\<forall>oi \<in> set (order_items s). has_key po_id (oi_order_id oi) (product_orders s) \<and>
        0 < oi_quantity oi \<and> 0 \<le> oi_unit_price oi) \<and>
     (\<forall>h \<in> set (order_history s). has_key po_id (h_item_id h) (product_orders s)) \<and>
     (\<forall>po \<in> set (product_orders s). has_key u_id (po_user_id po) (users s))"

definition order_wf :: "db \<Rightarrow> bool" where
  "order_wf s \<longleftrightarrow> catalog_inv s \<and> orders_inv s"

definition order_status :: "db \<Rightarrow> int \<Rightarrow> order_status option" where
  "order_status s i = map_option po_status (row_by po_id i (product_orders s))"

definition order_owner :: "db \<Rightarrow> int \<Rightarrow> int option" where
  "order_owner s i = map_option po_user_id (row_by po_id i (product_orders s))"

definition order_log :: "db \<Rightarrow> int \<Rightarrow> order_status list" where
  "order_log s i = log_in (order_history s) i"

lemma desk_seqs [simp]:
  "order_status (s\<lparr>seqs := q\<rparr>) = order_status s" "order_owner (s\<lparr>seqs := q\<rparr>) = order_owner s"
  "order_log (s\<lparr>seqs := q\<rparr>) = order_log s"
  by (simp_all add: order_status_def order_owner_def order_log_def fun_eq_iff)

text \<open>The loop asks for positive quantities by the \<open>CHECK\<close> of \<open>order_items\<close>.\<close>

lemma place_item_positive: "place_item oid (p, q) s = (Inr (), s') \<Longrightarrow> 0 < q"
  by (auto simp: place_item_def bind_h_def insert_order_item_def Let_def
      split: option.splits if_splits prod.splits sum.splits)

lemma loop_positive:
  "for_each (place_item oid) items s = (Inr (), s') \<Longrightarrow> \<forall>i \<in> set items. 0 < snd i"
  by (induction items arbitrary: s)
     (auto dest: place_item_positive split: prod.splits sum.splits)

definition orderable :: "db \<Rightarrow> auth_user \<Rightarrow> line list \<Rightarrow> bool" where
  "orderable s user items \<longleftrightarrow>
     has_key u_id (sub user) (users s) \<and> (\<forall>i \<in> set items. 0 < snd i) \<and> can_place s items"

lemma record_ok_iff:
  assumes "catalog_inv s"
  shows "is_ok (fst (createOrderRecord user addr items s)) \<longleftrightarrow> orderable s user items"
proof (cases "\<forall>i \<in> set items. 0 < snd i")
  case True
  then show ?thesis
    using createOrderRecord_eq [OF assms True, of user addr]
    by (cases "has_key u_id (sub user) (users s)"; cases "can_place s items")
       (auto simp: orderable_def Let_def)
next
  case False
  have "\<not> is_ok (fst (createOrderRecord user addr items s))"
    using False
    by (auto simp: createOrderRecord_def bind_h_def is_ok_def dest: loop_positive
        split: prod.splits sum.splits)
  then show ?thesis using False by (auto simp: orderable_def)
qed

lemma record_ok_eq:
  assumes "catalog_inv s" and "orderable s user items"
  shows "createOrderRecord user addr items s =
     (let s' = order_placed user addr items s; oid = seqs s T_product_orders in
      (Inr (order_view_of \<lparr>ow_id = oid, ow_user_id = sub user, ow_delivery_address = addr,
         ow_status = Order_RECEIVED, ow_created_at = clock s, ow_updated_at = clock s,
         ow_user_name = None, ow_user_email = None, ow_user_phone = None\<rparr> False (items_of s' oid)), s'))"
    and "catalog_inv (order_placed user addr items s)"
  using createOrderRecord_eq(3) [OF assms(1), of items user addr] assms(2)
  by (auto simp: orderable_def)

lemma order_placed_stock:
  assumes "orderable s user items"
  shows "stock (order_placed user addr items s) p = stock s p - demand p items"
    and "sold (order_placed user addr items s) p = sold s p + demand p items"
proof -
  have u: "has_key u_id (sub user) (users s)" and c: "can_place s items"
    using assms by (auto simp: orderable_def)
  let ?s1 = "snd (insert_order (sub user) addr s)"
  have s1: "catalog_products ?s1 = catalog_products s" "order_items ?s1 = order_items s"
    by (simp_all add: insert_order_eq [OF u])
  have c1: "can_place ?s1 items" using c can_place_cong [OF s1(1)] by simp
  show "stock (order_placed user addr items s) p = stock s p - demand p items"
    using items_placed_stock [OF c1, of "seqs s T_product_orders" p] s1
    by (simp add: stock_def order_placed_sel [OF u])
  show "sold (order_placed user addr items s) p = sold s p + demand p items"
    using items_placed_sold [of "seqs s T_product_orders" items ?s1 p] s1
    by (simp add: sold_def order_placed_sel [OF u])
qed

lemma order_placed_items:
  assumes inv: "orders_inv s" and "orderable s user items"
  shows "\<exists>new. order_items (order_placed user addr items s) = order_items s @ new \<and>
      map (\<lambda>oi. (oi_product_id oi, oi_quantity oi)) new = items \<and>
      map oi_unit_price new = map (\<lambda>i. price_of s (fst i)) items \<and>
      map oi_id new = map (\<lambda>k. seqs s T_order_items + int k) [0..<length items] \<and>
      (\<forall>oi \<in> set new. oi_order_id oi = seqs s T_product_orders)"
proof -
  have u: "has_key u_id (sub user) (users s)" using assms(2) by (simp add: orderable_def)
  let ?s1 = "snd (insert_order (sub user) addr s)"
  have "catalog_products ?s1 = catalog_products s" "order_items ?s1 = order_items s"
    "seqs ?s1 T_order_items = seqs s T_order_items" by (simp_all add: insert_order_eq [OF u])
  moreover from this have "price_of ?s1 = price_of s"
    by (simp add: price_of_def live_product_def fun_eq_iff)
  ultimately show ?thesis
    using items_placed_items [of "seqs s T_product_orders" items ?s1]
    by (simp add: order_placed_sel [OF u])
qed

lemma price_of_nonneg: "catalog_inv s \<Longrightarrow> 0 \<le> price_of s p"
  by (auto simp: price_of_def catalog_inv_def cp_check_def live_product_def
      dest: find_SomeD split: option.splits)

lemma order_placed_inv:
  assumes wf: "order_wf s" and ok: "orderable s user items"
  shows "order_wf (order_placed user addr items s)"
proof -
  let ?s' = "order_placed user addr items s"
  have cat: "catalog_inv s" and inv: "orders_inv s" using wf by (auto simp: order_wf_def)
  have u: "has_key u_id (sub user) (users s)" and pos: "\<forall>i \<in> set items. 0 < snd i"
    using ok by (auto simp: orderable_def)
  obtain new where new: "order_items ?s' = order_items s @ new"
      "map (\<lambda>oi. (oi_product_id oi, oi_quantity oi)) new = items"
      "map oi_unit_price new = map (\<lambda>i. price_of s (fst i)) items"
      "map oi_id new = map (\<lambda>k. seqs s T_order_items + int k) [0..<length items]"
      "\<forall>oi \<in> set new. oi_order_id oi = seqs s T_product_orders"
    using order_placed_items [OF inv ok] by blast
  note sel = order_placed_sel [OF u] order_rest_cong [OF order_placed_sel(3) [OF u]]
  have "pk oi_id (seqs s T_order_items + int (length items)) (order_items s @ new)"
  proof -
    have ids: "oi_id ` set new = (\<lambda>k. seqs s T_order_items + int k) ` {0..<length items}"
      using arg_cong [OF new(4), of set] by simp
    have "distinct (map oi_id new)" by (simp add: new(4) distinct_map inj_on_def)
    moreover have "\<forall>r \<in> set new. seqs s T_order_items \<le> oi_id r \<and>
        oi_id r < seqs s T_order_items + int (length items)"
    proof
      fix r
      assume "r \<in> set new"
      then have "oi_id r \<in> (\<lambda>k. seqs s T_order_items + int k) ` {0..<length items}"
        unfolding ids [symmetric] by blast
      then show "seqs s T_order_items \<le> oi_id r \<and> oi_id r < seqs s T_order_items + int (length items)"
        by auto
    qed
    ultimately show ?thesis using inv by (force simp: orders_inv_def pk_def)
  qed
  moreover have "0 < oi_quantity oi \<and> 0 \<le> oi_unit_price oi" if "oi \<in> set new" for oi
  proof -
    have "(oi_product_id oi, oi_quantity oi) \<in> set items"
      using that arg_cong [OF new(2), of set] by force
    moreover have "oi_unit_price oi \<in> set (map oi_unit_price new)" using that by simp
    then have "oi_unit_price oi \<in> price_of s ` fst ` set items" unfolding new(3) by auto
    ultimately show ?thesis using pos price_of_nonneg [OF cat] by fastforce
  qed
  moreover have "pk po_id (seqs s T_product_orders + 1) (product_orders ?s')"
    unfolding sel(1) by (rule pk_insert) (use inv in \<open>simp_all add: orders_inv_def\<close>)
  moreover have "\<forall>h \<in> set (order_history ?s'). h \<in> set (order_history s) \<or>
      h_item_id h = seqs s T_product_orders"
    using sel(2) [of addr items] by auto
  moreover have "\<forall>oi \<in> set (order_items s). has_key po_id (oi_order_id oi) (product_orders ?s')"
    and "has_key po_id (seqs s T_product_orders) (product_orders ?s')"
    and "\<forall>h \<in> set (order_history s). has_key po_id (h_item_id h) (product_orders ?s')"
    and "\<forall>po \<in> set (product_orders ?s'). has_key u_id (po_user_id po) (users s)"
    using inv u by (auto simp: orders_inv_def sel(1) has_key_iff)
  ultimately have "orders_inv ?s'"
    using inv new(5) unfolding orders_inv_def
    by (simp add: new(1) sel(6-8) ball_Un) auto
  then show ?thesis using record_ok_eq(2) [OF cat ok] by (simp add: order_wf_def)
qed


lemma order_placed_desk:
  assumes wf: "order_wf s" and ok: "orderable s user items"
  shows "order_status s (seqs s T_product_orders) = None"
    and "order_status (order_placed user addr items s) =
      (order_status s)(seqs s T_product_orders := Some Order_RECEIVED)"
    and "order_owner (order_placed user addr items s) =
      (order_owner s)(seqs s T_product_orders := Some (sub user))"
    and "order_log (order_placed user addr items s) =
      (order_log s)(seqs s T_product_orders := order_log s (seqs s T_product_orders) @ [Order_RECEIVED])"
proof -
  have u: "has_key u_id (sub user) (users s)" using ok by (simp add: orderable_def)
  have fresh: "row_by po_id (seqs s T_product_orders) (product_orders s) = None"
    using wf by (auto simp: order_wf_def orders_inv_def intro: row_by_fresh)
  show "order_status s (seqs s T_product_orders) = None" by (simp add: order_status_def fresh)
  show "order_status (order_placed user addr items s) =
      (order_status s)(seqs s T_product_orders := Some Order_RECEIVED)"
    and "order_owner (order_placed user addr items s) =
      (order_owner s)(seqs s T_product_orders := Some (sub user))"
    by (auto simp: fun_eq_iff order_status_def order_owner_def order_placed_sel(1) [OF u] row_by_append fresh
        split: option.splits)
  show "order_log (order_placed user addr items s) =
      (order_log s)(seqs s T_product_orders := order_log s (seqs s T_product_orders) @ [Order_RECEIVED])"
    using order_placed_sel(2) [OF u, of addr items] by (auto simp: fun_eq_iff order_log_def)
qed

lemma record_InrD:
  assumes "catalog_inv s" and "createOrderRecord user addr items s = (Inr v, s')"
  shows "orderable s user items" and "s' = order_placed user addr items s"
proof -
  show ok: "orderable s user items"
    using record_ok_iff [OF assms(1), of user addr items] assms(2) by simp
  show "s' = order_placed user addr items s"
    using record_ok_eq(1) [OF assms(1) ok, of addr] assms(2) by (simp add: Let_def)
qed

lemma order_wf_seqs_only:
  assumes "order_wf s" and "s' = s\<lparr>seqs := q\<rparr>"
    and "\<And>t. seqs s t \<le> q t"
  shows "order_wf s'"
  using assms(1)
  by (auto simp: assms(2) order_wf_def orders_inv_def catalog_inv_def intro: pk_mono [OF _ assms(3)])

text \<open>Every handler draws identities upwards.\<close>

lemma bump_mono: "seqs s t \<le> seqs (bump t' s) t"
  by simp

lemma for_each_seqs_mono:
  assumes "\<And>x s. seqs s t \<le> seqs (snd (f x s)) t"
  shows "seqs s t \<le> seqs (snd (for_each f xs s)) t"
  by (rule for_each_preserves [where P = "\<lambda>u. seqs s t \<le> seqs u t"])
     (auto intro: order_trans assms)

lemma bind_h_seqs_mono:
  assumes "\<And>s. seqs s t \<le> seqs (snd (m s)) t" "\<And>a s. seqs s t \<le> seqs (snd (k a s)) t"
  shows "seqs s t \<le> seqs (snd (bind_h m k s)) t"
  by (rule bind_h_preserves [where P = "\<lambda>u. seqs s t \<le> seqs u t"])
     (auto intro: order_trans assms)

lemma sql_update_products_seqs [simp]: "seqs (snd (sql_update_products p f s)) = seqs s"
  by (simp add: sql_update_products_def Let_def)

lemma createOrderRecord_seqs_mono: "seqs s t \<le> seqs (snd (createOrderRecord user addr items s)) t"
proof -
  have "seqs s t \<le> seqs (snd (place_item oid i s)) t" for oid i s
    by (auto simp: place_item_def insert_order_item_def take_stock_def bind_h_def Let_def
        sql_update_products_def split: option.splits prod.splits sum.splits if_splits)
  then show ?thesis
    unfolding createOrderRecord_def
    by (intro bind_h_seqs_mono for_each_seqs_mono)
       (simp_all add: insert_order_def insert_order_history_def Let_def)
qed

lemma createOrder_seqs_mono: "seqs s t \<le> seqs (snd (createOrder user dto s)) t"
  using createOrderRecord_seqs_mono [of s t user "no_deliveryAddress dto" "no_items dto"]
  by (auto simp: createOrder_def with_transaction_def split: prod.splits sum.splits)

lemma createOrder_cases:
  assumes wf: "order_wf s" and run: "createOrder user dto s = (x, s')"
  obtains (placed) "is_ok x" "no_items dto \<noteq> []" "orderable s user (no_items dto)"
      "s' = order_placed user (no_deliveryAddress dto) (no_items dto) s"
    | (failed) "\<not> is_ok x" "s' = s\<lparr>seqs := seqs s'\<rparr>"
proof (cases x)
  case (Inl e)
  then show thesis
    using run failed by (auto simp: createOrder_def split: if_splits elim!: with_transaction_InlE)
next
  case (Inr v)
  then have "no_items dto \<noteq> []"
    and "createOrderRecord user (no_deliveryAddress dto) (no_items dto) s = (Inr v, s')"
    using run by (auto simp: createOrder_def split: if_splits dest: with_transaction_InrE)
  with record_InrD [of s] wf Inr placed show thesis by (auto simp: order_wf_def)
qed


text \<open>Changing an order's row keeps its identity, and with it the invariants.\<close>

lemma sql_update_order_wf:
  assumes "order_wf s" "\<And>r. po_id (f r) = po_id r" "\<And>r. po_user_id (f r) = po_user_id r"
  shows "order_wf (sql_update_order i f s)"
proof -
  have "has_key po_id j (update_where (\<lambda>po. po_id po = i) f t) = has_key po_id j t" for j t
    by (simp add: has_key_iff update_where_image assms(2))
  then show ?thesis
    using assms pk_update [of po_id f]
    by (auto simp: order_wf_def orders_inv_def sql_update_order_def set_update_where
        intro: catalog_inv_mono)
qed

lemma sql_update_order_sel [simp]:
  "product_orders (sql_update_order i f s) = update_where (\<lambda>po. po_id po = i) f (product_orders s)"
  "order_history (sql_update_order i f s) = order_history s" "users (sql_update_order i f s) = users s"
  "seqs (sql_update_order i f s) = seqs s" "order_items (sql_update_order i f s) = order_items s"
  "catalog_products (sql_update_order i f s) = catalog_products s"
  "cart_items (sql_update_order i f s) = cart_items s" "clock (sql_update_order i f s) = clock s"
  by (simp_all add: sql_update_order_def)

lemma own_order_iff:
  assumes "orders_inv s"
  shows "own_order s user i = Some po \<longleftrightarrow> row_by po_id i (product_orders s) = Some po \<and> po_user_id po = sub user"
proof -
  have "own_order s user i = (case row_by po_id i (product_orders s) of None \<Rightarrow> None
      | Some r \<Rightarrow> if po_user_id r = sub user then Some r else None)"
    using assms pk_find_and [of po_id "seqs s T_product_orders" "product_orders s" i "\<lambda>po. po_user_id po = sub user"]
    by (simp add: own_order_def orders_inv_def)
  then show ?thesis by (auto split: option.splits if_splits)
qed

text \<open>The two statements of every status change, and what they leave.\<close>

definition order_moved :: "int \<Rightarrow> (product_order \<Rightarrow> product_order) \<Rightarrow> order_status \<Rightarrow> int \<Rightarrow> db \<Rightarrow> db" where
  "order_moved i f st by s = snd (insert_order_history i st by (sql_update_order i f s))"

lemma order_moved_step:
  assumes "has_key po_id i (product_orders s)" "has_key u_id by (users s)" "\<And>r. po_id (f r) = po_id r"
  shows "insert_order_history i st by (sql_update_order i f s) = (Inr (), order_moved i f st by s)"
  using assms by (simp add: order_moved_def insert_order_history_def has_key_iff update_where_image)

lemma order_moved_sel:
  assumes "has_key po_id i (product_orders s)" "has_key u_id by (users s)" "\<And>r. po_id (f r) = po_id r"
  shows "product_orders (order_moved i f st by s) = update_where (\<lambda>po. po_id po = i) f (product_orders s)"
    and "\<exists>k. order_history (order_moved i f st by s) = order_history s @
      [\<lparr>h_id = k, h_item_id = i, h_status = st, h_changed_by = by\<rparr>]"
    and "users (order_moved i f st by s) = users s" "order_items (order_moved i f st by s) = order_items s"
    and "catalog_products (order_moved i f st by s) = catalog_products s"
    and "cart_items (order_moved i f st by s) = cart_items s"
    and "seqs (order_moved i f st by s) = (seqs s)(T_order_history := seqs s T_order_history + 1)"
  using assms
  by (simp_all add: order_moved_def insert_order_history_def has_key_iff update_where_image)

lemma order_moved_wf:
  assumes wf: "order_wf s" and "has_key po_id i (product_orders s)" "has_key u_id by (users s)"
    and f: "\<And>r. po_id (f r) = po_id r" "\<And>r. po_user_id (f r) = po_user_id r"
  shows "order_wf (order_moved i f st by s)"
proof -
  note sel = order_moved_sel [OF assms(2,3) f(1), where st = st]
  from sql_update_order_wf [OF wf f] have "order_wf (sql_update_order i f s)" .
  moreover have "has_key po_id i (update_where (\<lambda>po. po_id po = i) f (product_orders s))"
    using assms(2) by (simp add: has_key_iff update_where_image f)
  moreover have "catalog_inv (order_moved i f st by s)"
    using wf sel by (auto simp: order_wf_def intro: catalog_inv_mono)
  moreover obtain k where "order_history (order_moved i f st by s) = order_history s @
      [\<lparr>h_id = k, h_item_id = i, h_status = st, h_changed_by = by\<rparr>]" using sel(2) by blast
  ultimately show ?thesis
    by (auto simp: order_wf_def orders_inv_def sel)
qed

lemma order_moved_desk:
  assumes "has_key po_id i (product_orders s)" "has_key u_id by (users s)"
    and f: "\<And>r. po_id (f r) = po_id r" "\<And>r. po_user_id (f r) = po_user_id r" "\<And>r. po_status (f r) = st"
  shows "order_status (order_moved i f st by s) = (order_status s)(i := Some st)"
    and "order_owner (order_moved i f st by s) = order_owner s"
    and "order_log (order_moved i f st by s) = (order_log s)(i := order_log s i @ [st])"
proof -
  note sel = order_moved_sel [OF assms(1,2) f(1), where st = st]
  obtain r where "row_by po_id i (product_orders s) = Some r"
    using assms(1) by (auto simp: has_key_row_by)
  then show "order_status (order_moved i f st by s) = (order_status s)(i := Some st)"
    and "order_owner (order_moved i f st by s) = order_owner s"
    by (auto simp: order_status_def order_owner_def sel row_by_update f fun_eq_iff option.map_comp comp_def
        dest: row_by_Some intro!: map_option_cong)
  show "order_log (order_moved i f st by s) = (order_log s)(i := order_log s i @ [st])"
    using sel(2) by (auto simp: order_log_def fun_eq_iff)
qed


definition cancel_set :: "time \<Rightarrow> product_order \<Rightarrow> product_order" where
  "cancel_set now r = r\<lparr>po_status := Order_CANCELLED, po_cancelled_at := Some now, po_updated_at := now\<rparr>"

definition status_set :: "order_status \<Rightarrow> time \<Rightarrow> product_order \<Rightarrow> product_order" where
  "status_set st now r = r\<lparr>po_status := st, po_updated_at := now\<rparr>"

lemma cancel_set_sel [simp]:
  "po_id (cancel_set t r) = po_id r" "po_user_id (cancel_set t r) = po_user_id r"
  "po_status (cancel_set t r) = Order_CANCELLED"
  "po_id (status_set st t r) = po_id r" "po_user_id (status_set st t r) = po_user_id r"
  "po_status (status_set st t r) = st"
  by (simp_all add: cancel_set_def status_set_def)

lemma getOrderForUser_admin:
  "has_key po_id i (product_orders s) \<Longrightarrow> \<exists>v. getOrderForUser s u i True = Inr v"
  by (auto simp: getOrderForUser_def has_key_row_by)

lemma cancelOrder_eq:
  assumes "order_wf s"
  shows "cancelOrder user i s =
     (case row_by po_id i (product_orders s) of
        None \<Rightarrow> (Inl (NotFound ''Order not found''), s)
      | Some po \<Rightarrow>
          if po_user_id po \<noteq> sub user then (Inl (NotFound ''Order not found''), s)
          else if po_status po \<noteq> Order_RECEIVED
          then (Inl (BadRequest ''Order cancellation allowed only before processing starts''), s)
          else let s' = order_moved i (cancel_set (clock s)) Order_CANCELLED (sub user) s
               in (getOrderForUser s' (sub user) i True, s'))"
proof (cases "own_order s user i")
  case None
  then show ?thesis
    using assms own_order_iff [of s user i]
    by (auto simp: cancelOrder_def order_wf_def split: option.splits)
next
  case (Some po)
  have row: "row_by po_id i (product_orders s) = Some po" "po_user_id po = sub user"
    using assms Some own_order_iff by (auto simp: order_wf_def)
  then have "has_key u_id (sub user) (users s)"
    using assms row_by_Some [OF row(1)] by (auto simp: order_wf_def orders_inv_def)
  moreover have "has_key po_id i (product_orders s)" using row by (auto simp: has_key_row_by)
  ultimately show ?thesis
    using order_moved_step [of i s "sub user" "cancel_set (clock s)" Order_CANCELLED]
    by (simp add: cancelOrder_def Some row bind_h_def Let_def cancel_set_def [abs_def])
qed

lemma adminUpdateOrderStatus_eq:
  assumes "has_key u_id (sub admin) (users s)"
  shows "adminUpdateOrderStatus admin i st s =
     (if \<not> has_key po_id i (product_orders s) then (Inl (NotFound ''Order not found''), s)
      else let s' = order_moved i (status_set st (clock s)) st (sub admin) s
           in (getOrderForUser s' 0 i True, s'))"
  using order_moved_step [of i s "sub admin" "status_set st (clock s)" st] assms
  by (simp add: adminUpdateOrderStatus_def bind_h_def Let_def status_set_def [abs_def])

lemma adminUpdateOrderStatus_wf:
  assumes "order_wf s"
  shows "order_wf (snd (adminUpdateOrderStatus admin i st s))"
proof (cases "has_key u_id (sub admin) (users s)")
  case True
  then show ?thesis
    using assms order_moved_wf [OF assms _ True] adminUpdateOrderStatus_eq [OF True]
    by (simp add: Let_def)
next
  case False
  let ?s1 = "sql_update_order i (\<lambda>r. r\<lparr>po_status := st, po_updated_at := clock s\<rparr>) s"
  have "order_wf ?s1" by (rule sql_update_order_wf [OF assms]) simp_all
  then have "order_wf (?s1\<lparr>seqs := (seqs ?s1)(T_order_history := seqs ?s1 T_order_history + 1)\<rparr>)"
    by (rule order_wf_seqs_only [OF _ refl]) simp
  then show ?thesis
    using assms False
    by (simp add: adminUpdateOrderStatus_def bind_h_def Let_def insert_order_history_def bump_def)
qed

lemma order_wf_cancel:
  assumes "order_wf s"
  shows "order_wf (snd (cancelOrder user i s))"
proof -
  have "has_key u_id (po_user_id po) (users s)" "has_key po_id i (product_orders s)"
    if "row_by po_id i (product_orders s) = Some po" for po
    using assms that row_by_Some [OF that] by (auto simp: order_wf_def orders_inv_def has_key_row_by)
  then show ?thesis
    using order_moved_wf [OF assms] assms
    by (auto simp: cancelOrder_eq [OF assms] Let_def split: option.split)
qed

lemma order_wf_create: "order_wf s \<Longrightarrow> order_wf (snd (createOrder user dto s))"
proof -
  assume wf: "order_wf s"
  obtain x s' where run: "createOrder user dto s = (x, s')" by fastforce
  from wf run show ?thesis
  proof (cases rule: createOrder_cases)
    case placed
    then show ?thesis using run order_placed_inv [OF wf] by simp
  next
    case failed
    have "seqs s t \<le> seqs s' t" for t using createOrder_seqs_mono [of s t user dto] run by simp
    then show ?thesis using order_wf_seqs_only [OF wf failed(2)] run by simp
  qed
qed

interpretation order_desk:
  ticket_desk order_wf order_status order_owner order_log createOrder cancelOrder adminUpdateOrderStatus
    Order_RECEIVED Order_CANCELLED "\<lambda>_ _. True"
proof unfold_locales
  fix s :: db and user :: auth_user and c and v and s' and e and i and st and w
  show "\<exists>i. order_status s i = None \<and>
          order_status s' = (order_status s)(i := Some Order_RECEIVED) \<and>
          order_owner s' = (order_owner s)(i := Some (sub user)) \<and>
          order_log s' = (order_log s)(i := order_log s i @ [Order_RECEIVED])"
    if "order_wf s" "createOrder user c s = (Inr v, s')"
    using that order_placed_desk [OF that(1)]
    by (cases rule: createOrder_cases) (auto intro!: exI [of _ "seqs s T_product_orders"])
  show "order_wf (snd (createOrder user c s))" if "order_wf s" using that by (rule order_wf_create)
  show "order_status s' = order_status s \<and> order_owner s' = order_owner s \<and> order_log s' = order_log s"
    if "order_wf s" "createOrder user c s = (Inl e, s')"
    using that
  proof (cases rule: createOrder_cases)
    case failed
    then obtain q where "s' = s\<lparr>seqs := q\<rparr>" by blast
    then show ?thesis by simp
  qed simp
  show "order_wf (snd (cancelOrder user i s))" if "order_wf s" using that by (rule order_wf_cancel)
  show "order_wf (snd (adminUpdateOrderStatus user i st s))" if "order_wf s"
    using that by (rule adminUpdateOrderStatus_wf)
  show "order_status s i = Some Order_RECEIVED \<and> order_owner s i = Some (sub user) \<and>
      order_status s' = (order_status s)(i := Some Order_CANCELLED) \<and> order_owner s' = order_owner s \<and>
      order_log s' = (order_log s)(i := order_log s i @ [Order_CANCELLED])"
    if wf: "order_wf s" and run: "cancelOrder user i s = (Inr w, s')"
  proof -
    obtain po where po: "row_by po_id i (product_orders s) = Some po" "po_user_id po = sub user"
        "po_status po = Order_RECEIVED" "s' = order_moved i (cancel_set (clock s)) Order_CANCELLED (sub user) s"
      using run by (auto simp: cancelOrder_eq [OF wf] Let_def split: option.splits if_splits)
    then have "has_key u_id (sub user) (users s)" "has_key po_id i (product_orders s)"
      using wf row_by_Some [OF po(1)] by (auto simp: order_wf_def orders_inv_def has_key_row_by)
    from order_moved_desk [OF this(2,1)] po show ?thesis
      by (simp add: order_status_def order_owner_def)
  qed
  show "s' = s" if wf: "order_wf s" and run: "cancelOrder user i s = (Inl e, s')"
  proof (rule ccontr)
    assume "s' \<noteq> s"
    then obtain po where po: "row_by po_id i (product_orders s) = Some po" "po_user_id po = sub user"
        "s' = order_moved i (cancel_set (clock s)) Order_CANCELLED (sub user) s"
        "getOrderForUser s' (sub user) i True = Inl e"
      using run by (auto simp: cancelOrder_eq [OF wf] Let_def split: option.splits if_splits)
    then have "has_key u_id (sub user) (users s)" "has_key po_id i (product_orders s)"
      using wf row_by_Some [OF po(1)] by (auto simp: order_wf_def orders_inv_def has_key_row_by)
    then have "has_key po_id i (product_orders s')"
      by (simp add: po(3) order_moved_sel has_key_iff update_where_image)
    then show False using getOrderForUser_admin [of i s' "sub user"] po(4) by simp
  qed
  show "(\<exists>cur. order_status s i = Some cur \<and> True) \<and>
      order_status s' = (order_status s)(i := Some st) \<and> order_owner s' = order_owner s \<and>
      order_log s' = (order_log s)(i := order_log s i @ [st])"
    if "order_wf s" and u: "has_key u_id (sub user) (users s)"
      and run: "adminUpdateOrderStatus user i st s = (Inr w, s')"
  proof -
    have h: "has_key po_id i (product_orders s)" and s': "s' = order_moved i (status_set st (clock s)) st (sub user) s"
      using run by (auto simp: adminUpdateOrderStatus_eq [OF u] Let_def split: if_splits)
    from order_moved_desk [OF h u] show ?thesis
      using h by (simp add: s' order_status_def has_key_row_by)
  qed
  show "s' = s" if "order_wf s" and u: "has_key u_id (sub user) (users s)"
    and run: "adminUpdateOrderStatus user i st s = (Inl e, s')"
  proof (rule ccontr)
    assume "s' \<noteq> s"
    then have h: "has_key po_id i (product_orders s)"
      and s': "s' = order_moved i (status_set st (clock s)) st (sub user) s"
      and g: "getOrderForUser s' 0 i True = Inl e"
      using run by (auto simp: adminUpdateOrderStatus_eq [OF u] Let_def split: if_splits)
    have "has_key po_id i (product_orders s')"
      using h u by (simp add: s' order_moved_sel has_key_iff update_where_image)
    then show False using getOrderForUser_admin [of i s' 0] g by simp
  qed
qed simp


section \<open>Orders: when they succeed and what they do\<close>

lemma createOrder_ok_iff:
  assumes "catalog_inv s"
  shows "is_ok (fst (createOrder user dto s)) \<longleftrightarrow> no_items dto \<noteq> [] \<and> orderable s user (no_items dto)"
proof -
  have "is_ok (fst (with_transaction h s)) = is_ok (fst (h s))" for h :: "(db, 'x) handler"
    by (auto simp: with_transaction_def split: prod.splits sum.splits)
  then show ?thesis using record_ok_iff [OF assms] by (auto simp: createOrder_def)
qed

lemma orderable_iff:
  "orderable s user items \<longleftrightarrow> has_key u_id (sub user) (users s) \<and>
      (\<forall>i \<in> set items. 0 < snd i \<and>
        (\<exists>r. live_product s (fst i) = Some r \<and> cp_is_active r \<and> demand (fst i) items \<le> cp_amount r))"
  by (auto simp: orderable_def can_place_def on_sale_def split: option.splits)

text \<open>C5: \<open>POST /orders\<close> succeeds exactly when there is at least one line, the user's row exists, every
  quantity is positive, and every product of the order is on sale (not deleted, active) with a stock
  that covers the sum of all its lines; a failed order leaves every table as it was.\<close>

theorem createOrder_succeeds_iff:
  assumes "catalog_inv s" and "createOrder user dto s = (x, s')"
  shows "(is_ok x \<longleftrightarrow>
      no_items dto \<noteq> [] \<and> has_key u_id (sub user) (users s) \<and>
      (\<forall>i \<in> set (no_items dto). 0 < snd i \<and>
        (\<exists>r. live_product s (fst i) = Some r \<and> cp_is_active r \<and>
             demand (fst i) (no_items dto) \<le> cp_amount r))) \<and>
     (is_ok x \<or> s'\<lparr>seqs := seqs s\<rparr> = s)"
proof
  show "is_ok x \<longleftrightarrow>
      no_items dto \<noteq> [] \<and> has_key u_id (sub user) (users s) \<and>
      (\<forall>i \<in> set (no_items dto). 0 < snd i \<and>
        (\<exists>r. live_product s (fst i) = Some r \<and> cp_is_active r \<and>
             demand (fst i) (no_items dto) \<le> cp_amount r))"
    using createOrder_ok_iff [OF assms(1), of user dto] orderable_iff [of s user "no_items dto"] assms(2)
    by simp
  show "is_ok x \<or> s'\<lparr>seqs := seqs s\<rparr> = s"
    using assms(2)
    by (auto simp: createOrder_def is_ok_def split: if_splits sum.splits dest: with_transaction_atomic)
qed

definition item_line :: "order_item_view \<Rightarrow> line" where
  "item_line iv = (iv_product_id iv, iv_quantity iv)"

text \<open>The lines of a new order, read back in the order they were given.\<close>

lemma order_placed_view:
  assumes wf: "order_wf s" and ok: "orderable s user items"
  shows "map item_line (items_of (order_placed user addr items s) (seqs s T_product_orders)) = items"
    and "map iv_unit_price (items_of (order_placed user addr items s) (seqs s T_product_orders)) =
      map (\<lambda>i. price_of s (fst i)) items"
proof -
  let ?s' = "order_placed user addr items s" and ?oid = "seqs s T_product_orders"
  have inv: "orders_inv s" using wf by (simp add: order_wf_def)
  obtain new where new: "order_items ?s' = order_items s @ new"
      "map (\<lambda>oi. (oi_product_id oi, oi_quantity oi)) new = items"
      "map oi_unit_price new = map (\<lambda>i. price_of s (fst i)) items"
      "map oi_id new = map (\<lambda>k. seqs s T_order_items + int k) [0..<length items]"
      "\<forall>oi \<in> set new. oi_order_id oi = ?oid"
    using order_placed_items [OF inv ok] by blast
  have "\<forall>oi \<in> set (order_items s). oi_order_id oi \<noteq> ?oid"
    using inv pk_fresh [of po_id ?oid "product_orders s"] unfolding orders_inv_def has_key_iff by metis
  then have "filter (\<lambda>oi. oi_order_id oi = ?oid) (order_items ?s') = new"
    using new(1,5) by (auto simp: filter_empty_conv filter_id_conv)
  moreover have "sorted (map oi_id new)"
    unfolding new(4) by (simp add: sorted_map sorted_wrt_iff_nth_less)
  then have "sort_key oi_id new = new" by (rule sort_key_id_if_sorted)
  ultimately have "items_of ?s' ?oid = map (item_view ?s') new" by (simp add: items_of_def)
  moreover have "item_line (item_view t oi) = (oi_product_id oi, oi_quantity oi)"
      "iv_unit_price (item_view t oi) = oi_unit_price oi" for t oi
    by (simp_all add: item_line_def item_view_def Let_def)
  ultimately show "map item_line (items_of ?s' ?oid) = items"
    and "map iv_unit_price (items_of ?s' ?oid) = map (\<lambda>i. price_of s (fst i)) items"
    using new(2,3) by (simp_all add: comp_def)
qed

text \<open>C8: a successful \<open>POST /orders\<close> answers with the given lines in the given order at the catalog's
  current unit prices. It stores one new order, of the caller, with the given address and status \<open>received\<close>,
  its lines under the new order at those prices, and one entry of its history; it takes exactly the ordered
  pieces of each product from the stock, and every order, line and history there was before stays as it was.\<close>

theorem createOrder_effect:
  assumes "order_wf s" and "createOrder user dto s = (Inr v, s')"
  shows "map item_line (ov_items v) = no_items dto \<and>
     map iv_unit_price (ov_items v) = map (\<lambda>i. price_of s (fst i)) (no_items dto) \<and>
     ov_user_id v = sub user \<and> ov_status v = Order_RECEIVED \<and>
     ov_delivery_address v = no_deliveryAddress dto \<and>
     order_status s (ov_id v) = None \<and> order_status s' = (order_status s)(ov_id v := Some Order_RECEIVED) \<and>
     product_orders s' = product_orders s @
       [\<lparr>po_id = ov_id v, po_user_id = sub user, po_delivery_address = no_deliveryAddress dto,
         po_status = Order_RECEIVED, po_cancelled_at = None, po_created_at = clock s, po_updated_at = clock s\<rparr>] \<and>
     (\<exists>new. order_items s' = order_items s @ new \<and> map oi_order_id new = map (\<lambda>_. ov_id v) new \<and>
        map (\<lambda>oi. (oi_product_id oi, oi_quantity oi)) new = no_items dto \<and>
        map oi_unit_price new = map (\<lambda>i. price_of s (fst i)) (no_items dto)) \<and>
     order_log s' = (order_log s)(ov_id v := order_log s (ov_id v) @ [Order_RECEIVED]) \<and>
     (\<forall>p. stock s' p = stock s p - demand p (no_items dto))"
proof -
  let ?oid = "seqs s T_product_orders"
  have cat: "catalog_inv s" and inv: "orders_inv s" using assms(1) by (auto simp: order_wf_def)
  from assms(1,2) have ok: "orderable s user (no_items dto)"
    and s': "s' = order_placed user (no_deliveryAddress dto) (no_items dto) s"
    by (auto elim: createOrder_cases)
  have "createOrderRecord user (no_deliveryAddress dto) (no_items dto) s = (Inr v, s')"
    using assms(2) by (auto simp: createOrder_def split: if_splits dest: with_transaction_InrE)
  then have v: "v = order_view_of \<lparr>ow_id = ?oid, ow_user_id = sub user,
         ow_delivery_address = no_deliveryAddress dto, ow_status = Order_RECEIVED,
         ow_created_at = clock s, ow_updated_at = clock s, ow_user_name = None, ow_user_email = None,
         ow_user_phone = None\<rparr> False (items_of s' ?oid)"
    using record_ok_eq(1) [OF cat ok, of "no_deliveryAddress dto"] by (simp add: Let_def s')
  have u: "has_key u_id (sub user) (users s)" using ok by (simp add: orderable_def)
  obtain new where new: "order_items s' = order_items s @ new"
      "map (\<lambda>oi. (oi_product_id oi, oi_quantity oi)) new = no_items dto"
      "map oi_unit_price new = map (\<lambda>i. price_of s (fst i)) (no_items dto)" "\<forall>oi \<in> set new. oi_order_id oi = ?oid"
    using order_placed_items [OF inv ok, of "no_deliveryAddress dto"] by (auto simp: s')
  then have "\<exists>new. order_items s' = order_items s @ new \<and> map oi_order_id new = map (\<lambda>_. ?oid) new \<and>
        map (\<lambda>oi. (oi_product_id oi, oi_quantity oi)) new = no_items dto \<and>
        map oi_unit_price new = map (\<lambda>i. price_of s (fst i)) (no_items dto)" by (intro exI [of _ new]) simp
  then show ?thesis
    using order_placed_view [OF assms(1) ok, of "no_deliveryAddress dto"]
      order_placed_desk(1) [OF assms(1) ok] order_placed_desk(2,4) [OF assms(1) ok, of "no_deliveryAddress dto"]
      order_placed_stock(1) [OF ok, of "no_deliveryAddress dto"]
      order_placed_sel(1) [OF u, of "no_deliveryAddress dto" "no_items dto"]
    by (simp add: order_view_of_def v s')
qed

section \<open>Checkout\<close>

lemma checkout_cases:
  assumes wf: "order_wf s" and run: "checkoutCart user addr s = (x, s')"
  obtains (placed) v where "x = Inr v" "cart_lines s (sub user) \<noteq> []"
      "orderable s user (cart_lines s (sub user))"
      "createOrderRecord user addr (cart_lines s (sub user)) s =
         (Inr v, order_placed user addr (cart_lines s (sub user)) s)"
      "s' = clear_cart (sub user) (order_placed user addr (cart_lines s (sub user)) s)"
    | (failed) e q where "x = Inl e" "s' = s\<lparr>seqs := q\<rparr>" "\<And>t. seqs s t \<le> q t"
proof (cases x)
  case (Inr v)
  have cat: "catalog_inv s" using wf by (simp add: order_wf_def)
  from run Inr obtain s1 where "cart_lines s (sub user) \<noteq> []"
      and rec: "createOrderRecord user addr (cart_lines s (sub user)) s = (Inr v, s1)"
      and "s' = clear_cart (sub user) s1"
    unfolding checkoutCart_def
    by (auto simp: Let_def bind_h_def split: if_splits prod.splits sum.splits dest!: with_transaction_InrE)
  with Inr placed record_InrD [OF cat rec] show thesis by simp
next
  case (Inl e)
  have "s' = s\<lparr>seqs := seqs s'\<rparr>"
    using run Inl by (auto simp: checkoutCart_def elim!: with_transaction_InlE)
  moreover have "seqs s t \<le> seqs s' t" for t
    using run Inl createOrderRecord_seqs_mono [of s t user addr "cart_lines s (sub user)"]
    by (auto simp: checkoutCart_def with_transaction_def bind_h_def Let_def
        split: if_splits prod.splits sum.splits)
  ultimately show thesis using Inl failed by blast
qed

lemma clear_cart_sel [simp]:
  "product_orders (clear_cart u s) = product_orders s" "order_items (clear_cart u s) = order_items s"
  "order_history (clear_cart u s) = order_history s" "catalog_products (clear_cart u s) = catalog_products s"
  "users (clear_cart u s) = users s" "seqs (clear_cart u s) = seqs s" "clock (clear_cart u s) = clock s"
  "cart_items (clear_cart u s) = delete_where (\<lambda>ci. ci_user_id ci = u) (cart_items s)"
  by (simp_all add: clear_cart_def)

text \<open>C9: a successful checkout turns the caller's cart, line by line in the order the lines were added,
  into one order at the current prices, takes the ordered pieces from the stock, empties that cart and no
  other; a failed one leaves every table (the cart included) as it was.\<close>

theorem checkoutCart_effect:
  assumes "order_wf s" and "checkoutCart user addr s = (x, s')"
  shows "case x of
      Inl e \<Rightarrow> s'\<lparr>seqs := seqs s\<rparr> = s
    | Inr v \<Rightarrow>
        cart_lines s (sub user) \<noteq> [] \<and> map item_line (ov_items v) = cart_lines s (sub user) \<and>
        map iv_unit_price (ov_items v) = map (\<lambda>i. price_of s (fst i)) (cart_lines s (sub user)) \<and>
        ov_user_id v = sub user \<and> ov_delivery_address v = addr \<and>
        order_status s' = (order_status s)(ov_id v := Some Order_RECEIVED) \<and>
        (\<forall>p. stock s' p = stock s p - demand p (cart_lines s (sub user))) \<and>
        cart_lines s' (sub user) = [] \<and>
        (\<forall>u. u \<noteq> sub user \<longrightarrow> cart_lines s' u = cart_lines s u)"
  using assms
proof (cases rule: checkout_cases)
  case (placed v)
  let ?c = "cart_lines s (sub user)" and ?oid = "seqs s T_product_orders"
  have cat: "catalog_inv s" using assms(1) by (simp add: order_wf_def)
  have u: "has_key u_id (sub user) (users s)" using placed(3) by (simp add: orderable_def)
  let ?s1 = "order_placed user addr ?c s"
  have v: "v = order_view_of \<lparr>ow_id = ?oid, ow_user_id = sub user,
         ow_delivery_address = addr, ow_status = Order_RECEIVED,
         ow_created_at = clock s, ow_updated_at = clock s, ow_user_name = None, ow_user_email = None,
         ow_user_phone = None\<rparr> False (items_of ?s1 ?oid)"
    using record_ok_eq(1) [OF cat placed(3), of addr] placed(4) by (simp add: Let_def)
  have cart: "cart_items ?s1 = cart_items s"
    by (rule order_rest_cong [OF order_placed_sel(3) [OF u]])
  have ci: "cart_items s' = delete_where (\<lambda>ci. ci_user_id ci = sub user) (cart_items s)"
    by (simp add: placed(5) cart)
  have "cart_lines s' (sub user) = []"
    by (simp add: cart_lines_def ci delete_where_def)
  moreover have "cart_lines s' w = cart_lines s w" if "w \<noteq> sub user" for w
  proof -
    have "filter (\<lambda>ci. ci_user_id ci = w) (delete_where (\<lambda>ci. ci_user_id ci = sub user) t) =
        filter (\<lambda>ci. ci_user_id ci = w) t" for t :: "cart_item list"
      using that by (induction t) (auto simp: delete_where_def)
    then show ?thesis by (simp only: cart_lines_def ci)
  qed
  moreover have "order_status s' = order_status ?s1" "stock s' = stock ?s1"
    by (simp_all add: placed(5) order_status_def stock_def fun_eq_iff)
  ultimately show ?thesis
    using v placed(1,2) order_placed_view [OF assms(1) placed(3), of addr]
      order_placed_desk(2) [OF assms(1) placed(3), of addr] order_placed_stock(1) [OF placed(3), of addr]
    by (simp add: order_view_of_def)
next
  case (failed e q)
  then show ?thesis by simp
qed


section \<open>The cart\<close>

definition cart_inv :: "db \<Rightarrow> bool" where
  "cart_inv s \<longleftrightarrow> pk ci_id (seqs s T_cart_items) (cart_items s) \<and>
     distinct (map (\<lambda>ci. (ci_user_id ci, ci_product_id ci)) (cart_items s)) \<and>
     (\<forall>ci \<in> set (cart_items s). 0 < ci_quantity ci \<and> int4 (ci_quantity ci))"

definition cart_qty :: "db \<Rightarrow> int \<Rightarrow> int \<Rightarrow> int" where
  "cart_qty s u p = sum_list (map ci_quantity
     (filter (\<lambda>ci. ci_user_id ci = u \<and> ci_product_id ci = p) (cart_items s)))"

lemma cart_pair_find:
  assumes "distinct (map (\<lambda>ci. (ci_user_id ci, ci_product_id ci)) t)"
  shows "filter (\<lambda>ci. ci_user_id ci = u \<and> ci_product_id ci = p) t =
    (case find (\<lambda>ci. ci_user_id ci = u \<and> ci_product_id ci = p) t of None \<Rightarrow> [] | Some ci \<Rightarrow> [ci])"
  using assms
proof (induction t)
  case Nil
  then show ?case by simp
next
  case (Cons a t)
  show ?case
  proof (cases "ci_user_id a = u \<and> ci_product_id a = p")
    case True
    then have "filter (\<lambda>ci. ci_user_id ci = u \<and> ci_product_id ci = p) t = []"
      using Cons.prems by (auto simp: filter_empty_conv image_iff)
    then show ?thesis using True by simp
  next
    case False
    then show ?thesis using Cons by auto
  qed
qed

lemma upsert_inv:
  assumes "cart_inv s"
  shows "cart_inv (snd (upsert_cart_item u p q s))"
proof (cases "find (\<lambda>ci. ci_user_id ci = u \<and> ci_product_id ci = p) (cart_items s)")
  case None
  then have "(u, p) \<notin> (\<lambda>ci. (ci_user_id ci, ci_product_id ci)) ` set (cart_items s)"
    by (auto simp: find_None_iff)
  then show ?thesis
    using assms None pk_insert [of ci_id "seqs s T_cart_items" "cart_items s"]
    by (auto simp: upsert_cart_item_def cart_inv_def Let_def pk_step)
next
  case (Some old)
  have pairs: "filter (\<lambda>ci. ci_user_id ci = u \<and> ci_product_id ci = p) (cart_items s) = [old]"
    using cart_pair_find [of "cart_items s" u p] assms Some by (simp add: cart_inv_def)
  have only: "ci = old" if "ci \<in> set (cart_items s)" "ci_user_id ci = u" "ci_product_id ci = p" for ci
    using that arg_cong [OF pairs, of set] by auto
  let ?p = "\<lambda>ci. ci_user_id ci = u \<and> ci_product_id ci = p"
  let ?f = "\<lambda>ci. ci\<lparr>ci_quantity := ci_quantity ci + q, ci_updated_at := clock s\<rparr>"
  have "pk ci_id (seqs s T_cart_items) (update_where ?p ?f (cart_items s))"
    by (rule pk_update) (use assms in \<open>simp_all add: cart_inv_def\<close>)
  moreover have "map (\<lambda>ci. (ci_user_id ci, ci_product_id ci)) (update_where ?p ?f (cart_items s)) =
      map (\<lambda>ci. (ci_user_id ci, ci_product_id ci)) (cart_items s)"
    by (rule update_where_ids) simp
  moreover have "\<forall>ci \<in> set (update_where ?p ?f (cart_items s)). 0 < ci_quantity ci \<and> int4 (ci_quantity ci)"
    if "0 < q" "int4 (ci_quantity old + q)"
    using that assms only by (auto simp: set_update_where cart_inv_def add_pos_pos)
  ultimately show ?thesis
    using assms Some by (auto simp: upsert_cart_item_def cart_inv_def Let_def pk_step)
qed

lemma sum_update_where:
  fixes g :: "'r \<Rightarrow> int"
  assumes "\<And>x. q (f x) = q x"
  shows "sum_list (map g (filter q (update_where p f t))) =
    sum_list (map g (filter q t)) + sum_list (map (\<lambda>x. g (f x) - g x) (filter (\<lambda>x. p x \<and> q x) t))"
  by (induction t) (simp_all add: update_where_def assms)

lemma upsert_qty:
  assumes "cart_inv s" "upsert_cart_item u p q s = (Inr (), s')"
  shows "cart_qty s' w r = cart_qty s w r + (if w = u \<and> r = p then q else 0)"
proof (cases "find (\<lambda>ci. ci_user_id ci = u \<and> ci_product_id ci = p) (cart_items s)")
  case None
  then show ?thesis
    using assms(2) by (auto simp: upsert_cart_item_def Let_def cart_qty_def split: if_splits)
next
  case (Some old)
  have pairs: "filter (\<lambda>ci. ci_user_id ci = u \<and> ci_product_id ci = p) (cart_items s) = [old]"
    using cart_pair_find [of "cart_items s" u p] assms(1) Some by (simp add: cart_inv_def)
  let ?p = "\<lambda>ci. ci_user_id ci = u \<and> ci_product_id ci = p"
  let ?f = "\<lambda>ci. ci\<lparr>ci_quantity := ci_quantity ci + q, ci_updated_at := clock s\<rparr>"
  have s': "cart_items s' = update_where ?p ?f (cart_items s)"
    using assms(2)
    by (simp add: upsert_cart_item_def Let_def Some split: if_split_asm) (drule sym, simp)
  have "cart_qty s' w r = cart_qty s w r + sum_list (map (\<lambda>ci. ci_quantity (?f ci) - ci_quantity ci)
      (filter (\<lambda>ci. ?p ci \<and> ci_user_id ci = w \<and> ci_product_id ci = r) (cart_items s)))"
    unfolding cart_qty_def s' by (rule sum_update_where) simp
  also have "filter (\<lambda>ci. ?p ci \<and> ci_user_id ci = w \<and> ci_product_id ci = r) (cart_items s) =
      (if w = u \<and> r = p then [old] else [])"
    unfolding pairs [symmetric] by (auto intro: filter_cong simp: filter_empty_conv)
  finally show ?thesis by simp
qed

text \<open>Adding to the cart is accepted only for a product on sale with at least that many pieces in
  stock; then exactly that many pieces of that product are added to the caller's cart (to the line it may
  have already, so there is never a second one) and every other line keeps its quantity.\<close>

theorem addCartItem_effect:
  assumes "cart_inv s" and "addCartItem user p q s = (x, s')"
  shows "cart_inv s' \<and>
     (case x of
        Inl e \<Rightarrow> s'\<lparr>seqs := seqs s\<rparr> = s
      | Inr lines \<Rightarrow> on_sale s p q \<and> lines = listCart s' user \<and>
          (\<forall>u r. cart_qty s' u r = cart_qty s u r + (if u = sub user \<and> r = p then q else 0)))"
proof (cases "upsert_cart_item (sub user) p q s")
  case (Pair y t)
  have inv: "cart_inv t" using upsert_inv [OF assms(1), of "sub user" p q] Pair by simp
  show ?thesis
  proof (cases y)
    case (Inl e)
    then have "t\<lparr>seqs := seqs s\<rparr> = s"
      using Pair by (auto simp: upsert_cart_item_def bump_def Let_def split: if_splits option.splits)
    then show ?thesis
      using assms Pair Inl inv by (auto simp: addCartItem_def bind_h_def split: sum.splits)
  next
    case (Inr z)
    then show ?thesis
      using assms Pair inv upsert_qty [OF assms(1), of "sub user" p q t]
      by (auto simp: addCartItem_def bind_h_def assertCartProductState_def on_sale_def
          split: sum.splits option.splits if_splits)
  qed
qed

lemma updateCartItem_inv:
  assumes "cart_inv s"
  shows "cart_inv (snd (updateCartItem user i q s))"
proof -
  have "cart_inv (snd (update_cart_quantity i q s))"
  proof -
    let ?f = "\<lambda>ci. ci\<lparr>ci_quantity := q, ci_updated_at := clock s\<rparr>"
    have "pk ci_id (seqs s T_cart_items) (update_where (\<lambda>ci. ci_id ci = i) ?f (cart_items s))"
      by (rule pk_update) (use assms in \<open>simp_all add: cart_inv_def\<close>)
    moreover have "map (\<lambda>ci. (ci_user_id ci, ci_product_id ci)) (update_where (\<lambda>ci. ci_id ci = i) ?f (cart_items s)) =
        map (\<lambda>ci. (ci_user_id ci, ci_product_id ci)) (cart_items s)"
      by (rule update_where_ids) simp
    ultimately show ?thesis
      using assms by (auto simp: update_cart_quantity_def cart_inv_def set_update_where has_key_iff)
  qed
  then show ?thesis
    using assms by (auto simp: updateCartItem_def bind_h_def split: option.splits sum.splits prod.splits)
qed

lemma cart_inv_delete:
  assumes "cart_inv s"
  shows "cart_inv (s\<lparr>cart_items := delete_where p (cart_items s)\<rparr>)"
  using assms pk_delete [of ci_id "seqs s T_cart_items" "cart_items s" p]
  by (auto simp: cart_inv_def delete_where_def distinct_map intro: inj_on_subset)


section \<open>The shop as a transition system\<close>

datatype shop_op =
    Op_createOrder auth_user create_order_dto
  | Op_addCartItem auth_user int int
  | Op_updateCartItem auth_user int int
  | Op_deleteCartItem auth_user int
  | Op_checkoutCart auth_user string
  | Op_updateOrderAddress auth_user int string
  | Op_cancelOrder auth_user int
  | Op_adminUpdateOrderStatus auth_user int order_status
  | Op_adminCreateProduct auth_user admin_create_product
  | Op_adminUpdateProduct auth_user int admin_update_product
  | Op_adminDeleteProduct auth_user int

fun run_shop :: "shop_op \<Rightarrow> db \<Rightarrow> db" where
  "run_shop (Op_createOrder u dto) s = snd (createOrder u dto s)"
| "run_shop (Op_addCartItem u p q) s = snd (addCartItem u p q s)"
| "run_shop (Op_updateCartItem u i q) s = snd (updateCartItem u i q s)"
| "run_shop (Op_deleteCartItem u i) s = snd (deleteCartItem u i s)"
| "run_shop (Op_checkoutCart u addr) s = snd (checkoutCart u addr s)"
| "run_shop (Op_updateOrderAddress u i addr) s = snd (updateOrderAddress u i addr s)"
| "run_shop (Op_cancelOrder u i) s = snd (cancelOrder u i s)"
| "run_shop (Op_adminUpdateOrderStatus u i st) s = snd (adminUpdateOrderStatus u i st s)"
| "run_shop (Op_adminCreateProduct u dto) s = snd (adminCreateProduct u dto s)"
| "run_shop (Op_adminUpdateProduct u i dto) s = snd (adminUpdateProduct u i dto s)"
| "run_shop (Op_adminDeleteProduct u i) s = snd (adminDeleteProduct u i s)"

fun op_actor :: "shop_op \<Rightarrow> auth_user" where
  "op_actor (Op_createOrder u dto) = u"
| "op_actor (Op_addCartItem u p q) = u"
| "op_actor (Op_updateCartItem u i q) = u"
| "op_actor (Op_deleteCartItem u i) = u"
| "op_actor (Op_checkoutCart u addr) = u"
| "op_actor (Op_updateOrderAddress u i addr) = u"
| "op_actor (Op_cancelOrder u i) = u"
| "op_actor (Op_adminUpdateOrderStatus u i st) = u"
| "op_actor (Op_adminCreateProduct u dto) = u"
| "op_actor (Op_adminUpdateProduct u i dto) = u"
| "op_actor (Op_adminDeleteProduct u i) = u"

text \<open>The tables of the shop, and what the rest of the service may do meanwhile: write any other table.\<close>

definition shop_tables ::
  "db \<Rightarrow> catalog_product list \<times> product_order list \<times> order_item list \<times> order_status history list \<times> cart_item list" where
  "shop_tables s = (catalog_products s, product_orders s, order_items s, order_history s, cart_items s)"

text \<open>
  Every operation runs on behalf of a user the JWT strategy has found in \<open>users\<close>.
\<close>

inductive shop_step :: "db \<Rightarrow> db \<Rightarrow> bool" where
  operation: "has_key u_id (sub (op_actor act)) (users s) \<Longrightarrow> shop_step s (run_shop act s)"
| elsewhere: "shop_tables s' = shop_tables s \<Longrightarrow> (\<And>t. seqs s t \<le> seqs s' t) \<Longrightarrow>
    (\<And>i. has_key u_id i (users s) \<Longrightarrow> has_key u_id i (users s')) \<Longrightarrow> shop_step s s'"

definition shop_inv :: "db \<Rightarrow> bool" where
  "shop_inv s \<longleftrightarrow> order_wf s \<and> order_desk.audited s \<and> cart_inv s"

text \<open>Operations that leave the order tables alone keep the order invariants.\<close>

lemma order_wf_frame:
  assumes "order_wf s" "catalog_inv s'" "product_orders s' = product_orders s"
    "order_items s' = order_items s" "order_history s' = order_history s"
    "\<And>t. seqs s t \<le> seqs s' t" "\<And>i. has_key u_id i (users s) \<Longrightarrow> has_key u_id i (users s')"
  shows "order_wf s'"
  using assms(1) assms(7)
  by (auto simp: order_wf_def orders_inv_def assms(2-5) intro: pk_mono [OF _ assms(6)])

lemma audited_frame:
  assumes "order_desk.audited s" "order_wf s'" "product_orders s' = product_orders s"
    "order_history s' = order_history s"
  shows "order_desk.audited s'"
  using assms by (simp add: order_desk.audited_def order_status_def order_log_def)

lemma cart_inv_frame:
  assumes "cart_inv s" "cart_items s' = cart_items s" "seqs s T_cart_items \<le> seqs s' T_cart_items"
  shows "cart_inv s'"
  using assms(1) by (auto simp: cart_inv_def assms(2) intro: pk_mono [OF _ assms(3)])

lemma shop_inv_frame:
  assumes "shop_inv s" "catalog_inv s'" "product_orders s' = product_orders s"
    "order_items s' = order_items s" "order_history s' = order_history s"
    "cart_items s' = cart_items s"
    "\<And>t. seqs s t \<le> seqs s' t" "\<And>i. has_key u_id i (users s) \<Longrightarrow> has_key u_id i (users s')"
  shows "shop_inv s'"
proof -
  have "order_wf s'" using assms order_wf_frame [of s s'] by (auto simp: shop_inv_def)
  then show ?thesis
    using assms audited_frame [of s s'] cart_inv_frame [of s s'] by (auto simp: shop_inv_def)
qed

text \<open>The administrator's product operations write the catalog and its attachments only.\<close>

definition product_rest :: "db \<Rightarrow> db" where
  "product_rest s = s\<lparr>catalog_products := [], product_assets := [], seqs := (\<lambda>_. 0)\<rparr>"

lemma product_rest_cong:
  assumes "product_rest s' = product_rest s"
  shows "cart_items s' = cart_items s" "users s' = users s" "product_orders s' = product_orders s"
    "order_items s' = order_items s" "order_history s' = order_history s"
  using arg_cong [OF assms, of cart_items] arg_cong [OF assms, of users]
    arg_cong [OF assms, of product_orders] arg_cong [OF assms, of order_items]
    arg_cong [OF assms, of order_history]
  by (simp_all add: product_rest_def)

definition product_op :: "db \<Rightarrow> db \<Rightarrow> bool" where
  "product_op s s' \<longleftrightarrow> product_rest s' = product_rest s \<and> (\<forall>t. seqs s t \<le> seqs s' t) \<and>
     (catalog_inv s \<longrightarrow> catalog_inv s')"

lemma product_op_refl [simp]: "product_op s s"
  by (simp add: product_op_def)

lemma product_op_trans: "product_op s t \<Longrightarrow> product_op t u \<Longrightarrow> product_op s u"
  unfolding product_op_def by (auto intro: order_trans)

lemma product_op_bind:
  assumes "\<And>s. product_op s (snd (m s))" "\<And>a s. product_op s (snd (k a s))"
  shows "product_op s (snd (bind_h m k s))"
  by (rule bind_h_preserves [where P = "product_op s"]) (auto intro: product_op_trans assms)

lemma product_op_sync: "product_op s (snd (syncProductAssets ty i fs s))"
proof -
  have rest: "product_rest (snd (insert_product_asset ty i f n t)) = product_rest t" for f n t
    by (auto simp: insert_product_asset_def product_rest_def bump_def Let_def)
  have "product_op t (snd (insert_product_asset ty i f n t))" for f n t
    using rest [of f n t]
    by (auto simp: product_op_def insert_product_asset_def Let_def intro: catalog_inv_mono)
  moreover have "product_op s (clear_product_assets ty i s)"
    by (auto simp: product_op_def clear_product_assets_def product_rest_def intro: catalog_inv_mono)
  ultimately show ?thesis
    unfolding syncProductAssets_def
    by (intro for_each_preserves [where P = "product_op s"])
       (auto intro: product_op_trans split: prod.splits)
qed

lemma product_op_transaction:
  assumes "product_op s (snd (h s))"
  shows "product_op s (snd (with_transaction h s))"
proof (cases "h s")
  case (Pair x t)
  have "catalog_inv (s\<lparr>seqs := seqs t\<rparr>)" if "catalog_inv s" "\<forall>u. seqs s u \<le> seqs t u"
    using that by (auto intro: catalog_inv_mono)
  then show ?thesis
    using assms Pair
    by (cases x) (auto simp: product_op_def with_transaction_def product_rest_def)
qed

lemma product_op_create: "product_op s (snd (adminCreateProduct u dto s))"
proof -
  have "product_op t (snd (insert_product a dto t))" for a t
  proof -
    have "product_rest (snd (insert_product a dto t)) = product_rest t"
      by (auto simp: insert_product_def product_rest_def bump_def Let_def)
    moreover have "catalog_inv (snd (insert_product a dto t))" if "catalog_inv t"
      using that pk_insert [of cp_id "seqs t T_catalog_products" "catalog_products t"]
      by (auto simp: insert_product_def Let_def catalog_inv_def pk_step)
    ultimately show ?thesis by (auto simp: product_op_def insert_product_def Let_def)
  qed
  then show ?thesis
    unfolding adminCreateProduct_def
    by (intro product_op_transaction product_op_bind product_op_sync) auto
qed

lemma product_op_update_rows:
  assumes "\<And>r. cp_id (f r) = cp_id r"
  shows "product_op s (snd (sql_update_products p f s))"
proof -
  obtain x t where run: "sql_update_products p f s = (x, t)" by fastforce
  have "product_rest t = product_rest s"
    using run by (auto simp: sql_update_products_def product_rest_def Let_def split: if_splits)
  moreover have "seqs t = seqs s" using run sql_update_products_seqs [of p f s] by simp
  moreover have "catalog_inv t" if "catalog_inv s"
    using catalog_inv_update [OF that assms run] .
  ultimately show ?thesis by (simp add: product_op_def run)
qed

lemma product_op_update: "product_op s (snd (adminUpdateProduct u i dto s))"
proof -
  have "product_op t (snd (sync_if (syncProductAssets ty i) ids t))" for ty ids t
    by (simp add: sync_if_def product_op_sync split: option.split)
  then show ?thesis
    unfolding adminUpdateProduct_def
    by (intro product_op_transaction product_op_bind)
       (auto intro!: product_op_bind product_op_update_rows simp: product_update_set_def)
qed

lemma product_op_delete: "product_op s (snd (adminDeleteProduct u i s))"
proof -
  let ?f = "\<lambda>r. r\<lparr>cp_deleted_at := Some (clock s), cp_updated_by := sub u, cp_updated_at := clock s\<rparr>"
  have "product_op s (snd (sql_update_products (\<lambda>r. cp_id r = i \<and> cp_deleted_at r = None) ?f s))"
    by (rule product_op_update_rows) simp
  then show ?thesis by (auto simp: adminDeleteProduct_def split: prod.splits sum.splits)
qed

lemma shop_inv_product_op:
  assumes "shop_inv s" "product_op s s'"
  shows "shop_inv s'"
  using assms product_rest_cong [of s' s]
  by (intro shop_inv_frame [OF assms(1)]) (auto simp: product_op_def shop_inv_def order_wf_def)


lemma order_placed_shop_inv:
  assumes inv: "shop_inv s" and run: "createOrder user dto s = (x, s')"
  shows "shop_inv s'"
proof -
  have wf: "order_wf s" using inv by (simp add: shop_inv_def)
  have "cart_items s' = cart_items s \<and> seqs s T_cart_items \<le> seqs s' T_cart_items"
    using wf run
  proof (cases rule: createOrder_cases)
    case placed
    then have "has_key u_id (sub user) (users s)" by (simp add: orderable_def)
    from order_rest_cong(1) [OF order_placed_sel(3) [OF this]] order_placed_sel(6) [OF this]
    show ?thesis by (simp add: placed)
  next
    case failed
    then obtain q where "s' = s\<lparr>seqs := q\<rparr>" by blast
    then show ?thesis using createOrder_seqs_mono [of s T_cart_items user dto] run by simp
  qed
  then show ?thesis
    using inv order_wf_create [OF wf, of user dto] run order_desk.create_audited [OF _ run]
      cart_inv_frame [of s s'] by (auto simp: shop_inv_def)
qed

lemma checkout_shop_inv:
  assumes inv: "shop_inv s" and run: "checkoutCart user addr s = (x, s')"
  shows "shop_inv s'"
proof -
  have wf: "order_wf s" using inv by (simp add: shop_inv_def)
  from wf run show ?thesis
  proof (cases rule: checkout_cases)
    case (placed v)
    let ?c = "cart_lines s (sub user)"
    let ?t = "order_placed user addr ?c s"
    have "createOrder user \<lparr>no_deliveryAddress = addr, no_items = ?c\<rparr> s = (Inr v, ?t)"
      using placed by (simp add: createOrder_def with_transaction_def)
    then have t: "shop_inv ?t" by (rule order_placed_shop_inv [OF inv])
    have "catalog_inv s'"
      using t placed(5) by (auto simp: shop_inv_def order_wf_def intro: catalog_inv_mono)
    then have "order_wf s'"
      using t placed(5) by (intro order_wf_frame [of ?t s']) (auto simp: shop_inv_def)
    moreover have "order_desk.audited s'"
      using t placed(5) calculation by (intro audited_frame [of ?t s']) (auto simp: shop_inv_def)
    moreover have "cart_inv s'"
      unfolding placed(5) clear_cart_def by (rule cart_inv_delete) (use t in \<open>simp add: shop_inv_def\<close>)
    ultimately show ?thesis by (simp add: shop_inv_def)
  next
    case (failed e q)
    have "catalog_inv s'" using wf failed by (auto simp: order_wf_def intro: catalog_inv_mono)
    then show ?thesis by (rule shop_inv_frame [OF inv]) (use failed in simp_all)
  qed
qed

definition cart_rest :: "db \<Rightarrow> db" where
  "cart_rest s = s\<lparr>cart_items := [], seqs := (\<lambda>_. 0)\<rparr>"

lemma cart_rest_cong:
  assumes "cart_rest s' = cart_rest s"
  shows "users s' = users s" "product_orders s' = product_orders s" "order_items s' = order_items s"
    "order_history s' = order_history s" "catalog_products s' = catalog_products s"
  using arg_cong [OF assms, of users] arg_cong [OF assms, of product_orders]
    arg_cong [OF assms, of order_items] arg_cong [OF assms, of order_history]
    arg_cong [OF assms, of catalog_products]
  by (simp_all add: cart_rest_def)

lemma upsert_rest:
  "cart_rest (snd (upsert_cart_item u p n s)) = cart_rest s \<and>
   seqs s t \<le> seqs (snd (upsert_cart_item u p n s)) t"
proof -
  have "cart_rest (bump T_cart_items s) = cart_rest s"
    "cart_rest ((bump T_cart_items s)\<lparr>cart_items := c\<rparr>) = cart_rest s" for c
    by (simp_all add: bump_def cart_rest_def)
  then show ?thesis by (simp add: upsert_cart_item_def Let_def split: option.split)
qed

lemma cart_op_shop_inv:
  assumes "shop_inv s" "cart_rest s' = cart_rest s" "\<And>t. seqs s t \<le> seqs s' t" "cart_inv s'"
  shows "shop_inv s'"
proof -
  note same = cart_rest_cong [OF assms(2)]
  have "catalog_inv s'"
    using assms(1,3) same by (auto simp: shop_inv_def order_wf_def intro: catalog_inv_mono)
  then have "order_wf s'"
    using assms(1,3) same by (intro order_wf_frame [of s s']) (auto simp: shop_inv_def)
  then show ?thesis
    using assms same audited_frame [of s s'] by (auto simp: shop_inv_def)
qed

lemma add_shop_inv:
  assumes "shop_inv s"
  shows "shop_inv (snd (addCartItem u p q s))"
proof (cases "assertCartProductState s p q")
  case (Inr ok)
  have "snd (addCartItem u p q s) = snd (upsert_cart_item (sub u) p q s)"
    by (simp add: addCartItem_def Inr bind_h_def split: prod.splits sum.splits)
  moreover have "shop_inv (snd (upsert_cart_item (sub u) p q s))"
    by (rule cart_op_shop_inv [OF assms])
       (use assms upsert_rest upsert_inv in \<open>auto simp: shop_inv_def\<close>)
  ultimately show ?thesis by simp
qed (simp add: addCartItem_def assms)

lemma update_rest:
  "cart_rest (snd (updateCartItem u i q s)) = cart_rest s \<and> seqs (snd (updateCartItem u i q s)) = seqs s"
proof -
  have "cart_rest (s\<lparr>cart_items := c\<rparr>) = cart_rest s" for c by (simp add: cart_rest_def)
  then show ?thesis
    by (simp add: updateCartItem_def update_cart_quantity_def bind_h_def
        split: option.split sum.split)
qed

lemma delete_shop_inv:
  assumes "shop_inv s"
  shows "shop_inv (snd (deleteCartItem u i s))"
proof -
  have "shop_inv (s\<lparr>cart_items := delete_where p (cart_items s)\<rparr>)" for p
    by (rule cart_op_shop_inv [OF assms])
       (use assms cart_inv_delete in \<open>auto simp: shop_inv_def cart_rest_def\<close>)
  then show ?thesis using assms by (simp add: deleteCartItem_def)
qed

lemma address_shop_inv:
  assumes "shop_inv s"
  shows "shop_inv (snd (updateOrderAddress u i addr s))"
proof -
  let ?f = "\<lambda>r. r\<lparr>po_delivery_address := addr, po_updated_at := clock s\<rparr>"
  let ?t = "sql_update_order i ?f s"
  have "order_wf ?t" by (rule sql_update_order_wf) (use assms in \<open>simp_all add: shop_inv_def\<close>)
  moreover have "order_status ?t = order_status s" "order_log ?t = order_log s"
    by (auto simp: order_status_def order_log_def fun_eq_iff row_by_update option.map_comp comp_def
        intro!: map_option_cong)
  moreover have "cart_inv ?t" using assms by (auto simp: shop_inv_def intro: cart_inv_frame)
  ultimately have "shop_inv ?t" using assms by (simp add: shop_inv_def order_desk.audited_def)
  then show ?thesis using assms by (simp add: updateOrderAddress_def Let_def split: option.split)
qed

lemma status_cart:
  "cart_items (snd (insert_order_history i st by s)) = cart_items s"
  "seqs (snd (insert_order_history i st by s)) T_cart_items = seqs s T_cart_items"
  by (simp_all add: insert_order_history_def Let_def)

lemma cancel_shop_inv:
  assumes "shop_inv s"
  shows "shop_inv (snd (cancelOrder u i s))"
proof -
  obtain x s' where run: "cancelOrder u i s = (x, s')" by fastforce
  have wf: "order_wf s" using assms by (simp add: shop_inv_def)
  have "cart_items (snd (cancelOrder u i s)) = cart_items s \<and>
      seqs (snd (cancelOrder u i s)) T_cart_items = seqs s T_cart_items"
    by (auto simp: cancelOrder_eq [OF wf] Let_def order_moved_def status_cart split: option.split)
  then show ?thesis
    using assms order_wf_cancel [OF wf, of u i] order_desk.cancel_audited [OF _ run] run
      cart_inv_frame [of s s'] by (auto simp: shop_inv_def)
qed

lemma advance_shop_inv:
  assumes "shop_inv s" "has_key u_id (sub u) (users s)"
  shows "shop_inv (snd (adminUpdateOrderStatus u i st s))"
proof -
  obtain x s' where run: "adminUpdateOrderStatus u i st s = (x, s')" by fastforce
  have wf: "order_wf s" using assms by (simp add: shop_inv_def)
  have "cart_items (snd (adminUpdateOrderStatus u i st s)) = cart_items s \<and>
      seqs (snd (adminUpdateOrderStatus u i st s)) T_cart_items = seqs s T_cart_items"
    by (auto simp: adminUpdateOrderStatus_eq [OF assms(2)] Let_def order_moved_def status_cart)
  then show ?thesis
    using assms adminUpdateOrderStatus_wf [OF wf, of u i st]
      order_desk.advance_audited [OF _ assms(2) run] run cart_inv_frame [of s s']
    by (auto simp: shop_inv_def)
qed

text \<open>Every operation keeps the invariant of the shop, whatever it answers.\<close>

lemma run_shop_inv:
  assumes "shop_inv s" "has_key u_id (sub (op_actor act)) (users s)"
  shows "shop_inv (run_shop act s)"
proof (cases act)
  case (Op_createOrder u dto)
  obtain x s' where "createOrder u dto s = (x, s')" by fastforce
  then show ?thesis using order_placed_shop_inv [OF assms(1)] Op_createOrder by simp
next
  case (Op_checkoutCart u addr)
  obtain x s' where "checkoutCart u addr s = (x, s')" by fastforce
  then show ?thesis using checkout_shop_inv [OF assms(1)] Op_checkoutCart by simp
next
  case (Op_updateCartItem u i q)
  have "shop_inv (snd (updateCartItem u i q s))"
    by (rule cart_op_shop_inv [OF assms(1)])
       (use assms(1) update_rest [of u i q s] updateCartItem_inv in \<open>auto simp: shop_inv_def\<close>)
  then show ?thesis using Op_updateCartItem by simp
qed (use assms add_shop_inv delete_shop_inv address_shop_inv cancel_shop_inv advance_shop_inv
    shop_inv_product_op [OF assms(1)] product_op_create product_op_update product_op_delete in simp_all)


lemma shop_step_inv: "shop_step s s' \<Longrightarrow> shop_inv s \<Longrightarrow> shop_inv s'"
proof (induction rule: shop_step.induct)
  case (operation act s)
  then show ?case by (simp add: run_shop_inv)
next
  case (elsewhere s' s)
  have "catalog_inv s'"
    using elsewhere by (auto simp: shop_tables_def shop_inv_def order_wf_def intro: catalog_inv_mono)
  then show ?case
    by (rule shop_inv_frame [OF elsewhere.prems]) (use elsewhere.hyps in \<open>auto simp: shop_tables_def\<close>)
qed

lemma shop_reachable: "rtranclp shop_step s s' \<Longrightarrow> shop_inv s \<Longrightarrow> shop_inv s'"
  by (induction rule: rtranclp_induct) (auto intro: shop_step_inv)

lemma shop_inv_empty: "shop_inv empty_db"
  by (simp add: shop_inv_def order_wf_def catalog_inv_def orders_inv_def cart_inv_def empty_db_def
      order_desk.audited_def order_status_def order_log_def)

lemma order_trail:
  assumes "shop_inv s" and "po \<in> set (product_orders s)"
  shows "trail (\<lambda>_ _. True) Order_RECEIVED (Some (po_status po)) (order_log s (po_id po))"
proof -
  have "row_by po_id (po_id po) (product_orders s) = Some po"
    using assms by (auto simp: shop_inv_def order_wf_def orders_inv_def intro: pk_row_by)
  then show ?thesis using assms(1)
    by (auto simp: shop_inv_def order_wf_def order_desk.audited_def order_status_def dest: spec [of _ "po_id po"])
qed


text \<open>The operations of customers and of order handling, that is all but the catalog's administration.\<close>

fun customer_op :: "shop_op \<Rightarrow> bool" where
  "customer_op (Op_adminCreateProduct _ _) = False"
| "customer_op (Op_adminUpdateProduct _ _ _) = False"
| "customer_op (Op_adminDeleteProduct _ _) = False"
| "customer_op _ = True"

lemma history_frame:
  "catalog_products (snd (insert_order_history i st by s)) = catalog_products s"
  "order_items (snd (insert_order_history i st by s)) = order_items s"
  by (simp_all add: insert_order_history_def Let_def)

lemma status_op_frame:
  "catalog_products (snd (cancelOrder u i s)) = catalog_products s"
  "order_items (snd (cancelOrder u i s)) = order_items s"
  "catalog_products (snd (adminUpdateOrderStatus u i st s)) = catalog_products s"
  "order_items (snd (adminUpdateOrderStatus u i st s)) = order_items s"
  "catalog_products (snd (updateOrderAddress u i addr s)) = catalog_products s"
  "order_items (snd (updateOrderAddress u i addr s)) = order_items s"
proof -
  show
    "catalog_products (snd (cancelOrder u i s)) = catalog_products s"
    "order_items (snd (cancelOrder u i s)) = order_items s"
    "catalog_products (snd (adminUpdateOrderStatus u i st s)) = catalog_products s"
    "order_items (snd (adminUpdateOrderStatus u i st s)) = order_items s"
    "catalog_products (snd (updateOrderAddress u i addr s)) = catalog_products s"
    "order_items (snd (updateOrderAddress u i addr s)) = order_items s"
    by (simp_all add: cancelOrder_def adminUpdateOrderStatus_def updateOrderAddress_def Let_def
        bind_h_read history_frame split: option.split)
qed

lemma add_rest: "cart_rest (snd (addCartItem u i q s)) = cart_rest s"
  using upsert_rest [of "sub u" i q s]
  by (auto simp: addCartItem_def bind_h_def split: prod.splits sum.splits)

lemma run_shop_conserves:
  assumes "order_wf s" "customer_op act"
  shows "stock (run_shop act s) p + sold (run_shop act s) p = stock s p + sold s p"
proof (cases act)
  case (Op_createOrder u dto)
  obtain x s' where run: "createOrder u dto s = (x, s')" by fastforce
  from assms(1) run show ?thesis
  proof (cases rule: createOrder_cases)
    case placed
    then show ?thesis using order_placed_stock [OF placed(3)] run by (simp add: Op_createOrder)
  next
    case failed
    then obtain q where "s' = s\<lparr>seqs := q\<rparr>" by blast
    then show ?thesis using run by (simp add: Op_createOrder stock_def sold_def)
  qed
next
  case (Op_checkoutCart u addr)
  obtain x s' where run: "checkoutCart u addr s = (x, s')" by fastforce
  from assms(1) run show ?thesis
  proof (cases rule: checkout_cases)
    case (placed v)
    then show ?thesis
      using order_placed_stock [OF placed(3), of addr p] run by (simp add: Op_checkoutCart stock_def sold_def)
  next
    case failed
    then show ?thesis using run by (simp add: Op_checkoutCart stock_def sold_def)
  qed
next
  case (Op_deleteCartItem u i)
  then show ?thesis by (simp add: deleteCartItem_def stock_def sold_def)
next
  case (Op_addCartItem u i q)
  then show ?thesis
    using cart_rest_cong(3,5) [OF add_rest, of u i q s] by (simp add: stock_def sold_def)
next
  case (Op_updateCartItem u i q)
  then show ?thesis
    using cart_rest_cong(3,5) [OF conjunct1 [OF update_rest], of u i q s] by (simp add: stock_def sold_def)
qed (use assms(2) in \<open>simp_all add: stock_def sold_def status_op_frame\<close>)

inductive customer_step :: "db \<Rightarrow> db \<Rightarrow> bool" where
  "customer_op act \<Longrightarrow> has_key u_id (sub (op_actor act)) (users s) \<Longrightarrow> customer_step s (run_shop act s)"

text \<open>C6: pieces are neither lost nor invented: along any run of cart, checkout, order, cancellation and
  status operations, for every product the stock plus the pieces in order lines stays the same.\<close>

theorem stock_conserved:
  assumes "shop_inv s" and "rtranclp customer_step s s'"
  shows "stock s' p + sold s' p = stock s p + sold s p"
proof -
  from assms(2) have "shop_inv s' \<and> stock s' p + sold s' p = stock s p + sold s p"
  proof (induction rule: rtranclp_induct)
    case base
    then show ?case using assms(1) by simp
  next
    case (step t u)
    then obtain act where act: "customer_op act" "has_key u_id (sub (op_actor act)) (users t)"
        "u = run_shop act t" by (auto elim: customer_step.cases)
    then show ?case
      using step.IH run_shop_inv [OF _ act(2)] run_shop_conserves [OF _ act(1), of t p]
      by (simp add: shop_inv_def)
  qed
  then show ?thesis by simp
qed

text \<open>C14: \<open>POST /orders/:id/cancel\<close> answers 404 for an order that does not exist or belongs to someone
  else, 400 once processing has started, and otherwise moves the order to \<open>cancelled\<close> and appends that
  status to its history; a refused cancellation changes nothing, and no cancellation returns pieces to
  the stock.\<close>

theorem cancelOrder_effect:
  assumes "order_wf s" and "cancelOrder user i s = (x, s')"
  shows "(order_owner s i \<noteq> Some (sub user) \<longrightarrow> x = Inl (NotFound ''Order not found'')) \<and>
     (order_owner s i = Some (sub user) \<and> order_status s i \<noteq> Some Order_RECEIVED \<longrightarrow>
        x = Inl (BadRequest ''Order cancellation allowed only before processing starts'')) \<and>
     (is_ok x \<longleftrightarrow> order_owner s i = Some (sub user) \<and> order_status s i = Some Order_RECEIVED) \<and>
     (is_ok x \<longrightarrow> order_status s' = (order_status s)(i := Some Order_CANCELLED) \<and>
        order_log s' = (order_log s)(i := order_log s i @ [Order_CANCELLED])) \<and>
     (\<not> is_ok x \<longrightarrow> s' = s) \<and> (\<forall>p. stock s' p = stock s p)"
proof -
  have fail: "s' = s" if "x = Inl e" for e using order_desk.cancel_fail assms that by blast
  have ok: "order_status s i = Some Order_RECEIVED \<and> order_owner s i = Some (sub user) \<and>
      order_status s' = (order_status s)(i := Some Order_CANCELLED) \<and>
      order_log s' = (order_log s)(i := order_log s i @ [Order_CANCELLED])" if "x = Inr v" for v
    using order_desk.cancel_ok [of s user i v s'] assms that by auto
  have cat: "catalog_products s' = catalog_products s" using status_op_frame(1) [of user i s] assms(2) by simp
  show ?thesis
  proof (cases x)
    case (Inl e)
    have "\<not> (order_owner s i = Some (sub user) \<and> order_status s i = Some Order_RECEIVED)"
    proof
      assume "order_owner s i = Some (sub user) \<and> order_status s i = Some Order_RECEIVED"
      then obtain po where po: "row_by po_id i (product_orders s) = Some po" "po_user_id po = sub user"
          "po_status po = Order_RECEIVED" by (auto simp: order_owner_def order_status_def)
      then have h: "has_key po_id i (product_orders s)" "has_key u_id (sub user) (users s)"
        using assms(1) row_by_Some [OF po(1)] by (auto simp: order_wf_def orders_inv_def has_key_row_by)
      have "has_key po_id i (product_orders (order_moved i (cancel_set (clock s)) Order_CANCELLED (sub user) s))"
        using h by (simp add: order_moved_sel has_key_iff update_where_image)
      from getOrderForUser_admin [OF this, of "sub user"] show False
        using assms(2) Inl po by (auto simp: cancelOrder_eq [OF assms(1)] Let_def)
    qed
    then show ?thesis
      using Inl fail [OF Inl] assms(2) order_owner_def order_status_def
      by (auto simp: cancelOrder_eq [OF assms(1)] Let_def order_owner_def order_status_def
          split: option.splits if_splits)
  next
    case (Inr v)
    then show ?thesis using ok [OF Inr] cat by (simp add: stock_def)
  qed
qed

section \<open>Who sees which order\<close>

text \<open>A customer sees own orders only: \<open>GET /orders/me\<close> lists orders of the caller, at most 100 of
  them, and \<open>GET /orders/:id\<close> answers with the order if it is the caller's, 403 if it is someone else's
  and 404 if there is none.\<close>

theorem order_privacy:
  "list_all (\<lambda>v. ov_user_id v = sub user) (listMyOrders s user q) \<and>
   int (length (listMyOrders s user q)) \<le> 100 \<and>
   getOrderForUser s (sub user) i False =
     (case row_by po_id i (product_orders s) of
        None \<Rightarrow> Inl (NotFound ''Order not found'')
      | Some po \<Rightarrow> if po_user_id po = sub user
          then Inr (order_view_of (join_user s po) True (items_of s i)) else Inl (Forbidden ''Not allowed''))"
proof (intro conjI)
  show "list_all (\<lambda>v. ov_user_id v = sub user) (listMyOrders s user q)"
    unfolding list_all_iff
  proof
    fix v
    assume "v \<in> set (listMyOrders s user q)"
    then obtain po where "v = order_view_of (order_row_of po) False (items_of s (po_id po))"
      and "po \<in> set (paged (page_query.truncate q) 20 100 (sort_key (orders_order_key q)
            (filter (\<lambda>po. po_user_id po = sub user \<and> order_where q po) (product_orders s))))"
      by (auto simp: listMyOrders_def attachOrderItems_eq order_row_of_def)
    moreover from this(2) have "po_user_id po = sub user" by (auto dest: subsetD [OF paged_subset])
    ultimately show "ov_user_id v = sub user" by (simp add: order_view_of_def order_row_of_def)
  qed
  show "int (length (listMyOrders s user q)) \<le> 100"
    using paged_length [of 100 "page_query.truncate q" 20] by (simp add: listMyOrders_def attachOrderItems_eq)
  show "getOrderForUser s (sub user) i False =
     (case row_by po_id i (product_orders s) of
        None \<Rightarrow> Inl (NotFound ''Order not found'')
      | Some po \<Rightarrow> if po_user_id po = sub user
          then Inr (order_view_of (join_user s po) True (items_of s i)) else Inl (Forbidden ''Not allowed''))"
    by (auto simp: getOrderForUser_def attachOrderItems_eq join_user_def order_row_of_def Let_def
        dest: row_by_Some split: option.split)
qed

section \<open>Witnesses\<close>

definition sample_order_dto :: create_order_dto where
  "sample_order_dto = \<lparr>no_deliveryAddress = ''Giza'', no_items = [(1, 2), (2, 1), (1, 3)]\<rparr>"

lemma sample_wf: "order_wf sample_db"
  by code_simp

lemma sample_audited: "order_desk.audited sample_db"
  by (simp add: order_desk.audited_def sample_wf) (simp add: order_status_def order_log_def sample_db_def
      sample_order_def log_in_def trail_def)

lemma sample_shop_inv: "shop_inv sample_db"
proof -
  have "cart_inv sample_db" by code_simp
  then show ?thesis by (simp add: shop_inv_def sample_wf sample_audited)
qed

theorem createOrder_succeeds_iff_witness:
  "is_ok (fst (createOrder sample_customer sample_order_dto sample_db)) \<and>
   \<not> is_ok (fst (createOrder sample_customer (sample_order_dto\<lparr>no_items := [(1, 3), (1, 3)]\<rparr>) sample_db))"
proof -
  have inv: "catalog_inv sample_db" using sample_wf by (simp add: order_wf_def)
  have p1: "live_product sample_db 1 = Some (sample_product 1 ''Lamp'' 5 250)"
    and p2: "live_product sample_db 2 = Some (sample_product 2 ''Cable'' 9 100)"
    by (simp_all add: live_product_def sample_db_def sample_product_def)
  have u: "has_key u_id 2 (users sample_db)" by code_simp
  obtain x s' where run: "createOrder sample_customer sample_order_dto sample_db = (x, s')" by fastforce
  obtain y t where run2: "createOrder sample_customer (sample_order_dto\<lparr>no_items := [(1, 3), (1, 3)]\<rparr>)
      sample_db = (y, t)" by fastforce
  have "is_ok x"
    using createOrder_succeeds_iff [OF inv run] u
    by (simp add: sample_order_dto_def p1 p2) (simp add: sample_product_def)
  moreover have "\<not> is_ok y"
    using createOrder_succeeds_iff [OF inv run2] u
    by (simp add: sample_order_dto_def p1 p2) (simp add: sample_product_def)
  ultimately show ?thesis by (simp add: run run2)
qed

theorem createOrder_effect_witness:
  "\<exists>v s'. createOrder sample_customer sample_order_dto sample_db = (Inr v, s') \<and>
     map item_line (ov_items v) = [(1, 2), (2, 1), (1, 3)] \<and> stock s' 1 = 0"
proof -
  have "is_ok (fst (createOrder sample_customer sample_order_dto sample_db))" by code_simp
  then obtain v s' where run: "createOrder sample_customer sample_order_dto sample_db = (Inr v, s')"
    by (metis is_okE prod.collapse)
  have "stock sample_db 1 = 5" by code_simp
  then show ?thesis
    using createOrder_effect [OF sample_wf run] run by (simp add: sample_order_dto_def)
qed

theorem checkoutCart_effect_witness:
  "\<exists>v s'. checkoutCart sample_customer ''Giza'' sample_db = (Inr v, s') \<and>
     map item_line (ov_items v) = [(2, 3), (1, 1)] \<and> cart_lines s' 2 = []"
proof -
  have "is_ok (fst (checkoutCart sample_customer ''Giza'' sample_db))" by code_simp
  then obtain v s' where run: "checkoutCart sample_customer ''Giza'' sample_db = (Inr v, s')"
    by (metis is_okE prod.collapse)
  have "cart_lines sample_db 2 = [(2, 3), (1, 1)]" by code_simp
  then show ?thesis using checkoutCart_effect [OF sample_wf run] run by simp
qed

theorem addCartItem_effect_witness:
  "\<exists>lines s'. addCartItem sample_customer 1 2 sample_db = (Inr lines, s') \<and> cart_qty s' 2 1 = 3"
proof -
  have inv: "cart_inv sample_db" using sample_shop_inv by (simp add: shop_inv_def)
  have "is_ok (fst (addCartItem sample_customer 1 2 sample_db))" by code_simp
  then obtain lines s' where run: "addCartItem sample_customer 1 2 sample_db = (Inr lines, s')"
    by (metis is_okE prod.collapse)
  have "cart_qty sample_db 2 1 = 1" by code_simp
  then show ?thesis using addCartItem_effect [OF inv run] run by simp
qed

definition stocked_db :: db where
  "stocked_db = run_shop (Op_adminCreateProduct sample_admin
        \<lparr>nc_title = ''Fan'', nc_description = ''d'', nc_amount = 4, nc_price = Dec 900 2, nc_details = None,
         nc_imageFileIds = None, nc_fileIds = None\<rparr>)
       (empty_db\<lparr>users := [sample_user 1 True, sample_user 2 False]\<rparr>)"

definition shop_db :: db where
  "shop_db = run_shop (Op_createOrder sample_customer
     \<lparr>no_deliveryAddress = ''Giza'', no_items = [(1, 3)]\<rparr>) stocked_db"


theorem stock_conserved_witness:
  "stock (run_shop (Op_checkoutCart sample_customer ''Giza'') sample_db) 2 +
     sold (run_shop (Op_checkoutCart sample_customer ''Giza'') sample_db) 2 = 10"
proof -
  have "has_key u_id 2 (users sample_db)" by code_simp
  then have "customer_step sample_db (run_shop (Op_checkoutCart sample_customer ''Giza'') sample_db)"
    by (intro customer_step.intros) simp_all
  then have "rtranclp customer_step sample_db (run_shop (Op_checkoutCart sample_customer ''Giza'') sample_db)"
    by simp
  note stock_conserved [OF sample_shop_inv this, of 2]
  moreover have "stock sample_db 2 + sold sample_db 2 = 10" by code_simp
  ultimately show ?thesis by simp
qed

theorem cancelOrder_effect_witness:
  "\<exists>x s'. cancelOrder sample_customer 1 sample_db = (x, s') \<and> is_ok x \<and>
     order_log s' 1 = [Order_RECEIVED, Order_CANCELLED]"
proof -
  obtain x s' where run: "cancelOrder sample_customer 1 sample_db = (x, s')" by fastforce
  have "order_owner sample_db 1 = Some 2" "order_status sample_db 1 = Some Order_RECEIVED"
    "order_log sample_db 1 = [Order_RECEIVED]" by code_simp+
  then show ?thesis using cancelOrder_effect [OF sample_wf run] run by simp
qed

end
