(* ===== verification/Faults.thy ===== *)
theory Faults
  imports Assets Workflow Samples
begin

text \<open>
  Fault reports of \<open>KayanService\<close> (\<open>src/kayan/kayan.service.ts\<close>): report, edit and cancel by the
  customer, the administrator's status change along the transition table
  \<open>assertValidFaultTransition\<close>, the validated image attachments, and the lists with their severity
  order. Faults are a \<open>ticket_desk\<close> whose graph is that table, and their images a
  \<open>unique_asset_store\<close>.
\<close>

section \<open>Statuses and severities\<close>

text \<open>The table of \<open>assertValidFaultTransition\<close>.\<close>

fun fault_transitions :: "fault_status \<Rightarrow> fault_status list" where
  "fault_transitions Fault_RECEIVED = [Fault_ASSIGNED, Fault_CANCELLED]"
| "fault_transitions Fault_ASSIGNED = [Fault_ON_THE_WAY, Fault_CANCELLED]"
| "fault_transitions Fault_ON_THE_WAY = [Fault_IN_PROGRESS, Fault_CANCELLED]"
| "fault_transitions Fault_IN_PROGRESS = [Fault_FINISHED, Fault_CANCELLED]"
| "fault_transitions Fault_FINISHED = []"
| "fault_transitions Fault_CANCELLED = []"

fun fault_status_text :: "fault_status \<Rightarrow> string" where
  "fault_status_text Fault_RECEIVED = ''received''"
| "fault_status_text Fault_ASSIGNED = ''assigned''"
| "fault_status_text Fault_ON_THE_WAY = ''on_the_way''"
| "fault_status_text Fault_IN_PROGRESS = ''in_progress''"
| "fault_status_text Fault_FINISHED = ''finished''"
| "fault_status_text Fault_CANCELLED = ''cancelled''"

definition assertValidFaultTransition :: "fault_status \<Rightarrow> fault_status \<Rightarrow> unit result" where
  "assertValidFaultTransition current next =
     (if current = next then Inr ()
      else if next \<notin> set (fault_transitions current)
      then Inl (BadRequest (''Invalid fault status transition from '' @ fault_status_text current @
             '' to '' @ fault_status_text next))
      else Inr ())"

text \<open>The ranks of the \<open>CASE fr.severity\<close> expression of \<open>buildFaultOrderClause\<close>.\<close>

fun severity_rank :: "fault_severity \<Rightarrow> int" where
  "severity_rank Severity_NORMAL = 1"
| "severity_rank Severity_HIGH = 2"
| "severity_rank Severity_URGENT = 3"
| "severity_rank Severity_EMERGENT = 4"

lemma severity_rank_inj: "severity_rank a = severity_rank b \<Longrightarrow> a = b"
  by (cases a; cases b) simp_all

instantiation fault_severity :: linorder
begin

definition less_eq_fault_severity :: "fault_severity \<Rightarrow> fault_severity \<Rightarrow> bool" where
  "less_eq_fault_severity a b \<longleftrightarrow> severity_rank a \<le> severity_rank b"

definition less_fault_severity :: "fault_severity \<Rightarrow> fault_severity \<Rightarrow> bool" where
  "less_fault_severity a b \<longleftrightarrow> severity_rank a < severity_rank b"

instance
  by standard (auto simp: less_eq_fault_severity_def less_fault_severity_def intro: severity_rank_inj)

end

section \<open>Reading faults\<close>

record brief =
  br_id :: int
  br_name :: "string option"
  br_email :: "string option"
  br_phone :: "string option"

text \<open>\<open>has_rated\<close> is selected for the customer only, \<open>user\<close> built for the administrator only.\<close>

record fault_view =
  fv_id :: int
  fv_user_id :: int
  fv_title :: string
  fv_description :: string
  fv_severity :: fault_severity
  fv_address :: string
  fv_status :: fault_status
  fv_cancelled_at :: "time option"
  fv_created_at :: time
  fv_updated_at :: time
  fv_has_rated :: "bool option"
  fv_user :: "brief option"

definition fault_columns :: "fault_report \<Rightarrow> bool option \<Rightarrow> brief option \<Rightarrow> fault_view" where
  "fault_columns fr rated u =
     \<lparr>fv_id = fr_id fr, fv_user_id = fr_user_id fr, fv_title = fr_title fr,
      fv_description = fr_description fr, fv_severity = fr_severity fr, fv_address = fr_address fr,
      fv_status = fr_status fr, fv_cancelled_at = fr_cancelled_at fr,
      fv_created_at = fr_created_at fr, fv_updated_at = fr_updated_at fr,
      fv_has_rated = rated, fv_user = u\<rparr>"

text \<open>\<open>EXISTS(SELECT 1 FROM item_ratings \<dots> item_type = 'fault' \<dots>)\<close>.\<close>

definition has_rated_fault :: "db \<Rightarrow> int \<Rightarrow> int \<Rightarrow> bool" where
  "has_rated_fault s faultId userId \<longleftrightarrow>
     list_ex (\<lambda>ir. ir_item_type ir = Item_FAULT \<and> ir_item_id ir = faultId \<and> ir_user_id ir = userId)
       (item_ratings s)"

definition user_brief_of :: "db \<Rightarrow> int \<Rightarrow> brief" where
  "user_brief_of s userId =
     (let u = row_by u_id userId (users s) in
      \<lparr>br_id = userId, br_name = map_option u_name u, br_email = Option.bind u u_email,
       br_phone = Option.bind u u_phone\<rparr>)"

definition fault_asset_payload :: "db \<Rightarrow> fault_asset \<Rightarrow> asset_view" where
  "fault_asset_payload s fa = asset_payload s (fa_file_id fa) (fa_sort_order fa)"

definition attachFaultAssets :: "db \<Rightarrow> fault_view list \<Rightarrow> (fault_view \<times> asset_view list) list" where
  "attachFaultAssets s faults =
     (if faults = [] then []
      else
        let faultIds = map fv_id faults;
            assets = sort_key (\<lambda>fa. (fa_fault_id fa, fa_sort_order fa, fa_id fa))
              (filter (\<lambda>fa. fa_fault_id fa \<in> set faultIds) (fault_assets s));
            byFaultId = bucket_by fa_fault_id (fault_asset_payload s) assets
        in map (\<lambda>fault. (fault, bucket_get byFaultId (fv_id fault))) faults)"

definition getFaultForUserWithExecutor ::
  "db \<Rightarrow> int \<Rightarrow> int \<Rightarrow> bool \<Rightarrow> (fault_view \<times> asset_view list) result" where
  "getFaultForUserWithExecutor s userId faultId allowAdmin =
     (case row_by fr_id faultId (fault_reports s) of
        None \<Rightarrow> Inl (NotFound ''Fault not found'')
      | Some fault \<Rightarrow>
          if \<not> allowAdmin \<and> fr_user_id fault \<noteq> userId then Inl (Forbidden ''Not allowed'')
          else Inr (hd (attachFaultAssets s
                 [fault_columns fault (Some (has_rated_fault s faultId userId)) None])))"

definition getFaultForUser :: "db \<Rightarrow> int \<Rightarrow> int \<Rightarrow> bool \<Rightarrow> (fault_view \<times> asset_view list) result" where
  "getFaultForUser s userId faultId allowAdmin = getFaultForUserWithExecutor s userId faultId allowAdmin"

datatype fault_sort_by = FaultSort_CREATED_AT | FaultSort_SEVERITY

record list_faults_query = page_query +
  lf_status :: "fault_status option"
  lf_severity :: "fault_severity option"
  lf_fromDate :: "time option"
  lf_toDate :: "time option"
  lf_sortBy :: "fault_sort_by option"
  lf_sortDirection :: "sort_direction option"

definition fault_where :: "list_faults_query \<Rightarrow> fault_report \<Rightarrow> bool" where
  "fault_where q fr \<longleftrightarrow>
     opt_holds (lf_status q) (\<lambda>st. fr_status fr = st) \<and>
     opt_holds (lf_severity q) (\<lambda>sev. fr_severity fr = sev) \<and>
     opt_holds (lf_fromDate q) (\<lambda>d. fr_created_at fr \<ge> d) \<and>
     opt_holds (lf_toDate q) (\<lambda>d. fr_created_at fr \<le> d)"

definition in_direction :: "sort_direction \<Rightarrow> int \<Rightarrow> int" where
  "in_direction dir k = (case dir of Dir_ASC \<Rightarrow> k | Dir_DESC \<Rightarrow> - k)"

definition buildFaultOrderClause :: "fault_sort_by \<Rightarrow> sort_direction \<Rightarrow> fault_report \<Rightarrow> int \<times> int \<times> int" where
  "buildFaultOrderClause sortBy sortDirection fr =
     (case sortBy of
        FaultSort_SEVERITY \<Rightarrow>
          (in_direction sortDirection (severity_rank (fr_severity fr)), - fr_created_at fr, - fr_id fr)
      | FaultSort_CREATED_AT \<Rightarrow> (in_direction sortDirection (fr_created_at fr), - fr_id fr, 0))"

definition fault_order :: "list_faults_query \<Rightarrow> fault_report \<Rightarrow> int \<times> int \<times> int" where
  "fault_order q =
     buildFaultOrderClause (case lf_sortBy q of None \<Rightarrow> FaultSort_CREATED_AT | Some b \<Rightarrow> b)
       (case lf_sortDirection q of None \<Rightarrow> Dir_DESC | Some d \<Rightarrow> d)"

definition listMyFaults :: "db \<Rightarrow> auth_user \<Rightarrow> list_faults_query \<Rightarrow> (fault_view \<times> asset_view list) list" where
  "listMyFaults s user q =
     attachFaultAssets s
       (map (\<lambda>fr. fault_columns fr (Some (has_rated_fault s (fr_id fr) (sub user))) None)
          (paged (page_query.truncate q) 20 100
            (sort_key (fault_order q)
              (filter (\<lambda>fr. fr_user_id fr = sub user \<and> fault_where q fr) (fault_reports s)))))"

definition adminListFaults :: "db \<Rightarrow> list_faults_query \<Rightarrow> (fault_view \<times> asset_view list) list \<times> int" where
  "adminListFaults s q =
     (let total = int (length (filter (fault_where q) (fault_reports s)));
          items = attachFaultAssets s
            (map (\<lambda>fr. fault_columns fr None None)
              (paged (page_query.truncate q) 20 100
                (sort_key (fault_order q) (filter (fault_where q) (fault_reports s)))))
      in (map (\<lambda>(item, images). (item\<lparr>fv_user := Some (user_brief_of s (fv_user_id item))\<rparr>, images)) items,
          total))"

section \<open>Writing faults\<close>

record create_fault_dto =
  nf_title :: string
  nf_description :: string
  nf_severity :: fault_severity
  nf_address :: string
  nf_imageFileIds :: "int list option"

record update_fault_dto =
  uf_title :: "string option"
  uf_description :: "string option"
  uf_severity :: "fault_severity option"
  uf_address :: "string option"
  uf_imageFileIds :: "int list option"

text \<open>\<open>[...new Set(xs)]\<close> keeps the first occurrence of every element, in order.\<close>

definition js_unique :: "'a list \<Rightarrow> 'a list" where
  "js_unique xs = rev (remdups (rev xs))"

definition check_fault_image :: "db \<Rightarrow> int \<Rightarrow> unit result" where
  "check_fault_image s fileId =
     (case row_by f_id fileId (files s) of
        None \<Rightarrow> Inl (BadRequest (''File '' @ show_int fileId @ '' not found''))
      | Some file \<Rightarrow>
          if f_status file \<noteq> File_uploaded
          then Inl (BadRequest (''File '' @ show_int fileId @ '' must be uploaded before fault association''))
          else if f_purpose file \<noteq> Purpose_product_image
          then Inl (BadRequest (''File '' @ show_int fileId @ '' must have purpose product_image''))
          else if \<not> opt_starts (f_mime_type file) ''image/''
          then Inl (BadRequest (''File '' @ show_int fileId @ '' must be an image''))
          else Inr ())"

definition assertValidFaultImageFiles :: "int list \<Rightarrow> (db, unit) handler" where
  "assertValidFaultImageFiles fileIds =
     for_each (\<lambda>fileId s. (check_fault_image s fileId, s)) (js_unique fileIds)"

definition insert_fault_asset :: "int \<Rightarrow> int \<Rightarrow> int \<Rightarrow> (db, unit) handler" where
  "insert_fault_asset faultId fileId i s =
     (let s1 = bump T_fault_assets s in
      if list_ex (\<lambda>a. fa_fault_id a = faultId \<and> fa_file_id a = fileId) (fault_assets s)
      then (Inl (SqlError ''23505''), s1)
      else if \<not> has_key fr_id faultId (fault_reports s) \<or> \<not> has_key f_id fileId (files s)
      then (Inl (SqlError ''23503''), s1)
      else (Inr (), s1\<lparr>fault_assets := fault_assets s @
             [\<lparr>fa_id = seqs s T_fault_assets, fa_fault_id = faultId, fa_file_id = fileId,
               fa_sort_order = i\<rparr>]\<rparr>))"

definition clear_fault_assets :: "int \<Rightarrow> db \<Rightarrow> db" where
  "clear_fault_assets faultId s =
     s\<lparr>fault_assets := delete_where (\<lambda>a. fa_fault_id a = faultId) (fault_assets s)\<rparr>"

definition rewriteFaultAssets :: "int \<Rightarrow> int list \<Rightarrow> (db, unit) handler" where
  "rewriteFaultAssets faultId fileIds s =
     for_each (\<lambda>(i, f). insert_fault_asset faultId f (int i)) (enumerate 0 fileIds)
       (clear_fault_assets faultId s)"

definition syncFaultAssets :: "int \<Rightarrow> int list \<Rightarrow> (db, unit) handler" where
  "syncFaultAssets faultId fileIds =
     bind_h (assertValidFaultImageFiles fileIds) (\<lambda>_. rewriteFaultAssets faultId fileIds)"

definition insert_fault :: "int \<Rightarrow> create_fault_dto \<Rightarrow> (db, int) handler" where
  "insert_fault userId dto s =
     (let s1 = bump T_fault_reports s in
      if \<not> has_key u_id userId (users s) then (Inl (SqlError ''23503''), s1)
      else (Inr (seqs s T_fault_reports), s1\<lparr>fault_reports := fault_reports s @
             [\<lparr>fr_id = seqs s T_fault_reports, fr_user_id = userId, fr_title = nf_title dto,
               fr_description = nf_description dto, fr_severity = nf_severity dto,
               fr_address = nf_address dto, fr_status = Fault_RECEIVED, fr_cancelled_at = None,
               fr_created_at = clock s, fr_updated_at = clock s\<rparr>]\<rparr>))"

definition insert_fault_history :: "int \<Rightarrow> fault_status \<Rightarrow> int \<Rightarrow> (db, unit) handler" where
  "insert_fault_history faultId status changedBy s =
     (let s1 = bump T_fault_history s in
      if \<not> has_key fr_id faultId (fault_reports s) \<or> \<not> has_key u_id changedBy (users s)
      then (Inl (SqlError ''23503''), s1)
      else (Inr (), s1\<lparr>fault_history := fault_history s @
             [\<lparr>h_id = seqs s T_fault_history, h_item_id = faultId, h_status = status,
               h_changed_by = changedBy\<rparr>]\<rparr>))"

definition createFault ::
  "auth_user \<Rightarrow> create_fault_dto \<Rightarrow> (db, fault_view \<times> asset_view list) handler" where
  "createFault user dto =
     with_transaction
       (bind_h (insert_fault (sub user) dto) (\<lambda>faultId.
        bind_h (syncFaultAssets faultId (coalesce (nf_imageFileIds dto) [])) (\<lambda>_.
        bind_h (insert_fault_history faultId Fault_RECEIVED (sub user)) (\<lambda>_ s.
        (getFaultForUserWithExecutor s (sub user) faultId True, s)))))"

definition sql_update_fault :: "int \<Rightarrow> (fault_report \<Rightarrow> fault_report) \<Rightarrow> db \<Rightarrow> db" where
  "sql_update_fault faultId f s =
     s\<lparr>fault_reports := update_where (\<lambda>fr. fr_id fr = faultId) f (fault_reports s)\<rparr>"

definition own_fault :: "db \<Rightarrow> auth_user \<Rightarrow> int \<Rightarrow> fault_report option" where
  "own_fault s user faultId =
     find (\<lambda>fr. fr_id fr = faultId \<and> fr_user_id fr = sub user) (fault_reports s)"

definition fault_update_set :: "update_fault_dto \<Rightarrow> time \<Rightarrow> fault_report \<Rightarrow> fault_report" where
  "fault_update_set dto now fr =
     fr\<lparr>fr_title := coalesce (uf_title dto) (fr_title fr),
        fr_description := coalesce (uf_description dto) (fr_description fr),
        fr_severity := coalesce (uf_severity dto) (fr_severity fr),
        fr_address := coalesce (uf_address dto) (fr_address fr),
        fr_updated_at := now\<rparr>"

definition updateFault ::
  "auth_user \<Rightarrow> int \<Rightarrow> update_fault_dto \<Rightarrow> (db, fault_view \<times> asset_view list) handler" where
  "updateFault user faultId dto =
     with_transaction (\<lambda>s.
       case own_fault s user faultId of
         None \<Rightarrow> (Inl (NotFound ''Fault not found''), s)
       | Some current \<Rightarrow>
           if fr_status current \<noteq> Fault_RECEIVED
           then (Inl (BadRequest ''Fault can only be updated before processing starts''), s)
           else
             let s1 = sql_update_fault faultId
                   (fault_update_set dto (clock s)) s
             in bind_h (sync_if (syncFaultAssets faultId) (uf_imageFileIds dto))
                  (\<lambda>_ s2. (getFaultForUserWithExecutor s2 (sub user) faultId True, s2)) s1)"

text \<open>
  A cancellation and an administrator's status change are three statements each, with no transaction around them:
  the \<open>SELECT\<close> with what is checked on its row, the \<open>UPDATE\<close> (whose \<open>WHERE\<close> names the id only) and the \<open>INSERT\<close> of
  the history. \<open>cancelFault\<close> and \<open>adminUpdateFaultStatus\<close> run them with nothing in between; \<open>fault_statement\<close> below
  lets the statements of other requests in.
\<close>

definition cancel_fault_check :: "db \<Rightarrow> auth_user \<Rightarrow> int \<Rightarrow> unit result" where
  "cancel_fault_check s user faultId =
     (case own_fault s user faultId of
        None \<Rightarrow> Inl (NotFound ''Fault not found'')
      | Some fr \<Rightarrow>
          if fr_status fr \<noteq> Fault_RECEIVED
          then Inl (BadRequest ''Fault cancellation allowed only before processing starts'')
          else Inr ())"

definition fault_cancel_set :: "time \<Rightarrow> fault_report \<Rightarrow> fault_report" where
  "fault_cancel_set now r = r\<lparr>fr_status := Fault_CANCELLED, fr_cancelled_at := Some now, fr_updated_at := now\<rparr>"

definition cancel_fault_update :: "int \<Rightarrow> db \<Rightarrow> db" where
  "cancel_fault_update faultId s = sql_update_fault faultId (fault_cancel_set (clock s)) s"

definition cancelFault :: "auth_user \<Rightarrow> int \<Rightarrow> (db, fault_view \<times> asset_view list) handler" where
  "cancelFault user faultId s =
     (case cancel_fault_check s user faultId of
        Inl e \<Rightarrow> (Inl e, s)
      | Inr _ \<Rightarrow>
          bind_h (insert_fault_history faultId Fault_CANCELLED (sub user))
            (\<lambda>_ s2. (getFaultForUser s2 (sub user) faultId True, s2))
            (cancel_fault_update faultId s))"

definition advance_fault_check :: "db \<Rightarrow> int \<Rightarrow> fault_status \<Rightarrow> unit result" where
  "advance_fault_check s faultId status =
     (case row_by fr_id faultId (fault_reports s) of
        None \<Rightarrow> Inl (NotFound ''Fault not found'')
      | Some current \<Rightarrow> assertValidFaultTransition (fr_status current) status)"

definition fault_status_set :: "fault_status \<Rightarrow> time \<Rightarrow> fault_report \<Rightarrow> fault_report" where
  "fault_status_set st now r = r\<lparr>fr_status := st, fr_updated_at := now\<rparr>"

definition advance_fault_update :: "int \<Rightarrow> fault_status \<Rightarrow> db \<Rightarrow> db" where
  "advance_fault_update faultId status s = sql_update_fault faultId (fault_status_set status (clock s)) s"

definition adminUpdateFaultStatus ::
  "auth_user \<Rightarrow> int \<Rightarrow> fault_status \<Rightarrow> (db, fault_view \<times> asset_view list) handler" where
  "adminUpdateFaultStatus admin faultId status s =
     (case advance_fault_check s faultId status of
        Inl e \<Rightarrow> (Inl e, s)
      | Inr _ \<Rightarrow>
          bind_h (insert_fault_history faultId status (sub admin))
            (\<lambda>_ s2. (getFaultForUser s2 0 faultId True, s2))
            (advance_fault_update faultId status s))"

lemmas cancelFault_statements = cancelFault_def cancel_fault_check_def cancel_fault_update_def
lemmas advanceFault_statements = adminUpdateFaultStatus_def advance_fault_check_def advance_fault_update_def

section \<open>Image lists\<close>

lemma fold_check:
  "for_each (\<lambda>x s. (chk s x, s)) xs s =
     (case find (\<lambda>x. \<not> is_ok (chk s x)) xs of
        None \<Rightarrow> (Inr (), s)
      | Some x \<Rightarrow> (chk s x, s))"
  for chk :: "'s \<Rightarrow> 'x \<Rightarrow> unit result"
proof (induction xs)
  case Nil
  then show ?case by simp
next
  case (Cons x xs)
  then show ?case by (cases "chk s x") auto
qed

lemma set_js_unique [simp]: "set (js_unique xs) = set xs"
  by (simp add: js_unique_def)

definition fault_image :: "db \<Rightarrow> int \<Rightarrow> bool" where
  "fault_image s f \<longleftrightarrow> (\<exists>r. row_by f_id f (files s) = Some r \<and> f_status r = File_uploaded \<and>
     f_purpose r = Purpose_product_image \<and> (\<exists>t. f_mime_type r = Some (''image/'' @ t)))"

lemma check_fault_image_iff: "is_ok (check_fault_image s f) \<longleftrightarrow> fault_image s f"
  by (auto simp: check_fault_image_def fault_image_def opt_starts_def starts_with_iff split: option.split)

lemma assert_images:
  "assertValidFaultImageFiles fs s =
     (case find (\<lambda>f. \<not> fault_image s f) (js_unique fs) of
        None \<Rightarrow> (Inr (), s)
      | Some f \<Rightarrow> (check_fault_image s f, s))"
  unfolding assertValidFaultImageFiles_def fold_check check_fault_image_iff ..

lemma assert_images_ok:
  "is_ok (fst (assertValidFaultImageFiles fs s)) \<longleftrightarrow> (\<forall>f \<in> set fs. fault_image s f)"
  "snd (assertValidFaultImageFiles fs s) = s"
  using check_fault_image_iff [of s]
  by (auto simp: assert_images find_None_iff dest: find_SomeD split: option.split)

definition fault_asset_rows :: "db \<Rightarrow> int \<Rightarrow> (int \<times> int) list" where
  "fault_asset_rows s i =
     map (\<lambda>a. (fa_file_id a, fa_sort_order a)) (filter (\<lambda>a. fa_fault_id a = i) (fault_assets s))"

interpretation fault_store:
  unique_asset_store insert_fault_asset clear_fault_assets rewriteFaultAssets fault_asset_rows
    "\<lambda>s i. has_key fr_id i (fault_reports s)"
proof unfold_locales
  show "rewriteFaultAssets own fs s = for_each (\<lambda>(i, f). insert_fault_asset own f (int i))
          (enumerate 0 fs) (clear_fault_assets own s)" for own fs s
    by (simp add: rewriteFaultAssets_def)
  show "fault_asset_rows (clear_fault_assets own s) own = []" for own s
    by (simp add: fault_asset_rows_def clear_fault_assets_def delete_where_def)
  show "fault_asset_rows (clear_fault_assets own s) other = fault_asset_rows s other"
    if "other \<noteq> own" for other own s
    using that
    by (auto simp: fault_asset_rows_def clear_fault_assets_def delete_where_def
        intro!: arg_cong [where f = "map _"] filter_cong)
  show "fault_asset_rows s' own = fault_asset_rows s own @ [(f, i)]"
    if "insert_fault_asset own f i s = (Inr (), s')" for own f i s s'
    using that by (auto simp: insert_fault_asset_def fault_asset_rows_def Let_def split: if_splits)
  show "fault_asset_rows (snd (insert_fault_asset own f i s)) other = fault_asset_rows s other"
    if "other \<noteq> own" for other own f i s
    using that by (auto simp: insert_fault_asset_def fault_asset_rows_def Let_def)
  show "is_ok (fst (insert_fault_asset own f i s)) \<longleftrightarrow> f \<notin> fst ` set (fault_asset_rows s own) \<and>
      has_key fr_id own (fault_reports s) \<and> has_key f_id f (files s)" for own f i s
    by (auto simp: insert_fault_asset_def fault_asset_rows_def Let_def list_ex_iff image_iff)
qed (simp_all add: insert_fault_asset_def clear_fault_assets_def Let_def)

definition fault_rest :: "db \<Rightarrow> db" where
  "fault_rest s = s\<lparr>fault_assets := [], seqs := (\<lambda>_. 0)\<rparr>"

lemma fault_rest_cong:
  assumes "fault_rest s' = fault_rest s"
  shows "fault_reports s' = fault_reports s" "users s' = users s" "fault_history s' = fault_history s"
    "clock s' = clock s" "files s' = files s" "item_ratings s' = item_ratings s"
  using arg_cong [OF assms, of fault_reports] arg_cong [OF assms, of users]
    arg_cong [OF assms, of fault_history] arg_cong [OF assms, of clock]
    arg_cong [OF assms, of files] arg_cong [OF assms, of item_ratings]
  by (simp_all add: fault_rest_def)

definition fault_inv :: "db \<Rightarrow> bool" where
  "fault_inv s \<longleftrightarrow>
     pk fr_id (seqs s T_fault_reports) (fault_reports s) \<and>
     (\<forall>fr \<in> set (fault_reports s). has_key u_id (fr_user_id fr) (users s)) \<and>
     (\<forall>h \<in> set (fault_history s). has_key fr_id (h_item_id h) (fault_reports s)) \<and>
     (\<forall>a \<in> set (fault_assets s). has_key fr_id (fa_fault_id a) (fault_reports s))"

text \<open>A rewrite keeps every other table and the references of its own.\<close>

definition image_step :: "db \<Rightarrow> db \<Rightarrow> bool" where
  "image_step s s' \<longleftrightarrow> fault_rest s' = fault_rest s \<and> (\<forall>t. seqs s t \<le> seqs s' t) \<and>
     seqs s' T_fault_reports = seqs s T_fault_reports \<and> (fault_inv s \<longrightarrow> fault_inv s')"

lemma image_step_refl [simp]: "image_step s s"
  by (simp add: image_step_def)

lemma image_step_trans: "image_step s t \<Longrightarrow> image_step t u \<Longrightarrow> image_step s u"
  unfolding image_step_def by (auto intro: order_trans)

lemma image_step_insert: "image_step s (snd (insert_fault_asset i f n s))"
proof -
  have "fault_rest (bump T_fault_assets s) = fault_rest s"
    "fault_rest ((bump T_fault_assets s)\<lparr>fault_assets := c\<rparr>) = fault_rest s" for c
    by (simp_all add: fault_rest_def bump_def)
  then show ?thesis
    by (auto simp: image_step_def insert_fault_asset_def Let_def fault_inv_def)
qed

lemma image_step_clear: "image_step s (clear_fault_assets i s)"
  by (auto simp: image_step_def clear_fault_assets_def fault_rest_def fault_inv_def)

lemma image_step_sync: "image_step s (snd (syncFaultAssets i fs s))"
proof -
  have "image_step s (snd (rewriteFaultAssets i fs s))"
    unfolding rewriteFaultAssets_def
    by (rule for_each_preserves [where P = "image_step s"])
       (auto intro: image_step_trans image_step_insert image_step_clear split: prod.splits)
  then show ?thesis
    using assert_images_ok(2) [of fs s]
    by (auto simp: syncFaultAssets_def bind_h_def split: prod.splits sum.splits)
qed

lemma sync_fault_ok_iff:
  "is_ok (fst (syncFaultAssets i fs s)) \<longleftrightarrow>
     distinct fs \<and> (\<forall>f \<in> set fs. fault_image s f \<and> has_key fr_id i (fault_reports s))"
proof -
  have "fault_image s f \<Longrightarrow> has_key f_id f (files s)" for f
    by (auto simp: fault_image_def has_key_row_by)
  moreover obtain x where "assertValidFaultImageFiles fs s = (x, s)"
    using assert_images_ok(2) [of fs s] by (metis prod.collapse)
  ultimately show ?thesis
    using assert_images_ok(1) [of fs s] fault_store.sync_ok_iff [of i fs s]
    by (cases x) (auto simp: syncFaultAssets_def bind_h_def)
qed

lemma sync_fault_rows:
  "syncFaultAssets i fs s = (Inr (), s') \<Longrightarrow> fault_asset_rows s' i = indexed fs"
  using fault_store.sync_rows [of i fs s s'] assert_images_ok(2) [of fs s]
  by (auto simp: syncFaultAssets_def bind_h_def split: prod.splits sum.splits)

definition fault_images :: "db \<Rightarrow> int \<Rightarrow> asset_view list" where
  "fault_images s i = map (fault_asset_payload s)
     (sort_key (\<lambda>fa. (fa_sort_order fa, fa_id fa)) (filter (\<lambda>a. fa_fault_id a = i) (fault_assets s)))"

lemma attachFaultAssets_eq:
  "attachFaultAssets s fs = map (\<lambda>v. (v, fault_images s (fv_id v))) fs"
proof -
  have "bucket_get (bucket_by fa_fault_id (fault_asset_payload s)
        (sort_key (\<lambda>fa. (fa_fault_id fa, fa_sort_order fa, fa_id fa))
          (filter (\<lambda>fa. fa_fault_id fa \<in> ids) (fault_assets s)))) i = fault_images s i"
    if "i \<in> ids" for i ids
  proof -
    have "filter (\<lambda>fa. fa_fault_id fa = i) (filter (\<lambda>fa. fa_fault_id fa \<in> ids) (fault_assets s)) =
        filter (\<lambda>fa. fa_fault_id fa = i) (fault_assets s)"
      using that by (auto intro!: filter_cong)
    then show ?thesis
      unfolding bucket_by_get fault_images_def filter_sort
      by (auto intro!: arg_cong [where f = "map _"] sort_key_same_order simp: less_eq_prod_def)
  qed
  then show ?thesis by (auto simp: attachFaultAssets_def Let_def)
qed

lemma fault_images_indexed:
  assumes "fault_asset_rows s i = indexed fs"
  shows "map av_file_id (fault_images s i) = fs"
proof -
  let ?xs = "filter (\<lambda>a. fa_fault_id a = i) (fault_assets s)"
  have "map snd (fault_asset_rows s i) = map snd (indexed fs)"
    and ids: "map fst (fault_asset_rows s i) = fs" using assms by simp_all
  then have "map fa_sort_order ?xs = map snd (indexed fs)" by (simp add: fault_asset_rows_def comp_def)
  then have "sort_key (\<lambda>fa. (fa_sort_order fa, fa_id fa)) ?xs = ?xs" by (rule sort_indexed) auto
  then show ?thesis
    using ids by (simp add: fault_images_def fault_asset_rows_def fault_asset_payload_def comp_def)
qed

lemma getFault_eq:
  "getFaultForUserWithExecutor s u i adm =
     (case row_by fr_id i (fault_reports s) of
        None \<Rightarrow> Inl (NotFound ''Fault not found'')
      | Some fr \<Rightarrow>
          if \<not> adm \<and> fr_user_id fr \<noteq> u then Inl (Forbidden ''Not allowed'')
          else Inr (fault_columns fr (Some (has_rated_fault s i u)) None, fault_images s i))"
  by (auto simp: getFaultForUserWithExecutor_def attachFaultAssets_eq fault_columns_def
      dest: row_by_Some split: option.split)


section \<open>Faults as tickets\<close>

definition fault_status_of :: "db \<Rightarrow> int \<Rightarrow> fault_status option" where
  "fault_status_of s i = map_option fr_status (row_by fr_id i (fault_reports s))"

definition fault_owner :: "db \<Rightarrow> int \<Rightarrow> int option" where
  "fault_owner s i = map_option fr_user_id (row_by fr_id i (fault_reports s))"

definition fault_log :: "db \<Rightarrow> int \<Rightarrow> fault_status list" where
  "fault_log s i = log_in (fault_history s) i"

definition fault_legal :: "fault_status \<Rightarrow> fault_status \<Rightarrow> bool" where
  "fault_legal cur next \<longleftrightarrow> cur = next \<or> next \<in> set (fault_transitions cur)"

lemma transition_ok_iff: "is_ok (assertValidFaultTransition cur next) \<longleftrightarrow> fault_legal cur next"
  by (simp add: assertValidFaultTransition_def fault_legal_def)

lemma fault_inv_seqs:
  assumes "fault_inv s" "s' = s\<lparr>seqs := q\<rparr>" "\<And>t. seqs s t \<le> q t"
  shows "fault_inv s'"
  using assms(1) by (auto simp: assms(2) fault_inv_def intro: pk_mono [OF _ assms(3)])

lemma desk_fault_seqs [simp]:
  "fault_status_of (s\<lparr>seqs := q\<rparr>) = fault_status_of s" "fault_owner (s\<lparr>seqs := q\<rparr>) = fault_owner s"
  "fault_log (s\<lparr>seqs := q\<rparr>) = fault_log s"
  by (simp_all add: fault_status_of_def fault_owner_def fault_log_def fun_eq_iff)

definition fault_moved :: "int \<Rightarrow> (fault_report \<Rightarrow> fault_report) \<Rightarrow> fault_status \<Rightarrow> int \<Rightarrow> db \<Rightarrow> db" where
  "fault_moved i f st by s = snd (insert_fault_history i st by (sql_update_fault i f s))"

lemma fault_moved_eq:
  assumes "has_key fr_id i (fault_reports s)" "has_key u_id by (users s)" "\<And>r. fr_id (f r) = fr_id r"
  shows "insert_fault_history i st by (sql_update_fault i f s) = (Inr (), fault_moved i f st by s)"
    and "fault_moved i f st by s = (bump T_fault_history s)\<lparr>
      fault_reports := update_where (\<lambda>fr. fr_id fr = i) f (fault_reports s),
      fault_history := fault_history s @
        [\<lparr>h_id = seqs s T_fault_history, h_item_id = i, h_status = st, h_changed_by = by\<rparr>]\<rparr>"
  using assms
  by (simp_all add: fault_moved_def insert_fault_history_def has_key_iff update_where_image
      sql_update_fault_def bump_def)

lemma fault_moved_inv:
  assumes "fault_inv s" "has_key fr_id i (fault_reports s)" "has_key u_id by (users s)"
    and f: "\<And>r. fr_id (f r) = fr_id r" "\<And>r. fr_user_id (f r) = fr_user_id r"
  shows "fault_inv (fault_moved i f st by s)"
proof -
  have "has_key fr_id j (update_where (\<lambda>fr. fr_id fr = i) f t) = has_key fr_id j t" for j and t :: "fault_report list"
    by (simp add: has_key_iff update_where_image f)
  then show ?thesis
    using assms pk_update [of fr_id f]
    by (auto simp: fault_moved_eq(2) [OF assms(2,3) f(1)] fault_inv_def set_update_where)
qed

lemma fault_moved_desk:
  assumes "has_key fr_id i (fault_reports s)" "has_key u_id by (users s)"
    and f: "\<And>r. fr_id (f r) = fr_id r" "\<And>r. fr_user_id (f r) = fr_user_id r" "\<And>r. fr_status (f r) = st"
  shows "fault_status_of (fault_moved i f st by s) = (fault_status_of s)(i := Some st)"
    and "fault_owner (fault_moved i f st by s) = fault_owner s"
    and "fault_log (fault_moved i f st by s) = (fault_log s)(i := fault_log s i @ [st])"
    and "\<exists>v. getFaultForUser (fault_moved i f st by s) u i True = Inr v"
proof -
  obtain r where "row_by fr_id i (fault_reports s) = Some r"
    using assms(1) by (auto simp: has_key_row_by)
  then show "fault_status_of (fault_moved i f st by s) = (fault_status_of s)(i := Some st)"
    and "fault_owner (fault_moved i f st by s) = fault_owner s"
    and "\<exists>v. getFaultForUser (fault_moved i f st by s) u i True = Inr v"
    by (auto simp: fault_status_of_def fault_owner_def fault_moved_eq(2) [OF assms(1,2) f(1)] row_by_update f
        fun_eq_iff option.map_comp comp_def getFaultForUser_def getFault_eq
        dest: row_by_Some intro!: map_option_cong)
  show "fault_log (fault_moved i f st by s) = (fault_log s)(i := fault_log s i @ [st])"
    by (auto simp: fault_log_def fun_eq_iff fault_moved_eq(2) [OF assms(1,2) f(1)])
qed

lemma fault_set_sel [simp]:
  "fr_id (fault_cancel_set t r) = fr_id r" "fr_user_id (fault_cancel_set t r) = fr_user_id r"
  "fr_status (fault_cancel_set t r) = Fault_CANCELLED"
  "fr_id (fault_status_set st t r) = fr_id r" "fr_user_id (fault_status_set st t r) = fr_user_id r"
  "fr_status (fault_status_set st t r) = st"
  by (simp_all add: fault_cancel_set_def fault_status_set_def)

lemma own_fault_iff:
  assumes "fault_inv s"
  shows "own_fault s user i = Some fr \<longleftrightarrow> row_by fr_id i (fault_reports s) = Some fr \<and> fr_user_id fr = sub user"
proof -
  have "own_fault s user i = (case row_by fr_id i (fault_reports s) of None \<Rightarrow> None
      | Some r \<Rightarrow> if fr_user_id r = sub user then Some r else None)"
    using assms pk_find_and [of fr_id "seqs s T_fault_reports" "fault_reports s" i "\<lambda>fr. fr_user_id fr = sub user"]
    by (simp add: own_fault_def fault_inv_def)
  then show ?thesis by (auto split: option.splits if_splits)
qed

text \<open>The cancellation and the administrator's move, on every branch.\<close>

lemma cancelFault_cases:
  assumes inv: "fault_inv s" and run: "cancelFault user i s = (x, s')"
  obtains (moved) v where "x = Inr v" "has_key fr_id i (fault_reports s)" "has_key u_id (sub user) (users s)"
      "fault_status_of s i = Some Fault_RECEIVED" "fault_owner s i = Some (sub user)"
      "s' = fault_moved i (fault_cancel_set (clock s)) Fault_CANCELLED (sub user) s"
    | (refused) "\<not> is_ok x" "s' = s"
        "\<not> (fault_status_of s i = Some Fault_RECEIVED \<and> fault_owner s i = Some (sub user))"
proof (cases "own_fault s user i")
  case None
  then have "\<not> (fault_status_of s i = Some Fault_RECEIVED \<and> fault_owner s i = Some (sub user))"
    using own_fault_iff [OF inv, of user i] by (auto simp: fault_owner_def)
  then show thesis using run None refused by (auto simp: cancelFault_statements)
next
  case (Some fr)
  then have row: "row_by fr_id i (fault_reports s) = Some fr" "fr_user_id fr = sub user"
    using own_fault_iff [OF inv] by auto
  have keys: "has_key fr_id i (fault_reports s)" "has_key u_id (sub user) (users s)"
    using inv row row_by_Some [OF row(1)] by (auto simp: fault_inv_def has_key_row_by)
  show thesis
  proof (cases "fr_status fr = Fault_RECEIVED")
    case True
    let ?t = "fault_moved i (fault_cancel_set (clock s)) Fault_CANCELLED (sub user) s"
    obtain v where "getFaultForUser ?t (sub user) i True = Inr v"
      using fault_moved_desk(4) [OF keys, where f = "fault_cancel_set (clock s)" and st = Fault_CANCELLED and u = "sub user"] by auto
    then have "cancelFault user i s = (Inr v, ?t)"
      using fault_moved_eq(1) [OF keys, of "fault_cancel_set (clock s)" Fault_CANCELLED] True
      by (simp add: cancelFault_statements Some Let_def bind_h_def fault_cancel_set_def [abs_def])
    then show thesis
      using moved [of v] run keys row True by (simp add: fault_status_of_def fault_owner_def)
  next
    case False
    then show thesis using run Some row refused by (auto simp: cancelFault_statements fault_status_of_def)
  qed
qed

lemma advanceFault_cases:
  assumes adm: "has_key u_id (sub admin) (users s)" and run: "adminUpdateFaultStatus admin i st s = (x, s')"
  obtains (moved) v cur where "x = Inr v" "has_key fr_id i (fault_reports s)"
      "fault_status_of s i = Some cur" "fault_legal cur st"
      "s' = fault_moved i (fault_status_set st (clock s)) st (sub admin) s"
    | (refused) "\<not> is_ok x" "s' = s"
        "\<not> (\<exists>cur. fault_status_of s i = Some cur \<and> fault_legal cur st)"
proof (cases "row_by fr_id i (fault_reports s)")
  case None
  then show thesis using run refused by (auto simp: advanceFault_statements fault_status_of_def)
next
  case (Some fr)
  then have key: "has_key fr_id i (fault_reports s)" by (auto simp: has_key_row_by)
  show thesis
  proof (cases "fault_legal (fr_status fr) st")
    case True
    then obtain u where ok: "assertValidFaultTransition (fr_status fr) st = Inr u"
      using transition_ok_iff by (metis is_okE)
    let ?t = "fault_moved i (fault_status_set st (clock s)) st (sub admin) s"
    obtain v where "getFaultForUser ?t 0 i True = Inr v"
      using fault_moved_desk(4) [OF key adm, where f = "fault_status_set st (clock s)" and st = st and u = 0] by auto
    then have "adminUpdateFaultStatus admin i st s = (Inr v, ?t)"
      using fault_moved_eq(1) [OF key adm, of "fault_status_set st (clock s)" st] ok
      by (simp add: advanceFault_statements Some Let_def bind_h_def fault_status_set_def [abs_def])
    then show thesis using moved [of v] run key Some True by (simp add: fault_status_of_def)
  next
    case False
    then obtain e where "assertValidFaultTransition (fr_status fr) st = Inl e"
      using transition_ok_iff by (metis is_ok_simps(1) sum.exhaust)
    then show thesis
      using run Some False refused by (auto simp: advanceFault_statements fault_status_of_def)
  qed
qed

lemma advance_fault_inv:
  assumes "fault_inv s"
  shows "fault_inv (snd (adminUpdateFaultStatus admin i st s))"
proof (cases "has_key u_id (sub admin) (users s)")
  case True
  obtain x s' where run: "adminUpdateFaultStatus admin i st s = (x, s')" by fastforce
  from True run have "fault_inv s'"
    by (cases rule: advanceFault_cases) (use assms fault_moved_inv [OF assms _ True] in auto)
  then show ?thesis using run by simp
next
  case False
  let ?f = "fault_status_set st (clock s)"
  have "has_key fr_id j (update_where (\<lambda>fr. fr_id fr = i) ?f t) = has_key fr_id j t" for j and t :: "fault_report list"
    by (simp add: has_key_iff update_where_image)
  then have "fault_inv (sql_update_fault i ?f s)"
    using assms pk_update [of fr_id ?f] by (auto simp: fault_inv_def sql_update_fault_def set_update_where)
  then have "fault_inv (bump T_fault_history (sql_update_fault i ?f s))"
    by (simp add: fault_inv_def)
  then show ?thesis
    using assms False
    by (simp add: advanceFault_statements bind_h_def Let_def insert_fault_history_def
        sql_update_fault_def split: option.split sum.split)
qed


definition fault_added :: "auth_user \<Rightarrow> create_fault_dto \<Rightarrow> db \<Rightarrow> db" where
  "fault_added user dto s = snd (insert_fault (sub user) dto s)"

lemma fault_fresh: "fault_inv s \<Longrightarrow> fault_status_of s (seqs s T_fault_reports) = None"
  by (auto simp: fault_status_of_def fault_inv_def intro: row_by_fresh)

lemma fault_added_facts:
  assumes "has_key u_id (sub user) (users s)" "fault_inv s"
  defines "i \<equiv> seqs s T_fault_reports"
  shows "insert_fault (sub user) dto s = (Inr i, fault_added user dto s)"
    and "fault_inv (fault_added user dto s)"
    and "has_key fr_id i (fault_reports (fault_added user dto s))"
    and "fault_status_of (fault_added user dto s) = (fault_status_of s)(i := Some Fault_RECEIVED)"
    and "fault_owner (fault_added user dto s) = (fault_owner s)(i := Some (sub user))"
    and "fault_history (fault_added user dto s) = fault_history s"
    and "files (fault_added user dto s) = files s" "users (fault_added user dto s) = users s"
    and "\<And>t. seqs s t \<le> seqs (fault_added user dto s) t"
proof -
  have pk: "pk fr_id i (fault_reports s)" using assms by (simp add: fault_inv_def)
  have fresh: "row_by fr_id i (fault_reports s) = None" by (rule row_by_fresh [OF pk])
  define r where "r = \<lparr>fr_id = i, fr_user_id = sub user, fr_title = nf_title dto,
               fr_description = nf_description dto, fr_severity = nf_severity dto,
               fr_address = nf_address dto, fr_status = Fault_RECEIVED, fr_cancelled_at = None,
               fr_created_at = clock s, fr_updated_at = clock s\<rparr>"
  have r: "fr_id r = i" "fr_user_id r = sub user" "fr_status r = Fault_RECEIVED" by (simp_all add: r_def)
  have add: "fault_added user dto s = (bump T_fault_reports s)\<lparr>fault_reports := fault_reports s @ [r]\<rparr>"
    and ins: "insert_fault (sub user) dto s = (Inr i, fault_added user dto s)"
    using assms(1) by (simp_all add: fault_added_def insert_fault_def Let_def r_def i_def)
  show "insert_fault (sub user) dto s = (Inr i, fault_added user dto s)" by (rule ins)
  have "pk fr_id (i + 1) (fault_reports s @ [r])" by (rule pk_insert [OF pk r(1)])
  then show "fault_inv (fault_added user dto s)"
    using assms(1,2) r by (auto simp: add fault_inv_def has_key_iff i_def)
  show "fault_status_of (fault_added user dto s) = (fault_status_of s)(i := Some Fault_RECEIVED)"
    "fault_owner (fault_added user dto s) = (fault_owner s)(i := Some (sub user))"
    using r by (auto simp: fun_eq_iff fault_status_of_def fault_owner_def add row_by_append fresh split: option.splits)
qed (use assms in \<open>auto simp: fault_added_def insert_fault_def Let_def has_key_iff\<close>)

lemma createFault_cases:
  assumes inv: "fault_inv s" and run: "createFault user dto s = (x, s')"
  defines "i \<equiv> seqs s T_fault_reports"
  obtains (placed) v imgs where "x = Inr (v, imgs)" "has_key u_id (sub user) (users s)"
      "distinct (coalesce (nf_imageFileIds dto) [])"
      "\<forall>f \<in> set (coalesce (nf_imageFileIds dto) []). fault_image s f"
      "fv_id v = i" "fv_user_id v = sub user" "fv_status v = Fault_RECEIVED"
      "map av_file_id imgs = coalesce (nf_imageFileIds dto) []"
      "fault_status_of s' = (fault_status_of s)(i := Some Fault_RECEIVED)"
      "fault_owner s' = (fault_owner s)(i := Some (sub user))"
      "fault_log s' = (fault_log s)(i := fault_log s i @ [Fault_RECEIVED])"
      "fault_inv s'"
    | (failed) q where "\<not> is_ok x" "s' = s\<lparr>seqs := q\<rparr>" "\<And>t. seqs s t \<le> q t"
      "\<not> (has_key u_id (sub user) (users s) \<and> distinct (coalesce (nf_imageFileIds dto) []) \<and>
         (\<forall>f \<in> set (coalesce (nf_imageFileIds dto) []). fault_image s f))"
proof -
  define ids where "ids = coalesce (nf_imageFileIds dto) []"
  define body where "body = bind_h (insert_fault (sub user) dto) (\<lambda>faultId.
        bind_h (syncFaultAssets faultId ids) (\<lambda>_.
        bind_h (insert_fault_history faultId Fault_RECEIVED (sub user)) (\<lambda>_ s.
        (getFaultForUserWithExecutor s (sub user) faultId True, s))))"
  have tr: "with_transaction body s = (x, s')" using run by (simp add: createFault_def body_def ids_def)
  show thesis
  proof (cases "has_key u_id (sub user) (users s)")
    case False
    then have "body s = (Inl (SqlError ''23503''), bump T_fault_reports s)"
      by (simp add: body_def bind_h_def insert_fault_def)
    then show thesis
      using tr failed [of "seqs (bump T_fault_reports s)"] False
      by (auto simp: with_transaction_def)
  next
    case True
    note add = fault_added_facts [OF True inv, where dto = dto, folded i_def]
    let ?s1 = "fault_added user dto s"
    obtain y s2 where sync: "syncFaultAssets i ids ?s1 = (y, s2)" by fastforce
    have step: "image_step ?s1 s2" using image_step_sync [of ?s1 i ids] sync by simp
    have img: "fault_image ?s1 = fault_image s" by (simp add: fault_image_def add(7) fun_eq_iff)
    have mono: "seqs s t \<le> seqs s2 t" for t
      using add(9) [of t] step by (auto simp: image_step_def intro: order_trans)
    show thesis
    proof (cases y)
      case (Inl e)
      then have "body s = (Inl e, s2)" by (simp add: body_def bind_h_def add(1) sync)
      moreover have "\<not> (distinct ids \<and> (\<forall>f \<in> set ids. fault_image s f))"
        using sync_fault_ok_iff [of i ids ?s1] sync Inl add(3) img by auto
      ultimately show thesis
        using tr failed [of "seqs s2"] mono by (auto simp: with_transaction_def ids_def)
    next
      case (Inr u)
      note rest = fault_rest_cong [of s2 ?s1]
      have same: "fault_reports s2 = fault_reports ?s1" "users s2 = users s" "fault_history s2 = fault_history s"
        using rest step add by (auto simp: image_step_def)
      have h: "insert_fault_history i Fault_RECEIVED (sub user) s2 = (Inr (),
          (bump T_fault_history s2)\<lparr>fault_history := fault_history s @
          [\<lparr>h_id = seqs s2 T_fault_history, h_item_id = i, h_status = Fault_RECEIVED,
            h_changed_by = sub user\<rparr>]\<rparr>)"
        using True add(3) same by (simp add: insert_fault_history_def)
      define s3 where "s3 = (bump T_fault_history s2)\<lparr>fault_history := fault_history s @
          [\<lparr>h_id = seqs s2 T_fault_history, h_item_id = i, h_status = Fault_RECEIVED,
            h_changed_by = sub user\<rparr>]\<rparr>"
      have s3: "fault_reports s3 = fault_reports ?s1" "fault_assets s3 = fault_assets s2"
        by (simp_all add: s3_def same)
      obtain r where r: "row_by fr_id i (fault_reports s3) = Some r"
        using add(3) by (auto simp: s3 has_key_row_by)
      then have own: "fr_id r = i" "fr_user_id r = sub user" "fr_status r = Fault_RECEIVED"
        using fun_cong [OF add(4), of i] fun_cong [OF add(5), of i] row_by_Some [OF r]
        by (auto simp: fault_status_of_def fault_owner_def s3)
      have body: "body s = (Inr (fault_columns r (Some (has_rated_fault s3 i (sub user))) None, fault_images s3 i), s3)"
        using Inr h r by (simp add: body_def bind_h_def add(1) sync getFault_eq flip: s3_def)
      have ok: "distinct ids \<and> (\<forall>f \<in> set ids. fault_image s f)"
        using sync_fault_ok_iff [of i ids ?s1] sync Inr add(3) img by auto
      have "fault_asset_rows s3 i = indexed ids"
        using sync_fault_rows [of i ids ?s1 s2] sync Inr by (simp add: fault_asset_rows_def s3)
      then have imgs: "map av_file_id (fault_images s3 i) = ids" by (rule fault_images_indexed)
      have "fault_inv s2" using step add(2) by (simp add: image_step_def)
      then have inv3: "fault_inv s3"
        using add(3) same inv
        by (auto simp: s3_def fault_inv_def has_key_iff)
      have desk: "fault_status_of s3 = (fault_status_of s)(i := Some Fault_RECEIVED)"
        "fault_owner s3 = (fault_owner s)(i := Some (sub user))"
        using add(4,5) by (simp_all add: fault_status_of_def fault_owner_def s3 fun_eq_iff)
      have log: "fault_log s3 = (fault_log s)(i := fault_log s i @ [Fault_RECEIVED])"
        by (auto simp: fault_log_def s3_def fun_eq_iff)
      show thesis
        using placed [of "fault_columns r (Some (has_rated_fault s3 i (sub user))) None" "fault_images s3 i"]
          tr body True ok imgs desk log inv3 own
        by (auto simp: with_transaction_def fault_columns_def ids_def)
    qed
  qed
qed


lemma createFault_inv: "fault_inv s \<Longrightarrow> fault_inv (snd (createFault user dto s))"
proof -
  assume inv: "fault_inv s"
  obtain x s' where run: "createFault user dto s = (x, s')" by fastforce
  with inv have "fault_inv s'"
    by (cases rule: createFault_cases) (auto intro: fault_inv_seqs [OF inv])
  then show ?thesis using run by simp
qed

lemma cancelFault_inv: "fault_inv s \<Longrightarrow> fault_inv (snd (cancelFault user i s))"
proof -
  assume inv: "fault_inv s"
  obtain x s' where run: "cancelFault user i s = (x, s')" by fastforce
  with inv have "fault_inv s'"
    by (cases rule: cancelFault_cases) (use inv fault_moved_inv [OF inv] in auto)
  then show ?thesis using run by simp
qed

interpretation fault_desk:
  ticket_desk fault_inv fault_status_of fault_owner fault_log createFault cancelFault
    adminUpdateFaultStatus Fault_RECEIVED Fault_CANCELLED fault_legal
proof unfold_locales
  fix s :: db and user :: auth_user and c and v and s' and e and i and st and w
  show "\<exists>i. fault_status_of s i = None \<and>
          fault_status_of s' = (fault_status_of s)(i := Some Fault_RECEIVED) \<and>
          fault_owner s' = (fault_owner s)(i := Some (sub user)) \<and>
          fault_log s' = (fault_log s)(i := fault_log s i @ [Fault_RECEIVED])"
    if "fault_inv s" "createFault user c s = (Inr v, s')"
    using that fault_fresh [OF that(1)]
    by (cases rule: createFault_cases) (auto intro!: exI [of _ "seqs s T_fault_reports"])
  show "fault_status_of s' = fault_status_of s \<and> fault_owner s' = fault_owner s \<and> fault_log s' = fault_log s"
    if "fault_inv s" "createFault user c s = (Inl e, s')"
    using that by (cases rule: createFault_cases) auto
  show "fault_inv (snd (createFault user c s))" if "fault_inv s" using that by (rule createFault_inv)
  show "fault_inv (snd (cancelFault user i s))" if "fault_inv s" using that by (rule cancelFault_inv)
  show "fault_inv (snd (adminUpdateFaultStatus user i st s))" if "fault_inv s"
    using that by (rule advance_fault_inv)
  show "fault_status_of s i = Some Fault_RECEIVED \<and> fault_owner s i = Some (sub user) \<and>
      fault_status_of s' = (fault_status_of s)(i := Some Fault_CANCELLED) \<and> fault_owner s' = fault_owner s \<and>
      fault_log s' = (fault_log s)(i := fault_log s i @ [Fault_CANCELLED])"
    if "fault_inv s" "cancelFault user i s = (Inr w, s')"
    using that
  proof (cases rule: cancelFault_cases)
    case moved
    then show ?thesis using fault_moved_desk(1-3) [OF moved(2,3), of "fault_cancel_set (clock s)"] by simp
  qed simp
  show "s' = s" if "fault_inv s" "cancelFault user i s = (Inl e, s')"
    using that by (cases rule: cancelFault_cases) auto
  show "(\<exists>cur. fault_status_of s i = Some cur \<and> fault_legal cur st) \<and>
      fault_status_of s' = (fault_status_of s)(i := Some st) \<and> fault_owner s' = fault_owner s \<and>
      fault_log s' = (fault_log s)(i := fault_log s i @ [st])"
    if "fault_inv s" "has_key u_id (sub user) (users s)" "adminUpdateFaultStatus user i st s = (Inr w, s')"
    using that(2,3)
  proof (cases rule: advanceFault_cases)
    case (moved v cur)
    then show ?thesis
      using fault_moved_desk(1-3) [OF moved(2) that(2), of "fault_status_set st (clock s)"] by simp
  qed simp
  show "s' = s"
    if "fault_inv s" "has_key u_id (sub user) (users s)" "adminUpdateFaultStatus user i st s = (Inl e, s')"
    using that(2,3) by (cases rule: advanceFault_cases) auto
  show "fault_legal Fault_RECEIVED Fault_CANCELLED" by (simp add: fault_legal_def)
qed

section \<open>Editing a report\<close>

lemma image_step_sync_if: "image_step s (snd (sync_if (syncFaultAssets i) ids s))"
  by (simp add: sync_if_def image_step_sync split: option.split)

lemma fault_update_set_sel [simp]:
  "fr_id (fault_update_set dto t r) = fr_id r" "fr_user_id (fault_update_set dto t r) = fr_user_id r"
  "fr_status (fault_update_set dto t r) = fr_status r"
  by (simp_all add: fault_update_set_def)

lemma updateFault_frame:
  assumes inv: "fault_inv s" and run: "updateFault user i dto s = (x, s')"
  shows "fault_inv s' \<and> fault_status_of s' = fault_status_of s \<and> fault_owner s' = fault_owner s \<and>
     fault_log s' = fault_log s"
proof (cases "is_ok x")
  case False
  define body where "body = (\<lambda>s. case own_fault s user i of
         None \<Rightarrow> (Inl (NotFound ''Fault not found''), s)
       | Some current \<Rightarrow>
           if fr_status current \<noteq> Fault_RECEIVED
           then (Inl (BadRequest ''Fault can only be updated before processing starts''), s)
           else
             let s1 = sql_update_fault i
                   (fault_update_set dto (clock s)) s
             in bind_h (sync_if (syncFaultAssets i) (uf_imageFileIds dto))
                  (\<lambda>_ s2. (getFaultForUserWithExecutor s2 (sub user) i True, s2)) s1)"
  have tr: "with_transaction body s = (x, s')" using run by (simp add: updateFault_def body_def)
  have mono: "seqs s t \<le> seqs (snd (body s)) t" for t
    using image_step_sync_if [of "sql_update_fault i (fault_update_set dto (clock s)) s" i "uf_imageFileIds dto"]
    by (auto simp: body_def Let_def bind_h_read image_step_def sql_update_fault_def split: option.split)
  obtain e where "x = Inl e" using False by (cases x) auto
  then obtain s2 where "body s = (Inl e, s2)" "s' = s\<lparr>seqs := seqs s2\<rparr>"
    using tr by (auto elim: with_transaction_InlE)
  then show ?thesis using mono fault_inv_seqs [OF inv] by simp
next
  case True
  let ?f = "fault_update_set dto (clock s)"
  let ?s1 = "sql_update_fault i ?f s"
  obtain v where "x = Inr v" using True by (cases x) auto
  then have "sync_if (syncFaultAssets i) (uf_imageFileIds dto) ?s1 = (Inr (), s')"
    using with_transaction_InrE [OF run [unfolded updateFault_def \<open>x = Inr v\<close>]]
    by (auto simp: Let_def bind_h_def split: option.splits if_splits prod.splits sum.splits)
  then have step: "image_step ?s1 s'"
    using image_step_sync_if [of ?s1 i "uf_imageFileIds dto"] by simp
  have hk: "has_key fr_id j (update_where (\<lambda>fr. fr_id fr = i) ?f t) = has_key fr_id j t"
    for j and t :: "fault_report list"
    by (simp add: has_key_iff update_where_image)
  have "pk fr_id n (update_where (\<lambda>fr. fr_id fr = i) ?f t)" if "pk fr_id n t" for n t
    using that by (intro pk_update) simp_all
  then have "fault_inv ?s1"
    using inv hk by (auto simp: fault_inv_def sql_update_fault_def set_update_where)
  moreover have "fault_status_of ?s1 j = fault_status_of s j" "fault_owner ?s1 j = fault_owner s j"
    "fault_log ?s1 j = fault_log s j" for j
    by (cases "row_by fr_id j (fault_reports s)";
        simp add: fault_status_of_def fault_owner_def fault_log_def sql_update_fault_def row_by_update)+
  moreover have "fault_rest s' = fault_rest ?s1" using step by (simp add: image_step_def)
  note fault_rest_cong(1,3) [OF this]
  ultimately show ?thesis
    using step by (simp add: image_step_def fault_status_of_def fault_owner_def fault_log_def fun_eq_iff)
qed


lemma severity_rank_eq: "severity_rank a = severity_rank b \<longleftrightarrow> a = b"
  using severity_rank_inj by blast

section \<open>Reachable states\<close>

text \<open>
  The operations on faults, interleaved with writes of the other components, which leave the fault
  tables alone.
\<close>

definition fault_tables :: "db \<Rightarrow> fault_report list \<times> fault_status history list \<times> fault_asset list" where
  "fault_tables s = (fault_reports s, fault_history s, fault_assets s)"

inductive fault_step :: "db \<Rightarrow> db \<Rightarrow> bool" where
  create: "fault_step s (snd (createFault user dto s))"
| edit: "fault_step s (snd (updateFault user i edits s))"
| cancel: "fault_step s (snd (cancelFault user i s))"
| advance: "has_key u_id (sub admin) (users s) \<Longrightarrow> fault_step s (snd (adminUpdateFaultStatus admin i st s))"
| elsewhere: "fault_tables s' = fault_tables s \<Longrightarrow> seqs s T_fault_reports \<le> seqs s' T_fault_reports \<Longrightarrow>
    (\<And>i. has_key u_id i (users s) \<Longrightarrow> has_key u_id i (users s')) \<Longrightarrow> fault_step s s'"

lemma fault_step_audited: "fault_step s s' \<Longrightarrow> fault_desk.audited s \<Longrightarrow> fault_desk.audited s'"
proof (induction rule: fault_step.induct)
  case (create s user dto)
  then show ?case using fault_desk.create_audited prod.collapse by metis
next
  case (edit s user i edits)
  obtain x s' where run: "updateFault user i edits s = (x, s')" by fastforce
  then show ?case
    using edit updateFault_frame [OF _ run] by (simp add: fault_desk.audited_def)
next
  case (cancel s user i)
  then show ?case using fault_desk.cancel_audited prod.collapse by metis
next
  case (advance admin s i st)
  then show ?case using fault_desk.advance_audited prod.collapse by metis
next
  case (elsewhere s' s)
  then have "fault_inv s" by (simp add: fault_desk.audited_def)
  then have "fault_inv s'"
    using elsewhere.hyps by (auto simp: fault_inv_def fault_tables_def intro: pk_mono)
  moreover have "fault_status_of s' = fault_status_of s" "fault_log s' = fault_log s"
    using elsewhere.hyps(1) by (simp_all add: fault_tables_def fault_status_of_def fault_log_def fun_eq_iff)
  ultimately show ?case using elsewhere.prems by (simp add: fault_desk.audited_def)
qed

lemma legal_terminal:
  assumes "fault_transitions st = []" "successively fault_legal (st # xs)"
  shows "set xs \<subseteq> {st}"
  using assms(2)
proof (induction xs)
  case Nil
  then show ?case by simp
next
  case (Cons a xs)
  then have "a = st" using assms(1) by (simp add: fault_legal_def)
  then show ?case using Cons by simp
qed

lemma legal_path:
  assumes "successively fault_legal past"
  shows "\<forall>before cur st after. past = before @ cur # st # after \<longrightarrow> cur = st \<or> st \<in> set (fault_transitions cur)"
    and "\<forall>before st after. past = before @ st # after \<longrightarrow> st = Fault_FINISHED \<or> st = Fault_CANCELLED \<longrightarrow> set after \<subseteq> {st}"
proof -
  show "\<forall>before cur st after. past = before @ cur # st # after \<longrightarrow> cur = st \<or> st \<in> set (fault_transitions cur)"
    using assms by (auto simp: successively_append_iff fault_legal_def)
  have "set after \<subseteq> {st}" if "past = before @ st # after" "st = Fault_FINISHED \<or> st = Fault_CANCELLED" for before st after
    by (rule legal_terminal) (use assms that in \<open>auto simp: successively_append_iff\<close>)
  then show "\<forall>before st after. past = before @ st # after \<longrightarrow> st = Fault_FINISHED \<or> st = Fault_CANCELLED \<longrightarrow> set after \<subseteq> {st}"
    by blast
qed

lemma fault_trail:
  assumes "fault_desk.audited s" and "fr \<in> set (fault_reports s)"
  shows "trail fault_legal Fault_RECEIVED (Some (fr_status fr)) (fault_log s (fr_id fr))"
proof -
  have "pk fr_id (seqs s T_fault_reports) (fault_reports s)"
    using assms(1) by (simp add: fault_desk.audited_def fault_inv_def)
  then have "row_by fr_id (fr_id fr) (fault_reports s) = Some fr" using assms(2) by (rule pk_row_by)
  then have "fault_status_of s (fr_id fr) = Some (fr_status fr)" by (simp add: fault_status_of_def)
  then show ?thesis using assms(1) unfolding fault_desk.audited_def by metis
qed

section \<open>Statement by statement\<close>

text \<open>
  The statements of the requests on faults in any order. \<open>createFault\<close> and \<open>updateFault\<close> are transactions (and an
  edit writes no status); a change of the status may stop anywhere, which is what \<open>breaks\<close> is for.
\<close>

inductive fault_statement :: "fault_status desk_run \<Rightarrow> fault_status desk_run \<Rightarrow> bool" where
  create: "fault_statement r (r\<lparr>ru_db := snd (createFault user dto (ru_db r))\<rparr>)"
| edit: "fault_statement r (r\<lparr>ru_db := snd (updateFault user i edits (ru_db r))\<rparr>)"
| cancel: "cancel_fault_check (ru_db r) user i = Inr () \<Longrightarrow> ru_open r k = None \<Longrightarrow>
    fault_statement r (begin_change k \<lparr>ch_item = i, ch_status = Fault_CANCELLED, ch_by = sub user, ch_cancel = True,
      ch_written = False\<rparr> r)"
| advance: "advance_fault_check (ru_db r) i st = Inr () \<Longrightarrow> ru_open r k = None \<Longrightarrow>
    fault_statement r (begin_change k \<lparr>ch_item = i, ch_status = st, ch_by = sub (admin :: auth_user), ch_cancel = False,
      ch_written = False\<rparr> r)"
| update: "ru_open r k = Some c \<Longrightarrow> \<not> ch_written c \<Longrightarrow>
    fault_statement r (written_change k c
      (if ch_cancel c then cancel_fault_update (ch_item c) (ru_db r)
       else advance_fault_update (ch_item c) (ch_status c) (ru_db r)) r)"
| history: "ru_open r k = Some c \<Longrightarrow> ch_written c \<Longrightarrow>
    insert_fault_history (ch_item c) (ch_status c) (ch_by c) (ru_db r) = (Inr (), s') \<Longrightarrow>
    fault_statement r (recorded_change k s' r)"
| breaks: "ru_open r k = Some c \<Longrightarrow> fault_statement r (broken_change k c r)"
| elsewhere: "fault_tables s' = fault_tables (ru_db r) \<Longrightarrow>
    seqs (ru_db r) T_fault_reports \<le> seqs s' T_fault_reports \<Longrightarrow>
    (\<And>i. has_key u_id i (users (ru_db r)) \<Longrightarrow> has_key u_id i (users s')) \<Longrightarrow> fault_statement r (r\<lparr>ru_db := s'\<rparr>)"

abbreviation fault_ledger :: "fault_status desk_run \<Rightarrow> fault_status ledger" where
  "fault_ledger \<equiv> ledger_of fault_status_of fault_log"

text \<open>A cancellation is under way to the status \<open>cancelled\<close>.\<close>

definition fault_changes_ok :: "fault_status desk_run \<Rightarrow> bool" where
  "fault_changes_ok r \<longleftrightarrow> fault_inv (ru_db r) \<and> ledger_ok fault_legal Fault_RECEIVED (fault_ledger r) \<and>
     (\<forall>k c. ru_open r k = Some c \<longrightarrow> ch_cancel c \<longrightarrow> ch_status c = Fault_CANCELLED)"

lemma fault_update_desk:
  assumes "fault_inv s" "fault_status_of s i \<noteq> None"
    and f: "\<And>r. fr_id (f r) = fr_id r" "\<And>r. fr_user_id (f r) = fr_user_id r" "\<And>r. fr_status (f r) = st"
  shows "fault_inv (sql_update_fault i f s)"
    and "fault_status_of (sql_update_fault i f s) = (fault_status_of s)(i := Some st)"
    and "fault_log (sql_update_fault i f s) = fault_log s"
proof -
  have "has_key fr_id j (update_where (\<lambda>fr. fr_id fr = i) f t) = has_key fr_id j t" for j and t :: "fault_report list"
    by (simp add: has_key_iff update_where_image f)
  then show "fault_inv (sql_update_fault i f s)"
    using assms pk_update [of fr_id f] by (auto simp: fault_inv_def sql_update_fault_def set_update_where)
  obtain r where "row_by fr_id i (fault_reports s) = Some r"
    using assms(2) by (auto simp: fault_status_of_def)
  then show "fault_status_of (sql_update_fault i f s) = (fault_status_of s)(i := Some st)"
    by (auto simp: fault_status_of_def sql_update_fault_def row_by_update f fun_eq_iff option.map_comp comp_def
        dest: row_by_Some intro!: map_option_cong)
  show "fault_log (sql_update_fault i f s) = fault_log s"
    by (simp add: fault_log_def sql_update_fault_def fun_eq_iff)
qed

lemma fault_history_desk:
  assumes "fault_inv s" "insert_fault_history i st by s = (Inr (), s')"
  shows "fault_inv s'" "fault_status_of s' = fault_status_of s"
    and "fault_log s' = (fault_log s)(i := fault_log s i @ [st])"
  using assms by (auto simp: insert_fault_history_def Let_def fault_inv_def fault_status_of_def fault_log_def fun_eq_iff
      split: if_splits)

lemma fault_checks:
  assumes "fault_inv s"
  shows "cancel_fault_check s user i = Inr () \<Longrightarrow> fault_status_of s i = Some Fault_RECEIVED"
    and "advance_fault_check s i st = Inr () \<Longrightarrow> \<exists>cur. fault_status_of s i = Some cur \<and> fault_legal cur st"
proof -
  have "assertValidFaultTransition cur st = Inr () \<Longrightarrow> fault_legal cur st" for cur
    using transition_ok_iff [of cur st] by simp
  then show "advance_fault_check s i st = Inr () \<Longrightarrow> \<exists>cur. fault_status_of s i = Some cur \<and> fault_legal cur st"
    by (auto simp: advance_fault_check_def fault_status_of_def split: option.splits)
  show "cancel_fault_check s user i = Inr () \<Longrightarrow> fault_status_of s i = Some Fault_RECEIVED"
    using own_fault_iff [OF assms, of user i]
    by (auto simp: cancel_fault_check_def fault_status_of_def split: option.splits if_splits)
qed

text \<open>Every statement does to the ledger what a ledger allows.\<close>

lemma fault_statement_ledger:
  assumes "fault_statement r r'" and ok: "fault_changes_ok r"
  shows "fault_inv (ru_db r') \<and> (fault_ledger r' = fault_ledger r \<or>
      ledger_step fault_legal Fault_RECEIVED (fault_ledger r) (fault_ledger r')) \<and>
    (\<forall>k c. ru_open r' k = Some c \<longrightarrow> ch_cancel c \<longrightarrow> ch_status c = Fault_CANCELLED)"
proof -
  have inv: "fault_inv (ru_db r)" and ledger: "ledger_ok fault_legal Fault_RECEIVED (fault_ledger r)"
    and cancels: "ru_open r k = Some c \<Longrightarrow> ch_cancel c \<Longrightarrow> ch_status c = Fault_CANCELLED" for k c
    using ok by (auto simp: fault_changes_ok_def)
  have known: "fault_status_of (ru_db r) (ch_item c) \<noteq> None" if "ru_open r k = Some c" for k c
    using ledger changes_on_mem [of "ru_open r" k c, OF that]
    by (auto simp: ledger_ok_def ledger_of_def ticket_ok_def dest!: spec [of _ "ch_item c"])
  from assms(1) show ?thesis
  proof (cases rule: fault_statement.cases)
    case (create user dto)
    obtain x s' where run: "createFault user dto (ru_db r) = (x, s')" by fastforce
    show ?thesis
    proof (cases x)
      case (Inl e)
      then show ?thesis
        using fault_desk.create_fail [OF inv, of user dto e s'] createFault_inv [OF inv, of user dto] run cancels
        by (simp add: create ledger_of_def)
    next
      case (Inr v)
      then obtain i where i: "fault_status_of (ru_db r) i = None"
          "fault_status_of s' = (fault_status_of (ru_db r))(i := Some Fault_RECEIVED)"
          "fault_log s' = (fault_log (ru_db r))(i := fault_log (ru_db r) i @ [Fault_RECEIVED])"
        using fault_desk.create_ok [OF inv, of user dto v s'] run by auto
      have "ledger_step fault_legal Fault_RECEIVED (fault_ledger r) (fault_ledger r')"
        using ledger_step.opened [of "fault_ledger r" i fault_legal Fault_RECEIVED] i run
        by (simp add: create ledger_of_def)
      then show ?thesis using createFault_inv [OF inv, of user dto] cancels run by (simp add: create)
    qed
  next
    case (edit user i edits)
    obtain x s' where run: "updateFault user i edits (ru_db r) = (x, s')" by fastforce
    then show ?thesis using updateFault_frame [OF inv run] cancels by (simp add: edit ledger_of_def)
  next
    case (cancel user i k)
    then show ?thesis
      using ledger_step.reads [where l = "fault_ledger r" and legal = fault_legal and initial = Fault_RECEIVED and k = k and
          c = "\<lparr>ch_item = i, ch_status = Fault_CANCELLED, ch_by = sub user, ch_cancel = True, ch_written = False\<rparr>"]
        fault_checks(1) [OF inv cancel(2)] inv cancels
      by (auto simp: run_defs fault_legal_def)
  next
    case (advance i st k admin)
    then show ?thesis
      using ledger_step.reads [where l = "fault_ledger r" and legal = fault_legal and initial = Fault_RECEIVED and k = k and
          c = "\<lparr>ch_item = i, ch_status = st, ch_by = sub admin, ch_cancel = False, ch_written = False\<rparr>"]
        fault_checks(2) [OF inv advance(2)] inv cancels
      by (auto simp: run_defs)
  next
    case (update k c)
    let ?s = "if ch_cancel c then cancel_fault_update (ch_item c) (ru_db r)
        else advance_fault_update (ch_item c) (ch_status c) (ru_db r)"
    have "fault_inv ?s \<and> fault_status_of ?s = (fault_status_of (ru_db r))(ch_item c \<mapsto> ch_status c) \<and>
        fault_log ?s = fault_log (ru_db r)"
      using fault_update_desk [OF inv known [OF update(2)], of "fault_cancel_set (clock (ru_db r))" Fault_CANCELLED]
        fault_update_desk [OF inv known [OF update(2)], of "fault_status_set (ch_status c) (clock (ru_db r))" "ch_status c"]
        cancels [OF update(2)]
      by (simp add: cancel_fault_update_def advance_fault_update_def)
    then show ?thesis
      using ledger_step.writes [of "fault_ledger r" k c fault_legal Fault_RECEIVED] update(2,3) cancels
      by (auto simp: update(1) run_defs)
  next
    case (history k c s')
    then show ?thesis
      using ledger_step.records [of "fault_ledger r" k c fault_legal Fault_RECEIVED] fault_history_desk [OF inv history(4)] cancels
      by (auto simp: run_defs)
  next
    case (breaks k c)
    then show ?thesis
      using ledger_step.breaks [of "fault_ledger r" k c fault_legal Fault_RECEIVED] inv cancels by (auto simp: run_defs)
  next
    case (elsewhere s')
    then have "fault_inv s'" using inv by (auto simp: fault_inv_def fault_tables_def intro: pk_mono)
    moreover have "fault_status_of s' = fault_status_of (ru_db r)" "fault_log s' = fault_log (ru_db r)"
      using elsewhere(2) by (simp_all add: fault_tables_def fault_status_of_def fault_log_def fun_eq_iff)
    ultimately show ?thesis using cancels by (simp add: elsewhere ledger_of_def)
  qed
qed

lemma fault_statements_ok:
  assumes "fault_statement\<^sup>*\<^sup>* (idle_run empty_db) r"
  shows "fault_changes_ok r"
  using assms
proof (induction rule: rtranclp_induct)
  case base
  show ?case
    using idle_ledger_ok [of fault_legal Fault_RECEIVED fault_status_of empty_db fault_log]
    by (simp add: fault_changes_ok_def idle_run_def fault_inv_def empty_db_def fault_status_of_def fault_log_def)
next
  case (step r r')
  then show ?case
    using fault_statement_ledger [OF step(2,3)] ledger_step_ok by (fastforce simp: fault_changes_ok_def)
qed

text \<open>
  C7: Take the statements of any requests on faults in any order, from an empty database: the \<open>SELECT\<close>, the \<open>UPDATE\<close>
  and the \<open>INSERT\<close> of a cancellation or of an administrator's status change with those of other requests in
  between, or never reached. When no change of a fault is under way and none broke off after its \<open>UPDATE\<close>, the
  fault's status is in its history. If moreover no two changes of the fault were ever under way at once, its
  history is a path of the transition table from \<open>received\<close> to its status, and once it holds \<open>finished\<close> or
  \<open>cancelled\<close> it holds nothing else afterwards: a closed fault stays closed. (Two changes at once can close a
  fault twice: theory \<open>Races\<close>.)
\<close>

theorem fault_history_legal:
  assumes "fault_statement\<^sup>*\<^sup>* (idle_run empty_db) r" and "fr \<in> set (fault_reports (ru_db r))"
    and "changes_on (ru_open r) (fr_id fr) = {}" and "fr_id fr \<notin> ru_broken r"
    and "past = fault_log (ru_db r) (fr_id fr)"
  shows "fr_status fr \<in> set past \<and>
     (fr_id fr \<notin> ru_overlapped r \<longrightarrow>
        hd past = Fault_RECEIVED \<and> last past = fr_status fr \<and>
        (\<forall>before cur st after. past = before @ cur # st # after \<longrightarrow> cur = st \<or> st \<in> set (fault_transitions cur)) \<and>
        (\<forall>before st after. past = before @ st # after \<longrightarrow>
           st = Fault_FINISHED \<or> st = Fault_CANCELLED \<longrightarrow> set after \<subseteq> {st}))"
proof -
  have ok: "fault_inv (ru_db r)" "ledger_ok fault_legal Fault_RECEIVED (fault_ledger r)"
    using fault_statements_ok [OF assms(1)] by (auto simp: fault_changes_ok_def)
  have "row_by fr_id (fr_id fr) (fault_reports (ru_db r)) = Some fr"
    using ok(1) assms(2) pk_row_by by (auto simp: fault_inv_def)
  then have status: "fault_status_of (ru_db r) (fr_id fr) = Some (fr_status fr)" by (simp add: fault_status_of_def)
  note settled = settled_ticket [OF ok(2) assms(3,4)]
  have "hd past = Fault_RECEIVED \<and> last past = fr_status fr \<and> successively fault_legal past"
    if "fr_id fr \<notin> ru_overlapped r" using settled(2) [OF that] status assms(5) by (simp add: trail_def)
  moreover have "fr_status fr \<in> set past" using settled(1) [OF status] assms(5) by simp
  ultimately show ?thesis using legal_path by blast
qed

text \<open>An administrator's status change succeeds exactly when the fault exists and the table allows
  the move (or the status is already the requested one); then the fault has that status and its history
  ends with it, and otherwise nothing changes at all.\<close>

theorem adminUpdateFaultStatus_effect:
  assumes "has_key u_id (sub admin) (users s)" and "adminUpdateFaultStatus admin i st s = (x, s')"
  shows "(is_ok x \<longleftrightarrow> (\<exists>cur. fault_status_of s i = Some cur \<and> (cur = st \<or> st \<in> set (fault_transitions cur)))) \<and>
     (is_ok x \<longrightarrow> fault_status_of s' = (fault_status_of s)(i := Some st) \<and>
        fault_log s' = (fault_log s)(i := fault_log s i @ [st])) \<and>
     (\<not> is_ok x \<longrightarrow> s' = s) \<and> fault_owner s' = fault_owner s"
  using assms
proof (cases rule: advanceFault_cases)
  case (moved v cur)
  then show ?thesis
    using fault_moved_desk(1-3) [OF moved(2) assms(1), of "fault_status_set st (clock s)"]
    by (auto simp: fault_legal_def)
next
  case refused
  then show ?thesis by (auto simp: fault_legal_def)
qed

text \<open>A sequence of administrator requests on one fault, each handled in the state the last one left.\<close>

fun admin_run :: "auth_user \<Rightarrow> int \<Rightarrow> fault_status list \<Rightarrow> db \<Rightarrow> bool list \<times> db" where
  "admin_run admin i [] s = ([], s)"
| "admin_run admin i (st # sts) s =
     (let (x, s1) = adminUpdateFaultStatus admin i st s; (xs, s2) = admin_run admin i sts s1
      in (is_ok x # xs, s2))"

text \<open>The statuses still ahead of a fault on its way to \<open>finished\<close>.\<close>

fun way_to_finish :: "fault_status \<Rightarrow> fault_status list" where
  "way_to_finish Fault_RECEIVED = [Fault_ASSIGNED, Fault_ON_THE_WAY, Fault_IN_PROGRESS, Fault_FINISHED]"
| "way_to_finish Fault_ASSIGNED = [Fault_ON_THE_WAY, Fault_IN_PROGRESS, Fault_FINISHED]"
| "way_to_finish Fault_ON_THE_WAY = [Fault_IN_PROGRESS, Fault_FINISHED]"
| "way_to_finish Fault_IN_PROGRESS = [Fault_FINISHED]"
| "way_to_finish st = []"

lemma way_to_finish_legal:
  "cur \<noteq> Fault_CANCELLED \<Longrightarrow> successively fault_legal (cur # way_to_finish cur) \<and>
     last (cur # way_to_finish cur) = Fault_FINISHED"
  by (cases cur) (simp_all add: fault_legal_def)

text \<open>No path of the table reaches \<open>finished\<close> in fewer requests.\<close>

lemma way_to_finish_step: "fault_legal a b \<Longrightarrow> b \<noteq> Fault_CANCELLED \<Longrightarrow> length (way_to_finish a) \<le> Suc (length (way_to_finish b))"
  by (cases a; cases b) (simp_all add: fault_legal_def)

lemma way_to_finish_shortest:
  assumes "successively fault_legal (cur # sts)" "last (cur # sts) = Fault_FINISHED"
  shows "cur \<noteq> Fault_CANCELLED \<and> length (way_to_finish cur) \<le> length sts"
  using assms
proof (induction sts arbitrary: cur)
  case Nil
  then show ?case by simp
next
  case (Cons st sts)
  then have ahead: "st \<noteq> Fault_CANCELLED" "length (way_to_finish st) \<le> length sts" and step: "fault_legal cur st"
    by (auto split: if_splits)
  have "cur \<noteq> Fault_CANCELLED" using step ahead(1) by (auto simp: fault_legal_def)
  then show ?case using way_to_finish_step [OF step ahead(1)] ahead(2) by simp
qed

lemma admin_run_accepted:
  assumes "has_key u_id (sub admin) (users s)" and "fault_status_of s i = Some cur"
    and "successively fault_legal (cur # sts)" and "admin_run admin i sts s = (xs, s')"
  shows "xs = replicate (length sts) True \<and> fault_status_of s' = (fault_status_of s)(i := Some (last (cur # sts))) \<and>
     fault_log s' i = fault_log s i @ sts"
  using assms
proof (induction sts arbitrary: s cur xs)
  case Nil
  then show ?case by (simp add: fun_upd_idem)
next
  case (Cons st sts)
  obtain x s1 where one: "adminUpdateFaultStatus admin i st s = (x, s1)" by fastforce
  obtain ys where rest: "admin_run admin i sts s1 = (ys, s')" "xs = is_ok x # ys"
    using Cons.prems(4) one by (auto split: prod.splits)
  from Cons.prems(1) one show ?case
  proof (cases rule: advanceFault_cases)
    case (moved v c)
    note eqs = fault_moved_eq(2) [OF moved(2) Cons.prems(1), of "fault_status_set st (clock s)"]
    note desk = fault_moved_desk(1,3) [OF moved(2) Cons.prems(1), of "fault_status_set st (clock s)" st]
    have "has_key u_id (sub admin) (users s1)"
      using Cons.prems(1) by (simp add: moved(5) eqs)
    moreover have "fault_status_of s1 i = Some st" using desk(1) by (simp add: moved(5))
    ultimately show ?thesis
      using Cons.IH [OF _ _ _ rest(1), of st] Cons.prems(3) desk rest(2) moved(1) by (auto simp: moved(5))
  next
    case refused
    then show ?thesis using Cons.prems(2,3) by auto
  qed
qed

text \<open>C34: a fault that is not cancelled can always be brought to its end: an administrator who requests the
  remaining statuses of the table one after another has every request accepted and the fault ends
  \<open>finished\<close> after at most four of them, its history extended by exactly these statuses; and no
  path of the table gets there with fewer requests.\<close>

theorem fault_can_finish:
  assumes "has_key u_id (sub admin) (users s)" and "fault_status_of s i = Some cur" and "cur \<noteq> Fault_CANCELLED"
    and "admin_run admin i (way_to_finish cur) s = (xs, s')"
  shows "list_all id xs \<and> length xs \<le> 4 \<and> fault_status_of s' = (fault_status_of s)(i := Some Fault_FINISHED) \<and>
     fault_log s' i = fault_log s i @ way_to_finish cur \<and>
     (\<forall>sts. successively fault_legal (cur # sts) \<longrightarrow> last (cur # sts) = Fault_FINISHED \<longrightarrow> length xs \<le> length sts)"
proof -
  have "length (way_to_finish cur) \<le> 4" by (cases cur) simp_all
  then show ?thesis
    using admin_run_accepted [OF assms(1,2) _ assms(4)] way_to_finish_legal [OF assms(3)] way_to_finish_shortest
    by (simp add: list_all_iff in_set_replicate)
qed

text \<open>Reporting a fault succeeds exactly when the caller's row exists and the attached ids are distinct
  ids of uploaded product images with an image type; then the answer is a new fault of the caller in
  status \<open>received\<close> that shows exactly those images in the given order, and otherwise no table changes.\<close>

theorem createFault_effect:
  assumes "fault_inv s" and "createFault user dto s = (x, s')"
  shows "(is_ok x \<longleftrightarrow> has_key u_id (sub user) (users s) \<and> distinct (coalesce (nf_imageFileIds dto) []) \<and>
        (\<forall>f \<in> set (coalesce (nf_imageFileIds dto) []). fault_image s f)) \<and>
     (case x of
        Inl e \<Rightarrow> s'\<lparr>seqs := seqs s\<rparr> = s
      | Inr (v, images) \<Rightarrow> fault_status_of s (fv_id v) = None \<and> fv_user_id v = sub user \<and>
          fv_status v = Fault_RECEIVED \<and>
          fault_status_of s' = (fault_status_of s)(fv_id v := Some Fault_RECEIVED) \<and>
          map av_file_id images = coalesce (nf_imageFileIds dto) [])"
  using assms
proof (cases rule: createFault_cases)
  case placed
  then show ?thesis using fault_fresh [OF assms(1)] by simp
next
  case failed
  then show ?thesis by (cases x) auto
qed

lemma listMyFaults_eq:
  "map fst (listMyFaults s user q) =
     map (\<lambda>fr. fault_columns fr (Some (has_rated_fault s (fr_id fr) (sub user))) None)
       (paged (page_query.truncate q) 20 100 (sort_key (fault_order q)
          (filter (\<lambda>fr. fr_user_id fr = sub user \<and> fault_where q fr) (fault_reports s))))"
  by (simp add: listMyFaults_def attachFaultAssets_eq comp_def)

text \<open>\<open>GET /faults/me\<close> shows faults of the caller only; sorted by severity in descending order they
  come most severe first, and among equals the newest first.\<close>

theorem listMyFaults_order:
  "list_all (\<lambda>v. fv_user_id v = sub user) (map fst (listMyFaults s user q)) \<and>
   sorted_wrt (\<lambda>a b. fv_severity b < fv_severity a \<or>
       (fv_severity a = fv_severity b \<and> fv_created_at b \<le> fv_created_at a))
     (map fst (listMyFaults s user
        (q\<lparr>lf_sortBy := Some FaultSort_SEVERITY, lf_sortDirection := Some Dir_DESC\<rparr>)))"
proof
  show "list_all (\<lambda>v. fv_user_id v = sub user) (map fst (listMyFaults s user q))"
    unfolding listMyFaults_eq list_all_iff
    by (auto simp: fault_columns_def dest!: subsetD [OF paged_subset])
  let ?q = "q\<lparr>lf_sortBy := Some FaultSort_SEVERITY, lf_sortDirection := Some Dir_DESC\<rparr>"
  let ?rows = "paged (page_query.truncate ?q) 20 100 (sort_key (fault_order ?q)
          (filter (\<lambda>fr. fr_user_id fr = sub user \<and> fault_where ?q fr) (fault_reports s)))"
  have "sorted (map (fault_order ?q) ?rows)" by (rule paged_sorted) simp
  then have "sorted_wrt (\<lambda>a b. fault_order ?q a \<le> fault_order ?q b) ?rows" by (simp add: sorted_map)
  then have "sorted_wrt (\<lambda>a b. fr_severity b < fr_severity a \<or>
       (fr_severity a = fr_severity b \<and> fr_created_at b \<le> fr_created_at a)) ?rows"
    by (rule sorted_wrt_mono_rel [rotated])
       (auto simp: fault_order_def buildFaultOrderClause_def in_direction_def less_eq_prod_def
         less_fault_severity_def severity_rank_eq)
  then show "sorted_wrt (\<lambda>a b. fv_severity b < fv_severity a \<or>
       (fv_severity a = fv_severity b \<and> fv_created_at b \<le> fv_created_at a))
     (map fst (listMyFaults s user ?q))"
    unfolding listMyFaults_eq by (simp add: sorted_wrt_map fault_columns_def)
qed


section \<open>Witnesses\<close>

definition sample_fault_dto :: create_fault_dto where
  "sample_fault_dto = \<lparr>nf_title = ''AC'', nf_description = ''leak'', nf_severity = Severity_URGENT,
     nf_address = ''Giza'', nf_imageFileIds = Some [8, 7]\<rparr>"

definition fault_db :: db where
  "fault_db = snd (createFault sample_customer sample_fault_dto sample_db)"

lemma sample_fault_inv: "fault_inv sample_db"
  by code_simp

theorem createFault_effect_witness:
  "\<exists>v images s'. createFault sample_customer sample_fault_dto sample_db = (Inr (v, images), s') \<and>
     map av_file_id images = [8, 7]"
proof -
  obtain x s' where run: "createFault sample_customer sample_fault_dto sample_db = (x, s')" by fastforce
  have "is_ok (fst (createFault sample_customer sample_fault_dto sample_db))" by code_simp
  then show ?thesis
    using createFault_effect [OF sample_fault_inv run] run
    by (cases x) (auto simp: sample_fault_dto_def)
qed

theorem adminUpdateFaultStatus_effect_witness:
  "is_ok (fst (adminUpdateFaultStatus sample_admin 1 Fault_ASSIGNED fault_db)) \<and>
   \<not> is_ok (fst (adminUpdateFaultStatus sample_admin 1 Fault_FINISHED fault_db))"
proof -
  have adm: "has_key u_id (sub sample_admin) (users fault_db)" by code_simp
  have st: "fault_status_of fault_db 1 = Some Fault_RECEIVED" by code_simp
  have "is_ok (fst (adminUpdateFaultStatus sample_admin 1 st fault_db)) \<longleftrightarrow>
      (Fault_RECEIVED = st \<or> st \<in> set (fault_transitions Fault_RECEIVED))" for st
    using adminUpdateFaultStatus_effect [OF adm prod.collapse [symmetric], of 1 st] st by simp
  then show ?thesis by simp
qed

definition assign_change :: "fault_status change" where
  "assign_change = \<lparr>ch_item = 1, ch_status = Fault_ASSIGNED, ch_by = sub sample_admin, ch_cancel = False, ch_written = False\<rparr>"

definition assigned_db :: db where
  "assigned_db = snd (insert_fault_history 1 Fault_ASSIGNED (sub sample_admin) (advance_fault_update 1 Fault_ASSIGNED fault_db))"

definition assigned_run :: "fault_status desk_run" where
  "assigned_run = recorded_change 0 assigned_db
     (written_change 0 assign_change (advance_fault_update 1 Fault_ASSIGNED fault_db)
       (begin_change 0 assign_change (idle_run fault_db)))"

lemma fault_db_run: "fault_statement\<^sup>*\<^sup>* (idle_run empty_db) (idle_run fault_db)"
proof -
  have "fault_statement (idle_run empty_db) (idle_run empty_db\<lparr>ru_db := sample_db\<rparr>)"
    by (rule fault_statement.elsewhere) (simp_all add: idle_run_def sample_db_def fault_tables_def empty_db_def has_key_def)
  moreover have "fault_statement (idle_run sample_db) (idle_run sample_db\<lparr>ru_db := fault_db\<rparr>)"
    unfolding fault_db_def using fault_statement.create [of "idle_run sample_db"] by (simp add: idle_run_def)
  ultimately show ?thesis by (simp add: idle_run_def)
qed

lemma assigned_run_steps: "fault_statement\<^sup>*\<^sup>* (idle_run empty_db) assigned_run"
proof -
  let ?r1 = "begin_change 0 assign_change (idle_run fault_db)"
  let ?r2 = "written_change 0 assign_change (advance_fault_update 1 Fault_ASSIGNED fault_db) ?r1"
  have "advance_fault_check fault_db 1 Fault_ASSIGNED = Inr ()" by code_simp
  then have "fault_statement (idle_run fault_db) ?r1"
    unfolding assign_change_def by (intro fault_statement.advance) (simp_all add: idle_run_def)
  moreover have "fault_statement ?r1 ?r2"
    using fault_statement.update [of ?r1 0 assign_change] by (simp add: run_defs assign_change_def)
  moreover have "fst (insert_fault_history 1 Fault_ASSIGNED (sub sample_admin) (advance_fault_update 1 Fault_ASSIGNED fault_db)) = Inr ()"
    by code_simp
  then have "fault_statement ?r2 assigned_run"
    using fault_statement.history [of ?r2 0 "assign_change\<lparr>ch_written := True\<rparr>"
        assigned_db]
    by (simp add: assigned_run_def run_defs assign_change_def prod_eq_iff assigned_db_def)
  ultimately show ?thesis using fault_db_run by (meson rtranclp.rtrancl_into_rtrancl)
qed

theorem fault_history_legal_witness:
  "\<exists>r fr. fault_statement\<^sup>*\<^sup>* (idle_run empty_db) r \<and> fr \<in> set (fault_reports (ru_db r)) \<and>
     fault_log (ru_db r) (fr_id fr) = [Fault_RECEIVED, Fault_ASSIGNED] \<and> fr_status fr = Fault_ASSIGNED"
proof -
  have "map (\<lambda>fr. fault_log assigned_db (fr_id fr)) (fault_reports assigned_db) = [[Fault_RECEIVED, Fault_ASSIGNED]]"
    by code_simp
  moreover have "ru_db assigned_run = assigned_db" by (simp add: assigned_run_def recorded_change_def)
  ultimately obtain fr where fr: "fault_reports (ru_db assigned_run) = [fr]"
    and past: "fault_log (ru_db assigned_run) (fr_id fr) = [Fault_RECEIVED, Fault_ASSIGNED]" by auto
  have quiet: "changes_on (ru_open assigned_run) i = {}" "i \<notin> ru_broken assigned_run" "i \<notin> ru_overlapped assigned_run" for i
    by (simp_all add: assigned_run_def run_defs Let_def mark_overlap_def changes_on_def)
  have "fr_status fr = Fault_ASSIGNED"
    using fault_history_legal [OF assigned_run_steps _ quiet(1,2) refl, of fr] fr past quiet(3) by simp
  then show ?thesis using assigned_run_steps fr past by auto
qed

theorem fault_can_finish_witness:
  "fault_status_of (snd (admin_run sample_admin 1 (way_to_finish Fault_RECEIVED) fault_db)) 1 = Some Fault_FINISHED"
proof -
  have adm: "has_key u_id (sub sample_admin) (users fault_db)" by code_simp
  have st: "fault_status_of fault_db 1 = Some Fault_RECEIVED" by code_simp
  show ?thesis
    using fault_can_finish [OF adm st _ prod.collapse [symmetric]] by simp
qed


end
