(* ===== verification/Services.thy ===== *)
theory Services
  imports Workflow TextOps Samples
begin

text \<open>
  Service orders of \<open>KayanService\<close> (\<open>src/kayan/kayan.service.ts\<close>): order, edit and cancel by the
  customer, the administrator's status change, and the three lists. Creation, cancellation and status changes are
  statements without a transaction: the operations run them with nothing in between, and the step relation
  \<open>service_statement\<close> lets the statements of other requests in. Service orders are a \<open>ticket_desk\<close> with the full
  graph: the code checks no transition.
\<close>

section \<open>Operations\<close>

record service_brief =
  sb_id :: int
  sb_name :: "string option"
  sb_email :: "string option"
  sb_phone :: "string option"

record create_service_dto =
  ns_serviceType :: service_type
  ns_description :: string
  ns_address :: string

record update_service_dto =
  us_description :: "string option"
  us_address :: "string option"

record list_services_query = page_query +
  ls_serviceType :: "service_type option"
  ls_fromDate :: "time option"
  ls_toDate :: "time option"
  ls_sortDirection :: "sort_direction option"

definition service_where :: "list_services_query \<Rightarrow> service_order \<Rightarrow> bool" where
  "service_where q so \<longleftrightarrow>
     opt_holds (ls_serviceType q) (\<lambda>ty. so_service_type so = ty) \<and>
     opt_holds (ls_fromDate q) (\<lambda>d. so_created_at so \<ge> d) \<and>
     opt_holds (ls_toDate q) (\<lambda>d. so_created_at so \<le> d)"

definition service_sort_key :: "list_services_query \<Rightarrow> service_order \<Rightarrow> int \<times> int" where
  "service_sort_key q so =
     order_key (case ls_sortDirection q of None \<Rightarrow> Dir_DESC | Some d \<Rightarrow> d) (so_created_at so) (so_id so)"

definition getServiceForUser :: "db \<Rightarrow> int \<Rightarrow> int \<Rightarrow> bool \<Rightarrow> service_order result" where
  "getServiceForUser s userId serviceId allowAdmin =
     (case row_by so_id serviceId (service_orders s) of
        None \<Rightarrow> Inl (NotFound ''Service order not found'')
      | Some service \<Rightarrow>
          if \<not> allowAdmin \<and> so_user_id service \<noteq> userId then Inl (Forbidden ''Not allowed'')
          else Inr service)"

definition listMyServices :: "db \<Rightarrow> auth_user \<Rightarrow> list_services_query \<Rightarrow> service_order list \<times> int" where
  "listMyServices s user q =
     (let rows = filter (\<lambda>so. so_user_id so = sub user \<and> service_where q so) (service_orders s) in
      (paged (page_query.truncate q) 20 100 (sort_key (service_sort_key q) rows), int (length rows)))"

definition publicListServices :: "db \<Rightarrow> list_services_query \<Rightarrow> service_order list \<times> int" where
  "publicListServices s q =
     (let rows = filter (service_where q) (service_orders s) in
      (paged (page_query.truncate q) 20 100 (sort_key (service_sort_key q) rows), int (length rows)))"

definition adminListServices ::
  "db \<Rightarrow> list_services_query \<Rightarrow> (service_order \<times> service_brief) list \<times> int" where
  "adminListServices s q =
     (let rows = filter (service_where q) (service_orders s) in
      (map (\<lambda>so. let u = row_by u_id (so_user_id so) (users s) in
         (so, \<lparr>sb_id = so_user_id so, sb_name = map_option u_name u, sb_email = Option.bind u u_email,
               sb_phone = Option.bind u u_phone\<rparr>))
         (paged (page_query.truncate q) 20 100 (sort_key (service_sort_key q) rows)),
       int (length rows)))"

definition insert_service :: "int \<Rightarrow> create_service_dto \<Rightarrow> (db, service_order) handler" where
  "insert_service userId dto s =
     (let s1 = bump T_service_orders s;
          so = \<lparr>so_id = seqs s T_service_orders, so_user_id = userId, so_service_type = ns_serviceType dto,
                so_description = ns_description dto, so_address = ns_address dto,
                so_status = Service_NOT_STARTED, so_cancelled_at = None,
                so_created_at = clock s, so_updated_at = clock s\<rparr>
      in if \<not> has_key u_id userId (users s) then (Inl (SqlError ''23503''), s1)
         else (Inr so, s1\<lparr>service_orders := service_orders s @ [so]\<rparr>))"

definition insert_service_history :: "int \<Rightarrow> service_status \<Rightarrow> int \<Rightarrow> (db, unit) handler" where
  "insert_service_history serviceId status changedBy s =
     (let s1 = bump T_service_history s in
      if \<not> has_key so_id serviceId (service_orders s) \<or> \<not> has_key u_id changedBy (users s)
      then (Inl (SqlError ''23503''), s1)
      else (Inr (), s1\<lparr>service_history := service_history s @
             [\<lparr>h_id = seqs s T_service_history, h_item_id = serviceId, h_status = status,
               h_changed_by = changedBy\<rparr>]\<rparr>))"

definition createService :: "auth_user \<Rightarrow> create_service_dto \<Rightarrow> (db, service_order) handler" where
  "createService user dto =
     bind_h (insert_service (sub user) dto) (\<lambda>service.
     bind_h (insert_service_history (so_id service) Service_NOT_STARTED (sub user)) (\<lambda>_ s.
       (Inr service, s)))"

definition sql_update_service :: "int \<Rightarrow> (service_order \<Rightarrow> service_order) \<Rightarrow> db \<Rightarrow> db" where
  "sql_update_service serviceId f s =
     s\<lparr>service_orders := update_where (\<lambda>so. so_id so = serviceId) f (service_orders s)\<rparr>"

definition own_service :: "db \<Rightarrow> auth_user \<Rightarrow> int \<Rightarrow> service_order option" where
  "own_service s user serviceId =
     find (\<lambda>so. so_id so = serviceId \<and> so_user_id so = sub user) (service_orders s)"

definition service_update_set :: "update_service_dto \<Rightarrow> time \<Rightarrow> service_order \<Rightarrow> service_order" where
  "service_update_set dto now so =
     so\<lparr>so_description := coalesce (us_description dto) (so_description so),
        so_address := coalesce (us_address dto) (so_address so), so_updated_at := now\<rparr>"

definition updateService :: "auth_user \<Rightarrow> int \<Rightarrow> update_service_dto \<Rightarrow> (db, service_order) handler" where
  "updateService user serviceId dto s =
     (case own_service s user serviceId of
        None \<Rightarrow> (Inl (NotFound ''Service order not found''), s)
      | Some so \<Rightarrow>
          if so_status so \<noteq> Service_NOT_STARTED
          then (Inl (BadRequest ''Service order can only be updated before processing starts''), s)
          else
            let s1 = sql_update_service serviceId (service_update_set dto (clock s)) s
            in (getServiceForUser s1 (sub user) serviceId True, s1))"

definition service_cancel_set :: "time \<Rightarrow> service_order \<Rightarrow> service_order" where
  "service_cancel_set now so =
     so\<lparr>so_status := Service_CANCELLED, so_cancelled_at := Some now, so_updated_at := now\<rparr>"

text \<open>The \<open>SELECT\<close> of a cancellation with what is checked on its row, and the \<open>UPDATE\<close>, whose \<open>WHERE\<close> names the id only.\<close>

definition cancel_service_check :: "db \<Rightarrow> auth_user \<Rightarrow> int \<Rightarrow> unit result" where
  "cancel_service_check s user serviceId =
     (case own_service s user serviceId of
        None \<Rightarrow> Inl (NotFound ''Service order not found'')
      | Some so \<Rightarrow>
          if so_status so \<noteq> Service_NOT_STARTED
          then Inl (BadRequest ''Service cancellation allowed only before processing starts'')
          else Inr ())"

definition cancel_service_update :: "int \<Rightarrow> db \<Rightarrow> db" where
  "cancel_service_update serviceId s = sql_update_service serviceId (service_cancel_set (clock s)) s"

definition cancelService :: "auth_user \<Rightarrow> int \<Rightarrow> (db, service_order) handler" where
  "cancelService user serviceId s =
     (case cancel_service_check s user serviceId of
        Inl e \<Rightarrow> (Inl e, s)
      | Inr _ \<Rightarrow>
          bind_h (insert_service_history serviceId Service_CANCELLED (sub user))
            (\<lambda>_ s2. (getServiceForUser s2 (sub user) serviceId True, s2))
            (cancel_service_update serviceId s))"

definition service_status_set :: "service_status \<Rightarrow> time \<Rightarrow> service_order \<Rightarrow> service_order" where
  "service_status_set st now so = so\<lparr>so_status := st, so_updated_at := now\<rparr>"

text \<open>The administrator's change reads nothing first: it fails when its \<open>UPDATE\<close> meets no row.\<close>

definition advance_service_update :: "int \<Rightarrow> service_status \<Rightarrow> db \<Rightarrow> db" where
  "advance_service_update serviceId status s = sql_update_service serviceId (service_status_set status (clock s)) s"

definition adminUpdateServiceStatus :: "auth_user \<Rightarrow> int \<Rightarrow> service_status \<Rightarrow> (db, service_order) handler" where
  "adminUpdateServiceStatus admin serviceId status s =
     (if \<not> has_key so_id serviceId (service_orders s)
      then (Inl (NotFound ''Service order not found''), s)
      else
        bind_h (insert_service_history serviceId status (sub admin))
          (\<lambda>_ s2. (getServiceForUser s2 0 serviceId True, s2))
          (advance_service_update serviceId status s))"

lemmas cancelService_statements = cancelService_def cancel_service_check_def cancel_service_update_def
lemmas advanceService_statements = adminUpdateServiceStatus_def advance_service_update_def

section \<open>Service orders as tickets\<close>

definition service_inv :: "db \<Rightarrow> bool" where
  "service_inv s \<longleftrightarrow>
     pk so_id (seqs s T_service_orders) (service_orders s) \<and>
     (\<forall>so \<in> set (service_orders s). has_key u_id (so_user_id so) (users s)) \<and>
     (\<forall>h \<in> set (service_history s). has_key so_id (h_item_id h) (service_orders s))"

definition service_status_of :: "db \<Rightarrow> int \<Rightarrow> service_status option" where
  "service_status_of s i = map_option so_status (row_by so_id i (service_orders s))"

definition service_owner :: "db \<Rightarrow> int \<Rightarrow> int option" where
  "service_owner s i = map_option so_user_id (row_by so_id i (service_orders s))"

definition service_log :: "db \<Rightarrow> int \<Rightarrow> service_status list" where
  "service_log s i = log_in (service_history s) i"

lemma service_set_sel [simp]:
  "so_id (service_cancel_set t r) = so_id r" "so_user_id (service_cancel_set t r) = so_user_id r"
  "so_status (service_cancel_set t r) = Service_CANCELLED"
  "so_id (service_status_set st t r) = so_id r" "so_user_id (service_status_set st t r) = so_user_id r"
  "so_status (service_status_set st t r) = st"
  "so_id (service_update_set dto t r) = so_id r" "so_user_id (service_update_set dto t r) = so_user_id r"
  "so_status (service_update_set dto t r) = so_status r"
  by (simp_all add: service_cancel_set_def service_status_set_def service_update_set_def)

definition service_moved ::
  "int \<Rightarrow> (service_order \<Rightarrow> service_order) \<Rightarrow> service_status \<Rightarrow> int \<Rightarrow> db \<Rightarrow> db" where
  "service_moved i f st by s = snd (insert_service_history i st by (sql_update_service i f s))"

lemma service_moved_eq:
  assumes "has_key so_id i (service_orders s)" "has_key u_id by (users s)" "\<And>r. so_id (f r) = so_id r"
  shows "insert_service_history i st by (sql_update_service i f s) = (Inr (), service_moved i f st by s)"
    and "service_moved i f st by s = (bump T_service_history s)\<lparr>
      service_orders := update_where (\<lambda>so. so_id so = i) f (service_orders s),
      service_history := service_history s @
        [\<lparr>h_id = seqs s T_service_history, h_item_id = i, h_status = st, h_changed_by = by\<rparr>]\<rparr>"
  using assms
  by (simp_all add: service_moved_def insert_service_history_def has_key_iff update_where_image
      sql_update_service_def bump_def)

lemma update_service_inv:
  assumes "service_inv s" and f: "\<And>r. so_id (f r) = so_id r" "\<And>r. so_user_id (f r) = so_user_id r"
  shows "service_inv (sql_update_service i f s)"
proof -
  have "has_key so_id j (update_where (\<lambda>so. so_id so = i) f t) = has_key so_id j t"
    for j and t :: "service_order list"
    by (simp add: has_key_iff update_where_image f)
  then show ?thesis
    using assms pk_update [of so_id f]
    by (auto simp: service_inv_def sql_update_service_def set_update_where)
qed

lemma service_history_inv:
  assumes "service_inv s"
  shows "service_inv (snd (insert_service_history i st by s))"
  using assms by (auto simp: service_inv_def insert_service_history_def Let_def)

lemma service_moved_desk:
  assumes "has_key so_id i (service_orders s)" "has_key u_id by (users s)"
    and f: "\<And>r. so_id (f r) = so_id r" "\<And>r. so_user_id (f r) = so_user_id r" "\<And>r. so_status (f r) = st"
  shows "service_status_of (service_moved i f st by s) = (service_status_of s)(i := Some st)"
    and "service_owner (service_moved i f st by s) = service_owner s"
    and "service_log (service_moved i f st by s) = (service_log s)(i := service_log s i @ [st])"
    and "\<exists>v. getServiceForUser (service_moved i f st by s) u i True = Inr v"
proof -
  obtain r where "row_by so_id i (service_orders s) = Some r"
    using assms(1) by (auto simp: has_key_row_by)
  then show "service_status_of (service_moved i f st by s) = (service_status_of s)(i := Some st)"
    and "service_owner (service_moved i f st by s) = service_owner s"
    and "\<exists>v. getServiceForUser (service_moved i f st by s) u i True = Inr v"
    by (auto simp: service_status_of_def service_owner_def service_moved_eq(2) [OF assms(1,2) f(1)]
        row_by_update f fun_eq_iff option.map_comp comp_def getServiceForUser_def
        dest: row_by_Some intro!: map_option_cong)
  show "service_log (service_moved i f st by s) = (service_log s)(i := service_log s i @ [st])"
    by (auto simp: service_log_def fun_eq_iff service_moved_eq(2) [OF assms(1,2) f(1)])
qed

lemma own_service_iff:
  assumes "service_inv s"
  shows "own_service s user i = Some so \<longleftrightarrow>
    row_by so_id i (service_orders s) = Some so \<and> so_user_id so = sub user"
proof -
  have "own_service s user i = (case row_by so_id i (service_orders s) of None \<Rightarrow> None
      | Some r \<Rightarrow> if so_user_id r = sub user then Some r else None)"
    using assms pk_find_and [of so_id "seqs s T_service_orders" "service_orders s" i
        "\<lambda>so. so_user_id so = sub user"]
    by (simp add: own_service_def service_inv_def)
  then show ?thesis by (auto split: option.splits if_splits)
qed

lemma createService_cases:
  assumes inv: "service_inv s" and run: "createService user dto s = (x, s')"
  defines "i \<equiv> seqs s T_service_orders"
  obtains (placed) v where "x = Inr v" "has_key u_id (sub user) (users s)" "so_id v = i"
      "so_user_id v = sub user" "so_status v = Service_NOT_STARTED"
      "so_service_type v = ns_serviceType dto" "row_by so_id i (service_orders s') = Some v"
      "service_status_of s i = None"
      "service_status_of s' = (service_status_of s)(i := Some Service_NOT_STARTED)"
      "service_owner s' = (service_owner s)(i := Some (sub user))"
      "service_log s' = (service_log s)(i := service_log s i @ [Service_NOT_STARTED])"
      "service_inv s'"
    | (failed) "x = Inl (SqlError ''23503'')" "s' = bump T_service_orders s"
        "\<not> has_key u_id (sub user) (users s)"
proof (cases "has_key u_id (sub user) (users s)")
  case False
  then have "createService user dto s = (Inl (SqlError ''23503''), bump T_service_orders s)"
    by (simp add: createService_def insert_service_def bind_h_def Let_def)
  then show thesis using run failed False by simp
next
  case True
  have pk: "pk so_id i (service_orders s)" using inv by (simp add: service_inv_def i_def)
  have fresh: "row_by so_id i (service_orders s) = None" by (rule row_by_fresh [OF pk])
  define r where "r = \<lparr>so_id = i, so_user_id = sub user, so_service_type = ns_serviceType dto,
                so_description = ns_description dto, so_address = ns_address dto,
                so_status = Service_NOT_STARTED, so_cancelled_at = None,
                so_created_at = clock s, so_updated_at = clock s\<rparr>"
  have r: "so_id r = i" "so_user_id r = sub user" "so_status r = Service_NOT_STARTED"
    "so_service_type r = ns_serviceType dto" by (simp_all add: r_def)
  define t where "t = (bump T_service_history ((bump T_service_orders s)\<lparr>service_orders := service_orders s @ [r]\<rparr>))
    \<lparr>service_history := service_history s @ [\<lparr>h_id = seqs s T_service_history, h_item_id = i,
       h_status = Service_NOT_STARTED, h_changed_by = sub user\<rparr>]\<rparr>"
  have "insert_service (sub user) dto s =
      (Inr r, (bump T_service_orders s)\<lparr>service_orders := service_orders s @ [r]\<rparr>)"
    using True by (simp add: insert_service_def Let_def r_def i_def)
  then have "createService user dto s = (Inr r, t)"
    using True r(1)
    by (simp add: createService_def insert_service_history_def bind_h_def Let_def has_key_iff t_def)
  moreover have "pk so_id (i + 1) (service_orders s @ [r])" by (rule pk_insert [OF pk r(1)])
  then have "service_inv t"
    using inv True r by (auto simp: t_def service_inv_def has_key_iff i_def)
  moreover have "service_status_of t = (service_status_of s)(i := Some Service_NOT_STARTED)"
    "service_owner t = (service_owner s)(i := Some (sub user))"
    "row_by so_id i (service_orders t) = Some r"
    using r by (auto simp: fun_eq_iff service_status_of_def service_owner_def t_def row_by_append fresh
        split: option.splits)
  moreover have "service_log t = (service_log s)(i := service_log s i @ [Service_NOT_STARTED])"
    by (auto simp: service_log_def t_def fun_eq_iff)
  ultimately show thesis
    using placed [of r] run True r fresh by (simp add: service_status_of_def)
qed

lemma cancelService_cases:
  assumes inv: "service_inv s" and run: "cancelService user i s = (x, s')"
  obtains (moved) v where "x = Inr v" "has_key so_id i (service_orders s)" "has_key u_id (sub user) (users s)"
      "service_status_of s i = Some Service_NOT_STARTED" "service_owner s i = Some (sub user)"
      "s' = service_moved i (service_cancel_set (clock s)) Service_CANCELLED (sub user) s"
    | (refused) "\<not> is_ok x" "s' = s"
        "\<not> (service_status_of s i = Some Service_NOT_STARTED \<and> service_owner s i = Some (sub user))"
proof (cases "own_service s user i")
  case None
  then have "\<not> (service_status_of s i = Some Service_NOT_STARTED \<and> service_owner s i = Some (sub user))"
    using own_service_iff [OF inv, of user i] by (auto simp: service_owner_def)
  then show thesis using run None refused by (auto simp: cancelService_statements)
next
  case (Some so)
  then have row: "row_by so_id i (service_orders s) = Some so" "so_user_id so = sub user"
    using own_service_iff [OF inv] by auto
  have keys: "has_key so_id i (service_orders s)" "has_key u_id (sub user) (users s)"
    using inv row row_by_Some [OF row(1)] by (auto simp: service_inv_def has_key_row_by)
  show thesis
  proof (cases "so_status so = Service_NOT_STARTED")
    case True
    let ?t = "service_moved i (service_cancel_set (clock s)) Service_CANCELLED (sub user) s"
    obtain v where "getServiceForUser ?t (sub user) i True = Inr v"
      using service_moved_desk(4) [OF keys, where f = "service_cancel_set (clock s)"
          and st = Service_CANCELLED and u = "sub user"] by auto
    then have "cancelService user i s = (Inr v, ?t)"
      using service_moved_eq(1) [OF keys, of "service_cancel_set (clock s)" Service_CANCELLED] True
      by (simp add: cancelService_statements Some bind_h_def)
    then show thesis
      using moved [of v] run keys row True by (simp add: service_status_of_def service_owner_def)
  next
    case False
    then show thesis using run Some row refused by (auto simp: cancelService_statements service_status_of_def)
  qed
qed

lemma advanceService_cases:
  assumes adm: "has_key u_id (sub admin) (users s)" and run: "adminUpdateServiceStatus admin i st s = (x, s')"
  obtains (moved) v where "x = Inr v" "has_key so_id i (service_orders s)"
      "s' = service_moved i (service_status_set st (clock s)) st (sub admin) s"
    | (refused) "\<not> is_ok x" "s' = s" "service_status_of s i = None"
proof (cases "has_key so_id i (service_orders s)")
  case False
  then show thesis
    using run refused by (auto simp: advanceService_statements service_status_of_def has_key_row_by)
next
  case True
  let ?t = "service_moved i (service_status_set st (clock s)) st (sub admin) s"
  obtain v where "getServiceForUser ?t 0 i True = Inr v"
    using service_moved_desk(4) [OF True adm, where f = "service_status_set st (clock s)"
        and st = st and u = 0] by auto
  then have "adminUpdateServiceStatus admin i st s = (Inr v, ?t)"
    using service_moved_eq(1) [OF True adm, of "service_status_set st (clock s)" st] True
    by (simp add: advanceService_statements bind_h_def)
  then show thesis using moved [of v] run True by simp
qed

lemma service_ops_inv:
  assumes "service_inv s"
  shows "service_inv (snd (createService user dto s))" "service_inv (snd (cancelService user i s))"
    "service_inv (snd (adminUpdateServiceStatus user i st s))" "service_inv (snd (updateService user i edit s))"
proof -
  obtain x s' where run: "createService user dto s = (x, s')" by fastforce
  with assms have "service_inv s'"
    by (cases rule: createService_cases) (use assms in \<open>auto simp: service_inv_def pk_step\<close>)
  then show "service_inv (snd (createService user dto s))" using run by simp
  show "service_inv (snd (cancelService user i s))"
    "service_inv (snd (adminUpdateServiceStatus user i st s))"
    "service_inv (snd (updateService user i edit s))"
    using assms
    by (auto simp: cancelService_statements advanceService_statements updateService_def bind_h_read Let_def
        intro!: service_history_inv update_service_inv split: option.split)
qed

interpretation service_desk:
  ticket_desk service_inv service_status_of service_owner service_log createService cancelService
    adminUpdateServiceStatus Service_NOT_STARTED Service_CANCELLED "\<lambda>_ _. True"
proof unfold_locales
  fix s :: db and user :: auth_user and c and v and s' and e and i and st and w
  show "\<exists>i. service_status_of s i = None \<and>
          service_status_of s' = (service_status_of s)(i := Some Service_NOT_STARTED) \<and>
          service_owner s' = (service_owner s)(i := Some (sub user)) \<and>
          service_log s' = (service_log s)(i := service_log s i @ [Service_NOT_STARTED])"
    if "service_inv s" "createService user c s = (Inr v, s')"
    using that by (cases rule: createService_cases) auto
  show "service_status_of s' = service_status_of s \<and> service_owner s' = service_owner s \<and>
      service_log s' = service_log s"
    if "service_inv s" "createService user c s = (Inl e, s')"
    using that
    by (cases rule: createService_cases)
       (auto simp: service_status_of_def service_owner_def service_log_def fun_eq_iff)
  show "service_inv (snd (createService user c s))" if "service_inv s" using that by (rule service_ops_inv)
  show "service_inv (snd (cancelService user i s))" if "service_inv s" using that by (rule service_ops_inv)
  show "service_inv (snd (adminUpdateServiceStatus user i st s))" if "service_inv s"
    using that by (rule service_ops_inv)
  show "service_status_of s i = Some Service_NOT_STARTED \<and> service_owner s i = Some (sub user) \<and>
      service_status_of s' = (service_status_of s)(i := Some Service_CANCELLED) \<and>
      service_owner s' = service_owner s \<and>
      service_log s' = (service_log s)(i := service_log s i @ [Service_CANCELLED])"
    if "service_inv s" "cancelService user i s = (Inr w, s')"
    using that
  proof (cases rule: cancelService_cases)
    case moved
    then show ?thesis
      using service_moved_desk(1-3) [OF moved(2,3), of "service_cancel_set (clock s)"] by simp
  qed simp
  show "s' = s" if "service_inv s" "cancelService user i s = (Inl e, s')"
    using that by (cases rule: cancelService_cases) auto
  show "(\<exists>cur. service_status_of s i = Some cur \<and> True) \<and>
      service_status_of s' = (service_status_of s)(i := Some st) \<and> service_owner s' = service_owner s \<and>
      service_log s' = (service_log s)(i := service_log s i @ [st])"
    if "service_inv s" "has_key u_id (sub user) (users s)" "adminUpdateServiceStatus user i st s = (Inr w, s')"
    using that(2,3)
  proof (cases rule: advanceService_cases)
    case (moved v)
    then show ?thesis
      using service_moved_desk(1-3) [OF moved(2) that(2), of "service_status_set st (clock s)"]
      by (simp add: service_status_of_def has_key_row_by)
  qed simp
  show "s' = s"
    if "service_inv s" "has_key u_id (sub user) (users s)" "adminUpdateServiceStatus user i st s = (Inl e, s')"
    using that(2,3) by (cases rule: advanceService_cases) auto
qed simp


section \<open>Reachable states\<close>

definition service_tables :: "db \<Rightarrow> service_order list \<times> service_status history list" where
  "service_tables s = (service_orders s, service_history s)"

inductive service_step :: "db \<Rightarrow> db \<Rightarrow> bool" where
  create: "service_step s (snd (createService user dto s))"
| edit: "service_step s (snd (updateService user i edits s))"
| cancel: "service_step s (snd (cancelService user i s))"
| advance: "has_key u_id (sub admin) (users s) \<Longrightarrow>
    service_step s (snd (adminUpdateServiceStatus admin i st s))"
| elsewhere: "service_tables s' = service_tables s \<Longrightarrow> seqs s T_service_orders \<le> seqs s' T_service_orders \<Longrightarrow>
    (\<And>i. has_key u_id i (users s) \<Longrightarrow> has_key u_id i (users s')) \<Longrightarrow> service_step s s'"

lemma updateService_desk:
  "service_status_of (snd (updateService user i edits s)) = service_status_of s"
  "service_log (snd (updateService user i edits s)) = service_log s"
proof -
  have "service_status_of (sql_update_service i (service_update_set edits t) s) j = service_status_of s j" for j t
    by (cases "row_by so_id j (service_orders s)")
       (simp_all add: service_status_of_def sql_update_service_def row_by_update)
  moreover have "service_log (sql_update_service i f s) = service_log s" for f
    by (simp add: service_log_def sql_update_service_def fun_eq_iff)
  ultimately show "service_status_of (snd (updateService user i edits s)) = service_status_of s"
    "service_log (snd (updateService user i edits s)) = service_log s"
    by (simp_all add: updateService_def Let_def fun_eq_iff split: option.split)
qed

lemma service_step_audited: "service_step s s' \<Longrightarrow> service_desk.audited s \<Longrightarrow> service_desk.audited s'"
proof (induction rule: service_step.induct)
  case (create s user dto)
  then show ?case using service_desk.create_audited prod.collapse by metis
next
  case (edit s user i edits)
  then show ?case
    using service_ops_inv(4) updateService_desk by (simp add: service_desk.audited_def)
next
  case (cancel s user i)
  then show ?case using service_desk.cancel_audited prod.collapse by metis
next
  case (advance admin s i st)
  then show ?case using service_desk.advance_audited prod.collapse by metis
next
  case (elsewhere s' s)
  then have "service_inv s" by (simp add: service_desk.audited_def)
  then have "service_inv s'"
    using elsewhere.hyps by (auto simp: service_inv_def service_tables_def intro: pk_mono)
  moreover have "service_status_of s' = service_status_of s" "service_log s' = service_log s"
    using elsewhere.hyps(1)
    by (simp_all add: service_tables_def service_status_of_def service_log_def fun_eq_iff)
  ultimately show ?case using elsewhere.prems by (simp add: service_desk.audited_def)
qed

lemma service_row:
  assumes "service_desk.audited s" and "so \<in> set (service_orders s)"
  shows "row_by so_id (so_id so) (service_orders s) = Some so"
    "trail (\<lambda>_ _. True) Service_NOT_STARTED (Some (so_status so)) (service_log s (so_id so))"
proof -
  have "pk so_id (seqs s T_service_orders) (service_orders s)"
    using assms(1) by (simp add: service_desk.audited_def service_inv_def)
  then show row: "row_by so_id (so_id so) (service_orders s) = Some so" using assms(2) by (rule pk_row_by)
  then have "service_status_of s (so_id so) = Some (so_status so)" by (simp add: service_status_of_def)
  then show "trail (\<lambda>_ _. True) Service_NOT_STARTED (Some (so_status so)) (service_log s (so_id so))"
    using assms(1) unfolding service_desk.audited_def by metis
qed

section \<open>Statement by statement\<close>

text \<open>
  The statements of the requests on service orders in any order. A creation is an \<open>INSERT\<close> that leaves the row of the
  history to a later statement; an edit writes no status and is one step.
\<close>

inductive service_statement :: "service_status desk_run \<Rightarrow> service_status desk_run \<Rightarrow> bool" where
  insert: "insert_service (sub (user :: auth_user)) dto (ru_db r) = (Inr so, s') \<Longrightarrow> ru_open r k = None \<Longrightarrow>
    service_statement r (r\<lparr>ru_db := s', ru_open := (ru_open r)(k \<mapsto> \<lparr>ch_item = so_id so,
      ch_status = Service_NOT_STARTED, ch_by = sub user, ch_cancel = False, ch_written = True\<rparr>)\<rparr>)"
| edit: "service_statement r (r\<lparr>ru_db := snd (updateService user i edits (ru_db r))\<rparr>)"
| cancel: "cancel_service_check (ru_db r) user i = Inr () \<Longrightarrow> ru_open r k = None \<Longrightarrow>
    service_statement r (begin_change k \<lparr>ch_item = i, ch_status = Service_CANCELLED, ch_by = sub user,
      ch_cancel = True, ch_written = False\<rparr> r)"
| cancel_update: "ru_open r k = Some c \<Longrightarrow> \<not> ch_written c \<Longrightarrow>
    service_statement r (written_change k c (cancel_service_update (ch_item c) (ru_db r)) r)"
| advance_update: "has_key so_id i (service_orders (ru_db r)) \<Longrightarrow> ru_open r k = None \<Longrightarrow>
    c = \<lparr>ch_item = i, ch_status = st, ch_by = sub (admin :: auth_user), ch_cancel = False, ch_written = False\<rparr> \<Longrightarrow>
    service_statement r (written_change k c (advance_service_update i st (ru_db r)) (begin_change k c r))"
| history: "ru_open r k = Some c \<Longrightarrow> ch_written c \<Longrightarrow>
    insert_service_history (ch_item c) (ch_status c) (ch_by c) (ru_db r) = (Inr (), s') \<Longrightarrow>
    service_statement r (recorded_change k s' r)"
| breaks: "ru_open r k = Some c \<Longrightarrow> service_statement r (broken_change k c r)"
| elsewhere: "service_tables s' = service_tables (ru_db r) \<Longrightarrow>
    seqs (ru_db r) T_service_orders \<le> seqs s' T_service_orders \<Longrightarrow>
    (\<And>i. has_key u_id i (users (ru_db r)) \<Longrightarrow> has_key u_id i (users s')) \<Longrightarrow> service_statement r (r\<lparr>ru_db := s'\<rparr>)"

abbreviation service_ledger :: "service_status desk_run \<Rightarrow> service_status ledger" where
  "service_ledger \<equiv> ledger_of service_status_of service_log"

definition service_changes_ok :: "service_status desk_run \<Rightarrow> bool" where
  "service_changes_ok r \<longleftrightarrow> service_inv (ru_db r) \<and>
     ledger_ok (\<lambda>_ _. True) Service_NOT_STARTED (service_ledger r) \<and>
     (\<forall>k c. ru_open r k = Some c \<longrightarrow> \<not> ch_written c \<longrightarrow> ch_status c = Service_CANCELLED)"

lemma service_update_desk:
  assumes "service_inv s" "service_status_of s i \<noteq> None"
    and f: "\<And>r. so_id (f r) = so_id r" "\<And>r. so_user_id (f r) = so_user_id r" "\<And>r. so_status (f r) = st"
  shows "service_inv (sql_update_service i f s)"
    and "service_status_of (sql_update_service i f s) = (service_status_of s)(i := Some st)"
    and "service_log (sql_update_service i f s) = service_log s"
proof -
  show "service_inv (sql_update_service i f s)" by (rule update_service_inv [OF assms(1) f(1,2)])
  obtain r where "row_by so_id i (service_orders s) = Some r"
    using assms(2) by (auto simp: service_status_of_def)
  then show "service_status_of (sql_update_service i f s) = (service_status_of s)(i := Some st)"
    by (auto simp: service_status_of_def sql_update_service_def row_by_update f fun_eq_iff option.map_comp comp_def
        dest: row_by_Some intro!: map_option_cong)
  show "service_log (sql_update_service i f s) = service_log s"
    by (simp add: service_log_def sql_update_service_def fun_eq_iff)
qed

lemma service_insert_desk:
  assumes "service_inv s" "insert_service u dto s = (Inr so, s')"
  shows "service_inv s'" "service_status_of s (so_id so) = None"
    and "service_status_of s' = (service_status_of s)(so_id so := Some Service_NOT_STARTED)"
    and "service_log s' = service_log s"
proof -
  let ?i = "seqs s T_service_orders"
  have key: "has_key u_id u (users s)" and so: "so_id so = ?i" "so_user_id so = u" "so_status so = Service_NOT_STARTED"
    and s': "s' = (bump T_service_orders s)\<lparr>service_orders := service_orders s @ [so]\<rparr>"
    using assms(2) by (auto simp: insert_service_def Let_def split: if_splits)
  have pk: "pk so_id ?i (service_orders s)" using assms(1) by (simp add: service_inv_def)
  have fresh: "row_by so_id ?i (service_orders s) = None" by (rule row_by_fresh [OF pk])
  have "pk so_id (?i + 1) (service_orders s @ [so])" by (rule pk_insert [OF pk so(1)])
  then show "service_inv s'" using assms(1) key so by (auto simp: s' service_inv_def has_key_iff)
  show "service_status_of s (so_id so) = None" by (simp add: service_status_of_def so fresh)
  show "service_status_of s' = (service_status_of s)(so_id so := Some Service_NOT_STARTED)"
    using so by (auto simp: fun_eq_iff service_status_of_def s' row_by_append fresh split: option.splits)
  show "service_log s' = service_log s" by (simp add: service_log_def s' fun_eq_iff)
qed

lemma service_history_desk:
  assumes "service_inv s" "insert_service_history i st by s = (Inr (), s')"
  shows "service_inv s'" "service_status_of s' = service_status_of s"
    and "service_log s' = (service_log s)(i := service_log s i @ [st])"
  using assms by (auto simp: insert_service_history_def Let_def service_inv_def service_status_of_def service_log_def
      fun_eq_iff split: if_splits)

lemma cancel_service_checked:
  "service_inv s \<Longrightarrow> cancel_service_check s user i = Inr () \<Longrightarrow> service_status_of s i = Some Service_NOT_STARTED"
  using own_service_iff [of s user i]
  by (auto simp: cancel_service_check_def service_status_of_def split: option.splits if_splits)

text \<open>Every statement does to the ledger what a ledger allows; the administrator's \<open>UPDATE\<close> is a read and a write at once.\<close>

lemma service_statement_ledger:
  assumes "service_statement r r'" and ok: "service_changes_ok r"
  shows "service_inv (ru_db r') \<and>
    (ledger_step (\<lambda>_ _. True) Service_NOT_STARTED)\<^sup>*\<^sup>* (service_ledger r) (service_ledger r') \<and>
    (\<forall>k c. ru_open r' k = Some c \<longrightarrow> \<not> ch_written c \<longrightarrow> ch_status c = Service_CANCELLED)"
proof -
  let ?step = "ledger_step (\<lambda>_ _. True) Service_NOT_STARTED"
  have inv: "service_inv (ru_db r)" and ledger: "ledger_ok (\<lambda>_ _. True) Service_NOT_STARTED (service_ledger r)"
    and cancels: "ru_open r k = Some c \<Longrightarrow> \<not> ch_written c \<Longrightarrow> ch_status c = Service_CANCELLED" for k c
    using ok by (auto simp: service_changes_ok_def)
  have known: "service_status_of (ru_db r) (ch_item c) \<noteq> None" if "ru_open r k = Some c" for k c
    using ledger changes_on_mem [of "ru_open r" k c, OF that]
    by (auto simp: ledger_ok_def ledger_of_def ticket_ok_def dest!: spec [of _ "ch_item c"])
  from assms(1) show ?thesis
  proof (cases rule: service_statement.cases)
    case (insert user dto so s' k)
    note desk = service_insert_desk [OF inv insert(2)]
    have "?step (service_ledger r) (service_ledger r')"
      using ledger_step.inserted [where l = "service_ledger r" and legal = "\<lambda>_ _. True" and
          initial = Service_NOT_STARTED and k = k and
          c = "\<lparr>ch_item = so_id so, ch_status = Service_NOT_STARTED, ch_by = sub user, ch_cancel = False, ch_written = True\<rparr>"]
        desk insert(3) by (simp add: insert(1) ledger_of_def)
    then show ?thesis using desk(1) cancels by (auto simp: insert(1))
  next
    case (edit user i edits)
    then show ?thesis
      using service_ops_inv(4) [OF inv, of user i edits] updateService_desk [of user i edits "ru_db r"] cancels
      by (simp add: ledger_of_def)
  next
    case (cancel user i k)
    then show ?thesis
      using ledger_step.reads [where l = "service_ledger r" and legal = "\<lambda>_ _. True" and initial = Service_NOT_STARTED
          and k = k and
          c = "\<lparr>ch_item = i, ch_status = Service_CANCELLED, ch_by = sub user, ch_cancel = True, ch_written = False\<rparr>"]
        cancel_service_checked [OF inv cancel(2)] inv cancels
      by (auto simp: run_defs)
  next
    case (cancel_update k c)
    note desk = service_update_desk [OF inv known [OF cancel_update(2)], of "service_cancel_set (clock (ru_db r))" Service_CANCELLED]
    have "?step (service_ledger r) (service_ledger r')"
      using ledger_step.writes [of "service_ledger r" k c "\<lambda>_ _. True" Service_NOT_STARTED] cancel_update desk cancels
      by (simp add: run_defs cancel_service_update_def)
    then show ?thesis using desk(1) cancels by (auto simp: cancel_update(1) written_change_def cancel_service_update_def)
  next
    case (advance_update i k c st admin)
    have row: "service_status_of (ru_db r) i \<noteq> None"
      using advance_update(2) by (auto simp: service_status_of_def has_key_row_by)
    note desk = service_update_desk [OF inv row, of "service_status_set st (clock (ru_db r))" st]
    let ?mid = "service_ledger (begin_change k c r)"
    have "?step (service_ledger r) ?mid"
      using ledger_step.reads [where l = "service_ledger r" and legal = "\<lambda>_ _. True" and initial = Service_NOT_STARTED
          and k = k and c = c] row advance_update(3,4) by (auto simp: run_defs)
    moreover have "?step ?mid (service_ledger r')"
      using ledger_step.writes [of ?mid k c "\<lambda>_ _. True" Service_NOT_STARTED] advance_update(1,4) desk
      by (simp add: run_defs advance_service_update_def)
    ultimately show ?thesis
      using desk(1) cancels by (auto simp: advance_update(1) written_change_def begin_change_def advance_service_update_def)
  next
    case (history k c s')
    then show ?thesis
      using ledger_step.records [of "service_ledger r" k c "\<lambda>_ _. True" Service_NOT_STARTED]
        service_history_desk [OF inv history(4)] cancels
      by (auto simp: run_defs)
  next
    case (breaks k c)
    then show ?thesis
      using ledger_step.breaks [of "service_ledger r" k c "\<lambda>_ _. True" Service_NOT_STARTED] inv cancels
      by (auto simp: run_defs)
  next
    case (elsewhere s')
    then have "service_inv s'" using inv by (auto simp: service_inv_def service_tables_def intro: pk_mono)
    moreover have "service_status_of s' = service_status_of (ru_db r)" "service_log s' = service_log (ru_db r)"
      using elsewhere(2) by (simp_all add: service_tables_def service_status_of_def service_log_def fun_eq_iff)
    ultimately show ?thesis using cancels by (simp add: elsewhere ledger_of_def)
  qed
qed

lemma service_statements_ok:
  assumes "service_statement\<^sup>*\<^sup>* (idle_run empty_db) r"
  shows "service_changes_ok r"
  using assms
proof (induction rule: rtranclp_induct)
  case base
  show ?case
    using idle_ledger_ok [of "\<lambda>_ _. True" Service_NOT_STARTED service_status_of empty_db service_log]
    by (simp add: service_changes_ok_def idle_run_def service_inv_def empty_db_def service_status_of_def service_log_def)
next
  case (step r r')
  then show ?case
    using service_statement_ledger [OF step(2,3)] ledger_steps_ok by (fastforce simp: service_changes_ok_def)
qed

text \<open>
  C13: Take the statements of any requests on service orders in any order, from an empty database, each request
  going on to its next statement or breaking off. When no change of an order is under way and none broke off
  between its row and the row of the history, the order's status is in its history; and if moreover no two
  changes of it were ever under way at once, the history begins with \<open>not_started\<close> and ends with the order's
  status. The administrator may move any order from any status to any other, a cancelled or finished one included.
\<close>

theorem service_history_agrees:
  assumes "service_statement\<^sup>*\<^sup>* (idle_run empty_db) r" and "so \<in> set (service_orders (ru_db r))"
    and "changes_on (ru_open r) (so_id so) = {}" and "so_id so \<notin> ru_broken r"
    and "past = service_log (ru_db r) (so_id so)"
  shows "so_status so \<in> set past \<and>
     (so_id so \<notin> ru_overlapped r \<longrightarrow> hd past = Service_NOT_STARTED \<and> last past = so_status so) \<and>
     (\<forall>admin st. has_key u_id (sub admin) (users (ru_db r)) \<longrightarrow>
        (\<exists>s'. adminUpdateServiceStatus admin (so_id so) st (ru_db r) = (getServiceForUser s' 0 (so_id so) True, s') \<and>
           service_status_of s' (so_id so) = Some st))"
proof -
  have ok: "service_inv (ru_db r)" "ledger_ok (\<lambda>_ _. True) Service_NOT_STARTED (service_ledger r)"
    using service_statements_ok [OF assms(1)] by (auto simp: service_changes_ok_def)
  have row: "row_by so_id (so_id so) (service_orders (ru_db r)) = Some so"
    using ok(1) assms(2) pk_row_by by (auto simp: service_inv_def)
  then have status: "service_status_of (ru_db r) (so_id so) = Some (so_status so)" by (simp add: service_status_of_def)
  note settled = settled_ticket [OF ok(2) assms(3,4)]
  have "so_status so \<in> set past" using settled(1) [OF status] assms(5) by simp
  moreover have "hd past = Service_NOT_STARTED \<and> last past = so_status so" if "so_id so \<notin> ru_overlapped r"
    using settled(2) [OF that] status assms(5) by (simp add: trail_def)
  moreover have "\<exists>s'. adminUpdateServiceStatus admin (so_id so) st (ru_db r) =
      (getServiceForUser s' 0 (so_id so) True, s') \<and> service_status_of s' (so_id so) = Some st"
    if adm: "has_key u_id (sub admin) (users (ru_db r))" for admin st
  proof -
    let ?s = "ru_db r"
    have key: "has_key so_id (so_id so) (service_orders ?s)" using row by (auto simp: has_key_row_by)
    let ?t = "service_moved (so_id so) (service_status_set st (clock ?s)) st (sub admin) ?s"
    have "adminUpdateServiceStatus admin (so_id so) st ?s = (getServiceForUser ?t 0 (so_id so) True, ?t)"
      using service_moved_eq(1) [OF key adm, of "service_status_set st (clock ?s)" st] key
      by (simp add: advanceService_statements bind_h_def)
    moreover have "service_status_of ?t (so_id so) = Some st"
      using service_moved_desk(1) [OF key adm, of "service_status_set st (clock ?s)" st] by simp
    ultimately show ?thesis by blast
  qed
  ultimately show ?thesis by blast
qed

text \<open>A service order is edited and cancelled by its owner only, and only before work has started
  (404 for anyone else, 400 afterwards); a refused request changes nothing and a cancellation is recorded
  in the history.\<close>

theorem service_guards:
  assumes "service_inv s" and "cancelService user i s = (x, s')" and "updateService user i edits s = (y, t)"
  shows "(is_ok x \<longleftrightarrow> service_owner s i = Some (sub user) \<and> service_status_of s i = Some Service_NOT_STARTED) \<and>
     (is_ok y \<longleftrightarrow> is_ok x) \<and> (\<not> is_ok x \<longrightarrow> s' = s \<and> t = s) \<and>
     (service_owner s i \<noteq> Some (sub user) \<longrightarrow>
        x = Inl (NotFound ''Service order not found'') \<and> y = Inl (NotFound ''Service order not found'')) \<and>
     (is_ok x \<longrightarrow> service_status_of s' i = Some Service_CANCELLED \<and>
        service_log s' i = service_log s i @ [Service_CANCELLED] \<and>
        service_status_of t = service_status_of s \<and> service_log t = service_log s)"
proof -
  have cancel: "is_ok x \<longleftrightarrow> service_owner s i = Some (sub user) \<and> service_status_of s i = Some Service_NOT_STARTED"
    "\<not> is_ok x \<Longrightarrow> s' = s"
    "is_ok x \<Longrightarrow> service_status_of s' i = Some Service_CANCELLED \<and>
        service_log s' i = service_log s i @ [Service_CANCELLED]"
  proof -
    have "(is_ok x \<longleftrightarrow> service_owner s i = Some (sub user) \<and> service_status_of s i = Some Service_NOT_STARTED) \<and>
      (\<not> is_ok x \<longrightarrow> s' = s) \<and> (is_ok x \<longrightarrow> service_status_of s' i = Some Service_CANCELLED \<and>
        service_log s' i = service_log s i @ [Service_CANCELLED])"
      using assms(1,2)
    proof (cases rule: cancelService_cases)
      case moved
      then show ?thesis
        using service_moved_desk(1-3) [OF moved(2,3), of "service_cancel_set (clock s)"] by simp
    qed auto
    then show "is_ok x \<longleftrightarrow> service_owner s i = Some (sub user) \<and> service_status_of s i = Some Service_NOT_STARTED"
      "\<not> is_ok x \<Longrightarrow> s' = s"
      "is_ok x \<Longrightarrow> service_status_of s' i = Some Service_CANCELLED \<and>
        service_log s' i = service_log s i @ [Service_CANCELLED]" by blast+
  qed
  have own: "own_service s user i = None \<longleftrightarrow> service_owner s i \<noteq> Some (sub user)"
    using own_service_iff [OF assms(1), of user i]
    by (cases "own_service s user i") (auto simp: service_owner_def)
  have some: "so_status so = st \<longleftrightarrow> service_status_of s i = Some st" if "own_service s user i = Some so" for so st
    using own_service_iff [OF assms(1), of user i so] that by (simp add: service_status_of_def)
  have get: "is_ok (getServiceForUser (sql_update_service i (service_update_set edits (clock s)) s) (sub user) i True)"
    if "own_service s user i = Some so" for so
    using own_service_iff [OF assms(1), of user i so] that
    by (simp add: getServiceForUser_def sql_update_service_def row_by_update)
  have edit: "(is_ok y \<longleftrightarrow> is_ok x) \<and> (\<not> is_ok x \<longrightarrow> t = s)"
  proof (cases "own_service s user i")
    case None
    then show ?thesis using assms(3) cancel(1) own by (auto simp: updateService_def)
  next
    case (Some so)
    show ?thesis
    proof (cases "so_status so = Service_NOT_STARTED")
      case True
      then have "y = getServiceForUser (sql_update_service i (service_update_set edits (clock s)) s) (sub user) i True"
        using assms(3) Some unfolding updateService_def Let_def by simp blast
      then show ?thesis using get [OF Some] cancel(1) own some [OF Some, of Service_NOT_STARTED] Some True
        by simp
    next
      case False
      then have "\<not> is_ok y \<and> t = s" using assms(3) Some by (auto simp: updateService_def)
      then show ?thesis using cancel(1) own some [OF Some, of Service_NOT_STARTED] Some False
        by simp
    qed
  qed
  have "service_owner s i \<noteq> Some (sub user) \<Longrightarrow>
        x = Inl (NotFound ''Service order not found'') \<and> y = Inl (NotFound ''Service order not found'')"
    using own assms(2,3) by (auto simp: cancelService_statements updateService_def)
  moreover have "service_status_of t = service_status_of s" "service_log t = service_log s"
    using updateService_desk [of user i edits s] assms(3) by simp_all
  ultimately show ?thesis using cancel edit by blast
qed

section \<open>Witnesses\<close>

definition sample_service_dto :: create_service_dto where
  "sample_service_dto = \<lparr>ns_serviceType = Type_RENEWAL, ns_description = ''d'', ns_address = ''Giza''\<rparr>"

definition service_db :: db where
  "service_db = snd (createService sample_customer sample_service_dto sample_db)"

definition opened_change :: "service_status change" where
  "opened_change = \<lparr>ch_item = 1, ch_status = Service_NOT_STARTED, ch_by = sub sample_customer, ch_cancel = False,
     ch_written = True\<rparr>"

definition inserted_db :: db where
  "inserted_db = snd (insert_service (sub sample_customer) sample_service_dto sample_db)"

definition opened_run :: "service_status desk_run" where
  "opened_run = recorded_change 0 service_db ((idle_run inserted_db)\<lparr>ru_open := [0 \<mapsto> opened_change]\<rparr>)"

lemma opened_run_steps: "service_statement\<^sup>*\<^sup>* (idle_run empty_db) opened_run"
proof -
  let ?r = "(idle_run inserted_db)\<lparr>ru_open := [0 \<mapsto> opened_change]\<rparr>"
  have "service_statement (idle_run empty_db) (idle_run empty_db\<lparr>ru_db := sample_db\<rparr>)"
    by (rule service_statement.elsewhere) (simp_all add: idle_run_def sample_db_def service_tables_def empty_db_def has_key_def)
  then have "service_statement (idle_run empty_db) (idle_run sample_db)" by (simp add: idle_run_def)
  moreover obtain so where ins: "insert_service (sub sample_customer) sample_service_dto sample_db = (Inr so, inserted_db)"
    and so: "so_id so = 1"
  proof -
    have "map_sum id so_id (fst (insert_service (sub sample_customer) sample_service_dto sample_db)) = Inr 1" by code_simp
    then show thesis using that
      by (cases "fst (insert_service (sub sample_customer) sample_service_dto sample_db)") (auto simp: inserted_db_def prod_eq_iff)
  qed
  then have "service_statement (idle_run sample_db) ?r"
    using service_statement.insert [of sample_customer sample_service_dto "idle_run sample_db" so inserted_db 0]
    by (simp add: idle_run_def opened_change_def)
  moreover have "insert_service_history 1 Service_NOT_STARTED (sub sample_customer) inserted_db = (Inr (), service_db)"
  proof -
    have "fst (insert_service_history 1 Service_NOT_STARTED (sub sample_customer) inserted_db) = Inr ()" by code_simp
    then show ?thesis using ins so by (simp add: service_db_def createService_def bind_h_def prod_eq_iff split: sum.split prod.split)
  qed
  then have "service_statement ?r opened_run"
    using service_statement.history [of ?r 0 opened_change service_db]
    by (simp add: opened_run_def opened_change_def idle_run_def)
  ultimately show ?thesis by (meson r_into_rtranclp rtranclp.rtrancl_into_rtrancl)
qed

theorem service_history_agrees_witness:
  "\<exists>r so. service_statement\<^sup>*\<^sup>* (idle_run empty_db) r \<and> so \<in> set (service_orders (ru_db r)) \<and>
     service_log (ru_db r) (so_id so) = [Service_NOT_STARTED] \<and> so_status so = Service_NOT_STARTED"
proof -
  have "map (\<lambda>so. service_log service_db (so_id so)) (service_orders service_db) = [[Service_NOT_STARTED]]" by code_simp
  moreover have "ru_db opened_run = service_db" by (simp add: opened_run_def recorded_change_def)
  ultimately obtain so where so: "service_orders (ru_db opened_run) = [so]"
    and past: "service_log (ru_db opened_run) (so_id so) = [Service_NOT_STARTED]" by auto
  have quiet: "changes_on (ru_open opened_run) i = {}" "i \<notin> ru_broken opened_run" "i \<notin> ru_overlapped opened_run" for i
    by (simp_all add: opened_run_def run_defs changes_on_def)
  have "so_status so = Service_NOT_STARTED"
    using service_history_agrees [OF opened_run_steps _ quiet(1,2) refl, of so] so past quiet(3) by simp
  then show ?thesis using opened_run_steps so past by auto
qed

theorem service_guards_witness:
  "is_ok (fst (cancelService sample_customer 1 service_db)) \<and>
   \<not> is_ok (fst (cancelService sample_admin 1 service_db))"
proof -
  have inv: "service_inv service_db" by code_simp
  have st: "service_status_of service_db 1 = Some Service_NOT_STARTED" "service_owner service_db 1 = Some 2"
    by code_simp+
  have "is_ok (fst (cancelService u 1 service_db)) \<longleftrightarrow> sub u = 2" for u
    using service_guards [where user = u and i = 1 and
        edits = "\<lparr>us_description = None, us_address = None\<rparr>",
        OF inv prod.collapse [symmetric] prod.collapse [symmetric]] st
    by auto
  then show ?thesis by simp
qed

end
