(* ===== verification/Followups.thy ===== *)
theory Followups
  imports TextOps Samples
begin

text \<open>
  Follow-ups of \<open>KayanService\<close> (\<open>src/kayan/kayan.service.ts\<close>): the steps an administrator posts on an
  order, fault or service order, and the conversation between its customer and one administrator, with
  the ownership and participation checks in front of them.
\<close>

section \<open>Ownership\<close>

definition resolveOwnership :: "db \<Rightarrow> item_type \<Rightarrow> int \<Rightarrow> int option" where
  "resolveOwnership s itemType itemId =
     (case itemType of
        Item_ORDER \<Rightarrow> map_option po_user_id (row_by po_id itemId (product_orders s))
      | Item_FAULT \<Rightarrow> map_option fr_user_id (row_by fr_id itemId (fault_reports s))
      | Item_SERVICE \<Rightarrow> map_option so_user_id (row_by so_id itemId (service_orders s)))"

definition assertUserOwnsItem :: "db \<Rightarrow> auth_user \<Rightarrow> item_type \<Rightarrow> int \<Rightarrow> unit result" where
  "assertUserOwnsItem s user itemType itemId =
     (case resolveOwnership s itemType itemId of
        None \<Rightarrow> Inl (NotFound ''Item not found'')
      | Some ownership \<Rightarrow>
          if isAdmin user then Inr ()
          else if ownership \<noteq> sub user then Inl (Forbidden ''Not allowed'')
          else Inr ())"

definition assertItemExists :: "db \<Rightarrow> item_type \<Rightarrow> int \<Rightarrow> unit result" where
  "assertItemExists s itemType itemId =
     (case resolveOwnership s itemType itemId of
        None \<Rightarrow> Inl (NotFound ''Item not found'')
      | Some _ \<Rightarrow> Inr ())"

definition isActiveAdmin :: "db \<Rightarrow> int \<Rightarrow> bool" where
  "isActiveAdmin s userId \<longleftrightarrow>
     list_ex (\<lambda>u. u_id u = userId \<and> u_is_admin u \<and> u_deleted_at u = None) (users s)"

definition findAnyAdminId :: "db \<Rightarrow> int option" where
  "findAnyAdminId s =
     (case sort_key u_id (filter (\<lambda>u. u_is_admin u \<and> u_deleted_at u = None) (users s)) of
        [] \<Rightarrow> None
      | u # _ \<Rightarrow> Some (u_id u))"

section \<open>Steps\<close>

record create_step_dto =
  nst_itemType :: item_type
  nst_itemId :: int
  nst_title :: string
  nst_stepImageFileId :: "int option"
  nst_sortOrder :: "int option"

record update_step_dto =
  ust_title :: "string option"
  ust_stepImageFileId :: "int option"
  ust_sortOrder :: "int option"

definition listFollowupSteps ::
  "db \<Rightarrow> auth_user \<Rightarrow> item_type \<Rightarrow> int \<Rightarrow> page_query \<Rightarrow> (followup_step list \<times> int) result" where
  "listFollowupSteps s user itemType itemId q =
     (case assertUserOwnsItem s user itemType itemId of
        Inl e \<Rightarrow> Inl e
      | Inr _ \<Rightarrow>
          let rows = filter (\<lambda>st. fs_item_type st = itemType \<and> fs_item_id st = itemId) (followup_steps s)
          in Inr (paged q 50 100 (sort_key (\<lambda>st. (fs_sort_order st, fs_id st)) rows), int (length rows)))"

text \<open>The constraints of \<open>followup_steps\<close>: an \<open>INTEGER\<close> order that is not negative, an existing image.\<close>

definition step_error :: "db \<Rightarrow> followup_step \<Rightarrow> http_error option" where
  "step_error s st =
     (if \<not> int4 (fs_sort_order st) then Some (SqlError ''22003'')
      else if fs_sort_order st < 0 then Some (SqlError ''23514'')
      else if (case fs_step_image_file_id st of None \<Rightarrow> False | Some f \<Rightarrow> \<not> has_key f_id f (files s))
      then Some (SqlError ''23503'')
      else None)"

definition adminCreateFollowupStep :: "auth_user \<Rightarrow> create_step_dto \<Rightarrow> (db, followup_step) handler" where
  "adminCreateFollowupStep admin dto s =
     (case assertItemExists s (nst_itemType dto) (nst_itemId dto) of
        Inl e \<Rightarrow> (Inl e, s)
      | Inr _ \<Rightarrow>
          let s1 = bump T_followup_steps s;
              st = \<lparr>fs_id = seqs s T_followup_steps, fs_item_type = nst_itemType dto,
                    fs_item_id = nst_itemId dto, fs_title = nst_title dto,
                    fs_step_image_file_id = nst_stepImageFileId dto,
                    fs_sort_order = coalesce (nst_sortOrder dto) 0, fs_created_by = sub admin,
                    fs_created_at = clock s, fs_updated_at = clock s\<rparr>
          in case step_error s st of
               Some e \<Rightarrow> (Inl e, s1)
             | None \<Rightarrow>
                 if \<not> has_key u_id (sub admin) (users s) then (Inl (SqlError ''23503''), s1)
                 else (Inr st, s1\<lparr>followup_steps := followup_steps s @ [st]\<rparr>))"

definition step_update_set :: "update_step_dto \<Rightarrow> time \<Rightarrow> followup_step \<Rightarrow> followup_step" where
  "step_update_set dto now st =
     st\<lparr>fs_title := coalesce (ust_title dto) (fs_title st),
        fs_step_image_file_id := coalesce_opt (ust_stepImageFileId dto) (fs_step_image_file_id st),
        fs_sort_order := coalesce (ust_sortOrder dto) (fs_sort_order st), fs_updated_at := now\<rparr>"

definition adminUpdateFollowupStep :: "int \<Rightarrow> update_step_dto \<Rightarrow> (db, followup_step) handler" where
  "adminUpdateFollowupStep stepId dto s =
     (case row_by fs_id stepId (followup_steps s) of
        None \<Rightarrow> (Inl (NotFound ''Step not found''), s)
      | Some old \<Rightarrow>
          let st = step_update_set dto (clock s) old in
          case step_error s st of
            Some e \<Rightarrow> (Inl e, s)
          | None \<Rightarrow> (Inr st, s\<lparr>followup_steps :=
                update_where (\<lambda>r. fs_id r = stepId) (step_update_set dto (clock s)) (followup_steps s)\<rparr>))"

definition adminDeleteFollowupStep :: "int \<Rightarrow> (db, string) handler" where
  "adminDeleteFollowupStep stepId s =
     (if has_key fs_id stepId (followup_steps s)
      then (Inr ''Step deleted'',
            s\<lparr>followup_steps := delete_where (\<lambda>st. fs_id st = stepId) (followup_steps s)\<rparr>)
      else (Inl (NotFound ''Step not found''), s))"

section \<open>Conversations\<close>

record create_followup_conversation_dto =
  nfc_itemType :: item_type
  nfc_itemId :: int
  nfc_adminId :: "int option"

text \<open>\<open>INSERT \<dots> ON CONFLICT (item_type, item_id, user_id) DO UPDATE SET admin_id = EXCLUDED.admin_id\<close>.\<close>

definition upsert_followup_conversation ::
  "item_type \<Rightarrow> int \<Rightarrow> int \<Rightarrow> int \<Rightarrow> (db, followup_conversation) handler" where
  "upsert_followup_conversation itemType itemId userId adminId s =
     (let s1 = bump T_followup_conversations s;
          same = (\<lambda>fc. fc_item_type fc = itemType \<and> fc_item_id fc = itemId \<and> fc_user_id fc = userId)
      in case find same (followup_conversations s) of
           Some old \<Rightarrow>
             if \<not> has_key u_id adminId (users s) then (Inl (SqlError ''23503''), s1)
             else (Inr (old\<lparr>fc_admin_id := adminId\<rparr>),
                   s1\<lparr>followup_conversations :=
                        update_where same (\<lambda>fc. fc\<lparr>fc_admin_id := adminId\<rparr>) (followup_conversations s)\<rparr>)
         | None \<Rightarrow>
             if \<not> has_key u_id userId (users s) \<or> \<not> has_key u_id adminId (users s)
             then (Inl (SqlError ''23503''), s1)
             else
               let fc = \<lparr>fc_id = seqs s T_followup_conversations, fc_item_type = itemType,
                         fc_item_id = itemId, fc_user_id = userId, fc_admin_id = adminId,
                         fc_created_at = clock s\<rparr>
               in (Inr fc, s1\<lparr>followup_conversations := followup_conversations s @ [fc]\<rparr>))"

definition createFollowupConversation ::
  "auth_user \<Rightarrow> create_followup_conversation_dto \<Rightarrow> (db, followup_conversation) handler" where
  "createFollowupConversation user dto s =
     (case assertUserOwnsItem s user (nfc_itemType dto) (nfc_itemId dto) of
        Inl e \<Rightarrow> (Inl e, s)
      | Inr _ \<Rightarrow>
          (case coalesce_opt (nfc_adminId dto) (findAnyAdminId s) of
             None \<Rightarrow> (Inl (BadRequest ''No admin account available''), s)
           | Some adminId \<Rightarrow>
               if adminId = 0 then (Inl (BadRequest ''No admin account available''), s)
               else if \<not> isActiveAdmin s adminId then (Inl (BadRequest ''Admin not found''), s)
               else upsert_followup_conversation (nfc_itemType dto) (nfc_itemId dto) (sub user) adminId s))"

definition assertFollowupConversationAccess :: "db \<Rightarrow> auth_user \<Rightarrow> int \<Rightarrow> unit result" where
  "assertFollowupConversationAccess s user conversationId =
     (case row_by fc_id conversationId (followup_conversations s) of
        None \<Rightarrow> Inl (NotFound ''Conversation not found'')
      | Some row \<Rightarrow>
          if fc_user_id row \<noteq> sub user \<and> fc_admin_id row \<noteq> sub user then Inl (Forbidden ''Not allowed'')
          else Inr ())"

definition assertFollowupConversationItemScope :: "db \<Rightarrow> int \<Rightarrow> item_type \<Rightarrow> int \<Rightarrow> unit result" where
  "assertFollowupConversationItemScope s conversationId itemType itemId =
     (if list_ex (\<lambda>fc. fc_id fc = conversationId \<and> fc_item_type fc = itemType \<and> fc_item_id fc = itemId)
           (followup_conversations s)
      then Inr () else Inl (NotFound ''Conversation not found''))"

text \<open>The two checks in front of reading and sending; the scope is optional.\<close>

definition conversation_gate :: "db \<Rightarrow> auth_user \<Rightarrow> int \<Rightarrow> (item_type \<times> int) option \<Rightarrow> unit result" where
  "conversation_gate s user conversationId scope =
     (case assertFollowupConversationAccess s user conversationId of
        Inl e \<Rightarrow> Inl e
      | Inr _ \<Rightarrow>
          (case scope of
             None \<Rightarrow> Inr ()
           | Some (itemType, itemId) \<Rightarrow>
               assertFollowupConversationItemScope s conversationId itemType itemId))"

definition listFollowupMessages ::
  "db \<Rightarrow> auth_user \<Rightarrow> int \<Rightarrow> (item_type \<times> int) option \<Rightarrow> followup_message list result" where
  "listFollowupMessages s user conversationId scope =
     (case conversation_gate s user conversationId scope of
        Inl e \<Rightarrow> Inl e
      | Inr _ \<Rightarrow> Inr (sort_key fm_sent_at
                  (filter (\<lambda>m. fm_conversation_id m = conversationId) (followup_messages s))))"

text \<open>\<open>CHECK (LENGTH(BTRIM(message_text)) > 0)\<close>: some character is not a space.\<close>

definition blank_text :: "string \<Rightarrow> bool" where
  "blank_text t \<longleftrightarrow> list_all (\<lambda>c. c = CHR '' '') t"

definition sendFollowupMessage ::
  "auth_user \<Rightarrow> int \<Rightarrow> string \<Rightarrow> (item_type \<times> int) option \<Rightarrow> (db, followup_message) handler" where
  "sendFollowupMessage user conversationId messageText scope s =
     (case conversation_gate s user conversationId scope of
        Inl e \<Rightarrow> (Inl e, s)
      | Inr _ \<Rightarrow>
          let s1 = bump T_followup_messages s;
              m = \<lparr>fm_id = seqs s T_followup_messages, fm_conversation_id = conversationId,
                   fm_sender_id = sub user, fm_message_text = messageText, fm_sent_at = clock s\<rparr>
          in if blank_text messageText then (Inl (SqlError ''23514''), s1)
             else if \<not> has_key u_id (sub user) (users s) then (Inl (SqlError ''23503''), s1)
             else (Inr m, s1\<lparr>followup_messages := followup_messages s @ [m]\<rparr>))"

section \<open>Who talks to whom\<close>

definition followup_inv :: "db \<Rightarrow> bool" where
  "followup_inv s \<longleftrightarrow>
     pk fc_id (seqs s T_followup_conversations) (followup_conversations s) \<and>
     distinct (map (\<lambda>fc. (fc_item_type fc, fc_item_id fc, fc_user_id fc)) (followup_conversations s)) \<and>
     (\<forall>m \<in> set (followup_messages s). fm_sent_at m \<le> clock s)"

definition participant :: "db \<Rightarrow> int \<Rightarrow> int \<Rightarrow> bool" where
  "participant s conversationId userId \<longleftrightarrow>
     (\<exists>fc. row_by fc_id conversationId (followup_conversations s) = Some fc \<and>
        (fc_user_id fc = userId \<or> fc_admin_id fc = userId))"

definition in_scope :: "db \<Rightarrow> int \<Rightarrow> (item_type \<times> int) option \<Rightarrow> bool" where
  "in_scope s conversationId scope \<longleftrightarrow>
     (case scope of None \<Rightarrow> True
      | Some (ty, i) \<Rightarrow> \<exists>fc \<in> set (followup_conversations s).
          fc_id fc = conversationId \<and> fc_item_type fc = ty \<and> fc_item_id fc = i)"

lemma conversation_gate_iff:
  "is_ok (conversation_gate s user c scope) \<longleftrightarrow> participant s c (sub user) \<and> in_scope s c scope"
  by (auto simp: conversation_gate_def assertFollowupConversationAccess_def participant_def in_scope_def
      assertFollowupConversationItemScope_def list_ex_iff split: option.splits)

lemma conversation_gate_ok:
  "participant s c (sub user) \<Longrightarrow> in_scope s c scope \<Longrightarrow> conversation_gate s user c scope = Inr ()"
  using conversation_gate_iff [of s user c scope] by (cases "conversation_gate s user c scope") auto

lemma listFollowupMessages_iff:
  "is_ok (listFollowupMessages s reader c scope) \<longleftrightarrow> participant s c (sub reader) \<and> in_scope s c scope"
  using conversation_gate_iff [of s reader c scope] by (auto simp: listFollowupMessages_def split: sum.split)

text \<open>C12: only the customer and the assigned administrator of a follow-up conversation can write to it or
  read it, and only under the item it belongs to; a message that is sent (its text not blank) is then the
  last one that every participant reads, after all the earlier ones, and no other conversation changes.\<close>

theorem followup_message_delivery:
  assumes "followup_inv s" and "sendFollowupMessage user c text scope s = (x, s')"
  shows "(is_ok x \<longleftrightarrow> participant s c (sub user) \<and> in_scope s c scope \<and> \<not> blank_text text \<and>
        has_key u_id (sub user) (users s)) \<and>
     (\<forall>reader d other. is_ok (listFollowupMessages s' reader d other) \<longleftrightarrow>
        participant s d (sub reader) \<and> in_scope s d other) \<and>
     (case x of
        Inl e \<Rightarrow> s'\<lparr>seqs := seqs s\<rparr> = s
      | Inr m \<Rightarrow> fm_message_text m = text \<and> fm_sender_id m = sub user \<and>
          (\<forall>reader other old. listFollowupMessages s reader c other = Inr old \<longrightarrow>
             listFollowupMessages s' reader c other = Inr (old @ [m])) \<and>
          (\<forall>reader d other. d \<noteq> c \<longrightarrow>
             listFollowupMessages s' reader d other = listFollowupMessages s reader d other))"
proof (cases "participant s c (sub user) \<and> in_scope s c scope \<and> \<not> blank_text text \<and>
        has_key u_id (sub user) (users s)")
  case False
  then have "\<not> is_ok x \<and> s'\<lparr>seqs := seqs s\<rparr> = s"
    using assms(2) conversation_gate_iff [of s user c scope]
    by (auto simp: sendFollowupMessage_def Let_def bump_def split: sum.splits if_splits)
  moreover from this have "followup_conversations (s'\<lparr>seqs := seqs s\<rparr>) = followup_conversations s" by metis
  then have "followup_conversations s' = followup_conversations s" by simp
  then have "is_ok (listFollowupMessages s' reader d other) \<longleftrightarrow> participant s d (sub reader) \<and> in_scope s d other"
    for reader d other
    by (simp add: listFollowupMessages_iff participant_def in_scope_def split: option.split)
  ultimately show ?thesis using False by (auto split: sum.split)
next
  case True
  define m where "m = \<lparr>fm_id = seqs s T_followup_messages, fm_conversation_id = c,
                   fm_sender_id = sub user, fm_message_text = text, fm_sent_at = clock s\<rparr>"
  have m: "fm_conversation_id m = c" "fm_sent_at m = clock s" "fm_message_text m = text"
    "fm_sender_id m = sub user" by (simp_all add: m_def)
  have x: "x = Inr m" and s': "s' = (bump T_followup_messages s)\<lparr>followup_messages := followup_messages s @ [m]\<rparr>"
    using assms(2) True conversation_gate_ok [of s c user scope]
    by (auto simp: sendFollowupMessage_def Let_def m_def)
  have gate: "conversation_gate s' reader d other = conversation_gate s reader d other" for reader d other
    by (simp add: s' conversation_gate_def assertFollowupConversationAccess_def
        assertFollowupConversationItemScope_def split: option.split sum.split)
  have msgs: "followup_messages s' = followup_messages s @ [m]" by (simp add: s')
  have sorted: "sort_key fm_sent_at (filter (\<lambda>n. fm_conversation_id n = c) (followup_messages s) @ [m]) =
      sort_key fm_sent_at (filter (\<lambda>n. fm_conversation_id n = c) (followup_messages s)) @ [m]"
    by (rule sort_key_snoc_max) (use assms(1) m in \<open>auto simp: followup_inv_def\<close>)
  have same: "listFollowupMessages s' reader c other = Inr (old @ [m])"
    if "listFollowupMessages s reader c other = Inr old" for reader other old
    using that sorted m by (auto simp: listFollowupMessages_def gate msgs split: sum.splits)
  have others: "listFollowupMessages s' reader d other = listFollowupMessages s reader d other"
    if "d \<noteq> c" for reader d other
    using that m by (simp add: listFollowupMessages_def gate msgs split: sum.split)
  have readers: "is_ok (listFollowupMessages s' reader d other) \<longleftrightarrow> participant s d (sub reader) \<and> in_scope s d other"
    for reader d other
    by (simp add: listFollowupMessages_iff participant_def in_scope_def s' split: option.split)
  show ?thesis using True x m same others readers by simp
qed

lemma admin_choice:
  "findAnyAdminId s = Some a \<Longrightarrow> isActiveAdmin s a \<and>
     (\<forall>u \<in> set (users s). u_is_admin u \<and> u_deleted_at u = None \<longrightarrow> a \<le> u_id u)"
proof -
  let ?xs = "sort_key u_id (filter (\<lambda>u. u_is_admin u \<and> u_deleted_at u = None) (users s))"
  assume "findAnyAdminId s = Some a"
  then obtain u us where xs: "?xs = u # us" and a: "a = u_id u"
    by (auto simp: findAnyAdminId_def split: list.splits)
  have set: "set (u # us) = {v \<in> set (users s). u_is_admin v \<and> u_deleted_at v = None}"
    unfolding xs [symmetric] by simp
  have "sorted (map u_id (u # us))" unfolding xs [symmetric] by simp
  then have "\<forall>v \<in> set (u # us). a \<le> u_id v" by (auto simp: a)
  moreover have "u \<in> set (u # us)" by simp
  ultimately show ?thesis unfolding set isActiveAdmin_def list_ex_iff a by blast
qed

definition conv_key :: "followup_conversation \<Rightarrow> item_type \<times> int \<times> int" where
  "conv_key fc = (fc_item_type fc, fc_item_id fc, fc_user_id fc)"

text \<open>A customer opens a follow-up conversation on an own item only (an administrator on any existing
  item), and always with an active administrator, the one asked for or else the one with the smallest id.
  Opening again reassigns the administrator of the same conversation: there is never more than one per
  item and customer.\<close>

theorem createFollowupConversation_effect:
  assumes "followup_inv s" and "createFollowupConversation user dto s = (x, s')"
  shows "followup_inv s' \<and>
     (case x of
        Inl e \<Rightarrow> s'\<lparr>seqs := seqs s\<rparr> = s
      | Inr fc \<Rightarrow>
          (\<exists>owner. resolveOwnership s (nfc_itemType dto) (nfc_itemId dto) = Some owner \<and>
             (isAdmin user \<or> owner = sub user)) \<and>
          conv_key fc = (nfc_itemType dto, nfc_itemId dto, sub user) \<and>
          fc \<in> set (followup_conversations s') \<and> isActiveAdmin s (fc_admin_id fc) \<and>
          (case nfc_adminId dto of
             Some a \<Rightarrow> fc_admin_id fc = a
           | None \<Rightarrow> \<forall>u \<in> set (users s). u_is_admin u \<and> u_deleted_at u = None \<longrightarrow> fc_admin_id fc \<le> u_id u) \<and>
          (\<forall>old \<in> set (followup_conversations s). conv_key old = conv_key fc \<longrightarrow> fc_id fc = fc_id old))"
proof (cases x)
  case (Inl e)
  then have "followup_conversations s' = followup_conversations s \<and> followup_messages s' = followup_messages s \<and>
      clock s' = clock s \<and> seqs s T_followup_conversations \<le> seqs s' T_followup_conversations \<and>
      s'\<lparr>seqs := seqs s\<rparr> = s"
    using assms(2)
    by (auto simp: createFollowupConversation_def upsert_followup_conversation_def Let_def bump_def
        split: sum.splits option.splits if_splits)
  then show ?thesis
    using assms(1) Inl by (auto simp: followup_inv_def intro: pk_mono)
next
  case (Inr fc)
  obtain a owner where adm: "coalesce_opt (nfc_adminId dto) (findAnyAdminId s) = Some a" "isActiveAdmin s a"
      and own: "resolveOwnership s (nfc_itemType dto) (nfc_itemId dto) = Some owner"
        "isAdmin user \<or> owner = sub user"
      and up: "upsert_followup_conversation (nfc_itemType dto) (nfc_itemId dto) (sub user) a s = (Inr fc, s')"
    using assms(2) Inr
    by (auto simp: createFollowupConversation_def assertUserOwnsItem_def split: sum.splits option.splits if_splits)
  let ?k = "(nfc_itemType dto, nfc_itemId dto, sub user)"
  let ?same = "\<lambda>fc. fc_item_type fc = nfc_itemType dto \<and> fc_item_id fc = nfc_itemId dto \<and> fc_user_id fc = sub user"
  have same: "?same c \<longleftrightarrow> conv_key c = ?k" for c by (auto simp: conv_key_def)
  have keys: "distinct (map conv_key (followup_conversations s))"
    and pk: "pk fc_id (seqs s T_followup_conversations) (followup_conversations s)"
    using assms(1) by (auto simp: followup_inv_def conv_key_def [abs_def])
  have choice: "case nfc_adminId dto of Some b \<Rightarrow> a = b
      | None \<Rightarrow> \<forall>u \<in> set (users s). u_is_admin u \<and> u_deleted_at u = None \<longrightarrow> a \<le> u_id u"
    using adm(1) admin_choice by (auto simp: coalesce_opt_def split: option.splits)
  show ?thesis
  proof (cases "find ?same (followup_conversations s)")
    case None
    then have fresh: "\<forall>c \<in> set (followup_conversations s). conv_key c \<noteq> ?k"
      by (auto simp: find_None_iff conv_key_def)
    have fc: "fc = \<lparr>fc_id = seqs s T_followup_conversations, fc_item_type = nfc_itemType dto,
                         fc_item_id = nfc_itemId dto, fc_user_id = sub user, fc_admin_id = a,
                         fc_created_at = clock s\<rparr>"
      and s': "s' = (bump T_followup_conversations s)\<lparr>followup_conversations := followup_conversations s @ [fc]\<rparr>"
      using up None by (auto simp: upsert_followup_conversation_def Let_def split: if_splits)
    have k: "conv_key fc = ?k" "fc_id fc = seqs s T_followup_conversations" "fc_admin_id fc = a"
      by (simp_all add: fc conv_key_def)
    have "pk fc_id (seqs s T_followup_conversations + 1) (followup_conversations s @ [fc])"
      by (rule pk_insert [OF pk k(2)])
    moreover have "distinct (map conv_key (followup_conversations s @ [fc]))"
      using keys fresh k(1) by auto
    ultimately have "followup_inv s'"
      using assms(1) by (simp add: s' followup_inv_def conv_key_def [abs_def])
    then show ?thesis using Inr own adm(2) k choice fresh s' by auto
  next
    case (Some old)
    have old: "old \<in> set (followup_conversations s)" "conv_key old = ?k"
      using find_SomeD [OF Some] same by auto
    let ?f = "\<lambda>fc. fc\<lparr>fc_admin_id := a\<rparr>"
    have fc: "fc = ?f old"
      and s': "s' = (bump T_followup_conversations s)\<lparr>followup_conversations :=
          update_where ?same ?f (followup_conversations s)\<rparr>"
      using up Some by (auto simp: upsert_followup_conversation_def Let_def split: if_splits)
    have "pk fc_id (seqs s T_followup_conversations + 1) (update_where ?same ?f (followup_conversations s))"
      by (rule pk_step [OF pk_update [OF _ pk]]) simp
    moreover have "map conv_key (update_where ?same ?f (followup_conversations s)) =
        map conv_key (followup_conversations s)"
      by (rule update_where_ids) (simp add: conv_key_def)
    then have "distinct (map conv_key (update_where ?same ?f (followup_conversations s)))"
      using keys by simp
    ultimately have inv: "followup_inv s'"
      using assms(1) by (simp add: s' followup_inv_def conv_key_def [abs_def])
    have "fc \<in> set (followup_conversations s')"
      using old same by (auto simp: s' fc set_update_where)
    moreover have "c = old" if "c \<in> set (followup_conversations s)" "conv_key c = ?k" for c
      using that old keys by (auto simp: distinct_map inj_on_def)
    moreover have "conv_key fc = ?k" "fc_admin_id fc = a" "fc_id fc = fc_id old"
      using old(2) by (simp_all add: fc conv_key_def)
    ultimately show ?thesis using Inr own adm(2) choice inv by auto
  qed
qed

section \<open>Witnesses\<close>

definition followup_db :: db where
  "followup_db = snd (createFollowupConversation sample_customer
     \<lparr>nfc_itemType = Item_ORDER, nfc_itemId = 1, nfc_adminId = None\<rparr> sample_db)"

theorem createFollowupConversation_effect_witness:
  "\<exists>fc s'. createFollowupConversation sample_customer
     \<lparr>nfc_itemType = Item_ORDER, nfc_itemId = 1, nfc_adminId = None\<rparr> sample_db = (Inr fc, s') \<and>
     conv_key fc = (Item_ORDER, 1, 2) \<and> followup_inv s'"
proof -
  let ?dto = "\<lparr>nfc_itemType = Item_ORDER, nfc_itemId = 1, nfc_adminId = None\<rparr>"
  have inv: "followup_inv sample_db" by code_simp
  have "is_ok (fst (createFollowupConversation sample_customer ?dto sample_db))" by code_simp
  then obtain fc s' where run: "createFollowupConversation sample_customer ?dto sample_db = (Inr fc, s')"
    by (metis is_okE prod.collapse)
  show ?thesis using createFollowupConversation_effect [OF inv run] run by simp
qed

theorem followup_message_delivery_witness:
  "\<exists>m s'. sendFollowupMessage sample_customer 1 ''hi'' (Some (Item_ORDER, 1)) followup_db = (Inr m, s') \<and>
     listFollowupMessages s' sample_admin 1 None = Inr [m] \<and>
   \<not> is_ok (fst (sendFollowupMessage \<lparr>sub = 3, isAdmin = False\<rparr> 1 ''hi'' None followup_db))"
proof -
  have inv: "followup_inv followup_db" by code_simp
  have "is_ok (fst (sendFollowupMessage sample_customer 1 ''hi'' (Some (Item_ORDER, 1)) followup_db))"
    by code_simp
  then obtain m s' where run:
    "sendFollowupMessage sample_customer 1 ''hi'' (Some (Item_ORDER, 1)) followup_db = (Inr m, s')"
    by (metis is_okE prod.collapse)
  have "listFollowupMessages followup_db sample_admin 1 None = Inr []" by code_simp
  moreover have "\<not> is_ok (fst (sendFollowupMessage \<lparr>sub = 3, isAdmin = False\<rparr> 1 ''hi'' None followup_db))"
    by code_simp
  ultimately show ?thesis using followup_message_delivery [OF inv run] run by fastforce
qed

end
