(* ===== verification/Gallery.thy ===== *)
theory Gallery
  imports Assets Samples
begin

text \<open>
  The gallery of \<open>KayanService\<close> (\<open>src/kayan/kayan.service.ts\<close>): the public and the administrator's
  list, one item, and create, update and soft delete with the images of an item, a
  \<open>unique_asset_store\<close>.
\<close>

section \<open>Operations\<close>

record gallery_view =
  gv_id :: int
  gv_title :: string
  gv_description :: string
  gv_is_active :: bool
  gv_created_at :: time

record list_gallery_query = page_query +
  lg_query :: "string option"

record create_gallery_dto =
  ng_title :: string
  ng_description :: string
  ng_imageFileIds :: "int list option"

record update_gallery_dto =
  ug_title :: "string option"
  ug_description :: "string option"
  ug_isActive :: "bool option"
  ug_imageFileIds :: "int list option"

definition gallery_row :: "gallery_item \<Rightarrow> gallery_view" where
  "gallery_row g = \<lparr>gv_id = gi_id g, gv_title = gi_title g, gv_description = gi_description g,
     gv_is_active = gi_is_active g, gv_created_at = gi_created_at g\<rparr>"

definition gallery_payload :: "db \<Rightarrow> gallery_asset \<Rightarrow> asset_view" where
  "gallery_payload s ga = asset_payload s (ga_file_id ga) (ga_sort_order ga)"

definition attachGalleryAssets :: "db \<Rightarrow> gallery_view list \<Rightarrow> (gallery_view \<times> asset_view list) list" where
  "attachGalleryAssets s galleryItems =
     (if galleryItems = [] then []
      else
        let galleryItemIds = map gv_id galleryItems;
            assets = sort_key (\<lambda>ga. (ga_gallery_item_id ga, ga_sort_order ga, ga_id ga))
              (filter (\<lambda>ga. ga_gallery_item_id ga \<in> set galleryItemIds) (gallery_assets s));
            byGalleryItemId = bucket_by ga_gallery_item_id (gallery_payload s) assets
        in map (\<lambda>item. (item, bucket_get byGalleryItemId (gv_id item))) galleryItems)"

definition gallery_where :: "bool \<Rightarrow> list_gallery_query \<Rightarrow> gallery_item \<Rightarrow> bool" where
  "gallery_where activeOnly q g \<longleftrightarrow>
     gi_deleted_at g = None \<and> (activeOnly \<longrightarrow> gi_is_active g) \<and>
     opt_holds (lg_query q) (\<lambda>t. t = [] \<or>
        ilike (gi_title g) (contains_pattern t) \<or> ilike (gi_description g) (contains_pattern t))"

definition listGalleryItems ::
  "db \<Rightarrow> bool \<Rightarrow> list_gallery_query \<Rightarrow> (gallery_view \<times> asset_view list) list \<times> int" where
  "listGalleryItems s activeOnly q =
     (let rows = filter (gallery_where activeOnly q) (gallery_items s) in
      (attachGalleryAssets s
         (map gallery_row (paged (page_query.truncate q) 20 100
            (sort_key (\<lambda>g. (- gi_created_at g, - gi_id g)) rows))),
       int (length rows)))"

definition listGallery :: "db \<Rightarrow> list_gallery_query \<Rightarrow> (gallery_view \<times> asset_view list) list \<times> int" where
  "listGallery s q = listGalleryItems s True q"

definition adminListGallery :: "db \<Rightarrow> list_gallery_query \<Rightarrow> (gallery_view \<times> asset_view list) list \<times> int" where
  "adminListGallery s q = listGalleryItems s False q"

definition live_gallery :: "db \<Rightarrow> int \<Rightarrow> gallery_item option" where
  "live_gallery s i = find (\<lambda>g. gi_id g = i \<and> gi_deleted_at g = None) (gallery_items s)"

definition getGalleryItemWithExecutor :: "db \<Rightarrow> int \<Rightarrow> (gallery_view \<times> asset_view list) result" where
  "getGalleryItemWithExecutor s galleryId =
     (case live_gallery s galleryId of
        None \<Rightarrow> Inl (NotFound ''Gallery item not found'')
      | Some g \<Rightarrow> Inr (hd (attachGalleryAssets s [gallery_row g])))"

definition getGalleryItem :: "db \<Rightarrow> int \<Rightarrow> (gallery_view \<times> asset_view list) result" where
  "getGalleryItem s galleryId = getGalleryItemWithExecutor s galleryId"

definition insert_gallery_asset :: "int \<Rightarrow> int \<Rightarrow> int \<Rightarrow> (db, unit) handler" where
  "insert_gallery_asset galleryItemId fileId i s =
     (let s1 = bump T_gallery_assets s in
      if list_ex (\<lambda>a. ga_gallery_item_id a = galleryItemId \<and> ga_file_id a = fileId) (gallery_assets s)
      then (Inl (SqlError ''23505''), s1)
      else if \<not> has_key gi_id galleryItemId (gallery_items s) \<or> \<not> has_key f_id fileId (files s)
      then (Inl (SqlError ''23503''), s1)
      else (Inr (), s1\<lparr>gallery_assets := gallery_assets s @
             [\<lparr>ga_id = seqs s T_gallery_assets, ga_gallery_item_id = galleryItemId, ga_file_id = fileId,
               ga_sort_order = i\<rparr>]\<rparr>))"

definition clear_gallery_assets :: "int \<Rightarrow> db \<Rightarrow> db" where
  "clear_gallery_assets galleryItemId s =
     s\<lparr>gallery_assets := delete_where (\<lambda>a. ga_gallery_item_id a = galleryItemId) (gallery_assets s)\<rparr>"

definition syncGalleryAssets :: "int \<Rightarrow> int list \<Rightarrow> (db, unit) handler" where
  "syncGalleryAssets galleryItemId fileIds s =
     for_each (\<lambda>(i, f). insert_gallery_asset galleryItemId f (int i)) (enumerate 0 fileIds)
       (clear_gallery_assets galleryItemId s)"

definition insert_gallery_item :: "int \<Rightarrow> create_gallery_dto \<Rightarrow> (db, int) handler" where
  "insert_gallery_item adminId dto s =
     (let s1 = bump T_gallery_items s in
      if \<not> has_key u_id adminId (users s) then (Inl (SqlError ''23503''), s1)
      else (Inr (seqs s T_gallery_items), s1\<lparr>gallery_items := gallery_items s @
             [\<lparr>gi_id = seqs s T_gallery_items, gi_title = ng_title dto, gi_description = ng_description dto,
               gi_is_active = True, gi_created_by = adminId, gi_updated_by = adminId,
               gi_deleted_at = None, gi_created_at = clock s, gi_updated_at = clock s\<rparr>]\<rparr>))"

definition adminCreateGalleryItem ::
  "auth_user \<Rightarrow> create_gallery_dto \<Rightarrow> (db, gallery_view \<times> asset_view list) handler" where
  "adminCreateGalleryItem admin dto =
     with_transaction
       (bind_h (insert_gallery_item (sub admin) dto) (\<lambda>i.
        bind_h (syncGalleryAssets i (coalesce (ng_imageFileIds dto) [])) (\<lambda>_ s.
        (getGalleryItemWithExecutor s i, s))))"

text \<open>\<open>UPDATE gallery_items SET \<dots>, updated_by = $n WHERE id = $m AND deleted_at IS NULL\<close>.\<close>

definition sql_update_gallery :: "int \<Rightarrow> int \<Rightarrow> (gallery_item \<Rightarrow> gallery_item) \<Rightarrow> (db, nat) handler" where
  "sql_update_gallery adminId i f s =
     (let p = (\<lambda>g. gi_id g = i \<and> gi_deleted_at g = None);
          hit = filter p (gallery_items s)
      in if list_ex (\<lambda>g. gi_updated_by g \<noteq> adminId) hit \<and> \<not> has_key u_id adminId (users s)
         then (Inl (SqlError ''23503''), s)
         else (Inr (length hit), s\<lparr>gallery_items :=
                update_where p (\<lambda>g. (f g)\<lparr>gi_updated_by := adminId, gi_updated_at := clock s\<rparr>) (gallery_items s)\<rparr>))"

definition gallery_update_set :: "update_gallery_dto \<Rightarrow> gallery_item \<Rightarrow> gallery_item" where
  "gallery_update_set dto g =
     g\<lparr>gi_title := coalesce (ug_title dto) (gi_title g),
       gi_description := coalesce (ug_description dto) (gi_description g),
       gi_is_active := coalesce (ug_isActive dto) (gi_is_active g)\<rparr>"

definition adminUpdateGalleryItem ::
  "auth_user \<Rightarrow> int \<Rightarrow> update_gallery_dto \<Rightarrow> (db, gallery_view \<times> asset_view list) handler" where
  "adminUpdateGalleryItem admin galleryId dto =
     with_transaction
       (bind_h (sql_update_gallery (sub admin) galleryId (gallery_update_set dto)) (\<lambda>rowCount.
        if rowCount = 0 then (\<lambda>s. (Inl (NotFound ''Gallery item not found''), s))
        else
          bind_h (sync_if (syncGalleryAssets galleryId) (ug_imageFileIds dto)) (\<lambda>_ s.
          (getGalleryItemWithExecutor s galleryId, s))))"

definition adminDeleteGalleryItem :: "auth_user \<Rightarrow> int \<Rightarrow> (db, string) handler" where
  "adminDeleteGalleryItem admin galleryId s =
     (case sql_update_gallery (sub admin) galleryId (\<lambda>g. g\<lparr>gi_deleted_at := Some (clock s)\<rparr>) s of
        (Inl e, s1) \<Rightarrow> (Inl e, s1)
      | (Inr rowCount, s1) \<Rightarrow>
          if rowCount = 0 then (Inl (NotFound ''Gallery item not found''), s1)
          else (Inr ''Gallery item deleted'', s1))"

section \<open>Images\<close>

definition gallery_asset_rows :: "db \<Rightarrow> int \<Rightarrow> (int \<times> int) list" where
  "gallery_asset_rows s i =
     map (\<lambda>a. (ga_file_id a, ga_sort_order a)) (filter (\<lambda>a. ga_gallery_item_id a = i) (gallery_assets s))"

interpretation gallery_store:
  unique_asset_store insert_gallery_asset clear_gallery_assets syncGalleryAssets gallery_asset_rows
    "\<lambda>s i. has_key gi_id i (gallery_items s)"
proof unfold_locales
  show "syncGalleryAssets own fs s = for_each (\<lambda>(i, f). insert_gallery_asset own f (int i))
          (enumerate 0 fs) (clear_gallery_assets own s)" for own fs s
    by (simp add: syncGalleryAssets_def)
  show "gallery_asset_rows (clear_gallery_assets own s) own = []" for own s
    by (simp add: gallery_asset_rows_def clear_gallery_assets_def delete_where_def)
  show "gallery_asset_rows (clear_gallery_assets own s) other = gallery_asset_rows s other"
    if "other \<noteq> own" for other own s
    using that
    by (auto simp: gallery_asset_rows_def clear_gallery_assets_def delete_where_def
        intro!: arg_cong [where f = "map _"] filter_cong)
  show "gallery_asset_rows s' own = gallery_asset_rows s own @ [(f, i)]"
    if "insert_gallery_asset own f i s = (Inr (), s')" for own f i s s'
    using that by (auto simp: insert_gallery_asset_def gallery_asset_rows_def Let_def split: if_splits)
  show "gallery_asset_rows (snd (insert_gallery_asset own f i s)) other = gallery_asset_rows s other"
    if "other \<noteq> own" for other own f i s
    using that by (auto simp: insert_gallery_asset_def gallery_asset_rows_def Let_def)
  show "is_ok (fst (insert_gallery_asset own f i s)) \<longleftrightarrow> f \<notin> fst ` set (gallery_asset_rows s own) \<and>
      has_key gi_id own (gallery_items s) \<and> has_key f_id f (files s)" for own f i s
    by (auto simp: insert_gallery_asset_def gallery_asset_rows_def Let_def list_ex_iff image_iff)
qed (simp_all add: insert_gallery_asset_def clear_gallery_assets_def Let_def)

definition gallery_images :: "db \<Rightarrow> int \<Rightarrow> asset_view list" where
  "gallery_images s i = map (gallery_payload s)
     (sort_key (\<lambda>ga. (ga_sort_order ga, ga_id ga)) (filter (\<lambda>a. ga_gallery_item_id a = i) (gallery_assets s)))"

lemma attachGalleryAssets_eq:
  "attachGalleryAssets s gs = map (\<lambda>v. (v, gallery_images s (gv_id v))) gs"
proof -
  have "bucket_get (bucket_by ga_gallery_item_id (gallery_payload s)
        (sort_key (\<lambda>ga. (ga_gallery_item_id ga, ga_sort_order ga, ga_id ga))
          (filter (\<lambda>ga. ga_gallery_item_id ga \<in> ids) (gallery_assets s)))) i = gallery_images s i"
    if "i \<in> ids" for i ids
  proof -
    have "filter (\<lambda>ga. ga_gallery_item_id ga = i) (filter (\<lambda>ga. ga_gallery_item_id ga \<in> ids) (gallery_assets s)) =
        filter (\<lambda>ga. ga_gallery_item_id ga = i) (gallery_assets s)"
      using that by (auto intro!: filter_cong)
    then show ?thesis
      unfolding bucket_by_get gallery_images_def filter_sort
      by (auto intro!: arg_cong [where f = "map _"] sort_key_same_order simp: less_eq_prod_def)
  qed
  then show ?thesis by (auto simp: attachGalleryAssets_def Let_def)
qed

lemma gallery_images_indexed:
  assumes "gallery_asset_rows s i = indexed fs"
  shows "map av_file_id (gallery_images s i) = fs"
proof -
  let ?xs = "filter (\<lambda>a. ga_gallery_item_id a = i) (gallery_assets s)"
  have "map snd (gallery_asset_rows s i) = map snd (indexed fs)"
    and ids: "map fst (gallery_asset_rows s i) = fs" using assms by simp_all
  then have "map ga_sort_order ?xs = map snd (indexed fs)" by (simp add: gallery_asset_rows_def comp_def)
  then have "sort_key (\<lambda>ga. (ga_sort_order ga, ga_id ga)) ?xs = ?xs" by (rule sort_indexed) auto
  then show ?thesis
    using ids by (simp add: gallery_images_def gallery_asset_rows_def gallery_payload_def comp_def)
qed

lemma getGalleryItem_eq:
  "getGalleryItem s i =
     (case live_gallery s i of
        None \<Rightarrow> Inl (NotFound ''Gallery item not found'')
      | Some g \<Rightarrow> Inr (gallery_row g, gallery_images s i))"
  by (auto simp: getGalleryItem_def getGalleryItemWithExecutor_def attachGalleryAssets_eq gallery_row_def
      live_gallery_def dest: find_SomeD split: option.split)

lemma sync_gallery_frame:
  "gallery_items (snd (syncGalleryAssets i fs s)) = gallery_items s \<and>
   seqs s t \<le> seqs (snd (syncGalleryAssets i fs s)) t \<and>
   seqs (snd (syncGalleryAssets i fs s)) T_gallery_items = seqs s T_gallery_items"
proof -
  have "gallery_items (snd (insert_gallery_asset i f n u)) = gallery_items u"
    "seqs u t \<le> seqs (snd (insert_gallery_asset i f n u)) t"
    "seqs (snd (insert_gallery_asset i f n u)) T_gallery_items = seqs u T_gallery_items" for f n u
    by (simp_all add: insert_gallery_asset_def Let_def)
  then show ?thesis
    unfolding syncGalleryAssets_def
    by (intro for_each_preserves [where P = "\<lambda>u. gallery_items u = gallery_items s \<and> seqs s t \<le> seqs u t \<and>
          seqs u T_gallery_items = seqs s T_gallery_items"])
       (auto simp: clear_gallery_assets_def intro: order_trans split: prod.splits)
qed

section \<open>What visitors see\<close>

text \<open>visitors see a gallery item in the public list only while it is neither deleted nor inactive,
  matching the search text in title or description ignoring case (no character of it a wildcard), newest
  first; the count is that of all matches, and the list is its page.\<close>

theorem listGallery_sound:
  "(\<forall>v \<in> fst ` set (fst (listGallery s q)). \<exists>g \<in> set (gallery_items s). v = gallery_row g \<and>
      gi_deleted_at g = None \<and> gi_is_active g \<and>
      (\<forall>t. lg_query q = Some t \<longrightarrow> sublist (lower t) (lower (gi_title g)) \<or>
         sublist (lower t) (lower (gi_description g)))) \<and>
   sorted_wrt (\<lambda>a b. gv_created_at b \<le> gv_created_at a) (map fst (fst (listGallery s q))) \<and>
   snd (listGallery s q) = int (length (filter (gallery_where True q) (gallery_items s))) \<and>
   length (fst (listGallery s q)) \<le> 100"
proof (intro conjI)
  let ?rows = "paged (page_query.truncate q) 20 100
            (sort_key (\<lambda>g. (- gi_created_at g, - gi_id g)) (filter (gallery_where True q) (gallery_items s)))"
  have list: "map fst (fst (listGallery s q)) = map gallery_row ?rows"
    by (simp add: listGallery_def listGalleryItems_def attachGalleryAssets_eq Let_def comp_def)
  show "\<forall>v \<in> fst ` set (fst (listGallery s q)). \<exists>g \<in> set (gallery_items s). v = gallery_row g \<and>
      gi_deleted_at g = None \<and> gi_is_active g \<and>
      (\<forall>t. lg_query q = Some t \<longrightarrow> sublist (lower t) (lower (gi_title g)) \<or>
         sublist (lower t) (lower (gi_description g)))"
  proof
    fix v
    assume "v \<in> fst ` set (fst (listGallery s q))"
    then have "v \<in> set (map gallery_row ?rows)" unfolding list [symmetric] by simp
    then obtain g where g: "g \<in> set ?rows" "v = gallery_row g" by auto
    from subsetD [OF paged_subset g(1)] have "g \<in> set (gallery_items s)" "gallery_where True q g" by auto
    then show "\<exists>g \<in> set (gallery_items s). v = gallery_row g \<and> gi_deleted_at g = None \<and> gi_is_active g \<and>
        (\<forall>t. lg_query q = Some t \<longrightarrow> sublist (lower t) (lower (gi_title g)) \<or>
           sublist (lower t) (lower (gi_description g)))"
      using g(2) by (auto simp: gallery_where_def ilike_contains_pattern intro!: bexI [of _ g])
  qed
  have "sorted (map (\<lambda>g. (- gi_created_at g, - gi_id g)) ?rows)" by (rule paged_sorted) simp
  then have "sorted_wrt (\<lambda>a b. gi_created_at b \<le> gi_created_at a) ?rows"
    unfolding sorted_map by (rule sorted_wrt_mono_rel [rotated]) (auto simp: less_eq_prod_def)
  then show "sorted_wrt (\<lambda>a b. gv_created_at b \<le> gv_created_at a) (map fst (fst (listGallery s q)))"
    unfolding list by (simp add: sorted_wrt_map gallery_row_def)
  show "snd (listGallery s q) = int (length (filter (gallery_where True q) (gallery_items s)))"
    by (simp add: listGallery_def listGalleryItems_def Let_def)
  have "length (map fst (fst (listGallery s q))) = length ?rows" unfolding list by simp
  then show "length (fst (listGallery s q)) \<le> 100"
    using paged_length [of 100 "page_query.truncate q" 20
        "sort_key (\<lambda>g. (- gi_created_at g, - gi_id g)) (filter (gallery_where True q) (gallery_items s))"]
    by simp
qed


definition gallery_inv :: "db \<Rightarrow> bool" where
  "gallery_inv s \<longleftrightarrow> pk gi_id (seqs s T_gallery_items) (gallery_items s)"

lemma live_gallery_pk:
  "gallery_inv s \<Longrightarrow> live_gallery s i =
     (case row_by gi_id i (gallery_items s) of
        None \<Rightarrow> None | Some g \<Rightarrow> if gi_deleted_at g = None then Some g else None)"
  unfolding live_gallery_def gallery_inv_def by (rule pk_find_and)

text \<open>Creating a gallery item succeeds exactly when the administrator's row exists and the images are
  distinct existing files; the item is then visible with the given texts and exactly those images in
  order, and every other item is as before. A failed creation leaves every table as it was.\<close>

theorem adminCreateGalleryItem_roundtrip:
  assumes "gallery_inv s" and "adminCreateGalleryItem admin dto s = (x, s')"
  shows "(is_ok x \<longleftrightarrow> has_key u_id (sub admin) (users s) \<and> distinct (coalesce (ng_imageFileIds dto) []) \<and>
        (\<forall>f \<in> set (coalesce (ng_imageFileIds dto) []). has_key f_id f (files s))) \<and>
     (case x of
        Inl e \<Rightarrow> s'\<lparr>seqs := seqs s\<rparr> = s
      | Inr (v, images) \<Rightarrow> gv_title v = ng_title dto \<and> gv_description v = ng_description dto \<and>
          gv_is_active v \<and> map av_file_id images = coalesce (ng_imageFileIds dto) [] \<and>
          getGalleryItem s' (gv_id v) = Inr (v, images) \<and>
          (\<forall>i. i \<noteq> gv_id v \<longrightarrow> live_gallery s' i = live_gallery s i) \<and> gallery_inv s')"
proof -
  define ids where "ids = coalesce (ng_imageFileIds dto) []"
  define body where "body = bind_h (insert_gallery_item (sub admin) dto) (\<lambda>i.
        bind_h (syncGalleryAssets i ids) (\<lambda>_ s. (getGalleryItemWithExecutor s i, s)))"
  have tr: "with_transaction body s = (x, s')"
    using assms(2) by (simp add: adminCreateGalleryItem_def body_def ids_def)
  show ?thesis
  proof (cases "has_key u_id (sub admin) (users s)")
    case False
    then have "body s = (Inl (SqlError ''23503''), bump T_gallery_items s)"
      by (simp add: body_def bind_h_def insert_gallery_item_def)
    then show ?thesis using tr False by (auto simp: with_transaction_def)
  next
    case True
    let ?i = "seqs s T_gallery_items"
    define g where "g = \<lparr>gi_id = ?i, gi_title = ng_title dto, gi_description = ng_description dto,
               gi_is_active = True, gi_created_by = sub admin, gi_updated_by = sub admin,
               gi_deleted_at = None, gi_created_at = clock s, gi_updated_at = clock s\<rparr>"
    have g: "gi_id g = ?i" "gi_deleted_at g = None" by (simp_all add: g_def)
    define s1 where "s1 = (bump T_gallery_items s)\<lparr>gallery_items := gallery_items s @ [g]\<rparr>"
    have ins: "insert_gallery_item (sub admin) dto s = (Inr ?i, s1)"
      using True by (simp add: insert_gallery_item_def Let_def s1_def g_def)
    obtain y s2 where sync: "syncGalleryAssets ?i ids s1 = (y, s2)" by fastforce
    have "has_key gi_id ?i (gallery_items s1)" "files s1 = files s"
      by (simp_all add: s1_def has_key_iff g)
    then have ok: "is_ok y \<longleftrightarrow> distinct ids \<and> (\<forall>f \<in> set ids. has_key f_id f (files s))"
      using gallery_store.sync_ok_iff [of ?i ids s1] sync by simp
    have s2: "gallery_items s2 = gallery_items s @ [g]" "seqs s2 T_gallery_items = ?i + 1"
      using sync_gallery_frame [of ?i ids s1] sync by (simp_all add: s1_def)
    have pk: "pk gi_id ?i (gallery_items s)" using assms(1) by (simp add: gallery_inv_def)
    have inv2: "gallery_inv s2" using pk_insert [OF pk g(1)] by (simp add: gallery_inv_def s2)
    have live: "live_gallery s2 ?i = Some g"
      using row_by_inserted [OF pk g(1)] by (simp add: live_gallery_pk [OF inv2] s2 g)
    have others: "live_gallery s2 i = live_gallery s i" if "i \<noteq> ?i" for i
      using row_by_insert_other [of gi_id g i "gallery_items s"] that g(1)
      by (simp add: live_gallery_pk [OF inv2] live_gallery_pk [OF assms(1)] s2)
    show ?thesis
    proof (cases y)
      case (Inl e)
      then have "body s = (Inl e, s2)" by (simp add: body_def bind_h_def ins sync)
      then show ?thesis using tr ok Inl by (auto simp: with_transaction_def ids_def)
    next
      case (Inr u)
      have imgs: "map av_file_id (gallery_images s2 ?i) = ids"
        using gallery_store.sync_rows [of ?i ids s1 s2] sync Inr by (simp add: gallery_images_indexed)
      have get: "getGalleryItem s2 ?i = Inr (gallery_row g, gallery_images s2 ?i)"
        by (simp add: getGalleryItem_eq live)
      then have "body s = (Inr (gallery_row g, gallery_images s2 ?i), s2)"
        using Inr by (simp add: body_def bind_h_def ins sync getGalleryItem_def)
      then have "with_transaction body s = (Inr (gallery_row g, gallery_images s2 ?i), s2)"
        by (rule with_transaction_Inr)
      with tr have "(x, s') = (Inr (gallery_row g, gallery_images s2 ?i), s2)" by (rule trans [OF sym])
      then have "x = Inr (gallery_row g, gallery_images s2 ?i)" "s' = s2" by blast+
      moreover have "gv_id (gallery_row g) = ?i" "gv_title (gallery_row g) = ng_title dto"
        "gv_description (gallery_row g) = ng_description dto" "gv_is_active (gallery_row g)"
        by (simp_all add: gallery_row_def g_def)
      ultimately show ?thesis using True ok Inr imgs get others inv2 by (simp add: ids_def)
    qed
  qed
qed

section \<open>Witnesses\<close>

definition sample_gallery_dto :: create_gallery_dto where
  "sample_gallery_dto = \<lparr>ng_title = ''Villa'', ng_description = ''d'', ng_imageFileIds = Some [8, 7]\<rparr>"

theorem adminCreateGalleryItem_roundtrip_witness:
  "\<exists>v images s'. adminCreateGalleryItem sample_admin sample_gallery_dto sample_db = (Inr (v, images), s') \<and>
     map av_file_id images = [8, 7] \<and> getGalleryItem s' (gv_id v) = Inr (v, images)"
proof -
  have inv: "gallery_inv sample_db" by code_simp
  obtain x s' where run: "adminCreateGalleryItem sample_admin sample_gallery_dto sample_db = (x, s')" by fastforce
  have "is_ok (fst (adminCreateGalleryItem sample_admin sample_gallery_dto sample_db))" by code_simp
  then show ?thesis
    using adminCreateGalleryItem_roundtrip [OF inv run] run by (cases x) (auto simp: sample_gallery_dto_def)
qed

theorem listGallery_sound_witness:
  "\<exists>v. v \<in> fst ` set (fst (listGallery (snd (adminCreateGalleryItem sample_admin sample_gallery_dto sample_db))
        \<lparr>pq_page = None, pq_limit = None, pq_offset = None, lg_query = Some ''vIL''\<rparr>)) \<and>
     (\<exists>g \<in> set (gallery_items (snd (adminCreateGalleryItem sample_admin sample_gallery_dto sample_db))).
        v = gallery_row g \<and> gi_is_active g)"
proof -
  let ?s = "snd (adminCreateGalleryItem sample_admin sample_gallery_dto sample_db)"
  let ?q = "\<lparr>pq_page = None, pq_limit = None, pq_offset = None, lg_query = Some ''vIL''\<rparr>"
  have "fst (listGallery ?s ?q) \<noteq> []" by code_simp
  then have "fst (hd (fst (listGallery ?s ?q))) \<in> fst ` set (fst (listGallery ?s ?q))" by simp
  then show ?thesis using conjunct1 [OF listGallery_sound [of ?s ?q]] by blast
qed

end
