(* ===== verification/Ratings.thy ===== *)
theory Ratings
  imports Followups
begin

text \<open>
  Ratings: \<open>createItemRating\<close> and \<open>getItemReviews\<close> of \<open>KayanService\<close> (\<open>src/kayan/kayan.service.ts\<close>), where
  a customer rates the products of a delivered order, a finished fault or a finished service order, and
  \<open>RatingsService\<close> (\<open>src/ratings/ratings.service.ts\<close>), where users rate each other. The locale
  \<open>rating_board\<close> is the contract of the three rating tables; \<open>write_once_board\<close> is the stronger one of
  the two tables whose \<open>INSERT\<close> has no \<open>ON CONFLICT\<close> clause.
\<close>

section \<open>Item ratings\<close>

record create_item_rating_dto =
  nir_itemType :: item_type
  nir_itemId :: "int option"
  nir_orderId :: "int option"
  nir_productId :: "int option"
  nir_ratingValue :: int
  nir_comment :: "string option"

datatype rating = Product_rating product_rating | Item_rating item_rating

text \<open>A rating column is a \<open>SMALLINT\<close> between 1 and 5.\<close>

definition rating_error :: "int \<Rightarrow> http_error option" where
  "rating_error v =
     (if v < - (2 ^ 15) \<or> 2 ^ 15 \<le> v then Some (SqlError ''22003'')
      else if v < 1 \<or> 5 < v then Some (SqlError ''23514'')
      else None)"

text \<open>\<open>WHERE id = $1\<close> with an absent parameter: the driver sends \<open>NULL\<close>, which matches no row.\<close>

definition row_by_opt :: "('r \<Rightarrow> int) \<Rightarrow> int option \<Rightarrow> 'r list \<Rightarrow> 'r option" where
  "row_by_opt key i t = (case i of None \<Rightarrow> None | Some j \<Rightarrow> row_by key j t)"

definition assertRateableItem :: "db \<Rightarrow> int \<Rightarrow> item_type \<Rightarrow> int option \<Rightarrow> unit result" where
  "assertRateableItem s userId itemType itemId =
     (case (case itemId of None \<Rightarrow> None | Some i \<Rightarrow> resolveOwnership s itemType i) of
        None \<Rightarrow> Inl (NotFound ''Item not found'')
      | Some owner \<Rightarrow>
          if owner \<noteq> userId then Inl (Forbidden ''Not allowed'')
          else (case itemType of
              Item_ORDER \<Rightarrow>
                if map_option po_status (row_by_opt po_id itemId (product_orders s)) \<noteq> Some Order_DELIVERED
                then Inl (BadRequest ''Rating allowed only after delivery'') else Inr ()
            | Item_FAULT \<Rightarrow>
                if map_option fr_status (row_by_opt fr_id itemId (fault_reports s)) \<noteq> Some Fault_FINISHED
                then Inl (BadRequest ''Rating allowed only after completion'') else Inr ()
            | Item_SERVICE \<Rightarrow>
                if map_option so_status (row_by_opt so_id itemId (service_orders s)) \<noteq> Some Service_FINISHED
                then Inl (BadRequest ''Rating allowed only after completion'') else Inr ()))"

definition assertRateableProduct :: "db \<Rightarrow> int \<Rightarrow> int option \<Rightarrow> int option \<Rightarrow> unit result" where
  "assertRateableProduct s userId orderId productId =
     (case row_by_opt po_id orderId (product_orders s) of
        None \<Rightarrow> Inl (NotFound ''Order not found'')
      | Some po \<Rightarrow>
          if po_user_id po \<noteq> userId then Inl (Forbidden ''Not allowed'')
          else if po_status po \<noteq> Order_DELIVERED
          then Inl (BadRequest ''Rating allowed only after delivery'')
          else if \<not> list_ex (\<lambda>oi. Some (oi_order_id oi) = orderId \<and> Some (oi_product_id oi) = productId)
                      (order_items s)
          then Inl (BadRequest ''Product was not ordered in this order'')
          else Inr ())"

text \<open>The two \<open>INSERT\<close> statements, with the constraints of their tables.\<close>

definition product_rated :: "db \<Rightarrow> int \<Rightarrow> int \<Rightarrow> int \<Rightarrow> bool" where
  "product_rated s userId orderId productId \<longleftrightarrow>
     list_ex (\<lambda>r. pr_user_id r = userId \<and> pr_order_id r = orderId \<and> pr_product_id r = productId)
       (product_ratings s)"

definition insert_product_rating ::
  "int \<Rightarrow> int \<Rightarrow> int \<Rightarrow> int \<Rightarrow> string option \<Rightarrow> (db, product_rating) handler" where
  "insert_product_rating userId orderId productId v comment s =
     (let s1 = bump T_product_ratings s;
          row = \<lparr>pr_id = seqs s T_product_ratings, pr_user_id = userId, pr_order_id = orderId,
                 pr_product_id = productId, pr_rating_value = v, pr_comment = comment,
                 pr_created_at = clock s\<rparr>
      in case rating_error v of
           Some e \<Rightarrow> (Inl e, s1)
         | None \<Rightarrow>
             if product_rated s userId orderId productId then (Inl (SqlError ''23505''), s1)
             else if \<not> has_key u_id userId (users s) \<or> \<not> has_key po_id orderId (product_orders s)
                   \<or> \<not> has_key cp_id productId (catalog_products s)
             then (Inl (SqlError ''23503''), s1)
             else (Inr row, s1\<lparr>product_ratings := product_ratings s @ [row]\<rparr>))"

definition item_rated :: "db \<Rightarrow> int \<Rightarrow> item_type \<Rightarrow> int \<Rightarrow> bool" where
  "item_rated s userId itemType itemId \<longleftrightarrow>
     list_ex (\<lambda>r. ir_user_id r = userId \<and> ir_item_type r = itemType \<and> ir_item_id r = itemId)
       (item_ratings s)"

definition insert_item_rating ::
  "int \<Rightarrow> item_type \<Rightarrow> int \<Rightarrow> int \<Rightarrow> string option \<Rightarrow> (db, item_rating) handler" where
  "insert_item_rating userId itemType itemId v comment s =
     (let s1 = bump T_item_ratings s;
          row = \<lparr>ir_id = seqs s T_item_ratings, ir_user_id = userId, ir_item_type = itemType,
                 ir_item_id = itemId, ir_rating_value = v, ir_comment = comment, ir_created_at = clock s\<rparr>
      in case rating_error v of
           Some e \<Rightarrow> (Inl e, s1)
         | None \<Rightarrow>
             if item_rated s userId itemType itemId then (Inl (SqlError ''23505''), s1)
             else if \<not> has_key u_id userId (users s) then (Inl (SqlError ''23503''), s1)
             else (Inr row, s1\<lparr>item_ratings := item_ratings s @ [row]\<rparr>))"

text \<open>The \<open>catch\<close> clause: a unique violation becomes a \<open>BadRequestException\<close>.\<close>

definition rethrow_rating :: "http_error \<Rightarrow> http_error" where
  "rethrow_rating e = (if e = SqlError ''23505'' then BadRequest ''Rating already exists'' else e)"

definition createItemRating :: "auth_user \<Rightarrow> create_item_rating_dto \<Rightarrow> (db, rating) handler" where
  "createItemRating user dto s =
     (if nir_itemType dto = Item_ORDER then
        (case assertRateableProduct s (sub user) (nir_orderId dto) (nir_productId dto) of
           Inl e \<Rightarrow> (Inl e, s)
         | Inr _ \<Rightarrow>
             (case insert_product_rating (sub user) (the (nir_orderId dto)) (the (nir_productId dto))
                     (nir_ratingValue dto) (nir_comment dto) s of
                (Inl e, s') \<Rightarrow> (Inl (rethrow_rating e), s')
              | (Inr row, s') \<Rightarrow> (Inr (Product_rating row), s')))
      else
        (case assertRateableItem s (sub user) (nir_itemType dto) (nir_itemId dto) of
           Inl e \<Rightarrow> (Inl e, s)
         | Inr _ \<Rightarrow>
             (case insert_item_rating (sub user) (nir_itemType dto) (the (nir_itemId dto))
                     (nir_ratingValue dto) (nir_comment dto) s of
                (Inl e, s') \<Rightarrow> (Inl (rethrow_rating e), s')
              | (Inr row, s') \<Rightarrow> (Inr (Item_rating row), s'))))"

definition getItemReviews :: "db \<Rightarrow> int \<Rightarrow> item_type \<Rightarrow> page_query \<Rightarrow> item_rating list \<times> int" where
  "getItemReviews s itemId itemType q =
     (let rows = filter (\<lambda>r. ir_item_type r = itemType \<and> ir_item_id r = itemId) (item_ratings s)
      in (paged q 20 100 (sort_key (\<lambda>r. (- ir_created_at r, - ir_id r)) rows), int (length rows)))"

section \<open>User ratings\<close>

record create_rating_dto =
  nur_ratedUserId :: int
  nur_ratingValue :: int
  nur_comment :: "string option"

definition user_rating_set :: "create_rating_dto \<Rightarrow> time \<Rightarrow> user_rating \<Rightarrow> user_rating" where
  "user_rating_set dto now r =
     r\<lparr>ur_rating_value := nur_ratingValue dto, ur_comment := nur_comment dto, ur_updated_at := now\<rparr>"

text \<open>\<open>INSERT \<dots> ON CONFLICT (rater_id, rated_user_id) DO UPDATE\<close>.\<close>

definition upsert_user_rating :: "int \<Rightarrow> create_rating_dto \<Rightarrow> (db, user_rating) handler" where
  "upsert_user_rating rater dto s =
     (let s1 = bump T_user_ratings s;
          same = (\<lambda>r. ur_rater_id r = rater \<and> ur_rated_user_id r = nur_ratedUserId dto);
          row = \<lparr>ur_id = seqs s T_user_ratings, ur_rater_id = rater,
                 ur_rated_user_id = nur_ratedUserId dto, ur_rating_value = nur_ratingValue dto,
                 ur_comment = nur_comment dto, ur_created_at = clock s, ur_updated_at = clock s\<rparr>
      in case rating_error (nur_ratingValue dto) of
           Some e \<Rightarrow> (Inl e, s1)
         | None \<Rightarrow>
             if rater = nur_ratedUserId dto then (Inl (SqlError ''23514''), s1)
             else (case find same (user_ratings s) of
               Some old \<Rightarrow>
                 (Inr (user_rating_set dto (clock s) old),
                  s1\<lparr>user_ratings := update_where same (user_rating_set dto (clock s)) (user_ratings s)\<rparr>)
             | None \<Rightarrow>
                 if \<not> has_key u_id rater (users s) \<or> \<not> has_key u_id (nur_ratedUserId dto) (users s)
                 then (Inl (SqlError ''23503''), s1)
                 else (Inr row, s1\<lparr>user_ratings := user_ratings s @ [row]\<rparr>)))"

definition rateUser :: "auth_user \<Rightarrow> create_rating_dto \<Rightarrow> (db, user_rating) handler" where
  "rateUser user dto s =
     (if sub user = nur_ratedUserId dto then (Inl (BadRequest ''You cannot rate yourself''), s)
      else (case assertUserExists s (nur_ratedUserId dto) ''Rated user'' of
          Inl e \<Rightarrow> (Inl e, s)
        | Inr _ \<Rightarrow>
            (case upsert_user_rating (sub user) dto s of
               (Inl e, s') \<Rightarrow> (Inl (if e = SqlError ''23503'' then NotFound ''Rated user not found'' else e), s')
             | (Inr row, s') \<Rightarrow> (Inr row, s'))))"

definition getUserRatingSummary :: "db \<Rightarrow> int \<Rightarrow> int \<times> int \<times> user_rating list" where
  "getUserRatingSummary s userId =
     (let rows = filter (\<lambda>r. ur_rated_user_id r = userId) (user_ratings s)
      in (avg2 (map ur_rating_value rows), int (length rows),
          take 20 (sort_key (\<lambda>r. - ur_created_at r) rows)))"

section \<open>The contract of a rating table\<close>

text \<open>
  A board maps who rated what to the value given. \<open>rate\<close> sets one entry to a value in range, or fails
  and leaves the board alone.
\<close>

locale rating_board =
  fixes board :: "'s \<Rightarrow> 'k \<Rightarrow> int option"
    and rate :: "'k \<Rightarrow> int \<Rightarrow> string option \<Rightarrow> 's \<Rightarrow> 'r result \<times> 's"
  assumes rate_ok: "rate k v c s = (Inr r, s') \<Longrightarrow> board s' = (board s)(k \<mapsto> v) \<and> 1 \<le> v \<and> v \<le> 5"
    and rate_error: "rate k v c s = (Inl e, s') \<Longrightarrow> board s' = board s"
begin

definition in_range :: "'s \<Rightarrow> bool" where
  "in_range s \<longleftrightarrow> (\<forall>k v. board s k = Some v \<longrightarrow> 1 \<le> v \<and> v \<le> 5)"

lemma in_range_rate: "in_range s \<Longrightarrow> in_range (snd (rate k v c s))"
proof -
  assume s: "in_range s"
  obtain x s' where r: "rate k v c s = (x, s')" by fastforce
  show "in_range (snd (rate k v c s))"
    using s r rate_ok [of k v c s] rate_error [of k v c s] by (cases x) (auto simp: in_range_def)
qed

lemma rate_other: "j \<noteq> k \<Longrightarrow> board (snd (rate k v c s)) j = board s j"
proof -
  assume j: "j \<noteq> k"
  obtain x s' where r: "rate k v c s = (x, s')" by fastforce
  show "board (snd (rate k v c s)) j = board s j"
    using j r rate_ok [of k v c s] rate_error [of k v c s] by (cases x) auto
qed

end

locale write_once_board = rating_board +
  assumes rate_once: "rate k v c s = (Inr r, s') \<Longrightarrow> board s k = None"
begin

lemma kept: "board s j = Some w \<Longrightarrow> board (snd (rate k v c s)) j = Some w"
proof -
  assume w: "board s j = Some w"
  obtain x s' where r: "rate k v c s = (x, s')" by fastforce
  show "board (snd (rate k v c s)) j = Some w"
    using w r rate_ok [of k v c s] rate_error [of k v c s] rate_once [of k v c s]
    by (cases x) (auto split: if_splits)
qed

end

section \<open>The three boards\<close>

definition product_key :: "product_rating \<Rightarrow> int \<times> int \<times> int" where
  "product_key r = (pr_user_id r, pr_order_id r, pr_product_id r)"

definition item_key :: "item_rating \<Rightarrow> int \<times> item_type \<times> int" where
  "item_key r = (ir_user_id r, ir_item_type r, ir_item_id r)"

definition user_key :: "user_rating \<Rightarrow> int \<times> int" where
  "user_key r = (ur_rater_id r, ur_rated_user_id r)"

definition board_of :: "('r \<Rightarrow> 'k) \<Rightarrow> ('r \<Rightarrow> int) \<Rightarrow> 'r list \<Rightarrow> 'k \<Rightarrow> int option" where
  "board_of key val t k = map_option val (row_by key k t)"

lemma board_of_insert: "\<not> has_key key (key r) t \<Longrightarrow> board_of key val (t @ [r]) = (board_of key val t)(key r \<mapsto> val r)"
  by (rule ext) (auto simp: board_of_def row_by_append has_key_row_by split: option.split)

lemma board_of_update:
  assumes "\<And>r. key (f r) = key r" and "\<And>r. val (f r) = v" and "has_key key k t"
  shows "board_of key val (update_where (\<lambda>r. key r = k) f t) = (board_of key val t)(k \<mapsto> v)"
proof
  fix j
  show "board_of key val (update_where (\<lambda>r. key r = k) f t) j = ((board_of key val t)(k \<mapsto> v)) j"
  proof (cases "j = k")
    case True
    with assms show ?thesis by (auto simp: board_of_def row_by_update_same has_key_row_by)
  next
    case False
    with assms(1) show ?thesis by (simp add: board_of_def row_by_update_other)
  qed
qed

definition product_board :: "db \<Rightarrow> int \<times> int \<times> int \<Rightarrow> int option" where
  "product_board s = board_of product_key pr_rating_value (product_ratings s)"

definition item_board :: "db \<Rightarrow> int \<times> item_type \<times> int \<Rightarrow> int option" where
  "item_board s = board_of item_key ir_rating_value (item_ratings s)"

definition user_board :: "db \<Rightarrow> int \<times> int \<Rightarrow> int option" where
  "user_board s = board_of user_key ur_rating_value (user_ratings s)"

lemma product_rated_iff: "product_rated s u o1 p = has_key product_key (u, o1, p) (product_ratings s)"
  by (simp add: product_rated_def has_key_def product_key_def)

lemma item_rated_iff: "item_rated s u ty i = has_key item_key (u, ty, i) (item_ratings s)"
  by (simp add: item_rated_def has_key_def item_key_def)

lemma board_of_None_iff: "board_of key val t k = None \<longleftrightarrow> \<not> has_key key k t"
  by (auto simp: board_of_def has_key_row_by)

lemma rating_error_None [simp]: "rating_error v = None \<longleftrightarrow> 1 \<le> v \<and> v \<le> 5"
  by (auto simp: rating_error_def)

lemma insert_product_rating_ok:
  assumes "insert_product_rating u o1 p v c s = (Inr row, s')"
  shows "row = \<lparr>pr_id = seqs s T_product_ratings, pr_user_id = u, pr_order_id = o1, pr_product_id = p,
           pr_rating_value = v, pr_comment = c, pr_created_at = clock s\<rparr>"
    and "s' = (bump T_product_ratings s)\<lparr>product_ratings := product_ratings s @ [row]\<rparr>"
    and "1 \<le> v" "v \<le> 5" "\<not> product_rated s u o1 p"
  using assms by (auto simp: insert_product_rating_def Let_def split: option.split_asm if_split_asm)

lemma insert_product_rating_error:
  "insert_product_rating u o1 p v c s = (Inl e, s') \<Longrightarrow> s' = bump T_product_ratings s"
  by (auto simp: insert_product_rating_def Let_def split: option.split_asm if_split_asm)

lemma insert_item_rating_ok:
  assumes "insert_item_rating u ty i v c s = (Inr row, s')"
  shows "row = \<lparr>ir_id = seqs s T_item_ratings, ir_user_id = u, ir_item_type = ty, ir_item_id = i,
           ir_rating_value = v, ir_comment = c, ir_created_at = clock s\<rparr>"
    and "s' = (bump T_item_ratings s)\<lparr>item_ratings := item_ratings s @ [row]\<rparr>"
    and "1 \<le> v" "v \<le> 5" "\<not> item_rated s u ty i"
  using assms by (auto simp: insert_item_rating_def Let_def split: option.split_asm if_split_asm)

lemma insert_item_rating_error:
  "insert_item_rating u ty i v c s = (Inl e, s') \<Longrightarrow> s' = bump T_item_ratings s"
  by (auto simp: insert_item_rating_def Let_def split: option.split_asm if_split_asm)

interpretation product_board: write_once_board product_board
    "\<lambda>(u, o1, p). insert_product_rating u o1 p"
proof unfold_locales
  fix k :: "int \<times> int \<times> int" and v c s r s' e
  obtain u o1 p where k: "k = (u, o1, p)" by (cases k) auto
  show "product_board s' = (product_board s)(k \<mapsto> v) \<and> 1 \<le> v \<and> v \<le> 5"
    if "(case k of (u, o1, p) \<Rightarrow> insert_product_rating u o1 p) v c s = (Inr r, s')"
  proof -
    from that have ins: "insert_product_rating u o1 p v c s = (Inr r, s')" by (simp add: k)
    have "product_key r = k" "pr_rating_value r = v"
      by (simp_all add: insert_product_rating_ok(1) [OF ins] product_key_def k)
    then show ?thesis
      using insert_product_rating_ok(2-5) [OF ins] board_of_insert [of product_key r "product_ratings s"]
      by (simp add: product_board_def product_rated_iff k)
  qed
  show "product_board s' = product_board s"
    if "(case k of (u, o1, p) \<Rightarrow> insert_product_rating u o1 p) v c s = (Inl e, s')"
    using that insert_product_rating_error [of u o1 p v c s e s'] by (simp add: k product_board_def)
  show "product_board s k = None"
    if "(case k of (u, o1, p) \<Rightarrow> insert_product_rating u o1 p) v c s = (Inr r, s')"
    using that insert_product_rating_ok(5) [of u o1 p v c s r s'] by (simp add: k product_board_def board_of_None_iff product_rated_iff)
qed

interpretation item_board: write_once_board item_board "\<lambda>(u, ty, i). insert_item_rating u ty i"
proof unfold_locales
  fix k :: "int \<times> item_type \<times> int" and v c s r s' e
  obtain u ty i where k: "k = (u, ty, i)" by (cases k) auto
  show "item_board s' = (item_board s)(k \<mapsto> v) \<and> 1 \<le> v \<and> v \<le> 5"
    if "(case k of (u, ty, i) \<Rightarrow> insert_item_rating u ty i) v c s = (Inr r, s')"
  proof -
    from that have ins: "insert_item_rating u ty i v c s = (Inr r, s')" by (simp add: k)
    have "item_key r = k" "ir_rating_value r = v"
      by (simp_all add: insert_item_rating_ok(1) [OF ins] item_key_def k)
    then show ?thesis
      using insert_item_rating_ok(2-5) [OF ins] board_of_insert [of item_key r "item_ratings s"]
      by (simp add: item_board_def item_rated_iff k)
  qed
  show "item_board s' = item_board s"
    if "(case k of (u, ty, i) \<Rightarrow> insert_item_rating u ty i) v c s = (Inl e, s')"
    using that insert_item_rating_error [of u ty i v c s e s'] by (simp add: k item_board_def)
  show "item_board s k = None"
    if "(case k of (u, ty, i) \<Rightarrow> insert_item_rating u ty i) v c s = (Inr r, s')"
    using that insert_item_rating_ok(5) [of u ty i v c s r s'] by (simp add: k item_board_def board_of_None_iff item_rated_iff)
qed

definition rate_pair :: "int \<times> int \<Rightarrow> int \<Rightarrow> string option \<Rightarrow> (db, user_rating) handler" where
  "rate_pair k v c =
     upsert_user_rating (fst k) \<lparr>nur_ratedUserId = snd k, nur_ratingValue = v, nur_comment = c\<rparr>"

lemma upsert_user_rating_board:
  assumes "upsert_user_rating u dto s = (Inr row, s')"
  shows "user_board s' = (user_board s)((u, nur_ratedUserId dto) \<mapsto> nur_ratingValue dto)"
    and "1 \<le> nur_ratingValue dto" "nur_ratingValue dto \<le> 5" "u \<noteq> nur_ratedUserId dto"
    and "user_key row = (u, nur_ratedUserId dto)" "row \<in> set (user_ratings s')"
    and "ur_rating_value row = nur_ratingValue dto" "ur_comment row = nur_comment dto"
proof -
  let ?k = "(u, nur_ratedUserId dto)"
  let ?f = "user_rating_set dto (clock s)"
  have same: "(\<lambda>r. ur_rater_id r = u \<and> ur_rated_user_id r = nur_ratedUserId dto) = (\<lambda>r. user_key r = ?k)"
    by (auto simp: user_key_def)
  have f: "user_key (?f r) = user_key r" "ur_rating_value (?f r) = nur_ratingValue dto"
    "ur_comment (?f r) = nur_comment dto" for r
    by (simp_all add: user_rating_set_def user_key_def)
  have rows: "find (\<lambda>r. ur_rater_id r = u \<and> ur_rated_user_id r = nur_ratedUserId dto) (user_ratings s)
      = row_by user_key ?k (user_ratings s)"
    by (simp add: same row_by_def)
  note run = assms [unfolded upsert_user_rating_def Let_def rows, unfolded same]
  have v': "rating_error (nur_ratingValue dto) = None" "u \<noteq> nur_ratedUserId dto"
    using run by (auto split: option.split_asm if_split_asm)
  then show v: "1 \<le> nur_ratingValue dto" "nur_ratingValue dto \<le> 5" "u \<noteq> nur_ratedUserId dto"
    by simp_all
  have all: "user_board s' = (user_board s)(?k \<mapsto> nur_ratingValue dto) \<and> user_key row = ?k
     \<and> row \<in> set (user_ratings s') \<and> ur_rating_value row = nur_ratingValue dto \<and> ur_comment row = nur_comment dto"
  proof (cases "row_by user_key ?k (user_ratings s)")
    case None
    then have nk: "\<not> has_key user_key ?k (user_ratings s)" by (simp add: has_key_row_by)
    have ins: "user_ratings s' = user_ratings s @ [row] \<and> user_key row = ?k \<and>
        ur_rating_value row = nur_ratingValue dto \<and> ur_comment row = nur_comment dto"
      using run by (simp only: v' None option.case if_False simp_thms prod.inject sum.inject split: if_split_asm)
        (erule conjE, hypsubst, simp add: user_key_def)+
    then show ?thesis using board_of_insert [of user_key row "user_ratings s"] nk
      by (simp add: user_board_def)
  next
    case (Some old)
    then have hk: "has_key user_key ?k (user_ratings s)" by (simp add: has_key_row_by)
    have t: "user_ratings s' = update_where (\<lambda>r. user_key r = ?k) ?f (user_ratings s)" "row = ?f old"
      using run by (simp_all only: v' Some option.case if_False simp_thms prod.inject sum.inject) clarsimp+
    have old: "old \<in> set (user_ratings s)" "user_key old = ?k" using row_by_Some [OF Some] by auto
    have "board_of user_key ur_rating_value (update_where (\<lambda>r. user_key r = ?k) ?f (user_ratings s))
        = (board_of user_key ur_rating_value (user_ratings s))(?k \<mapsto> nur_ratingValue dto)"
      using f hk by (intro board_of_update) auto
    moreover have "?f old \<in> set (update_where (\<lambda>r. user_key r = ?k) ?f (user_ratings s))"
      using old by (force simp: set_update_where)
    ultimately show ?thesis using t old by (simp add: user_board_def f)
  qed
  then show "user_board s' = (user_board s)(?k \<mapsto> nur_ratingValue dto)" "user_key row = ?k"
    "row \<in> set (user_ratings s')" "ur_rating_value row = nur_ratingValue dto" "ur_comment row = nur_comment dto"
    by auto
qed

lemma upsert_user_rating_error:
  "upsert_user_rating u dto s = (Inl e, s') \<Longrightarrow> s' = bump T_user_ratings s"
  by (auto simp: upsert_user_rating_def Let_def split: option.split_asm if_split_asm)

interpretation user_board: rating_board user_board rate_pair
proof unfold_locales
  fix k :: "int \<times> int" and v c s r s' e
  show "user_board s' = (user_board s)(k \<mapsto> v) \<and> 1 \<le> v \<and> v \<le> 5" if "rate_pair k v c s = (Inr r, s')"
    using upsert_user_rating_board [OF that [unfolded rate_pair_def]] by simp
  show "user_board s' = user_board s" if "rate_pair k v c s = (Inl e, s')"
    using upsert_user_rating_error [OF that [unfolded rate_pair_def]] by (simp add: user_board_def)
qed

section \<open>Creating an item rating\<close>

text \<open>What may be rated: a product line of an own delivered order, an own finished fault or service order.\<close>

definition rateable :: "db \<Rightarrow> int \<Rightarrow> create_item_rating_dto \<Rightarrow> bool" where
  "rateable s u dto \<longleftrightarrow>
     (case nir_itemType dto of
        Item_ORDER \<Rightarrow> (\<exists>po oi. nir_orderId dto = Some (po_id po) \<and> nir_productId dto = Some (oi_product_id oi) \<and>
          row_by po_id (po_id po) (product_orders s) = Some po \<and> po_user_id po = u \<and>
          po_status po = Order_DELIVERED \<and> oi \<in> set (order_items s) \<and> oi_order_id oi = po_id po)
      | Item_FAULT \<Rightarrow> (\<exists>fr. nir_itemId dto = Some (fr_id fr) \<and> row_by fr_id (fr_id fr) (fault_reports s) = Some fr \<and>
          fr_user_id fr = u \<and> fr_status fr = Fault_FINISHED)
      | Item_SERVICE \<Rightarrow> (\<exists>so. nir_itemId dto = Some (so_id so) \<and> row_by so_id (so_id so) (service_orders s) = Some so \<and>
          so_user_id so = u \<and> so_status so = Service_FINISHED))"

lemma row_by_opt_Some:
  "row_by_opt key i t = Some r \<longleftrightarrow> i = Some (key r) \<and> row_by key (key r) t = Some r"
  by (cases i) (auto simp: row_by_opt_def dest: row_by_Some)

lemma assertRateableProduct_ok:
  assumes "nir_itemType dto = Item_ORDER"
  shows "is_ok (assertRateableProduct s u (nir_orderId dto) (nir_productId dto)) \<longleftrightarrow> rateable s u dto"
proof (cases "row_by_opt po_id (nir_orderId dto) (product_orders s)")
  case None
  then have "\<not> (\<exists>po. nir_orderId dto = Some (po_id po) \<and> row_by po_id (po_id po) (product_orders s) = Some po)"
    using row_by_opt_Some [of po_id "nir_orderId dto" "product_orders s"] by auto
  with None assms show ?thesis by (auto simp: assertRateableProduct_def rateable_def)
next
  case (Some po)
  then have po: "nir_orderId dto = Some (po_id po)" "row_by po_id (po_id po) (product_orders s) = Some po"
    by (simp_all add: row_by_opt_Some)
  have "rateable s u dto \<longleftrightarrow> po_user_id po = u \<and> po_status po = Order_DELIVERED \<and>
      (\<exists>oi. oi \<in> set (order_items s) \<and> oi_order_id oi = po_id po \<and> nir_productId dto = Some (oi_product_id oi))"
    (is "_ \<longleftrightarrow> ?R")
  proof
    assume "rateable s u dto"
    then obtain po' oi where r: "nir_orderId dto = Some (po_id po')" "nir_productId dto = Some (oi_product_id oi)"
        "row_by po_id (po_id po') (product_orders s) = Some po'" "po_user_id po' = u"
        "po_status po' = Order_DELIVERED" "oi \<in> set (order_items s)" "oi_order_id oi = po_id po'"
      using assms unfolding rateable_def by auto
    have "po' = po" using r(1,3) po by simp
    with r show ?R by blast
  next
    assume ?R
    then show "rateable s u dto" using assms po unfolding rateable_def by auto
  qed
  moreover have "is_ok (assertRateableProduct s u (nir_orderId dto) (nir_productId dto)) \<longleftrightarrow> ?R"
    using po(2) by (auto simp: assertRateableProduct_def po(1) row_by_opt_def list_ex_iff split: if_splits)
  ultimately show ?thesis by simp
qed

lemma assertRateableItem_ok:
  assumes "nir_itemType dto \<noteq> Item_ORDER"
  shows "is_ok (assertRateableItem s u (nir_itemType dto) (nir_itemId dto)) \<longleftrightarrow> rateable s u dto"
proof (cases "nir_itemType dto")
  case Item_ORDER
  with assms show ?thesis by simp
next
  case Item_FAULT
  then show ?thesis
    by (auto simp: assertRateableItem_def rateable_def resolveOwnership_def row_by_opt_def
        split: option.split dest: row_by_Some)
next
  case Item_SERVICE
  then show ?thesis
    by (auto simp: assertRateableItem_def rateable_def resolveOwnership_def row_by_opt_def
        split: option.split dest: row_by_Some)
qed

definition rating_tables :: "db \<Rightarrow> product_rating list \<times> item_rating list \<times> user_rating list" where
  "rating_tables s = (product_ratings s, item_ratings s, user_ratings s)"

text \<open>The two ways a rating is created.\<close>

lemma createItemRating_cases:
  assumes "createItemRating user dto s = (x, s')"
  obtains (order) row where "nir_itemType dto = Item_ORDER" "x = Inr (Product_rating row)" "rateable s (sub user) dto"
      "insert_product_rating (sub user) (the (nir_orderId dto)) (the (nir_productId dto))
         (nir_ratingValue dto) (nir_comment dto) s = (Inr row, s')"
  | (item) row where "nir_itemType dto \<noteq> Item_ORDER" "x = Inr (Item_rating row)" "rateable s (sub user) dto"
      "insert_item_rating (sub user) (nir_itemType dto) (the (nir_itemId dto))
         (nir_ratingValue dto) (nir_comment dto) s = (Inr row, s')"
  | (error) e where "x = Inl e" "s' \<in> {s, bump T_product_ratings s, bump T_item_ratings s}"
proof (cases "nir_itemType dto = Item_ORDER")
  case True
  show thesis
  proof (cases "assertRateableProduct s (sub user) (nir_orderId dto) (nir_productId dto)")
    case (Inl e)
    with True assms show thesis by (intro error) (auto simp: createItemRating_def)
  next
    case (Inr u)
    then have r: "rateable s (sub user) dto" using assertRateableProduct_ok [OF True, of s "sub user"] by simp
    obtain y t where i: "insert_product_rating (sub user) (the (nir_orderId dto)) (the (nir_productId dto))
         (nir_ratingValue dto) (nir_comment dto) s = (y, t)" by fastforce
    show thesis
    proof (cases y)
      case (Inl e)
      with True Inr i assms insert_product_rating_error [OF i [unfolded Inl]] show thesis
        by (intro error) (auto simp: createItemRating_def)
    next
      case (Inr row)
      show thesis
        by (rule order [of row]) (use True \<open>assertRateableProduct _ _ _ _ = _\<close> Inr i assms r in
            \<open>auto simp: createItemRating_def\<close>)
    qed
  qed
next
  case False
  show thesis
  proof (cases "assertRateableItem s (sub user) (nir_itemType dto) (nir_itemId dto)")
    case (Inl e)
    with False assms show thesis by (intro error) (auto simp: createItemRating_def)
  next
    case (Inr u)
    then have r: "rateable s (sub user) dto" using assertRateableItem_ok [OF False, of s "sub user"] by simp
    obtain y t where i: "insert_item_rating (sub user) (nir_itemType dto) (the (nir_itemId dto))
         (nir_ratingValue dto) (nir_comment dto) s = (y, t)" by fastforce
    show thesis
    proof (cases y)
      case (Inl e)
      with False Inr i assms insert_item_rating_error [OF i [unfolded Inl]] show thesis
        by (intro error) (auto simp: createItemRating_def)
    next
      case (Inr row)
      show thesis
        by (rule item [of row]) (use False \<open>assertRateableItem _ _ _ _ = _\<close> Inr i assms r in
            \<open>auto simp: createItemRating_def\<close>)
    qed
  qed
qed

lemma rateUser_cases:
  assumes "rateUser user dto s = (x, s')"
  obtains (ok) row where "x = Inr row" "upsert_user_rating (sub user) dto s = (Inr row, s')"
      "assertUserExists s (nur_ratedUserId dto) ''Rated user'' = Inr ()"
  | (error) e where "x = Inl e" "s' \<in> {s, bump T_user_ratings s}"
proof (cases "sub user = nur_ratedUserId dto \<or> assertUserExists s (nur_ratedUserId dto) ''Rated user'' \<noteq> Inr ()")
  case True
  with assms show thesis
    by (intro error [of "projl x"]) (auto simp: rateUser_def split: if_split_asm sum.split_asm)
next
  case False
  obtain y t where u: "upsert_user_rating (sub user) dto s = (y, t)" by fastforce
  show thesis
  proof (cases y)
    case (Inl e)
    with False u assms upsert_user_rating_error [OF u [unfolded Inl]] show thesis
      by (intro error) (auto simp: rateUser_def)
  next
    case (Inr row)
    show thesis by (rule ok [of row]) (use False Inr u assms in \<open>auto simp: rateUser_def\<close>)
  qed
qed

section \<open>Histories\<close>

definition rating_inv :: "db \<Rightarrow> bool" where
  "rating_inv s \<longleftrightarrow>
     product_board.in_range s \<and> item_board.in_range s \<and> user_board.in_range s \<and>
     list_all (\<lambda>r. ir_item_type r \<noteq> Item_ORDER) (item_ratings s) \<and>
     list_all (\<lambda>r. ur_rater_id r \<noteq> ur_rated_user_id r) (user_ratings s) \<and>
     distinct (map user_key (user_ratings s))"

inductive rating_step :: "db \<Rightarrow> db \<Rightarrow> bool" where
  rate_item: "rating_step s (snd (createItemRating user dto s))"
| rate_user: "rating_step s (snd (rateUser user rdto s))"
| elsewhere: "rating_tables s' = rating_tables s \<Longrightarrow> rating_step s s'"

lemma rating_inv_frame:
  "rating_tables s' = rating_tables s \<Longrightarrow> rating_inv s' = rating_inv s \<and>
     product_board s' = product_board s \<and> item_board s' = item_board s"
  by (simp add: rating_tables_def rating_inv_def product_board.in_range_def item_board.in_range_def
      user_board.in_range_def product_board_def item_board_def user_board_def)

lemma createItemRating_inv:
  assumes inv: "rating_inv s"
  shows "rating_inv (snd (createItemRating user dto s)) \<and>
     (\<forall>k v. product_board s k = Some v \<longrightarrow> product_board (snd (createItemRating user dto s)) k = Some v) \<and>
     (\<forall>k v. item_board s k = Some v \<longrightarrow> item_board (snd (createItemRating user dto s)) k = Some v)"
proof -
  obtain x s' where run: "createItemRating user dto s = (x, s')" by fastforce
  from run show ?thesis
  proof (cases rule: createItemRating_cases)
    case (order row)
    let ?k = "(sub user, the (nir_orderId dto), the (nir_productId dto))"
    have s': "s' = (bump T_product_ratings s)\<lparr>product_ratings := product_ratings s @ [row]\<rparr>"
      by (rule insert_product_rating_ok(2) [OF order(4)])
    have "product_board.in_range s'"
      using product_board.in_range_rate [of s ?k "nir_ratingValue dto" "nir_comment dto"] inv order(4)
      by (simp add: rating_inv_def)
    moreover have "product_board s k = Some v \<Longrightarrow> product_board s' k = Some v" for k v
      using product_board.kept [of s k v ?k "nir_ratingValue dto" "nir_comment dto"] order(4) by simp
    ultimately show ?thesis using inv run s'
      by (simp add: rating_inv_def item_board.in_range_def user_board.in_range_def item_board_def user_board_def)
  next
    case (item row)
    let ?k = "(sub user, nir_itemType dto, the (nir_itemId dto))"
    have s': "s' = (bump T_item_ratings s)\<lparr>item_ratings := item_ratings s @ [row]\<rparr>"
      by (rule insert_item_rating_ok(2) [OF item(4)])
    have row: "ir_item_type row = nir_itemType dto" by (simp add: insert_item_rating_ok(1) [OF item(4)])
    have "item_board.in_range s'"
      using item_board.in_range_rate [of s ?k "nir_ratingValue dto" "nir_comment dto"] inv item(4)
      by (simp add: rating_inv_def)
    moreover have "item_board s k = Some v \<Longrightarrow> item_board s' k = Some v" for k v
      using item_board.kept [of s k v ?k "nir_ratingValue dto" "nir_comment dto"] item(4) by simp
    ultimately show ?thesis using inv run s' row item(1)
      by (simp add: rating_inv_def product_board.in_range_def user_board.in_range_def product_board_def user_board_def)
  next
    case (error e)
    then have "rating_tables s' = rating_tables s" by (auto simp: rating_tables_def)
    then show ?thesis using inv run rating_inv_frame [of s' s] by simp
  qed
qed

lemma rateUser_inv:
  assumes inv: "rating_inv s"
  shows "rating_inv (snd (rateUser user dto s)) \<and> product_board (snd (rateUser user dto s)) = product_board s \<and>
     item_board (snd (rateUser user dto s)) = item_board s"
proof -
  obtain x s' where run: "rateUser user dto s = (x, s')" by fastforce
  from run show ?thesis
  proof (cases rule: rateUser_cases)
    case (ok row)
    let ?k = "(sub user, nur_ratedUserId dto)"
    have board: "user_board s' = (user_board s)(?k \<mapsto> nur_ratingValue dto)" "1 \<le> nur_ratingValue dto"
      "nur_ratingValue dto \<le> 5" "sub user \<noteq> nur_ratedUserId dto"
      using upsert_user_rating_board [OF ok(2)] by auto
    have rows: "map user_key (user_ratings s') = map user_key (user_ratings s) \<or>
        ?k \<notin> user_key ` set (user_ratings s) \<and> map user_key (user_ratings s') = map user_key (user_ratings s) @ [?k]"
      and others: "product_ratings s' = product_ratings s" "item_ratings s' = item_ratings s"
      using ok(2)
      by (auto simp: upsert_user_rating_def Let_def user_key_def user_rating_set_def find_None_iff
          split: option.split_asm if_split_asm intro!: update_where_ids)
    have self: "list_all (\<lambda>r. ur_rater_id r \<noteq> ur_rated_user_id r) (user_ratings u) \<longleftrightarrow>
        list_all (\<lambda>k. fst k \<noteq> snd k) (map user_key (user_ratings u))" for u
      by (simp add: list_all_iff user_key_def)
    have "list_all (\<lambda>r. ur_rater_id r \<noteq> ur_rated_user_id r) (user_ratings s')"
      using rows board(4) inv unfolding self rating_inv_def by auto
    moreover have "distinct (map user_key (user_ratings s'))"
      using rows inv unfolding rating_inv_def by auto
    moreover have "user_board.in_range s'"
      using inv board by (auto simp: rating_inv_def user_board.in_range_def)
    ultimately show ?thesis using inv run others
      by (simp add: rating_inv_def product_board.in_range_def item_board.in_range_def product_board_def item_board_def)
  next
    case (error e)
    then have "rating_tables s' = rating_tables s" by (auto simp: rating_tables_def)
    then show ?thesis using inv run rating_inv_frame [of s' s] by simp
  qed
qed

lemma rating_step_keeps:
  assumes "rating_step s s'" and "rating_inv s"
  shows "rating_inv s' \<and> (\<forall>k v. product_board s k = Some v \<longrightarrow> product_board s' k = Some v) \<and>
     (\<forall>k v. item_board s k = Some v \<longrightarrow> item_board s' k = Some v)"
  using assms(1)
proof (cases rule: rating_step.cases)
  case (rate_item user dto)
  then show ?thesis using createItemRating_inv [OF assms(2)] by blast
next
  case (rate_user user rdto)
  then show ?thesis using rateUser_inv [OF assms(2), of user rdto] by simp
next
  case elsewhere
  then show ?thesis using rating_inv_frame [of s' s] assms(2) by simp
qed

lemma rating_steps_keep:
  assumes "rating_step\<^sup>*\<^sup>* s s'" and "rating_inv s"
  shows "rating_inv s' \<and> (\<forall>k v. product_board s k = Some v \<longrightarrow> product_board s' k = Some v) \<and>
     (\<forall>k v. item_board s k = Some v \<longrightarrow> item_board s' k = Some v)"
  using assms
proof (induction rule: rtranclp_induct)
  case base
  then show ?case by simp
next
  case (step t u)
  then show ?case using rating_step_keeps [of t u] by blast
qed

lemma user_rating_values:
  assumes "rating_inv s" and "r \<in> set (user_ratings s)"
  shows "1 \<le> ur_rating_value r \<and> ur_rating_value r \<le> 5"
proof -
  have "user_board s (user_key r) = Some (ur_rating_value r)"
    using assms by (simp add: rating_inv_def user_board_def board_of_def row_by_member)
  with assms show ?thesis unfolding rating_inv_def user_board.in_range_def by blast
qed

section \<open>Properties\<close>

text \<open>
  C10: \<open>POST /ratings\<close> stores a rating exactly when what is rated is rateable by its author (a product
  of an own delivered order, an own finished fault or service order), the value is between 1 and 5, it
  has not been rated before and the referenced rows exist; every refusal leaves all rating tables as
  they were, and a second rating is refused as a bad request.
\<close>

theorem createItemRating_accepts:
  assumes run: "createItemRating user dto s = (x, s')"
  shows "(is_ok x \<longleftrightarrow>
      rateable s (sub user) dto \<and> 1 \<le> nir_ratingValue dto \<and> nir_ratingValue dto \<le> 5 \<and>
      has_key u_id (sub user) (users s) \<and>
      (if nir_itemType dto = Item_ORDER
       then \<not> product_rated s (sub user) (the (nir_orderId dto)) (the (nir_productId dto)) \<and>
            has_key po_id (the (nir_orderId dto)) (product_orders s) \<and>
            has_key cp_id (the (nir_productId dto)) (catalog_products s)
       else \<not> item_rated s (sub user) (nir_itemType dto) (the (nir_itemId dto)))) \<and>
    (\<not> is_ok x \<longrightarrow> rating_tables s' = rating_tables s) \<and>
    (rateable s (sub user) dto \<and> 1 \<le> nir_ratingValue dto \<and> nir_ratingValue dto \<le> 5 \<and>
      (if nir_itemType dto = Item_ORDER
       then product_rated s (sub user) (the (nir_orderId dto)) (the (nir_productId dto))
       else item_rated s (sub user) (nir_itemType dto) (the (nir_itemId dto))) \<longrightarrow>
      x = Inl (BadRequest ''Rating already exists'')) \<and>
    (x = Inr (Product_rating p) \<longrightarrow>
      product_ratings s' = product_ratings s @ [p] \<and> pr_user_id p = sub user \<and> Some (pr_order_id p) = nir_orderId dto \<and>
      Some (pr_product_id p) = nir_productId dto \<and> pr_rating_value p = nir_ratingValue dto) \<and>
    (x = Inr (Item_rating i) \<longrightarrow>
      item_ratings s' = item_ratings s @ [i] \<and> ir_user_id i = sub user \<and> ir_item_type i = nir_itemType dto \<and>
      Some (ir_item_id i) = nir_itemId dto \<and> ir_rating_value i = nir_ratingValue dto)"
proof (intro conjI)
  show "\<not> is_ok x \<longrightarrow> rating_tables s' = rating_tables s"
    by (cases rule: createItemRating_cases [OF run]) (auto simp: rating_tables_def)
  have ids: "nir_itemType dto = Item_ORDER \<Longrightarrow> nir_orderId dto \<noteq> None \<and> nir_productId dto \<noteq> None"
    "nir_itemType dto \<noteq> Item_ORDER \<Longrightarrow> nir_itemId dto \<noteq> None" if "rateable s (sub user) dto"
    using that by (auto simp: rateable_def split: item_type.split_asm)
  show "x = Inr (Product_rating p) \<longrightarrow>
      product_ratings s' = product_ratings s @ [p] \<and> pr_user_id p = sub user \<and> Some (pr_order_id p) = nir_orderId dto \<and>
      Some (pr_product_id p) = nir_productId dto \<and> pr_rating_value p = nir_ratingValue dto"
  using run proof (cases rule: createItemRating_cases)
    case (order row)
    from ids(1) [OF order(3,1)] have "Some (the (nir_orderId dto)) = nir_orderId dto"
      "Some (the (nir_productId dto)) = nir_productId dto" by auto
    then show ?thesis using insert_product_rating_ok(1,2) [OF order(4)] order(2) by clarsimp
  qed simp_all
  show "x = Inr (Item_rating i) \<longrightarrow>
      item_ratings s' = item_ratings s @ [i] \<and> ir_user_id i = sub user \<and> ir_item_type i = nir_itemType dto \<and>
      Some (ir_item_id i) = nir_itemId dto \<and> ir_rating_value i = nir_ratingValue dto"
  using run proof (cases rule: createItemRating_cases)
    case (item row)
    from ids(2) [OF item(3,1)] have "Some (the (nir_itemId dto)) = nir_itemId dto" by auto
    then show ?thesis using insert_item_rating_ok(1,2) [OF item(4)] item(2) by clarsimp
  qed simp_all
  have guard: "\<not> rateable s (sub user) dto \<Longrightarrow> \<not> is_ok x"
    by (cases rule: createItemRating_cases [OF run]) auto
  have order: "x = (case insert_product_rating (sub user) (the (nir_orderId dto)) (the (nir_productId dto))
       (nir_ratingValue dto) (nir_comment dto) s of (Inl e, _) \<Rightarrow> Inl (rethrow_rating e) | (Inr row, _) \<Rightarrow> Inr (Product_rating row))"
    if "nir_itemType dto = Item_ORDER" "rateable s (sub user) dto"
    using that assertRateableProduct_ok [OF that(1), of s "sub user"] run
    by (auto simp: createItemRating_def elim!: is_okE split: prod.splits sum.splits)
  have item: "x = (case insert_item_rating (sub user) (nir_itemType dto) (the (nir_itemId dto))
       (nir_ratingValue dto) (nir_comment dto) s of (Inl e, _) \<Rightarrow> Inl (rethrow_rating e) | (Inr row, _) \<Rightarrow> Inr (Item_rating row))"
    if "nir_itemType dto \<noteq> Item_ORDER" "rateable s (sub user) dto"
    using that assertRateableItem_ok [OF that(1), of s "sub user"] run
    by (auto simp: createItemRating_def elim!: is_okE split: prod.splits sum.splits)
  show "rateable s (sub user) dto \<and> 1 \<le> nir_ratingValue dto \<and> nir_ratingValue dto \<le> 5 \<and>
      (if nir_itemType dto = Item_ORDER
       then product_rated s (sub user) (the (nir_orderId dto)) (the (nir_productId dto))
       else item_rated s (sub user) (nir_itemType dto) (the (nir_itemId dto))) \<longrightarrow>
      x = Inl (BadRequest ''Rating already exists'')"
    using order item
    by (auto simp: insert_product_rating_def insert_item_rating_def Let_def rethrow_rating_def
        rating_error_def split: if_splits)
  show "is_ok x \<longleftrightarrow>
      rateable s (sub user) dto \<and> 1 \<le> nir_ratingValue dto \<and> nir_ratingValue dto \<le> 5 \<and>
      has_key u_id (sub user) (users s) \<and>
      (if nir_itemType dto = Item_ORDER
       then \<not> product_rated s (sub user) (the (nir_orderId dto)) (the (nir_productId dto)) \<and>
            has_key po_id (the (nir_orderId dto)) (product_orders s) \<and>
            has_key cp_id (the (nir_productId dto)) (catalog_products s)
       else \<not> item_rated s (sub user) (nir_itemType dto) (the (nir_itemId dto)))"
  proof (cases "rateable s (sub user) dto")
    case False
    with guard show ?thesis by simp
  next
    case True
    then show ?thesis
      using order item rating_error_None [of "nir_ratingValue dto"]
      by (cases "nir_itemType dto = Item_ORDER"; cases "rating_error (nir_ratingValue dto)")
        (auto simp: insert_product_rating_def insert_item_rating_def Let_def)
  qed
qed

text \<open>
  C11: Over any history of ratings, every stored value stays between 1 and 5, a product or item rating
  once given is never changed or removed, a user holds at most one opinion on another and none on
  themselves, the average of a rating summary lies between 1.00 and 5.00 (0 without ratings), and the
  item reviews of an order are always empty, whatever was rated.
\<close>

theorem rating_history:
  assumes "rating_step\<^sup>*\<^sup>* s s'" and "rating_inv s"
  shows "rating_inv s' \<and>
    (product_board s k = Some v \<longrightarrow> product_board s' k = Some v) \<and>
    (item_board s j = Some w \<longrightarrow> item_board s' j = Some w) \<and>
    (getItemReviews s' i Item_ORDER q = ([], 0)) \<and>
    (case getUserRatingSummary s' u of (average, number, latest) \<Rightarrow>
      (if number = 0 then average = 0 \<and> latest = [] else 100 \<le> average \<and> average \<le> 500) \<and>
      length latest \<le> 20 \<and> u \<notin> ur_rater_id ` set latest \<and> distinct (map ur_rater_id latest))"
proof (intro conjI)
  have inv: "rating_inv s'" and kept: "\<forall>k v. product_board s k = Some v \<longrightarrow> product_board s' k = Some v"
    "\<forall>k v. item_board s k = Some v \<longrightarrow> item_board s' k = Some v"
    using rating_steps_keep [OF assms] by auto
  show "rating_inv s'" by (rule inv)
  show "product_board s k = Some v \<longrightarrow> product_board s' k = Some v" using kept by blast
  show "item_board s j = Some w \<longrightarrow> item_board s' j = Some w" using kept by blast
  have "filter (\<lambda>r. ir_item_type r = Item_ORDER \<and> ir_item_id r = i) (item_ratings s') = []"
    using inv by (auto simp: rating_inv_def list_all_iff filter_empty_conv)
  then show "getItemReviews s' i Item_ORDER q = ([], 0)"
    by (simp add: getItemReviews_def paged_def page_def split: prod.split)
  define rows where "rows = filter (\<lambda>r. ur_rated_user_id r = u) (user_ratings s')"
  have sub: "set (take 20 (sort_key (\<lambda>r. - ur_created_at r) rows)) \<subseteq> set rows"
    using set_take_subset [of 20 "sort_key (\<lambda>r. - ur_created_at r) rows"] by simp
  have self: "u \<notin> ur_rater_id ` set rows" using inv by (auto simp: rows_def rating_inv_def list_all_iff)
  have "distinct (map user_key rows)" using inv by (auto simp: rows_def rating_inv_def distinct_map intro: inj_on_subset)
  then have "distinct (map ur_rater_id rows)"
    by (auto simp: distinct_map inj_on_def user_key_def rows_def)
  then have "distinct (map ur_rater_id (sort_key (\<lambda>r. - ur_created_at r) rows))"
    by (simp add: distinct_map)
  then have dist: "distinct (map ur_rater_id (take 20 (sort_key (\<lambda>r. - ur_created_at r) rows)))"
    by (simp add: take_map [symmetric])
  have vals: "\<forall>v \<in> set (map ur_rating_value rows). 1 \<le> v \<and> v \<le> 5"
    using user_rating_values [OF inv] by (auto simp: rows_def)
  have avg: "rows \<noteq> [] \<Longrightarrow> 100 \<le> avg2 (map ur_rating_value rows) \<and> avg2 (map ur_rating_value rows) \<le> 500"
    using avg2_bounds [OF _ vals] by simp
  show "case getUserRatingSummary s' u of (average, number, latest) \<Rightarrow>
      (if number = 0 then average = 0 \<and> latest = [] else 100 \<le> average \<and> average \<le> 500) \<and>
      length latest \<le> 20 \<and> u \<notin> ur_rater_id ` set latest \<and> distinct (map ur_rater_id latest)"
    using sub self dist avg
    by (auto simp: getUserRatingSummary_def Let_def rows_def [symmetric] avg2_def)
qed

section \<open>Witnesses\<close>

definition rating_db :: db where
  "rating_db = sample_db\<lparr>product_orders := [sample_order 1 2 Order_DELIVERED]\<rparr>"

definition sample_rating_dto :: create_item_rating_dto where
  "sample_rating_dto = \<lparr>nir_itemType = Item_ORDER, nir_itemId = None, nir_orderId = Some 1,
     nir_productId = Some 2, nir_ratingValue = 4, nir_comment = None\<rparr>"

theorem createItemRating_accepts_witness:
  "\<exists>p s'. createItemRating sample_customer sample_rating_dto rating_db = (Inr (Product_rating p), s') \<and>
     product_ratings s' = [p] \<and> pr_rating_value p = 4 \<and> pr_user_id p = 2 \<and>
     rateable rating_db 2 sample_rating_dto"
proof -
  obtain x s' where run: "createItemRating sample_customer sample_rating_dto rating_db = (x, s')" by fastforce
  have ok: "is_ok (fst (createItemRating sample_customer sample_rating_dto rating_db))" by code_simp
  then have "is_ok x" using run by simp
  moreover have "\<And>i. x \<noteq> Inr (Item_rating i)"
    using createItemRating_accepts [OF run] by (auto simp: sample_rating_dto_def)
  ultimately obtain p where p: "x = Inr (Product_rating p)" by (metis is_okE rating.exhaust)
  have "product_ratings rating_db = []" by code_simp
  then show ?thesis
    using createItemRating_accepts [OF run] p run \<open>is_ok x\<close> by (auto simp: sample_rating_dto_def)
qed

theorem rating_history_witness:
  "\<exists>s. rating_step\<^sup>*\<^sup>* empty_db s \<and> product_board s (2, 1, 2) = Some 4 \<and>
     rating_inv s \<and> getItemReviews s 1 Item_ORDER no_paging = ([], 0)"
proof -
  let ?s = "snd (createItemRating sample_customer sample_rating_dto rating_db)"
  have "rating_step empty_db rating_db"
    by (rule rating_step.elsewhere) (simp add: rating_tables_def rating_db_def sample_db_def empty_db_def)
  moreover have "rating_step rating_db ?s" by (rule rating_step.rate_item)
  ultimately have run: "rating_step\<^sup>*\<^sup>* empty_db ?s" by auto
  have inv: "rating_inv empty_db"
    by (simp add: rating_inv_def product_board.in_range_def item_board.in_range_def user_board.in_range_def
        product_board_def item_board_def user_board_def board_of_def empty_db_def)
  have "product_board ?s (2, 1, 2) = Some 4" by code_simp
  then show ?thesis using rating_history [OF run inv] run by blast
qed

end
