(* ===== verification/Config.thy ===== *)
theory Config
  imports JsValue
begin

text \<open>
  The configuration read from the environment at start-up (\<open>src/config/configuration.ts\<close>): parsing
  with fallbacks, the required variables and their order of complaint, and the record the rest of the
  program is configured by. Also the choice of the OTP provider
  (\<open>src/auth/otp-sender/otp-sender.provider.ts\<close>) and the constants of \<open>src/common/constants.ts\<close>.
\<close>

type_synonym env = "string \<Rightarrow> string option"

section \<open>Constants\<close>

definition OTP_RANGE_MIN :: int where "OTP_RANGE_MIN = 100000"
definition OTP_RANGE_MAX :: int where "OTP_RANGE_MAX = 1000000"
definition OTP_MAX_ATTEMPTS :: int where "OTP_MAX_ATTEMPTS = 5"
definition OTP_ATTEMPTS_TTL_SECONDS :: int where "OTP_ATTEMPTS_TTL_SECONDS = 600"
definition DEFAULT_PAGE_SIZE :: int where "DEFAULT_PAGE_SIZE = 20"
definition REFRESH_TTL_FALLBACK_SECONDS :: int where "REFRESH_TTL_FALLBACK_SECONDS = 2592000"

section \<open>Parsing\<close>

text \<open>\<open>!value\<close>: unset or empty.\<close>

definition falsy :: "string option \<Rightarrow> bool" where
  "falsy v \<longleftrightarrow> v = None \<or> v = Some []"

definition parseBoolean :: "string option \<Rightarrow> bool \<Rightarrow> bool" where
  "parseBoolean value fallback = (if falsy value then fallback else lower (the value) = ''true'')"

definition parseNumber :: "string option \<Rightarrow> num_value \<Rightarrow> num_value" where
  "parseNumber value fallback =
     (if falsy value then fallback
      else let parsed = js_Number (the value) in if is_finite parsed then parsed else fallback)"

definition parsePositiveInteger :: "string option \<Rightarrow> int \<Rightarrow> int" where
  "parsePositiveInteger value fallback =
     (case to_integer (parseNumber value (whole fallback)) of
        Some n \<Rightarrow> if 0 < n then n else fallback
      | None \<Rightarrow> fallback)"

text \<open>\<open>text.split(',')\<close>.\<close>

fun split_on :: "char \<Rightarrow> string \<Rightarrow> string list" where
  "split_on d [] = [[]]"
| "split_on d (c # s) =
     (if c = d then [] # split_on d s
      else (case split_on d s of [] \<Rightarrow> [[c]] | w # ws \<Rightarrow> (c # w) # ws))"

definition listed_values :: "string option \<Rightarrow> string list" where
  "listed_values v = filter (\<lambda>x. x \<noteq> []) (map trim (split_on (CHR '','') (coalesce v [])))"

section \<open>The configuration\<close>

datatype otp_provider = Provider_console | Provider_resend

record app_config =
  nodeEnv :: string
  port :: num_value
  corsOrigins :: "string list"
  databaseUrl :: string
  databaseSsl :: bool
  databasePoolMax :: int
  jwtAccessSecret :: string
  jwtRefreshSecret :: string
  jwtAccessTtl :: string
  jwtRefreshTtl :: string
  adminPhone :: "string option"
  adminPassword :: "string option"
  adminPhones :: "string list"
  otpSigningSecret :: string
  otpProvider :: otp_provider
  otpTtlMinutes :: num_value
  otpDevMode :: bool
  resendApiKey :: "string option"
  resendFromEmail :: "string option"
  resendOtpSubject :: string
  storageBucket :: string
  storagePublicBaseUrl :: string
  storageUploadTtlSeconds :: int
  storageSigningSecret :: string
  cloudinaryCloudName :: string
  cloudinaryApiKey :: string
  cloudinaryApiSecret :: string
  throttleTtl :: num_value
  throttleLimit :: num_value
  throttleDevBypass :: bool
  logLevel :: string
  logPretty :: bool
  logHttpBody :: bool
  logWsPayload :: bool
  redisUrl :: "string option"

definition read_otp_provider :: "string \<Rightarrow> otp_provider option" where
  "read_otp_provider v =
     (if v = ''console'' then Some Provider_console
      else if v = ''resend'' then Some Provider_resend else None)"

text \<open>The checks of the start-up, in the order of the code: the message of the first that fails.\<close>

definition config_error :: "env \<Rightarrow> string option" where
  "config_error env =
     (let provider = read_otp_provider (lower (coalesce (env ''OTP_PROVIDER'') ''console'')) in
      if falsy (env ''DATABASE_URL'') then Some ''DATABASE_URL is required''
      else if falsy (env ''JWT_ACCESS_SECRET'') then Some ''JWT_ACCESS_SECRET is required''
      else if falsy (env ''JWT_REFRESH_SECRET'') then Some ''JWT_REFRESH_SECRET is required''
      else if falsy (env ''STORAGE_SIGNING_SECRET'') then Some ''STORAGE_SIGNING_SECRET is required''
      else if falsy (env ''OTP_SIGNING_SECRET'') then Some ''OTP_SIGNING_SECRET is required''
      else if provider = None then Some ''OTP_PROVIDER must be either \"console\" or \"resend\"''
      else if lower (coalesce (env ''STORAGE_PROVIDER'') ''cloudinary'') \<noteq> ''cloudinary''
      then Some ''STORAGE_PROVIDER currently supports only \"cloudinary\"''
      else if provider = Some Provider_resend \<and> falsy (env ''RESEND_API_KEY'')
      then Some ''RESEND_API_KEY is required when OTP_PROVIDER=resend''
      else if provider = Some Provider_resend \<and> falsy (env ''RESEND_FROM_EMAIL'')
      then Some ''RESEND_FROM_EMAIL is required when OTP_PROVIDER=resend''
      else if falsy (env ''CLOUDINARY_CLOUD_NAME'')
      then Some ''CLOUDINARY_CLOUD_NAME is required when STORAGE_PROVIDER=cloudinary''
      else if falsy (env ''CLOUDINARY_API_KEY'')
      then Some ''CLOUDINARY_API_KEY is required when STORAGE_PROVIDER=cloudinary''
      else if falsy (env ''CLOUDINARY_API_SECRET'')
      then Some ''CLOUDINARY_API_SECRET is required when STORAGE_PROVIDER=cloudinary''
      else None)"

definition configuration :: "env \<Rightarrow> app_config result" where
  "configuration env =
     (case config_error env of
        Some message \<Rightarrow> Inl (PlainError message)
      | None \<Rightarrow> Inr
          \<lparr>nodeEnv = coalesce (env ''NODE_ENV'') ''development'',
           port = parseNumber (env ''PORT'') (whole 3000),
           corsOrigins = listed_values (env ''CORS_ORIGINS''),
           databaseUrl = the (env ''DATABASE_URL''),
           databaseSsl = parseBoolean (env ''DATABASE_SSL'') False,
           databasePoolMax = parsePositiveInteger (env ''DATABASE_POOL_MAX'') 20,
           jwtAccessSecret = the (env ''JWT_ACCESS_SECRET''),
           jwtRefreshSecret = the (env ''JWT_REFRESH_SECRET''),
           jwtAccessTtl = coalesce (env ''JWT_ACCESS_TTL'') ''15m'',
           jwtRefreshTtl = coalesce (env ''JWT_REFRESH_TTL'') ''30d'',
           adminPhone = env ''ADMIN_PHONE'',
           adminPassword = env ''ADMIN_PASSWORD'',
           adminPhones = listed_values (env ''ADMIN_PHONES''),
           otpSigningSecret = the (env ''OTP_SIGNING_SECRET''),
           otpProvider = the (read_otp_provider (lower (coalesce (env ''OTP_PROVIDER'') ''console''))),
           otpTtlMinutes = parseNumber (env ''OTP_TTL_MINUTES'') (whole 10),
           otpDevMode = parseBoolean (env ''OTP_DEV_MODE'') False,
           resendApiKey = env ''RESEND_API_KEY'',
           resendFromEmail = env ''RESEND_FROM_EMAIL'',
           resendOtpSubject = coalesce (env ''RESEND_OTP_SUBJECT'') ''Your verification code'',
           storageBucket = coalesce (env ''STORAGE_BUCKET'') ''market-media'',
           storagePublicBaseUrl = coalesce (env ''STORAGE_PUBLIC_BASE_URL'') ''https://cdn.example.com'',
           storageUploadTtlSeconds = parsePositiveInteger (env ''STORAGE_UPLOAD_TTL_SECONDS'') 600,
           storageSigningSecret = the (env ''STORAGE_SIGNING_SECRET''),
           cloudinaryCloudName = the (env ''CLOUDINARY_CLOUD_NAME''),
           cloudinaryApiKey = the (env ''CLOUDINARY_API_KEY''),
           cloudinaryApiSecret = the (env ''CLOUDINARY_API_SECRET''),
           throttleTtl = parseNumber (env ''THROTTLE_TTL'') (whole 60000),
           throttleLimit = parseNumber (env ''THROTTLE_LIMIT'') (whole 120),
           throttleDevBypass = parseBoolean (env ''THROTTLE_DEV_BYPASS'') False,
           logLevel = coalesce (env ''LOG_LEVEL'') ''log'',
           logPretty = parseBoolean (env ''LOG_PRETTY'') False,
           logHttpBody = parseBoolean (env ''LOG_HTTP_BODY'') False,
           logWsPayload = parseBoolean (env ''LOG_WS_PAYLOAD'') False,
           redisUrl = env ''REDIS_URL''\<rparr>)"

definition resolveOtpVerificationProvider :: "app_config \<Rightarrow> 'p \<Rightarrow> 'p \<Rightarrow> 'p" where
  "resolveOtpVerificationProvider appConfig consoleOtpSender resendOtpSender =
     (if otpProvider appConfig = Provider_resend then resendOtpSender else consoleOtpSender)"

section \<open>Facts\<close>

lemma split_on_nonempty [simp]: "split_on d s \<noteq> []"
  by (induction s) (auto split: list.split)

text \<open>Splitting is the inverse of joining with the separator.\<close>

lemma join_split_on: "join [d] (split_on d s) = s"
proof (induction s)
  case Nil
  then show ?case by simp
next
  case (Cons c s)
  obtain w ws where w: "split_on d s = w # ws" using split_on_nonempty by (meson neq_Nil_conv)
  with Cons show ?case by (cases ws) auto
qed

lemma split_on_free: "w \<in> set (split_on d s) \<Longrightarrow> d \<notin> set w"
proof (induction s arbitrary: w)
  case Nil
  then show ?case by simp
next
  case (Cons c s)
  obtain v vs where v: "split_on d s = v # vs" using split_on_nonempty by (meson neq_Nil_conv)
  show ?case
  proof (cases "c = d")
    case True
    with Cons show ?thesis by auto
  next
    case False
    with Cons.prems v have "w = c # v \<or> w \<in> set vs" by auto
    moreover have "d \<notin> set v" "w \<in> set vs \<Longrightarrow> d \<notin> set w" using Cons.IH v by auto
    ultimately show ?thesis using False by auto
  qed
qed

lemma parsePositiveInteger_pos: "0 < d \<Longrightarrow> 0 < parsePositiveInteger v d"
  by (simp add: parsePositiveInteger_def split: option.split)

lemma parseNumber_finite: "is_finite d \<Longrightarrow> is_finite (parseNumber v d)"
  by (simp add: parseNumber_def Let_def)

lemma set_trim: "set (trim s) \<subseteq> set s"
  unfolding trim_def by (auto dest!: set_dropWhileD)

lemma dropWhile_head: "dropWhile p s \<noteq> [] \<Longrightarrow> \<not> p (hd (dropWhile p s))"
  by (induction s) auto

text \<open>A trimmed text neither starts nor ends with white space.\<close>

lemma trim_ends:
  assumes "trim s \<noteq> []"
  shows "\<not> is_space (hd (trim s)) \<and> \<not> is_space (last (trim s))"
proof -
  let ?a = "dropWhile is_space s"
  let ?b = "dropWhile is_space (rev ?a)"
  have b: "?b \<noteq> []" using assms by (simp add: trim_def)
  then have "\<not> is_space (hd ?b)" by (rule dropWhile_head)
  moreover have "last (trim s) = hd ?b" using b by (simp add: trim_def last_rev)
  moreover have "hd (trim s) = hd ?a"
  proof -
    obtain p where p: "rev ?a = p @ ?b" by (metis takeWhile_dropWhile_id)
    then have "?a = rev ?b @ rev p" by (metis rev_append rev_rev_ident)
    then show ?thesis using b by (metis hd_append2 rev_is_Nil_conv trim_def)
  qed
  moreover have "?a \<noteq> []" using b by fastforce
  then have "\<not> is_space (hd ?a)" by (rule dropWhile_head)
  ultimately show ?thesis by simp
qed

text \<open>
  The program starts exactly when the database URL, the four secrets and the three Cloudinary
  values are set and non-empty, the storage provider is \<open>cloudinary\<close>, and the OTP provider is
  \<open>console\<close>, or \<open>resend\<close> with its key and sender. Whatever else the environment holds, the configuration
  it then runs with has a positive pool size and upload lifetime, finite numbers everywhere, non-empty
  secrets, and lists of origins whose entries are non-empty, trimmed and free of commas.
\<close>

theorem configuration_valid:
  "(is_ok (configuration env) \<longleftrightarrow>
      \<not> falsy (env ''DATABASE_URL'') \<and> \<not> falsy (env ''JWT_ACCESS_SECRET'') \<and> \<not> falsy (env ''JWT_REFRESH_SECRET'') \<and>
      \<not> falsy (env ''STORAGE_SIGNING_SECRET'') \<and> \<not> falsy (env ''OTP_SIGNING_SECRET'') \<and>
      \<not> falsy (env ''CLOUDINARY_CLOUD_NAME'') \<and> \<not> falsy (env ''CLOUDINARY_API_KEY'') \<and>
      \<not> falsy (env ''CLOUDINARY_API_SECRET'') \<and>
      lower (coalesce (env ''STORAGE_PROVIDER'') ''cloudinary'') = ''cloudinary'' \<and>
      (lower (coalesce (env ''OTP_PROVIDER'') ''console'') = ''console'' \<or>
       lower (coalesce (env ''OTP_PROVIDER'') ''console'') = ''resend'' \<and>
         \<not> falsy (env ''RESEND_API_KEY'') \<and> \<not> falsy (env ''RESEND_FROM_EMAIL''))) \<and>
   (case configuration env of
      Inl e \<Rightarrow> http_status e = 500
    | Inr cfg \<Rightarrow>
        0 < databasePoolMax cfg \<and> 0 < storageUploadTtlSeconds cfg \<and>
        list_all is_finite [port cfg, otpTtlMinutes cfg, throttleTtl cfg, throttleLimit cfg] \<and>
        list_all (\<lambda>t. t \<noteq> []) [databaseUrl cfg, jwtAccessSecret cfg, jwtRefreshSecret cfg,
          otpSigningSecret cfg, storageSigningSecret cfg] \<and>
        list_all (\<lambda>w. w \<noteq> [] \<and> CHR '','' \<notin> set w \<and> \<not> is_space (hd w) \<and> \<not> is_space (last w))
          (corsOrigins cfg @ adminPhones cfg))"
proof (intro conjI)
  have distinct: "read_otp_provider v = None \<longleftrightarrow> v \<noteq> ''console'' \<and> v \<noteq> ''resend''"
    "read_otp_provider v = Some Provider_resend \<longleftrightarrow> v = ''resend''" for v
    by (auto simp: read_otp_provider_def)
  have ok: "is_ok (configuration env) \<longleftrightarrow> config_error env = None"
    by (simp add: configuration_def split: option.split)
  show "is_ok (configuration env) \<longleftrightarrow>
      \<not> falsy (env ''DATABASE_URL'') \<and> \<not> falsy (env ''JWT_ACCESS_SECRET'') \<and> \<not> falsy (env ''JWT_REFRESH_SECRET'') \<and>
      \<not> falsy (env ''STORAGE_SIGNING_SECRET'') \<and> \<not> falsy (env ''OTP_SIGNING_SECRET'') \<and>
      \<not> falsy (env ''CLOUDINARY_CLOUD_NAME'') \<and> \<not> falsy (env ''CLOUDINARY_API_KEY'') \<and>
      \<not> falsy (env ''CLOUDINARY_API_SECRET'') \<and>
      lower (coalesce (env ''STORAGE_PROVIDER'') ''cloudinary'') = ''cloudinary'' \<and>
      (lower (coalesce (env ''OTP_PROVIDER'') ''console'') = ''console'' \<or>
       lower (coalesce (env ''OTP_PROVIDER'') ''console'') = ''resend'' \<and>
         \<not> falsy (env ''RESEND_API_KEY'') \<and> \<not> falsy (env ''RESEND_FROM_EMAIL''))"
    unfolding ok config_error_def Let_def distinct by (simp split: if_split)
  have words: "list_all (\<lambda>w. w \<noteq> [] \<and> CHR '','' \<notin> set w \<and> \<not> is_space (hd w) \<and> \<not> is_space (last w))
      (listed_values v)" for v
    using split_on_free set_trim trim_ends by (fastforce simp: listed_values_def list_all_iff)
  show "case configuration env of
      Inl e \<Rightarrow> http_status e = 500
    | Inr cfg \<Rightarrow>
        0 < databasePoolMax cfg \<and> 0 < storageUploadTtlSeconds cfg \<and>
        list_all is_finite [port cfg, otpTtlMinutes cfg, throttleTtl cfg, throttleLimit cfg] \<and>
        list_all (\<lambda>t. t \<noteq> []) [databaseUrl cfg, jwtAccessSecret cfg, jwtRefreshSecret cfg,
          otpSigningSecret cfg, storageSigningSecret cfg] \<and>
        list_all (\<lambda>w. w \<noteq> [] \<and> CHR '','' \<notin> set w \<and> \<not> is_space (hd w) \<and> \<not> is_space (last w))
          (corsOrigins cfg @ adminPhones cfg)"
  proof (cases "config_error env")
    case (Some m)
    then show ?thesis by (simp add: configuration_def)
  next
    case None
    then have "\<not> falsy (env ''DATABASE_URL'')" "\<not> falsy (env ''JWT_ACCESS_SECRET'')"
      "\<not> falsy (env ''JWT_REFRESH_SECRET'')" "\<not> falsy (env ''STORAGE_SIGNING_SECRET'')"
      "\<not> falsy (env ''OTP_SIGNING_SECRET'')"
      by (auto simp: config_error_def Let_def split: if_split_asm)
    moreover have "is_finite (whole n)" for n by (simp add: is_finite_def whole_def)
    ultimately show ?thesis using None words
      by (auto simp: configuration_def falsy_def intro!: parsePositiveInteger_pos parseNumber_finite)
  qed
qed

end
