(* ===== verification/AuthStore.thy ===== *)
theory AuthStore
  imports Config Samples
begin

text \<open>
  The state of authentication: \<open>AuthStateStore\<close> (\<open>src/auth/auth-state.store.ts\<close>) keeps refresh-token
  identifiers and OTP attempt counters in PostgreSQL and mirrors them to Redis
  (\<open>src/redis/redis.service.ts\<close>) when Redis is configured; a failing Redis is logged and ignored. The
  state is the pair of both stores. The locale \<open>token_store\<close> is what \<open>AuthService\<close> relies on: a map of
  live tokens with save, consume and revoke.
\<close>

section \<open>Time\<close>

text \<open>The clock counts microseconds, the resolution of \<open>TIMESTAMPTZ\<close>.\<close>

definition seconds :: "int \<Rightarrow> time" where
  "seconds n = n * 1000000"

definition minutes :: "num_value \<Rightarrow> time" where
  "minutes v = (case v of Dec m k \<Rightarrow> (m * 60000000) div 10 ^ k | _ \<Rightarrow> 0)"

definition otp_purpose_text :: "otp_purpose \<Rightarrow> string" where
  "otp_purpose_text p = (case p of Otp_registration \<Rightarrow> ''registration'' | Otp_password_reset \<Rightarrow> ''password_reset'')"

section \<open>Redis\<close>

text \<open>
  \<open>r_enabled\<close>: a URL is configured; \<open>r_down\<close>: every command is rejected; an entry disappears when its
  lifetime is over.
\<close>

record redis =
  r_enabled :: bool
  r_down :: bool
  r_entries :: "string \<Rightarrow> (string \<times> time) option"

definition redis_get :: "time \<Rightarrow> string \<Rightarrow> redis \<Rightarrow> string option result" where
  "redis_get now key r =
     (if \<not> r_enabled r then Inr None
      else if r_down r then Inl (PlainError ''Connection is closed.'')
      else Inr (case r_entries r key of
          None \<Rightarrow> None
        | Some (v, expires) \<Rightarrow> if now < expires then Some v else None))"

definition redis_set :: "time \<Rightarrow> string \<Rightarrow> string \<Rightarrow> int \<Rightarrow> (redis, unit) handler" where
  "redis_set now key v ttlSeconds r =
     (if \<not> r_enabled r then (Inr (), r)
      else if r_down r then (Inl (PlainError ''Connection is closed.''), r)
      else (Inr (), r\<lparr>r_entries := (r_entries r)(key \<mapsto> (v, now + seconds ttlSeconds))\<rparr>))"

definition redis_del :: "string \<Rightarrow> (redis, unit) handler" where
  "redis_del key r =
     (if \<not> r_enabled r then (Inr (), r)
      else if r_down r then (Inl (PlainError ''Connection is closed.''), r)
      else (Inr (), r\<lparr>r_entries := (r_entries r)(key := None)\<rparr>))"

text \<open>\<open>tryRedisSet\<close>: skipped without Redis, errors swallowed.\<close>

definition tryRedisSet :: "(redis, unit) handler \<Rightarrow> redis \<Rightarrow> redis" where
  "tryRedisSet act r = (if \<not> r_enabled r then r else snd (act r))"

type_synonym auth_state = "redis \<times> db"

section \<open>OTP attempts\<close>

definition otpAttemptsKey :: "string \<Rightarrow> otp_purpose \<Rightarrow> string" where
  "otpAttemptsKey email purpose = ''otp_attempts:'' @ email @ '':'' @ otp_purpose_text purpose"

definition otpTransactionKey :: "string \<Rightarrow> otp_purpose \<Rightarrow> string" where
  "otpTransactionKey email purpose = ''otp:tx:'' @ otp_purpose_text purpose @ '':'' @ email"

definition attempts_of :: "string \<Rightarrow> otp_purpose \<Rightarrow> otp_attempt \<Rightarrow> bool" where
  "attempts_of email purpose a \<longleftrightarrow> at_email a = email \<and> at_purpose a = purpose"

text \<open>The mirrored counter: \<open>raw ? parseInt(raw, 10) + 1 : 1\<close>.\<close>

definition redis_bump_attempts :: "time \<Rightarrow> string \<Rightarrow> int \<Rightarrow> (redis, unit) handler" where
  "redis_bump_attempts now key ttlSeconds r =
     (case redis_get now key r of
        Inl e \<Rightarrow> (Inl e, r)
      | Inr raw \<Rightarrow>
          redis_set now key
            (if falsy raw then ''1''
             else (case js_parseInt (the raw) of None \<Rightarrow> ''NaN'' | Some n \<Rightarrow> show_int (n + 1)))
            ttlSeconds r)"

definition attempt_update :: "time \<Rightarrow> int \<Rightarrow> otp_attempt \<Rightarrow> otp_attempt" where
  "attempt_update now ttlSeconds a =
     (if at_expires_at a \<le> now
      then a\<lparr>at_attempts := 1, at_expires_at := now + seconds ttlSeconds\<rparr>
      else a\<lparr>at_attempts := at_attempts a + 1\<rparr>)"

text \<open>\<open>INSERT \<dots> ON CONFLICT (email, purpose) DO UPDATE \<dots> RETURNING attempts\<close>.\<close>

definition upsert_otp_attempts :: "string \<Rightarrow> otp_purpose \<Rightarrow> int \<Rightarrow> db \<Rightarrow> int \<times> db" where
  "upsert_otp_attempts email purpose ttlSeconds s =
     (case find (attempts_of email purpose) (otp_attempts s) of
        Some a \<Rightarrow>
          (at_attempts (attempt_update (clock s) ttlSeconds a),
           s\<lparr>otp_attempts :=
               update_where (attempts_of email purpose) (attempt_update (clock s) ttlSeconds) (otp_attempts s)\<rparr>)
      | None \<Rightarrow>
          (1, s\<lparr>otp_attempts := otp_attempts s @
                 [\<lparr>at_email = email, at_purpose = purpose, at_attempts = 1,
                   at_expires_at = clock s + seconds ttlSeconds\<rparr>]\<rparr>))"

definition clearOtpAttempts :: "string \<Rightarrow> otp_purpose \<Rightarrow> auth_state \<Rightarrow> auth_state" where
  "clearOtpAttempts email purpose st =
     (case st of (r, s) \<Rightarrow>
        (tryRedisSet (redis_del (otpAttemptsKey email purpose)) r,
         s\<lparr>otp_attempts := delete_where (attempts_of email purpose) (otp_attempts s)\<rparr>))"

definition incrementOtpAttempts ::
  "string \<Rightarrow> otp_purpose \<Rightarrow> int \<Rightarrow> int \<Rightarrow> auth_state \<Rightarrow> (int \<times> bool) \<times> auth_state" where
  "incrementOtpAttempts email purpose maxAttempts ttlSeconds st =
     (case st of (r, s) \<Rightarrow>
        let r' = tryRedisSet (redis_bump_attempts (clock s) (otpAttemptsKey email purpose) ttlSeconds) r;
            (attempts, s') = upsert_otp_attempts email purpose ttlSeconds s
        in if maxAttempts \<le> attempts then ((attempts, True), clearOtpAttempts email purpose (r', s'))
           else ((attempts, False), (r', s')))"

section \<open>OTP transactions\<close>

definition saveOtpTransactionReqId ::
  "string \<Rightarrow> otp_purpose \<Rightarrow> string \<Rightarrow> int \<Rightarrow> auth_state \<Rightarrow> auth_state" where
  "saveOtpTransactionReqId email purpose transactionReqID ttlSeconds st =
     (case st of (r, s) \<Rightarrow>
        (tryRedisSet (redis_set (clock s) (otpTransactionKey email purpose) transactionReqID ttlSeconds) r, s))"

definition getOtpTransactionReqId :: "string \<Rightarrow> otp_purpose \<Rightarrow> auth_state \<Rightarrow> string option" where
  "getOtpTransactionReqId email purpose st =
     (case st of (r, s) \<Rightarrow>
        if \<not> r_enabled r then None
        else (case redis_get (clock s) (otpTransactionKey email purpose) r of Inl _ \<Rightarrow> None | Inr v \<Rightarrow> v))"

definition clearOtpTransactionReqId :: "string \<Rightarrow> otp_purpose \<Rightarrow> auth_state \<Rightarrow> auth_state" where
  "clearOtpTransactionReqId email purpose st =
     (case st of (r, s) \<Rightarrow> (tryRedisSet (redis_del (otpTransactionKey email purpose)) r, s))"

section \<open>Refresh tokens\<close>

definition refresh_key :: "string \<Rightarrow> string" where
  "refresh_key jti = ''refresh_jti:'' @ jti"

definition upsert_refresh_token :: "string \<Rightarrow> int \<Rightarrow> int \<Rightarrow> (db, unit) handler" where
  "upsert_refresh_token jti userId ttlSeconds s =
     (if \<not> has_key u_id userId (users s) then (Inl (SqlError ''23503''), s)
      else if has_key rt_jti jti (refresh_tokens s)
      then (Inr (), s\<lparr>refresh_tokens := update_where (\<lambda>t. rt_jti t = jti)
              (\<lambda>t. t\<lparr>rt_user_id := userId, rt_expires_at := clock s + seconds ttlSeconds, rt_revoked_at := None\<rparr>)
              (refresh_tokens s)\<rparr>)
      else (Inr (), s\<lparr>refresh_tokens := refresh_tokens s @
              [\<lparr>rt_jti = jti, rt_user_id = userId, rt_expires_at = clock s + seconds ttlSeconds,
                rt_revoked_at = None\<rparr>]\<rparr>))"

definition saveRefreshTokenJti :: "string \<Rightarrow> int \<Rightarrow> int \<Rightarrow> (auth_state, unit) handler" where
  "saveRefreshTokenJti jti userId ttlSeconds st =
     (case st of (r, s) \<Rightarrow>
        let r' = tryRedisSet (redis_set (clock s) (refresh_key jti) (show_int userId) ttlSeconds) r
        in case upsert_refresh_token jti userId ttlSeconds s of (x, s') \<Rightarrow> (x, (r', s')))"

definition live_token :: "time \<Rightarrow> string \<Rightarrow> refresh_token \<Rightarrow> bool" where
  "live_token now jti t \<longleftrightarrow> rt_jti t = jti \<and> rt_revoked_at t = None \<and> now < rt_expires_at t"

definition consumeRefreshTokenJti :: "string \<Rightarrow> auth_state \<Rightarrow> int option \<times> auth_state" where
  "consumeRefreshTokenJti jti st =
     (case st of (r, s) \<Rightarrow>
        (map_option rt_user_id (find (live_token (clock s) jti) (refresh_tokens s)),
         (tryRedisSet (redis_del (refresh_key jti)) r,
          s\<lparr>refresh_tokens := delete_where (live_token (clock s) jti) (refresh_tokens s)\<rparr>)))"

definition revokeRefreshTokenJti :: "string \<Rightarrow> auth_state \<Rightarrow> auth_state" where
  "revokeRefreshTokenJti jti st =
     (case st of (r, s) \<Rightarrow>
        (tryRedisSet (redis_del (refresh_key jti)) r,
         s\<lparr>refresh_tokens := update_where (\<lambda>t. rt_jti t = jti)
              (\<lambda>t. t\<lparr>rt_revoked_at := Some (clock s)\<rparr>) (refresh_tokens s)\<rparr>))"

section \<open>The contract of the token store\<close>

locale token_store =
  fixes live :: "'h \<Rightarrow> 'j \<Rightarrow> 'u option"
    and save :: "'j \<Rightarrow> 'u \<Rightarrow> int \<Rightarrow> ('h, unit) handler"
    and consume :: "'j \<Rightarrow> 'h \<Rightarrow> 'u option \<times> 'h"
    and revoke :: "'j \<Rightarrow> 'h \<Rightarrow> 'h"
  assumes save_ok: "0 < ttl \<Longrightarrow> save j u ttl h = (Inr x, h') \<Longrightarrow> live h' = (live h)(j \<mapsto> u)"
    and save_other: "i \<noteq> j \<Longrightarrow> live (snd (save j u ttl h)) i = live h i"
    and save_error: "save j u ttl h = (Inl e, h') \<Longrightarrow> live h' = live h"
    and consumed: "consume j h = (r, h') \<Longrightarrow> r = live h j \<and> live h' = (live h)(j := None)"
    and revoked: "live (revoke j h) = (live h)(j := None)"
begin

lemma consume_twice: "fst (consume j (snd (consume j h))) = None"
  using consumed [of j h "fst (consume j h)" "snd (consume j h)"]
    consumed [of j "snd (consume j h)" "fst (consume j (snd (consume j h)))" "snd (consume j (snd (consume j h)))"]
  by simp

lemma consume_revoked: "fst (consume j (revoke j h)) = None"
  using consumed [of j "revoke j h" "fst (consume j (revoke j h))" "snd (consume j (revoke j h))"] revoked [of j h]
  by simp

lemma dead_after: "live h j = None \<Longrightarrow> live (snd (consume i h)) j = None \<and> live (revoke i h) j = None"
  using consumed [of i h "fst (consume i h)" "snd (consume i h)"] revoked [of i h] by simp

end

definition live_tokens :: "auth_state \<Rightarrow> string \<Rightarrow> int option" where
  "live_tokens st jti = map_option rt_user_id (find (live_token (clock (snd st)) jti) (refresh_tokens (snd st)))"

lemma find_append: "find p (xs @ ys) = (case find p xs of None \<Rightarrow> find p ys | Some x \<Rightarrow> Some x)"
  by (induction xs) auto

lemma find_none_delete: "find p (delete_where p t) = None"
  by (auto simp: find_None_iff)

lemma find_delete_other:
  "(\<And>x. q x \<Longrightarrow> \<not> p x) \<Longrightarrow> find q (delete_where p t) = find q t"
  by (induction t) (auto simp: delete_where_def)

lemma find_update_other:
  assumes "\<And>x. p x \<Longrightarrow> \<not> q x \<and> \<not> q (f x)"
  shows "find q (update_where p f t) = find q t"
  by (induction t) (use assms in \<open>auto simp: update_where_def\<close>)

lemma find_update_all:
  assumes "\<And>x. q (f x) \<longleftrightarrow> p x" and "\<And>x. q x \<Longrightarrow> p x"
  shows "find q (update_where p f t) = map_option f (find p t)"
  by (induction t) (use assms in \<open>auto simp: update_where_def\<close>)

lemma find_update_dead:
  assumes "\<And>x. \<not> q (f x)" and "\<And>x. q x \<Longrightarrow> p x"
  shows "find q (update_where p f t) = None"
  by (induction t) (use assms in \<open>auto simp: update_where_def\<close>)

lemma upsert_other:
  assumes "i \<noteq> jti" and "upsert_refresh_token jti u ttl s = (x, s')"
  shows "find (live_token (clock s) i) (refresh_tokens s') = find (live_token (clock s) i) (refresh_tokens s)"
    and "clock s' = clock s"
proof -
  let ?set = "\<lambda>t. t\<lparr>rt_user_id := u, rt_expires_at := clock s + seconds ttl, rt_revoked_at := None\<rparr>"
  have "find (live_token (clock s) i) (update_where (\<lambda>t. rt_jti t = jti) ?set (refresh_tokens s)) =
      find (live_token (clock s) i) (refresh_tokens s)"
    using assms(1) by (intro find_update_other) (auto simp: live_token_def)
  moreover have "find (live_token (clock s) i) (refresh_tokens s @
      [\<lparr>rt_jti = jti, rt_user_id = u, rt_expires_at = clock s + seconds ttl, rt_revoked_at = None\<rparr>]) =
      find (live_token (clock s) i) (refresh_tokens s)"
    using assms(1) by (simp add: find_append live_token_def split: option.split)
  ultimately show "find (live_token (clock s) i) (refresh_tokens s') = find (live_token (clock s) i) (refresh_tokens s)"
    "clock s' = clock s"
    using assms(2) by (auto simp: upsert_refresh_token_def split: if_split_asm)
qed

lemma upsert_live:
  assumes "0 < ttl" and "upsert_refresh_token jti u ttl s = (Inr x, s')"
  shows "live_tokens (r', s') = (live_tokens (r, s))(jti \<mapsto> u)"
proof
  fix i
  let ?now = "clock s"
  let ?set = "\<lambda>t. t\<lparr>rt_user_id := u, rt_expires_at := ?now + seconds ttl, rt_revoked_at := None\<rparr>"
  have ttl: "?now < ?now + seconds ttl" using assms(1) by (simp add: seconds_def)
  show "live_tokens (r', s') i = ((live_tokens (r, s))(jti \<mapsto> u)) i"
  proof (cases "has_key rt_jti jti (refresh_tokens s)")
    case True
    then have s': "clock s' = ?now"
      "refresh_tokens s' = update_where (\<lambda>t. rt_jti t = jti) ?set (refresh_tokens s)"
      using assms(2) by (auto simp: upsert_refresh_token_def split: if_split_asm)
    obtain t where t: "find (\<lambda>t. rt_jti t = jti) (refresh_tokens s) = Some t"
      using True by (auto simp: has_key_row_by row_by_def)
    show ?thesis
    proof (cases "i = jti")
      case True
      have "find (live_token ?now jti) (refresh_tokens s') = map_option ?set (find (\<lambda>t. rt_jti t = jti) (refresh_tokens s))"
        unfolding s' using ttl by (intro find_update_all) (auto simp: live_token_def)
      with True t show ?thesis by (simp add: live_tokens_def s')
    next
      case False
      have "find (live_token ?now i) (refresh_tokens s') = find (live_token ?now i) (refresh_tokens s)"
        unfolding s' using False by (intro find_update_other) (auto simp: live_token_def)
      with False show ?thesis by (simp add: live_tokens_def s'(1))
    qed
  next
    case False
    then have s': "clock s' = ?now" "refresh_tokens s' = refresh_tokens s @
        [\<lparr>rt_jti = jti, rt_user_id = u, rt_expires_at = ?now + seconds ttl, rt_revoked_at = None\<rparr>]"
      using assms(2) by (auto simp: upsert_refresh_token_def split: if_split_asm)
    have "find (live_token ?now jti) (refresh_tokens s) = None"
      using False by (auto simp: find_None_iff has_key_iff live_token_def)
    with ttl show ?thesis
      by (auto simp: live_tokens_def s' find_append live_token_def split: option.split)
  qed
qed

lemma upsert_refresh_error: "upsert_refresh_token jti u ttl s = (Inl e, s') \<Longrightarrow> s' = s"
  by (auto simp: upsert_refresh_token_def split: if_split_asm)

interpretation tokens: token_store live_tokens saveRefreshTokenJti consumeRefreshTokenJti revokeRefreshTokenJti
proof unfold_locales
  fix ttl :: int and j u x e and h h' :: auth_state and r
  obtain rd s where h: "h = (rd, s)" by (cases h)
  obtain y s' where up: "upsert_refresh_token j u ttl s = (y, s')" by fastforce
  show "live_tokens h' = (live_tokens h)(j \<mapsto> u)"
    if "0 < ttl" "saveRefreshTokenJti j u ttl h = (Inr x, h')"
    using that up upsert_live [OF that(1), of j u s] by (auto simp: saveRefreshTokenJti_def h Let_def)
  show "live_tokens (snd (saveRefreshTokenJti j u ttl h)) i = live_tokens h i" if "i \<noteq> j" for i
    using upsert_other [OF that up] by (simp add: saveRefreshTokenJti_def h Let_def up live_tokens_def)
  show "live_tokens h' = live_tokens h" if "saveRefreshTokenJti j u ttl h = (Inl e, h')"
    using that up upsert_refresh_error [of j u ttl s]
    by (auto simp: saveRefreshTokenJti_def h Let_def live_tokens_def)
  show "r = live_tokens h j \<and> live_tokens h' = (live_tokens h)(j := None)"
    if "consumeRefreshTokenJti j h = (r, h')"
  proof -
    have r: "r = live_tokens h j" and s: "clock (snd h') = clock s"
      "refresh_tokens (snd h') = delete_where (live_token (clock s) j) (refresh_tokens s)"
      using that by (auto simp: consumeRefreshTokenJti_def h live_tokens_def)
    have "live_tokens h' i = ((live_tokens h)(j := None)) i" for i
    proof (cases "i = j")
      case True
      then show ?thesis by (simp add: live_tokens_def s find_none_delete)
    next
      case False
      then have "find (live_token (clock s) i) (delete_where (live_token (clock s) j) (refresh_tokens s)) =
          find (live_token (clock s) i) (refresh_tokens s)"
        by (intro find_delete_other) (auto simp: live_token_def)
      with False show ?thesis by (simp add: live_tokens_def s h)
    qed
    then have "live_tokens h' = (live_tokens h)(j := None)" by (rule ext)
    with r show ?thesis by (rule conjI)
  qed
  show "live_tokens (revokeRefreshTokenJti j h) = (live_tokens h)(j := None)"
  proof
    fix i
    let ?f = "\<lambda>t. t\<lparr>rt_revoked_at := Some (clock s)\<rparr>"
    show "live_tokens (revokeRefreshTokenJti j h) i = ((live_tokens h)(j := None)) i"
    proof (cases "i = j")
      case True
      have "find (live_token (clock s) j) (update_where (\<lambda>t. rt_jti t = j) ?f (refresh_tokens s)) = None"
        by (rule find_update_dead) (auto simp: live_token_def)
      with True show ?thesis by (simp add: live_tokens_def revokeRefreshTokenJti_def h)
    next
      case False
      then have "find (live_token (clock s) i) (update_where (\<lambda>t. rt_jti t = j) ?f (refresh_tokens s)) =
          find (live_token (clock s) i) (refresh_tokens s)"
        by (intro find_update_other) (auto simp: live_token_def)
      with False show ?thesis by (simp add: live_tokens_def revokeRefreshTokenJti_def h)
    qed
  qed
qed

section \<open>Properties\<close>

definition db_part :: "'a \<times> auth_state \<Rightarrow> 'a \<times> db" where
  "db_part y = (fst y, snd (snd y))"

text \<open>
  C24: Redis is only an accelerator: what the operations of the store answer and what they do to
  PostgreSQL is the same with Redis disabled, enabled, failing, or holding any stale data. (The stored
  OTP transaction id is the exception by design: it lives in Redis alone.)
\<close>

theorem redis_transparent:
  "db_part (incrementOtpAttempts email purpose maxAttempts ttl (r, s)) =
     db_part (incrementOtpAttempts email purpose maxAttempts ttl (r', s)) \<and>
   snd (clearOtpAttempts email purpose (r, s)) = snd (clearOtpAttempts email purpose (r', s)) \<and>
   db_part (saveRefreshTokenJti jti u ttl (r, s)) = db_part (saveRefreshTokenJti jti u ttl (r', s)) \<and>
   db_part (consumeRefreshTokenJti jti (r, s)) = db_part (consumeRefreshTokenJti jti (r', s)) \<and>
   snd (revokeRefreshTokenJti jti (r, s)) = snd (revokeRefreshTokenJti jti (r', s)) \<and>
   snd (saveOtpTransactionReqId email purpose txn ttl (r, s)) = s \<and>
   snd (clearOtpTransactionReqId email purpose (r, s)) = s"
proof (intro conjI)
  obtain a t where up: "upsert_otp_attempts email purpose ttl s = (a, t)" by fastforce
  show "db_part (incrementOtpAttempts email purpose maxAttempts ttl (r, s)) =
     db_part (incrementOtpAttempts email purpose maxAttempts ttl (r', s))"
    by (simp add: incrementOtpAttempts_def Let_def db_part_def clearOtpAttempts_def up)
  obtain y w where us: "upsert_refresh_token jti u ttl s = (y, w)" by fastforce
  show "db_part (saveRefreshTokenJti jti u ttl (r, s)) = db_part (saveRefreshTokenJti jti u ttl (r', s))"
    by (simp add: saveRefreshTokenJti_def Let_def db_part_def us)
qed (simp_all add: clearOtpAttempts_def consumeRefreshTokenJti_def revokeRefreshTokenJti_def db_part_def
    saveOtpTransactionReqId_def clearOtpTransactionReqId_def)

text \<open>The time passes between two wrong codes; the second component is the state after the last one.\<close>

definition at_time :: "time \<Rightarrow> auth_state \<Rightarrow> auth_state" where
  "at_time t st = (fst st, (snd st)\<lparr>clock := t\<rparr>)"

fun failures :: "time list \<Rightarrow> string \<Rightarrow> otp_purpose \<Rightarrow> int \<Rightarrow> int \<Rightarrow> auth_state \<Rightarrow> (int \<times> bool) list \<times> auth_state" where
  "failures [] email purpose maxAttempts ttl st = ([], st)"
| "failures (t # ts) email purpose maxAttempts ttl st =
     (let (x, st1) = incrementOtpAttempts email purpose maxAttempts ttl (at_time t st);
          (xs, st2) = failures ts email purpose maxAttempts ttl st1
      in (x # xs, st2))"

text \<open>The counter reads \<open>k\<close>: no row for 0, otherwise a row that lives until \<open>e\<close> at least.\<close>

definition counter_until :: "time \<Rightarrow> string \<Rightarrow> otp_purpose \<Rightarrow> int \<Rightarrow> auth_state \<Rightarrow> bool" where
  "counter_until e email purpose k st \<longleftrightarrow>
     (case find (attempts_of email purpose) (otp_attempts (snd st)) of
        None \<Rightarrow> k = 0
      | Some a \<Rightarrow> at_attempts a = k \<and> e \<le> at_expires_at a)"

lemma find_attempt_update:
  "find (attempts_of email purpose) (update_where (attempts_of email purpose) (attempt_update now ttl) rows) =
     map_option (attempt_update now ttl) (find (attempts_of email purpose) rows)"
  by (rule find_update_all) (simp_all add: attempt_update_def attempts_of_def)

lemma upsert_at:
  assumes "counter_until e email purpose k (r, s)" and "clock s < e" "e \<le> clock s + seconds ttl"
  shows "fst (upsert_otp_attempts email purpose ttl s) = k + 1"
    and "counter_until e email purpose (k + 1) (r', snd (upsert_otp_attempts email purpose ttl s))"
proof -
  have "attempt_update (clock s) ttl a = a\<lparr>at_attempts := at_attempts a + 1\<rparr>" if "e \<le> at_expires_at a" for a
    using that assms(2) by (simp add: attempt_update_def)
  moreover have "attempts_of email purpose \<lparr>at_email = email, at_purpose = purpose, at_attempts = n, at_expires_at = x\<rparr>" for n x
    by (simp add: attempts_of_def)
  ultimately have "fst (upsert_otp_attempts email purpose ttl s) = k + 1 \<and>
      counter_until e email purpose (k + 1) (r', snd (upsert_otp_attempts email purpose ttl s))"
    using assms
    by (cases "find (attempts_of email purpose) (otp_attempts s)")
      (auto simp: upsert_otp_attempts_def counter_until_def find_append find_attempt_update)
  then show "fst (upsert_otp_attempts email purpose ttl s) = k + 1"
    "counter_until e email purpose (k + 1) (r', snd (upsert_otp_attempts email purpose ttl s))" by simp_all
qed

lemma increment_at:
  assumes reads: "counter_until e email purpose k st" and k: "0 \<le> k" "k < maxAttempts"
    and t: "t < e" "e \<le> t + seconds ttl"
  shows "fst (incrementOtpAttempts email purpose maxAttempts ttl (at_time t st)) = (k + 1, k + 1 = maxAttempts)"
    and "counter_until e email purpose (if k + 1 = maxAttempts then 0 else k + 1)
      (snd (incrementOtpAttempts email purpose maxAttempts ttl (at_time t st)))"
proof -
  obtain r s where st: "at_time t st = (r, s)" by (cases "at_time t st")
  then have s: "clock s = t" "counter_until e email purpose k (r, s)"
    using reads by (auto simp: at_time_def counter_until_def)
  obtain a s' where up: "upsert_otp_attempts email purpose ttl s = (a, s')" by fastforce
  have a: "a = k + 1" "counter_until e email purpose (k + 1) (r', s')" for r'
    using upsert_at [OF s(2), of ttl] t s(1) up by auto
  show "fst (incrementOtpAttempts email purpose maxAttempts ttl (at_time t st)) = (k + 1, k + 1 = maxAttempts)"
    using k a(1) by (simp add: incrementOtpAttempts_def st Let_def up)
  show "counter_until e email purpose (if k + 1 = maxAttempts then 0 else k + 1)
      (snd (incrementOtpAttempts email purpose maxAttempts ttl (at_time t st)))"
    using k a by (auto simp: incrementOtpAttempts_def st Let_def up clearOtpAttempts_def counter_until_def find_none_delete)
qed

lemma failures_counted:
  assumes "counter_until e email purpose k st" and "0 \<le> k" "k < maxAttempts"
    and "\<forall>t \<in> set ts. t < e \<and> e \<le> t + seconds ttl"
  shows "fst (failures ts email purpose maxAttempts ttl st) =
    map (\<lambda>n. ((k + int n) mod maxAttempts + 1, (k + int n) mod maxAttempts + 1 = maxAttempts)) [0..<length ts]"
  using assms
proof (induction ts arbitrary: k st)
  case (Cons t ts)
  let ?k = "if k + 1 = maxAttempts then 0 else k + 1"
  have t: "t < e" "e \<le> t + seconds ttl" using Cons.prems(4) by auto
  note step = increment_at [OF Cons.prems(1-3) t]
  have "(?k + int n) mod maxAttempts = (k + int (Suc n)) mod maxAttempts" for n
    by (auto simp: algebra_simps) (metis add.assoc mod_add_self1)
  moreover have "k mod maxAttempts = k" using Cons.prems(2,3) by simp
  ultimately show ?case
    using Cons.IH [OF step(2)] Cons.prems(2-4) step(1)
    by (simp add: split_beta upt_conv_Cons map_Suc_upt [symmetric] del: upt_Suc)
qed simp

text \<open>
  C25: Starting without a counter, wrong codes given at any times within one window of \<open>ttl\<close> seconds are counted
  1, 2, \<dots> up to \<open>maxAttempts\<close>, the last of which is reported as locked, and then from 1 again: after the lock the
  counter starts anew, so no number of failures ever keeps later attempts out. A wrong code after a counter has
  expired is counted 1.
\<close>

theorem otp_attempts_cycle:
  assumes "find (attempts_of email purpose) (otp_attempts (snd st)) = None" and "0 < maxAttempts" and "0 < ttl"
    and "\<forall>t \<in> set ts. t0 \<le> t \<and> t < t0 + seconds ttl"
  shows "fst (failures ts email purpose maxAttempts ttl st) =
      map (\<lambda>n. (int n mod maxAttempts + 1, int n mod maxAttempts + 1 = maxAttempts)) [0..<length ts] \<and>
    (\<forall>st1 a t. find (attempts_of email purpose) (otp_attempts (snd st1)) = Some a \<and> at_expires_at a \<le> t \<longrightarrow>
       fst (incrementOtpAttempts email purpose maxAttempts ttl (at_time t st1)) = (1, maxAttempts \<le> 1))"
proof
  have "counter_until (t0 + seconds ttl) email purpose 0 st" using assms(1) by (simp add: counter_until_def)
  from failures_counted [OF this _ assms(2), of ts ttl] assms(4)
  show "fst (failures ts email purpose maxAttempts ttl st) =
      map (\<lambda>n. (int n mod maxAttempts + 1, int n mod maxAttempts + 1 = maxAttempts)) [0..<length ts]" by simp
  show "\<forall>st1 a t. find (attempts_of email purpose) (otp_attempts (snd st1)) = Some a \<and> at_expires_at a \<le> t \<longrightarrow>
       fst (incrementOtpAttempts email purpose maxAttempts ttl (at_time t st1)) = (1, maxAttempts \<le> 1)"
    by (auto simp: incrementOtpAttempts_def at_time_def Let_def upsert_otp_attempts_def attempt_update_def)
qed

section \<open>Witnesses\<close>

definition no_redis :: redis where
  "no_redis = \<lparr>r_enabled = False, r_down = False, r_entries = (\<lambda>_. None)\<rparr>"

theorem otp_attempts_cycle_witness:
  "map fst (fst (failures [0, 100000, 200000, 250000, 300000, 599999999] ''m@x.io'' Otp_registration 5 600 (no_redis, sample_db))) =
     [1, 2, 3, 4, 5, 1]"
proof -
  have "find (attempts_of ''m@x.io'' Otp_registration) (otp_attempts (snd (no_redis, sample_db))) = None"
    by (simp add: sample_db_def empty_db_def)
  from otp_attempts_cycle [OF this, of 5 600 "[0, 100000, 200000, 250000, 300000, 599999999]" 0]
  show ?thesis by (simp add: seconds_def upt_conv_Cons)
qed

end
