(* ===== verification/Otp.thy ===== *)
theory Otp
  imports AuthStore
begin

text \<open>
  One-time passwords: the console provider, which stores a salted HMAC of the code
  (\<open>src/auth/otp-sender/console-otp.sender.ts\<close>), the Resend provider, which mails it
  (\<open>resend-otp.sender.ts\<close>), and the hourly clean-up (\<open>src/auth/otp-cleanup.task.ts\<close>). Cryptography, the
  mail service and the random source are parameters: the record \<open>crypto\<close>, the reply of the mail
  service, and the values drawn. The locale \<open>otp_verifier\<close> is the interface
  \<open>OtpVerificationProvider\<close> (\<open>otp-sender.interface.ts\<close>) with the laws both providers satisfy.
\<close>

section \<open>Parameters\<close>

record jwt_payload =
  jp_sub :: js
  jp_email :: "string option"
  jp_isAdmin :: bool
  jp_tokenVersion :: "int option"
  jp_jti :: "string option"

text \<open>
  \<open>hmac_hex secret text\<close> is \<open>createHmac('sha256', secret).update(text).digest('hex')\<close>;
  \<open>bcrypt_hash salt password\<close> and \<open>bcrypt_compare password hash\<close> are bcryptjs;
  \<open>jwt_sign secret expiresIn now payload\<close> and \<open>jwt_verify secret now token\<close> are the JWT service, and
  \<open>jwt_life expiresIn\<close> is the number of seconds a lifetime text means to it.
\<close>

record 'tok crypto =
  hmac_hex :: "string \<Rightarrow> string \<Rightarrow> string"
  bcrypt_hash :: "string \<Rightarrow> string \<Rightarrow> string"
  bcrypt_compare :: "string \<Rightarrow> string \<Rightarrow> bool"
  jwt_sign :: "string \<Rightarrow> string \<Rightarrow> time \<Rightarrow> jwt_payload \<Rightarrow> 'tok"
  jwt_verify :: "string \<Rightarrow> time \<Rightarrow> 'tok \<Rightarrow> jwt_payload option"
  jwt_life :: "string \<Rightarrow> int"

text \<open>The documented behaviour the code relies on.\<close>

definition bcrypt_ok :: "'tok crypto \<Rightarrow> bool" where
  "bcrypt_ok c \<longleftrightarrow> (\<forall>salt p. bcrypt_compare c p (bcrypt_hash c salt p))"

definition jwt_ok :: "'tok crypto \<Rightarrow> bool" where
  "jwt_ok c \<longleftrightarrow> (\<forall>secret ttl issued now p.
     jwt_verify c secret now (jwt_sign c secret ttl issued p) =
       (if now < issued + seconds (jwt_life c ttl) then Some p else None))"

text \<open>The values a request draws: an OTP from \<open>randomInt\<close>, salts, and a token identifier.\<close>

record randoms =
  rnd_otp :: int
  rnd_otp_salt :: string
  rnd_bcrypt_salt :: string
  rnd_jti :: string

datatype mail_reply = Mail_ok | Mail_rejected "string option" string | Mail_unreachable string

section \<open>The console provider\<close>

definition hashOtp :: "'tok crypto \<Rightarrow> app_config \<Rightarrow> string \<Rightarrow> string \<Rightarrow> string" where
  "hashOtp c cfg otp salt = hmac_hex c (otpSigningSecret cfg) (otp @ '':'' @ salt)"

definition issued_otp :: "app_config \<Rightarrow> randoms \<Rightarrow> string" where
  "issued_otp cfg rnd = (if otpDevMode cfg then ''000000'' else show_int (rnd_otp rnd))"

definition console_startVerification ::
  "'tok crypto \<Rightarrow> app_config \<Rightarrow> randoms \<Rightarrow> int option \<Rightarrow> string \<Rightarrow> otp_purpose \<Rightarrow> (auth_state, string option) handler" where
  "console_startVerification c cfg rnd userId email purpose st =
     (case st of (r, s) \<Rightarrow>
        let otp = issued_otp cfg rnd;
            s1 = bump T_auth_otps s;
            row = \<lparr>ao_id = seqs s T_auth_otps, ao_user_id = userId, ao_email = email,
                   ao_code_hash = hashOtp c cfg otp (rnd_otp_salt rnd), ao_salt = rnd_otp_salt rnd,
                   ao_purpose = purpose, ao_expires_at = clock s + minutes (otpTtlMinutes cfg),
                   ao_used_at = None, ao_created_at = clock s\<rparr>
        in if (case userId of None \<Rightarrow> False | Some u \<Rightarrow> \<not> has_key u_id u (users s))
           then (Inl (SqlError ''23503''), (r, s1))
           else (Inr (if otpDevMode cfg then Some otp else None), (r, s1\<lparr>auth_otps := auth_otps s @ [row]\<rparr>)))"

definition em_dash :: string where
  "em_dash = [CHR 0xE2, CHR 0x80, CHR 0x94]"

text \<open>\<open>ORDER BY created_at DESC LIMIT 1\<close>.\<close>

definition latest_otp :: "db \<Rightarrow> string \<Rightarrow> otp_purpose \<Rightarrow> auth_otp option" where
  "latest_otp s email purpose =
     (case sort_key (\<lambda>r. - ao_created_at r)
             (filter (\<lambda>r. ao_email r = email \<and> ao_purpose r = purpose) (auth_otps s)) of
        [] \<Rightarrow> None
      | r # _ \<Rightarrow> Some r)"

text \<open>\<open>new Date(expires_at).getTime() < Date.now()\<close> compares milliseconds.\<close>

definition otp_expired :: "time \<Rightarrow> auth_otp \<Rightarrow> bool" where
  "otp_expired now row \<longleftrightarrow> ao_expires_at row div 1000 < now div 1000"

definition console_checkVerification ::
  "'tok crypto \<Rightarrow> app_config \<Rightarrow> string \<Rightarrow> otp_purpose \<Rightarrow> string \<Rightarrow> (auth_state, int) handler" where
  "console_checkVerification c cfg email purpose code st =
     (case latest_otp (snd st) email purpose of
        None \<Rightarrow> (Inl (BadRequest ''OTP not found''), st)
      | Some row \<Rightarrow>
          if ao_used_at row \<noteq> None then (Inl (BadRequest ''OTP already used''), st)
          else if otp_expired (clock (snd st)) row then (Inl (BadRequest ''OTP expired''), st)
          else if hashOtp c cfg code (ao_salt row) \<noteq> ao_code_hash row then
            (case incrementOtpAttempts email purpose OTP_MAX_ATTEMPTS OTP_ATTEMPTS_TTL_SECONDS st of
               ((attempts, locked), st') \<Rightarrow>
                 if locked
                 then (Inl (BadRequest (''Too many attempts '' @ em_dash @ '' OTP invalidated'')), st')
                 else (Inl (BadRequest ''Invalid OTP''), st'))
          else (Inr (ao_id row), clearOtpAttempts email purpose st))"

section \<open>The Resend provider\<close>

definition resend_text :: "app_config \<Rightarrow> string \<Rightarrow> string" where
  "resend_text cfg otp =
     ''Your verification code is: '' @ otp @ ''. It expires in '' @ num_text (otpTtlMinutes cfg) @ '' minutes.''"

definition resend_startVerification ::
  "'tok crypto \<Rightarrow> app_config \<Rightarrow> (string \<Rightarrow> string \<Rightarrow> mail_reply) \<Rightarrow> randoms \<Rightarrow> int option \<Rightarrow> string \<Rightarrow> otp_purpose \<Rightarrow>
     (auth_state, string option) handler" where
  "resend_startVerification c cfg mail rnd userId email purpose st =
     (case console_startVerification c cfg rnd userId email purpose st of
        (Inl e, st') \<Rightarrow> (Inl e, st')
      | (Inr result, st') \<Rightarrow>
          (case result of
             None \<Rightarrow> (Inl (ServiceUnavailable ''OTP is unavailable for email delivery''), st')
           | Some otp \<Rightarrow>
               if otp = [] then (Inl (ServiceUnavailable ''OTP is unavailable for email delivery''), st')
               else (case mail email (resend_text cfg otp) of
                   Mail_ok \<Rightarrow> (Inr result, st')
                 | Mail_rejected body statusText \<Rightarrow>
                     (Inl (ServiceUnavailable (''Failed to send OTP email: '' @ coalesce body statusText)), st')
                 | Mail_unreachable message \<Rightarrow> (Inl (PlainError message), st'))))"

definition resend_checkVerification ::
  "'tok crypto \<Rightarrow> app_config \<Rightarrow> string \<Rightarrow> otp_purpose \<Rightarrow> string \<Rightarrow> (auth_state, int) handler" where
  "resend_checkVerification = console_checkVerification"

section \<open>The provider in use\<close>

definition startVerification ::
  "'tok crypto \<Rightarrow> app_config \<Rightarrow> (string \<Rightarrow> string \<Rightarrow> mail_reply) \<Rightarrow> randoms \<Rightarrow> int option \<Rightarrow> string \<Rightarrow> otp_purpose \<Rightarrow>
     (auth_state, string option) handler" where
  "startVerification c cfg mail rnd =
     resolveOtpVerificationProvider cfg (console_startVerification c cfg rnd)
       (resend_startVerification c cfg mail rnd)"

definition checkVerification ::
  "'tok crypto \<Rightarrow> app_config \<Rightarrow> string \<Rightarrow> otp_purpose \<Rightarrow> string \<Rightarrow> (auth_state, int) handler" where
  "checkVerification c cfg =
     resolveOtpVerificationProvider cfg (console_checkVerification c cfg) (resend_checkVerification c cfg)"

definition purgeExpiredOtps :: "db \<Rightarrow> db" where
  "purgeExpiredOtps s =
     s\<lparr>auth_otps := delete_where (\<lambda>r. ao_used_at r \<noteq> None \<or> ao_expires_at r < clock s - seconds 86400) (auth_otps s),
       pending_registrations := delete_where (\<lambda>p. pg_expires_at p < clock s - seconds 86400) (pending_registrations s)\<rparr>"

section \<open>The contract of a provider\<close>

text \<open>
  \<open>accepts st e p code\<close>: the code would be accepted; \<open>fresh st\<close>: every stored code is older than now.
  A provider decides by \<open>accepts\<close>, and checking, successful or not, never changes what is accepted.
\<close>

locale otp_verifier =
  fixes start :: "int option \<Rightarrow> string \<Rightarrow> otp_purpose \<Rightarrow> ('h, string option) handler"
    and check :: "string \<Rightarrow> otp_purpose \<Rightarrow> string \<Rightarrow> ('h, int) handler"
    and accepts :: "'h \<Rightarrow> string \<Rightarrow> otp_purpose \<Rightarrow> string \<Rightarrow> bool"
    and fresh :: "'h \<Rightarrow> bool"
    and issued :: string
  assumes check_iff: "is_ok (fst (check e p code st)) \<longleftrightarrow> accepts st e p code"
    and check_keeps: "accepts (snd (check e p code st)) e' p' code' = accepts st e' p' code'"
    and started: "fresh st \<Longrightarrow> start u e p st = (Inr r, st') \<Longrightarrow> accepts st' e p issued"
begin

lemma start_check: "fresh st \<Longrightarrow> start u e p st = (Inr r, st') \<Longrightarrow> is_ok (fst (check e p issued st'))"
  using started check_iff by blast

text \<open>A code is not used up by checking it, and wrong guesses do not spoil it.\<close>

lemma check_again:
  "is_ok (fst (check e p code st)) \<Longrightarrow> is_ok (fst (check e p code (snd (check e' p' code' st))))"
  by (simp add: check_iff check_keeps)

end

definition otp_accepts :: "'tok crypto \<Rightarrow> app_config \<Rightarrow> auth_state \<Rightarrow> string \<Rightarrow> otp_purpose \<Rightarrow> string \<Rightarrow> bool" where
  "otp_accepts c cfg st email purpose code \<longleftrightarrow>
     (case latest_otp (snd st) email purpose of
        None \<Rightarrow> False
      | Some row \<Rightarrow> ao_used_at row = None \<and> \<not> otp_expired (clock (snd st)) row \<and>
          hashOtp c cfg code (ao_salt row) = ao_code_hash row)"

definition otps_past :: "app_config \<Rightarrow> auth_state \<Rightarrow> bool" where
  "otps_past cfg st \<longleftrightarrow> 0 \<le> minutes (otpTtlMinutes cfg) \<and>
     list_all (\<lambda>r. ao_created_at r < clock (snd st)) (auth_otps (snd st))"

lemma clear_frame: "auth_otps (snd (clearOtpAttempts e p st)) = auth_otps (snd st) \<and>
    clock (snd (clearOtpAttempts e p st)) = clock (snd st)"
  by (cases st) (simp add: clearOtpAttempts_def)

lemma increment_frame: "auth_otps (snd (snd (incrementOtpAttempts e p m t st))) = auth_otps (snd st) \<and>
    clock (snd (snd (incrementOtpAttempts e p m t st))) = clock (snd st)"
proof (cases st)
  case (Pair r s)
  obtain a s' where up: "upsert_otp_attempts e p t s = (a, s')" by fastforce
  then have "auth_otps s' = auth_otps s" "clock s' = clock s"
    by (auto simp: upsert_otp_attempts_def split: option.split_asm)
  then show ?thesis using up by (simp add: incrementOtpAttempts_def Pair Let_def clearOtpAttempts_def)
qed

lemma check_frame: "auth_otps (snd (snd (console_checkVerification c cfg e p code st))) = auth_otps (snd st) \<and>
    clock (snd (snd (console_checkVerification c cfg e p code st))) = clock (snd st)"
proof -
  obtain a l st' where inc: "incrementOtpAttempts e p OTP_MAX_ATTEMPTS OTP_ATTEMPTS_TTL_SECONDS st = ((a, l), st')"
    by (metis prod.collapse)
  then show ?thesis
    using increment_frame [of e p OTP_MAX_ATTEMPTS OTP_ATTEMPTS_TTL_SECONDS st] clear_frame [of e p st]
    by (auto simp: console_checkVerification_def split: option.split)
qed

lemma accepts_frame:
  "auth_otps (snd st') = auth_otps (snd st) \<Longrightarrow> clock (snd st') = clock (snd st) \<Longrightarrow>
     otp_accepts c cfg st' e p code = otp_accepts c cfg st e p code"
  by (simp add: otp_accepts_def latest_otp_def split: option.split)

text \<open>A row newer than all others is the latest.\<close>

lemma sort_key_snoc_min: "(\<And>y. y \<in> set ys \<Longrightarrow> f x < f y) \<Longrightarrow> sort_key f (ys @ [x]) = x # sort_key f ys"
proof (induction ys)
  case Nil
  then show ?case by simp
next
  case (Cons y ys)
  then have "sort_key f (ys @ [x]) = x # sort_key f ys" by simp
  moreover have "f x < f y" using Cons.prems by simp
  then have "\<not> f y \<le> f x" by simp
  ultimately show ?case by simp
qed

lemma console_started:
  assumes past: "otps_past cfg st"
    and run: "console_startVerification c cfg rnd u e p st = (Inr x, st')"
  shows "otp_accepts c cfg st' e p (issued_otp cfg rnd)"
proof -
  obtain r s where st: "st = (r, s)" by (cases st)
  let ?row = "\<lparr>ao_id = seqs s T_auth_otps, ao_user_id = u, ao_email = e,
                   ao_code_hash = hashOtp c cfg (issued_otp cfg rnd) (rnd_otp_salt rnd), ao_salt = rnd_otp_salt rnd,
                   ao_purpose = p, ao_expires_at = clock s + minutes (otpTtlMinutes cfg),
                   ao_used_at = None, ao_created_at = clock s\<rparr>"
  let ?rows = "filter (\<lambda>r. ao_email r = e \<and> ao_purpose r = p) (auth_otps s)"
  have s': "auth_otps (snd st') = auth_otps s @ [?row]" "clock (snd st') = clock s"
    using run by (auto simp: console_startVerification_def st Let_def split: if_split_asm)
  have "sort_key (\<lambda>r. - ao_created_at r) (?rows @ [?row]) = ?row # sort_key (\<lambda>r. - ao_created_at r) ?rows"
    using past by (intro sort_key_snoc_min) (auto simp: otps_past_def st list_all_iff)
  then have "latest_otp (snd st') e p = Some ?row"
    by (simp add: latest_otp_def s')
  moreover have "clock s div 1000 \<le> (clock s + minutes (otpTtlMinutes cfg)) div 1000"
    using past by (intro zdiv_mono1) (auto simp: otps_past_def)
  ultimately show ?thesis by (simp add: otp_accepts_def otp_expired_def s')
qed

lemma console_check_iff:
  "is_ok (fst (console_checkVerification c cfg e p code st)) \<longleftrightarrow> otp_accepts c cfg st e p code"
proof -
  obtain a l st' where inc: "incrementOtpAttempts e p OTP_MAX_ATTEMPTS OTP_ATTEMPTS_TTL_SECONDS st = ((a, l), st')"
    by (metis prod.collapse)
  show ?thesis by (simp add: console_checkVerification_def otp_accepts_def inc split: option.split)
qed

interpretation console: otp_verifier "console_startVerification c cfg rnd" "console_checkVerification c cfg"
    "otp_accepts c cfg" "otps_past cfg" "issued_otp cfg rnd"
  for c :: "'tok crypto" and cfg rnd
  by unfold_locales (rule console_check_iff, rule accepts_frame, simp add: check_frame, simp add: check_frame,
    rule console_started)

lemma resend_started:
  assumes "resend_startVerification c cfg mail rnd u e p st = (Inr x, st')"
  shows "console_startVerification c cfg rnd u e p st = (Inr x, st') \<and> x \<noteq> None"
proof -
  obtain y t where con: "console_startVerification c cfg rnd u e p st = (y, t)" by (rule prod.exhaust)
  show ?thesis using assms
    by (auto simp: resend_startVerification_def con split: sum.splits option.splits if_splits mail_reply.splits)
qed

interpretation resend: otp_verifier "resend_startVerification c cfg mail rnd" "resend_checkVerification c cfg"
    "otp_accepts c cfg" "otps_past cfg" "issued_otp cfg rnd"
  for c :: "'tok crypto" and cfg mail rnd
proof unfold_locales
  show "is_ok (fst (resend_checkVerification c cfg e p code st)) = otp_accepts c cfg st e p code" for e p code st
    by (simp add: resend_checkVerification_def console_check_iff)
  show "otp_accepts c cfg (snd (resend_checkVerification c cfg e p code st)) e' p' code' =
      otp_accepts c cfg st e' p' code'" for e p code st e' p' code'
    by (simp add: resend_checkVerification_def console.check_keeps)
  show "otp_accepts c cfg st' e p (issued_otp cfg rnd)"
    if "otps_past cfg st" "resend_startVerification c cfg mail rnd u e p st = (Inr r, st')" for st u e p r st'
    using that resend_started console_started by blast
qed

text \<open>The two providers behind the configuration.\<close>

interpretation provider: otp_verifier "startVerification c cfg mail rnd" "checkVerification c cfg"
    "otp_accepts c cfg" "otps_past cfg" "issued_otp cfg rnd"
  for c :: "'tok crypto" and cfg mail rnd
proof (cases "otpProvider cfg = Provider_resend")
  case True
  then have "startVerification c cfg mail rnd = resend_startVerification c cfg mail rnd"
    "checkVerification c cfg = resend_checkVerification c cfg"
    by (simp_all add: startVerification_def checkVerification_def resolveOtpVerificationProvider_def)
  then show "otp_verifier (startVerification c cfg mail rnd) (checkVerification c cfg) (otp_accepts c cfg)
      (otps_past cfg) (issued_otp cfg rnd)"
    using resend.otp_verifier_axioms by simp
next
  case False
  then have "startVerification c cfg mail rnd = console_startVerification c cfg rnd"
    "checkVerification c cfg = console_checkVerification c cfg"
    by (simp_all add: startVerification_def checkVerification_def resolveOtpVerificationProvider_def)
  then show "otp_verifier (startVerification c cfg mail rnd) (checkVerification c cfg) (otp_accepts c cfg)
      (otps_past cfg) (issued_otp cfg rnd)"
    using console.otp_verifier_axioms by simp
qed

end
