(* ===== verification/Auth.thy ===== *)
theory Auth
  imports Otp
begin

text \<open>
  Accounts and sessions: \<open>AuthService\<close> (\<open>src/auth/auth.service.ts\<close>), the access-token strategy
  (\<open>src/auth/jwt.strategy.ts\<close>) and the guards (\<open>src/common/guards\<close>). Requests act on the pair of Redis
  and database; a transaction rolls the database back and leaves Redis as it is. Cryptography and the
  mail service are the parameters of the theory \<open>Otp\<close>.
\<close>

section \<open>Requests and answers\<close>

record registration_dto =
  rg_email :: string
  rg_phone :: string
  rg_name :: string
  rg_address :: "string option"
  rg_password :: string

record 'tok token_pair =
  accessToken :: 'tok
  refreshToken :: 'tok

datatype otp_answer = Otp_sent "string option" | Otp_maybe_sent

record session = auth_user +
  ss_email :: "string option"
  ss_tokenVersion :: int

section \<open>Transactions\<close>

definition auth_transaction :: "(auth_state, 'a) handler \<Rightarrow> (auth_state, 'a) handler" where
  "auth_transaction callback st =
     (case callback st of
        (Inr a, st') \<Rightarrow> (Inr a, st')
      | (Inl e, (r', s')) \<Rightarrow> (Inl e, (r', (snd st)\<lparr>seqs := seqs s'\<rparr>)))"

section \<open>Tokens\<close>

definition unit_seconds :: "char \<Rightarrow> int option" where
  "unit_seconds u =
     (if u = CHR ''s'' then Some 1 else if u = CHR ''m'' then Some 60
      else if u = CHR ''h'' then Some 3600 else if u = CHR ''d'' then Some 86400 else None)"

definition parseTtlSeconds :: "string \<Rightarrow> int" where
  "parseTtlSeconds ttl =
     (if ttl \<noteq> [] \<and> all_digits (butlast ttl) then
        (case unit_seconds (last ttl) of
           Some n \<Rightarrow> int (parse_digits (butlast ttl)) * n
         | None \<Rightarrow> REFRESH_TTL_FALLBACK_SECONDS)
      else REFRESH_TTL_FALLBACK_SECONDS)"

text \<open>The \<open>sub\<close> claim is the user id as the driver returns it, a string.\<close>

definition base_payload :: "int \<Rightarrow> string option \<Rightarrow> bool \<Rightarrow> int \<Rightarrow> jwt_payload" where
  "base_payload userId email isAdm tokenVersion =
     \<lparr>jp_sub = Str (show_int userId), jp_email = email, jp_isAdmin = isAdm,
      jp_tokenVersion = Some tokenVersion, jp_jti = None\<rparr>"

definition generateTokens ::
  "'tok crypto \<Rightarrow> app_config \<Rightarrow> randoms \<Rightarrow> int \<Rightarrow> string option \<Rightarrow> bool \<Rightarrow> int \<Rightarrow> (auth_state, 'tok token_pair) handler" where
  "generateTokens c cfg rnd userId email isAdm tokenVersion st =
     (let now = clock (snd st);
          basePayload = base_payload userId email isAdm tokenVersion;
          refreshPayload = basePayload\<lparr>jp_jti := Some (rnd_jti rnd)\<rparr>;
          pair = \<lparr>accessToken = jwt_sign c (jwtAccessSecret cfg) (jwtAccessTtl cfg) now basePayload,
                  refreshToken = jwt_sign c (jwtRefreshSecret cfg) (jwtRefreshTtl cfg) now refreshPayload\<rparr>
      in case saveRefreshTokenJti (rnd_jti rnd) userId (parseTtlSeconds (jwtRefreshTtl cfg)) st of
           (Inl e, st') \<Rightarrow> (Inl e, st')
         | (Inr _, st') \<Rightarrow> (Inr pair, st'))"

section \<open>Registration\<close>

definition same_email :: "string \<Rightarrow> string option \<Rightarrow> bool" where
  "same_email email e \<longleftrightarrow> (case e of None \<Rightarrow> False | Some t \<Rightarrow> lower t = lower email)"

definition pending_update :: "registration_dto \<Rightarrow> string \<Rightarrow> time \<Rightarrow> time \<Rightarrow> pending_registration \<Rightarrow> pending_registration" where
  "pending_update dto passwordHash expires now p =
     p\<lparr>pg_phone := Some (rg_phone dto), pg_name := rg_name dto, pg_address := rg_address dto,
       pg_password_hash := passwordHash, pg_expires_at := expires, pg_created_at := now\<rparr>"

text \<open>
  \<open>INSERT INTO pending_registrations \<dots> ON CONFLICT (email) DO UPDATE\<close>: the phone is unique among the
  pending registrations.
\<close>

definition upsert_pending ::
  "registration_dto \<Rightarrow> string \<Rightarrow> time \<Rightarrow> (db, unit) handler" where
  "upsert_pending dto passwordHash expires s =
     (let s1 = bump T_pending_registrations s;
          mine = (\<lambda>p. pg_email p = lower (rg_email dto));
          row = \<lparr>pg_id = seqs s T_pending_registrations, pg_email = lower (rg_email dto),
                 pg_phone = Some (rg_phone dto), pg_name = rg_name dto, pg_address = rg_address dto,
                 pg_password_hash = passwordHash, pg_expires_at = expires, pg_created_at = clock s\<rparr>
      in if list_ex (\<lambda>p. \<not> mine p \<and> pg_phone p = Some (rg_phone dto)) (pending_registrations s)
         then (Inl (SqlError ''23505''), s1)
         else if list_ex mine (pending_registrations s)
         then (Inr (), s1\<lparr>pending_registrations :=
                  update_where mine (pending_update dto passwordHash expires (clock s)) (pending_registrations s)\<rparr>)
         else (Inr (), s1\<lparr>pending_registrations := pending_registrations s @ [row]\<rparr>))"

definition requestRegistrationOtp ::
  "'tok crypto \<Rightarrow> app_config \<Rightarrow> (string \<Rightarrow> string \<Rightarrow> mail_reply) \<Rightarrow> randoms \<Rightarrow> registration_dto \<Rightarrow>
     (auth_state, otp_answer) handler" where
  "requestRegistrationOtp c cfg mail rnd dto st =
     (case st of (r, s) \<Rightarrow>
        if list_ex (\<lambda>u. same_email (rg_email dto) (u_email u) \<or> u_phone u = Some (rg_phone dto)) (users s)
        then (Inl (Conflict ''Email or phone already exists''), st)
        else if (case find (\<lambda>p. lower (pg_email p) = lower (rg_email dto) \<or> pg_phone p = Some (rg_phone dto))
                         (pending_registrations s) of
                   None \<Rightarrow> False
                 | Some p \<Rightarrow> lower (pg_email p) \<noteq> lower (rg_email dto))
        then (Inl (Conflict ''Email or phone already exists''), st)
        else (case upsert_pending dto (bcrypt_hash c (rnd_bcrypt_salt rnd) (rg_password dto))
                     (clock s + minutes (otpTtlMinutes cfg)) s of
            (Inl _, s') \<Rightarrow> (Inl (Conflict ''Email or phone already exists''), (r, s'))
          | (Inr _, s') \<Rightarrow>
              (case startVerification c cfg mail rnd None (rg_email dto) Otp_registration (r, s') of
                 (Inl e, st') \<Rightarrow> (Inl e, st')
               | (Inr otp, st') \<Rightarrow> (Inr (Otp_sent otp), st'))))"

definition resendRegistrationOtp ::
  "'tok crypto \<Rightarrow> app_config \<Rightarrow> (string \<Rightarrow> string \<Rightarrow> mail_reply) \<Rightarrow> randoms \<Rightarrow> string \<Rightarrow>
     (auth_state, otp_answer) handler" where
  "resendRegistrationOtp c cfg mail rnd email st =
     (if \<not> list_ex (\<lambda>p. lower (pg_email p) = lower email \<and> clock (snd st) < pg_expires_at p)
            (pending_registrations (snd st))
      then (Inl (BadRequest ''No pending registration found for this email''), st)
      else (case startVerification c cfg mail rnd None email Otp_registration st of
          (Inl e, st') \<Rightarrow> (Inl e, st')
        | (Inr otp, st') \<Rightarrow> (Inr (Otp_sent otp), st')))"

text \<open>
  \<open>INSERT INTO users\<close>: the phone is unique among all users, the e-mail (up to case) among those not
  deleted.
\<close>

definition insert_user :: "pending_registration \<Rightarrow> (db, user) handler" where
  "insert_user pending s =
     (let s1 = bump T_users s;
          u = \<lparr>u_id = seqs s T_users, u_name = pg_name pending, u_phone = pg_phone pending,
               u_email = Some (lower (pg_email pending)), u_address = pg_address pending,
               u_password_hash = pg_password_hash pending, u_avatar_file_id = None, u_contact_info = None,
               u_status = User_active, u_is_admin = False, u_token_version = 0, u_deleted_at = None,
               u_created_at = clock s, u_updated_at = clock s\<rparr>
      in if list_ex (\<lambda>v. u_phone v \<noteq> None \<and> u_phone v = pg_phone pending) (users s)
            \<or> list_ex (\<lambda>v. u_deleted_at v = None \<and> same_email (pg_email pending) (u_email v)) (users s)
         then (Inl (SqlError ''23505''), s1)
         else (Inr u, s1\<lparr>users := users s @ [u]\<rparr>))"

definition promote_pending ::
  "'tok crypto \<Rightarrow> app_config \<Rightarrow> randoms \<Rightarrow> string \<Rightarrow> (auth_state, app_user \<times> 'tok token_pair) handler" where
  "promote_pending c cfg rnd email st =
     (case st of (r, s) \<Rightarrow>
        (case find (\<lambda>p. lower (pg_email p) = lower email \<and> clock s < pg_expires_at p) (pending_registrations s) of
           None \<Rightarrow> (Inl (BadRequest ''Registration session expired or not found''), st)
         | Some pending \<Rightarrow>
             (case insert_user pending s of
                (Inl _, s1) \<Rightarrow> (Inl (Conflict ''Email or phone already exists''), (r, s1))
              | (Inr u, s1) \<Rightarrow>
                  let s2 = s1\<lparr>pending_registrations :=
                        delete_where (\<lambda>p. lower (pg_email p) = lower email) (pending_registrations s1)\<rparr>
                  in case generateTokens c cfg rnd (u_id u) (u_email u) False 0 (r, s2) of
                       (Inl e, st') \<Rightarrow> (Inl e, st')
                     | (Inr pair, st') \<Rightarrow> (Inr (mapToAppUser (user_js u), pair), st'))))"

definition verifyRegistrationOtp ::
  "'tok crypto \<Rightarrow> app_config \<Rightarrow> randoms \<Rightarrow> string \<Rightarrow> string \<Rightarrow> (auth_state, app_user \<times> 'tok token_pair) handler" where
  "verifyRegistrationOtp c cfg rnd email otp st =
     (case checkVerification c cfg email Otp_registration otp st of
        (Inl e, st') \<Rightarrow> (Inl e, st')
      | (Inr _, st') \<Rightarrow> auth_transaction (promote_pending c cfg rnd email) st')"

section \<open>Sessions\<close>

definition live_by_email :: "db \<Rightarrow> string \<Rightarrow> user option" where
  "live_by_email s email = find (\<lambda>u. same_email email (u_email u) \<and> u_deleted_at u = None) (users s)"

definition login ::
  "'tok crypto \<Rightarrow> app_config \<Rightarrow> randoms \<Rightarrow> string \<Rightarrow> string \<Rightarrow> (auth_state, app_user \<times> 'tok token_pair) handler" where
  "login c cfg rnd email password st =
     (case live_by_email (snd st) email of
        None \<Rightarrow> (Inl (Unauthorized ''Invalid credentials''), st)
      | Some u \<Rightarrow>
          if u_status u \<noteq> User_active then (Inl (Unauthorized ''Invalid credentials''), st)
          else if \<not> bcrypt_compare c password (u_password_hash u)
          then (Inl (Unauthorized ''Invalid credentials''), st)
          else (case generateTokens c cfg rnd (u_id u) (u_email u) (u_is_admin u) (u_token_version u) st of
              (Inl e, st') \<Rightarrow> (Inl e, st')
            | (Inr pair, st') \<Rightarrow> (Inr (mapToAppUser (user_js u), pair), st')))"

definition requestPasswordResetOtp ::
  "'tok crypto \<Rightarrow> app_config \<Rightarrow> (string \<Rightarrow> string \<Rightarrow> mail_reply) \<Rightarrow> randoms \<Rightarrow> string \<Rightarrow>
     (auth_state, otp_answer) handler" where
  "requestPasswordResetOtp c cfg mail rnd email st =
     (case live_by_email (snd st) email of
        None \<Rightarrow> (Inr Otp_maybe_sent, st)
      | Some u \<Rightarrow>
          (case startVerification c cfg mail rnd (Some (u_id u)) email Otp_password_reset st of
             (Inl e, st') \<Rightarrow> (Inl e, st')
           | (Inr otp, st') \<Rightarrow> (Inr (Otp_sent otp), st')))"

definition set_password :: "string \<Rightarrow> time \<Rightarrow> user \<Rightarrow> user" where
  "set_password passwordHash now u = u\<lparr>u_password_hash := passwordHash, u_updated_at := now\<rparr>"

definition reset_account ::
  "'tok crypto \<Rightarrow> app_config \<Rightarrow> randoms \<Rightarrow> string \<Rightarrow> string \<Rightarrow> (auth_state, 'tok token_pair) handler" where
  "reset_account c cfg rnd email newPassword st =
     (case st of (r, s) \<Rightarrow>
        (case live_by_email s email of
           None \<Rightarrow> (Inl (BadRequest ''User not found''), st)
         | Some u \<Rightarrow>
             if u_status u \<noteq> User_active then (Inl (Unauthorized ''Invalid credentials''), st)
             else
               let passwordHash = bcrypt_hash c (rnd_bcrypt_salt rnd) newPassword;
                   s1 = s\<lparr>users := update_where (\<lambda>v. u_id v = u_id u) (set_password passwordHash (clock s)) (users s)\<rparr>
               in generateTokens c cfg rnd (u_id u) (u_email u) (u_is_admin u) (u_token_version u) (r, s1)))"

definition resetPassword ::
  "'tok crypto \<Rightarrow> app_config \<Rightarrow> randoms \<Rightarrow> string \<Rightarrow> string \<Rightarrow> string \<Rightarrow> string \<Rightarrow>
     (auth_state, 'tok token_pair) handler" where
  "resetPassword c cfg rnd email otp newPassword confirmPassword st =
     (if newPassword \<noteq> confirmPassword then (Inl (BadRequest ''Passwords do not match''), st)
      else (case checkVerification c cfg email Otp_password_reset otp st of
          (Inl e, st') \<Rightarrow> (Inl e, st')
        | (Inr _, st') \<Rightarrow> auth_transaction (reset_account c cfg rnd email newPassword) st'))"

definition invalid_refresh :: http_error where
  "invalid_refresh = Unauthorized ''Invalid refresh token''"

definition refresh ::
  "'tok crypto \<Rightarrow> app_config \<Rightarrow> randoms \<Rightarrow> 'tok \<Rightarrow> (auth_state, 'tok token_pair) handler" where
  "refresh c cfg rnd tok st =
     (case jwt_verify c (jwtRefreshSecret cfg) (clock (snd st)) tok of
        None \<Rightarrow> (Inl invalid_refresh, st)
      | Some payload \<Rightarrow>
          if falsy (jp_jti payload) then (Inl invalid_refresh, st)
          else (case consumeRefreshTokenJti (the (jp_jti payload)) st of (stored, st') \<Rightarrow>
            (case stored of
               None \<Rightarrow> (Inl invalid_refresh, st')
             | Some uid \<Rightarrow>
                 if Str (show_int uid) \<noteq> jp_sub payload then (Inl invalid_refresh, st')
                 else (case live_user (snd st') uid of
                     None \<Rightarrow> (Inl invalid_refresh, st')
                   | Some u \<Rightarrow>
                       if u_status u \<noteq> User_active \<or> Some (u_token_version u) \<noteq> jp_tokenVersion payload
                       then (Inl invalid_refresh, st')
                       else generateTokens c cfg rnd (u_id u) (u_email u) (u_is_admin u) (u_token_version u) st'))))"

definition logout :: "'tok crypto \<Rightarrow> app_config \<Rightarrow> 'tok \<Rightarrow> auth_state \<Rightarrow> auth_state" where
  "logout c cfg tok st =
     (case jwt_verify c (jwtRefreshSecret cfg) (clock (snd st)) tok of
        None \<Rightarrow> st
      | Some payload \<Rightarrow>
          if falsy (jp_jti payload) then st else revokeRefreshTokenJti (the (jp_jti payload)) st)"

section \<open>Access\<close>

definition validate :: "db \<Rightarrow> jwt_payload \<Rightarrow> session result" where
  "validate s payload =
     (case jp_tokenVersion payload of
        None \<Rightarrow> Inl (Unauthorized ''Invalid token'')
      | Some v \<Rightarrow>
          (case toPositiveInt (jp_sub payload) of
             None \<Rightarrow> Inl (Unauthorized ''Invalid token'')
           | Some normalizedSub \<Rightarrow>
               (case live_user s normalizedSub of
                  None \<Rightarrow> Inl (Unauthorized ''Token is stale'')
                | Some u \<Rightarrow>
                    if u_token_version u \<noteq> v then Inl (Unauthorized ''Token is stale'')
                    else Inr \<lparr>sub = normalizedSub, isAdmin = jp_isAdmin payload, ss_email = u_email u,
                              ss_tokenVersion = u_token_version u\<rparr>)))"

text \<open>The bearer token of a request: Passport verifies signature and expiry, then calls \<open>validate\<close>.\<close>

definition authenticate :: "'tok crypto \<Rightarrow> app_config \<Rightarrow> db \<Rightarrow> 'tok \<Rightarrow> session result" where
  "authenticate c cfg s tok =
     (case jwt_verify c (jwtAccessSecret cfg) (clock s) tok of
        None \<Rightarrow> Inl (Unauthorized ''Unauthorized'')
      | Some payload \<Rightarrow> validate s payload)"

definition optional_session :: "session result \<Rightarrow> session option" where
  "optional_session x = (case x of Inl _ \<Rightarrow> None | Inr u \<Rightarrow> Some u)"

definition adminGuard :: "db \<Rightarrow> auth_user \<Rightarrow> auth_user result" where
  "adminGuard s user =
     (if sub user = 0 then Inl (Forbidden ''Admin privileges required'')
      else (case row_by u_id (sub user) (users s) of
          None \<Rightarrow> Inl (Forbidden ''Admin privileges required'')
        | Some u \<Rightarrow>
            if \<not> u_is_admin u then Inl (Forbidden ''Admin privileges required'')
            else Inr (user\<lparr>isAdmin := True\<rparr>)))"

section \<open>Invariant and basic facts\<close>

definition users_inv :: "db \<Rightarrow> bool" where
  "users_inv s \<longleftrightarrow> pk u_id (seqs s T_users) (users s) \<and> list_all (\<lambda>u. 0 < u_id u) (users s) \<and> 0 < seqs s T_users"

definition later :: "time \<Rightarrow> auth_state \<Rightarrow> auth_state" where
  "later t st = (fst st, (snd st)\<lparr>clock := t\<rparr>)"

lemma live_user_pk:
  "users_inv s \<Longrightarrow> u \<in> set (users s) \<Longrightarrow> u_deleted_at u = None \<Longrightarrow> live_user s (u_id u) = Some u"
  using pk_find_and [of u_id "seqs s T_users" "users s" "u_id u" "\<lambda>u. u_deleted_at u = None"]
    pk_row_by [of u_id "seqs s T_users" "users s" u]
  by (simp add: users_inv_def live_user_def)

lemma live_by_email_Some:
  "live_by_email s email = Some u \<Longrightarrow> u \<in> set (users s) \<and> u_deleted_at u = None \<and> same_email email (u_email u)"
  by (auto simp: live_by_email_def dest: find_SomeD)

lemma has_user: "u \<in> set (users s) \<Longrightarrow> has_key u_id (u_id u) (users s)"
  by (auto simp: has_key_iff)

lemma save_for_user:
  assumes "has_key u_id i (users s)"
  obtains r' s' where "saveRefreshTokenJti j i ttl (r, s) = (Inr (), (r', s'))" "users s' = users s"
    "clock s' = clock s" "pending_registrations s' = pending_registrations s" "auth_otps s' = auth_otps s"
proof -
  obtain y s' where up: "upsert_refresh_token j i ttl s = (y, s')" by (rule prod.exhaust)
  have "y = Inr ()" "users s' = users s" "clock s' = clock s" "pending_registrations s' = pending_registrations s"
    "auth_otps s' = auth_otps s"
    using up assms by (auto simp: upsert_refresh_token_def split: if_split_asm)
  then show thesis using that up by (auto simp: saveRefreshTokenJti_def Let_def)
qed

definition issued_pair :: "'tok crypto \<Rightarrow> app_config \<Rightarrow> randoms \<Rightarrow> time \<Rightarrow> jwt_payload \<Rightarrow> 'tok token_pair" where
  "issued_pair c cfg rnd now p =
     \<lparr>accessToken = jwt_sign c (jwtAccessSecret cfg) (jwtAccessTtl cfg) now p,
      refreshToken = jwt_sign c (jwtRefreshSecret cfg) (jwtRefreshTtl cfg) now (p\<lparr>jp_jti := Some (rnd_jti rnd)\<rparr>)\<rparr>"

lemma generateTokens_ok:
  assumes "has_key u_id i (users (snd st))"
  obtains st' where
    "generateTokens c cfg rnd i email adm v st =
       (Inr (issued_pair c cfg rnd (clock (snd st)) (base_payload i email adm v)), st')"
    "saveRefreshTokenJti (rnd_jti rnd) i (parseTtlSeconds (jwtRefreshTtl cfg)) st = (Inr (), st')"
    "users (snd st') = users (snd st)" "clock (snd st') = clock (snd st)"
    "pending_registrations (snd st') = pending_registrations (snd st)" "auth_otps (snd st') = auth_otps (snd st)"
proof -
  obtain r s where st: "st = (r, s)" by (cases st)
  obtain r' s' where sv: "saveRefreshTokenJti (rnd_jti rnd) i (parseTtlSeconds (jwtRefreshTtl cfg)) (r, s) = (Inr (), (r', s'))"
    and fr: "users s' = users s" "clock s' = clock s" "pending_registrations s' = pending_registrations s"
      "auth_otps s' = auth_otps s"
    by (rule save_for_user [of i s "rnd_jti rnd" "parseTtlSeconds (jwtRefreshTtl cfg)" r]) (use assms st in auto)
  show thesis
    by (rule that [of "(r', s')"]) (simp_all add: generateTokens_def st sv fr Let_def issued_pair_def)
qed

lemma generateTokens_other:
  "i \<noteq> rnd_jti rnd \<Longrightarrow> live_tokens (snd (generateTokens c cfg rnd u email adm v st)) i = live_tokens st i"
proof -
  assume i: "i \<noteq> rnd_jti rnd"
  obtain y st' where sv: "saveRefreshTokenJti (rnd_jti rnd) u (parseTtlSeconds (jwtRefreshTtl cfg)) st = (y, st')"
    by (rule prod.exhaust)
  then have "live_tokens st' i = live_tokens st i"
    using tokens.save_other [OF i, of u "parseTtlSeconds (jwtRefreshTtl cfg)" st] by simp
  then show "live_tokens (snd (generateTokens c cfg rnd u email adm v st)) i = live_tokens st i"
    by (cases y) (simp_all add: generateTokens_def Let_def sv)
qed

section \<open>Logging in\<close>

text \<open>
  C19: Logging in succeeds exactly for the e-mail, up to case, of an active account that is not deleted,
  with a password its hash accepts; refusals are one and the same 401 and change nothing. Until it
  expires, and as long as the account is not deleted and its token version stays, the access token
  issued authenticates as exactly this account with its administrator flag at the time of the login.
\<close>

theorem login_session:
  assumes "users_inv (snd st)" and "jwt_ok c"
    and run: "login c cfg rnd email password st = (x, st')"
  shows "(is_ok x \<longleftrightarrow> (\<exists>u. live_by_email (snd st) email = Some u \<and> u_status u = User_active \<and>
            bcrypt_compare c password (u_password_hash u))) \<and>
    (\<not> is_ok x \<longrightarrow> x = Inl (Unauthorized ''Invalid credentials'') \<and> st' = st) \<and>
    (\<forall>au pair u s t. x = Inr (au, pair) \<longrightarrow> live_by_email (snd st) email = Some u \<longrightarrow>
       (\<exists>v. live_user s (u_id u) = Some v \<and> u_token_version v = u_token_version u) \<longrightarrow>
       clock s < clock (snd st) + seconds (jwt_life c (jwtAccessTtl cfg)) \<longrightarrow>
       (\<exists>ss. authenticate c cfg s (accessToken pair) = Inr ss \<and> sub ss = u_id u \<and> isAdmin ss = u_is_admin u))"
proof (cases "live_by_email (snd st) email")
  case None
  then show ?thesis using run by (auto simp: login_def)
next
  case (Some u)
  then have u: "u \<in> set (users (snd st))" by (simp add: live_by_email_Some)
  then have pos: "0 < u_id u" using assms(1) by (auto simp: users_inv_def list_all_iff)
  show ?thesis
  proof (cases "u_status u = User_active \<and> bcrypt_compare c password (u_password_hash u)")
    case False
    then show ?thesis using run Some by (auto simp: login_def split: if_split_asm)
  next
    case True
    let ?p = "base_payload (u_id u) (u_email u) (u_is_admin u) (u_token_version u)"
    let ?pair = "issued_pair c cfg rnd (clock (snd st)) ?p"
    obtain t where "generateTokens c cfg rnd (u_id u) (u_email u) (u_is_admin u) (u_token_version u) st = (Inr ?pair, t)"
      using generateTokens_ok [OF has_user [OF u]] by metis
    then have x: "x = Inr (mapToAppUser (user_js u), ?pair)" using run Some True by (simp add: login_def)
    have auth: "authenticate c cfg s (accessToken ?pair) = Inr \<lparr>sub = u_id u, isAdmin = u_is_admin u,
        ss_email = u_email v, ss_tokenVersion = u_token_version u\<rparr>"
      if "live_user s (u_id u) = Some v" "u_token_version v = u_token_version u"
        "clock s < clock (snd st) + seconds (jwt_life c (jwtAccessTtl cfg))" for s v
      using that assms(2) pos
      by (simp add: authenticate_def issued_pair_def jwt_ok_def validate_def base_payload_def toPositiveInt_show)
    show ?thesis using x Some True auth by auto
  qed
qed

section \<open>Registration\<close>

lemma check_users: "users (snd (snd (checkVerification c cfg e p code st))) = users (snd st) \<and>
    pending_registrations (snd (snd (checkVerification c cfg e p code st))) = pending_registrations (snd st) \<and>
    clock (snd (snd (checkVerification c cfg e p code st))) = clock (snd st) \<and>
    refresh_tokens (snd (snd (checkVerification c cfg e p code st))) = refresh_tokens (snd st) \<and>
    seqs (snd (snd (checkVerification c cfg e p code st))) = seqs (snd st)"
proof -
  obtain r s where st: "st = (r, s)" by (cases st)
  obtain a s' where up: "upsert_otp_attempts e p OTP_ATTEMPTS_TTL_SECONDS s = (a, s')" by (rule prod.exhaust)
  have "users s' = users s" "pending_registrations s' = pending_registrations s" "clock s' = clock s"
    "refresh_tokens s' = refresh_tokens s" "seqs s' = seqs s"
    using up by (auto simp: upsert_otp_attempts_def split: option.split_asm)
  then show ?thesis
    by (simp add: checkVerification_def resolveOtpVerificationProvider_def resend_checkVerification_def
        console_checkVerification_def incrementOtpAttempts_def clearOtpAttempts_def st up Let_def split: option.split)
qed

lemma promote_pending_ok:
  assumes "promote_pending c cfg rnd email st = (Inr y, st')"
  obtains p u where "p \<in> set (pending_registrations (snd st))" "lower (pg_email p) = lower email"
    "clock (snd st) < pg_expires_at p" "users (snd st') = users (snd st) @ [u]" "u_name u = pg_name p"
    "u_phone u = pg_phone p" "u_address u = pg_address p" "u_password_hash u = pg_password_hash p"
    "u_email u = Some (lower (pg_email p))" "u_status u = User_active" "\<not> u_is_admin u" "u_token_version u = 0"
    "u_deleted_at u = None"
proof -
  obtain r s where st: "st = (r, s)" by (cases st)
  obtain p where p: "find (\<lambda>p. lower (pg_email p) = lower email \<and> clock s < pg_expires_at p) (pending_registrations s) = Some p"
    using assms by (auto simp: promote_pending_def st split: option.split_asm)
  obtain z s1 where ins: "insert_user p s = (z, s1)" by (rule prod.exhaust)
  obtain u where z: "z = Inr u" using assms p ins by (cases z) (auto simp: promote_pending_def st)
  let ?s2 = "s1\<lparr>pending_registrations := delete_where (\<lambda>p. lower (pg_email p) = lower email) (pending_registrations s1)\<rparr>"
  have u: "users s1 = users s @ [u]" "u_name u = pg_name p" "u_phone u = pg_phone p" "u_address u = pg_address p"
    "u_password_hash u = pg_password_hash p" "u_email u = Some (lower (pg_email p))" "u_status u = User_active"
    "\<not> u_is_admin u" "u_token_version u = 0" "u_deleted_at u = None"
    using ins unfolding z by (auto simp: insert_user_def Let_def split: if_split_asm)
  have key: "has_key u_id (u_id u) (users (snd (r, ?s2)))" using u(1) by (simp add: has_key_iff)
  obtain t where gen: "generateTokens c cfg rnd (u_id u) (u_email u) False 0 (r, ?s2) =
      (Inr (issued_pair c cfg rnd (clock (snd (r, ?s2))) (base_payload (u_id u) (u_email u) False 0)), t)"
    and us: "users (snd t) = users (snd (r, ?s2))"
    by (rule generateTokens_ok [OF key, of c cfg rnd "u_email u" False 0]) auto
  have "st' = t" using assms p ins z gen by (simp add: promote_pending_def st)
  then show thesis
    using that [of p u] find_SomeD [OF p] u us by (simp add: st)
qed

text \<open>
  C18: An account is created only through a pending registration: \<open>verifyRegistrationOtp\<close> succeeds only
  with a code the provider accepts for exactly this e-mail text and an unexpired pending registration,
  and then adds one active, non-administrator account with the pending name, phone, address and
  password hash; otherwise no account changes.
\<close>

theorem verifyRegistration_sound:
  assumes "verifyRegistrationOtp c cfg rnd email otp st = (x, st')"
  shows "if is_ok x
    then otp_accepts c cfg st email Otp_registration otp \<and>
      (\<exists>p u. p \<in> set (pending_registrations (snd st)) \<and> lower (pg_email p) = lower email \<and>
         clock (snd st) < pg_expires_at p \<and> users (snd st') = users (snd st) @ [u] \<and>
         u_name u = pg_name p \<and> u_phone u = pg_phone p \<and> u_address u = pg_address p \<and>
         u_password_hash u = pg_password_hash p \<and> u_email u = Some (lower (pg_email p)) \<and>
         u_status u = User_active \<and> \<not> u_is_admin u)
    else users (snd st') = users (snd st)"
proof -
  obtain y st1 where ck: "checkVerification c cfg email Otp_registration otp st = (y, st1)" by (rule prod.exhaust)
  have frame: "users (snd st1) = users (snd st)" "pending_registrations (snd st1) = pending_registrations (snd st)"
    "clock (snd st1) = clock (snd st)"
    using check_users [of c cfg email Otp_registration otp st] ck by auto
  show ?thesis
  proof (cases y)
    case (Inl e)
    then have "x = Inl e" "st' = st1" using assms ck by (auto simp: verifyRegistrationOtp_def)
    then show ?thesis using frame by simp
  next
    case (Inr i)
    then have acc: "otp_accepts c cfg st email Otp_registration otp"
      using provider.check_iff [of c cfg email Otp_registration otp st] ck by simp
    have run: "auth_transaction (promote_pending c cfg rnd email) st1 = (x, st')"
      using assms ck Inr by (simp add: verifyRegistrationOtp_def)
    obtain z st2 where pr: "promote_pending c cfg rnd email st1 = (z, st2)" by (rule prod.exhaust)
    show ?thesis
    proof (cases z)
      case (Inl e)
      then have "\<not> is_ok x" "users (snd st') = users (snd st1)"
        using run pr by (auto simp: auth_transaction_def split: prod.split_asm)
      then show ?thesis using frame by simp
    next
      case (Inr w)
      then have x: "x = Inr w" "st' = st2" using run pr by (auto simp: auth_transaction_def)
      from pr Inr have "promote_pending c cfg rnd email st1 = (Inr w, st2)" by simp
      then show ?thesis
        by (rule promote_pending_ok) (use x acc frame in auto)
    qed
  qed
qed

section \<open>From the request to the first login\<close>

definition pending_lower :: "db \<Rightarrow> bool" where
  "pending_lower s \<longleftrightarrow> list_all (\<lambda>p. lower (pg_email p) = pg_email p) (pending_registrations s)"

lemma start_frame:
  "startVerification c cfg mail rnd u e p st = (Inr x, st') \<Longrightarrow>
     users (snd st') = users (snd st) \<and> pending_registrations (snd st') = pending_registrations (snd st) \<and>
     clock (snd st') = clock (snd st)"
proof -
  assume run: "startVerification c cfg mail rnd u e p st = (Inr x, st')"
  have "console_startVerification c cfg rnd u e p st = (Inr x, st')"
  proof (cases "otpProvider cfg = Provider_resend")
    case True
    then show ?thesis using run resend_started [of c cfg mail rnd u e p st x st']
      by (simp add: startVerification_def resolveOtpVerificationProvider_def)
  next
    case False
    then show ?thesis using run by (simp add: startVerification_def resolveOtpVerificationProvider_def)
  qed
  then show ?thesis
    by (cases st) (auto simp: console_startVerification_def Let_def split: if_split_asm)
qed

text \<open>The pending row a successful request leaves for its e-mail.\<close>

lemma upsert_pending_rows:
  assumes "upsert_pending dto h expires s = (Inr x, s')" and low: "pending_lower s"
  shows "users s' = users s" "clock s' = clock s" "auth_otps s' = auth_otps s" "seqs s' T_users = seqs s T_users"
    and "\<exists>p \<in> set (pending_registrations s'). pg_email p = lower (rg_email dto)"
    and "\<And>p. p \<in> set (pending_registrations s') \<Longrightarrow> lower (pg_email p) = lower (rg_email dto) \<Longrightarrow>
      pg_email p = lower (rg_email dto) \<and> pg_phone p = Some (rg_phone dto) \<and> pg_name p = rg_name dto \<and> pg_address p = rg_address dto \<and>
      pg_password_hash p = h \<and> pg_expires_at p = expires"
proof -
  let ?mine = "\<lambda>p. pg_email p = lower (rg_email dto)"
  let ?f = "pending_update dto h expires (clock s)"
  have f: "pg_email (?f p) = pg_email p" "pg_phone (?f p) = Some (rg_phone dto)" "pg_name (?f p) = rg_name dto"
    "pg_address (?f p) = rg_address dto" "pg_password_hash (?f p) = h" "pg_expires_at (?f p) = expires" for p
    by (simp_all add: pending_update_def)
  show "users s' = users s" "clock s' = clock s" "auth_otps s' = auth_otps s" "seqs s' T_users = seqs s T_users"
    using assms by (auto simp: upsert_pending_def Let_def split: if_split_asm)
  have lowp: "lower (pg_email p) = pg_email p" if "p \<in> set (pending_registrations s)" for p
    using low that by (simp add: pending_lower_def list_all_iff)
  consider (upd) "list_ex ?mine (pending_registrations s)"
      "pending_registrations s' = update_where ?mine ?f (pending_registrations s)"
    | (new) r where "\<not> list_ex ?mine (pending_registrations s)"
      "pending_registrations s' = pending_registrations s @ [r]" "pg_email r = lower (rg_email dto)"
      "pg_phone r = Some (rg_phone dto)" "pg_name r = rg_name dto" "pg_address r = rg_address dto"
      "pg_password_hash r = h" "pg_expires_at r = expires"
    using assms(1) by (auto simp: upsert_pending_def Let_def split: if_split_asm)
  note cases = this
  show "\<exists>p \<in> set (pending_registrations s'). pg_email p = lower (rg_email dto)"
  proof (cases rule: cases)
    case upd
    then obtain q where "q \<in> set (pending_registrations s)" "?mine q" by (auto simp: list_ex_iff)
    then have "?f q \<in> set (pending_registrations s')" "?mine (?f q)" using upd(2) f
      by (auto simp: set_update_where)
    then show ?thesis by blast
  next
    case (new r)
    then show ?thesis by simp
  qed
  show "pg_email p = lower (rg_email dto) \<and> pg_phone p = Some (rg_phone dto) \<and> pg_name p = rg_name dto \<and> pg_address p = rg_address dto \<and>
      pg_password_hash p = h \<and> pg_expires_at p = expires"
    if p: "p \<in> set (pending_registrations s')" "lower (pg_email p) = lower (rg_email dto)" for p
  proof (cases rule: cases)
    case upd
    then obtain q where q: "q \<in> set (pending_registrations s)" "p = (if ?mine q then ?f q else q)"
      using p(1) by (auto simp: set_update_where)
    have "pg_email p = pg_email q" using q(2) by (simp add: f)
    then have "?mine q" using p(2) lowp [OF q(1)] by simp
    then show ?thesis using q(2) f by simp
  next
    case (new r)
    then have "p = r" using p lowp by (auto simp: list_ex_iff)
    then show ?thesis using new by simp
  qed
qed

lemma find_all: "x \<in> set xs \<Longrightarrow> P x \<Longrightarrow> (\<And>y. y \<in> set xs \<Longrightarrow> P y \<Longrightarrow> Q y) \<Longrightarrow> \<exists>y. find P xs = Some y \<and> Q y"
  by (induction xs) auto

lemma later_sel [simp]:
  "fst (later t st) = fst st" "clock (snd (later t st)) = t" "users (snd (later t st)) = users (snd st)"
  "pending_registrations (snd (later t st)) = pending_registrations (snd st)"
  "auth_otps (snd (later t st)) = auth_otps (snd st)"
  by (simp_all add: later_def)

text \<open>A code issued now is accepted until it expires.\<close>

lemma issued_accepted_later:
  assumes "otps_past cfg st" and "startVerification c cfg mail rnd u e p st = (Inr x, st')"
    and "clock (snd st) \<le> t" and "t < clock (snd st) + minutes (otpTtlMinutes cfg)"
  shows "otp_accepts c cfg (later t st') e p (issued_otp cfg rnd)"
proof -
  have con: "console_startVerification c cfg rnd u e p st = (Inr x, st')"
    using assms(2) resend_started [of c cfg mail rnd u e p st x st']
    by (cases "otpProvider cfg = Provider_resend")
      (simp_all add: startVerification_def resolveOtpVerificationProvider_def)
  then have "otp_accepts c cfg st' e p (issued_otp cfg rnd)" by (rule console_started [OF assms(1)])
  then obtain row where row: "latest_otp (snd st') e p = Some row" "ao_used_at row = None"
      "hashOtp c cfg (issued_otp cfg rnd) (ao_salt row) = ao_code_hash row"
    by (auto simp: otp_accepts_def split: option.split_asm)
  have "ao_expires_at row = clock (snd st) + minutes (otpTtlMinutes cfg)"
  proof -
    obtain r s where st: "st = (r, s)" by (cases st)
    obtain new where new: "auth_otps (snd st') = auth_otps s @ [new]" "ao_created_at new = clock s"
        "ao_expires_at new = clock s + minutes (otpTtlMinutes cfg)" "ao_email new = e" "ao_purpose new = p"
      using con by (auto simp: console_startVerification_def st Let_def split: if_split_asm)
    let ?rows = "filter (\<lambda>r. ao_email r = e \<and> ao_purpose r = p) (auth_otps s)"
    have "sort_key (\<lambda>r. - ao_created_at r) (?rows @ [new]) = new # sort_key (\<lambda>r. - ao_created_at r) ?rows"
      using assms(1) new(2) by (intro sort_key_snoc_min) (auto simp: otps_past_def st list_all_iff)
    then have "latest_otp (snd st') e p = Some new" by (simp add: latest_otp_def new)
    then show ?thesis using row(1) new(3) st by simp
  qed
  then have "\<not> otp_expired t row" using assms(4) zdiv_mono1 [of t "ao_expires_at row" 1000] by (simp add: otp_expired_def)
  moreover have "latest_otp (snd (later t st')) e p = Some row" using row(1) by (simp add: latest_otp_def)
  ultimately show ?thesis using row by (simp add: otp_accepts_def)
qed

lemma same_email_lower_arg [simp]: "same_email (lower email) = same_email email"
  by (simp add: same_email_def fun_eq_iff split: option.split)

lemma same_email_lower: "same_email email (Some (lower email')) \<longleftrightarrow> lower email = lower email'"
  by (auto simp: same_email_def)

text \<open>
  C17: Registering works end to end: after a successful request, at any time before the code expires, the
  code issued verifies, creates exactly one account with the requested name and the e-mail in lower case,
  and the account can then log in with the requested password.
\<close>

theorem registration_roundtrip:
  assumes inv: "pending_lower (snd st)" and past: "otps_past cfg st" and crypt: "bcrypt_ok c"
    and run: "requestRegistrationOtp c cfg mail rnd dto st = (Inr answer, st1)"
    and t: "clock (snd st) \<le> t" "t < clock (snd st) + minutes (otpTtlMinutes cfg)"
  shows "\<exists>au pair st2 u.
     verifyRegistrationOtp c cfg rnd' (rg_email dto) (issued_otp cfg rnd) (later t st1) = (Inr (au, pair), st2) \<and>
     users (snd st2) = users (snd st) @ [u] \<and> u_name u = rg_name dto \<and> u_email u = Some (lower (rg_email dto)) \<and>
     u_phone u = Some (rg_phone dto) \<and> is_ok (fst (login c cfg rnd'' (rg_email dto) (rg_password dto) st2))"
proof -
  obtain r s where st: "st = (r, s)" by (cases st)
  let ?h = "bcrypt_hash c (rnd_bcrypt_salt rnd) (rg_password dto)"
  let ?exp = "clock s + minutes (otpTtlMinutes cfg)"
  have free: "\<not> list_ex (\<lambda>u. same_email (rg_email dto) (u_email u) \<or> u_phone u = Some (rg_phone dto)) (users s)"
    using run by (auto simp: requestRegistrationOtp_def st split: if_split_asm)
  obtain y s1 where up: "upsert_pending dto ?h ?exp s = (y, s1)" by (rule prod.exhaust)
  then have y: "y = Inr ()" using run by (cases y) (auto simp: requestRegistrationOtp_def st split: if_split_asm)
  obtain x where start: "startVerification c cfg mail rnd None (rg_email dto) Otp_registration (r, s1) = (Inr x, st1)"
    using run up y free by (auto simp: requestRegistrationOtp_def st split: if_split_asm prod.split_asm sum.split_asm)
  have pl: "pending_lower s" using inv by (simp add: st)
  note rows = upsert_pending_rows [OF up [unfolded y] pl]
  have s1: "users (snd st1) = users s" "pending_registrations (snd st1) = pending_registrations s1"
    "clock (snd st1) = clock s"
    using start_frame [OF start] rows by auto
  have past1: "otps_past cfg (r, s1)" using past rows by (simp add: otps_past_def st)
  let ?st = "later t st1"
  have acc: "otp_accepts c cfg ?st (rg_email dto) Otp_registration (issued_otp cfg rnd)"
    using issued_accepted_later [OF past1 start] t rows by (simp add: st)
  obtain i st2 where ck: "checkVerification c cfg (rg_email dto) Otp_registration (issued_otp cfg rnd) ?st = (Inr i, st2)"
    using acc provider.check_iff [of c cfg "rg_email dto" Otp_registration "issued_otp cfg rnd" ?st]
    by (metis is_okE prod.collapse)
  have s2: "users (snd st2) = users s" "pending_registrations (snd st2) = pending_registrations s1" "clock (snd st2) = t"
    using check_users [of c cfg "rg_email dto" Otp_registration "issued_otp cfg rnd" ?st] ck s1 by auto
  obtain r2 d2 where st2: "st2 = (r2, d2)" by (cases st2)
  let ?P = "\<lambda>p. lower (pg_email p) = lower (rg_email dto) \<and> t < pg_expires_at p"
  obtain p0 where p0: "p0 \<in> set (pending_registrations s1)" "pg_email p0 = lower (rg_email dto)" using rows(5) by auto
  then have "t < pg_expires_at p0" using rows(6) [OF p0(1)] t by (simp add: st)
  then obtain p where p: "find ?P (pending_registrations s1) = Some p" "pg_email p = lower (rg_email dto)"
      "pg_phone p = Some (rg_phone dto)" "pg_name p = rg_name dto" "pg_password_hash p = ?h"
    using find_all [of p0 "pending_registrations s1" ?P "\<lambda>p. pg_email p = lower (rg_email dto) \<and>
        pg_phone p = Some (rg_phone dto) \<and> pg_name p = rg_name dto \<and> pg_password_hash p = ?h"] p0 rows(6) by auto
  obtain u d3 where ins: "insert_user p d2 = (Inr u, d3)" and u: "users d3 = users s @ [u]" "u_name u = rg_name dto"
      "u_email u = Some (lower (rg_email dto))" "u_phone u = Some (rg_phone dto)" "u_password_hash u = ?h"
      "u_status u = User_active" "u_deleted_at u = None"
  proof -
    have "\<not> list_ex (\<lambda>v. u_phone v \<noteq> None \<and> u_phone v = pg_phone p) (users d2)"
      "\<not> list_ex (\<lambda>v. u_deleted_at v = None \<and> same_email (pg_email p) (u_email v)) (users d2)"
      using free s2(1) p by (auto simp: st2 list_ex_iff)
    then have "\<exists>u d3. insert_user p d2 = (Inr u, d3) \<and> users d3 = users s @ [u] \<and> u_name u = rg_name dto \<and>
        u_email u = Some (lower (rg_email dto)) \<and> u_phone u = Some (rg_phone dto) \<and> u_password_hash u = ?h \<and>
        u_status u = User_active \<and> u_deleted_at u = None"
      using p s2(1) by (simp add: insert_user_def Let_def st2)
    with that show thesis by blast
  qed
  let ?d4 = "d3\<lparr>pending_registrations := delete_where (\<lambda>p. lower (pg_email p) = lower (rg_email dto)) (pending_registrations d3)\<rparr>"
  have key: "has_key u_id (u_id u) (users (snd (r2, ?d4)))" using u(1) by (simp add: has_key_iff)
  obtain st5 where gen: "generateTokens c cfg rnd' (u_id u) (u_email u) False 0 (r2, ?d4) =
      (Inr (issued_pair c cfg rnd' (clock (snd (r2, ?d4))) (base_payload (u_id u) (u_email u) False 0)), st5)"
    and us: "users (snd st5) = users (snd (r2, ?d4))"
    by (rule generateTokens_ok [OF key, of c cfg rnd' "u_email u" False 0]) auto
  have verify: "verifyRegistrationOtp c cfg rnd' (rg_email dto) (issued_otp cfg rnd) ?st =
      (Inr (mapToAppUser (user_js u), issued_pair c cfg rnd' (clock (snd (r2, ?d4))) (base_payload (u_id u) (u_email u) False 0)), st5)"
    using ck p(1) s2 gen ins by (simp add: verifyRegistrationOtp_def auth_transaction_def promote_pending_def st2)
  have users5: "users (snd st5) = users s @ [u]" using us u(1) by simp
  have "find (\<lambda>u. same_email (rg_email dto) (u_email u) \<and> u_deleted_at u = None) (users s) = None"
    using free by (auto simp: find_None_iff list_ex_iff)
  then have found: "live_by_email (snd st5) (rg_email dto) = Some u"
    using u by (simp add: live_by_email_def users5 find_append same_email_lower)
  have key5: "has_key u_id (u_id u) (users (snd st5))" using users5 by (simp add: has_key_iff)
  obtain st6 where "generateTokens c cfg rnd'' (u_id u) (u_email u) (u_is_admin u) (u_token_version u) st5 =
      (Inr (issued_pair c cfg rnd'' (clock (snd st5)) (base_payload (u_id u) (u_email u) (u_is_admin u) (u_token_version u))), st6)"
    by (rule generateTokens_ok [OF key5, of c cfg rnd'' "u_email u" "u_is_admin u" "u_token_version u"]) auto
  then have "is_ok (fst (login c cfg rnd'' (rg_email dto) (rg_password dto) st5))"
    using found u crypt by (simp add: login_def bcrypt_ok_def)
  then show ?thesis using verify users5 u st by auto
qed

section \<open>Sessions over time\<close>

text \<open>
  The steps of a deployment as far as refresh tokens are concerned: every request of this service whose
  newly drawn token identifier differs from \<open>j\<close>, time passing, and anything that leaves the tokens alone.
\<close>

inductive session_step :: "'tok crypto \<Rightarrow> app_config \<Rightarrow> string \<Rightarrow> auth_state \<Rightarrow> auth_state \<Rightarrow> bool"
  for c :: "'tok crypto" and cfg j where
  step_register: "session_step c cfg j st (snd (requestRegistrationOtp c cfg mail rnd dto st))"
| step_resend: "session_step c cfg j st (snd (resendRegistrationOtp c cfg mail rnd email st))"
| step_verify: "rnd_jti rnd \<noteq> j \<Longrightarrow> session_step c cfg j st (snd (verifyRegistrationOtp c cfg rnd email otp st))"
| step_login: "rnd_jti rnd \<noteq> j \<Longrightarrow> session_step c cfg j st (snd (login c cfg rnd email password st))"
| step_reset_request: "session_step c cfg j st (snd (requestPasswordResetOtp c cfg mail rnd email st))"
| step_reset: "rnd_jti rnd \<noteq> j \<Longrightarrow>
    session_step c cfg j st (snd (resetPassword c cfg rnd email otp newPassword confirmPassword st))"
| step_refresh: "rnd_jti rnd \<noteq> j \<Longrightarrow> session_step c cfg j st (snd (refresh c cfg rnd tok st))"
| step_logout: "session_step c cfg j st (logout c cfg tok st)"
| elsewhere: "refresh_tokens (snd st') = refresh_tokens (snd st) \<Longrightarrow> clock (snd st) \<le> clock (snd st') \<Longrightarrow>
    session_step c cfg j st st'"

lemma snd_map_result:
  "snd (case y of (Inl e, t) \<Rightarrow> (Inl (f e), t) | (Inr a, t) \<Rightarrow> (Inr (g a), t)) = snd y"
  by (simp split: prod.split sum.split)

lemma live_tokens_frame:
  "refresh_tokens (snd st') = refresh_tokens (snd st) \<Longrightarrow> clock (snd st') = clock (snd st) \<Longrightarrow>
     live_tokens st' = live_tokens st"
  by (simp add: live_tokens_def fun_eq_iff)

lemma console_start_tokens:
  "refresh_tokens (snd (snd (console_startVerification c cfg rnd u e p st))) = refresh_tokens (snd st) \<and>
   clock (snd (snd (console_startVerification c cfg rnd u e p st))) = clock (snd st)"
  by (cases st) (simp add: console_startVerification_def Let_def)

lemma start_tokens:
  "refresh_tokens (snd (snd (startVerification c cfg mail rnd u e p st))) = refresh_tokens (snd st) \<and>
   clock (snd (snd (startVerification c cfg mail rnd u e p st))) = clock (snd st)"
proof -
  obtain y st' where con: "console_startVerification c cfg rnd u e p st = (y, st')" by (rule prod.exhaust)
  then have "snd (startVerification c cfg mail rnd u e p st) = st'"
    by (auto simp: startVerification_def resolveOtpVerificationProvider_def resend_startVerification_def
        split: sum.split option.split mail_reply.split)
  then show ?thesis using console_start_tokens [of c cfg rnd u e p st] con by simp
qed

lemma transaction_tokens:
  assumes "\<And>w st'. m st = (Inr w, st') \<Longrightarrow> live_tokens st' j = None" and "live_tokens st j = None"
  shows "live_tokens (snd (auth_transaction m st)) j = None"
proof -
  obtain y r' s' where m: "m st = (y, (r', s'))" by (metis prod.exhaust)
  show ?thesis
  proof (cases y)
    case (Inl e)
    then have "snd (auth_transaction m st) = (r', (snd st)\<lparr>seqs := seqs s'\<rparr>)" using m by (simp add: auth_transaction_def)
    then show ?thesis using assms(2) by (simp add: live_tokens_def)
  next
    case (Inr w)
    then show ?thesis using m assms(1) by (simp add: auth_transaction_def)
  qed
qed

lemma upsert_pending_tokens:
  "refresh_tokens (snd (upsert_pending dto h expires s)) = refresh_tokens s \<and>
   clock (snd (upsert_pending dto h expires s)) = clock s"
  by (simp add: upsert_pending_def Let_def)

lemma requestRegistration_tokens:
  "live_tokens (snd (requestRegistrationOtp c cfg mail rnd dto st)) = live_tokens st"
proof -
  obtain r s where st: "st = (r, s)" by (cases st)
  let ?h = "bcrypt_hash c (rnd_bcrypt_salt rnd) (rg_password dto)"
  let ?exp = "clock s + minutes (otpTtlMinutes cfg)"
  obtain y s1 where up: "upsert_pending dto ?h ?exp s = (y, s1)" by (rule prod.exhaust)
  obtain z st2 where start: "startVerification c cfg mail rnd None (rg_email dto) Otp_registration (r, s1) = (z, st2)"
    by (rule prod.exhaust)
  have "refresh_tokens s1 = refresh_tokens s" "clock s1 = clock s" using upsert_pending_tokens [of dto ?h ?exp s] up by auto
  then have fr: "live_tokens (r, s1) = live_tokens st" "live_tokens st2 = live_tokens st"
    using start_tokens [of c cfg mail rnd None "rg_email dto" Otp_registration "(r, s1)"] start
    by (auto intro!: live_tokens_frame simp: st)
  have "snd (requestRegistrationOtp c cfg mail rnd dto st) \<in> {st, (r, s1), st2}"
    using up start by (auto simp: requestRegistrationOtp_def st split: sum.split option.split)
  then show ?thesis using fr by auto
qed

lemma start_live: "live_tokens (snd (startVerification c cfg mail rnd u e p st)) = live_tokens st"
  using start_tokens [of c cfg mail rnd u e p st] by (intro live_tokens_frame) auto

lemma check_live: "live_tokens (snd (checkVerification c cfg e p code st)) = live_tokens st"
  using check_users [of c cfg e p code st] by (intro live_tokens_frame) auto

lemma generateTokens_dead:
  "rnd_jti rnd \<noteq> j \<Longrightarrow> live_tokens st j = None \<Longrightarrow>
     live_tokens (snd (generateTokens c cfg rnd u email adm v st)) j = None"
  using generateTokens_other [of j rnd c cfg u email adm v st] by simp

lemma promote_dead:
  assumes "rnd_jti rnd \<noteq> j" and "live_tokens st j = None" and "promote_pending c cfg rnd email st = (Inr w, st')"
  shows "live_tokens st' j = None"
proof -
  obtain r s where st: "st = (r, s)" by (cases st)
  obtain p where p: "find (\<lambda>p. lower (pg_email p) = lower email \<and> clock s < pg_expires_at p) (pending_registrations s) = Some p"
    using assms(3) by (auto simp: promote_pending_def st split: option.split_asm)
  obtain z s1 where ins: "insert_user p s = (z, s1)" by (rule prod.exhaust)
  obtain u where z: "z = Inr u" using assms(3) p ins by (cases z) (auto simp: promote_pending_def st)
  let ?s2 = "s1\<lparr>pending_registrations := delete_where (\<lambda>p. lower (pg_email p) = lower email) (pending_registrations s1)\<rparr>"
  have "refresh_tokens s1 = refresh_tokens s" "clock s1 = clock s"
    using ins by (auto simp: insert_user_def Let_def split: if_split_asm)
  then have "live_tokens (r, ?s2) j = None" using assms(2) by (simp add: live_tokens_def st)
  from generateTokens_dead [OF assms(1) this, of c cfg "u_id u" "u_email u" False 0]
  show ?thesis using assms(3) p ins z
    by (auto simp: promote_pending_def st split: prod.split_asm sum.split_asm)
qed

lemma reset_dead:
  assumes "rnd_jti rnd \<noteq> j" and "live_tokens st j = None" and "reset_account c cfg rnd email newPassword st = (Inr w, st')"
  shows "live_tokens st' j = None"
proof -
  obtain r s where st: "st = (r, s)" by (cases st)
  obtain u where u: "live_by_email s email = Some u" "u_status u = User_active"
    using assms(3) by (auto simp: reset_account_def st split: option.split_asm if_split_asm)
  let ?s1 = "s\<lparr>users := update_where (\<lambda>v. u_id v = u_id u)
      (set_password (bcrypt_hash c (rnd_bcrypt_salt rnd) newPassword) (clock s)) (users s)\<rparr>"
  have "live_tokens (r, ?s1) j = None" using assms(2) by (simp add: live_tokens_def st)
  from generateTokens_dead [OF assms(1) this, of c cfg "u_id u" "u_email u" "u_is_admin u" "u_token_version u"]
  show ?thesis using assms(3) u by (simp add: reset_account_def st Let_def)
qed

lemma consume_dead: "live_tokens st j = None \<Longrightarrow> consumeRefreshTokenJti i st = (x, st') \<Longrightarrow> live_tokens st' j = None"
  using tokens.consumed [of i st x st'] by simp

lemma refresh_dead:
  assumes "rnd_jti rnd \<noteq> j" and "live_tokens st j = None"
  shows "live_tokens (snd (refresh c cfg rnd tok st)) j = None"
proof (cases "jwt_verify c (jwtRefreshSecret cfg) (clock (snd st)) tok")
  case None
  then show ?thesis using assms by (simp add: refresh_def)
next
  case (Some payload)
  obtain x st' where con: "consumeRefreshTokenJti (the (jp_jti payload)) st = (x, st')" by (rule prod.exhaust)
  then have dead: "live_tokens st' j = None" by (rule consume_dead [OF assms(2)])
  then show ?thesis using generateTokens_dead [OF assms(1) dead, of c cfg] assms(2) Some con
    by (simp add: refresh_def split: option.split)
qed

lemma live_later:
  assumes "live_tokens st j = None" "refresh_tokens (snd st') = refresh_tokens (snd st)" "clock (snd st) \<le> clock (snd st')"
  shows "live_tokens st' j = None"
  using assms by (fastforce simp: live_tokens_def find_None_iff live_token_def)

text \<open>A token that is no longer live never comes back.\<close>

lemma session_step_dead:
  assumes "session_step c cfg j st st'" and dead: "live_tokens st j = None"
  shows "live_tokens st' j = None"
  using assms(1)
proof (cases rule: session_step.cases)
  case (step_register mail rnd dto)
  then show ?thesis using dead requestRegistration_tokens by metis
next
  case (step_resend mail rnd email)
  then show ?thesis using dead start_live [of c cfg mail rnd None email Otp_registration st]
    by (simp add: resendRegistrationOtp_def snd_map_result)
next
  case (step_verify rnd email otp)
  obtain y st1 where ck: "checkVerification c cfg email Otp_registration otp st = (y, st1)" by (rule prod.exhaust)
  then have d: "live_tokens st1 j = None" using check_live [of c cfg email Otp_registration otp st] dead by simp
  have "live_tokens (snd (auth_transaction (promote_pending c cfg rnd email) st1)) j = None"
    by (rule transaction_tokens) (use promote_dead [OF step_verify(2) d] d in auto)
  then show ?thesis using step_verify ck d by (simp add: verifyRegistrationOtp_def split: sum.split)
next
  case (step_login rnd email password)
  have "live_tokens (snd (generateTokens c cfg rnd u e adm v st)) j = None" for u e adm v
    by (rule generateTokens_dead [OF step_login(2) dead])
  then show ?thesis using step_login dead
    by (simp add: login_def snd_map_result split: option.split)
next
  case (step_reset_request mail rnd email)
  have "live_tokens (snd (startVerification c cfg mail rnd u email Otp_password_reset st)) = live_tokens st" for u
    by (rule start_live)
  then show ?thesis using step_reset_request dead
    by (simp add: requestPasswordResetOtp_def snd_map_result split: option.split)
next
  case (step_reset rnd email otp newPassword confirmPassword)
  obtain y st1 where ck: "checkVerification c cfg email Otp_password_reset otp st = (y, st1)" by (rule prod.exhaust)
  then have d: "live_tokens st1 j = None" using check_live [of c cfg email Otp_password_reset otp st] dead by simp
  have "live_tokens (snd (auth_transaction (reset_account c cfg rnd email newPassword) st1)) j = None"
    by (rule transaction_tokens) (use reset_dead [OF step_reset(2) d] d in auto)
  then show ?thesis using step_reset(1) ck d dead
    by (cases "newPassword = confirmPassword") (auto simp: resetPassword_def split: sum.split)
next
  case (step_refresh rnd tok)
  then show ?thesis using refresh_dead [OF step_refresh(2) dead] by simp
next
  case (step_logout tok)
  then show ?thesis using dead tokens.dead_after [of st j]
    by (simp add: logout_def split: option.split)
next
  case elsewhere
  then show ?thesis using live_later [OF dead] by simp
qed

lemma session_steps_dead:
  "(session_step c cfg j)\<^sup>*\<^sup>* st st' \<Longrightarrow> live_tokens st j = None \<Longrightarrow> live_tokens st' j = None"
  by (induction rule: rtranclp_induct) (auto dest: session_step_dead)

lemma refresh_dead_fails:
  assumes "jwt_ok c" and "jp_jti p = Some j" and "live_tokens st j = None"
  shows "fst (refresh c cfg rnd (jwt_sign c (jwtRefreshSecret cfg) ttl issued p) st) = Inl invalid_refresh"
proof -
  obtain x st' where con: "consumeRefreshTokenJti j st = (x, st')" by (rule prod.exhaust)
  then have "x = None" using tokens.consumed assms(3) by simp
  then show ?thesis using assms con by (simp add: refresh_def jwt_ok_def)
qed

lemma refresh_live:
  assumes "jwt_ok c" and p: "jp_jti p = Some j" "j \<noteq> []" and live: "live_tokens st j = Some uid"
    and sub: "jp_sub p = Str (show_int uid)" and user: "live_user (snd st) uid = Some u" "u_status u = User_active"
      "jp_tokenVersion p = Some (u_token_version u)"
    and time: "clock (snd st) < issued + seconds (jwt_life c ttl)"
  shows "is_ok (fst (refresh c cfg rnd (jwt_sign c (jwtRefreshSecret cfg) ttl issued p) st))"
proof -
  obtain x st1 where con: "consumeRefreshTokenJti j st = (x, st1)" by (rule prod.exhaust)
  then have x: "x = Some uid" using tokens.consumed live by simp
  have users: "users (snd st1) = users (snd st)" using con by (cases st) (auto simp: consumeRefreshTokenJti_def)
  then have live1: "live_user (snd st1) uid = Some u" using user(1) by (simp add: live_user_def)
  then have "u_id u = uid" "u \<in> set (users (snd st1))" by (auto simp: live_user_def dest: find_SomeD)
  then have key: "has_key u_id (u_id u) (users (snd st1))" by (auto simp: has_key_iff)
  obtain st2 where "generateTokens c cfg rnd (u_id u) (u_email u) (u_is_admin u) (u_token_version u) st1 =
      (Inr (issued_pair c cfg rnd (clock (snd st1)) (base_payload (u_id u) (u_email u) (u_is_admin u) (u_token_version u))), st2)"
    by (rule generateTokens_ok [OF key, of c cfg rnd "u_email u" "u_is_admin u" "u_token_version u"]) auto
  then show ?thesis using assms(1) p sub user time con x live1
    by (simp add: refresh_def jwt_ok_def falsy_def)
qed

text \<open>
  C20: A refresh token works once, and not at all after logging out with it: whatever requests are served
  and however much time passes afterwards, it is refused as long as no other token draws the same
  identifier. The pair a successful refresh answers with can itself be refreshed at once.
\<close>

theorem refresh_rotation:
  fixes c :: "'tok crypto"
  assumes jwt: "jwt_ok c" and inv: "users_inv (snd st)"
    and tok: "tok = jwt_sign c (jwtRefreshSecret cfg) ttl issued p" "jp_jti p = Some j" "j \<noteq> []"
  shows "(\<forall>rnd pair st1 st2 rnd'. refresh c cfg rnd tok st = (Inr pair, st1) \<longrightarrow> rnd_jti rnd \<noteq> j \<longrightarrow>
            (session_step c cfg j)\<^sup>*\<^sup>* st1 st2 \<longrightarrow> fst (refresh c cfg rnd' tok st2) = Inl invalid_refresh) \<and>
    (\<forall>st2 rnd'. clock (snd st) < issued + seconds (jwt_life c ttl) \<longrightarrow>
            (session_step c cfg j)\<^sup>*\<^sup>* (logout c cfg tok st) st2 \<longrightarrow>
            fst (refresh c cfg rnd' tok st2) = Inl invalid_refresh) \<and>
    (\<forall>rnd pair st1 rnd'. refresh c cfg rnd tok st = (Inr pair, st1) \<longrightarrow> rnd_jti rnd \<noteq> [] \<longrightarrow>
            0 < parseTtlSeconds (jwtRefreshTtl cfg) \<longrightarrow> 0 < jwt_life c (jwtRefreshTtl cfg) \<longrightarrow>
            is_ok (fst (refresh c cfg rnd' (refreshToken pair) st1)))"
proof (intro conjI allI impI)
  fix rnd pair st1 st2 rnd'
  assume run: "refresh c cfg rnd tok st = (Inr pair, st1)"
  obtain x st' where con: "consumeRefreshTokenJti j st = (x, st')" by (rule prod.exhaust)
  have ver: "jwt_verify c (jwtRefreshSecret cfg) (clock (snd st)) tok = Some p"
    using run jwt tok by (auto simp: refresh_def jwt_ok_def split: if_split_asm)
  obtain uid u where u: "x = Some uid" "live_user (snd st') uid = Some u" "u_status u = User_active"
      "Str (show_int uid) = jp_sub p"
    and gen: "generateTokens c cfg rnd (u_id u) (u_email u) (u_is_admin u) (u_token_version u) st' = (Inr pair, st1)"
    using run con ver tok by (auto simp: refresh_def split: option.split_asm if_split_asm)
  have dead: "live_tokens st' j = None" using tokens.consumed [OF con] by simp
  show "fst (refresh c cfg rnd' tok st2) = Inl invalid_refresh"
    if "rnd_jti rnd \<noteq> j" "(session_step c cfg j)\<^sup>*\<^sup>* st1 st2"
  proof -
    have "live_tokens st1 j = None"
      using generateTokens_dead [OF that(1) dead, of c cfg "u_id u" "u_email u" "u_is_admin u" "u_token_version u"] gen
      by simp
    then have "live_tokens st2 j = None" by (rule session_steps_dead [OF that(2)])
    then show ?thesis unfolding tok(1) by (rule refresh_dead_fails [OF jwt tok(2)])
  qed
  show "is_ok (fst (refresh c cfg rnd' (refreshToken pair) st1))"
    if jti: "rnd_jti rnd \<noteq> []" and ttl: "0 < parseTtlSeconds (jwtRefreshTtl cfg)" "0 < jwt_life c (jwtRefreshTtl cfg)"
  proof -
    have users: "users (snd st') = users (snd st)" using con by (cases st) (auto simp: consumeRefreshTokenJti_def)
    have uu: "u_id u = uid" "u \<in> set (users (snd st'))"
      using u(2) by (auto simp: live_user_def dest: find_SomeD)
    then have key: "has_key u_id (u_id u) (users (snd st'))" by (auto simp: has_key_iff)
    let ?b = "base_payload (u_id u) (u_email u) (u_is_admin u) (u_token_version u)"
    obtain t where g: "generateTokens c cfg rnd (u_id u) (u_email u) (u_is_admin u) (u_token_version u) st' =
        (Inr (issued_pair c cfg rnd (clock (snd st')) ?b), t)"
      and sv: "saveRefreshTokenJti (rnd_jti rnd) (u_id u) (parseTtlSeconds (jwtRefreshTtl cfg)) st' = (Inr (), t)"
      and tu: "users (snd t) = users (snd st')" "clock (snd t) = clock (snd st')"
      by (rule generateTokens_ok [OF key, of c cfg rnd "u_email u" "u_is_admin u" "u_token_version u"]) auto
    have t: "t = st1" "pair = issued_pair c cfg rnd (clock (snd st')) ?b" using g gen by auto
    have live: "live_tokens st1 (rnd_jti rnd) = Some uid"
      using tokens.save_ok [OF ttl(1) sv] t(1) uu(1) by simp
    have lu: "live_user (snd st1) uid = Some u" using u(2) tu(1) t(1) by (simp add: live_user_def)
    have "clock (snd st1) < clock (snd st') + seconds (jwt_life c (jwtRefreshTtl cfg))"
      using tu(2) t(1) ttl(2) by (simp add: seconds_def)
    then show ?thesis unfolding t(2) issued_pair_def token_pair.simps
      by (intro refresh_live [where j = "rnd_jti rnd" and uid = uid and u = u])
        (simp_all add: jwt jti live lu u uu(1) base_payload_def)
  qed
next
  fix st2 rnd'
  assume "clock (snd st) < issued + seconds (jwt_life c ttl)"
    and steps: "(session_step c cfg j)\<^sup>*\<^sup>* (logout c cfg tok st) st2"
  then have "logout c cfg tok st = revokeRefreshTokenJti j st"
    using jwt tok by (simp add: logout_def jwt_ok_def falsy_def)
  then have "live_tokens (logout c cfg tok st) j = None" using tokens.revoked by simp
  then have "live_tokens st2 j = None" by (rule session_steps_dead [OF steps])
  then show "fst (refresh c cfg rnd' tok st2) = Inl invalid_refresh"
    unfolding tok(1) by (rule refresh_dead_fails [OF jwt tok(2)])
qed

section \<open>Resetting a password\<close>

text \<open>
  C21: A password reset needs an accepted code and equal passwords; it sets the password of the one active account
  of the e-mail and leaves the rows of all other accounts as they are. It ends no session: every access token that authenticated before still does, as the same user, and every
  refresh token other than one of the newly drawn identifier stays live.
\<close>

theorem resetPassword_keeps_sessions:
  assumes inv: "users_inv (snd st)"
    and run: "resetPassword c cfg rnd email otp newPassword confirmPassword st = (Inr pair, st')"
  shows "newPassword = confirmPassword \<and> otp_accepts c cfg st email Otp_password_reset otp \<and>
    (\<exists>u. live_by_email (snd st) email = Some u \<and> u_status u = User_active \<and>
       live_user (snd st') (u_id u) =
         Some (set_password (bcrypt_hash c (rnd_bcrypt_salt rnd) newPassword) (clock (snd st)) u) \<and>
       users (snd st') = map (\<lambda>v. if u_id v = u_id u
         then set_password (bcrypt_hash c (rnd_bcrypt_salt rnd) newPassword) (clock (snd st)) v else v) (users (snd st))) \<and>
    authenticate c cfg (snd st') tok = authenticate c cfg (snd st) tok \<and>
    (j \<noteq> rnd_jti rnd \<longrightarrow> live_tokens st' j = live_tokens st j)"
proof -
  obtain y st1 where ck: "checkVerification c cfg email Otp_password_reset otp st = (y, st1)" by (rule prod.exhaust)
  have frame: "users (snd st1) = users (snd st)" "clock (snd st1) = clock (snd st)"
    using check_users [of c cfg email Otp_password_reset otp st] ck by auto
  have live1: "live_tokens st1 = live_tokens st"
    using check_live [of c cfg email Otp_password_reset otp st] ck by simp
  have eq: "newPassword = confirmPassword" using run by (auto simp: resetPassword_def split: if_split_asm)
  obtain i where y: "y = Inr i" using run ck by (cases y) (auto simp: resetPassword_def split: if_split_asm)
  have acc: "otp_accepts c cfg st email Otp_password_reset otp"
    using provider.check_iff [of c cfg email Otp_password_reset otp st] ck y by simp
  have tr: "reset_account c cfg rnd email newPassword st1 = (Inr pair, st')"
    using run ck y eq by (auto simp: resetPassword_def auth_transaction_def split: prod.split_asm sum.split_asm)
  obtain r s where st1: "st1 = (r, s)" by (cases st1)
  obtain u where u: "live_by_email s email = Some u" "u_status u = User_active"
    using tr by (auto simp: reset_account_def st1 split: option.split_asm if_split_asm)
  let ?h = "bcrypt_hash c (rnd_bcrypt_salt rnd) newPassword"
  let ?f = "set_password ?h (clock s)"
  let ?s1 = "s\<lparr>users := update_where (\<lambda>v. u_id v = u_id u) ?f (users s)\<rparr>"
  have gen: "generateTokens c cfg rnd (u_id u) (u_email u) (u_is_admin u) (u_token_version u) (r, ?s1) = (Inr pair, st')"
    using tr u by (simp add: reset_account_def st1 Let_def)
  have uin: "u \<in> set (users s)" "u_deleted_at u = None" using live_by_email_Some [OF u(1)] by auto
  have f: "u_id (?f v) = u_id v" "u_deleted_at (?f v) = u_deleted_at v" "u_email (?f v) = u_email v"
    "u_token_version (?f v) = u_token_version v" for v by (simp_all add: set_password_def)
  have lu: "live_user ?s1 k = map_option (\<lambda>v. if u_id v = u_id u then ?f v else v) (live_user s k)" for k
    unfolding live_user_def by (simp, rule find_update_where) (simp add: f)
  have "u_id ` set (users ?s1) = u_id ` set (users s)"
    using update_where_image [of u_id ?f "\<lambda>v. u_id v = u_id u" "users s"] f(1) by simp
  then have key: "has_key u_id (u_id u) (users (snd (r, ?s1)))" using uin(1) by (simp add: has_key_iff)
  obtain t where t: "generateTokens c cfg rnd (u_id u) (u_email u) (u_is_admin u) (u_token_version u) (r, ?s1) =
      (Inr (issued_pair c cfg rnd (clock (snd (r, ?s1))) (base_payload (u_id u) (u_email u) (u_is_admin u) (u_token_version u))), t)"
      "users (snd t) = users (snd (r, ?s1))" "clock (snd t) = clock (snd (r, ?s1))"
    by (rule generateTokens_ok [OF key, of c cfg rnd "u_email u" "u_is_admin u" "u_token_version u"]) auto
  have t': "t = st'" using gen t(1) by simp
  have s: "users s = users (snd st)" "clock s = clock (snd st)" using frame by (simp_all add: st1)
  have lives: "live_user (snd st') k = map_option (\<lambda>v. if u_id v = u_id u then ?f v else v) (live_user (snd st) k)" for k
  proof -
    have "live_user (snd st') k = live_user ?s1 k" using t(2) t' by (simp add: live_user_def)
    moreover have "live_user s k = live_user (snd st) k" using s by (simp add: live_user_def)
    ultimately show ?thesis using lu [of k] by simp
  qed
  have found: "live_by_email (snd st) email = Some u" using u(1) s(1) by (simp add: live_by_email_def)
  have "live_user (snd st) (u_id u) = Some u" using live_user_pk [OF inv] uin s(1) by simp
  then have new: "live_user (snd st') (u_id u) = Some (set_password ?h (clock (snd st)) u)"
    using lives [of "u_id u"] s(2) by simp
  have auth: "authenticate c cfg (snd st') tok = authenticate c cfg (snd st) tok"
    using t(3) t' s(2)
    by (simp add: authenticate_def validate_def lives set_password_def split: option.split)
  have "live_tokens st' j = live_tokens st j" if "j \<noteq> rnd_jti rnd"
  proof -
    have "live_tokens (r, ?s1) = live_tokens st1" by (rule live_tokens_frame) (simp_all add: st1)
    then show ?thesis
      using generateTokens_other [OF that, of c cfg "u_id u" "u_email u" "u_is_admin u" "u_token_version u" "(r, ?s1)"] gen live1
      by simp
  qed
  moreover have "users (snd st') = map (\<lambda>v. if u_id v = u_id u then set_password ?h (clock (snd st)) v else v) (users (snd st))"
    using t(2) t' s by (simp add: update_where_def)
  ultimately show ?thesis using eq acc found u(2) new auth by blast
qed

section \<open>Examples\<close>

text \<open>A transparent stand-in for the cryptographic library, and a configuration.\<close>

definition sample_crypto :: "(string \<times> time \<times> jwt_payload) crypto" where
  "sample_crypto =
     \<lparr>hmac_hex = (\<lambda>secret text. secret @ text), bcrypt_hash = (\<lambda>salt p. p), bcrypt_compare = (=),
      jwt_sign = (\<lambda>secret ttl now p. (secret, now + seconds 900, p)),
      jwt_verify = (\<lambda>secret now tok. case tok of (k, expiry, p) \<Rightarrow> if k = secret \<and> now < expiry then Some p else None),
      jwt_life = (\<lambda>_. 900)\<rparr>"

definition sample_config :: app_config where
  "sample_config =
     \<lparr>nodeEnv = ''test'', port = Dec 3000 0, corsOrigins = [], databaseUrl = ''db'', databaseSsl = False,
      databasePoolMax = 10, jwtAccessSecret = ''a'', jwtRefreshSecret = ''r'', jwtAccessTtl = ''15m'',
      jwtRefreshTtl = ''30d'', adminPhone = None, adminPassword = None, adminPhones = [],
      otpSigningSecret = ''s'', otpProvider = Provider_console, otpTtlMinutes = Dec 10 0, otpDevMode = True,
      resendApiKey = None, resendFromEmail = None, resendOtpSubject = '''', storageBucket = '''',
      storagePublicBaseUrl = '''', storageUploadTtlSeconds = 900, storageSigningSecret = ''k'',
      cloudinaryCloudName = '''', cloudinaryApiKey = '''', cloudinaryApiSecret = '''', throttleTtl = Dec 60 0,
      throttleLimit = Dec 100 0, throttleDevBypass = False, logLevel = ''info'', logPretty = False,
      logHttpBody = False, logWsPayload = False, redisUrl = None\<rparr>"

definition sample_randoms :: "string \<Rightarrow> randoms" where
  "sample_randoms jti = \<lparr>rnd_otp = 123456, rnd_otp_salt = ''x'', rnd_bcrypt_salt = ''y'', rnd_jti = jti\<rparr>"

abbreviation sample_state :: auth_state where
  "sample_state \<equiv> (no_redis, sample_db)"

abbreviation "sample_login \<equiv> login sample_crypto sample_config (sample_randoms ''j'') ''M@X.io'' ''h''"

lemma sample_jwt: "jwt_ok sample_crypto"
  by (simp add: jwt_ok_def sample_crypto_def)

lemma sample_bcrypt: "bcrypt_ok sample_crypto"
  by (simp add: bcrypt_ok_def sample_crypto_def)

lemma sample_users: "users_inv sample_db"
  by (simp add: users_inv_def pk_def sample_db_def sample_user_def)

lemma sample_logged_in: "live_by_email sample_db ''M@X.io'' = Some (sample_user 1 True)"
  "is_ok (fst (sample_login sample_state))"
  by code_simp+

theorem login_session_witness:
  "\<exists>au pair st ss. sample_login sample_state = (Inr (au, pair), st) \<and>
     authenticate sample_crypto sample_config (sample_db\<lparr>clock := 200\<rparr>) (accessToken pair) = Inr ss \<and>
     sub ss = 1 \<and> isAdmin ss"
proof -
  obtain x st where run: "sample_login sample_state = (x, st)" by (rule prod.exhaust)
  then obtain au pair where x: "x = Inr (au, pair)" using sample_logged_in(2) by (cases x) auto
  have "live_user (sample_db\<lparr>clock := 200\<rparr>) (u_id (sample_user 1 True)) = Some (sample_user 1 True)" by code_simp
  then have live: "\<exists>v. live_user (sample_db\<lparr>clock := 200\<rparr>) (u_id (sample_user 1 True)) = Some v \<and>
      u_token_version v = u_token_version (sample_user 1 True)" by simp
  have t: "clock (sample_db\<lparr>clock := 200\<rparr>) <
      clock (snd sample_state) + seconds (jwt_life sample_crypto (jwtAccessTtl sample_config))"
    by code_simp
  have inv: "users_inv (snd sample_state)" using sample_users by simp
  have found: "live_by_email (snd sample_state) ''M@X.io'' = Some (sample_user 1 True)" using sample_logged_in by simp
  show ?thesis using login_session [OF inv sample_jwt run, THEN conjunct2, THEN conjunct2, rule_format, OF x found live t]
    run x by (auto simp: sample_user_def)
qed

definition sample_registration :: registration_dto where
  "sample_registration = \<lparr>rg_email = ''New@x.io'', rg_phone = ''011'', rg_name = ''Nour'', rg_address = None,
     rg_password = ''secret''\<rparr>"

abbreviation "sample_register \<equiv>
  requestRegistrationOtp sample_crypto sample_config (\<lambda>_ _. Mail_ok) (sample_randoms ''j'') sample_registration"

theorem registration_roundtrip_witness:
  "\<exists>answer st1 au pair st2 u. sample_register sample_state = (Inr answer, st1) \<and>
     verifyRegistrationOtp sample_crypto sample_config (sample_randoms ''j2'') ''New@x.io'' ''000000'' (later 300 st1) =
       (Inr (au, pair), st2) \<and>
     users (snd st2) = users sample_db @ [u] \<and> u_email u = Some ''new@x.io'' \<and>
     is_ok (fst (login sample_crypto sample_config (sample_randoms ''j3'') ''New@x.io'' ''secret'' st2))"
proof -
  have "is_ok (fst (sample_register sample_state))"
    by (simp add: requestRegistrationOtp_def upsert_pending_def sample_db_def empty_db_def sample_user_def
        sample_registration_def same_email_def sample_config_def startVerification_def
        resolveOtpVerificationProvider_def console_startVerification_def Let_def lower_def)
  then obtain answer st1 where run: "sample_register sample_state = (Inr answer, st1)"
    by (metis is_okE prod.collapse)
  have inv: "pending_lower (snd sample_state)" by (simp add: pending_lower_def sample_db_def empty_db_def)
  have past: "otps_past sample_config sample_state"
    by (simp add: otps_past_def sample_config_def minutes_def sample_db_def empty_db_def)
  have t: "clock (snd sample_state) \<le> 300"
      "300 < clock (snd sample_state) + minutes (otpTtlMinutes sample_config)"
    by (simp_all add: sample_db_def sample_config_def minutes_def)
  have otp: "issued_otp sample_config (sample_randoms ''j'') = ''000000''"
    by (simp add: issued_otp_def sample_config_def)
  have dto: "rg_email sample_registration = ''New@x.io''" "rg_password sample_registration = ''secret''"
      "lower ''New@x.io'' = ''new@x.io''"
    by code_simp+
  show ?thesis
    using registration_roundtrip [OF inv past sample_bcrypt run t, of "sample_randoms ''j2''" "sample_randoms ''j3''"] run
    unfolding otp dto by auto
qed

text \<open>A refresh token signed at the start for customer 2, with its identifier on record.\<close>

definition sample_refresh_payload :: jwt_payload where
  "sample_refresh_payload = (base_payload 2 (Some ''m@x.io'') False 1)\<lparr>jp_jti := Some ''j0''\<rparr>"

definition sample_session_state :: auth_state where
  "sample_session_state = snd (saveRefreshTokenJti ''j0'' 2 3600 sample_state)"

abbreviation "sample_token \<equiv> jwt_sign sample_crypto (jwtRefreshSecret sample_config) ''15m'' 100 sample_refresh_payload"

theorem refresh_rotation_witness:
  "\<exists>pair st1. refresh sample_crypto sample_config (sample_randoms ''j1'') sample_token sample_session_state = (Inr pair, st1) \<and>
     fst (refresh sample_crypto sample_config (sample_randoms ''j2'') sample_token st1) = Inl invalid_refresh \<and>
     is_ok (fst (refresh sample_crypto sample_config (sample_randoms ''j2'') (refreshToken pair) st1))"
proof -
  have users: "users (snd sample_session_state) = users sample_db" "seqs (snd sample_session_state) T_users = seqs sample_db T_users"
    by code_simp+
  have inv: "users_inv (snd sample_session_state)" using sample_users by (simp add: users_inv_def users)
  have j: "jp_jti sample_refresh_payload = Some ''j0''" "''j0'' \<noteq> []" by (simp_all add: sample_refresh_payload_def)
  have "is_ok (fst (refresh sample_crypto sample_config (sample_randoms ''j1'') sample_token sample_session_state))"
    by code_simp
  then obtain pair st1 where run: "refresh sample_crypto sample_config (sample_randoms ''j1'') sample_token sample_session_state = (Inr pair, st1)"
    by (metis is_okE prod.collapse)
  note rotation = refresh_rotation [OF sample_jwt inv refl j, where cfg = sample_config and ttl = "''15m''" and issued = 100]
  have "rnd_jti (sample_randoms ''j1'') \<noteq> ''j0''" "rnd_jti (sample_randoms ''j1'') \<noteq> []" by (simp_all add: sample_randoms_def)
  moreover have "0 < parseTtlSeconds (jwtRefreshTtl sample_config)" "0 < jwt_life sample_crypto (jwtRefreshTtl sample_config)"
    by code_simp+
  ultimately show ?thesis
    using rotation [THEN conjunct1, rule_format, OF run _ rtranclp.rtrancl_refl]
      rotation [THEN conjunct2, THEN conjunct2, rule_format, OF run] run by blast
qed

text \<open>A reset under way for \<open>m@x.io\<close>: the code has been issued.\<close>

definition sample_reset_state :: auth_state where
  "sample_reset_state = (fst sample_session_state, (snd sample_session_state)\<lparr>auth_otps :=
     [\<lparr>ao_id = 1, ao_user_id = Some 1, ao_email = ''m@x.io'', ao_code_hash = hashOtp sample_crypto sample_config ''000000'' ''x'',
       ao_salt = ''x'', ao_purpose = Otp_password_reset, ao_expires_at = 1000000, ao_used_at = None, ao_created_at = 90\<rparr>]\<rparr>)"

theorem resetPassword_keeps_sessions_witness:
  "\<exists>pair st'. resetPassword sample_crypto sample_config (sample_randoms ''j1'') ''m@x.io'' ''000000'' ''new'' ''new'' sample_reset_state =
       (Inr pair, st') \<and> live_tokens st' ''j0'' = live_tokens sample_reset_state ''j0''"
proof -
  have users: "users (snd sample_reset_state) = users sample_db" "seqs (snd sample_reset_state) T_users = seqs sample_db T_users"
    by code_simp+
  have inv: "users_inv (snd sample_reset_state)" using sample_users by (simp add: users_inv_def users)
  have "is_ok (fst (resetPassword sample_crypto sample_config (sample_randoms ''j1'') ''m@x.io'' ''000000'' ''new'' ''new'' sample_reset_state))"
    by code_simp
  then obtain pair st' where run: "resetPassword sample_crypto sample_config (sample_randoms ''j1'') ''m@x.io'' ''000000'' ''new'' ''new'' sample_reset_state = (Inr pair, st')"
    by (metis is_okE prod.collapse)
  have "''j0'' \<noteq> rnd_jti (sample_randoms ''j1'')" by (simp add: sample_randoms_def)
  then show ?thesis using resetPassword_keeps_sessions [OF inv run, of sample_token "''j0''"] run by auto
qed

theorem verifyRegistration_sound_witness:
  "\<exists>x st'. verifyRegistrationOtp sample_crypto sample_config (sample_randoms ''j'') ''m@x.io'' ''000000'' sample_state = (x, st') \<and>
     \<not> is_ok x \<and> users (snd st') = users sample_db"
proof -
  have bad: "\<not> is_ok (fst (verifyRegistrationOtp sample_crypto sample_config (sample_randoms ''j'') ''m@x.io'' ''000000'' sample_state))"
    by code_simp
  obtain x st' where run: "verifyRegistrationOtp sample_crypto sample_config (sample_randoms ''j'') ''m@x.io'' ''000000'' sample_state = (x, st')"
    by (rule prod.exhaust)
  then show ?thesis using verifyRegistration_sound [OF run] bad by auto
qed

end
