(* ===== verification/Listings.thy ===== *)
theory Listings
  imports Config Samples
begin

text \<open>
  The marketplace listings: the taxonomy of categories (\<open>src/products/product-taxonomy.ts\<close>) and
  \<open>ProductsService\<close> (\<open>src/products/products.service.ts\<close>). The full-text search and the collation of the
  database are parameters, the record \<open>text_search\<close>. Prices are in hundredths, as in the theory \<open>Schema\<close>.
\<close>

section \<open>Taxonomy\<close>

definition PRODUCT_CATEGORIES :: "string list" where
  "PRODUCT_CATEGORIES =
     [''realEstate'', ''vehicles'', ''electronics'', ''homeAndDecor'', ''clothingAndFashion'', ''services'']"

definition PRODUCT_SUBCATEGORIES :: "string list" where
  "PRODUCT_SUBCATEGORIES =
     [''all'', ''apartmentForRent'', ''apartmentForSale'', ''houses'', ''lands'', ''commercialRealEstateForRent'',
      ''commercialRealEstateForSale'', ''other'', ''carsForSale'', ''carsForRent'', ''sparePartsAndAccessories'',
      ''motorCycles'', ''bicycles'', ''trucksAndHeavyVehicles'', ''smartphones'', ''tablets'', ''laptopsAndComputers'',
      ''accessories'', ''speakersAndHeadphones'', ''cameras'', ''smartWatchesAndWearables'', ''monitorsAndTVs'',
      ''furniture'', ''officeFurniture'', ''kitchenAndDining'', ''beddingAndBath'', ''homeDecor'', ''homeTools'',
      ''lighting'', ''menClothing'', ''womenClothing'', ''kidsClothing'', ''shoes'', ''menAccessories'',
      ''womenAccessoriesAndMakeup'', ''jewelryAndWatches'', ''maintenanceAndRepairs'', ''transportationAndMoving'',
      ''personalServices'', ''carsServices'', ''homeServices'', ''lessonsAndTutoring'']"

definition CATEGORY_TO_SUBCATEGORIES :: "(string \<times> string list) list" where
  "CATEGORY_TO_SUBCATEGORIES =
     [(''realEstate'', [''all'', ''apartmentForRent'', ''apartmentForSale'', ''houses'', ''lands'',
         ''commercialRealEstateForRent'', ''commercialRealEstateForSale'', ''other'']),
      (''vehicles'', [''all'', ''carsForSale'', ''carsForRent'', ''sparePartsAndAccessories'', ''motorCycles'',
         ''bicycles'', ''trucksAndHeavyVehicles'']),
      (''electronics'', [''all'', ''smartphones'', ''tablets'', ''laptopsAndComputers'', ''accessories'',
         ''speakersAndHeadphones'', ''cameras'', ''smartWatchesAndWearables'', ''monitorsAndTVs'', ''other'']),
      (''homeAndDecor'', [''all'', ''furniture'', ''officeFurniture'', ''kitchenAndDining'', ''beddingAndBath'',
         ''homeDecor'', ''homeTools'', ''lighting'', ''other'']),
      (''clothingAndFashion'', [''all'', ''menClothing'', ''womenClothing'', ''kidsClothing'', ''shoes'',
         ''menAccessories'', ''womenAccessoriesAndMakeup'', ''jewelryAndWatches'', ''other'']),
      (''services'', [''all'', ''maintenanceAndRepairs'', ''transportationAndMoving'', ''personalServices'',
         ''carsServices'', ''homeServices'', ''lessonsAndTutoring'', ''other''])]"

definition isValidCategory :: "string \<Rightarrow> bool" where
  "isValidCategory category \<longleftrightarrow> List.member PRODUCT_CATEGORIES category"

definition getAllowedSubcategories :: "string \<Rightarrow> string list" where
  "getAllowedSubcategories category =
     (if \<not> isValidCategory category then []
      else coalesce (map_of CATEGORY_TO_SUBCATEGORIES category) [])"

definition isValidSubcategory :: "string \<Rightarrow> string \<Rightarrow> bool" where
  "isValidSubcategory category subcategory \<longleftrightarrow>
     (if \<not> isValidCategory category then False
      else List.member (coalesce (map_of CATEGORY_TO_SUBCATEGORIES category) []) subcategory)"

definition isAllowedProductSubcategory :: "string \<Rightarrow> string \<Rightarrow> bool" where
  "isAllowedProductSubcategory category subcategory \<longleftrightarrow>
     isValidSubcategory category subcategory \<and> subcategory \<noteq> ''all''"

definition assertCategoryPair :: "string \<Rightarrow> string option \<Rightarrow> bool \<Rightarrow> unit result" where
  "assertCategoryPair category subcategory allowAll =
     (if \<not> isValidCategory category then Inl (BadRequest ''Invalid category'')
      else (case subcategory of
          None \<Rightarrow> Inr ()
        | Some sc \<Rightarrow>
            if \<not> isValidSubcategory category sc then Inl (BadRequest ''Invalid subcategory for category'')
            else if \<not> allowAll \<and> \<not> isAllowedProductSubcategory category sc
            then Inl (BadRequest ''subcategory cannot be all'')
            else Inr ()))"

definition assertSearchCategoryPair :: "string option \<Rightarrow> string option \<Rightarrow> unit result" where
  "assertSearchCategoryPair category subcategory =
     (if falsy category \<or> falsy subcategory then Inr ()
      else assertCategoryPair (the category) subcategory True)"

section \<open>Rows\<close>

text \<open>The constraints of the table (migrations 0001, 0010 and 0015).\<close>

definition p_range :: "listing \<Rightarrow> bool" where
  "p_range r \<longleftrightarrow> \<bar>p_price r\<bar> < 10 ^ 12"

definition p_check :: "listing \<Rightarrow> bool" where
  "p_check r \<longleftrightarrow> 0 \<le> p_price r \<and>
     List.member [''phone'', ''chat'', ''both''] (p_preferred_contact_method r) \<and>
     List.member [''realEstate'', ''vehicles'', ''electronics'', ''homeAndDecor'', ''clothingAndFashion'', ''services'']
       (p_category r) \<and>
     (case p_subcategory r of
        None \<Rightarrow> True
      | Some c \<Rightarrow> List.member PRODUCT_SUBCATEGORIES c \<and> c \<noteq> ''all'')"

record create_listing =
  cl_category :: string
  cl_subcategory :: "string option"
  cl_name :: string
  cl_description :: string
  cl_price :: int
  cl_city :: string
  cl_addressText :: string
  cl_details :: "string option"
  cl_imageFileIds :: "int list option"
  cl_isNegotiable :: "bool option"
  cl_preferredContactMethod :: "string option"

text \<open>
  In an update the outer option of \<open>subcategory\<close> says whether the object has the property, the inner one
  whether its value is \<open>null\<close> or \<open>undefined\<close>.
\<close>

record update_listing =
  ul_category :: "string option"
  ul_subcategory :: "string option option"
  ul_name :: "string option"
  ul_description :: "string option"
  ul_price :: "int option"
  ul_city :: "string option"
  ul_addressText :: "string option"
  ul_details :: "string option"
  ul_imageFileIds :: "int list option"
  ul_isNegotiable :: "bool option"
  ul_preferredContactMethod :: "string option"

definition new_listing :: "int \<Rightarrow> create_listing \<Rightarrow> int \<Rightarrow> time \<Rightarrow> listing" where
  "new_listing ownerId dto ident now =
     \<lparr>p_id = ident, p_owner_id = ownerId, p_category = trim (cl_category dto),
      p_subcategory = map_option trim (cl_subcategory dto), p_name = cl_name dto,
      p_description = cl_description dto, p_price = cl_price dto, p_city = cl_city dto,
      p_address_text = cl_addressText dto, p_details = cl_details dto, p_status = Listing_available,
      p_is_negotiable = coalesce (cl_isNegotiable dto) False,
      p_preferred_contact_method = coalesce (cl_preferredContactMethod dto) ''both'',
      p_deleted_at = None, p_created_at = now, p_updated_at = now\<rparr>"

definition insert_listing :: "int \<Rightarrow> create_listing \<Rightarrow> (db, int) handler" where
  "insert_listing ownerId dto s =
     (let s1 = bump T_products s; r = new_listing ownerId dto (seqs s T_products) (clock s)
      in if \<not> p_range r then (Inl (SqlError ''22003''), s1)
         else if \<not> p_check r then (Inl (SqlError ''23514''), s1)
         else if \<not> has_key u_id ownerId (users s) then (Inl (SqlError ''23503''), s1)
         else (Inr (p_id r), s1\<lparr>products := products s @ [r]\<rparr>))"

definition sql_update_listing :: "int \<Rightarrow> (listing \<Rightarrow> listing) \<Rightarrow> (db, unit) handler" where
  "sql_update_listing productId f s =
     (let hit = filter (\<lambda>r. p_id r = productId) (products s) in
      if \<not> list_all (\<lambda>r. p_range (f r)) hit then (Inl (SqlError ''22003''), s)
      else if \<not> list_all (\<lambda>r. p_check (f r)) hit then (Inl (SqlError ''23514''), s)
      else (Inr (), s\<lparr>products := update_where (\<lambda>r. p_id r = productId) f (products s)\<rparr>))"

section \<open>Images\<close>

record image_view =
  iv_id :: int
  iv_file_id :: int
  iv_sort_order :: int
  iv_object_key :: string
  iv_status :: file_status

definition image_view_of :: "product_image \<Rightarrow> file_row \<Rightarrow> image_view" where
  "image_view_of i f =
     \<lparr>iv_id = pi_id i, iv_file_id = pi_file_id i, iv_sort_order = pi_sort_order i,
      iv_object_key = f_object_key f, iv_status = f_status f\<rparr>"

text \<open>\<open>product_images pi JOIN files f ON f.id = pi.file_id \<dots> ORDER BY pi.sort_order ASC\<close>.\<close>

definition listing_images :: "db \<Rightarrow> int \<Rightarrow> image_view list" where
  "listing_images s productId =
     List.map_filter (\<lambda>i. map_option (image_view_of i) (row_by f_id (pi_file_id i) (files s)))
       (sort_key pi_sort_order (filter (\<lambda>i. pi_product_id i = productId) (product_images s)))"

text \<open>A nullable \<open>BIGINT\<close> as the driver returns it.\<close>

definition id_js :: "int option \<Rightarrow> js" where
  "id_js v = (case v of None \<Rightarrow> Null | Some n \<Rightarrow> Str (show_int n))"

definition image_file_error :: "db \<Rightarrow> int \<Rightarrow> int \<Rightarrow> http_error option" where
  "image_file_error s actorUserId fileId =
     (case row_by f_id fileId (files s) of
        None \<Rightarrow> Some (BadRequest (''File '' @ show_int fileId @ '' does not exist''))
      | Some f \<Rightarrow>
          if f_purpose f \<noteq> Purpose_product_image
          then Some (BadRequest (''File '' @ show_int fileId @ '' must have purpose product_image''))
          else if toPositiveInt (id_js (f_uploader_user_id f)) \<noteq> Some actorUserId
          then Some (Forbidden (''File '' @ show_int fileId @ '' is not owned by the current user''))
          else if f_status f \<noteq> File_uploaded
          then Some (BadRequest (''File '' @ show_int fileId @ '' must be uploaded before product association''))
          else None)"

fun first_error :: "('x \<Rightarrow> http_error option) \<Rightarrow> 'x list \<Rightarrow> http_error option" where
  "first_error check [] = None"
| "first_error check (x # xs) = (case check x of None \<Rightarrow> first_error check xs | Some e \<Rightarrow> Some e)"

definition new_images :: "db \<Rightarrow> int \<Rightarrow> int list \<Rightarrow> product_image list" where
  "new_images s productId imageFileIds =
     map (\<lambda>(i, fileId). \<lparr>pi_id = seqs s T_product_images + int i, pi_product_id = productId, pi_file_id = fileId,
            pi_object_key = f_object_key (the (row_by f_id fileId (files s))), pi_sort_order = int i\<rparr>)
       (enumerate 0 imageFileIds)"

definition own_file :: "string \<Rightarrow> int \<Rightarrow> time \<Rightarrow> file_row \<Rightarrow> file_row" where
  "own_file ownerType ownerId now f = f\<lparr>f_owner_type := ownerType, f_owner_id := Some ownerId, f_updated_at := now\<rparr>"

text \<open>The callers hold a row of the product, so the foreign keys of the insertion are met.\<close>

definition syncProductImages :: "int \<Rightarrow> int \<Rightarrow> int list \<Rightarrow> (db, unit) handler" where
  "syncProductImages actorUserId productId imageFileIds s =
     (let s1 = s\<lparr>product_images := delete_where (\<lambda>i. pi_product_id i = productId) (product_images s)\<rparr> in
      if imageFileIds = [] then (Inr (), s1)
      else (case first_error (image_file_error s1 actorUserId) imageFileIds of
          Some e \<Rightarrow> (Inl e, s1)
        | None \<Rightarrow>
            (Inr (), s1\<lparr>
               seqs := (seqs s1)(T_product_images := seqs s1 T_product_images + int (length imageFileIds)),
               product_images := product_images s1 @ new_images s1 productId imageFileIds,
               files := update_where (\<lambda>f. List.member imageFileIds (f_id f)) (own_file ''product'' productId (clock s1)) (files s1)\<rparr>)))"

section \<open>Operations\<close>

definition live_listing :: "db \<Rightarrow> int \<Rightarrow> listing option" where
  "live_listing s i = find (\<lambda>r. p_id r = i \<and> p_deleted_at r = None) (products s)"

definition fetchProductWithImages :: "db \<Rightarrow> int \<Rightarrow> (listing \<times> image_view list) option" where
  "fetchProductWithImages s productId =
     (case live_listing s productId of
        None \<Rightarrow> None
      | Some r \<Rightarrow> Some (r, listing_images s productId))"

definition createProduct :: "auth_user \<Rightarrow> create_listing \<Rightarrow> (db, (listing \<times> image_view list) option) handler" where
  "createProduct user dto =
     with_transaction (\<lambda>s.
       (case assertCategoryPair (trim (cl_category dto)) (map_option trim (cl_subcategory dto)) False of
          Inl e \<Rightarrow> (Inl e, s)
        | Inr _ \<Rightarrow>
            bind_h (insert_listing (sub user) dto) (\<lambda>productId.
            bind_h (\<lambda>t. case cl_imageFileIds dto of
                None \<Rightarrow> (Inr (), t)
              | Some ids \<Rightarrow> if ids \<noteq> [] then syncProductImages (sub user) productId ids t else (Inr (), t)) (\<lambda>_ t.
            (Inr (fetchProductWithImages t productId), t))) s))"

definition getProductById :: "db \<Rightarrow> int \<Rightarrow> (listing \<times> image_view list) result" where
  "getProductById s productId =
     (case fetchProductWithImages s productId of
        None \<Rightarrow> Inl (NotFound ''Product not found'')
      | Some p \<Rightarrow> Inr p)"

text \<open>The ownership check that opens the three changes of a listing.\<close>

definition owned_listing :: "db \<Rightarrow> auth_user \<Rightarrow> int \<Rightarrow> listing result" where
  "owned_listing s user productId =
     (case live_listing s productId of
        None \<Rightarrow> Inl (NotFound ''Product not found'')
      | Some r \<Rightarrow>
          if toPositiveInt (id_js (Some (p_owner_id r))) \<noteq> Some (sub user) then Inl (Forbidden ''Not allowed'')
          else Inr r)"

definition listing_set :: "update_listing \<Rightarrow> time \<Rightarrow> listing \<Rightarrow> listing" where
  "listing_set dto now r =
     r\<lparr>p_category := coalesce (map_option trim (ul_category dto)) (p_category r),
       p_subcategory := (case ul_subcategory dto of None \<Rightarrow> p_subcategory r | Some v \<Rightarrow> map_option trim v),
       p_name := coalesce (ul_name dto) (p_name r),
       p_description := coalesce (ul_description dto) (p_description r),
       p_price := coalesce (ul_price dto) (p_price r),
       p_city := coalesce (ul_city dto) (p_city r),
       p_address_text := coalesce (ul_addressText dto) (p_address_text r),
       p_details := coalesce_opt (ul_details dto) (p_details r),
       p_is_negotiable := coalesce (ul_isNegotiable dto) (p_is_negotiable r),
       p_preferred_contact_method := coalesce (ul_preferredContactMethod dto) (p_preferred_contact_method r),
       p_updated_at := now\<rparr>"

definition updateProduct ::
  "auth_user \<Rightarrow> int \<Rightarrow> update_listing \<Rightarrow> (db, (listing \<times> image_view list) option) handler" where
  "updateProduct user productId dto =
     with_transaction (\<lambda>s.
       (case owned_listing s user productId of
          Inl e \<Rightarrow> (Inl e, s)
        | Inr current \<Rightarrow>
            (case assertCategoryPair (coalesce (map_option trim (ul_category dto)) (p_category current))
                    (case ul_subcategory dto of None \<Rightarrow> p_subcategory current | Some v \<Rightarrow> map_option trim v) False of
               Inl e \<Rightarrow> (Inl e, s)
             | Inr _ \<Rightarrow>
                 bind_h (sql_update_listing productId (listing_set dto (clock s))) (\<lambda>_.
                 bind_h (sync_if (syncProductImages (sub user) productId) (ul_imageFileIds dto)) (\<lambda>_ t.
                 (Inr (fetchProductWithImages t productId), t))) s)))"

definition deleteProduct :: "auth_user \<Rightarrow> int \<Rightarrow> (db, string) handler" where
  "deleteProduct user productId =
     with_transaction (\<lambda>s.
       (case owned_listing s user productId of
          Inl e \<Rightarrow> (Inl e, s)
        | Inr _ \<Rightarrow>
            (Inr ''Product deleted'',
             s\<lparr>products := update_where (\<lambda>r. p_id r = productId) (\<lambda>r. r\<lparr>p_deleted_at := Some (clock s)\<rparr>) (products s)\<rparr>)))"

definition updateProductStatus :: "auth_user \<Rightarrow> int \<Rightarrow> listing_status \<Rightarrow> (db, int \<times> listing_status \<times> time) handler" where
  "updateProductStatus user productId status =
     with_transaction (\<lambda>s.
       (case owned_listing s user productId of
          Inl e \<Rightarrow> (Inl e, s)
        | Inr _ \<Rightarrow>
            (Inr (productId, status, clock s),
             s\<lparr>products := update_where (\<lambda>r. p_id r = productId)
                 (\<lambda>r. r\<lparr>p_status := status, p_updated_at := clock s\<rparr>) (products s)\<rparr>)))"

section \<open>Search\<close>

text \<open>
  \<open>tx_matches document query\<close> is \<open>to_tsvector('simple', document) @@ plainto_tsquery('simple', query)\<close>;
  \<open>tx_rank\<close> gives the position of a text in the collation of the database.
\<close>

record text_search =
  tx_matches :: "string \<Rightarrow> string \<Rightarrow> bool"
  tx_rank :: "string \<Rightarrow> int"

datatype listing_sort = Listing_price | Listing_address | Listing_rate | Listing_created

record search_listings = page_query +
  sl_category :: "string option"
  sl_subcategory :: "string option"
  sl_minPrice :: "int option"
  sl_maxPrice :: "int option"
  sl_fromDate :: "time option"
  sl_toDate :: "time option"
  sl_minRate :: "int option"
  sl_city :: "string option"
  sl_addressText :: "string option"
  sl_q :: "string option"
  sl_sortBy :: "listing_sort option"
  sl_sortDir :: "sort_direction option"
  sl_status :: "listing_status option"

text \<open>A row of \<open>product_listing_view\<close>, with its images.\<close>

record listing_view =
  lv_listing :: listing
  lv_seller_rate :: int
  lv_images :: "image_view list"

definition seller_rate :: "db \<Rightarrow> int \<Rightarrow> int" where
  "seller_rate s userId = avg2 (map ur_rating_value (filter (\<lambda>r. ur_rated_user_id r = userId) (user_ratings s)))"

definition listing_view_of :: "db \<Rightarrow> listing \<Rightarrow> listing_view" where
  "listing_view_of s r =
     \<lparr>lv_listing = r, lv_seller_rate = seller_rate s (p_owner_id r), lv_images = listing_images s (p_id r)\<rparr>"

definition listing_views :: "db \<Rightarrow> listing_view list" where
  "listing_views s = map (listing_view_of s) (filter (\<lambda>r. p_deleted_at r = None) (products s))"

definition unless_falsy :: "string option \<Rightarrow> (string \<Rightarrow> bool) \<Rightarrow> bool" where
  "unless_falsy v p \<longleftrightarrow> (if falsy v then True else p (the v))"

text \<open>\<open>mine\<close>: the statement of \<open>listMyProducts\<close>, whose non-empty prefix admits the status filter.\<close>

definition buildSearchFilters :: "text_search \<Rightarrow> bool \<Rightarrow> search_listings \<Rightarrow> listing_view \<Rightarrow> bool" where
  "buildSearchFilters tx mine dto v \<longleftrightarrow>
     (let r = lv_listing v in
      unless_falsy (sl_category dto) (\<lambda>c. p_category r = c) \<and>
      unless_falsy (sl_subcategory dto) (\<lambda>c. c = ''all'' \<or> p_subcategory r = Some c) \<and>
      opt_holds (sl_minPrice dto) (\<lambda>b. p_price r \<ge> b) \<and>
      opt_holds (sl_maxPrice dto) (\<lambda>b. p_price r \<le> b) \<and>
      opt_holds (sl_fromDate dto) (\<lambda>d. p_created_at r \<ge> d) \<and>
      opt_holds (sl_toDate dto) (\<lambda>d. p_created_at r \<le> d) \<and>
      unless_falsy (sl_city dto) (\<lambda>t. ilike (p_city r) (contains_pattern t)) \<and>
      unless_falsy (sl_addressText dto) (\<lambda>t. ilike (p_address_text r) (contains_pattern t)) \<and>
      unless_falsy (sl_q dto) (\<lambda>t. tx_matches tx (p_name r @ '' '' @ p_description r) t) \<and>
      opt_holds (sl_minRate dto) (\<lambda>b. lv_seller_rate v \<ge> b) \<and>
      (mine \<longrightarrow> opt_holds (sl_status dto) (\<lambda>st. p_status r = st)))"

definition resolveSort :: "text_search \<Rightarrow> search_listings \<Rightarrow> listing_view \<Rightarrow> int \<times> int" where
  "resolveSort tx dto v =
     order_key (coalesce (sl_sortDir dto) Dir_DESC)
       (case coalesce (sl_sortBy dto) Listing_created of
          Listing_price \<Rightarrow> p_price (lv_listing v)
        | Listing_address \<Rightarrow> tx_rank tx (p_city (lv_listing v))
        | Listing_rate \<Rightarrow> lv_seller_rate v
        | Listing_created \<Rightarrow> p_created_at (lv_listing v))
       (p_id (lv_listing v))"

definition listMyProducts :: "text_search \<Rightarrow> db \<Rightarrow> auth_user \<Rightarrow> search_listings \<Rightarrow> listing_view list result" where
  "listMyProducts tx s user dto =
     (case assertSearchCategoryPair (sl_category dto) (sl_subcategory dto) of
        Inl e \<Rightarrow> Inl e
      | Inr _ \<Rightarrow> Inr (paged (page_query.truncate dto) DEFAULT_PAGE_SIZE 100
          (sort_key (resolveSort tx dto)
             (filter (\<lambda>v. p_owner_id (lv_listing v) = sub user \<and> buildSearchFilters tx True dto v) (listing_views s)))))"

definition searchProducts :: "text_search \<Rightarrow> db \<Rightarrow> search_listings \<Rightarrow> listing_view list result" where
  "searchProducts tx s dto =
     (case assertSearchCategoryPair (sl_category dto) (sl_subcategory dto) of
        Inl e \<Rightarrow> Inl e
      | Inr _ \<Rightarrow> Inr (paged (page_query.truncate dto) DEFAULT_PAGE_SIZE 100
          (sort_key (resolveSort tx dto)
             (filter (\<lambda>v. p_status (lv_listing v) = Listing_available \<and> buildSearchFilters tx False dto v)
               (listing_views s)))))"

section \<open>The taxonomy and the constraints\<close>

definition listing_pair :: "string \<Rightarrow> string option \<Rightarrow> bool" where
  "listing_pair category subcategory \<longleftrightarrow>
     isValidCategory category \<and> (case subcategory of None \<Rightarrow> True | Some c \<Rightarrow> isAllowedProductSubcategory category c)"

lemma assertCategoryPair_ok: "is_ok (assertCategoryPair category subcategory False) \<longleftrightarrow> listing_pair category subcategory"
  by (auto simp: assertCategoryPair_def listing_pair_def isAllowedProductSubcategory_def split: option.split)

lemma assertCategoryPair_InrD: "assertCategoryPair category subcategory False = Inr u \<Longrightarrow> listing_pair category subcategory"
  using assertCategoryPair_ok [of category subcategory] by simp

lemma taxonomy_total: "list_all (\<lambda>c. map_of CATEGORY_TO_SUBCATEGORIES c \<noteq> None) PRODUCT_CATEGORIES"
  by code_simp

lemma taxonomy_subcategories:
  "list_all (\<lambda>(c, scs). list_all (\<lambda>sc. List.member PRODUCT_SUBCATEGORIES sc) scs) CATEGORY_TO_SUBCATEGORIES"
  by code_simp

lemma isValidSubcategory_known:
  assumes "isValidSubcategory c sc"
  shows "List.member PRODUCT_SUBCATEGORIES sc"
proof (cases "map_of CATEGORY_TO_SUBCATEGORIES c")
  case None
  then show ?thesis using assms by (simp add: isValidSubcategory_def split: if_split_asm)
next
  case (Some scs)
  then have "(c, scs) \<in> set CATEGORY_TO_SUBCATEGORIES" by (rule map_of_SomeD)
  then have "list_all (\<lambda>sc. List.member PRODUCT_SUBCATEGORIES sc) scs"
    using taxonomy_subcategories by (auto simp: list_all_iff)
  then show ?thesis using assms Some by (simp add: isValidSubcategory_def list_all_iff split: if_split_asm)
qed

text \<open>A pair the service accepts meets the constraints of the table.\<close>

lemma listing_pair_check:
  "listing_pair (p_category r) (p_subcategory r) \<Longrightarrow>
     p_check r \<longleftrightarrow> 0 \<le> p_price r \<and> List.member [''phone'', ''chat'', ''both''] (p_preferred_contact_method r)"
  using isValidSubcategory_known
  by (auto simp: listing_pair_def p_check_def isValidCategory_def PRODUCT_CATEGORIES_def
      isAllowedProductSubcategory_def split: option.split)

section \<open>Invariant\<close>

definition listing_ok :: "listing \<Rightarrow> bool" where
  "listing_ok r \<longleftrightarrow> listing_pair (p_category r) (p_subcategory r) \<and> p_check r \<and> p_range r \<and> 0 < p_owner_id r"

definition listing_inv :: "db \<Rightarrow> bool" where
  "listing_inv s \<longleftrightarrow> pk p_id (seqs s T_products) (products s) \<and> list_all listing_ok (products s)"

text \<open>What one request may do to the rows: keep each with its id and owner, and never revive one.\<close>

definition listing_kept :: "listing \<Rightarrow> listing \<Rightarrow> bool" where
  "listing_kept r r' \<longleftrightarrow> p_id r' = p_id r \<and> p_owner_id r' = p_owner_id r \<and> p_created_at r' = p_created_at r \<and>
     (p_deleted_at r \<noteq> None \<longrightarrow> p_deleted_at r' \<noteq> None)"

definition listings_kept :: "db \<Rightarrow> db \<Rightarrow> bool" where
  "listings_kept s s' \<longleftrightarrow>
     list_all (\<lambda>r. case row_by p_id (p_id r) (products s') of None \<Rightarrow> False | Some r' \<Rightarrow> listing_kept r r') (products s)"

lemma kept_trans: "listing_kept a b \<Longrightarrow> listing_kept b c \<Longrightarrow> listing_kept a c"
  by (auto simp: listing_kept_def)

lemma listings_kept_iff:
  "listings_kept s s' \<longleftrightarrow>
     (\<forall>r \<in> set (products s). \<exists>r'. row_by p_id (p_id r) (products s') = Some r' \<and> listing_kept r r')"
  unfolding listings_kept_def list_all_iff by (rule ball_cong [OF refl]) (simp split: option.split)

lemma listings_kept_trans:
  assumes "listings_kept s s'" "listings_kept s' s''"
  shows "listings_kept s s''"
  unfolding listings_kept_iff
proof
  fix r
  assume "r \<in> set (products s)"
  then obtain r' where r': "row_by p_id (p_id r) (products s') = Some r'" "listing_kept r r'"
    using assms(1) by (auto simp: listings_kept_iff)
  then have "r' \<in> set (products s')" "p_id r' = p_id r" by (auto dest: row_by_Some)
  then obtain r'' where "row_by p_id (p_id r) (products s'') = Some r''" "listing_kept r' r''"
    using assms(2) by (auto simp: listings_kept_iff)
  then show "\<exists>r''. row_by p_id (p_id r) (products s'') = Some r'' \<and> listing_kept r r''"
    using kept_trans [OF r'(2)] by blast
qed

lemma kept_same:
  assumes "listing_inv s" "products s' = products s @ new"
  shows "listings_kept s s'"
  using assms pk_row_by [of p_id "seqs s T_products" "products s"]
  by (auto simp: listings_kept_def list_all_iff row_by_append listing_inv_def listing_kept_def)

lemma kept_update:
  assumes "listing_inv s" "products s' = update_where p f (products s)" "\<And>r. listing_kept r (f r)"
  shows "listings_kept s s'"
proof -
  have "p_id (f r) = p_id r" for r using assms(3) [of r] by (simp add: listing_kept_def)
  then have "row_by p_id (p_id r) (products s') = Some (if p r then f r else r)" if "r \<in> set (products s)" for r
    using row_by_update [of p_id f "p_id r" p "products s"] pk_row_by [of p_id "seqs s T_products" "products s" r] that assms
    by (simp add: listing_inv_def)
  then show ?thesis using assms(3) by (auto simp: listings_kept_def list_all_iff listing_kept_def)
qed

lemma inv_update:
  assumes "listing_inv s" "products s' = update_where p f (products s)" "seqs s' T_products = seqs s T_products"
    "\<And>r. p_id (f r) = p_id r" "\<And>r. r \<in> set (products s) \<Longrightarrow> p r \<Longrightarrow> listing_ok (f r)"
  shows "listing_inv s'"
  using assms pk_update [of p_id f "seqs s T_products" "products s" p]
  by (auto simp: listing_inv_def list_all_iff set_update_where)

lemma inv_frame: "listing_inv s \<Longrightarrow> products s' = products s \<Longrightarrow> seqs s T_products \<le> seqs s' T_products \<Longrightarrow> listing_inv s'"
  by (auto simp: listing_inv_def intro: pk_mono)

lemma live_listing_pk:
  assumes "listing_inv s"
  shows "live_listing s i =
    (case row_by p_id i (products s) of None \<Rightarrow> None | Some r \<Rightarrow> if p_deleted_at r = None then Some r else None)"
  unfolding live_listing_def
  by (rule pk_find_and [of p_id "seqs s T_products"]) (use assms in \<open>simp add: listing_inv_def\<close>)

lemma toPositiveInt_id: "toPositiveInt (id_js (Some n)) = Some m \<Longrightarrow> 0 < n \<Longrightarrow> n = m"
  by (simp add: id_js_def toPositiveInt_show)

lemma toPositiveInt_row: "0 < n \<Longrightarrow> toPositiveInt (id_js (Some n)) = Some m \<longleftrightarrow> n = m"
  by (auto simp: id_js_def toPositiveInt_show)

section \<open>What the operations do\<close>

lemma sync_frame:
  "products (snd (syncProductImages actor i fs s)) = products s" "users (snd (syncProductImages actor i fs s)) = users s"
  "clock (snd (syncProductImages actor i fs s)) = clock s"
  "seqs (snd (syncProductImages actor i fs s)) T_products = seqs s T_products"
  by (simp_all add: syncProductImages_def Let_def split: option.split)

lemma sync_if_frame:
  "products (snd (sync_if (syncProductImages actor i) fs s)) = products s"
  "seqs (snd (sync_if (syncProductImages actor i) fs s)) T_products = seqs s T_products"
  "clock (snd (sync_if (syncProductImages actor i) fs s)) = clock s"
  by (simp_all add: sync_if_def sync_frame split: option.split)

lemma aborted_frame:
  "with_transaction m s = (Inl e, s') \<Longrightarrow> (\<And>y t. m s = (y, t) \<Longrightarrow> seqs s T_products \<le> seqs t T_products) \<Longrightarrow>
     products s' = products s \<and> product_images s' = product_images s \<and> files s' = files s \<and>
     seqs s T_products \<le> seqs s' T_products"
  by (erule with_transaction_InlE) auto

lemma insert_listing_seq: "seqs s T_products \<le> seqs (snd (insert_listing u dto s)) T_products"
  by (simp add: insert_listing_def Let_def)

lemma insert_listing_ok:
  assumes "insert_listing u dto s = (Inr i, s')" and "0 < u"
    and "listing_pair (trim (cl_category dto)) (map_option trim (cl_subcategory dto))"
  obtains r where "products s' = products s @ [r]" "listing_ok r" "p_id r = seqs s T_products" "p_owner_id r = u"
    "seqs s' T_products = seqs s T_products + 1"
proof -
  let ?r = "new_listing u dto (seqs s T_products) (clock s)"
  have "p_range ?r" "p_check ?r" "products s' = products s @ [?r]" "seqs s' T_products = seqs s T_products + 1"
    using assms(1) by (auto simp: insert_listing_def Let_def split: if_split_asm)
  moreover from this have "listing_ok ?r" using assms(2,3) by (simp add: listing_ok_def new_listing_def)
  ultimately show thesis by (intro that [of ?r]) (simp_all add: new_listing_def)
qed

lemma createProduct_cases:
  assumes run: "createProduct user dto s = (x, s')" and u: "0 < sub user"
  obtains (refused) e where "x = Inl e" "products s' = products s" "seqs s T_products \<le> seqs s' T_products"
  | (created) r y where "x = Inr y" "products s' = products s @ [r]" "listing_ok r" "p_id r = seqs s T_products"
      "p_owner_id r = sub user" "seqs s' T_products = seqs s T_products + 1"
proof (cases "assertCategoryPair (trim (cl_category dto)) (map_option trim (cl_subcategory dto)) False")
  case (Inl e)
  then have "x = Inl e" "s' = s" using run by (auto simp: createProduct_def with_transaction_def)
  then show ?thesis by (intro refused) simp_all
next
  case (Inr u')
  note pair = assertCategoryPair_InrD [OF Inr]
  let ?images = "\<lambda>i t. case cl_imageFileIds dto of None \<Rightarrow> (Inr (), t)
      | Some ids \<Rightarrow> if ids \<noteq> [] then syncProductImages (sub user) i ids t else (Inr (), t)"
  obtain y s1 where ins: "insert_listing (sub user) dto s = (y, s1)" by (rule prod.exhaust)
  have seq: "seqs s T_products \<le> seqs s1 T_products" using insert_listing_seq [of s "sub user" dto] ins by simp
  show ?thesis
  proof (cases y)
    case Inl': (Inl e)
    then have "x = Inl e" "s' = s\<lparr>seqs := seqs s1\<rparr>"
      using run ins Inr by (auto simp: createProduct_def with_transaction_def handler)
    then show ?thesis using seq by (intro refused) simp_all
  next
    case Inr': (Inr i)
    obtain z s2 where im: "?images i s1 = (z, s2)" by (rule prod.exhaust)
    have fr: "products s2 = products s1" "seqs s2 T_products = seqs s1 T_products"
      using im sync_frame [of "sub user" i "the (cl_imageFileIds dto)" s1] by (auto split: option.split_asm if_split_asm)
    show ?thesis
    proof (cases z)
      case Inl2: (Inl e)
      then have "x = Inl e" "s' = s\<lparr>seqs := seqs s2\<rparr>"
        using run ins Inr Inr' im by (auto simp: createProduct_def with_transaction_def bind_h_def)
      then show ?thesis using seq fr by (intro refused) simp_all
    next
      case Inr2: (Inr v)
      have ins': "insert_listing (sub user) dto s = (Inr i, s1)" using ins Inr' by simp
      obtain r where r: "products s1 = products s @ [r]" "listing_ok r" "p_id r = seqs s T_products" "p_owner_id r = sub user"
        "seqs s1 T_products = seqs s T_products + 1"
        by (rule insert_listing_ok [OF ins' u pair])
      have "x = Inr (fetchProductWithImages s2 i)" "s' = s2"
        using run ins Inr Inr' Inr2 im by (auto simp: createProduct_def with_transaction_def bind_h_def)
      then show ?thesis using r fr by (intro created) simp_all
    qed
  qed
qed

lemma owned_listing_InrD:
  "listing_inv s \<Longrightarrow> owned_listing s user i = Inr r \<Longrightarrow>
     live_listing s i = Some r \<and> r \<in> set (products s) \<and> p_id r = i \<and> p_deleted_at r = None \<and> p_owner_id r = sub user"
  using toPositiveInt_row [of "p_owner_id r" "sub user"]
  by (auto simp: owned_listing_def live_listing_def listing_inv_def list_all_iff listing_ok_def
      split: option.split_asm if_split_asm dest!: find_SomeD)

lemma sql_update_listing_ok:
  assumes "sql_update_listing i f s = (Inr u, s')"
  shows "s' = s\<lparr>products := update_where (\<lambda>r. p_id r = i) f (products s)\<rparr>"
    and "\<And>r. r \<in> set (products s) \<Longrightarrow> p_id r = i \<Longrightarrow> p_check (f r) \<and> p_range (f r)"
  using assms by (auto simp: sql_update_listing_def Let_def list_all_iff split: if_split_asm)

lemma listing_set_fields [simp]:
  "p_id (listing_set dto now r) = p_id r" "p_owner_id (listing_set dto now r) = p_owner_id r"
  "p_created_at (listing_set dto now r) = p_created_at r" "p_deleted_at (listing_set dto now r) = p_deleted_at r"
  by (simp_all add: listing_set_def)

lemma updateProduct_ok:
  assumes run: "updateProduct user i dto s = (Inr y, s')" and inv: "listing_inv s"
  obtains r s1 where "owned_listing s user i = Inr r"
    "listing_pair (p_category (listing_set dto (clock s) r)) (p_subcategory (listing_set dto (clock s) r))"
    "sql_update_listing i (listing_set dto (clock s)) s = (Inr (), s1)"
    "sync_if (syncProductImages (sub user) i) (ul_imageFileIds dto) s1 = (Inr (), s')"
    "y = fetchProductWithImages s' i"
proof (cases "owned_listing s user i")
  case (Inl e)
  then show ?thesis using run by (simp add: updateProduct_def with_transaction_def)
next
  case (Inr r)
  let ?cat = "coalesce (map_option trim (ul_category dto)) (p_category r)"
  let ?sub = "case ul_subcategory dto of None \<Rightarrow> p_subcategory r | Some v \<Rightarrow> map_option trim v"
  show ?thesis
  proof (cases "assertCategoryPair ?cat ?sub False")
    case Inl': (Inl e)
    then show ?thesis using run Inr by (simp add: updateProduct_def with_transaction_def)
  next
    case Inr': (Inr v)
    have pair: "listing_pair (p_category (listing_set dto (clock s) r)) (p_subcategory (listing_set dto (clock s) r))"
      using assertCategoryPair_InrD [OF Inr'] by (simp add: listing_set_def)
    have "bind_h (sql_update_listing i (listing_set dto (clock s))) (\<lambda>_.
        bind_h (sync_if (syncProductImages (sub user) i) (ul_imageFileIds dto)) (\<lambda>_ t.
          (Inr (fetchProductWithImages t i), t))) s = (Inr y, s')"
      using with_transaction_InrE [OF run [unfolded updateProduct_def]] Inr Inr' by simp
    then show ?thesis using that [OF Inr pair] by (auto elim!: bind_h_InrE)
  qed
qed

lemma updateProduct_refused:
  assumes "updateProduct user i dto s = (Inl e, s')"
  shows "s' = s\<lparr>seqs := seqs s'\<rparr>" "seqs s' T_products = seqs s T_products"
proof -
  from assms obtain t where t: "s' = s\<lparr>seqs := seqs t\<rparr>" and body: "(case owned_listing s user i of
      Inl e \<Rightarrow> (Inl e, s)
    | Inr current \<Rightarrow>
        (case assertCategoryPair (coalesce (map_option trim (ul_category dto)) (p_category current))
                (case ul_subcategory dto of None \<Rightarrow> p_subcategory current | Some v \<Rightarrow> map_option trim v) False of
           Inl e \<Rightarrow> (Inl e, s)
         | Inr _ \<Rightarrow>
             bind_h (sql_update_listing i (listing_set dto (clock s))) (\<lambda>_.
             bind_h (sync_if (syncProductImages (sub user) i) (ul_imageFileIds dto)) (\<lambda>_ t.
             (Inr (fetchProductWithImages t i), t))) s)) = (Inl e, t)"
    unfolding updateProduct_def by (rule with_transaction_InlE)
  show "s' = s\<lparr>seqs := seqs s'\<rparr>" by (simp add: t)
  have upd: "seqs (snd (sql_update_listing i f s)) = seqs s" for f by (simp add: sql_update_listing_def Let_def)
  have "seqs (snd (bind_h (sql_update_listing i f) (\<lambda>_.
        bind_h (sync_if (syncProductImages (sub user) i) (ul_imageFileIds dto)) (\<lambda>_ t.
          (Inr (fetchProductWithImages t i), t))) s)) T_products = seqs s T_products" for f
  proof -
    obtain a s1 where a: "sql_update_listing i f s = (a, s1)" by (rule prod.exhaust)
    have "seqs (snd (bind_h (sync_if (syncProductImages (sub user) i) (ul_imageFileIds dto)) (\<lambda>_ t.
        (Inr (fetchProductWithImages t i), t)) s1)) T_products = seqs s T_products"
      using upd [of f] a sync_if_frame [of "sub user" i "ul_imageFileIds dto" s1] by (simp add: bind_h_read)
    then show ?thesis using a upd [of f] by (cases a) (simp_all add: handler)
  qed
  then have "seqs t T_products = seqs s T_products"
    using body by (metis (no_types, lifting) snd_conv old.sum.exhaust sum.case)
  then show "seqs s' T_products = seqs s T_products" by (simp add: t)
qed

lemma first_error_None: "first_error check xs = None \<longleftrightarrow> list_all (\<lambda>x. check x = None) xs"
  by (induction xs) (auto split: option.split)

text \<open>A file the actor may attach to a listing.\<close>

definition usable_image :: "db \<Rightarrow> int \<Rightarrow> int \<Rightarrow> bool" where
  "usable_image s actor fileId \<longleftrightarrow>
     (case row_by f_id fileId (files s) of
        None \<Rightarrow> False
      | Some f \<Rightarrow> f_purpose f = Purpose_product_image \<and> f_status f = File_uploaded \<and>
          toPositiveInt (id_js (f_uploader_user_id f)) = Some actor)"

lemma image_file_error_None: "image_file_error s actor fileId = None \<longleftrightarrow> usable_image s actor fileId"
  by (simp add: image_file_error_def usable_image_def split: option.split)

lemma map_filter_map_Some: "(\<And>x. x \<in> set xs \<Longrightarrow> f x = Some (g x)) \<Longrightarrow> List.map_filter f xs = map g xs"
  by (induction xs) (auto simp: map_filter_simps)

lemma new_images_files: "map pi_file_id (new_images s i fs) = fs"
  and new_images_orders: "map pi_sort_order (new_images s i fs) = map int [0..<length fs]"
  and new_images_owner: "m \<in> set (new_images s i fs) \<Longrightarrow> pi_product_id m = i \<and> pi_file_id m \<in> set fs"
proof -
  show "map pi_file_id (new_images s i fs) = fs"
    using map_snd_enumerate [of 0 fs] by (simp add: new_images_def comp_def case_prod_unfold)
  have "map pi_sort_order (new_images s i fs) = map int (map fst (enumerate 0 fs))"
    by (simp only: new_images_def map_map comp_def case_prod_unfold product_image.simps)
  then show "map pi_sort_order (new_images s i fs) = map int [0..<length fs]"
    by (simp only: map_fst_enumerate add_0)
  show "m \<in> set (new_images s i fs) \<Longrightarrow> pi_product_id m = i \<and> pi_file_id m \<in> set fs"
    by (auto simp: new_images_def in_set_enumerate_eq)
qed

lemma sync_images:
  assumes "syncProductImages actor i fs s = (Inr (), s')"
  shows "map iv_file_id (listing_images s' i) = fs" "map iv_sort_order (listing_images s' i) = map int [0..<length fs]"
    and "list_all (usable_image s actor) fs"
proof -
  let ?s1 = "s\<lparr>product_images := delete_where (\<lambda>m. pi_product_id m = i) (product_images s)\<rparr>"
  have none: "filter (\<lambda>m. pi_product_id m = i) (product_images ?s1) = []" by (auto simp: delete_where_def filter_empty_conv)
  have ok: "list_all (usable_image s actor) fs"
  proof (cases "fs = []")
    case False
    then have "first_error (image_file_error ?s1 actor) fs = None"
      using assms by (auto simp: syncProductImages_def Let_def split: option.split_asm)
    moreover have "usable_image ?s1 actor = usable_image s actor" by (simp add: usable_image_def fun_eq_iff)
    ultimately show ?thesis by (simp add: first_error_None image_file_error_None)
  qed simp
  then show "list_all (usable_image s actor) fs" .
  have rows: "filter (\<lambda>m. pi_product_id m = i) (product_images s') = new_images ?s1 i fs"
  proof (cases "fs = []")
    case True
    then show ?thesis using assms none by (auto simp: syncProductImages_def Let_def new_images_def)
  next
    case False
    have "filter (\<lambda>m. pi_product_id m = i) (new_images ?s1 i fs) = new_images ?s1 i fs"
      using new_images_owner by (simp add: filter_id_conv)
    then show ?thesis
      using assms none False by (auto simp: syncProductImages_def Let_def split: option.split_asm)
  qed
  have ids: "f_id ` set (files s') = f_id ` set (files s)"
  proof -
    have own: "f_id (own_file ''product'' i (clock s) f) = f_id f" for f by (simp add: own_file_def)
    have "files s' = files s \<or> files s' = update_where (\<lambda>f. List.member fs (f_id f)) (own_file ''product'' i (clock s)) (files s)"
      using assms by (auto simp: syncProductImages_def Let_def split: option.split_asm if_split_asm)
    then show ?thesis
      using update_where_image [of f_id "own_file ''product'' i (clock s)", OF own] by (elim disjE) simp_all
  qed
  have sorted: "sort_key pi_sort_order (new_images ?s1 i fs) = new_images ?s1 i fs"
    by (rule sort_key_id_if_sorted) (simp add: new_images_orders sorted_map)
  have found: "row_by f_id (pi_file_id m) (files s') \<noteq> None" if "m \<in> set (new_images ?s1 i fs)" for m
  proof -
    have "usable_image s actor (pi_file_id m)" using new_images_owner [OF that] ok by (simp add: list_all_iff)
    then have "row_by f_id (pi_file_id m) (files s) \<noteq> None" by (auto simp: usable_image_def split: option.split_asm)
    then show ?thesis using ids row_by_None_iff [of f_id "pi_file_id m"] by metis
  qed
  have views: "listing_images s' i =
      map (\<lambda>m. image_view_of m (the (row_by f_id (pi_file_id m) (files s')))) (new_images ?s1 i fs)"
    unfolding listing_images_def rows sorted by (rule map_filter_map_Some) (use found in force)
  show "map iv_file_id (listing_images s' i) = fs"
    using new_images_files [of ?s1 i fs] by (simp add: views image_view_of_def comp_def)
  show "map iv_sort_order (listing_images s' i) = map int [0..<length fs]"
    using new_images_orders [of ?s1 i fs] by (simp add: views image_view_of_def comp_def)
qed

section \<open>Reachable states\<close>

text \<open>
  A step is a request by a signed-in user (whose id is positive) or anything elsewhere in the program that
  leaves the listings alone.
\<close>

inductive listing_step :: "db \<Rightarrow> db \<Rightarrow> bool" where
  step_create: "0 < sub user \<Longrightarrow> listing_step s (snd (createProduct user dto s))"
| step_update: "listing_step s (snd (updateProduct user i dto' s))"
| step_delete: "listing_step s (snd (deleteProduct user i s))"
| step_status: "listing_step s (snd (updateProductStatus user i status s))"
| elsewhere: "products s' = products s \<Longrightarrow> seqs s T_products \<le> seqs s' T_products \<Longrightarrow> listing_step s s'"

lemma deleteProduct_products:
  "\<exists>p. products (snd (deleteProduct user i s)) = update_where p (\<lambda>r. r\<lparr>p_deleted_at := Some (clock s)\<rparr>) (products s) \<and>
    seqs (snd (deleteProduct user i s)) = seqs s"
proof (cases "owned_listing s user i")
  case (Inl e)
  then show ?thesis
    by (intro exI [of _ "\<lambda>_. False"]) (simp add: deleteProduct_def with_transaction_def update_where_none)
next
  case (Inr r)
  then show ?thesis
    by (intro exI [of _ "\<lambda>r. p_id r = i"]) (simp add: deleteProduct_def with_transaction_def)
qed

lemma updateProductStatus_products:
  "\<exists>p. products (snd (updateProductStatus user i st s)) =
      update_where p (\<lambda>r. r\<lparr>p_status := st, p_updated_at := clock s\<rparr>) (products s) \<and>
    seqs (snd (updateProductStatus user i st s)) = seqs s"
proof (cases "owned_listing s user i")
  case (Inl e)
  then show ?thesis
    by (intro exI [of _ "\<lambda>_. False"]) (simp add: updateProductStatus_def with_transaction_def update_where_none)
next
  case (Inr r)
  then show ?thesis
    by (intro exI [of _ "\<lambda>r. p_id r = i"]) (simp add: updateProductStatus_def with_transaction_def)
qed

lemma listing_ok_frame:
  "listing_ok r \<Longrightarrow> listing_ok (r\<lparr>p_deleted_at := d\<rparr>)"
  "listing_ok r \<Longrightarrow> listing_ok (r\<lparr>p_status := st, p_updated_at := t\<rparr>)"
  by (simp_all add: listing_ok_def p_check_def p_range_def abs_less_iff)

lemma update_step:
  assumes inv: "listing_inv s" and run: "updateProduct user i dto s = (Inr y, s')"
  shows "products s' = update_where (\<lambda>r. p_id r = i) (listing_set dto (clock s)) (products s)"
    and "seqs s' T_products = seqs s T_products" and "listing_inv s'"
proof -
  obtain r s1 where own: "owned_listing s user i = Inr r"
    and pair: "listing_pair (p_category (listing_set dto (clock s) r)) (p_subcategory (listing_set dto (clock s) r))"
    and upd: "sql_update_listing i (listing_set dto (clock s)) s = (Inr (), s1)"
    and img: "sync_if (syncProductImages (sub user) i) (ul_imageFileIds dto) s1 = (Inr (), s')"
    by (rule updateProduct_ok [OF run inv])
  note u = sql_update_listing_ok [OF upd]
  show prods: "products s' = update_where (\<lambda>r. p_id r = i) (listing_set dto (clock s)) (products s)"
    and seq: "seqs s' T_products = seqs s T_products"
    using sync_if_frame [of "sub user" i "ul_imageFileIds dto" s1] img u(1) by simp_all
  have r: "r \<in> set (products s)" "p_id r = i" using owned_listing_InrD [OF inv own] by simp_all
  have "listing_ok (listing_set dto (clock s) q)" if "q \<in> set (products s)" "p_id q = i" for q
  proof -
    have "q = r" using that r inv pk_unique [of p_id "seqs s T_products" "products s" q r] by (simp add: listing_inv_def)
    moreover have "0 < p_owner_id r" using r(1) inv by (simp add: listing_inv_def list_all_iff listing_ok_def)
    ultimately show ?thesis using pair u(2) [OF that] by (simp add: listing_ok_def)
  qed
  then show "listing_inv s'" by (intro inv_update [OF inv prods seq]) simp_all
qed

lemma listing_step_ok:
  assumes "listing_step s s'" and inv: "listing_inv s"
  shows "listing_inv s' \<and> listings_kept s s'"
proof -
  have ok: "listing_ok r" if "r \<in> set (products s)" for r
    using inv that by (simp add: listing_inv_def list_all_iff)
  show ?thesis using assms(1)
proof (cases rule: listing_step.cases)
  case (step_create user dto)
  obtain x t where run: "createProduct user dto s = (x, t)" by (rule prod.exhaust)
  from run step_create(2) show ?thesis
  proof (cases rule: createProduct_cases)
    case (refused e)
    then show ?thesis using step_create(1) run inv inv_frame [OF inv, of t] kept_same [OF inv, of t "[]"] by simp
  next
    case (created r y)
    have "listing_inv t" using inv created pk_insert [of p_id "seqs s T_products" "products s" r]
      by (simp add: listing_inv_def)
    then show ?thesis using step_create(1) run kept_same [OF inv created(2)] by simp
  qed
next
  case (step_update user i dto)
  obtain x t where run: "updateProduct user i dto s = (x, t)" by (rule prod.exhaust)
  show ?thesis
  proof (cases x)
    case (Inl e)
    note ref = updateProduct_refused [OF run [unfolded Inl]]
    have "products t = products s" by (subst ref(1)) simp
    then show ?thesis using step_update run ref(2) inv_frame [OF inv, of t] kept_same [OF inv, of t "[]"] by simp
  next
    case (Inr y)
    note st = update_step [OF inv run [unfolded Inr]]
    then show ?thesis using step_update run kept_update [OF inv st(1)] by (simp add: listing_kept_def)
  qed
next
  case (step_delete user i)
  obtain p where p: "products s' = update_where p (\<lambda>r. r\<lparr>p_deleted_at := Some (clock s)\<rparr>) (products s)" "seqs s' = seqs s"
    using deleteProduct_products [of user i s] step_delete by auto
  have "listing_inv s'"
    by (rule inv_update [OF inv p(1)]) (use ok p(2) in \<open>simp_all add: listing_ok_frame\<close>)
  then show ?thesis using kept_update [OF inv p(1)] by (simp add: listing_kept_def)
next
  case (step_status user i st)
  obtain p where p: "products s' = update_where p (\<lambda>r. r\<lparr>p_status := st, p_updated_at := clock s\<rparr>) (products s)" "seqs s' = seqs s"
    using updateProductStatus_products [of user i st s] step_status by auto
  have "listing_inv s'"
    by (rule inv_update [OF inv p(1)]) (use ok p(2) in \<open>simp_all add: listing_ok_frame\<close>)
  then show ?thesis using kept_update [OF inv p(1)] by (simp add: listing_kept_def)
next
  case elsewhere
  then show ?thesis using inv_frame [OF inv, of s'] kept_same [OF inv, of s' "[]"] by simp
qed
qed

text \<open>
  However listings are created, changed, withdrawn and deleted, every row keeps the category and
  subcategory the taxonomy allows and meets the constraints of its table, every row stays on record with its
  id, owner and creation time, and a deleted one stays deleted.
\<close>

theorem listings_stay_classified:
  assumes "listing_step\<^sup>*\<^sup>* s s'" and "listing_inv s"
  shows "listing_inv s' \<and> listings_kept s s'"
  using assms(1)
proof (induction rule: rtranclp_induct)
  case base
  then show ?case using assms(2) kept_same [OF assms(2), of s "[]"] by simp
next
  case (step t u)
  then show ?case using listing_step_ok [OF step.hyps(2)] listings_kept_trans by blast
qed

section \<open>Changing and searching\<close>

text \<open>
  A listing is changed by its owner alone. A successful \<open>updateProduct\<close> by a user rewrites exactly the
  live listing of that id, which is theirs, answers with the row as changed, and when images are given the
  listing then shows exactly these files in the given order, each an uploaded product image of this very user.
  A refused one leaves every table as it was.
\<close>

theorem updateProduct_owner:
  assumes inv: "listing_inv s" and run: "updateProduct user i dto s = (x, s')"
  shows "if is_ok x
    then (\<exists>r. live_listing s i = Some r \<and> p_owner_id r = sub user \<and>
        products s' = update_where (\<lambda>q. p_id q = i) (listing_set dto (clock s)) (products s) \<and>
        x = Inr (Some (listing_set dto (clock s) r, listing_images s' i)) \<and>
        (case ul_imageFileIds dto of
           None \<Rightarrow> product_images s' = product_images s \<and> files s' = files s
         | Some fs \<Rightarrow> map iv_file_id (listing_images s' i) = fs \<and> list_all (usable_image s (sub user)) fs))
    else s' = s\<lparr>seqs := seqs s'\<rparr>"
proof (cases x)
  case (Inl e)
  then show ?thesis using updateProduct_refused(1) [of user i dto s e s'] run by simp
next
  case (Inr y)
  note run' = run [unfolded Inr]
  obtain r s1 where own: "owned_listing s user i = Inr r"
    and upd: "sql_update_listing i (listing_set dto (clock s)) s = (Inr (), s1)"
    and img: "sync_if (syncProductImages (sub user) i) (ul_imageFileIds dto) s1 = (Inr (), s')"
    and y: "y = fetchProductWithImages s' i"
    by (rule updateProduct_ok [OF run' inv])
  note prods = update_step [OF inv run']
  note r = owned_listing_InrD [OF inv own]
  have s1: "s1 = s\<lparr>products := update_where (\<lambda>q. p_id q = i) (listing_set dto (clock s)) (products s)\<rparr>"
    by (rule sql_update_listing_ok [OF upd])
  have "live_listing s' i = map_option (\<lambda>q. if p_id q = i then listing_set dto (clock s) q else q) (live_listing s i)"
    unfolding live_listing_def prods(1) by (rule find_update_where) simp
  then have "live_listing s' i = Some (listing_set dto (clock s) r)" using r by simp
  then have "y = Some (listing_set dto (clock s) r, listing_images s' i)" by (simp add: y fetchProductWithImages_def)
  moreover have "case ul_imageFileIds dto of
           None \<Rightarrow> product_images s' = product_images s \<and> files s' = files s
         | Some fs \<Rightarrow> map iv_file_id (listing_images s' i) = fs \<and> list_all (usable_image s (sub user)) fs"
  proof (cases "ul_imageFileIds dto")
    case None
    then have "s' = s1" using img by (simp add: sync_if_def)
    then show ?thesis using None by (simp add: s1)
  next
    case (Some fs)
    then have sync: "syncProductImages (sub user) i fs s1 = (Inr (), s')" using img by (simp add: sync_if_def)
    have "usable_image s1 (sub user) = usable_image s (sub user)" by (simp add: s1 usable_image_def fun_eq_iff)
    then show ?thesis using Some sync_images [OF sync] by simp
  qed
  ultimately show ?thesis using Inr r prods(1) by simp
qed

text \<open>
  A search answers with an error exactly when it names a category and a subcategory that do not belong
  together. Otherwise the answer is one page of the listings that are live, available and meet every filter
  given, in the order asked for, newest id first among equals: no text of the request acts as a wildcard,
  and the rating shown and filtered by is the rounded average of the ratings of the seller.
\<close>

theorem searchProducts_sound:
  "(is_ok (searchProducts tx s dto) \<longleftrightarrow>
      falsy (sl_category dto) \<or> falsy (sl_subcategory dto) \<or>
      isValidSubcategory (the (sl_category dto)) (the (sl_subcategory dto))) \<and>
   (case searchProducts tx s dto of
      Inl e \<Rightarrow> http_status e = 400
    | Inr items \<Rightarrow> sorted (map (resolveSort tx dto) items) \<and> length items \<le> 100 \<and>
        list_all (\<lambda>v. List.member (products s) (lv_listing v) \<and> p_deleted_at (lv_listing v) = None \<and>
          p_status (lv_listing v) = Listing_available \<and>
          lv_seller_rate v = seller_rate s (p_owner_id (lv_listing v)) \<and>
          unless_falsy (sl_category dto) (\<lambda>c. p_category (lv_listing v) = c) \<and>
          unless_falsy (sl_city dto) (\<lambda>c. sublist (lower c) (lower (p_city (lv_listing v)))) \<and>
          unless_falsy (sl_addressText dto) (\<lambda>c. sublist (lower c) (lower (p_address_text (lv_listing v)))) \<and>
          opt_holds (sl_minPrice dto) (\<lambda>b. b \<le> p_price (lv_listing v)) \<and>
          opt_holds (sl_maxPrice dto) (\<lambda>b. p_price (lv_listing v) \<le> b) \<and>
          opt_holds (sl_minRate dto) (\<lambda>b. b \<le> lv_seller_rate v)) items)"
  (is "?iff \<and> (case ?run of Inl e \<Rightarrow> _ e | Inr items \<Rightarrow> _ items \<and> _ items \<and> list_all ?row items)")
proof (cases "assertSearchCategoryPair (sl_category dto) (sl_subcategory dto)")
  case (Inl e)
  then show ?thesis
    by (auto simp: searchProducts_def assertSearchCategoryPair_def assertCategoryPair_def isValidSubcategory_def falsy_def
        split: if_split_asm option.split_asm option.split)
next
  case (Inr u)
  let ?sel = "filter (\<lambda>v. p_status (lv_listing v) = Listing_available \<and> buildSearchFilters tx False dto v) (listing_views s)"
  let ?items = "paged (page_query.truncate dto) DEFAULT_PAGE_SIZE 100 (sort_key (resolveSort tx dto) ?sel)"
  have ok: "searchProducts tx s dto = Inr ?items" using Inr by (simp add: searchProducts_def)
  have sub: "set ?items \<subseteq> set ?sel"
    using paged_subset [of "page_query.truncate dto" DEFAULT_PAGE_SIZE 100 "sort_key (resolveSort tx dto) ?sel"] by simp
  have "falsy (sl_category dto) \<or> falsy (sl_subcategory dto) \<or>
      isValidSubcategory (the (sl_category dto)) (the (sl_subcategory dto))"
    using Inr by (auto simp: assertSearchCategoryPair_def assertCategoryPair_def falsy_def
        split: if_split_asm option.split_asm)
  moreover have "sorted (map (resolveSort tx dto) ?items)" by (rule paged_sorted) simp
  moreover have "length ?items \<le> 100"
    using paged_length [of 100 "page_query.truncate dto" DEFAULT_PAGE_SIZE "sort_key (resolveSort tx dto) ?sel"] by simp
  moreover have "list_all ?row ?items"
    unfolding list_all_iff
  proof
    fix v
    assume "v \<in> set ?items"
    then have sel: "v \<in> set ?sel" using sub by blast
    then obtain r where v: "v = listing_view_of s r" "r \<in> set (products s)" "p_deleted_at r = None"
      by (auto simp: listing_views_def)
    show "?row v" using sel v(2,3)
      by (simp add: v(1) listing_view_of_def buildSearchFilters_def Let_def ilike_contains_pattern)
  qed
  ultimately show ?thesis by (simp only: ok sum.case is_ok_simps)
qed

section \<open>Examples\<close>

definition sample_create_listing :: create_listing where
  "sample_create_listing =
     \<lparr>cl_category = '' electronics '', cl_subcategory = Some ''cameras'', cl_name = ''Camera'', cl_description = ''Used'',
      cl_price = 150000, cl_city = ''Cairo'', cl_addressText = ''Dokki'', cl_details = None, cl_imageFileIds = Some [7],
      cl_isNegotiable = None, cl_preferredContactMethod = None\<rparr>"

definition sample_update_listing :: update_listing where
  "sample_update_listing =
     \<lparr>ul_category = None, ul_subcategory = Some (Some ''tablets''), ul_name = Some ''Tablet'', ul_description = None,
      ul_price = None, ul_city = None, ul_addressText = None, ul_details = None, ul_imageFileIds = Some [8, 7],
      ul_isNegotiable = None, ul_preferredContactMethod = None\<rparr>"

definition listing_db :: db where
  "listing_db = snd (createProduct sample_customer sample_create_listing sample_db)"

lemma listing_inv_empty: "products s = [] \<Longrightarrow> listing_inv s"
  by (simp add: listing_inv_def)

lemma listing_db_inv: "listing_inv listing_db"
  using listing_step_ok [of sample_db listing_db] listing_step.step_create [of sample_customer sample_db sample_create_listing]
  by (simp add: listing_db_def listing_inv_empty sample_db_def empty_db_def)

lemma sample_update_ok: "is_ok (fst (updateProduct sample_customer 1 sample_update_listing listing_db))"
  by code_simp

theorem listings_stay_classified_witness:
  "listing_inv (snd (updateProduct sample_customer 1 sample_update_listing listing_db)) \<and>
   listings_kept listing_db (snd (updateProduct sample_customer 1 sample_update_listing listing_db))"
  by (rule listings_stay_classified [OF r_into_rtranclp, OF step_update listing_db_inv])

theorem updateProduct_owner_witness:
  "\<exists>x s'. updateProduct sample_customer 1 sample_update_listing listing_db = (x, s') \<and> is_ok x \<and>
     map iv_file_id (listing_images s' 1) = [8, 7]"
proof -
  obtain x s' where run: "updateProduct sample_customer 1 sample_update_listing listing_db = (x, s')" by (rule prod.exhaust)
  then have "is_ok x" using sample_update_ok by simp
  then show ?thesis using updateProduct_owner [OF listing_db_inv run] run by (auto simp: sample_update_listing_def)
qed

end
