(* ===== verification/Accounts.thy ===== *)
theory Accounts
  imports Auth Listings
begin

text \<open>
  User accounts after registration: the profile of \<open>UsersService\<close> (\<open>src/users/users.service.ts\<close>) with the
  read URLs of \<open>FileReadUrlService\<close> (\<open>src/files/file-read-url.service.ts\<close>), the administration of users in
  \<open>AdminService\<close> (\<open>src/admin/admin.service.ts\<close>) and the seeding of the first administrator
  (\<open>src/admin/admin-seeder.ts\<close>). Operations that touch Redis act on \<open>auth_state\<close>, the others on the database.
\<close>

section \<open>Read URLs\<close>

definition resolveFormat :: "string \<Rightarrow> string option" where
  "resolveFormat mimeType =
     (if mimeType = [] \<or> \<not> starts_with mimeType ''image/'' \<and> \<not> starts_with mimeType ''video/'' then None
      else
        let subtype = lower (hd (split_on (CHR ''+'') (split_on (CHR ''/'') mimeType ! 1))) in
        if subtype = [] then None else if subtype = ''jpeg'' then Some ''jpg'' else Some subtype)"

definition buildReadUrl :: "app_config \<Rightarrow> string \<Rightarrow> string \<Rightarrow> string" where
  "buildReadUrl cfg objectKey mimeType =
     (let resourceType = (if starts_with mimeType ''image/'' then ''image''
             else if starts_with mimeType ''video/'' then ''video'' else ''raw'');
          publicIdWithOptionalFormat =
            (case resolveFormat mimeType of None \<Rightarrow> objectKey | Some format \<Rightarrow> objectKey @ ''.'' @ format)
      in ''https://res.cloudinary.com/'' @ cloudinaryCloudName cfg @ ''/'' @ resourceType @ ''/upload/'' @
         publicIdWithOptionalFormat)"

section \<open>Profiles\<close>

record avatar_view =
  vv_id :: int
  vv_purpose :: file_purpose
  vv_object_key :: string
  vv_mime_type :: "string option"
  vv_status :: file_status
  vv_created_at :: time
  vv_uploaded_at :: "time option"
  vv_url :: string

text \<open>The avatar of \<open>LEFT JOIN files f ON f.id = u.avatar_file_id\<close>.\<close>

definition buildAvatarFile :: "app_config \<Rightarrow> db \<Rightarrow> user \<Rightarrow> avatar_view option" where
  "buildAvatarFile cfg s u =
     (case u_avatar_file_id u of
        None \<Rightarrow> None
      | Some fileId \<Rightarrow>
          (case row_by f_id fileId (files s) of
             None \<Rightarrow> None
           | Some f \<Rightarrow>
               if f_object_key f = [] then None
               else Some \<lparr>vv_id = fileId, vv_purpose = f_purpose f, vv_object_key = f_object_key f,
                 vv_mime_type = f_mime_type f, vv_status = f_status f, vv_created_at = f_created_at f,
                 vv_uploaded_at = f_uploaded_at f,
                 vv_url = buildReadUrl cfg (f_object_key f) (coalesce (f_mime_type f) [])\<rparr>))"

record profile =
  pf_user :: app_user
  pf_rate :: int
  pf_contactInfo :: "string option"
  pf_avatar :: "avatar_view option"

definition getMe :: "app_config \<Rightarrow> db \<Rightarrow> auth_user \<Rightarrow> profile result" where
  "getMe cfg s user =
     (case live_user s (sub user) of
        None \<Rightarrow> Inl (NotFound ''User not found'')
      | Some u \<Rightarrow> Inr \<lparr>pf_user = mapToAppUser (user_js u), pf_rate = seller_rate s (u_id u),
          pf_contactInfo = u_contact_info u, pf_avatar = buildAvatarFile cfg s u\<rparr>)"

text \<open>The columns of a row selected without the e-mail.\<close>

definition user_brief_js :: "user \<Rightarrow> js" where
  "user_brief_js u = Obj [(''id'', Str (show_int (u_id u))), (''name'', Str (u_name u)), (''phone'', opt_str (u_phone u)),
     (''status'', Str (user_status_text (u_status u)))]"

record public_profile = profile +
  pf_created_at :: time
  pf_ads_count :: int
  pf_products :: "listing_view list"

definition published_count :: "db \<Rightarrow> int \<Rightarrow> int" where
  "published_count s userId =
     int (length (filter (\<lambda>p. p_owner_id p = userId \<and> p_deleted_at p = None) (products s)))"

definition getPublicProfile :: "app_config \<Rightarrow> db \<Rightarrow> int \<Rightarrow> page_query \<Rightarrow> public_profile result" where
  "getPublicProfile cfg s userId dto =
     (case live_user s userId of
        None \<Rightarrow> Inl (NotFound ''User not found'')
      | Some u \<Rightarrow> Inr \<lparr>pf_user = mapToAppUser (user_brief_js u), pf_rate = seller_rate s (u_id u),
          pf_contactInfo = u_contact_info u, pf_avatar = buildAvatarFile cfg s u, pf_created_at = u_created_at u,
          pf_ads_count = published_count s userId,
          pf_products = paged dto DEFAULT_PAGE_SIZE 50 (sort_key (\<lambda>v. - p_created_at (lv_listing v))
            (filter (\<lambda>v. p_owner_id (lv_listing v) = userId \<and> p_status (lv_listing v) = Listing_available)
               (listing_views s)))\<rparr>)"

text \<open>In a profile update the outer option says whether the field is present, the inner one whether it is \<open>null\<close>.\<close>

record update_profile =
  up_name :: "string option option"
  up_avatarFileId :: "int option option"
  up_contactInfo :: "string option option"
  up_phone :: "string option option"
  up_address :: "string option option"

definition given :: "'a option option \<Rightarrow> 'a option" where
  "given v = (case v of None \<Rightarrow> None | Some x \<Rightarrow> x)"

definition avatar_error :: "db \<Rightarrow> auth_user \<Rightarrow> int \<Rightarrow> http_error option" where
  "avatar_error s user fileId =
     (case row_by f_id fileId (files s) of
        None \<Rightarrow> Some (NotFound ''Avatar file not found'')
      | Some f \<Rightarrow>
          if toPositiveInt (id_js (f_uploader_user_id f)) \<noteq> Some (sub user)
          then Some (Forbidden ''Not allowed to use this file'')
          else if f_status f \<noteq> File_uploaded \<or> f_purpose f \<noteq> Purpose_avatar
          then Some (BadRequest ''Avatar file must be an uploaded avatar'')
          else None)"

definition profile_set :: "update_profile \<Rightarrow> time \<Rightarrow> user \<Rightarrow> user" where
  "profile_set dto now u =
     u\<lparr>u_name := coalesce (given (up_name dto)) (u_name u),
       u_avatar_file_id := (if up_avatarFileId dto \<noteq> None then given (up_avatarFileId dto) else u_avatar_file_id u),
       u_contact_info := (if up_contactInfo dto \<noteq> None then given (up_contactInfo dto) else u_contact_info u),
       u_phone := (if up_phone dto \<noteq> None then given (up_phone dto) else u_phone u),
       u_address := (if up_address dto \<noteq> None then given (up_address dto) else u_address u),
       u_updated_at := now\<rparr>"

definition update_live_user :: "int \<Rightarrow> (user \<Rightarrow> user) \<Rightarrow> db \<Rightarrow> db" where
  "update_live_user userId f s =
     s\<lparr>users := update_where (\<lambda>u. u_id u = userId \<and> u_deleted_at u = None) f (users s)\<rparr>"

text \<open>Some row violates a uniqueness constraint after the change: the phone, or the e-mail of a live account.\<close>

definition phone_taken :: "db \<Rightarrow> int \<Rightarrow> string option \<Rightarrow> bool" where
  "phone_taken s userId phone \<longleftrightarrow> phone \<noteq> None \<and> list_ex (\<lambda>v. u_id v \<noteq> userId \<and> u_phone v = phone) (users s)"

definition updateMe :: "app_config \<Rightarrow> auth_user \<Rightarrow> update_profile \<Rightarrow> (db, profile) handler" where
  "updateMe cfg user dto s =
     (if up_name dto = None \<and> up_avatarFileId dto = None \<and> up_contactInfo dto = None \<and> up_phone dto = None \<and>
         up_address dto = None
      then (Inl (BadRequest ''Nothing to update''), s)
      else if given (up_phone dto) \<noteq> None \<and>
         list_ex (\<lambda>v. u_phone v = given (up_phone dto) \<and> u_id v \<noteq> sub user \<and> u_deleted_at v = None) (users s)
      then (Inl (Conflict ''Phone already exists''), s)
      else (case (case given (up_avatarFileId dto) of None \<Rightarrow> None | Some fileId \<Rightarrow> avatar_error s user fileId) of
          Some e \<Rightarrow> (Inl e, s)
        | None \<Rightarrow>
            if live_user s (sub user) \<noteq> None \<and> up_phone dto \<noteq> None \<and> phone_taken s (sub user) (given (up_phone dto))
            then (Inl (Conflict ''Phone already exists''), s)
            else let s' = update_live_user (sub user) (profile_set dto (clock s)) s in (getMe cfg s' user, s')))"

definition changePassword :: "'tok crypto \<Rightarrow> randoms \<Rightarrow> auth_user \<Rightarrow> string \<Rightarrow> string \<Rightarrow> (db, string) handler" where
  "changePassword c rnd user oldPassword newPassword s =
     (case live_user s (sub user) of
        None \<Rightarrow> (Inl (NotFound ''User not found''), s)
      | Some u \<Rightarrow>
          if \<not> bcrypt_compare c oldPassword (u_password_hash u)
          then (Inl (BadRequest ''Invalid old password''), s)
          else (Inr ''Password changed successfully'',
                update_live_user (sub user)
                  (set_password (bcrypt_hash c (rnd_bcrypt_salt rnd) newPassword) (clock s)) s))"

definition deleteAvatar :: "app_config \<Rightarrow> auth_user \<Rightarrow> (db, profile) handler" where
  "deleteAvatar cfg user s =
     (if live_user s (sub user) = None then (Inl (NotFound ''User not found''), s)
      else let s' = update_live_user (sub user) (\<lambda>u. u\<lparr>u_avatar_file_id := None, u_updated_at := clock s\<rparr>) s
           in (getMe cfg s' user, s'))"

definition retire :: "time \<Rightarrow> user \<Rightarrow> user" where
  "retire now u = u\<lparr>u_deleted_at := Some now, u_token_version := u_token_version u + 1, u_updated_at := now\<rparr>"

definition deleteMe :: "auth_user \<Rightarrow> (db, string) handler" where
  "deleteMe user s =
     (if live_user s (sub user) = None then (Inl (NotFound ''User not found''), s)
      else (Inr ''Account deleted'', update_live_user (sub user) (retire (clock s)) s))"

section \<open>Administration\<close>

text \<open>The audit trail: a failed insertion is logged and forgotten.\<close>

definition logAdminAction :: "int \<Rightarrow> string \<Rightarrow> int \<Rightarrow> db \<Rightarrow> db" where
  "logAdminAction actorId action targetId s =
     (let s1 = bump T_audit_logs s in
      if has_key u_id actorId (users s)
      then s1\<lparr>audit_logs := audit_logs s @ [\<lparr>al_id = seqs s T_audit_logs, al_actor_id = actorId, al_action = action,
             al_target_id = targetId\<rparr>]\<rparr>
      else s1)"

definition user_status_key :: "int \<Rightarrow> string" where
  "user_status_key userId = ''user:status:'' @ show_int userId"

record admin_user =
  du_user :: app_user
  du_is_admin :: bool
  du_created_at :: time
  du_updated_at :: time

definition admin_user_of :: "user \<Rightarrow> admin_user" where
  "admin_user_of u =
     \<lparr>du_user = mapToAppUser (user_brief_js u), du_is_admin = u_is_admin u, du_created_at = u_created_at u,
      du_updated_at = u_updated_at u\<rparr>"

record list_users_query = page_query +
  lu_status :: "user_status option"
  lu_q :: "string option"

text \<open>A condition on a \<open>NULL\<close> phone is not met.\<close>

definition user_where :: "list_users_query \<Rightarrow> user \<Rightarrow> bool" where
  "user_where q u \<longleftrightarrow>
     opt_holds (lu_status q) (\<lambda>st. u_status u = st) \<and>
     unless_falsy (lu_q q) (\<lambda>t. ilike (u_name u) (contains_pattern t) \<or>
       (case u_phone u of None \<Rightarrow> False | Some ph \<Rightarrow> ilike ph (contains_pattern t))) \<and>
     u_deleted_at u = None"

definition listUsers :: "db \<Rightarrow> list_users_query \<Rightarrow> (admin_user \<times> int) list" where
  "listUsers s q =
     map (\<lambda>u. (admin_user_of u, published_count s (u_id u)))
       (paged (page_query.truncate q) 50 100
          (sort_key (\<lambda>u. - u_created_at u) (filter (user_where q) (users s))))"

definition getUserDetails :: "db \<Rightarrow> int \<Rightarrow> (admin_user \<times> user_status \<times> int option \<times> string option) result" where
  "getUserDetails s userId =
     (case live_user s userId of
        None \<Rightarrow> Inl (NotFound ''User not found'')
      | Some u \<Rightarrow> Inr (admin_user_of u, u_status u, u_avatar_file_id u, u_contact_info u))"

definition first_uploaded_image :: "db \<Rightarrow> int \<Rightarrow> int option" where
  "first_uploaded_image s productId =
     map_option iv_file_id (find (\<lambda>v. iv_status v = File_uploaded) (listing_images s productId))"

definition listUserListings ::
  "db \<Rightarrow> int \<Rightarrow> page_query \<Rightarrow> listing_status option \<Rightarrow> (listing \<times> int option) list result" where
  "listUserListings s userId q status =
     (case assertUserExists s userId ''User'' of
        Inl e \<Rightarrow> Inl e
      | Inr _ \<Rightarrow> Inr (map (\<lambda>p. (p, first_uploaded_image s (p_id p)))
          (paged q DEFAULT_PAGE_SIZE 100 (sort_key (\<lambda>p. - p_created_at p)
            (filter (\<lambda>p. p_owner_id p = userId \<and> p_deleted_at p = None \<and>
               (p_status p = Listing_available \<or> p_status p = Listing_sold) \<and>
               opt_holds status (\<lambda>st. p_status p = st)) (products s))))))"

definition listAdmins :: "db \<Rightarrow> page_query \<Rightarrow> admin_user list" where
  "listAdmins s q =
     map admin_user_of (paged q DEFAULT_PAGE_SIZE 100
       (sort_key (\<lambda>u. - u_created_at u) (filter (\<lambda>u. u_is_admin u \<and> u_deleted_at u = None) (users s))))"

definition set_admin :: "bool \<Rightarrow> time \<Rightarrow> user \<Rightarrow> user" where
  "set_admin flag now u = u\<lparr>u_is_admin := flag, u_token_version := u_token_version u + 1, u_updated_at := now\<rparr>"

definition promoteAdmin :: "auth_user \<Rightarrow> int \<Rightarrow> (db, admin_user \<times> int) handler" where
  "promoteAdmin admin userId s =
     (case live_user s userId of
        None \<Rightarrow> (Inl (NotFound ''User not found''), s)
      | Some u \<Rightarrow>
          if u_is_admin u then (Inl (Conflict ''User is already an admin''), s)
          else (Inr (admin_user_of (set_admin True (clock s) u), u_token_version u + 1),
                logAdminAction (sub admin) ''promote_admin'' userId
                  (update_live_user userId (set_admin True (clock s)) s)))"

definition demoteAdmin :: "auth_user \<Rightarrow> int \<Rightarrow> (db, admin_user \<times> int) handler" where
  "demoteAdmin admin userId s =
     (if sub admin = userId then (Inl (BadRequest ''Admins cannot demote themselves''), s)
      else (case live_user s userId of
          None \<Rightarrow> (Inl (NotFound ''User not found''), s)
        | Some u \<Rightarrow>
            if \<not> u_is_admin u then (Inl (Conflict ''User is not an admin''), s)
            else (Inr (admin_user_of (set_admin False (clock s) u), u_token_version u + 1),
                  logAdminAction (sub admin) ''demote_admin'' userId
                    (update_live_user userId (set_admin False (clock s)) s))))"

definition set_status :: "user_status \<Rightarrow> time \<Rightarrow> user \<Rightarrow> user" where
  "set_status status now u = u\<lparr>u_status := status, u_updated_at := now\<rparr>"

text \<open>The two requests that end with the deletion of a Redis key; a Redis failure surfaces after the change.\<close>

definition drop_status_key :: "int \<Rightarrow> 'a \<Rightarrow> (auth_state, 'a) handler" where
  "drop_status_key userId answer st =
     (case st of (r, s) \<Rightarrow>
        (case redis_del (user_status_key userId) r of
           (Inl e, r') \<Rightarrow> (Inl e, (r', s))
         | (Inr _, r') \<Rightarrow> (Inr answer, (r', s))))"

definition updateUserStatus :: "auth_user \<Rightarrow> int \<Rightarrow> user_status \<Rightarrow> (auth_state, admin_user) handler" where
  "updateUserStatus admin userId status st =
     (case st of (r, s) \<Rightarrow>
        (case live_user s userId of
           None \<Rightarrow> (Inl (NotFound ''User not found''), st)
         | Some u \<Rightarrow>
             drop_status_key userId (admin_user_of (set_status status (clock s) u))
               (r, logAdminAction (sub admin) ''update_user_status'' userId
                     (update_live_user userId (set_status status (clock s)) s))))"

definition deleteUser :: "auth_user \<Rightarrow> int \<Rightarrow> (auth_state, string) handler" where
  "deleteUser admin userId st =
     (case st of (r, s) \<Rightarrow>
        (case live_user s userId of
           None \<Rightarrow> (Inl (NotFound ''User not found''), st)
         | Some u \<Rightarrow>
             drop_status_key userId ''User deleted''
               (r, logAdminAction (sub admin) ''delete_user'' userId (update_live_user userId (retire (clock s)) s))))"

definition createWarning :: "auth_user \<Rightarrow> int \<Rightarrow> string \<Rightarrow> (db, admin_warning) handler" where
  "createWarning admin targetUserId text s =
     (case assertUserExists s targetUserId ''Target user'' of
        Inl e \<Rightarrow> (Inl e, s)
      | Inr _ \<Rightarrow>
          let s1 = bump T_admin_warnings s;
              w = \<lparr>aw_id = seqs s T_admin_warnings, aw_admin_id = sub admin, aw_target_user_id = targetUserId,
                   aw_message = text, aw_created_at = clock s\<rparr>
          in if \<not> has_key u_id (sub admin) (users s) \<or> \<not> has_key u_id targetUserId (users s)
             then (Inl (NotFound ''Target user not found''), s1)
             else (Inr w, logAdminAction (sub admin) ''create_warning'' targetUserId
                     (s1\<lparr>admin_warnings := admin_warnings s @ [w]\<rparr>)))"

section \<open>Seeding the first administrator\<close>

record admin_seed_input =
  si_email :: string
  si_phone :: "string option"
  si_password :: string

definition is_letter :: "char \<Rightarrow> bool" where
  "is_letter c \<longleftrightarrow> (let n = (of_char c :: nat) in 65 \<le> n \<and> n \<le> 90 \<or> 97 \<le> n \<and> n \<le> 122)"

text \<open>\<open>/^[^\s@]+@[^\s@]+\.[^\s@]+$/\<close>: one \<open>@\<close>, no white space, and a dot strictly inside the domain.\<close>

definition ADMIN_EMAIL_REGEX :: "string \<Rightarrow> bool" where
  "ADMIN_EMAIL_REGEX s \<longleftrightarrow>
     (case split_on (CHR ''@'') s of
        [localpart, domain] \<Rightarrow> localpart \<noteq> [] \<and> list_all (\<lambda>c. \<not> is_space c) s \<and>
          list_ex (\<lambda>c. c = CHR ''.'') (butlast (tl domain))
      | _ \<Rightarrow> False)"

text \<open>\<open>/^\+?[1-9]\d{7,15}$/\<close>.\<close>

definition ADMIN_PHONE_REGEX :: "string \<Rightarrow> bool" where
  "ADMIN_PHONE_REGEX s \<longleftrightarrow>
     (let ds = (if starts_with s ''+'' then tl s else s) in
      list_all is_digit ds \<and> ds \<noteq> [] \<and> hd ds \<noteq> CHR ''0'' \<and> 8 \<le> length ds \<and> length ds \<le> 16)"

text \<open>\<open>/^(?=.*[A-Za-z])(?=.*\d).+$/\<close>: a letter and a digit, and no line terminator.\<close>

definition ADMIN_PASSWORD_REGEX :: "string \<Rightarrow> bool" where
  "ADMIN_PASSWORD_REGEX s \<longleftrightarrow>
     list_all (\<lambda>c. c \<noteq> CHR 0x0A \<and> c \<noteq> CHR 0x0D) s \<and> list_ex is_letter s \<and> list_ex is_digit s"

definition parseAdminSeedInput :: "env \<Rightarrow> admin_seed_input result" where
  "parseAdminSeedInput env =
     (let phone = trim (coalesce (env ''ADMIN_PHONE'') []);
          email = lower (trim (coalesce (env ''ADMIN_EMAIL'') []));
          password = coalesce (env ''ADMIN_PASSWORD'') []
      in if email = [] then Inl (PlainError ''ADMIN_EMAIL is required'')
         else if \<not> ADMIN_EMAIL_REGEX email then Inl (PlainError ''ADMIN_EMAIL must be a valid email address'')
         else if phone \<noteq> [] \<and> \<not> ADMIN_PHONE_REGEX phone
         then Inl (PlainError ''ADMIN_PHONE must be a valid E.164-like phone number'')
         else if password = [] then Inl (PlainError ''ADMIN_PASSWORD is required'')
         else if length password < 8 \<or> 64 < length password
         then Inl (PlainError ''ADMIN_PASSWORD must be between 8 and 64 characters'')
         else if \<not> ADMIN_PASSWORD_REGEX password then Inl (PlainError ''ADMIN_PASSWORD must contain letters and numbers'')
         else Inr \<lparr>si_email = email, si_phone = (if phone = [] then None else Some phone), si_password = password\<rparr>)"

record seeded_admin =
  sa_id :: int
  sa_email :: "string option"
  sa_phone :: "string option"
  sa_created :: bool

definition seed_matches :: "string \<Rightarrow> string option \<Rightarrow> user \<Rightarrow> bool" where
  "seed_matches email phone u \<longleftrightarrow> same_email email (u_email u) \<or> phone \<noteq> None \<and> u_phone u = phone"

definition new_admin :: "string \<Rightarrow> string option \<Rightarrow> string \<Rightarrow> int \<Rightarrow> time \<Rightarrow> user" where
  "new_admin email phone passwordHash ident now =
     \<lparr>u_id = ident, u_name = ''Primary Admin'', u_phone = phone, u_email = Some (lower email), u_address = None,
      u_password_hash = passwordHash, u_avatar_file_id = None, u_contact_info = None, u_status = User_active,
      u_is_admin = True, u_token_version = 0, u_deleted_at = None, u_created_at = now, u_updated_at = now\<rparr>"

definition admin_set :: "string \<Rightarrow> string option \<Rightarrow> string \<Rightarrow> time \<Rightarrow> user \<Rightarrow> user" where
  "admin_set email phone passwordHash now u =
     u\<lparr>u_password_hash := passwordHash, u_status := User_active, u_is_admin := True, u_email := Some (lower email),
       u_phone := coalesce_opt phone (u_phone u), u_updated_at := now\<rparr>"

text \<open>
  The rows found are in the order of their ids. A row that matches neither the e-mail nor the phone violates
  no uniqueness constraint of the two statements; a matching one would have been found.
\<close>

definition seed_existing :: "string \<Rightarrow> string option \<Rightarrow> db \<Rightarrow> user list" where
  "seed_existing email phone s = take 2 (sort_key u_id (filter (seed_matches email phone) (users s)))"

definition seed_update :: "string \<Rightarrow> string option \<Rightarrow> string \<Rightarrow> int \<Rightarrow> bool \<Rightarrow> (db, seeded_admin) handler" where
  "seed_update email phone passwordHash targetId created s =
     (let s' = s\<lparr>users := update_where (\<lambda>u. u_id u = targetId) (admin_set email phone passwordHash (clock s)) (users s)\<rparr>
      in (case row_by u_id targetId (users s') of
            None \<Rightarrow> (Inl (PlainError ''Failed to seed admin user''), s')
          | Some u \<Rightarrow> (Inr \<lparr>sa_id = u_id u, sa_email = u_email u, sa_phone = u_phone u, sa_created = created\<rparr>, s')))"

definition seedAdminUser :: "string \<Rightarrow> string option \<Rightarrow> string \<Rightarrow> (db, seeded_admin) handler" where
  "seedAdminUser email phone passwordHash s =
     (let existing = seed_existing email phone s in
      if 1 < length existing
      then (Inl (PlainError ''Seed conflict: multiple users matched ADMIN_EMAIL/ADMIN_PHONE''), s)
      else if existing = [] \<and> phone \<noteq> None \<and>
        list_ex (\<lambda>u. u_phone u = phone \<and> (u_email u = None \<or> \<not> same_email email (u_email u))) (users s)
      then (Inl (PlainError ''Seed conflict: ADMIN_PHONE belongs to another user''), s)
      else if existing = [] then
        seed_update email phone passwordHash (seqs s T_users) True
          ((bump T_users s)\<lparr>users := users s @ [new_admin email phone passwordHash (seqs s T_users) (clock s)]\<rparr>)
      else seed_update email phone passwordHash (u_id (hd existing)) False s)"

section \<open>Invariant\<close>

text \<open>Rows with the same, present key are the same row.\<close>

definition unique_by :: "(user \<Rightarrow> 'k option) \<Rightarrow> user list \<Rightarrow> bool" where
  "unique_by key rows \<longleftrightarrow> list_all (\<lambda>u. list_all (\<lambda>v. key u = None \<or> key u \<noteq> key v \<or> u_id u = u_id v) rows) rows"

definition live_email :: "user \<Rightarrow> string option" where
  "live_email u = (if u_deleted_at u = None then map_option lower (u_email u) else None)"

definition accounts_inv :: "db \<Rightarrow> bool" where
  "accounts_inv s \<longleftrightarrow> users_inv s \<and> unique_by u_phone (users s) \<and> unique_by live_email (users s)"

text \<open>What stays of an account: its id; its token version only grows, and a deleted account stays deleted.\<close>

definition account_kept :: "user \<Rightarrow> user \<Rightarrow> bool" where
  "account_kept u v \<longleftrightarrow> u_id v = u_id u \<and> u_token_version u \<le> u_token_version v \<and>
     (u_deleted_at v = None \<longrightarrow> u_deleted_at u = None)"

definition accounts_kept :: "db \<Rightarrow> db \<Rightarrow> bool" where
  "accounts_kept s s' \<longleftrightarrow>
     list_all (\<lambda>u. case row_by u_id (u_id u) (users s') of None \<Rightarrow> False | Some v \<Rightarrow> account_kept u v) (users s)"

lemma accounts_kept_iff:
  "accounts_kept s s' \<longleftrightarrow>
     (\<forall>u \<in> set (users s). \<exists>v. row_by u_id (u_id u) (users s') = Some v \<and> account_kept u v)"
  unfolding accounts_kept_def list_all_iff by (rule ball_cong [OF refl]) (simp split: option.split)

lemma account_kept_trans: "account_kept a b \<Longrightarrow> account_kept b c \<Longrightarrow> account_kept a c"
  by (auto simp: account_kept_def)

lemma accounts_kept_trans:
  assumes "accounts_kept s s'" "accounts_kept s' s''"
  shows "accounts_kept s s''"
  unfolding accounts_kept_iff
proof
  fix u
  assume "u \<in> set (users s)"
  then obtain v where v: "row_by u_id (u_id u) (users s') = Some v" "account_kept u v"
    using assms(1) by (auto simp: accounts_kept_iff)
  then have "v \<in> set (users s')" "u_id v = u_id u" by (auto dest: row_by_Some)
  then obtain w where "row_by u_id (u_id u) (users s'') = Some w" "account_kept v w"
    using assms(2) by (auto simp: accounts_kept_iff)
  then show "\<exists>w. row_by u_id (u_id u) (users s'') = Some w \<and> account_kept u w"
    using account_kept_trans [OF v(2)] by blast
qed

lemma users_pk: "users_inv s \<Longrightarrow> pk u_id (seqs s T_users) (users s)"
  by (simp add: users_inv_def)

lemma accounts_kept_append: "users_inv s \<Longrightarrow> users s' = users s @ new \<Longrightarrow> accounts_kept s s'"
  using pk_row_by [OF users_pk, of s]
  by (auto simp: accounts_kept_iff row_by_append account_kept_def)

lemma accounts_kept_update:
  assumes "users_inv s" "users s' = update_where p f (users s)" "\<And>u. account_kept u (f u)"
  shows "accounts_kept s s'"
proof -
  have "u_id (f u) = u_id u" for u using assms(3) [of u] by (simp add: account_kept_def)
  then have "row_by u_id (u_id u) (users s') = Some (if p u then f u else u)" if "u \<in> set (users s)" for u
    using row_by_update [of u_id f "u_id u" p "users s"] pk_row_by [OF users_pk [OF assms(1)] that] assms(2) by simp
  then show ?thesis using assms(3) by (auto simp: accounts_kept_iff account_kept_def)
qed

lemma users_inv_update:
  assumes "users_inv s" "users s' = update_where p f (users s)" "seqs s' T_users = seqs s T_users" "\<And>u. u_id (f u) = u_id u"
  shows "users_inv s'"
  using assms pk_update [of u_id f "seqs s T_users" "users s" p]
  by (auto simp: users_inv_def list_all_iff set_update_where)

lemma users_inv_append:
  assumes "users_inv s" "users s' = users s @ [u]" "u_id u = seqs s T_users" "seqs s' T_users = seqs s T_users + 1"
  shows "users_inv s'"
  using assms pk_insert [of u_id "seqs s T_users" "users s" u] by (simp add: users_inv_def)

lemma unique_by_append:
  "unique_by key rows \<Longrightarrow> (\<And>v. v \<in> set rows \<Longrightarrow> key v = None \<or> key v \<noteq> key u) \<Longrightarrow> unique_by key (rows @ [u])"
  by (fastforce simp: unique_by_def list_all_iff)

text \<open>A change that only drops keys.\<close>

lemma unique_by_update:
  assumes "unique_by key rows" "\<And>u. u_id (f u) = u_id u" "\<And>u. key (f u) = None \<or> key (f u) = key u"
  shows "unique_by key (update_where p f rows)"
  unfolding unique_by_def list_all_iff set_update_where
proof (intro ballI)
  fix a b
  assume "a \<in> (\<lambda>r. if p r then f r else r) ` set rows" "b \<in> (\<lambda>r. if p r then f r else r) ` set rows"
  then obtain u v where uv: "u \<in> set rows" "v \<in> set rows" "a = (if p u then f u else u)" "b = (if p v then f v else v)"
    by auto
  have "key u = None \<or> key u \<noteq> key v \<or> u_id u = u_id v" using assms(1) uv(1,2) by (simp add: unique_by_def list_all_iff)
  then show "key a = None \<or> key a \<noteq> key b \<or> u_id a = u_id b"
    using assms(2,3) [of u] assms(2,3) [of v] uv(3,4) by (auto split: if_split_asm)
qed

text \<open>A change of one row to a key no other row has.\<close>

lemma unique_by_set:
  assumes "unique_by key rows" "\<And>u. u_id (f u) = u_id u"
    and "\<And>u v. u \<in> set rows \<Longrightarrow> v \<in> set rows \<Longrightarrow> p u \<Longrightarrow> u_id v \<noteq> u_id u \<Longrightarrow> key v = None \<or> key (f u) \<noteq> key v"
    and "\<And>u. p u \<Longrightarrow> u_id u = i"
  shows "unique_by key (update_where p f rows)"
  unfolding unique_by_def list_all_iff set_update_where
proof (intro ballI)
  fix a b
  assume "a \<in> (\<lambda>r. if p r then f r else r) ` set rows" "b \<in> (\<lambda>r. if p r then f r else r) ` set rows"
  then obtain u v where uv: "u \<in> set rows" "v \<in> set rows" "a = (if p u then f u else u)" "b = (if p v then f v else v)"
    by auto
  have "key u = None \<or> key u \<noteq> key v \<or> u_id u = u_id v" using assms(1) uv(1,2) by (simp add: unique_by_def list_all_iff)
  then show "key a = None \<or> key a \<noteq> key b \<or> u_id a = u_id b"
    using assms(2) [of u] assms(2) [of v] uv assms(3) [OF uv(1,2)] assms(3) [OF uv(2,1)] assms(4) [of u] assms(4) [of v]
    by (cases "p u"; cases "p v") auto
qed

section \<open>The operations keep it\<close>

text \<open>A change of a row that keeps its id, phone and e-mail and may delete it or raise its token version.\<close>

definition tame :: "(user \<Rightarrow> user) \<Rightarrow> bool" where
  "tame f \<longleftrightarrow> (\<forall>u. account_kept u (f u) \<and> u_phone (f u) = u_phone u \<and> u_email (f u) = u_email u)"

lemma tame_changes:
  "tame (set_password h t)" "tame (retire t)" "tame (set_admin b t)" "tame (set_status st t)"
  "tame (\<lambda>u. u\<lparr>u_avatar_file_id := a, u_updated_at := t\<rparr>)"
  by (simp_all add: tame_def account_kept_def set_password_def retire_def set_admin_def set_status_def)

definition safe :: "db \<Rightarrow> db \<Rightarrow> bool" where
  "safe s s' \<longleftrightarrow> accounts_inv s' \<and> accounts_kept s s'"

lemma tame_safe:
  assumes inv: "accounts_inv s" and f: "tame f" and upd: "users s' = update_where p f (users s)"
    and seq: "seqs s' T_users = seqs s T_users"
  shows "safe s s'"
proof -
  have ids: "u_id (f u) = u_id u" and kept: "account_kept u (f u)" for u using f by (auto simp: tame_def account_kept_def)
  have keys: "u_phone (f u) = None \<or> u_phone (f u) = u_phone u" "live_email (f u) = None \<or> live_email (f u) = live_email u" for u
    using f by (auto simp: tame_def account_kept_def live_email_def)
  have ui: "users_inv s" and uq: "unique_by u_phone (users s)" "unique_by live_email (users s)"
    using inv by (simp_all add: accounts_inv_def)
  have "unique_by u_phone (users s')" "unique_by live_email (users s')"
    unfolding upd using keys by (intro unique_by_update uq ids; blast)+
  then show ?thesis
    using users_inv_update [OF ui upd seq ids] accounts_kept_update [OF ui upd kept]
    by (simp add: safe_def accounts_inv_def)
qed

lemma same_safe:
  assumes "accounts_inv s" "users s' = users s" "seqs s T_users \<le> seqs s' T_users"
  shows "safe s s'"
  using assms accounts_kept_append [of s s' "[]"]
  by (auto simp: safe_def accounts_inv_def users_inv_def intro: pk_mono)

lemma append_safe:
  assumes inv: "accounts_inv s" and upd: "users s' = users s @ [u]" "u_id u = seqs s T_users"
      "seqs s' T_users = seqs s T_users + 1"
    and free: "\<And>v. v \<in> set (users s) \<Longrightarrow> u_phone v = None \<or> u_phone v \<noteq> u_phone u"
      "\<And>v. v \<in> set (users s) \<Longrightarrow> live_email v = None \<or> live_email v \<noteq> live_email u"
  shows "safe s s'"
proof -
  have ui: "users_inv s" using inv by (simp add: accounts_inv_def)
  show ?thesis
    using inv users_inv_append [OF ui upd] accounts_kept_append [OF ui upd(1)] free
    by (simp add: safe_def accounts_inv_def upd(1) unique_by_append)
qed

lemma safe_cong: "safe s t \<Longrightarrow> users t' = users t \<Longrightarrow> seqs t' T_users = seqs t T_users \<Longrightarrow> safe s t'"
  by (simp add: safe_def accounts_inv_def users_inv_def accounts_kept_def)

lemma safe_start: "safe s t \<Longrightarrow> users s' = users s \<Longrightarrow> safe s' t"
  by (simp add: safe_def accounts_kept_def)

lemma update_live_sel [simp]:
  "users (update_live_user i f s) = update_where (\<lambda>u. u_id u = i \<and> u_deleted_at u = None) f (users s)"
  "seqs (update_live_user i f s) = seqs s" "clock (update_live_user i f s) = clock s"
  by (simp_all add: update_live_user_def)

lemma log_sel [simp]:
  "users (logAdminAction a act i s) = users s" "seqs (logAdminAction a act i s) T_users = seqs s T_users"
  "clock (logAdminAction a act i s) = clock s"
  by (simp_all add: logAdminAction_def Let_def)

lemma drop_sel [simp]: "snd (snd (drop_status_key i a (r, s))) = s"
  by (simp add: drop_status_key_def split: prod.split sum.split)

lemma tame_live: "accounts_inv s \<Longrightarrow> tame f \<Longrightarrow> safe s (update_live_user i f s)"
  by (rule tame_safe) simp_all

lemma tame_logged: "accounts_inv s \<Longrightarrow> tame f \<Longrightarrow> safe s (logAdminAction a act k (update_live_user i f s))"
  by (rule safe_cong [OF tame_live]) simp_all

lemma safe_refl: "accounts_inv s \<Longrightarrow> safe s s"
  by (rule same_safe) simp_all

lemma changePassword_safe: "accounts_inv s \<Longrightarrow> safe s (snd (changePassword c rnd user old new s))"
  by (auto simp: changePassword_def safe_refl tame_live tame_changes split: option.split)

lemma deleteAvatar_safe: "accounts_inv s \<Longrightarrow> safe s (snd (deleteAvatar cfg user s))"
  by (simp add: deleteAvatar_def safe_refl tame_live tame_changes Let_def)

lemma deleteMe_safe: "accounts_inv s \<Longrightarrow> safe s (snd (deleteMe user s))"
  by (simp add: deleteMe_def safe_refl tame_live tame_changes)

lemma promoteAdmin_safe: "accounts_inv s \<Longrightarrow> safe s (snd (promoteAdmin admin i s))"
  by (auto simp: promoteAdmin_def safe_refl tame_logged tame_changes split: option.split)

lemma demoteAdmin_safe: "accounts_inv s \<Longrightarrow> safe s (snd (demoteAdmin admin i s))"
  by (auto simp: demoteAdmin_def safe_refl tame_logged tame_changes split: option.split)

lemma updateUserStatus_safe: "accounts_inv (snd st) \<Longrightarrow> safe (snd st) (snd (snd (updateUserStatus admin i status st)))"
  by (cases st) (auto simp: updateUserStatus_def safe_refl tame_logged tame_changes split: option.split)

lemma deleteUser_safe: "accounts_inv (snd st) \<Longrightarrow> safe (snd st) (snd (snd (deleteUser admin i st)))"
  by (cases st) (auto simp: deleteUser_def safe_refl tame_logged tame_changes split: option.split)

lemma createWarning_safe: "accounts_inv s \<Longrightarrow> safe s (snd (createWarning admin i text s))"
  by (rule same_safe) (simp_all add: createWarning_def Let_def split: sum.split)

lemma live_user_in: "live_user s i = Some u \<Longrightarrow> u \<in> set (users s) \<and> u_id u = i \<and> u_deleted_at u = None"
  by (auto simp: live_user_def dest: find_SomeD)

lemma updateMe_safe:
  assumes inv: "accounts_inv s"
  shows "safe s (snd (updateMe cfg user dto s))"
proof -
  let ?p = "\<lambda>u. u_id u = sub user \<and> u_deleted_at u = None"
  let ?f = "profile_set dto (clock s)"
  let ?s' = "update_live_user (sub user) ?f s"
  have ui: "users_inv s" and uq: "unique_by u_phone (users s)" "unique_by live_email (users s)"
    using inv by (simp_all add: accounts_inv_def)
  have f: "u_id (?f u) = u_id u" "account_kept u (?f u)" "live_email (?f u) = live_email u" for u
    by (simp_all add: profile_set_def account_kept_def live_email_def)
  have safe: "safe s ?s'"
    if free: "live_user s (sub user) \<noteq> None \<Longrightarrow> up_phone dto \<noteq> None \<Longrightarrow> \<not> phone_taken s (sub user) (given (up_phone dto))"
  proof -
    have "unique_by u_phone (update_where ?p ?f (users s))"
    proof (rule unique_by_set [OF uq(1) f(1)])
      fix u v
      assume uv: "u \<in> set (users s)" "v \<in> set (users s)" "?p u" "u_id v \<noteq> u_id u"
      have "live_user s (sub user) \<noteq> None" using uv(1,3) live_user_pk [OF ui uv(1)] by auto
      moreover have "u_phone u = None \<or> u_phone u \<noteq> u_phone v \<or> u_id u = u_id v"
        using uq(1) uv(1,2) by (simp add: unique_by_def list_all_iff)
      ultimately show "u_phone v = None \<or> u_phone (?f u) \<noteq> u_phone v"
        using uv free by (cases "up_phone dto = None") (auto simp: profile_set_def phone_taken_def list_ex_iff)
    qed auto
    moreover have "unique_by live_email (update_where ?p ?f (users s))"
      by (rule unique_by_update [OF uq(2) f(1)]) (simp add: f(3))
    ultimately show ?thesis
      using users_inv_update [OF ui, of ?s' ?p ?f] accounts_kept_update [OF ui, of ?s' ?p ?f] f
      by (simp add: safe_def accounts_inv_def)
  qed
  show ?thesis
    using safe safe_refl [OF inv] by (auto simp: updateMe_def Let_def split: option.split)
qed

lemma same_email_live: "u_deleted_at v = None \<Longrightarrow> same_email e (u_email v) \<longleftrightarrow> live_email v = Some (lower e)"
  by (auto simp: same_email_def live_email_def split: option.split)

lemma insert_user_safe:
  assumes inv: "accounts_inv s" and run: "insert_user p s = (Inr u, s')"
  shows "safe s s'"
proof (rule append_safe [OF inv])
  show new: "users s' = users s @ [u]" "u_id u = seqs s T_users" "seqs s' T_users = seqs s T_users + 1"
    using run by (auto simp: insert_user_def Let_def split: if_split_asm)
  have fields: "u_phone u = pg_phone p" "live_email u = Some (lower (pg_email p))"
    using run by (auto simp: insert_user_def Let_def live_email_def split: if_split_asm)
  fix v
  assume v: "v \<in> set (users s)"
  then show "u_phone v = None \<or> u_phone v \<noteq> u_phone u"
    using run fields by (auto simp: insert_user_def Let_def list_ex_iff split: if_split_asm)
  have "\<not> (u_deleted_at v = None \<and> same_email (pg_email p) (u_email v))"
    using run v by (auto simp: insert_user_def Let_def list_ex_iff split: if_split_asm)
  then show "live_email v = None \<or> live_email v \<noteq> live_email u"
    using same_email_live [of v "pg_email p"] fields(2) by (cases "u_deleted_at v") (auto simp: live_email_def)
qed

lemma insert_user_refused: "insert_user p s = (Inl e, s') \<Longrightarrow> users s' = users s \<and> seqs s T_users \<le> seqs s' T_users"
  by (auto simp: insert_user_def Let_def split: if_split_asm)

lemma upsert_token_users:
  "users (snd (upsert_refresh_token j i ttl s)) = users s \<and> seqs (snd (upsert_refresh_token j i ttl s)) T_users = seqs s T_users"
  by (simp add: upsert_refresh_token_def Let_def)

lemma generateTokens_users:
  "users (snd (snd (generateTokens c cfg rnd i e adm v st))) = users (snd st) \<and>
   seqs (snd (snd (generateTokens c cfg rnd i e adm v st))) T_users = seqs (snd st) T_users"
proof -
  obtain r s where st: "st = (r, s)" by (cases st)
  obtain y s' where up: "upsert_refresh_token (rnd_jti rnd) i (parseTtlSeconds (jwtRefreshTtl cfg)) s = (y, s')"
    by (rule prod.exhaust)
  then have "users s' = users s" "seqs s' T_users = seqs s T_users"
    using upsert_token_users [of "rnd_jti rnd" i "parseTtlSeconds (jwtRefreshTtl cfg)" s] by simp_all
  then show ?thesis using up
    by (cases y) (simp_all add: generateTokens_def saveRefreshTokenJti_def st Let_def split: option.split)
qed

lemma transaction_safe:
  assumes inv: "accounts_inv (snd st)"
    and ok: "\<And>x st'. m st = (Inr x, st') \<Longrightarrow> safe (snd st) (snd st')"
    and bad: "seqs (snd st) T_users \<le> seqs (snd (snd (m st))) T_users"
  shows "safe (snd st) (snd (snd (auth_transaction m st)))"
proof -
  obtain y r' s' where m: "m st = (y, (r', s'))" by (metis prod.exhaust)
  then show ?thesis using ok bad inv
    by (cases y) (auto simp: auth_transaction_def intro!: same_safe)
qed

lemma promote_pending_safe:
  assumes inv: "accounts_inv (snd st)"
  shows "promote_pending c cfg rnd email st = (Inr x, st') \<Longrightarrow> safe (snd st) (snd st')"
    and "seqs (snd st) T_users \<le> seqs (snd (snd (promote_pending c cfg rnd email st))) T_users"
proof -
  obtain r s where st: "st = (r, s)" by (cases st)
  have "(\<forall>x st'. promote_pending c cfg rnd email st = (Inr x, st') \<longrightarrow> safe s (snd st')) \<and>
      seqs s T_users \<le> seqs (snd (snd (promote_pending c cfg rnd email st))) T_users"
  proof (cases "find (\<lambda>p. lower (pg_email p) = lower email \<and> clock s < pg_expires_at p) (pending_registrations s)")
    case None
    then show ?thesis by (simp add: promote_pending_def st)
  next
    case (Some p)
    obtain y s1 where ins: "insert_user p s = (y, s1)" by (rule prod.exhaust)
    show ?thesis
    proof (cases y)
      case (Inl e)
      then show ?thesis using Some ins insert_user_refused [of p s e s1] by (simp add: promote_pending_def st)
    next
      case (Inr u)
      let ?d = "s1\<lparr>pending_registrations := delete_where (\<lambda>p. lower (pg_email p) = lower email) (pending_registrations s1)\<rparr>"
      have "safe s s1" using insert_user_safe [of s p u s1] inv ins Inr by (simp add: st)
      moreover have "seqs s T_users \<le> seqs s1 T_users" using ins Inr by (auto simp: insert_user_def Let_def split: if_split_asm)
      moreover obtain z t where gen: "generateTokens c cfg rnd (u_id u) (u_email u) False 0 (r, ?d) = (z, t)" by (rule prod.exhaust)
      moreover have "users (snd t) = users s1" "seqs (snd t) T_users = seqs s1 T_users"
        using generateTokens_users [of c cfg rnd "u_id u" "u_email u" False 0 "(r, ?d)"] gen by simp_all
      ultimately show ?thesis using Some ins Inr safe_cong [of s s1 "snd t"]
        by (cases z) (auto simp: promote_pending_def st)
    qed
  qed
  then show "promote_pending c cfg rnd email st = (Inr x, st') \<Longrightarrow> safe (snd st) (snd st')"
    and "seqs (snd st) T_users \<le> seqs (snd (snd (promote_pending c cfg rnd email st))) T_users"
    unfolding st snd_conv by blast+
qed

lemma reset_account_safe:
  assumes inv: "accounts_inv (snd st)"
  shows "safe (snd st) (snd (snd (reset_account c cfg rnd email new st)))"
proof -
  obtain r s where st: "st = (r, s)" by (cases st)
  show ?thesis
  proof (cases "live_by_email s email")
    case None
    then show ?thesis using inv by (simp add: reset_account_def st safe_refl)
  next
    case (Some u)
    let ?s1 = "s\<lparr>users := update_where (\<lambda>v. u_id v = u_id u) (set_password (bcrypt_hash c (rnd_bcrypt_salt rnd) new) (clock s)) (users s)\<rparr>"
    have "safe s ?s1"
      by (rule tame_safe [where p = "\<lambda>v. u_id v = u_id u" and f = "set_password (bcrypt_hash c (rnd_bcrypt_salt rnd) new) (clock s)"])
        (use inv in \<open>simp_all add: st tame_changes\<close>)
    then have "safe s (snd (snd (generateTokens c cfg rnd (u_id u) (u_email u) (u_is_admin u) (u_token_version u) (r, ?s1))))"
      using generateTokens_users [of c cfg rnd "u_id u" "u_email u" "u_is_admin u" "u_token_version u" "(r, ?s1)"]
      by - (rule safe_cong [of s ?s1], simp_all)
    then show ?thesis using Some inv by (simp add: reset_account_def st safe_refl Let_def)
  qed
qed

lemma check_inv:
  "accounts_inv (snd (snd (checkVerification c cfg e p code st))) \<longleftrightarrow> accounts_inv (snd st)"
  using check_users [of c cfg e p code st] by (simp add: accounts_inv_def users_inv_def)

lemma verify_safe:
  assumes inv: "accounts_inv (snd st)"
  shows "safe (snd st) (snd (snd (verifyRegistrationOtp c cfg rnd email otp st)))"
proof -
  obtain y st1 where ck: "checkVerification c cfg email Otp_registration otp st = (y, st1)" by (rule prod.exhaust)
  have inv1: "accounts_inv (snd st1)" and frame: "users (snd st1) = users (snd st)" "seqs (snd st1) = seqs (snd st)"
    using check_inv [of c cfg email Otp_registration otp st] check_users [of c cfg email Otp_registration otp st] ck inv
    by simp_all
  have "safe (snd st1) (snd (snd (auth_transaction (promote_pending c cfg rnd email) st1)))"
    by (rule transaction_safe [OF inv1, where m = "promote_pending c cfg rnd email"])
      (erule promote_pending_safe(1) [OF inv1], rule promote_pending_safe(2) [OF inv1])
  then have "safe (snd st) (snd (snd (auth_transaction (promote_pending c cfg rnd email) st1)))"
    by (rule safe_start) (simp add: frame)
  then show ?thesis using ck inv same_safe [OF inv, of "snd st1"] frame
    by (cases y) (simp_all add: verifyRegistrationOtp_def)
qed

lemma reset_safe:
  assumes inv: "accounts_inv (snd st)"
  shows "safe (snd st) (snd (snd (resetPassword c cfg rnd email otp new confirm st)))"
proof -
  obtain y st1 where ck: "checkVerification c cfg email Otp_password_reset otp st = (y, st1)" by (rule prod.exhaust)
  have inv1: "accounts_inv (snd st1)" and frame: "users (snd st1) = users (snd st)" "seqs (snd st1) = seqs (snd st)"
    using check_inv [of c cfg email Otp_password_reset otp st] check_users [of c cfg email Otp_password_reset otp st] ck inv
    by simp_all
  have r: "safe (snd st1) (snd (snd (reset_account c cfg rnd email new st1)))" by (rule reset_account_safe [OF inv1])
  have "seqs (snd st1) T_users \<le> seqs (snd (snd (reset_account c cfg rnd email new st1))) T_users"
  proof (cases st1)
    case (Pair r s)
    then show ?thesis
      by (simp add: reset_account_def Let_def generateTokens_users [THEN conjunct2] split: option.split)
  qed
  then have "safe (snd st1) (snd (snd (auth_transaction (reset_account c cfg rnd email new) st1)))"
    using r by (intro transaction_safe [OF inv1]) simp_all
  then have "safe (snd st) (snd (snd (auth_transaction (reset_account c cfg rnd email new) st1)))"
    by (rule safe_start) (simp add: frame)
  then show ?thesis using ck inv same_safe [OF inv, of "snd st1"] frame safe_refl [OF inv]
    by (cases y) (auto simp: resetPassword_def)
qed

lemma take2_Nil: "length (take 2 xs) \<le> Suc 0 \<Longrightarrow> xs = [] \<or> (\<exists>x. xs = [x])"
  by (cases xs; cases "tl xs") auto

lemma seed_cases:
  obtains (refused) e where "seedAdminUser email phone h s = (Inl e, s)"
  | (created) "\<And>v. v \<in> set (users s) \<Longrightarrow> \<not> seed_matches email phone v"
      "seedAdminUser email phone h s = seed_update email phone h (seqs s T_users) True
         ((bump T_users s)\<lparr>users := users s @ [new_admin email phone h (seqs s T_users) (clock s)]\<rparr>)"
  | (found) u where "u \<in> set (users s)" "seed_matches email phone u"
      "\<And>v. v \<in> set (users s) \<Longrightarrow> seed_matches email phone v \<Longrightarrow> v = u"
      "seedAdminUser email phone h s = seed_update email phone h (u_id u) False s"
proof -
  let ?sorted = "sort_key u_id (filter (seed_matches email phone) (users s))"
  have matching: "set ?sorted = {v \<in> set (users s). seed_matches email phone v}" by simp
  consider (many) "1 < length (seed_existing email phone s)" | (none) "?sorted = []" | (one) u where "?sorted = [u]"
  proof (cases "1 < length (seed_existing email phone s)")
    case False
    then have "?sorted = [] \<or> (\<exists>u. ?sorted = [u])"
      unfolding seed_existing_def by (intro take2_Nil) (simp only: not_less One_nat_def)
    then show ?thesis using that(2,3) by blast
  qed (rule that(1))
  then show thesis
  proof cases
    case many
    then show thesis using refused by (simp add: seedAdminUser_def Let_def)
  next
    case none
    then have no: "\<not> seed_matches email phone v" if "v \<in> set (users s)" for v using matching that by auto
    then have "\<not> (phone \<noteq> None \<and>
        list_ex (\<lambda>u. u_phone u = phone \<and> (u_email u = None \<or> \<not> same_email email (u_email u))) (users s))"
      by (auto simp: list_ex_iff seed_matches_def)
    then have "seedAdminUser email phone h s = seed_update email phone h (seqs s T_users) True
         ((bump T_users s)\<lparr>users := users s @ [new_admin email phone h (seqs s T_users) (clock s)]\<rparr>)"
      using none by (simp only: seedAdminUser_def Let_def seed_existing_def) simp
    then show thesis using created no by blast
  next
    case (one u)
    then have "{v \<in> set (users s). seed_matches email phone v} = {u}" using matching by simp
    then show thesis using one by (intro found [of u]) (auto simp: seedAdminUser_def Let_def seed_existing_def)
  qed
qed

lemma seed_safe:
  assumes inv: "accounts_inv s"
  shows "safe s (snd (seedAdminUser email phone h s))"
proof -
  let ?m = "seed_matches email phone"
  let ?f = "admin_set email phone h (clock s)"
  have ui: "users_inv s" and uq: "unique_by u_phone (users s)" "unique_by live_email (users s)"
    using inv by (simp_all add: accounts_inv_def)
  have f: "u_id (?f u) = u_id u" "account_kept u (?f u)" "u_phone (?f u) = coalesce_opt phone (u_phone u)"
    "live_email (?f u) = (if u_deleted_at u = None then Some (lower email) else None)" for u
    by (simp_all add: admin_set_def account_kept_def live_email_def)
  have free: "u_phone v = None \<or> phone = None \<or> u_phone v \<noteq> phone" "live_email v \<noteq> Some (lower email)"
    if "\<not> ?m v" for v
    using that by (auto simp: seed_matches_def same_email_def live_email_def split: option.split_asm if_split_asm)
  show ?thesis
  proof (cases rule: seed_cases [of email phone h s])
    case (refused e)
    then show ?thesis using safe_refl [OF inv] by simp
  next
    case created
      note nomatch = created(1)
      let ?i = "seqs s T_users"
      let ?new = "new_admin email phone h ?i (clock s)"
      have "?i \<notin> u_id ` set (users s)" using pk_fresh [OF users_pk [OF ui]] .
      then have "update_where (\<lambda>u. u_id u = ?i) ?f (users s) = users s"
        by (intro update_where_none) force
      moreover have "?f ?new = ?new" by (simp add: new_admin_def admin_set_def coalesce_opt_def split: option.split)
      ultimately have upd: "update_where (\<lambda>u. u_id u = ?i) ?f (users s @ [?new]) = users s @ [?new]"
        by (simp add: update_where_def)
      let ?s' = "(bump T_users s)\<lparr>users := users s @ [?new]\<rparr>"
      have "safe s ?s'"
      proof (rule append_safe [OF inv, of _ ?new])
        fix v
        assume "v \<in> set (users s)"
        note fr = free [OF nomatch [OF this]]
        show "u_phone v = None \<or> u_phone v \<noteq> u_phone ?new" using fr(1) by (auto simp: new_admin_def)
        show "live_email v = None \<or> live_email v \<noteq> live_email ?new" using fr(2) by (simp add: new_admin_def live_email_def)
      qed (simp_all add: new_admin_def)
      then have "safe s t" if "users t = users s @ [?new]" "seqs t = seqs ?s'" for t
        by (rule safe_cong) (simp_all add: that)
      then show ?thesis using created(2) upd by (simp add: seed_update_def Let_def split: option.split)
  next
    case (found u)
      note u = found(1-3)
      let ?p = "\<lambda>v. u_id v = u_id u"
      let ?s' = "s\<lparr>users := update_where ?p ?f (users s)\<rparr>"
      have other: "\<not> ?m v" if "v \<in> set (users s)" "u_id v \<noteq> u_id u" for v using u(3) that by blast
      have own: "unique_by u_phone (update_where ?p ?f (users s))"
      proof (rule unique_by_set [OF uq(1) f(1)])
        fix a b
        assume ab: "a \<in> set (users s)" "b \<in> set (users s)" "u_id a = u_id u" "u_id b \<noteq> u_id a"
        then have "\<not> ?m b" using other by simp
        moreover have "u_phone a = None \<or> u_phone a \<noteq> u_phone b \<or> u_id a = u_id b"
          using uq(1) ab(1,2) by (simp add: unique_by_def list_all_iff)
        ultimately show "u_phone b = None \<or> u_phone (?f a) \<noteq> u_phone b"
          using free(1) [of b] ab(4) by (auto simp: f(3) coalesce_opt_def split: option.split)
      qed auto
      have "unique_by live_email (update_where ?p ?f (users s))"
      proof (rule unique_by_set [OF uq(2) f(1)])
        fix a b
        assume ab: "a \<in> set (users s)" "b \<in> set (users s)" "u_id a = u_id u" "u_id b \<noteq> u_id a"
        then have "\<not> ?m b" using other by simp
        then show "live_email b = None \<or> live_email (?f a) \<noteq> live_email b" using free(2) [of b] by (auto simp: f(4))
      qed auto
      then have "safe s ?s'"
        using users_inv_update [OF ui, of ?s' ?p ?f] accounts_kept_update [OF ui, of ?s' ?p ?f] f(1,2) own
        by (simp add: safe_def accounts_inv_def)
      then show ?thesis using found(4) by (simp add: seed_update_def Let_def split: option.split)
  qed
qed

section \<open>Accounts over time\<close>

inductive account_step :: "'tok crypto \<Rightarrow> app_config \<Rightarrow> auth_state \<Rightarrow> auth_state \<Rightarrow> bool" for c :: "'tok crypto" and cfg where
  step_verify: "account_step c cfg st (snd (verifyRegistrationOtp c cfg rnd email otp st))"
| step_reset: "account_step c cfg st (snd (resetPassword c cfg rnd email otp new confirm st))"
| step_status: "account_step c cfg st (snd (updateUserStatus admin i status st))"
| step_deleteUser: "account_step c cfg st (snd (deleteUser admin i st))"
| step_updateMe: "account_step c cfg (r, s) (r, snd (updateMe cfg user dto s))"
| step_password: "account_step c cfg (r, s) (r, snd (changePassword c rnd user old new s))"
| step_avatar: "account_step c cfg (r, s) (r, snd (deleteAvatar cfg user s))"
| step_deleteMe: "account_step c cfg (r, s) (r, snd (deleteMe user s))"
| step_promote: "account_step c cfg (r, s) (r, snd (promoteAdmin admin i s))"
| step_demote: "account_step c cfg (r, s) (r, snd (demoteAdmin admin i s))"
| step_warning: "account_step c cfg (r, s) (r, snd (createWarning admin i text s))"
| step_seed: "account_step c cfg (r, s) (r, snd (seedAdminUser email phone h s))"
| elsewhere: "users (snd st') = users (snd st) \<Longrightarrow> seqs (snd st) T_users \<le> seqs (snd st') T_users \<Longrightarrow>
    account_step c cfg st st'"

lemmas account_safe = verify_safe reset_safe updateUserStatus_safe deleteUser_safe updateMe_safe changePassword_safe
  deleteAvatar_safe deleteMe_safe promoteAdmin_safe demoteAdmin_safe createWarning_safe seed_safe

lemma account_step_safe: "account_step c cfg st st' \<Longrightarrow> accounts_inv (snd st) \<Longrightarrow> safe (snd st) (snd st')"
  by (induction rule: account_step.induct) (simp_all add: account_safe same_safe)

text \<open>
  Through every history of registrations, profile changes, resets, administration and seeding, ids stay
  unique, no two accounts share a phone and no two live accounts an e-mail up to case (deleted accounts free
  their e-mail, not their phone); no account disappears, the token version of none goes back, and a deleted
  account stays deleted.
\<close>

theorem accounts_reachable:
  assumes "(account_step c cfg)\<^sup>*\<^sup>* st st'" and "accounts_inv (snd st)"
  shows "accounts_inv (snd st') \<and> accounts_kept (snd st) (snd st')"
  using assms(1)
proof (induction rule: rtranclp_induct)
  case base
  then show ?case using safe_refl [OF assms(2)] by (simp add: safe_def)
next
  case (step t u)
  then have "safe (snd t) (snd u)" using account_step_safe by blast
  then show ?case using step.IH accounts_kept_trans by (auto simp: safe_def)
qed

section \<open>What ends a session\<close>

text \<open>
  Of the tokens that authenticated in \<open>s\<close>, those of account \<open>k\<close> are refused in \<open>s'\<close> and all others still
  authenticate, as the same user.
\<close>

definition ends_sessions :: "'tok crypto \<Rightarrow> app_config \<Rightarrow> db \<Rightarrow> db \<Rightarrow> int \<Rightarrow> 'tok \<Rightarrow> bool" where
  "ends_sessions c cfg s s' k tok \<longleftrightarrow>
     (case authenticate c cfg s tok of
        Inl e \<Rightarrow> True
      | Inr ss \<Rightarrow> authenticate c cfg s' tok =
          (if sub ss = k then Inl (Unauthorized ''Token is stale'') else Inr ss))"

lemma live_user_update:
  assumes "\<And>u. u_id (f u) = u_id u"
  shows "live_user (update_live_user i f s) k =
    (if k = i then (case live_user s k of None \<Rightarrow> None | Some u \<Rightarrow> if u_deleted_at (f u) = None then Some (f u) else
        find (\<lambda>u. u_id u = k \<and> u_deleted_at u = None) (users (update_live_user i f s)))
     else live_user s k)"
proof (cases "k = i")
  case False
  have "find (\<lambda>u. u_id u = k \<and> u_deleted_at u = None) (update_where (\<lambda>u. u_id u = i \<and> u_deleted_at u = None) f us) =
      find (\<lambda>u. u_id u = k \<and> u_deleted_at u = None) us" for us
    by (induction us) (use False assms in \<open>auto simp: update_where_def\<close>)
  then show ?thesis using False by (simp add: live_user_def)
next
  case True
  have "find (\<lambda>u. u_id u = i \<and> u_deleted_at u = None) us = None \<Longrightarrow>
      find (\<lambda>u. u_id u = i \<and> u_deleted_at u = None) (update_where (\<lambda>u. u_id u = i \<and> u_deleted_at u = None) f us) = None" for us
    by (induction us) (auto simp: update_where_def split: if_split_asm)
  moreover have "find (\<lambda>u. u_id u = i \<and> u_deleted_at u = None) us = Some u \<Longrightarrow> u_deleted_at (f u) = None \<Longrightarrow>
      find (\<lambda>u. u_id u = i \<and> u_deleted_at u = None) (update_where (\<lambda>u. u_id u = i \<and> u_deleted_at u = None) f us) = Some (f u)" for us u
    by (induction us) (use assms in \<open>auto simp: update_where_def split: if_split_asm\<close>)
  ultimately show ?thesis using True
    by (cases "live_user s k") (auto simp: live_user_def)
qed

lemma authenticate_cong:
  assumes "clock s' = clock s"
    and "\<And>k. map_option (\<lambda>u. (u_token_version u, u_email u)) (live_user s' k) =
      map_option (\<lambda>u. (u_token_version u, u_email u)) (live_user s k)"
  shows "authenticate c cfg s' tok = authenticate c cfg s tok"
proof -
  have "validate s' p = validate s p" for p
    using assms(2) [of "the (toPositiveInt (jp_sub p))"]
    by (auto simp: validate_def split: option.split)
  then show ?thesis by (simp add: authenticate_def assms(1) split: option.split)
qed

lemma ends_sessionsI:
  assumes "clock s' = clock s" and "\<And>j. j \<noteq> k \<Longrightarrow> live_user s' j = live_user s j"
    and "\<And>u. live_user s k = Some u \<Longrightarrow>
      (case live_user s' k of None \<Rightarrow> True | Some v \<Rightarrow> u_token_version v \<noteq> u_token_version u)"
  shows "ends_sessions c cfg s s' k tok"
proof (cases "jwt_verify c (jwtAccessSecret cfg) (clock s) tok")
  case None
  then show ?thesis by (simp add: ends_sessions_def authenticate_def)
next
  case (Some p)
  show ?thesis
  proof (cases "validate s p")
    case (Inl e)
    then show ?thesis using Some by (simp add: ends_sessions_def authenticate_def)
  next
    case (Inr ss)
    then obtain v u where v: "jp_tokenVersion p = Some v" "toPositiveInt (jp_sub p) = Some (sub ss)"
        "live_user s (sub ss) = Some u" "u_token_version u = v"
      by (auto simp: validate_def split: option.split_asm if_split_asm)
    have "validate s' p = (if sub ss = k then Inl (Unauthorized ''Token is stale'') else validate s p)"
      using v assms(2) [of "sub ss"] assms(3) [of u] by (auto simp: validate_def split: option.split_asm)
    then show ?thesis using Some Inr assms(1) by (simp add: ends_sessions_def authenticate_def)
  qed
qed

lemma live_user_log [simp]: "live_user (logAdminAction a act i s) k = live_user s k"
  by (simp add: live_user_def)

lemma live_user_retired: "live_user (update_live_user i (retire t) s) i = None"
proof -
  have "\<not> (u_id v = i \<and> u_deleted_at v = None)" if "v \<in> set (users (update_live_user i (retire t) s))" for v
  proof -
    from that have "v \<in> (\<lambda>u. if u_id u = i \<and> u_deleted_at u = None then retire t u else u) ` set (users s)"
      by (simp only: update_live_sel set_update_where)
    then show ?thesis by (elim imageE) (simp add: retire_def)
  qed
  then show ?thesis by (simp add: live_user_def find_None_iff)
qed

lemma ends_by_retiring: "ends_sessions c cfg s (update_live_user k (retire t) s) k tok"
proof (rule ends_sessionsI)
  show "live_user (update_live_user k (retire t) s) j = live_user s j" if "j \<noteq> k" for j
    using live_user_update [of "retire t" k s j] that by (simp add: retire_def)
qed (simp_all add: live_user_retired)

lemma ends_by_role: "ends_sessions c cfg s (update_live_user k (set_admin b t) s) k tok"
proof (rule ends_sessionsI)
  have f: "u_id (set_admin b t u) = u_id u" "u_deleted_at (set_admin b t u) = u_deleted_at u"
    "u_token_version (set_admin b t u) = u_token_version u + 1" for u by (simp_all add: set_admin_def)
  show "live_user (update_live_user k (set_admin b t) s) j = live_user s j" if "j \<noteq> k" for j
    using live_user_update [OF f(1), of k s j] that by simp
  show "case live_user (update_live_user k (set_admin b t) s) k of None \<Rightarrow> True
      | Some v \<Rightarrow> u_token_version v \<noteq> u_token_version u" if "live_user s k = Some u" for u
    using live_user_update [OF f(1), of k s k] that live_user_in [OF that] by (simp add: f)
qed simp

lemma ends_log: "ends_sessions c cfg s (logAdminAction a act i s') k tok = ends_sessions c cfg s s' k tok"
  using authenticate_cong [of "logAdminAction a act i s'" s' c cfg tok] by (simp add: ends_sessions_def split: sum.split)

lemma authenticate_update:
  assumes "\<And>u. u_id (f u) = u_id u" "\<And>u. u_token_version (f u) = u_token_version u" "\<And>u. u_email (f u) = u_email u"
    "\<And>u. u_deleted_at (f u) = u_deleted_at u"
  shows "authenticate c cfg (update_live_user i f s) tok = authenticate c cfg s tok"
proof (rule authenticate_cong)
  fix k
  show "map_option (\<lambda>u. (u_token_version u, u_email u)) (live_user (update_live_user i f s) k) =
      map_option (\<lambda>u. (u_token_version u, u_email u)) (live_user s k)"
  proof (cases "live_user s k")
    case None
    then have "live_user (update_live_user i f s) k = None"
      using assms(1,4) by (auto simp: live_user_def find_None_iff set_update_where split: if_split_asm)
    then show ?thesis using None by simp
  next
    case (Some u)
    then have "live_user (update_live_user i f s) k = Some (if k = i then f u else u)"
      using live_user_update [OF assms(1), of i s k] live_user_in [OF Some] Some
      by (cases "k = i") (auto simp: assms(4))
    then show ?thesis using Some assms(2,3) by simp
  qed
qed simp

text \<open>
  C22: Promoting, demoting and deleting an account (by an administrator or by its owner) end its sessions at
  once: every access token of it that authenticated is refused as stale, while every other token goes on as
  before; a refused request changes nothing. A deletion by an administrator takes effect even when it is
  answered with an error because Redis is down. Banning or pausing an account and changing its password end
  no session: every access token still authenticates, as the same user.
\<close>

theorem session_ends:
  "(if is_ok (fst (promoteAdmin admin k (snd st)))
      then ends_sessions c cfg (snd st) (snd (promoteAdmin admin k (snd st))) k tok
      else snd (promoteAdmin admin k (snd st)) = snd st) \<and>
    (if is_ok (fst (demoteAdmin admin k (snd st)))
      then ends_sessions c cfg (snd st) (snd (demoteAdmin admin k (snd st))) k tok
      else snd (demoteAdmin admin k (snd st)) = snd st) \<and>
    (if is_ok (fst (deleteMe user (snd st)))
      then ends_sessions c cfg (snd st) (snd (deleteMe user (snd st))) (sub user) tok
      else snd (deleteMe user (snd st)) = snd st) \<and>
    (if live_user (snd st) k = None then deleteUser admin k st = (Inl (NotFound ''User not found''), st)
      else ends_sessions c cfg (snd st) (snd (snd (deleteUser admin k st))) k tok \<and>
        (is_ok (fst (deleteUser admin k st)) \<longleftrightarrow> \<not> (r_enabled (fst st) \<and> r_down (fst st)))) \<and>
    authenticate c cfg (snd (snd (updateUserStatus admin k status st))) tok = authenticate c cfg (snd st) tok \<and>
    authenticate c cfg (snd (changePassword c rnd user old new (snd st))) tok = authenticate c cfg (snd st) tok"
proof -
  obtain r s where st: "st = (r, s)" by (cases st)
  note ends = ends_by_role ends_log ends_by_retiring
  have auth: "authenticate c cfg (update_live_user i (set_status status t) s) tok = authenticate c cfg s tok"
    "authenticate c cfg (update_live_user i (set_password h t) s) tok = authenticate c cfg s tok" for i h t
    by (rule authenticate_update; simp add: set_status_def set_password_def)+
  have log: "authenticate c cfg (logAdminAction a act i s') tok = authenticate c cfg s' tok" for a act i s'
    by (rule authenticate_cong) simp_all
  have promote: "if is_ok (fst (promoteAdmin admin k s)) then ends_sessions c cfg s (snd (promoteAdmin admin k s)) k tok
      else snd (promoteAdmin admin k s) = s"
    by (simp add: promoteAdmin_def ends split: option.split)
  have demote: "if is_ok (fst (demoteAdmin admin k s)) then ends_sessions c cfg s (snd (demoteAdmin admin k s)) k tok
      else snd (demoteAdmin admin k s) = s"
    by (simp add: demoteAdmin_def ends split: option.split)
  have own: "if is_ok (fst (deleteMe user s)) then ends_sessions c cfg s (snd (deleteMe user s)) (sub user) tok
      else snd (deleteMe user s) = s"
    by (simp add: deleteMe_def ends)
  have drop: "is_ok (fst (drop_status_key k answer (r, s'))) \<longleftrightarrow> \<not> (r_enabled r \<and> r_down r)" for answer :: string and s'
    by (simp add: drop_status_key_def redis_del_def)
  have del: "if live_user s k = None then deleteUser admin k st = (Inl (NotFound ''User not found''), st)
      else ends_sessions c cfg s (snd (snd (deleteUser admin k st))) k tok \<and>
        (is_ok (fst (deleteUser admin k st)) \<longleftrightarrow> \<not> (r_enabled r \<and> r_down r))"
    by (auto simp: deleteUser_def st ends drop)
  have ban: "authenticate c cfg (snd (snd (updateUserStatus admin k status st))) tok = authenticate c cfg s tok"
    by (simp add: updateUserStatus_def st log auth split: option.split)
  have pw: "authenticate c cfg (snd (changePassword c rnd user old new s)) tok = authenticate c cfg s tok"
    by (simp add: changePassword_def auth split: option.split)
  show ?thesis using promote demote own del ban pw by (simp only: st fst_conv snd_conv)
qed

section \<open>The seeded administrator\<close>

section \<open>The seeded administrator\<close>

lemma seed_update_result:
  assumes run: "seed_update email phone h k b s1 = (Inr a, s')"
    and others: "\<And>v. v \<in> set (users s1) \<Longrightarrow> u_id v \<noteq> k \<Longrightarrow> \<not> seed_matches email phone v"
  obtains u where "u \<in> set (users s')" "u_id u = k" "u_is_admin u" "u_status u = User_active" "u_password_hash u = h"
    "u_email u = Some (lower email)" "u_phone u = phone \<or> phone = None"
    "a = \<lparr>sa_id = k, sa_email = u_email u, sa_phone = u_phone u, sa_created = b\<rparr>"
    "\<forall>v \<in> set (users s'). seed_matches email phone v \<longrightarrow> u_id v = k"
proof -
  let ?f = "admin_set email phone h (clock s1)"
  have f: "u_id (?f v) = u_id v" "u_is_admin (?f v)" "u_status (?f v) = User_active" "u_password_hash (?f v) = h"
    "u_email (?f v) = Some (lower email)" "u_phone (?f v) = phone \<or> phone = None" for v
    by (simp_all add: admin_set_def coalesce_opt_def split: option.split)
  have upd: "users s' = update_where (\<lambda>u. u_id u = k) ?f (users s1)"
    using run by (auto simp: seed_update_def Let_def split: option.split_asm)
  obtain u where u: "row_by u_id k (users s') = Some u"
    and a: "a = \<lparr>sa_id = u_id u, sa_email = u_email u, sa_phone = u_phone u, sa_created = b\<rparr>"
    using run by (auto simp: seed_update_def Let_def split: option.split_asm)
  have "row_by u_id k (users s') = map_option ?f (row_by u_id k (users s1))"
    unfolding upd by (rule row_by_update_same) (rule f(1))
  then obtain w where "u = ?f w" using u by (cases "row_by u_id k (users s1)") auto
  moreover have "u_id v = k" if v: "v \<in> set (users s')" "seed_matches email phone v" for v
  proof (rule ccontr)
    assume k: "u_id v \<noteq> k"
    have "v \<in> (\<lambda>w. if u_id w = k then ?f w else w) ` set (users s1)" using v(1) unfolding upd set_update_where .
    then have "v \<in> set (users s1)" using k f(1) by auto
    then show False using others k v(2) by blast
  qed
  ultimately show thesis using row_by_Some [OF u] a f by (intro that [of u]) simp_all
qed

lemma seed_result:
  assumes run: "seedAdminUser email phone h s = (Inr a, s')"
  obtains u where "u \<in> set (users s')" "u_id u = sa_id a" "u_is_admin u" "u_status u = User_active" "u_password_hash u = h"
    "u_email u = Some (lower email)" "u_phone u = phone \<or> phone = None"
    "sa_email a = u_email u" "sa_phone a = u_phone u" "sa_created a \<longleftrightarrow> \<not> list_ex (seed_matches email phone) (users s)"
    "\<forall>v \<in> set (users s'). seed_matches email phone v \<longrightarrow> u_id v = sa_id a"
proof -
  note that' = that
  have conclude: thesis
    if upd: "seed_update email phone h k b s1 = (Inr a, s')"
      and others: "\<And>v. v \<in> set (users s1) \<Longrightarrow> u_id v \<noteq> k \<Longrightarrow> \<not> seed_matches email phone v"
      and b: "b \<longleftrightarrow> \<not> list_ex (seed_matches email phone) (users s)" for k b s1
  proof -
    obtain u where u: "u \<in> set (users s')" "u_id u = k" "u_is_admin u" "u_status u = User_active" "u_password_hash u = h"
      "u_email u = Some (lower email)" "u_phone u = phone \<or> phone = None"
      "a = \<lparr>sa_id = k, sa_email = u_email u, sa_phone = u_phone u, sa_created = b\<rparr>"
      "\<forall>v \<in> set (users s'). seed_matches email phone v \<longrightarrow> u_id v = k"
      by (rule seed_update_result [OF upd others])
    show thesis by (rule that' [of u]) (simp_all add: u b)
  qed
  show thesis
  proof (cases rule: seed_cases [of email phone h s])
    case (refused e)
    then show ?thesis using run by simp
  next
    case created
    show ?thesis
    proof (rule conclude)
      show "seed_update email phone h (seqs s T_users) True
         ((bump T_users s)\<lparr>users := users s @ [new_admin email phone h (seqs s T_users) (clock s)]\<rparr>) = (Inr a, s')"
        using created(2) run by simp
    qed (use created(1) in \<open>auto simp: new_admin_def list_ex_iff\<close>)
  next
    case (found u)
    show ?thesis
    proof (rule conclude)
      show "seed_update email phone h (u_id u) False s = (Inr a, s')" using found(4) run by simp
      show "\<not> seed_matches email phone v" if "v \<in> set (users s)" "u_id v \<noteq> u_id u" for v
        using found(3) [OF that(1)] that(2) by blast
      show "False \<longleftrightarrow> \<not> list_ex (seed_matches email phone) (users s)" using found(1,2) by (auto simp: list_ex_iff)
    qed
  qed
qed

text \<open>
  C23: A successful seed leaves exactly one account that has the configured e-mail or phone: an active
  administrator with the configured e-mail, new exactly when there was none before. Logging in with the
  configured password then succeeds exactly when that account is not deleted: seeding does not revive a
  deleted one. Seeding again finds the same account and creates none.
\<close>

theorem seedAdmin_login:
  assumes inv: "accounts_inv (snd st)" and crypt: "bcrypt_ok c"
    and run: "seedAdminUser email phone (bcrypt_hash c salt password) (snd st) = (Inr a, s')"
  shows "(\<exists>u. filter (seed_matches email phone) (users s') = [u] \<and> u_id u = sa_id a \<and> u_is_admin u \<and>
      u_email u = Some (lower email) \<and> (sa_created a \<longleftrightarrow> \<not> list_ex (seed_matches email phone) (users (snd st))) \<and>
      (is_ok (fst (login c cfg rnd email password (fst st, s'))) \<longleftrightarrow> u_deleted_at u = None)) \<and>
    map_option sa_created (case fst (seedAdminUser email phone h s') of Inl e \<Rightarrow> None | Inr b \<Rightarrow> Some b) = Some False"
proof -
  have inv': "accounts_inv s'" using seed_safe [OF inv, of email phone "bcrypt_hash c salt password"] run by (simp add: safe_def)
  then have ui: "users_inv s'" by (simp add: accounts_inv_def)
  obtain u where u: "u \<in> set (users s')" "u_id u = sa_id a" "u_is_admin u" "u_status u = User_active"
    "u_password_hash u = bcrypt_hash c salt password" "u_email u = Some (lower email)" "u_phone u = phone \<or> phone = None"
    "sa_email a = u_email u" "sa_phone a = u_phone u" "sa_created a \<longleftrightarrow> \<not> list_ex (seed_matches email phone) (users (snd st))"
    and only: "\<forall>v \<in> set (users s'). seed_matches email phone v \<longrightarrow> u_id v = sa_id a"
    by (rule seed_result [OF run])
  have m: "seed_matches email phone u" using u(6) by (simp add: seed_matches_def same_email_def)
  have one: "v = u" if "v \<in> set (users s')" "seed_matches email phone v" for v
    using pk_unique [OF users_pk [OF ui] that(1) u(1)] only that u(2) by simp
  have "distinct (users s')" using users_pk [OF ui] by (auto simp: pk_def distinct_map)
  then have dist: "distinct (filter (seed_matches email phone) (users s'))" by simp
  have set: "set (filter (seed_matches email phone) (users s')) = {u}"
    using u(1) m one unfolding set_filter by blast
  have filt: "filter (seed_matches email phone) (users s') = [u]"
  proof (cases "filter (seed_matches email phone) (users s')")
    case Nil
    then show ?thesis using set by simp
  next
    case (Cons x xs)
    then have "x = u" "set xs \<subseteq> {u}" using set by auto
    then show ?thesis using Cons dist by (cases xs) auto
  qed
  have same: "same_email email (u_email v) \<longleftrightarrow> v = u" if "v \<in> set (users s')" for v
    using one [OF that] u(6) by (auto simp: seed_matches_def same_email_def)
  have live: "live_by_email s' email = (if u_deleted_at u = None then Some u else None)"
  proof (cases "u_deleted_at u")
    case None
    then have "\<exists>v. live_by_email s' email = Some v \<and> v = u"
      unfolding live_by_email_def by (intro find_all [OF u(1)]) (simp_all add: same u(1))
    then show ?thesis using None by simp
  next
    case (Some d)
    have "\<not> (same_email email (u_email v) \<and> u_deleted_at v = None)" if "v \<in> set (users s')" for v
      using same [OF that] Some by (cases "v = u") simp_all
    then have "live_by_email s' email = None" unfolding live_by_email_def find_None_iff by blast
    then show ?thesis using Some by simp
  qed
  have "is_ok (fst (login c cfg rnd email password (fst st, s'))) \<longleftrightarrow> u_deleted_at u = None"
  proof (cases "u_deleted_at u")
    case None
    have key: "has_key u_id (u_id u) (users (snd (fst st, s')))" using u(1) by (simp add: has_user)
    obtain t where "generateTokens c cfg rnd (u_id u) (u_email u) (u_is_admin u) (u_token_version u) (fst st, s') =
        (Inr (issued_pair c cfg rnd (clock (snd (fst st, s'))) (base_payload (u_id u) (u_email u) (u_is_admin u) (u_token_version u))), t)"
      by (rule generateTokens_ok [OF key, of c cfg rnd "u_email u" "u_is_admin u" "u_token_version u"]) auto
    then show ?thesis using live None u(4,5) crypt by (simp add: login_def bcrypt_ok_def)
  next
    case (Some d)
    then show ?thesis using live by (simp add: login_def)
  qed
  moreover have "map_option sa_created (case fst (seedAdminUser email phone h s') of Inl e \<Rightarrow> None | Inr b \<Rightarrow> Some b) = Some False"
  proof -
    have "seed_existing email phone s' = [u]" by (simp add: seed_existing_def filt)
    then have "seedAdminUser email phone h s' = seed_update email phone h (u_id u) False s'"
      by (simp add: seedAdminUser_def Let_def)
    moreover have "row_by u_id (u_id u) (update_where (\<lambda>v. u_id v = u_id u) (admin_set email phone h (clock s')) (users s')) \<noteq> None"
      using row_by_update_same [of u_id "admin_set email phone h (clock s')" "u_id u" "users s'"]
        pk_row_by [OF users_pk [OF ui] u(1)] by (simp add: admin_set_def)
    ultimately show ?thesis by (auto simp: seed_update_def Let_def)
  qed
  ultimately show ?thesis using filt u(2,3,6) u(10) by auto
qed

section \<open>Examples\<close>

text \<open>Two customers with phones and e-mails of their own.\<close>

definition accounts_db :: db where
  "accounts_db = sample_db\<lparr>users := [sample_user 1 True,
     (sample_user 2 False)\<lparr>u_phone := Some ''011'', u_email := Some ''n@x.io''\<rparr>]\<rparr>"

lemma accounts_db_inv: "accounts_inv accounts_db"
  by (simp add: accounts_inv_def users_inv_def pk_def unique_by_def live_email_def accounts_db_def sample_db_def sample_user_def
      lower_char_def)

theorem accounts_reachable_witness:
  "accounts_inv (snd (no_redis, snd (promoteAdmin sample_admin 2 accounts_db))) \<and>
   accounts_kept (snd (no_redis, accounts_db)) (snd (no_redis, snd (promoteAdmin sample_admin 2 accounts_db)))"
  by (rule accounts_reachable [OF r_into_rtranclp, OF step_promote [where c = sample_crypto and cfg = sample_config]])
    (simp add: accounts_db_inv)

theorem seedAdmin_login_witness:
  "\<exists>a s' (u :: user). seedAdminUser ''n@x.io'' None (bcrypt_hash sample_crypto [] ''secret1'') accounts_db = (Inr a, s') \<and>
     u_id u = sa_id a \<and> u_is_admin u \<and>
     (is_ok (fst (login sample_crypto sample_config (sample_randoms ''j'') ''n@x.io'' ''secret1'' (no_redis, s'))) \<longleftrightarrow>
        u_deleted_at u = None)"
proof -
  have inv: "accounts_inv (snd (no_redis, accounts_db))" by (simp add: accounts_db_inv)
  have "is_ok (fst (seedAdminUser ''n@x.io'' None (bcrypt_hash sample_crypto [] ''secret1'') accounts_db))" by code_simp
  then obtain a s' where run: "seedAdminUser ''n@x.io'' None (bcrypt_hash sample_crypto [] ''secret1'') (snd (no_redis, accounts_db)) = (Inr a, s')"
    by (metis is_okE prod.collapse snd_conv)
  then have run': "seedAdminUser ''n@x.io'' None (bcrypt_hash sample_crypto [] ''secret1'') accounts_db = (Inr a, s')" by simp
  obtain u :: user where "u_id u = sa_id a" "u_is_admin u"
      "is_ok (fst (login sample_crypto sample_config (sample_randoms ''j'') ''n@x.io'' ''secret1'' (fst (no_redis, accounts_db), s'))) \<longleftrightarrow>
        u_deleted_at u = None"
    using seedAdmin_login [OF inv sample_bcrypt run, of sample_config "sample_randoms ''j''" "[]", THEN conjunct1]
    by (elim exE conjE) (rule that)
  then show ?thesis using run' by (metis fst_conv)
qed

end
