(* ===== verification/Files.thy ===== *)
theory Files
  imports Accounts
begin

text \<open>
  Uploads: \<open>FilesService\<close> (\<open>src/files/files.service.ts\<close>) and the direct-upload intent of the Cloudinary
  uploader (\<open>src/files/storage\<close>). The random suffix of an object key and SHA-1 are parameters; \<open>Date.now()\<close>
  is the clock in milliseconds, and the expiry of an intent is kept as such a number. The configuration
  admits no storage provider but Cloudinary, so a row has no bucket.
\<close>

section \<open>Object keys\<close>

definition safe_char :: "char \<Rightarrow> bool" where
  "safe_char c \<longleftrightarrow> is_letter c \<or> is_digit c \<or> c = CHR ''.'' \<or> c = CHR ''_'' \<or> c = CHR ''-''"

text \<open>\<open>name.replace(/\.[^.]+$/, '')\<close>: the last extension, when it is not empty.\<close>

definition strip_extension :: "string \<Rightarrow> string" where
  "strip_extension name =
     (let ext = takeWhile (\<lambda>c. c \<noteq> CHR ''.'') (rev name); rest = dropWhile (\<lambda>c. c \<noteq> CHR ''.'') (rev name) in
      if ext = [] \<or> rest = [] then name else rev (tl rest))"

definition buildObjectKey :: "time \<Rightarrow> string \<Rightarrow> string \<Rightarrow> int option \<Rightarrow> string \<Rightarrow> string \<Rightarrow> string" where
  "buildObjectKey now rand ownerType ownerId filename mimeType =
     (let safeFilename = map (\<lambda>c. if safe_char c then c else CHR ''_'') filename;
          isImageOrVideo = (starts_with mimeType ''image/'' \<or> starts_with mimeType ''video/'');
          safeBaseName = (if isImageOrVideo then strip_extension safeFilename else safeFilename)
      in ownerType @ ''/'' @ (case ownerId of None \<Rightarrow> ''temp'' | Some n \<Rightarrow> show_int n) @ ''/'' @
         show_int (now div 1000) @ ''-'' @ rand @ ''-'' @ safeBaseName)"

section \<open>Upload intents\<close>

record upload_intent =
  ui_method :: string
  ui_url :: string
  ui_fields :: "(string \<times> string) list"
  ui_expiresAt :: int

definition signParams :: "(string \<Rightarrow> string) \<Rightarrow> (string \<times> string) list \<Rightarrow> string \<Rightarrow> string" where
  "signParams sha1_hex params apiSecret = sha1_hex (join ''&'' (map (\<lambda>(k, v). k @ ''='' @ v) params) @ apiSecret)"

text \<open>The two signed parameters are listed in the order of their names.\<close>

definition cloudinary_createUploadIntent :: "(string \<Rightarrow> string) \<Rightarrow> app_config \<Rightarrow> time \<Rightarrow> string \<Rightarrow> int \<Rightarrow> upload_intent" where
  "cloudinary_createUploadIntent sha1_hex cfg now objectKey expiresIn =
     (let expiresInSeconds = max 1 expiresIn;
          timestampSeconds = (now div 1000) div 1000;
          timestamp = show_int timestampSeconds;
          signature = signParams sha1_hex [(''public_id'', objectKey), (''timestamp'', timestamp)] (cloudinaryApiSecret cfg)
      in \<lparr>ui_method = ''POST'',
          ui_url = ''https://api.cloudinary.com/v1_1/'' @ cloudinaryCloudName cfg @ ''/auto/upload'',
          ui_fields = [(''api_key'', cloudinaryApiKey cfg), (''public_id'', objectKey), (''timestamp'', timestamp),
            (''signature'', signature)],
          ui_expiresAt = (timestampSeconds + expiresInSeconds) * 1000\<rparr>)"

section \<open>Requests\<close>

record create_upload_intent_dto =
  ui_ownerType :: string
  ui_ownerId :: "int option"
  ui_purpose :: file_purpose
  ui_filename :: string
  ui_mimeType :: string
  ui_fileSizeBytes :: "int option"

record file_answer =
  fw_id :: int
  fw_objectKey :: string
  fw_status :: file_status

definition new_file :: "auth_user \<Rightarrow> create_upload_intent_dto \<Rightarrow> string \<Rightarrow> int \<Rightarrow> time \<Rightarrow> file_row" where
  "new_file user dto objectKey ident now =
     \<lparr>f_id = ident, f_uploader_user_id = Some (sub user), f_owner_type = ui_ownerType dto, f_owner_id = ui_ownerId dto,
      f_purpose = ui_purpose dto, f_storage_provider = ''cloudinary'', f_bucket = None, f_object_key = objectKey,
      f_original_filename = Some (ui_filename dto), f_mime_type = Some (ui_mimeType dto),
      f_file_size_bytes = ui_fileSizeBytes dto, f_checksum_sha256 = None, f_status = File_pending, f_uploaded_at = None,
      f_created_at = now, f_updated_at = now\<rparr>"

text \<open>The constraints of the table \<open>files\<close> the insertion could violate.\<close>

definition f_check :: "file_row \<Rightarrow> bool" where
  "f_check f \<longleftrightarrow> List.member [''user'', ''product'', ''message''] (f_owner_type f) \<and>
     opt_holds (f_file_size_bytes f) (\<lambda>n. 0 \<le> n) \<and> opt_holds (f_owner_id f) (\<lambda>n. 0 < n)"

definition insert_file :: "auth_user \<Rightarrow> create_upload_intent_dto \<Rightarrow> string \<Rightarrow> (db, int) handler" where
  "insert_file user dto objectKey s =
     (let s1 = bump T_files s; f = new_file user dto objectKey (seqs s T_files) (clock s) in
      if \<not> f_check f then (Inl (SqlError ''23514''), s1)
      else if list_ex (\<lambda>g. f_storage_provider g = ''cloudinary'' \<and> coalesce (f_bucket g) [] = [] \<and> f_object_key g = objectKey)
                (files s)
      then (Inl (SqlError ''23505''), s1)
      else if \<not> has_key u_id (sub user) (users s) then (Inl (SqlError ''23503''), s1)
      else (Inr (f_id f), s1\<lparr>files := files s @ [f]\<rparr>))"

definition createUploadIntent ::
  "(string \<Rightarrow> string) \<Rightarrow> app_config \<Rightarrow> string \<Rightarrow> auth_user \<Rightarrow> create_upload_intent_dto \<Rightarrow>
     (db, file_answer \<times> upload_intent) handler" where
  "createUploadIntent sha1_hex cfg rand user dto s =
     (let objectKey = buildObjectKey (clock s) rand (ui_ownerType dto) (ui_ownerId dto) (ui_filename dto) (ui_mimeType dto)
      in (case insert_file user dto objectKey s of
            (Inl e, s') \<Rightarrow> (Inl e, s')
          | (Inr fileId, s') \<Rightarrow>
              (Inr (\<lparr>fw_id = fileId, fw_objectKey = objectKey, fw_status = File_pending\<rparr>,
                    cloudinary_createUploadIntent sha1_hex cfg (clock s') objectKey (storageUploadTtlSeconds cfg)), s')))"

definition uploaded_set :: "string option \<Rightarrow> time \<Rightarrow> file_row \<Rightarrow> file_row" where
  "uploaded_set checksum now f =
     f\<lparr>f_status := File_uploaded, f_uploaded_at := Some now,
       f_checksum_sha256 := coalesce_opt checksum (f_checksum_sha256 f), f_updated_at := now\<rparr>"

definition markUploaded :: "auth_user \<Rightarrow> int \<Rightarrow> string option \<Rightarrow> (db, file_answer) handler" where
  "markUploaded user fileId checksum s =
     (case row_by f_id fileId (files s) of
        None \<Rightarrow> (Inl (NotFound ''File not found''), s)
      | Some f \<Rightarrow>
          if toPositiveInt (id_js (f_uploader_user_id f)) \<noteq> Some (sub user) then (Inl (Forbidden ''Not allowed''), s)
          else (Inr \<lparr>fw_id = fileId, fw_objectKey = f_object_key f, fw_status = File_uploaded\<rparr>,
                s\<lparr>files := update_where (\<lambda>g. f_id g = fileId) (uploaded_set checksum (clock s)) (files s)\<rparr>))"

definition getFile :: "app_config \<Rightarrow> db \<Rightarrow> auth_user \<Rightarrow> int \<Rightarrow> (file_row \<times> string) result" where
  "getFile cfg s user fileId =
     (case row_by f_id fileId (files s) of
        None \<Rightarrow> Inl (NotFound ''File not found'')
      | Some f \<Rightarrow>
          if \<not> isAdmin user \<and> toPositiveInt (id_js (f_uploader_user_id f)) \<noteq> Some (sub user)
          then Inl (Forbidden ''Not allowed'')
          else Inr (f, buildReadUrl cfg (f_object_key f) (coalesce (f_mime_type f) [])))"

section \<open>What an object key looks like\<close>

lemma strip_extension_subset: "set (strip_extension name) \<subseteq> set name"
proof -
  let ?rest = "dropWhile (\<lambda>c. c \<noteq> CHR ''.'') (rev name)"
  have "set (tl ?rest) \<subseteq> set (rev name)"
    using set_dropWhileD list.set_sel(2) by (metis subsetI tl_Nil)
  then show ?thesis by (auto simp: strip_extension_def Let_def)
qed

lemma safe_replace: "list_all safe_char (map (\<lambda>c. if safe_char c then c else CHR ''_'') name)"
  by (induction name) (simp_all add: safe_char_def)

lemma list_all_subset: "list_all p xs \<Longrightarrow> set ys \<subseteq> set xs \<Longrightarrow> list_all p ys"
  by (auto simp: list_all_iff)

lemma if_cases: "p x \<Longrightarrow> p y \<Longrightarrow> p (if b then x else y)"
  by simp

lemma digits_safe: "list_all is_digit s \<Longrightarrow> list_all safe_char s"
  by (simp add: list_all_iff safe_char_def)

lemma show_int_safe: "list_all safe_char (show_int n)"
  using all_digits_show_nat by (auto simp: show_int_def all_digits_def intro!: digits_safe) (simp_all add: safe_char_def)

lemma buildObjectKey_safe:
  assumes "list_all safe_char rand"
  shows "\<exists>owner base. buildObjectKey now rand ownerType ownerId filename mimeType = ownerType @ ''/'' @ owner @ ''/'' @ base \<and>
    list_all safe_char (owner @ base)"
proof -
  let ?safe = "map (\<lambda>c. if safe_char c then c else CHR ''_'') filename"
  let ?name = "if starts_with mimeType ''image/'' \<or> starts_with mimeType ''video/'' then strip_extension ?safe else ?safe"
  let ?owner = "case ownerId of None \<Rightarrow> ''temp'' | Some n \<Rightarrow> show_int n"
  have stripped: "list_all safe_char (strip_extension ?safe)"
    by (rule list_all_subset [OF safe_replace strip_extension_subset])
  have "list_all safe_char ?name" by (rule if_cases [where p = "list_all safe_char", OF stripped safe_replace [of filename]])
  moreover have "list_all safe_char ''-''" by (simp add: safe_char_def)
  moreover have "list_all safe_char ?owner"
    using show_int_safe by (simp add: safe_char_def is_letter_def Let_def split: option.split)
  ultimately have "list_all safe_char (?owner @ show_int (now div 1000) @ ''-'' @ rand @ ''-'' @ ?name)"
    using assms show_int_safe by simp
  then show ?thesis unfolding buildObjectKey_def Let_def by blast
qed

section \<open>From the intent to the use of a file\<close>

lemma createUploadIntent_ok:
  assumes "createUploadIntent sha1_hex cfg rand user dto s = (Inr (a, i), s')"
  shows "files s' = files s @ [new_file user dto (fw_objectKey a) (fw_id a) (clock s)]" "fw_id a = seqs s T_files"
    "fw_objectKey a = buildObjectKey (clock s) rand (ui_ownerType dto) (ui_ownerId dto) (ui_filename dto) (ui_mimeType dto)"
    "clock s' = clock s"
  using assms
  by (auto simp: createUploadIntent_def insert_file_def Let_def new_file_def split: if_split_asm prod.split_asm sum.split_asm)


section \<open>Example\<close>

definition sample_upload :: create_upload_intent_dto where
  "sample_upload = \<lparr>ui_ownerType = ''product'', ui_ownerId = Some 5, ui_purpose = Purpose_product_image,
     ui_filename = ''my/photo.jpg'', ui_mimeType = ''image/jpeg'', ui_fileSizeBytes = Some 1000\<rparr>"


end
