(* ===== verification/Chat.thy ===== *)
theory Chat
  imports Files Followups
begin

text \<open>
  Direct messages between users: \<open>ChatService\<close> (\<open>src/chat/chat.service.ts\<close>). A conversation belongs to an
  unordered pair of users, stored with the smaller id first. Rows are kept as rows: the timestamps
  \<open>normalizeTimestamp\<close> prints stay numbers, and logging is left out. The sockets are the theory \<open>Gateway\<close>.
\<close>

section \<open>Conversations\<close>

record conversation_view =
  cv_id :: int
  cv_product_id :: "int option"
  cv_created_at :: time
  cv_last_message :: "message option"
  cv_peer_user_id :: int
  cv_unread_count :: int
  cv_product_name :: "string option"
  cv_product_price :: "int option"
  cv_image :: "(int \<times> string) option"

definition assertConversationParticipant :: "db \<Rightarrow> int \<Rightarrow> int \<Rightarrow> unit result" where
  "assertConversationParticipant s conversationId userId =
     (case row_by c_id conversationId (conversations s) of
        None \<Rightarrow> Inl (NotFound ''Conversation not found'')
      | Some c \<Rightarrow>
          (case (toPositiveInt (id_js (Some (c_user_a_id c))), toPositiveInt (id_js (Some (c_user_b_id c)))) of
             (Some userAId, Some userBId) \<Rightarrow>
               if userAId \<noteq> userId \<and> userBId \<noteq> userId
               then Inl (Forbidden ''Not a participant of this conversation'')
               else Inr ()
           | _ \<Rightarrow> Inl (NotFound ''Conversation participants are invalid'')))"

definition peer_of :: "int \<Rightarrow> conversation \<Rightarrow> int" where
  "peer_of userId c = (if c_user_a_id c = userId then c_user_b_id c else c_user_a_id c)"

definition unread_count :: "db \<Rightarrow> int \<Rightarrow> int \<Rightarrow> int" where
  "unread_count s userId conversationId =
     int (length (filter (\<lambda>m. m_conversation_id m = conversationId \<and> m_sender_id m \<noteq> userId \<and> m_read_at m = None)
       (messages s)))"

text \<open>The joined row of one conversation: the peer is an inner join, everything else an outer one.\<close>

definition conversation_row :: "db \<Rightarrow> int \<Rightarrow> conversation \<Rightarrow> conversation_view option" where
  "conversation_row s userId c =
     (if \<not> has_key u_id (peer_of userId c) (users s) then None
      else
        let p = Option.bind (c_product_id c) (live_listing s) in
        Some \<lparr>cv_id = c_id c, cv_product_id = c_product_id c, cv_created_at = c_created_at c,
          cv_last_message = Option.bind (c_last_message_id c) (\<lambda>i. row_by m_id i (messages s)),
          cv_peer_user_id = peer_of userId c, cv_unread_count = unread_count s userId (c_id c),
          cv_product_name = map_option p_name p, cv_product_price = map_option p_price p,
          cv_image = (case p of
             None \<Rightarrow> None
           | Some r \<Rightarrow> (case sort_key pi_sort_order (filter (\<lambda>i. pi_product_id i = p_id r) (product_images s)) of
               [] \<Rightarrow> None
             | i # _ \<Rightarrow> Some (pi_file_id i, pi_object_key i)))\<rparr>)"

definition getConversationById :: "db \<Rightarrow> int \<Rightarrow> int \<Rightarrow> conversation_view result" where
  "getConversationById s userId conversationId =
     (case assertConversationParticipant s conversationId userId of
        Inl e \<Rightarrow> Inl e
      | Inr _ \<Rightarrow>
          (case Option.bind (row_by c_id conversationId (conversations s)) (conversation_row s userId) of
             None \<Rightarrow> Inl (NotFound ''Conversation not found'')
           | Some v \<Rightarrow> Inr v))"

datatype chat_scope = Scope_all | Scope_buy | Scope_sell

definition scope_where :: "db \<Rightarrow> int \<Rightarrow> chat_scope \<Rightarrow> conversation \<Rightarrow> bool" where
  "scope_where s userId scope c \<longleftrightarrow>
     (let p = Option.bind (c_product_id c) (live_listing s) in
      case scope of
        Scope_all \<Rightarrow> True
      | Scope_buy \<Rightarrow> (case p of None \<Rightarrow> False | Some r \<Rightarrow> p_owner_id r \<noteq> userId)
      | Scope_sell \<Rightarrow> (case p of None \<Rightarrow> False | Some r \<Rightarrow> p_owner_id r = userId))"

definition last_activity :: "conversation_view \<Rightarrow> time" where
  "last_activity v = coalesce (map_option m_sent_at (cv_last_message v)) (cv_created_at v)"

definition listConversations :: "db \<Rightarrow> int \<Rightarrow> chat_scope \<Rightarrow> page_query \<Rightarrow> conversation_view list" where
  "listConversations s userId scope pagination =
     paged pagination 20 100 (sort_key (\<lambda>v. - last_activity v)
       (List.map_filter (conversation_row s userId)
         (filter (\<lambda>c. (c_user_a_id c = userId \<or> c_user_b_id c = userId) \<and> scope_where s userId scope c) (conversations s))))"

text \<open>
  The comparison of the owner with the two users is \<open>===\<close> between a \<open>BIGINT\<close>, which the driver returns as a
  string, and a number.
\<close>

definition conversation_product :: "db \<Rightarrow> int \<Rightarrow> int \<Rightarrow> int option \<Rightarrow> int option result" where
  "conversation_product s userId participantId productId =
     (if productId = None \<or> productId = Some 0 then Inr None
      else (case live_listing s (the productId) of
          None \<Rightarrow> Inl (NotFound ''Product not found'')
        | Some r \<Rightarrow>
            let ownerId = id_js (Some (p_owner_id r));
                isParticipantOwner = (ownerId = Num (whole userId) \<or> ownerId = Num (whole participantId))
            in if p_status r \<noteq> Listing_available \<and> \<not> isParticipantOwner
               then Inl (Forbidden ''Product is not available for conversation'')
               else Inr productId))"

definition pair_conversation :: "db \<Rightarrow> int \<Rightarrow> int \<Rightarrow> conversation option" where
  "pair_conversation s userAId userBId = find (\<lambda>c. c_user_a_id c = userAId \<and> c_user_b_id c = userBId) (conversations s)"

definition insert_conversation :: "int \<Rightarrow> int \<Rightarrow> int option \<Rightarrow> (db, int) handler" where
  "insert_conversation userAId userBId productId s =
     (let s1 = bump T_conversations s;
          c = \<lparr>c_id = seqs s T_conversations, c_user_a_id = userAId, c_user_b_id = userBId, c_product_id = productId,
               c_last_message_id = None, c_created_at = clock s\<rparr>
      in if \<not> userAId < userBId then (Inl (SqlError ''23514''), s1)
         else if pair_conversation s userAId userBId \<noteq> None then (Inl (SqlError ''23505''), s1)
         else if \<not> has_key u_id userAId (users s) \<or> \<not> has_key u_id userBId (users s) \<or>
           (case productId of None \<Rightarrow> False | Some p \<Rightarrow> \<not> has_key p_id p (products s))
         then (Inl (SqlError ''23503''), s1)
         else (Inr (c_id c), s1\<lparr>conversations := conversations s @ [c]\<rparr>))"

definition getOrCreateConversation :: "int \<Rightarrow> int \<Rightarrow> int option \<Rightarrow> (db, conversation_view) handler" where
  "getOrCreateConversation userId participantId productId s =
     (if userId = participantId then (Inl (BadRequest ''Cannot start conversation with yourself''), s)
      else (case assertUserExists s participantId ''Participant'' of
          Inl e \<Rightarrow> (Inl e, s)
        | Inr _ \<Rightarrow>
            (case conversation_product s userId participantId productId of
               Inl e \<Rightarrow> (Inl e, s)
             | Inr validatedProductId \<Rightarrow>
                 let userAId = min userId participantId; userBId = max userId participantId in
                 (case pair_conversation s userAId userBId of
                    Some c \<Rightarrow>
                      let s' = (if validatedProductId \<noteq> None \<and> c_product_id c = None
                            then s\<lparr>conversations := update_where (\<lambda>d. c_id d = c_id c)
                                    (\<lambda>d. d\<lparr>c_product_id := validatedProductId\<rparr>) (conversations s)\<rparr>
                            else s)
                      in (getConversationById s' userId (c_id c), s')
                  | None \<Rightarrow>
                      (case insert_conversation userAId userBId validatedProductId s of
                         (Inl e, s') \<Rightarrow>
                           (Inl (if e = SqlError ''23503'' then NotFound ''Participant or product not found'' else e), s')
                       | (Inr i, s') \<Rightarrow> (getConversationById s' userId i, s'))))))"

section \<open>Messages\<close>

definition listMessages :: "db \<Rightarrow> int \<Rightarrow> int \<Rightarrow> int \<Rightarrow> time option \<Rightarrow> message list result" where
  "listMessages s userId conversationId lim before =
     (case assertConversationParticipant s conversationId userId of
        Inl e \<Rightarrow> Inl e
      | Inr _ \<Rightarrow> Inr (take (nat lim) (sort_key (\<lambda>m. - m_sent_at m)
          (filter (\<lambda>m. m_conversation_id m = conversationId \<and> opt_holds before (\<lambda>t. m_sent_at m < t)) (messages s)))))"

definition getConversationParticipants :: "db \<Rightarrow> int \<Rightarrow> (int \<times> int) result" where
  "getConversationParticipants s conversationId =
     (case row_by c_id conversationId (conversations s) of
        None \<Rightarrow> Inl (NotFound ''Conversation not found'')
      | Some c \<Rightarrow>
          (case (toPositiveInt (id_js (Some (c_user_a_id c))), toPositiveInt (id_js (Some (c_user_b_id c)))) of
             (Some userAId, Some userBId) \<Rightarrow> Inr (userAId, userBId)
           | _ \<Rightarrow> Inl (NotFound ''Conversation participants are invalid'')))"

definition insert_message :: "int \<Rightarrow> int \<Rightarrow> string \<Rightarrow> (db, message) handler" where
  "insert_message conversationId senderId messageText s =
     (let s1 = bump T_messages s;
          m = \<lparr>m_id = seqs s T_messages, m_conversation_id = conversationId, m_sender_id = senderId,
               m_message_text = messageText, m_sent_at = clock s, m_read_at = None\<rparr>
      in if blank_text messageText then (Inl (SqlError ''23514''), s1)
         else if \<not> has_key c_id conversationId (conversations s) \<or> \<not> has_key u_id senderId (users s)
         then (Inl (SqlError ''23503''), s1)
         else (Inr m, s1\<lparr>messages := messages s @ [m]\<rparr>))"

definition chat_sendMessage :: "int \<Rightarrow> int \<Rightarrow> string \<Rightarrow> (db, message) handler" where
  "chat_sendMessage userId conversationId messageText s =
     (case assertConversationParticipant s conversationId userId of
        Inl e \<Rightarrow> (Inl e, s)
      | Inr _ \<Rightarrow>
          (case insert_message conversationId userId messageText s of
             (Inl e, s') \<Rightarrow> (Inl (if e = SqlError ''23503'' then NotFound ''Conversation not found'' else e), s')
           | (Inr m, s') \<Rightarrow>
               (Inr m, s'\<lparr>conversations := update_where (\<lambda>c. c_id c = conversationId)
                   (\<lambda>c. c\<lparr>c_last_message_id := Some (m_id m)\<rparr>) (conversations s')\<rparr>)))"

definition read_set :: "time \<Rightarrow> message \<Rightarrow> message" where
  "read_set now m = m\<lparr>m_read_at := (case m_read_at m of None \<Rightarrow> Some now | Some t \<Rightarrow> Some t)\<rparr>"

definition chat_markRead :: "int \<Rightarrow> int \<Rightarrow> (db, message) handler" where
  "chat_markRead userId messageId s =
     (case row_by m_id messageId (messages s) of
        None \<Rightarrow> (Inl (NotFound ''Message not found''), s)
      | Some m \<Rightarrow>
          (case (toPositiveInt (id_js (Some (m_conversation_id m))), toPositiveInt (id_js (Some (m_sender_id m)))) of
             (Some conversationId, Some senderId) \<Rightarrow>
               (case assertConversationParticipant s conversationId userId of
                  Inl e \<Rightarrow> (Inl e, s)
                | Inr _ \<Rightarrow>
                    if senderId = userId then (Inl (Forbidden ''Only recipients can mark messages as read''), s)
                    else (Inr (read_set (clock s) m),
                          s\<lparr>messages := update_where (\<lambda>d. m_id d = messageId) (read_set (clock s)) (messages s)\<rparr>))
           | _ \<Rightarrow> (Inl (NotFound ''Message has invalid ownership data''), s)))"

section \<open>Parties and the state invariant\<close>

definition is_party :: "db \<Rightarrow> int \<Rightarrow> int \<Rightarrow> bool" where
  "is_party s i u \<longleftrightarrow>
     (case row_by c_id i (conversations s) of
        None \<Rightarrow> False
      | Some c \<Rightarrow> c_user_a_id c = u \<or> c_user_b_id c = u)"

definition latest_message :: "db \<Rightarrow> int \<Rightarrow> int option" where
  "latest_message s i = map_option m_id (find (\<lambda>m. m_conversation_id m = i) (rev (messages s)))"

definition conversation_ok :: "db \<Rightarrow> conversation \<Rightarrow> bool" where
  "conversation_ok s c \<longleftrightarrow>
     0 < c_id c \<and> 0 < c_user_a_id c \<and> c_user_a_id c < c_user_b_id c \<and>
     has_key u_id (c_user_a_id c) (users s) \<and> has_key u_id (c_user_b_id c) (users s) \<and>
     c_last_message_id c = latest_message s (c_id c)"

definition pair_of :: "conversation \<Rightarrow> int \<times> int" where
  "pair_of c = (c_user_a_id c, c_user_b_id c)"

definition chat_inv :: "db \<Rightarrow> bool" where
  "chat_inv s \<longleftrightarrow>
     pk c_id (seqs s T_conversations) (conversations s) \<and> 0 < seqs s T_conversations \<and>
     pk m_id (seqs s T_messages) (messages s) \<and>
     list_all (conversation_ok s) (conversations s) \<and> distinct (map pair_of (conversations s)) \<and>
     list_all (\<lambda>m. is_party s (m_conversation_id m) (m_sender_id m)) (messages s)"

lemma chat_invD:
  assumes "chat_inv s"
  shows "pk c_id (seqs s T_conversations) (conversations s)" "0 < seqs s T_conversations"
    "pk m_id (seqs s T_messages) (messages s)" "c \<in> set (conversations s) \<Longrightarrow> conversation_ok s c"
    "distinct (map pair_of (conversations s))"
    "m \<in> set (messages s) \<Longrightarrow> is_party s (m_conversation_id m) (m_sender_id m)"
  using assms by (simp_all add: chat_inv_def list_all_iff)

lemma is_partyE:
  assumes "is_party s i u"
  obtains c where "c \<in> set (conversations s)" "c_id c = i" "row_by c_id i (conversations s) = Some c"
    "c_user_a_id c = u \<or> c_user_b_id c = u"
  using assms row_by_Some [of c_id i "conversations s"] by (auto simp: is_party_def split: option.splits)

lemma is_party_row: "row_by c_id i (conversations s) = Some c \<Longrightarrow> is_party s i u \<longleftrightarrow> c_user_a_id c = u \<or> c_user_b_id c = u"
  by (simp add: is_party_def)

lemma party_user: "chat_inv s \<Longrightarrow> is_party s i u \<Longrightarrow> has_key u_id u (users s) \<and> 0 < u \<and> 0 < i"
  by (elim is_partyE) (auto dest!: chat_invD(4) simp: conversation_ok_def)

lemma id_js_row: "0 < n \<Longrightarrow> toPositiveInt (id_js (Some n)) = Some n"
  using toPositiveInt_row [of n n] by simp

text \<open>The guard of every operation on a conversation.\<close>

lemma assert_party:
  assumes "chat_inv s"
  shows "assertConversationParticipant s i u =
    (if is_party s i u then Inr ()
     else if has_key c_id i (conversations s) then Inl (Forbidden ''Not a participant of this conversation'')
     else Inl (NotFound ''Conversation not found''))"
proof (cases "row_by c_id i (conversations s)")
  case None
  then show ?thesis by (simp add: assertConversationParticipant_def is_party_def has_key_row_by)
next
  case (Some c)
  have "c \<in> set (conversations s)" using row_by_Some [OF Some] by simp
  then have "0 < c_user_a_id c" "0 < c_user_b_id c"
    using chat_invD(4) [OF assms, of c] by (auto simp: conversation_ok_def)
  then show ?thesis using Some by (simp add: assertConversationParticipant_def is_party_def has_key_row_by id_js_row)
qed

lemma participants_ok:
  assumes "chat_inv s" and "row_by c_id i (conversations s) = Some c"
  shows "getConversationParticipants s i = Inr (c_user_a_id c, c_user_b_id c)"
proof -
  have "0 < c_user_a_id c" "0 < c_user_b_id c"
    using chat_invD(4) [OF assms(1), of c] row_by_Some [OF assms(2)] by (auto simp: conversation_ok_def)
  then show ?thesis using assms(2) by (simp add: getConversationParticipants_def id_js_row)
qed

lemma conversation_row_ok:
  assumes "chat_inv s" and "c \<in> set (conversations s)"
  shows "\<exists>v. conversation_row s u c = Some v \<and> cv_id v = c_id c \<and> cv_peer_user_id v = peer_of u c"
proof -
  have "has_key u_id (peer_of u c) (users s)"
    using chat_invD(4) [OF assms] by (auto simp: conversation_ok_def peer_of_def)
  then show ?thesis by (simp add: conversation_row_def Let_def)
qed

lemma getConversationById_ok:
  assumes "chat_inv s"
  shows "is_ok (getConversationById s u i) \<longleftrightarrow> is_party s i u"
    and "getConversationById s u i = Inr v \<Longrightarrow> cv_id v = i \<and> is_party s i u"
proof -
  have *: "\<exists>v. getConversationById s u i = Inr v \<and> cv_id v = i" if p: "is_party s i u"
  proof -
    obtain c where c: "c \<in> set (conversations s)" "c_id c = i" "row_by c_id i (conversations s) = Some c"
      using p by (rule is_partyE)
    then show ?thesis using conversation_row_ok [OF assms c(1), of u] p assert_party [OF assms, of i u]
      by (auto simp: getConversationById_def)
  qed
  have **: "\<not> is_ok (getConversationById s u i)" if "\<not> is_party s i u"
    using that assert_party [OF assms, of i u] by (auto simp: getConversationById_def)
  show "is_ok (getConversationById s u i) \<longleftrightarrow> is_party s i u" using * ** by fastforce
  show "cv_id v = i \<and> is_party s i u" if "getConversationById s u i = Inr v"
    using that * ** by fastforce
qed

section \<open>Every operation keeps the invariant\<close>

lemma is_party_update:
  assumes "conversations s' = update_where p f (conversations s)"
    and "\<And>c. c_id (f c) = c_id c \<and> c_user_a_id (f c) = c_user_a_id c \<and> c_user_b_id (f c) = c_user_b_id c"
  shows "is_party s' i u = is_party s i u"
proof -
  have "row_by c_id i (conversations s') = map_option (\<lambda>c. if p c then f c else c) (row_by c_id i (conversations s))"
    unfolding assms(1) by (rule row_by_update) (simp add: assms(2))
  then show ?thesis by (simp add: is_party_def assms(2) split: option.split)
qed

lemma is_party_same: "conversations s' = conversations s \<Longrightarrow> is_party s' i u = is_party s i u"
  by (simp add: is_party_def)

lemma party_bound: "chat_inv s \<Longrightarrow> is_party s i u \<Longrightarrow> i < seqs s T_conversations"
  by (elim is_partyE) (auto dest!: chat_invD(1) simp: pk_def)

lemma latest_None: "chat_inv s \<Longrightarrow> seqs s T_conversations \<le> i \<Longrightarrow> latest_message s i = None"
  using party_bound chat_invD(6) by (fastforce simp: latest_message_def find_None_iff)

text \<open>Requests that leave the conversations and the messages alone.\<close>

lemma chat_inv_same:
  assumes "chat_inv s" and "conversations s' = conversations s" "messages s' = messages s"
    and "seqs s T_conversations \<le> seqs s' T_conversations" "seqs s T_messages \<le> seqs s' T_messages"
    and "\<And>k. has_key u_id k (users s) \<Longrightarrow> has_key u_id k (users s')"
  shows "chat_inv s'"
proof -
  note inv = chat_invD [OF assms(1)]
  have "conversation_ok s' c" if "c \<in> set (conversations s)" for c
    using inv(4) [OF that] assms(3,6) by (simp add: conversation_ok_def latest_message_def)
  moreover have "is_party s' (m_conversation_id m) (m_sender_id m)" if "m \<in> set (messages s)" for m
    using inv(6) [OF that] is_party_same [OF assms(2)] by simp
  ultimately show ?thesis
    using pk_mono [OF inv(1) assms(4)] pk_mono [OF inv(3) assms(5)] inv(2,5) assms(2-4)
    by (simp add: chat_inv_def list_all_iff)
qed

lemma pair_conversation_None: "pair_conversation s a b = None \<longleftrightarrow> (a, b) \<notin> pair_of ` set (conversations s)"
  by (auto simp: pair_conversation_def find_None_iff pair_of_def)

lemma insert_conversation_ok:
  assumes "chat_inv s" and "0 < a" and "insert_conversation a b p s = (Inr i, s')"
  shows "chat_inv s' \<and> i = seqs s T_conversations \<and> pair_conversation s a b = None \<and> messages s' = messages s \<and>
    (\<exists>c. conversations s' = conversations s @ [c] \<and> c_id c = i \<and> pair_of c = (a, b)) \<and>
    (\<forall>j u. is_party s' j u \<longleftrightarrow> is_party s j u \<or> j = i \<and> (u = a \<or> u = b))"
proof -
  note inv = chat_invD [OF assms(1)]
  define c where "c = \<lparr>c_id = seqs s T_conversations, c_user_a_id = a, c_user_b_id = b, c_product_id = p,
               c_last_message_id = None, c_created_at = clock s\<rparr>"
  have s': "s' = (bump T_conversations s)\<lparr>conversations := conversations s @ [c]\<rparr>" "i = seqs s T_conversations"
    and guard: "a < b" "pair_conversation s a b = None" "has_key u_id a (users s)" "has_key u_id b (users s)"
    using assms(3) by (auto simp: insert_conversation_def Let_def c_def split: if_splits)
  have c: "c_id c = i" "pair_of c = (a, b)" by (simp_all add: c_def s'(2) pair_of_def)
  have row: "row_by c_id j (conversations s') = (if j = i then Some c else row_by c_id j (conversations s))" for j
    using row_by_fresh [OF inv(1)] c by (auto simp: s' row_by_append split: option.split)
  have old: "\<not> is_party s i u" for u using party_bound [OF assms(1), of i u] s'(2) by auto
  have party: "is_party s' j u \<longleftrightarrow> is_party s j u \<or> j = i \<and> (u = a \<or> u = b)" for j u
    using row [of j] old by (auto simp: is_party_def c_def)
  have ok: "conversation_ok s' d" if "d \<in> set (conversations s)" for d
    using inv(4) [OF that] by (simp add: s'(1) conversation_ok_def latest_message_def)
  moreover have "conversation_ok s' c"
    using latest_None [OF assms(1), of i] inv(2) guard assms(2) s'(2)
    by (simp add: s'(1) conversation_ok_def latest_message_def c_def)
  moreover have "pk c_id (seqs s T_conversations + 1) (conversations s @ [c])"
    using inv(1) c s'(2) by (intro pk_insert) auto
  moreover have "pair_of c \<notin> pair_of ` set (conversations s)"
    using guard(2) c by (simp add: pair_conversation_None)
  moreover have "is_party s' (m_conversation_id m) (m_sender_id m)" if "m \<in> set (messages s)" for m
    using inv(6) [OF that] party by simp
  ultimately have "chat_inv s'"
    using inv(2,3,5) by (simp add: chat_inv_def list_all_iff s'(1))
  then show ?thesis using party guard(2) s' c by auto
qed

lemma insert_conversation_fails: "insert_conversation a b p s = (Inl e, s') \<Longrightarrow> s' = bump T_conversations s"
  by (auto simp: insert_conversation_def Let_def split: if_splits)

lemma chat_inv_bump: "chat_inv s \<Longrightarrow> chat_inv (bump t s)"
  by (rule chat_inv_same) simp_all

lemma attach_product:
  assumes "chat_inv s"
  shows "chat_inv (s\<lparr>conversations := update_where p (\<lambda>d. d\<lparr>c_product_id := x\<rparr>) (conversations s)\<rparr>)" (is "chat_inv ?s")
proof -
  note inv = chat_invD [OF assms]
  have party: "is_party ?s i u = is_party s i u" for i u
    by (rule is_party_update [where p = p and f = "\<lambda>d. d\<lparr>c_product_id := x\<rparr>"]) simp_all
  have "conversation_ok ?s d" if "d \<in> set (conversations ?s)" for d
    using that inv(4) by (auto simp: set_update_where conversation_ok_def latest_message_def)
  moreover have "map pair_of (conversations ?s) = map pair_of (conversations s)"
    by (auto simp: pair_of_def intro!: update_where_ids)
  ultimately show ?thesis using inv party pk_update [of c_id "\<lambda>d. d\<lparr>c_product_id := x\<rparr>"]
    by (simp add: chat_inv_def list_all_iff)
qed

lemma chat_send_runs:
  assumes "chat_inv s"
  shows "chat_sendMessage u i text s =
    (if \<not> is_party s i u
     then (Inl (if has_key c_id i (conversations s) then Forbidden ''Not a participant of this conversation''
         else NotFound ''Conversation not found''), s)
     else if blank_text text then (Inl (SqlError ''23514''), bump T_messages s)
     else let m = \<lparr>m_id = seqs s T_messages, m_conversation_id = i, m_sender_id = u, m_message_text = text,
              m_sent_at = clock s, m_read_at = None\<rparr> in
       (Inr m, (bump T_messages s)\<lparr>messages := messages s @ [m],
          conversations := update_where (\<lambda>c. c_id c = i) (\<lambda>c. c\<lparr>c_last_message_id := Some (m_id m)\<rparr>) (conversations s)\<rparr>))"
proof (cases "is_party s i u")
  case True
  then obtain c where "row_by c_id i (conversations s) = Some c" by (rule is_partyE)
  then have "has_key c_id i (conversations s)" "has_key u_id u (users s)"
    using party_user [OF assms True] by (simp_all add: has_key_row_by)
  then show ?thesis using True by (simp add: chat_sendMessage_def assert_party [OF assms] insert_message_def Let_def)
qed (simp add: chat_sendMessage_def assert_party [OF assms])

lemma latest_message_snoc:
  "messages s' = messages s @ [m] \<Longrightarrow>
    latest_message s' i = (if m_conversation_id m = i then Some (m_id m) else latest_message s i)"
  by (simp add: latest_message_def)

lemma chat_send_ok:
  assumes "chat_inv s" and "chat_sendMessage u i text s = (Inr m, s')"
  shows "is_party s i u" "\<not> blank_text text" "messages s' = messages s @ [m]"
    "conversations s' = update_where (\<lambda>c. c_id c = i) (\<lambda>c. c\<lparr>c_last_message_id := Some (m_id m)\<rparr>) (conversations s)"
    "m = \<lparr>m_id = seqs s T_messages, m_conversation_id = i, m_sender_id = u, m_message_text = text,
      m_sent_at = clock s, m_read_at = None\<rparr>"
    "users s' = users s" "clock s' = clock s" "is_party s' = is_party s" "chat_inv s'"
proof -
  note inv = chat_invD [OF assms(1)]
  show r: "is_party s i u" "\<not> blank_text text" "messages s' = messages s @ [m]"
    "conversations s' = update_where (\<lambda>c. c_id c = i) (\<lambda>c. c\<lparr>c_last_message_id := Some (m_id m)\<rparr>) (conversations s)"
    "m = \<lparr>m_id = seqs s T_messages, m_conversation_id = i, m_sender_id = u, m_message_text = text,
      m_sent_at = clock s, m_read_at = None\<rparr>"
    "users s' = users s" "clock s' = clock s"
    using assms(2) by (auto simp: chat_send_runs [OF assms(1)] Let_def split: if_splits)
  have seqs: "seqs s' = (seqs s)(T_messages := seqs s T_messages + 1)"
    using assms(2) by (auto simp: chat_send_runs [OF assms(1)] Let_def split: if_splits)
  have party: "is_party s' j v = is_party s j v" for j v by (rule is_party_update [OF r(4)]) simp
  show "is_party s' = is_party s" by (intro ext) (rule party)
  have "conversation_ok s' d" if "d \<in> set (conversations s')" for d
  proof -
    from that obtain d0 where d0: "d = (if c_id d0 = i then d0\<lparr>c_last_message_id := Some (m_id m)\<rparr> else d0)"
        "d0 \<in> set (conversations s)"
      unfolding r(4) set_update_where by (rule imageE)
    have "latest_message s' (c_id d0) = (if c_id d0 = i then Some (m_id m) else latest_message s (c_id d0))"
      using latest_message_snoc [OF r(3), of "c_id d0"] by (simp add: r(5) eq_commute)
    then show ?thesis using inv(4) [OF d0(2)] unfolding d0(1)
      by (cases "c_id d0 = i") (simp_all add: conversation_ok_def r(6))
  qed
  moreover have "map pair_of (conversations s') = map pair_of (conversations s)"
    unfolding r(4) by (auto simp: pair_of_def intro!: update_where_ids)
  moreover have "pk c_id (seqs s' T_conversations) (conversations s')"
    unfolding r(4) seqs using pk_update [OF _ inv(1), of "\<lambda>c. c\<lparr>c_last_message_id := Some (m_id m)\<rparr>"] by simp
  moreover have "pk m_id (seqs s T_messages + 1) (messages s @ [m])"
    by (rule pk_insert [OF inv(3)]) (simp add: r(5))
  ultimately show "chat_inv s'"
    using inv(2,5,6) r(1,5) party by (simp add: chat_inv_def list_all_iff r(3) seqs)
qed

lemma chat_send_fails:
  assumes "chat_inv s" and "chat_sendMessage u i text s = (Inl e, s')"
  shows "s' = s \<or> s' = bump T_messages s"
  using assms(2) by (auto simp: chat_send_runs [OF assms(1)] Let_def split: if_splits)

lemma chat_read_ok:
  assumes "chat_inv s" and "chat_markRead u k s = (Inr m, s')"
  shows "is_party s (m_conversation_id m) u" "m_id m = k" "m_sender_id m \<noteq> u" "m_read_at m \<noteq> None"
    "s' = s\<lparr>messages := update_where (\<lambda>d. m_id d = k) (read_set (clock s)) (messages s)\<rparr>" "chat_inv s'"
proof -
  note inv = chat_invD [OF assms(1)]
  obtain m0 where m0: "row_by m_id k (messages s) = Some m0"
    using assms(2) by (auto simp: chat_markRead_def split: option.splits)
  then have mem: "m0 \<in> set (messages s)" "m_id m0 = k" using row_by_Some [OF m0] by auto
  have pos: "0 < m_conversation_id m0" "0 < m_sender_id m0" using party_user [OF assms(1) inv(6) [OF mem(1)]] by auto
  have run: "m = read_set (clock s) m0" "is_party s (m_conversation_id m0) u" "m_sender_id m0 \<noteq> u"
    and s': "s' = s\<lparr>messages := update_where (\<lambda>d. m_id d = k) (read_set (clock s)) (messages s)\<rparr>"
    using assms(2) m0 pos
    by (auto simp: chat_markRead_def assert_party [OF assms(1)] id_js_row split: if_splits sum.splits)
  show "is_party s (m_conversation_id m) u" "m_id m = k" "m_sender_id m \<noteq> u" "m_read_at m \<noteq> None"
    using run mem by (simp_all add: read_set_def split: option.split)
  show "s' = s\<lparr>messages := update_where (\<lambda>d. m_id d = k) (read_set (clock s)) (messages s)\<rparr>" by (rule s')
  have keep: "m_id (read_set t d) = m_id d" "m_conversation_id (read_set t d) = m_conversation_id d"
    "m_sender_id (read_set t d) = m_sender_id d" for t d by (simp_all add: read_set_def)
  have latest: "latest_message s' j = latest_message s j" for j
  proof -
    have r: "rev (messages s') = update_where (\<lambda>d. m_id d = k) (read_set (clock s)) (rev (messages s))"
      by (simp add: s' update_where_def rev_map)
    show ?thesis unfolding latest_message_def r
      by (subst find_update_where) (auto simp: keep option.map_comp comp_def intro!: option.map_cong)
  qed
  have party: "is_party s' j v = is_party s j v" for j v by (rule is_party_same) (simp add: s')
  have "conversation_ok s' d" if "d \<in> set (conversations s)" for d
    using inv(4) [OF that] by (simp add: conversation_ok_def latest) (simp add: s')
  moreover have "is_party s' (m_conversation_id d) (m_sender_id d)" if "d \<in> set (messages s')" for d
    using that inv(6) unfolding party unfolding s' by (auto simp: set_update_where keep)
  moreover have "pk m_id (seqs s T_messages) (messages s')"
    unfolding s' using pk_update [OF _ inv(3), of "read_set (clock s)"] by (simp add: keep)
  ultimately show "chat_inv s'"
    using inv(1,2,5) by (simp add: chat_inv_def list_all_iff) (simp add: s')
qed

lemma chat_read_fails: "chat_markRead u k s = (Inl e, s') \<Longrightarrow> s' = s"
  by (auto simp: chat_markRead_def split: option.splits sum.splits if_splits)

section \<open>One conversation for each pair\<close>

definition chosen_product :: "int option \<Rightarrow> int option" where
  "chosen_product productId = (if productId = Some 0 then None else productId)"

definition product_open :: "db \<Rightarrow> int option \<Rightarrow> bool" where
  "product_open s productId \<longleftrightarrow>
     (case chosen_product productId of
        None \<Rightarrow> True
      | Some p \<Rightarrow> (case live_listing s p of None \<Rightarrow> False | Some r \<Rightarrow> p_status r = Listing_available))"

text \<open>A string is never \<open>===\<close> to a number, so the exception made for the owner of the listing never applies.\<close>

lemma conversation_product_ok:
  "conversation_product s u v p =
     (if product_open s p then Inr (chosen_product p)
      else if live_listing s (the p) = None then Inl (NotFound ''Product not found'')
      else Inl (Forbidden ''Product is not available for conversation''))"
  by (auto simp: conversation_product_def product_open_def chosen_product_def id_js_def Let_def split: option.split)

lemma product_open_key: "product_open s p \<Longrightarrow> chosen_product p = Some k \<Longrightarrow> has_key p_id k (products s)"
  by (auto simp: product_open_def live_listing_def has_key_iff split: option.splits dest!: find_SomeD)

lemma pair_conversation_iff:
  assumes "chat_inv s"
  shows "pair_conversation s a b = Some c \<longleftrightarrow> c \<in> set (conversations s) \<and> pair_of c = (a, b)"
proof
  assume "pair_conversation s a b = Some c"
  then show "c \<in> set (conversations s) \<and> pair_of c = (a, b)"
    by (auto simp: pair_conversation_def pair_of_def dest!: find_SomeD)
next
  assume c: "c \<in> set (conversations s) \<and> pair_of c = (a, b)"
  then have "(a, b) \<in> pair_of ` set (conversations s)" by (auto intro: rev_image_eqI)
  then obtain d where d: "pair_conversation s a b = Some d" using pair_conversation_None [of s a b] by auto
  then have "d \<in> set (conversations s)" "pair_of d = (a, b)"
    by (auto simp: pair_conversation_def pair_of_def dest!: find_SomeD)
  then have "d = c" using c chat_invD(5) [OF assms] by (auto simp: distinct_map inj_on_def)
  with d show "pair_conversation s a b = Some c" by simp
qed

text \<open>What a successful request does to the tables.\<close>

definition opened :: "db \<Rightarrow> int \<Rightarrow> int \<Rightarrow> int option \<Rightarrow> db" where
  "opened s a b q =
     (case pair_conversation s a b of
        Some c \<Rightarrow>
          if q \<noteq> None \<and> c_product_id c = None
          then s\<lparr>conversations := update_where (\<lambda>d. c_id d = c_id c) (\<lambda>d. d\<lparr>c_product_id := q\<rparr>) (conversations s)\<rparr>
          else s
      | None \<Rightarrow> snd (insert_conversation a b q s))"

lemma insert_conversation_runs:
  assumes "has_key u_id u (users s)" "live_user s v \<noteq> None" "u \<noteq> v" "product_open s p"
    and "pair_conversation s (min u v) (max u v) = None"
  obtains s' where "insert_conversation (min u v) (max u v) (chosen_product p) s = (Inr (seqs s T_conversations), s')"
    "users s' = users s"
    "conversations s' = conversations s @ [\<lparr>c_id = seqs s T_conversations, c_user_a_id = min u v, c_user_b_id = max u v,
       c_product_id = chosen_product p, c_last_message_id = None, c_created_at = clock s\<rparr>]"
proof -
  have "has_key u_id v (users s)"
    using assms(2) by (auto simp: live_user_def has_key_iff dest!: find_SomeD)
  then have "has_key u_id (min u v) (users s)" "has_key u_id (max u v) (users s)"
    using assms(1) by (auto simp: min_def max_def)
  moreover have "min u v < max u v" using assms(3) by auto
  moreover have "\<not> (case chosen_product p of None \<Rightarrow> False | Some p \<Rightarrow> \<not> has_key p_id p (products s))"
    using product_open_key [OF assms(4)] by (auto split: option.split)
  ultimately show ?thesis using assms(5) that by (simp add: insert_conversation_def Let_def)
qed

lemma opened_again: "pair_conversation s a b = Some c \<Longrightarrow> opened s a b None = s"
  by (simp add: opened_def)

lemma no_product [simp]: "product_open s None" "chosen_product None = None"
  by (simp_all add: product_open_def chosen_product_def)

lemma getOrCreateConversation_runs:
  assumes "chat_inv s" and "0 < u" "0 < v" "has_key u_id u (users s)"
  shows "getOrCreateConversation u v p s =
     (if u = v then (Inl (BadRequest ''Cannot start conversation with yourself''), s)
      else if live_user s v = None then (Inl (NotFound ''Participant not found''), s)
      else if \<not> product_open s p
      then (Inl (if live_listing s (the p) = None then NotFound ''Product not found''
              else Forbidden ''Product is not available for conversation''), s)
      else
        let s' = opened s (min u v) (max u v) (chosen_product p) in
        (getConversationById s' u (case pair_conversation s (min u v) (max u v) of
           Some c \<Rightarrow> c_id c | None \<Rightarrow> seqs s T_conversations), s'))"
proof (cases "u \<noteq> v \<and> live_user s v \<noteq> None \<and> product_open s p \<and> pair_conversation s (min u v) (max u v) = None")
    case True
    then have *: "u \<noteq> v" "live_user s v \<noteq> None" "product_open s p" "pair_conversation s (min u v) (max u v) = None" by auto
    obtain w where "live_user s v = Some w" using *(2) by auto
    moreover obtain s1 where "insert_conversation (min u v) (max u v) (chosen_product p) s = (Inr (seqs s T_conversations), s1)"
      using insert_conversation_runs [OF assms(4) *(2,1,3,4)] by metis
    ultimately show ?thesis using *
      by (simp add: getOrCreateConversation_def assertUserExists_def conversation_product_ok Let_def opened_def)
  next
    case False
    then consider "u = v" | "u \<noteq> v" "live_user s v = None" | w where "u \<noteq> v" "live_user s v = Some w" "\<not> product_open s p"
      | w c where "u \<noteq> v" "live_user s v = Some w" "product_open s p" "pair_conversation s (min u v) (max u v) = Some c"
      by auto
    then show ?thesis
      by cases (simp_all add: getOrCreateConversation_def assertUserExists_def conversation_product_ok Let_def opened_def)
qed
lemma filter_key: "distinct (map f xs) \<Longrightarrow> x \<in> set xs \<Longrightarrow> filter (\<lambda>y. f y = f x) xs = [x]"
proof (induction xs)
  case (Cons a xs)
  show ?case
  proof (cases "a = x")
    case True
    with Cons.prems(1) have "\<forall>y \<in> set xs. f y \<noteq> f x" by (metis distinct.simps(2) imageI list.map(2) set_map)
    then show ?thesis using True by (simp add: filter_empty_conv)
  next
    case False
    with Cons.prems have "f a \<noteq> f x" by force
    then show ?thesis using Cons False by simp
  qed
qed simp

definition kept_product :: "db \<Rightarrow> int \<Rightarrow> int \<Rightarrow> int option \<Rightarrow> int option" where
  "kept_product s a b q =
     (case pair_conversation s a b of
        None \<Rightarrow> q
      | Some c \<Rightarrow> if c_product_id c = None then q else c_product_id c)"

lemma opened_ok:
  assumes inv: "chat_inv s" and pos: "0 < u" "0 < v" and ok: "has_key u_id u (users s)" "live_user s v \<noteq> None" "u \<noteq> v" "product_open s p"
  obtains c where "chat_inv (opened s (min u v) (max u v) (chosen_product p))"
    "users (opened s (min u v) (max u v) (chosen_product p)) = users s"
    "c \<in> set (conversations (opened s (min u v) (max u v) (chosen_product p)))" "pair_of c = (min u v, max u v)"
    "c_id c = (case pair_conversation s (min u v) (max u v) of Some c \<Rightarrow> c_id c | None \<Rightarrow> seqs s T_conversations)"
    "c_product_id c = kept_product s (min u v) (max u v) (chosen_product p)"
proof (cases "pair_conversation s (min u v) (max u v)")
  case None
  obtain s' where s': "insert_conversation (min u v) (max u v) (chosen_product p) s = (Inr (seqs s T_conversations), s')"
    "users s' = users s"
    "conversations s' = conversations s @ [\<lparr>c_id = seqs s T_conversations, c_user_a_id = min u v, c_user_b_id = max u v,
       c_product_id = chosen_product p, c_last_message_id = None, c_created_at = clock s\<rparr>]"
    by (rule insert_conversation_runs [OF ok None])
  have "chat_inv s'" using insert_conversation_ok [OF inv _ s'(1)] pos by (simp add: min_def)
  then show ?thesis using None s' by (intro that) (auto simp: opened_def pair_of_def kept_product_def)
next
  case (Some c)
  then have c: "c \<in> set (conversations s)" "pair_of c = (min u v, max u v)"
    using pair_conversation_iff [OF inv] by auto
  let ?d = "c\<lparr>c_product_id := kept_product s (min u v) (max u v) (chosen_product p)\<rparr>"
  have "?d \<in> set (conversations (opened s (min u v) (max u v) (chosen_product p)))"
  proof (cases "chosen_product p \<noteq> None \<and> c_product_id c = None")
    case True
    then show ?thesis
      using c(1) Some by (auto simp: opened_def kept_product_def set_update_where intro!: image_eqI [where x = c])
  next
    case False
    then have "kept_product s (min u v) (max u v) (chosen_product p) = c_product_id c"
      using Some by (auto simp: kept_product_def)
    moreover have "opened s (min u v) (max u v) (chosen_product p) = s" using False Some by (auto simp: opened_def)
    ultimately show ?thesis using c(1) by simp
  qed
  moreover have "chat_inv (opened s (min u v) (max u v) (chosen_product p))"
    using inv Some attach_product [OF inv] by (simp add: opened_def)
  ultimately show ?thesis using c(2) Some by (intro that [of ?d]) (simp_all add: opened_def pair_of_def)
qed

lemma opened_party:
  assumes inv: "chat_inv s" and pos: "0 < u" "0 < v" and ok: "has_key u_id u (users s)" "live_user s v \<noteq> None" "u \<noteq> v" "product_open s p"
    and party: "is_party s j w"
  shows "is_party (opened s (min u v) (max u v) (chosen_product p)) j w"
proof (cases "pair_conversation s (min u v) (max u v)")
  case None
  obtain s' where s': "insert_conversation (min u v) (max u v) (chosen_product p) s = (Inr (seqs s T_conversations), s')"
    by (rule insert_conversation_runs [OF ok None])
  then show ?thesis using insert_conversation_ok [OF inv _ s'] pos party None by (simp add: opened_def min_def)
next
  case (Some c)
  then show ?thesis using party
    is_party_update [of "s\<lparr>conversations := update_where (\<lambda>d. c_id d = c_id c) (\<lambda>d. d\<lparr>c_product_id := chosen_product p\<rparr>) (conversations s)\<rparr>"
      "\<lambda>d. c_id d = c_id c" "\<lambda>d. d\<lparr>c_product_id := chosen_product p\<rparr>" s j w]
    by (simp add: opened_def)
qed

lemma getOrCreateConversation_kept:
  assumes inv: "chat_inv s" and pos: "0 < u" "0 < v" and key: "has_key u_id u (users s)"
    and run: "getOrCreateConversation u v p s = (r, s')"
  shows "chat_inv s' \<and> (\<forall>j w. is_party s j w \<longrightarrow> is_party s' j w) \<and> (\<forall>a. r = Inr a \<longrightarrow> is_party s' (cv_id a) u)"
proof (cases "u \<noteq> v \<and> live_user s v \<noteq> None \<and> product_open s p")
  case True
  then have ok: "live_user s v \<noteq> None" "u \<noteq> v" "product_open s p" by auto
  note runs = getOrCreateConversation_runs [OF inv pos key, of p, unfolded run]
  have s': "s' = opened s (min u v) (max u v) (chosen_product p)" using runs ok by (simp add: Let_def)
  have r: "\<exists>i. r = getConversationById s' u i" using runs ok s' by (auto simp: Let_def)
  have "chat_inv s'" unfolding s' by (rule opened_ok [OF inv pos key ok])
  moreover have "is_party s' (cv_id a) u" if "r = Inr a" for a
    using r that getConversationById_ok(2) [OF \<open>chat_inv s'\<close>] by metis
  ultimately show ?thesis using opened_party [OF inv pos key ok] s' by blast
next
  case False
  then show ?thesis using getOrCreateConversation_runs [OF inv pos key, of p, unfolded run] inv
    by (auto split: if_splits)
qed

text \<open>
  C29: \<open>POST /chat/conversations\<close> succeeds exactly when the participant is another user who is not deleted and the
  product, if one is named, is a listing on offer (a sold or hidden listing is refused to its owner too). Two
  users then share exactly one conversation, whoever opens it and however often: the peer who asks for it in
  turn gets the same one and changes nothing. The conversation keeps the first product it is opened with.
\<close>

theorem one_conversation_per_pair:
  assumes inv: "chat_inv s" and pos: "0 < u" "0 < v" and key: "has_key u_id u (users s)"
  shows "(is_ok (fst (getOrCreateConversation u v p s)) \<longleftrightarrow> u \<noteq> v \<and> live_user s v \<noteq> None \<and> product_open s p) \<and>
    (\<forall>a s'. getOrCreateConversation u v p s = (Inr a, s') \<longrightarrow>
       chat_inv s' \<and>
       map c_id (filter (\<lambda>c. pair_of c = (min u v, max u v)) (conversations s')) = [cv_id a] \<and>
       cv_peer_user_id a = v \<and> cv_product_id a = kept_product s (min u v) (max u v) (chosen_product p) \<and>
       (live_user s u \<noteq> None \<longrightarrow>
          (\<exists>b. getOrCreateConversation v u None s' = (Inr b, s') \<and> cv_id b = cv_id a \<and> cv_peer_user_id b = u)))"
proof -
  let ?a = "min u v" and ?b = "max u v" and ?q = "chosen_product p"
  let ?s = "opened s ?a ?b ?q"
  let ?i = "case pair_conversation s ?a ?b of Some c \<Rightarrow> c_id c | None \<Rightarrow> seqs s T_conversations"
  note runs = getOrCreateConversation_runs [OF inv pos key, of p]
  have main: "is_ok (getConversationById ?s u ?i) \<and>
      (\<forall>a. getConversationById ?s u ?i = Inr a \<longrightarrow>
        chat_inv ?s \<and> map c_id (filter (\<lambda>c. pair_of c = (?a, ?b)) (conversations ?s)) = [cv_id a] \<and>
        cv_peer_user_id a = v \<and> cv_product_id a = kept_product s ?a ?b ?q \<and>
        (live_user s u \<noteq> None \<longrightarrow>
          (\<exists>b. getOrCreateConversation v u None ?s = (Inr b, ?s) \<and> cv_id b = cv_id a \<and> cv_peer_user_id b = u)))"
    if ok: "u \<noteq> v" "live_user s v \<noteq> None" "product_open s p"
  proof -
    obtain c where c: "chat_inv ?s" "users ?s = users s" "c \<in> set (conversations ?s)" "pair_of c = (?a, ?b)" "c_id c = ?i"
        "c_product_id c = kept_product s ?a ?b ?q"
      by (rule opened_ok [OF inv pos key ok(2,1,3)])
    have row: "row_by c_id ?i (conversations ?s) = Some c"
      using pk_row_by [OF chat_invD(1) [OF c(1)] c(3)] by (simp add: c(5))
    have ab: "c_user_a_id c = ?a" "c_user_b_id c = ?b" using c(4) by (simp_all add: pair_of_def)
    have party: "is_party ?s ?i u" "is_party ?s ?i v" using ab unfolding is_party_row [OF row] by (auto simp: min_def max_def)
    have peer: "peer_of u c = v" "peer_of v c = u" using ab ok(1) by (auto simp: peer_of_def min_def max_def)
    have get: "getConversationById ?s w ?i = Inr (the (conversation_row ?s w c)) \<and>
        cv_id (the (conversation_row ?s w c)) = ?i \<and> cv_peer_user_id (the (conversation_row ?s w c)) = peer_of w c"
      if "is_party ?s ?i w" for w
      using conversation_row_ok [OF c(1,3), of w] that row
      by (auto simp: getConversationById_def assert_party [OF c(1)] c(5))
    have product: "cv_product_id (the (conversation_row ?s u c)) = kept_product s ?a ?b ?q"
      using conversation_row_ok [OF c(1,3), of u] c(6) by (auto simp: conversation_row_def Let_def)
    have "has_key u_id v (users ?s)"
      using party_user [OF c(1) party(2)] by simp
    note runs' = getOrCreateConversation_runs [OF c(1) pos(2,1) this, of None]
    have pair: "pair_conversation ?s (min v u) (max v u) = Some c"
      using pair_conversation_iff [OF c(1)] c(3,4) by (simp add: min.commute max.commute)
    have "getOrCreateConversation v u None ?s = (getConversationById ?s v ?i, ?s)" if "live_user s u \<noteq> None"
    proof -
      have "live_user ?s u \<noteq> None" using that c(2) by (simp add: live_user_def)
      then obtain w where "live_user ?s u = Some w" by auto
      then show ?thesis using runs' pair ok(1)
        by (simp add: opened_again c(5) Let_def)
    qed
    moreover have "filter (\<lambda>d. pair_of d = (?a, ?b)) (conversations ?s) = [c]"
      using filter_key [OF chat_invD(5) [OF c(1)] c(3)] c(4) by simp
    ultimately show ?thesis using get [OF party(1)] get [OF party(2)] peer product c(1,5) by auto
  qed
  then show ?thesis unfolding runs Let_def by (auto split: if_splits)
qed

theorem one_conversation_per_pair_witness:
  "\<exists>a s'. getOrCreateConversation 2 3 None sample_db = (Inr a, s') \<and> cv_peer_user_id a = 3 \<and>
     (\<exists>b. getOrCreateConversation 3 2 None s' = (Inr b, s') \<and> cv_id b = cv_id a)"
proof -
  have inv: "chat_inv sample_db" and key: "has_key u_id 2 (users sample_db)" and live: "live_user sample_db 3 \<noteq> None"
    "live_user sample_db 2 \<noteq> None"
    by code_simp+
  have pos: "0 < (2::int)" "0 < (3::int)" by simp_all
  note rule = one_conversation_per_pair [OF inv pos key, of None]
  have "is_ok (fst (getOrCreateConversation 2 3 None sample_db))" using rule live by simp
  then obtain a s' where run: "getOrCreateConversation 2 3 None sample_db = (Inr a, s')"
    by (metis is_okE prod.collapse)
  then show ?thesis using rule live(2) by blast
qed

end
