(* ===== verification/Gateway.thy ===== *)
theory Gateway
  imports Chat
begin

text \<open>
  Chat over sockets: the registry of connected sockets (\<open>src/chat/chat-socket-registry.service.ts\<close>), the
  gateway (\<open>chat.gateway.ts\<close>) and the request that opens a conversation (\<open>chat.controller.ts\<close>). Socket.io is
  a parameter, the record \<open>socket_io\<close>, with the documented behaviour of joining, leaving and listing a room
  as hypothesis. A payload is kept as the row it is built from; its expansion is the subject of the theory
  \<open>FkExpansion\<close>. Logging is left out.
\<close>

section \<open>Sockets and rooms\<close>

text \<open>
  Socket.io, over its own state: joining a room, leaving every room on disconnection, and the sockets an
  emission to a room reaches.
\<close>

record 'h socket_io =
  io_join :: "string \<Rightarrow> string \<Rightarrow> 'h \<Rightarrow> 'h"
  io_leave :: "string \<Rightarrow> 'h \<Rightarrow> 'h"
  io_members :: "'h \<Rightarrow> string \<Rightarrow> string list"

definition socket_io_ok :: "'h socket_io \<Rightarrow> bool" where
  "socket_io_ok io \<longleftrightarrow>
     (\<forall>k r h r'. set (io_members io (io_join io k r h) r') =
        (if r' = r then insert k (set (io_members io h r')) else set (io_members io h r'))) \<and>
     (\<forall>k h r. set (io_members io (io_leave io k h) r) = set (io_members io h r) - {k})"

datatype ws_payload = Conversation_joined conversation_view | Message_received message | Message_read message

text \<open>An emission, with the users whose sockets it reached.\<close>

record emission =
  em_room :: string
  em_payload :: ws_payload
  em_users :: "int option list"

record 'h hub =
  hb_db :: db
  hb_io :: 'h
  hb_server :: bool
  hb_sockets :: "int \<Rightarrow> string list option"
  hb_user :: "string \<Rightarrow> int option"
  hb_emitted :: "emission list"

definition roomName :: "int \<Rightarrow> string" where
  "roomName conversationId = ''conversation:'' @ show_int conversationId"

definition emit :: "'h socket_io \<Rightarrow> string \<Rightarrow> ws_payload \<Rightarrow> 'h hub \<Rightarrow> 'h hub" where
  "emit io room payload h =
     h\<lparr>hb_emitted := hb_emitted h @
        [\<lparr>em_room = room, em_payload = payload, em_users = map (hb_user h) (io_members io (hb_io h) room)\<rparr>]\<rparr>"

definition afterInit :: "'h hub \<Rightarrow> 'h hub" where
  "afterInit h = h\<lparr>hb_server := True\<rparr>"

text \<open>A JavaScript set of sockets, in the order of insertion.\<close>

definition registerUserSocket :: "int \<Rightarrow> string \<Rightarrow> 'h hub \<Rightarrow> 'h hub" where
  "registerUserSocket userId socket h =
     (let sockets = coalesce (hb_sockets h userId) [] in
      h\<lparr>hb_sockets := (hb_sockets h)(userId \<mapsto> (if List.member sockets socket then sockets else sockets @ [socket]))\<rparr>)"

definition unregisterUserSocket :: "int \<Rightarrow> string \<Rightarrow> 'h hub \<Rightarrow> 'h hub" where
  "unregisterUserSocket userId socket h =
     (case hb_sockets h userId of
        None \<Rightarrow> h
      | Some sockets \<Rightarrow>
          let rest = filter (\<lambda>k. k \<noteq> socket) sockets in
          if rest = [] then h\<lparr>hb_sockets := (hb_sockets h)(userId := None)\<rparr>
          else h\<lparr>hb_sockets := (hb_sockets h)(userId \<mapsto> rest)\<rparr>)"

definition join_all :: "'h socket_io \<Rightarrow> string \<Rightarrow> string list \<Rightarrow> 'h \<Rightarrow> 'h" where
  "join_all io room sockets = fold (\<lambda>k. io_join io k room) sockets"

definition emitConversationJoinedToParticipants ::
  "'h socket_io \<Rightarrow> int \<Rightarrow> js list \<Rightarrow> ws_payload \<Rightarrow> 'h hub \<Rightarrow> 'h hub" where
  "emitConversationJoinedToParticipants io conversationId participantUserIds payload h =
     (if \<not> hb_server h then h
      else
        let room = roomName conversationId;
            uniqueUserIds = rev (remdups (rev (List.map_filter toPositiveInt participantUserIds)));
            io' = fold (\<lambda>u. join_all io room (coalesce (hb_sockets h u) [])) uniqueUserIds (hb_io h)
        in emit io room payload (h\<lparr>hb_io := io'\<rparr>))"

section \<open>The gateway\<close>

text \<open>\<open>text.replace(/^Bearer\s+/i, '')\<close>.\<close>

definition strip_bearer :: "string \<Rightarrow> string" where
  "strip_bearer t =
     (if lower (take 6 t) = ''bearer'' \<and> drop 6 t \<noteq> [] \<and> is_space (hd (drop 6 t))
      then dropWhile is_space (drop 6 t) else t)"

definition extractToken :: "string option \<Rightarrow> string option \<Rightarrow> string option" where
  "extractToken authToken header =
     (if \<not> falsy authToken then Some (strip_bearer (the authToken))
      else if \<not> falsy header then Some (strip_bearer (the header)) else None)"

definition handleDisconnect :: "'h socket_io \<Rightarrow> string \<Rightarrow> 'h hub \<Rightarrow> 'h hub" where
  "handleDisconnect io client h =
     (let h' = (case hb_user h client of None \<Rightarrow> h | Some u \<Rightarrow> unregisterUserSocket u client h) in
      h'\<lparr>hb_io := io_leave io client (hb_io h'), hb_user := (hb_user h')(client := None)\<rparr>)"

definition token_subject :: "string crypto \<Rightarrow> app_config \<Rightarrow> time \<Rightarrow> string option \<Rightarrow> int option" where
  "token_subject c cfg now tok =
     (case tok of
        None \<Rightarrow> None
      | Some t \<Rightarrow>
          (case jwt_verify c (jwtAccessSecret cfg) now t of
             None \<Rightarrow> None
           | Some payload \<Rightarrow>
               (case to_integer (js_toNumber (jp_sub payload)) of
                  None \<Rightarrow> None
                | Some n \<Rightarrow> if 0 < n then Some n else None)))"

definition handleConnection ::
  "string crypto \<Rightarrow> app_config \<Rightarrow> 'h socket_io \<Rightarrow> string option \<Rightarrow> string option \<Rightarrow> string \<Rightarrow> 'h hub \<Rightarrow> 'h hub" where
  "handleConnection c cfg io authToken header client h =
     (case token_subject c cfg (clock (hb_db h)) (extractToken authToken header) of
        None \<Rightarrow> handleDisconnect io client h
      | Some userId \<Rightarrow> registerUserSocket userId client (h\<lparr>hb_user := (hb_user h)(client \<mapsto> userId)\<rparr>))"

definition getUser :: "'h hub \<Rightarrow> string \<Rightarrow> int result" where
  "getUser h client =
     (case hb_user h client of None \<Rightarrow> Inl (Unauthorized ''Unauthorized'') | Some u \<Rightarrow> Inr u)"

definition join_and_emit :: "'h socket_io \<Rightarrow> string \<Rightarrow> string \<Rightarrow> ws_payload \<Rightarrow> 'h hub \<Rightarrow> 'h hub" where
  "join_and_emit io client room payload h = emit io room payload (h\<lparr>hb_io := io_join io client room (hb_io h)\<rparr>)"

definition joinConversation :: "'h socket_io \<Rightarrow> string \<Rightarrow> int \<Rightarrow> ('h hub, string) handler" where
  "joinConversation io client conversationId h =
     (case getUser h client of
        Inl e \<Rightarrow> (Inl e, h)
      | Inr u \<Rightarrow>
          (case assertConversationParticipant (hb_db h) conversationId u of
             Inl e \<Rightarrow> (Inl e, h)
           | Inr _ \<Rightarrow>
               (case getConversationById (hb_db h) u conversationId of
                  Inl e \<Rightarrow> (Inl e, h)
                | Inr v \<Rightarrow>
                    let room = roomName conversationId
                    in (Inr room, join_and_emit io client room (Conversation_joined v) h))))"

definition ws_sendMessage :: "'h socket_io \<Rightarrow> string \<Rightarrow> int \<Rightarrow> string \<Rightarrow> ('h hub, message) handler" where
  "ws_sendMessage io client conversationId body h =
     (case getUser h client of
        Inl e \<Rightarrow> (Inl e, h)
      | Inr u \<Rightarrow>
          (case chat_sendMessage u conversationId body (hb_db h) of
             (Inl e, s') \<Rightarrow> (Inl e, h\<lparr>hb_db := s'\<rparr>)
           | (Inr m, s') \<Rightarrow>
               (Inr m, join_and_emit io client (roomName conversationId) (Message_received m) (h\<lparr>hb_db := s'\<rparr>))))"

definition ws_markRead :: "'h socket_io \<Rightarrow> string \<Rightarrow> int \<Rightarrow> ('h hub, message) handler" where
  "ws_markRead io client messageId h =
     (case getUser h client of
        Inl e \<Rightarrow> (Inl e, h)
      | Inr u \<Rightarrow>
          (case chat_markRead u messageId (hb_db h) of
             (Inl e, s') \<Rightarrow> (Inl e, h\<lparr>hb_db := s'\<rparr>)
           | (Inr m, s') \<Rightarrow>
               (Inr m, join_and_emit io client (roomName (m_conversation_id m)) (Message_read m) (h\<lparr>hb_db := s'\<rparr>))))"

text \<open>\<open>POST /chat/conversations\<close>.\<close>

definition createConversation ::
  "'h socket_io \<Rightarrow> auth_user \<Rightarrow> int \<Rightarrow> int option \<Rightarrow> ('h hub, conversation_view) handler" where
  "createConversation io user participantId productId h =
     (case getOrCreateConversation (sub user) participantId productId (hb_db h) of
        (Inl e, s') \<Rightarrow> (Inl e, h\<lparr>hb_db := s'\<rparr>)
      | (Inr v, s') \<Rightarrow>
          let h' = h\<lparr>hb_db := s'\<rparr> in
          (case toPositiveInt (id_js (Some (cv_id v))) of
             None \<Rightarrow> (Inr v, h')
           | Some conversationId \<Rightarrow>
               (case getConversationParticipants s' conversationId of
                  Inl e \<Rightarrow> (Inl e, h')
                | Inr (userAId, userBId) \<Rightarrow>
                    (Inr v, emitConversationJoinedToParticipants io conversationId [Num (whole userAId), Num (whole userBId)]
                       (Conversation_joined v) h'))))"

section \<open>Who hears what\<close>

fun payload_conversation :: "ws_payload \<Rightarrow> int" where
  "payload_conversation (Conversation_joined v) = cv_id v"
| "payload_conversation (Message_received m) = m_conversation_id m"
| "payload_conversation (Message_read m) = m_conversation_id m"

definition emission_private :: "db \<Rightarrow> emission \<Rightarrow> bool" where
  "emission_private s e \<longleftrightarrow>
     em_room e = roomName (payload_conversation (em_payload e)) \<and>
     list_all (\<lambda>x. case x of None \<Rightarrow> False | Some u \<Rightarrow> is_party s (payload_conversation (em_payload e)) u) (em_users e)"

definition registry_agrees :: "'h hub \<Rightarrow> bool" where
  "registry_agrees h \<longleftrightarrow> (\<forall>u k. k \<in> set (coalesce (hb_sockets h u) []) \<longleftrightarrow> hb_user h k = Some u)"

definition rooms_private :: "'h socket_io \<Rightarrow> 'h hub \<Rightarrow> bool" where
  "rooms_private io h \<longleftrightarrow>
     (\<forall>k r. k \<in> set (io_members io (hb_io h) r) \<longrightarrow>
        (\<exists>i u. r = roomName i \<and> hb_user h k = Some u \<and> is_party (hb_db h) i u))"

definition hub_inv :: "'h socket_io \<Rightarrow> 'h hub \<Rightarrow> bool" where
  "hub_inv io h \<longleftrightarrow> chat_inv (hb_db h) \<and> rooms_private io h \<and> registry_agrees h \<and>
     list_all (emission_private (hb_db h)) (hb_emitted h)"

text \<open>Everything that can happen to the hub; what other requests do to the tables is the last rule.\<close>

inductive hub_step :: "string crypto \<Rightarrow> app_config \<Rightarrow> 'h socket_io \<Rightarrow> 'h hub \<Rightarrow> 'h hub \<Rightarrow> bool"
  for c :: "string crypto" and cfg :: app_config and io :: "'h socket_io" where
  connect: "hb_user h client = None \<Longrightarrow> hub_step c cfg io h (handleConnection c cfg io authToken header client h)"
| disconnect: "hub_step c cfg io h (handleDisconnect io client h)"
| init: "hub_step c cfg io h (afterInit h)"
| join: "hub_step c cfg io h (snd (joinConversation io client i h))"
| send: "hub_step c cfg io h (snd (ws_sendMessage io client i body h))"
| read: "hub_step c cfg io h (snd (ws_markRead io client m h))"
| open_conversation: "0 < sub user \<Longrightarrow> has_key u_id (sub user) (users (hb_db h)) \<Longrightarrow> 0 < participantId \<Longrightarrow>
    hub_step c cfg io h (snd (createConversation io user participantId productId h))"
| elsewhere: "conversations s' = conversations (hb_db h) \<Longrightarrow> messages s' = messages (hb_db h) \<Longrightarrow>
    seqs (hb_db h) T_conversations \<le> seqs s' T_conversations \<Longrightarrow> seqs (hb_db h) T_messages \<le> seqs s' T_messages \<Longrightarrow>
    (\<And>k. has_key u_id k (users (hb_db h)) \<Longrightarrow> has_key u_id k (users s')) \<Longrightarrow>
    hub_step c cfg io h (h\<lparr>hb_db := s'\<rparr>)"

lemma roomName_inj: "0 < i \<Longrightarrow> 0 < j \<Longrightarrow> roomName i = roomName j \<Longrightarrow> i = j"
proof -
  assume "0 < i" "0 < j" "roomName i = roomName j"
  then have "Some i = toPositiveInt (Str (show_int j))" using toPositiveInt_show [of i] by (simp add: roomName_def)
  also have "\<dots> = Some j" by (rule toPositiveInt_show) fact
  finally show ?thesis by simp
qed

lemma hub_invD:
  assumes "hub_inv io h"
  shows "chat_inv (hb_db h)" "rooms_private io h" "registry_agrees h"
    "list_all (emission_private (hb_db h)) (hb_emitted h)"
  using assms by (simp_all add: hub_inv_def)

text \<open>In the room of a conversation there are sockets of its parties only.\<close>

lemma room_members:
  assumes "hub_inv io h" and "0 < i" and "k \<in> set (io_members io (hb_io h) (roomName i))"
  obtains u where "hb_user h k = Some u" "is_party (hb_db h) i u"
proof -
  obtain j u where "roomName i = roomName j" "hb_user h k = Some u" "is_party (hb_db h) j u"
    using hub_invD(2) [OF assms(1)] assms(3) unfolding rooms_private_def by blast
  moreover have "0 < j" using party_user [OF hub_invD(1) [OF assms(1)]] calculation(3) by blast
  ultimately show ?thesis using that roomName_inj [OF assms(2)] by blast
qed

lemma hub_inv_emit:
  assumes "hub_inv io h" and "0 < payload_conversation p"
  shows "hub_inv io (emit io (roomName (payload_conversation p)) p h)"
proof -
  let ?e = "\<lparr>em_room = roomName (payload_conversation p), em_payload = p,
    em_users = map (hb_user h) (io_members io (hb_io h) (roomName (payload_conversation p)))\<rparr>"
  have "emission_private (hb_db h) ?e"
    by (auto simp: emission_private_def list_all_iff elim!: room_members [OF assms])
  then show ?thesis
    using hub_invD [OF assms(1)] by (simp add: hub_inv_def emit_def rooms_private_def registry_agrees_def)
qed

lemma hub_inv_join:
  assumes io: "socket_io_ok io" and "hub_inv io h" and "hb_user h k = Some u" "is_party (hb_db h) i u"
  shows "hub_inv io (h\<lparr>hb_io := io_join io k (roomName i) (hb_io h)\<rparr>)"
  using assms by (auto simp: hub_inv_def rooms_private_def registry_agrees_def socket_io_ok_def split: if_splits)

lemma emission_private_mono:
  "(\<And>i u. is_party s i u \<Longrightarrow> is_party s' i u) \<Longrightarrow> emission_private s e \<Longrightarrow> emission_private s' e"
  by (auto simp: emission_private_def list_all_iff split: option.splits)

lemma hub_inv_db:
  assumes "hub_inv io h" and "chat_inv s'" and "\<And>i u. is_party (hb_db h) i u \<Longrightarrow> is_party s' i u"
  shows "hub_inv io (h\<lparr>hb_db := s'\<rparr>)"
proof -
  have "list_all (emission_private s') (hb_emitted h)"
    using hub_invD(4) [OF assms(1)] emission_private_mono [OF assms(3)] by (auto simp: list_all_iff)
  moreover have "rooms_private io (h\<lparr>hb_db := s'\<rparr>)"
    using hub_invD(2) [OF assms(1)] assms(3) by (fastforce simp: rooms_private_def)
  ultimately show ?thesis using assms(2) hub_invD(3) [OF assms(1)] by (simp add: hub_inv_def registry_agrees_def)
qed

lemma hub_inv_join_and_emit:
  assumes io: "socket_io_ok io" and "hub_inv io h" and "hb_user h k = Some u" "is_party (hb_db h) (payload_conversation p) u"
  shows "hub_inv io (join_and_emit io k (roomName (payload_conversation p)) p h)"
  unfolding join_and_emit_def
  by (rule hub_inv_emit [OF hub_inv_join [OF assms]])
    (use party_user [OF hub_invD(1) [OF assms(2)] assms(4)] in simp)

lemma coalesce_upd: "coalesce ((f(u \<mapsto> x)) v) d = (if v = u then x else coalesce (f v) d)"
  by simp

lemma hub_inv_register:
  assumes "hub_inv io h" and "hb_user h k = None"
  shows "hub_inv io (registerUserSocket u k (h\<lparr>hb_user := (hb_user h)(k \<mapsto> u)\<rparr>))"
proof -
  have fresh: "k \<notin> set (coalesce (hb_sockets h v) [])" for v
    using hub_invD(3) [OF assms(1)] assms(2) by (simp add: registry_agrees_def)
  have "k \<notin> set (io_members io (hb_io h) r)" for r
    using hub_invD(2) [OF assms(1)] assms(2) unfolding rooms_private_def by fastforce
  then have "rooms_private io (registerUserSocket u k (h\<lparr>hb_user := (hb_user h)(k \<mapsto> u)\<rparr>))"
    using hub_invD(2) [OF assms(1)]
    by (auto simp: rooms_private_def registerUserSocket_def Let_def)
  moreover have "registry_agrees (registerUserSocket u k (h\<lparr>hb_user := (hb_user h)(k \<mapsto> u)\<rparr>))"
    using hub_invD(3) [OF assms(1)] fresh
    by (auto simp: registry_agrees_def registerUserSocket_def Let_def coalesce_upd split: if_splits)
  ultimately show ?thesis using hub_invD(1,4) [OF assms(1)] by (simp add: hub_inv_def registerUserSocket_def Let_def)
qed

lemma hub_inv_disconnect:
  assumes io: "socket_io_ok io" and inv: "hub_inv io h"
  shows "hub_inv io (handleDisconnect io k h)"
proof -
  note agree = hub_invD(3) [OF inv]
  let ?h = "case hb_user h k of None \<Rightarrow> h | Some u \<Rightarrow> unregisterUserSocket u k h"
  have same: "hb_db ?h = hb_db h" "hb_io ?h = hb_io h" "hb_user ?h = hb_user h" "hb_emitted ?h = hb_emitted h"
    by (simp_all add: unregisterUserSocket_def Let_def split: option.split)
  have sockets: "set (coalesce (hb_sockets ?h v) []) = set (coalesce (hb_sockets h v) []) - {k}" for v
  proof (cases "hb_user h k")
    case None
    then show ?thesis using agree by (auto simp: registry_agrees_def)
  next
    case (Some u)
    then have k: "k \<in> set (coalesce (hb_sockets h w) []) \<longleftrightarrow> w = u" for w using agree by (auto simp: registry_agrees_def)
    then obtain ks where ks: "hb_sockets h u = Some ks"
      using k [of u] by (cases "hb_sockets h u") auto
    show ?thesis
      using k [of v] ks Some by (auto simp: unregisterUserSocket_def Let_def coalesce_upd filter_empty_conv)
  qed
  have "registry_agrees (handleDisconnect io k h)"
    using agree sockets by (auto simp: registry_agrees_def handleDisconnect_def Let_def same)
  moreover have "rooms_private io (handleDisconnect io k h)"
    using hub_invD(2) [OF inv] io same
    by (auto simp: rooms_private_def handleDisconnect_def Let_def socket_io_ok_def)
  moreover have "hb_db (handleDisconnect io k h) = hb_db h" "hb_emitted (handleDisconnect io k h) = hb_emitted h"
    using same by (simp_all add: handleDisconnect_def Let_def)
  ultimately show ?thesis using hub_invD(1,4) [OF inv] by (simp add: hub_inv_def)
qed

lemma hub_inv_connect:
  assumes "socket_io_ok io" and "hub_inv io h" and "hb_user h k = None"
  shows "hub_inv io (handleConnection c cfg io authToken header k h)"
  using hub_inv_disconnect [OF assms(1,2)] hub_inv_register [OF assms(2,3)]
  by (simp add: handleConnection_def split: option.split)

lemma hub_inv_joinConversation:
  assumes "socket_io_ok io" and "hub_inv io h"
  shows "hub_inv io (snd (joinConversation io k i h))"
proof -
  have "hub_inv io (join_and_emit io k (roomName i) (Conversation_joined v) h)"
    if "hb_user h k = Some u" "getConversationById (hb_db h) u i = Inr v" for u v
    using hub_inv_join_and_emit [OF assms that(1), of "Conversation_joined v"]
      getConversationById_ok(2) [OF hub_invD(1) [OF assms(2)] that(2)] by simp
  then show ?thesis using assms(2)
    by (auto simp: joinConversation_def getUser_def Let_def split: option.split sum.split)
qed

lemma hub_inv_send:
  assumes "socket_io_ok io" and "hub_inv io h"
  shows "hub_inv io (snd (ws_sendMessage io k i body h))"
proof (cases "hb_user h k")
  case None
  then show ?thesis using assms(2) by (simp add: ws_sendMessage_def getUser_def)
next
  case (Some u)
  note inv = hub_invD(1) [OF assms(2)]
  obtain r s' where run: "chat_sendMessage u i body (hb_db h) = (r, s')" by (rule prod.exhaust)
  show ?thesis
  proof (cases r)
    case (Inl e)
    then have "hub_inv io (h\<lparr>hb_db := s'\<rparr>)"
      using chat_send_fails [OF inv, of u i body e s'] run chat_inv_bump [OF inv, of T_messages] inv
      by (intro hub_inv_db [OF assms(2)]) (auto simp: is_party_def)
    then show ?thesis using Some run Inl by (simp add: ws_sendMessage_def getUser_def)
  next
    case (Inr m)
    note ok = chat_send_ok [OF inv run [unfolded Inr]]
    have "hub_inv io (h\<lparr>hb_db := s'\<rparr>)" by (rule hub_inv_db [OF assms(2) ok(9)]) (simp add: ok(8))
    then have "hub_inv io (join_and_emit io k (roomName i) (Message_received m) (h\<lparr>hb_db := s'\<rparr>))"
      using hub_inv_join_and_emit [OF assms(1), of "h\<lparr>hb_db := s'\<rparr>" k u "Message_received m"] Some ok(1,5,8) by simp
    then show ?thesis using Some run Inr by (simp add: ws_sendMessage_def getUser_def)
  qed
qed

lemma hub_inv_read:
  assumes "socket_io_ok io" and "hub_inv io h"
  shows "hub_inv io (snd (ws_markRead io k m h))"
proof (cases "hb_user h k")
  case None
  then show ?thesis using assms(2) by (simp add: ws_markRead_def getUser_def)
next
  case (Some u)
  note inv = hub_invD(1) [OF assms(2)]
  obtain r s' where run: "chat_markRead u m (hb_db h) = (r, s')" by (rule prod.exhaust)
  show ?thesis
  proof (cases r)
    case (Inl e)
    then have "s' = hb_db h" using chat_read_fails [of u m "hb_db h" e s'] run by simp
    then show ?thesis using run Inl Some assms(2) by (simp add: ws_markRead_def getUser_def)
  next
    case (Inr msg)
    note ok = chat_read_ok [OF inv run [unfolded Inr]]
    have same: "is_party s' = is_party (hb_db h)" using ok(5) by (intro ext) (simp add: is_party_def)
    have "hub_inv io (h\<lparr>hb_db := s'\<rparr>)" by (rule hub_inv_db [OF assms(2) ok(6)]) (simp add: same)
    then have "hub_inv io (join_and_emit io k (roomName (m_conversation_id msg)) (Message_read msg) (h\<lparr>hb_db := s'\<rparr>))"
      using hub_inv_join_and_emit [OF assms(1), of "h\<lparr>hb_db := s'\<rparr>" k u "Message_read msg"] Some ok(1) same by simp
    then show ?thesis using Some run Inr by (simp add: ws_markRead_def getUser_def)
  qed
qed

lemma hub_inv_join_all:
  assumes "socket_io_ok io" and "hub_inv io h" and "\<forall>k \<in> set ks. hb_user h k = Some u" and "is_party (hb_db h) i u"
  shows "hub_inv io (h\<lparr>hb_io := join_all io (roomName i) ks (hb_io h)\<rparr>)"
  using assms(2-4)
proof (induction ks arbitrary: h)
  case Nil
  then show ?case by (simp add: join_all_def)
next
  case (Cons k ks)
  have "hub_inv io (h\<lparr>hb_io := io_join io k (roomName i) (hb_io h)\<rparr>)"
    using hub_inv_join [OF assms(1) Cons.prems(1)] Cons.prems by simp
  from Cons.IH [OF this] Cons.prems show ?case by (simp add: join_all_def)
qed

lemma hub_inv_open:
  assumes "socket_io_ok io" and "hub_inv io h" and "0 < sub user" "0 < v" "has_key u_id (sub user) (users (hb_db h))"
  shows "hub_inv io (snd (createConversation io user v p h))"
proof -
  note inv = hub_invD(1) [OF assms(2)]
  obtain r s' where run: "getOrCreateConversation (sub user) v p (hb_db h) = (r, s')" by (rule prod.exhaust)
  note kept = getOrCreateConversation_kept [OF inv assms(3-5) run]
  let ?h = "h\<lparr>hb_db := s'\<rparr>"
  have h: "hub_inv io ?h" using kept by (intro hub_inv_db [OF assms(2)]) auto
  show ?thesis
  proof (cases r)
    case (Inl e)
    then show ?thesis using run h by (simp add: createConversation_def)
  next
    case (Inr a)
    let ?i = "cv_id a"
    from kept Inr obtain c where c: "c \<in> set (conversations s')" "row_by c_id ?i (conversations s') = Some c"
      by (metis is_partyE)
    then have ok: "conversation_ok s' c" "c_id c = ?i" using chat_invD(4) kept row_by_Some [OF c(2)] by auto
    have ab: "0 < c_user_a_id c" "0 < c_user_b_id c" "c_user_a_id c \<noteq> c_user_b_id c" "0 < ?i"
      using ok by (auto simp: conversation_ok_def)
    let ?room = "roomName ?i" and ?ka = "coalesce (hb_sockets h (c_user_a_id c)) []"
      and ?kb = "coalesce (hb_sockets h (c_user_b_id c)) []"
    have agree: "k \<in> set (coalesce (hb_sockets h w) []) \<longleftrightarrow> hb_user h k = Some w" for k w
      using hub_invD(3) [OF h] by (simp add: registry_agrees_def)
    have party: "is_party s' ?i (c_user_a_id c)" "is_party s' ?i (c_user_b_id c)" by (simp_all add: is_party_row [OF c(2)])
    have h1: "hub_inv io (?h\<lparr>hb_io := join_all io ?room ?ka (hb_io h)\<rparr>)"
      using hub_inv_join_all [OF assms(1) h, of ?ka "c_user_a_id c" ?i] agree party(1) by simp
    have h2: "hub_inv io (?h\<lparr>hb_io := join_all io ?room ?kb (join_all io ?room ?ka (hb_io h))\<rparr>)"
      using hub_inv_join_all [OF assms(1) h1, of ?kb "c_user_b_id c" ?i] agree party(2) by simp
    have "hub_inv io (emit io ?room (Conversation_joined a)
        (?h\<lparr>hb_io := join_all io ?room ?kb (join_all io ?room ?ka (hb_io h))\<rparr>))"
      using hub_inv_emit [OF h2, of "Conversation_joined a"] ab by simp
    then show ?thesis
      using run Inr ab h participants_ok [OF conjunct1 [OF kept] c(2)]
      by (simp add: createConversation_def id_js_row emitConversationJoinedToParticipants_def Let_def map_filter_simps)
  qed
qed


lemma hub_step_inv:
  assumes "socket_io_ok io" and "hub_step c cfg io h h'" and "hub_inv io h"
  shows "hub_inv io h'"
  using assms(2,3)
proof (induction rule: hub_step.induct)
  case (init h)
  then show ?case by (simp add: hub_inv_def rooms_private_def registry_agrees_def afterInit_def)
next
  case (elsewhere s' h)
  then have "chat_inv s'" using chat_inv_same [OF hub_invD(1) [OF elsewhere.prems], of s'] by simp
  then show ?case using elsewhere by (intro hub_inv_db) (auto simp: is_party_def)
qed (auto intro: hub_inv_connect hub_inv_disconnect hub_inv_joinConversation hub_inv_send hub_inv_read hub_inv_open
    simp: assms(1))

text \<open>
  C27: Conversations are private. Through every history of connections, disconnections, joins, messages, read
  receipts and newly opened conversations, a socket is in the room of a conversation only while it belongs to
  one of its two parties, and every event ever emitted about a conversation reached sockets of its two parties
  only. Along with it ids stay unique, two users share at most one conversation, every message was sent by a
  party of its conversation, and a conversation points to the last message of its own.
\<close>

theorem chat_private:
  assumes "socket_io_ok io" and "(hub_step c cfg io)\<^sup>*\<^sup>* h h'" and "hub_inv io h"
  shows "hub_inv io h' \<and> rooms_private io h' \<and> list_all (emission_private (hb_db h')) (hb_emitted h') \<and> chat_inv (hb_db h')"
proof -
  from assms(2) have "hub_inv io h'"
    by (induction rule: rtranclp_induct) (auto intro: assms(3) hub_step_inv [OF assms(1)])
  then show ?thesis using hub_invD by blast
qed

section \<open>A message sent is a message heard\<close>

lemma last_message_shown:
  assumes inv: "chat_inv s" and run: "chat_sendMessage u i body s = (Inr m, s')" and party: "is_party s i v"
  shows "\<exists>a. getConversationById s' v i = Inr a \<and> cv_last_message a = Some m"
proof -
  note ok = chat_send_ok [OF inv run]
  have p: "is_party s' i v" using party ok(8) by simp
  then obtain c where c: "c \<in> set (conversations s')" "c_id c = i" "row_by c_id i (conversations s') = Some c"
    by (rule is_partyE)
  have "c_last_message_id c = Some (m_id m)"
    using chat_invD(4) [OF ok(9) c(1)] latest_message_snoc [OF ok(3), of i] c(2) by (simp add: conversation_ok_def ok(5))
  moreover have "row_by m_id (m_id m) (messages s') = Some m"
    using pk_row_by [OF chat_invD(3) [OF ok(9)], of m] ok(3) by simp
  moreover obtain a where "conversation_row s' v c = Some a" using conversation_row_ok [OF ok(9) c(1)] by blast
  ultimately show ?thesis using p c(3) assert_party [OF ok(9), of i v]
    by (auto simp: getConversationById_def conversation_row_def Let_def split: if_splits)
qed

lemma unread_after_send:
  assumes inv: "chat_inv s" and run: "chat_sendMessage u i body s = (Inr m, s')"
  shows "unread_count s' v i = unread_count s v i + (if v = u then 0 else 1)"
  using chat_send_ok(3,5) [OF assms] by (simp add: unread_count_def)

lemma newest_first:
  assumes inv: "chat_inv s" and run: "chat_sendMessage u i body s = (Inr m, s')" and party: "is_party s i v"
    and earlier: "\<forall>x \<in> set (messages s). m_sent_at x < clock s" and "0 < lim"
  shows "\<exists>rest. listMessages s' v i lim None = Inr (m # rest)"
proof -
  note ok = chat_send_ok [OF inv run]
  let ?old = "filter (\<lambda>m. m_conversation_id m = i) (messages s)"
  have "sort_key (\<lambda>m. - m_sent_at m) (?old @ [m]) = m # sort_key (\<lambda>m. - m_sent_at m) ?old"
    by (rule sort_key_snoc_min) (use earlier in \<open>simp add: ok(5)\<close>)
  moreover have "is_party s' i v" using party ok(8) by simp
  ultimately show ?thesis
    using \<open>0 < lim\<close> by (cases "nat lim") (simp_all add: listMessages_def assert_party [OF ok(9)] ok(3,5) opt_holds_def)
qed

text \<open>
  C28: A connected user sends a message exactly to the conversations the user is a party of, and not a blank
  one. It is then the last message of the conversation and, for both parties, first in the history when all
  others are older; the peer has one more unread message and the sender none more; and the event goes to the
  room, the sending socket included. A refused message is neither stored nor announced.
\<close>

theorem message_delivered:
  assumes io: "socket_io_ok io" and hub: "hub_inv io h" and user: "hb_user h k = Some u"
  shows "case ws_sendMessage io k i body h of
      (Inl e, h') \<Rightarrow> (\<not> is_party (hb_db h) i u \<or> blank_text body) \<and> hb_emitted h' = hb_emitted h \<and>
        messages (hb_db h') = messages (hb_db h) \<and> conversations (hb_db h') = conversations (hb_db h)
    | (Inr m, h') \<Rightarrow> is_party (hb_db h) i u \<and> \<not> blank_text body \<and>
        m_sender_id m = u \<and> m_conversation_id m = i \<and> m_message_text m = body \<and>
        messages (hb_db h') = messages (hb_db h) @ [m] \<and>
        (\<forall>v. is_party (hb_db h) i v \<longrightarrow>
           unread_count (hb_db h') v i = unread_count (hb_db h) v i + (if v = u then 0 else 1) \<and>
           (\<exists>a. getConversationById (hb_db h') v i = Inr a \<and> cv_last_message a = Some m) \<and>
           ((\<forall>x \<in> set (messages (hb_db h)). m_sent_at x < clock (hb_db h)) \<longrightarrow>
              (\<forall>lim > 0. \<exists>rest. listMessages (hb_db h') v i lim None = Inr (m # rest)))) \<and>
        (\<exists>members. hb_emitted h' = hb_emitted h @
             [\<lparr>em_room = roomName i, em_payload = Message_received m, em_users = map (hb_user h) members\<rparr>] \<and>
           set members = insert k (set (io_members io (hb_io h) (roomName i))))"
proof -
  note inv = hub_invD(1) [OF hub]
  obtain r s' where run: "chat_sendMessage u i body (hb_db h) = (r, s')" by (rule prod.exhaust)
  show ?thesis
  proof (cases r)
    case (Inl e)
    have "\<not> is_party (hb_db h) i u \<or> blank_text body"
      using run Inl by (auto simp: chat_send_runs [OF inv] Let_def split: if_splits)
    moreover have "messages s' = messages (hb_db h)" "conversations s' = conversations (hb_db h)"
      using chat_send_fails [OF inv run [unfolded Inl]] by auto
    ultimately show ?thesis using run Inl user by (simp add: ws_sendMessage_def getUser_def)
  next
    case (Inr m)
    note run' = run [unfolded Inr]
    note ok = chat_send_ok [OF inv run']
    have "set (io_members io (io_join io k (roomName i) (hb_io h)) (roomName i)) =
        insert k (set (io_members io (hb_io h) (roomName i)))"
      using io by (simp add: socket_io_ok_def)
    then show ?thesis
      using ok(1,2,3,5) unread_after_send [OF inv run'] last_message_shown [OF inv run'] newest_first [OF inv run'] run' user
      by (auto simp: ws_sendMessage_def getUser_def join_and_emit_def emit_def)
  qed
qed


section \<open>Example\<close>

text \<open>Rooms as a list of memberships, and tokens that are the text of their subject.\<close>

definition sample_io :: "(string \<times> string) list socket_io" where
  "sample_io = \<lparr>io_join = (\<lambda>k r h. (r, k) # h), io_leave = (\<lambda>k h. filter (\<lambda>e. snd e \<noteq> k) h),
     io_members = (\<lambda>h r. map snd (filter (\<lambda>e. fst e = r) h))\<rparr>"

lemma sample_io_ok: "socket_io_ok sample_io"
  by (auto simp: socket_io_ok_def sample_io_def)

definition subject_crypto :: "string crypto" where
  "subject_crypto =
     \<lparr>hmac_hex = (\<lambda>secret text. secret @ text), bcrypt_hash = (\<lambda>salt p. p), bcrypt_compare = (=),
      jwt_sign = (\<lambda>secret ttl now p. ''''),
      jwt_verify = (\<lambda>secret now tok. Some \<lparr>jp_sub = Str tok, jp_email = None, jp_isAdmin = False,
         jp_tokenVersion = Some 0, jp_jti = None\<rparr>),
      jwt_life = (\<lambda>_. 900)\<rparr>"

definition empty_hub :: "(string \<times> string) list hub" where
  "empty_hub = \<lparr>hb_db = sample_db, hb_io = [], hb_server = False, hb_sockets = Map.empty, hb_user = Map.empty,
     hb_emitted = []\<rparr>"

definition connected_hub :: "(string \<times> string) list hub" where
  "connected_hub = afterInit
     (handleConnection subject_crypto sample_config sample_io (Some ''Bearer 3'') None ''k3''
       (handleConnection subject_crypto sample_config sample_io None (Some ''bearer  2'') ''k2'' empty_hub))"

definition open_hub :: "(string \<times> string) list hub" where
  "open_hub = snd (createConversation sample_io sample_customer 3 None connected_hub)"

lemma sample_hub_steps: "(hub_step subject_crypto sample_config sample_io)\<^sup>*\<^sup>* empty_hub open_hub"
proof -
  let ?h2 = "handleConnection subject_crypto sample_config sample_io None (Some ''bearer  2'') ''k2'' empty_hub"
  let ?h3 = "handleConnection subject_crypto sample_config sample_io (Some ''Bearer 3'') None ''k3'' ?h2"
  have "hub_step subject_crypto sample_config sample_io empty_hub ?h2"
    by (rule hub_step.connect) (simp add: empty_hub_def)
  moreover have "hub_step subject_crypto sample_config sample_io ?h2 ?h3"
    by (rule hub_step.connect) code_simp
  moreover have "hub_step subject_crypto sample_config sample_io ?h3 connected_hub"
    unfolding connected_hub_def by (rule hub_step.init)
  moreover have "0 < sub sample_customer" "has_key u_id (sub sample_customer) (users (hb_db connected_hub))" "0 < (3::int)"
    by (simp, code_simp, simp)
  then have "hub_step subject_crypto sample_config sample_io connected_hub open_hub"
    unfolding open_hub_def by (rule hub_step.open_conversation)
  ultimately show ?thesis by (meson r_into_rtranclp rtranclp_trans)
qed

lemma empty_hub_inv: "hub_inv sample_io empty_hub"
proof -
  have "chat_inv sample_db" by code_simp
  then show ?thesis by (simp add: hub_inv_def empty_hub_def rooms_private_def registry_agrees_def sample_io_def)
qed

lemma open_hub_inv: "hub_inv sample_io open_hub"
  using sample_hub_steps by (induction rule: rtranclp_induct) (auto intro: empty_hub_inv hub_step_inv [OF sample_io_ok])

theorem chat_private_witness:
  "map em_users (hb_emitted open_hub) = [[Some 3, Some 2]] \<and> hub_inv sample_io open_hub"
proof -
  have "map em_users (hb_emitted open_hub) = [[Some 3, Some 2]]" by code_simp
  then show ?thesis using chat_private [OF sample_io_ok sample_hub_steps empty_hub_inv] by blast
qed

theorem message_delivered_witness:
  "\<exists>m h'. ws_sendMessage sample_io ''k2'' 1 ''hi'' open_hub = (Inr m, h') \<and> m_message_text m = ''hi'' \<and>
     unread_count (hb_db h') 3 1 = 1 \<and> (\<exists>rest. listMessages (hb_db h') 3 1 20 None = Inr (m # rest))"
proof -
  have user: "hb_user open_hub ''k2'' = Some 2" by code_simp
  have "is_ok (fst (ws_sendMessage sample_io ''k2'' 1 ''hi'' open_hub))" by code_simp
  then obtain m h' where run: "ws_sendMessage sample_io ''k2'' 1 ''hi'' open_hub = (Inr m, h')"
    by (metis is_okE prod.collapse)
  have "is_party (hb_db open_hub) 1 3" "unread_count (hb_db open_hub) 3 1 = 0" "messages (hb_db open_hub) = []"
    by code_simp+
  then show ?thesis
    using message_delivered [OF sample_io_ok open_hub_inv user, of 1 "''hi''", unfolded run] run by auto
qed

end
