(* ===== verification/FkExpansion.thy ===== *)
theory FkExpansion
  imports Accounts Chat Faults
begin

text \<open>
  The last step of every answer: \<open>FkExpansionService\<close> (\<open>src/common/relations/fk-expansion.service.ts\<close>) replaces
  the foreign keys of a payload by the rows they refer to. The printing of timestamps by PostgreSQL is the
  parameter \<open>pg\<close>. An object is the list of its own properties in the order of enumeration; keys that look like
  array indices, which JavaScript would enumerate first, are not treated apart.
\<close>

section \<open>The rules\<close>

datatype entity_type = E_user | E_category | E_product | E_message | E_conversation | E_file

record fk_rule =
  fk_entity :: "entity_type option"
  fk_outputKey :: "string option"
  fk_shouldExpand :: bool

definition plain_rule :: "entity_type \<Rightarrow> fk_rule" where
  "plain_rule e = \<lparr>fk_entity = Some e, fk_outputKey = None, fk_shouldExpand = False\<rparr>"

definition renamed_rule :: "entity_type \<Rightarrow> string \<Rightarrow> fk_rule" where
  "renamed_rule e k = \<lparr>fk_entity = Some e, fk_outputKey = Some k, fk_shouldExpand = False\<rparr>"

definition FK_RULES :: "(string \<times> fk_rule) list" where
  "FK_RULES =
    [(''admin_id'', plain_rule E_user),
     (''avatar_file_id'', plain_rule E_file),
     (''blocked_id'', plain_rule E_user),
     (''blocker_id'', plain_rule E_user),
     (''conversation_id'', plain_rule E_conversation),
     (''file_id'', plain_rule E_file),
     (''last_message_id'', plain_rule E_message),
     (''owner_id'', \<lparr>fk_entity = Some E_user, fk_outputKey = None, fk_shouldExpand = True\<rparr>),
     (''parent_id'', plain_rule E_category),
     (''peer_user_id'', plain_rule E_user),
     (''product_id'', plain_rule E_product),
     (''product_image_file_id'', renamed_rule E_file ''product_image''),
     (''rated_user_id'', plain_rule E_user),
     (''rater_id'', plain_rule E_user),
     (''reported_user_id'', plain_rule E_user),
     (''reporter_id'', plain_rule E_user),
     (''reviewed_by'', renamed_rule E_user ''reviewed_by''),
     (''sender_id'', plain_rule E_user),
     (''target_user_id'', plain_rule E_user),
     (''uploader_user_id'', plain_rule E_user),
     (''user_a_id'', plain_rule E_user),
     (''user_b_id'', plain_rule E_user),
     (''user_id'', plain_rule E_user)]"

text \<open>
  The table is an object literal, so a read of it also finds what every object inherits: a function (or, for
  \<open>__proto__\<close>, the prototype), which is truthy and has none of the fields of a rule.
\<close>

definition inherited_keys :: "string list" where
  "inherited_keys =
    [''constructor'', ''hasOwnProperty'', ''isPrototypeOf'', ''propertyIsEnumerable'', ''toLocaleString'', ''toString'',
     ''valueOf'', ''__proto__'', ''__defineGetter__'', ''__defineSetter__'', ''__lookupGetter__'', ''__lookupSetter__'']"

definition fk_rule_of :: "string \<Rightarrow> fk_rule option" where
  "fk_rule_of key =
     (case map_of FK_RULES key of
        Some r \<Rightarrow> Some r
      | None \<Rightarrow>
          if key \<in> set inherited_keys then Some \<lparr>fk_entity = None, fk_outputKey = None, fk_shouldExpand = False\<rparr>
          else None)"

text \<open>The rule that applies to a key of a container with the own properties \<open>keys\<close>.\<close>

definition applicable_rule :: "string list \<Rightarrow> string \<Rightarrow> fk_rule option" where
  "applicable_rule keys key =
     (case fk_rule_of key of
        None \<Rightarrow> None
      | Some r \<Rightarrow> if fk_shouldExpand r \<and> ''owner_type'' \<in> set keys then None else Some r)"

definition deriveOutputKey :: "string \<Rightarrow> string" where
  "deriveOutputKey key = (if suffix ''_id'' key then take (length key - 3) key else key)"

text \<open>
  A number of JavaScript is a double: an integer from \<open>2 ^ 53\<close> on is rounded to 53 significant bits, ties to even, and
  one beyond the largest double is \<open>Infinity\<close>, for which \<open>2 ^ 1024\<close> stands here.
\<close>

fun bit_length :: "nat \<Rightarrow> nat" where
  "bit_length n = (if n = 0 then 0 else Suc (bit_length (n div 2)))"

declare bit_length.simps [simp del]

definition round_up :: "nat \<Rightarrow> nat \<Rightarrow> bool" where
  "round_up n k \<longleftrightarrow> (let r = n mod 2 ^ k; half = 2 ^ (k - 1) in half < r \<or> (r = half \<and> odd (n div 2 ^ k)))"

definition js_infinity :: int where
  "js_infinity = 2 ^ 1024"

definition to_double :: "int \<Rightarrow> int" where
  "to_double i =
     (if i < 2 ^ 53 then i
      else (let n = nat i; k = bit_length n - 53
            in min (int ((n div 2 ^ k + (if round_up n k then 1 else 0)) * 2 ^ k)) js_infinity))"

definition fk_toPositiveInt :: "js \<Rightarrow> int option" where
  "fk_toPositiveInt value =
     (case value of
        Num v \<Rightarrow> (case to_integer v of
            Some n \<Rightarrow> if 0 < n \<and> to_double n < js_infinity then Some (to_double n) else None
          | None \<Rightarrow> None)
      | Str t \<Rightarrow> if all_digits t \<and> 0 < parse_digits t then Some (to_double (int (parse_digits t))) else None
      | _ \<Rightarrow> None)"

section \<open>Collecting the ids\<close>

definition fk_id :: "string list \<Rightarrow> string \<Rightarrow> js \<Rightarrow> (entity_type option \<times> int) list" where
  "fk_id keys key rawValue =
     (case applicable_rule keys key of
        None \<Rightarrow> []
      | Some rule \<Rightarrow> (case fk_toPositiveInt rawValue of None \<Rightarrow> [] | Some i \<Rightarrow> [(fk_entity rule, i)]))"

fun fk_walk :: "js \<Rightarrow> (entity_type option \<times> int) list"
  and fk_walk_items :: "js list \<Rightarrow> (entity_type option \<times> int) list"
  and fk_walk_entries :: "string list \<Rightarrow> (string \<times> js) list \<Rightarrow> (entity_type option \<times> int) list" where
  "fk_walk (Arr xs) = fk_walk_items xs"
| "fk_walk (Obj kvs) = fk_walk_entries (map fst kvs) kvs"
| "fk_walk _ = []"
| "fk_walk_items [] = []"
| "fk_walk_items (x # xs) = fk_walk x @ fk_walk_items xs"
| "fk_walk_entries keys [] = []"
| "fk_walk_entries keys ((key, v) # rest) = fk_id keys key v @ fk_walk v @ fk_walk_entries keys rest"

definition collectIds :: "js \<Rightarrow> entity_type option \<Rightarrow> int list" where
  "collectIds payload entity = js_unique (map snd (filter (\<lambda>p. fst p = entity) (fk_walk payload)))"

definition collectKinds :: "js \<Rightarrow> entity_type option list" where
  "collectKinds payload = js_unique (map fst (fk_walk payload))"

section \<open>Fetching the rows\<close>

definition numeric_text :: "int \<Rightarrow> string" where
  "numeric_text n =
     (if n < 0 then ''-'' else []) @ show_nat (nat \<bar>n\<bar> div 100) @ ''.'' @ pad_left 2 (show_nat (nat \<bar>n\<bar> mod 100))"

fun file_purpose_text :: "file_purpose \<Rightarrow> string" where
  "file_purpose_text Purpose_avatar = ''avatar''"
| "file_purpose_text Purpose_product_image = ''product_image''"
| "file_purpose_text Purpose_chat_attachment = ''chat_attachment''"
| "file_purpose_text Purpose_document = ''document''"

fun file_status_text :: "file_status \<Rightarrow> string" where
  "file_status_text File_pending = ''pending''"
| "file_status_text File_uploaded = ''uploaded''"
| "file_status_text File_failed = ''failed''"
| "file_status_text File_deleted = ''deleted''"

fun listing_status_text :: "listing_status \<Rightarrow> string" where
  "listing_status_text Listing_available = ''available''"
| "listing_status_text Listing_sold = ''sold''"
| "listing_status_text Listing_archived = ''archived''"

definition app_user_entries :: "app_user \<Rightarrow> (string \<times> js) list" where
  "app_user_entries a =
     [(''id'', Num (au_id a)), (''name'', Str (au_name a)), (''phone'', Str (au_phone a)), (''email'', Str (au_email a)),
      (''profileState'', opt_str (au_profileState a))]"

definition avatar_js :: "(time \<Rightarrow> string) \<Rightarrow> avatar_view option \<Rightarrow> js" where
  "avatar_js pg v =
     (case v of
        None \<Rightarrow> Null
      | Some a \<Rightarrow> Obj
          [(''id'', Str (show_int (vv_id a))), (''purpose'', Str (file_purpose_text (vv_purpose a))),
           (''object_key'', Str (vv_object_key a)), (''mime_type'', opt_str (vv_mime_type a)),
           (''status'', Str (file_status_text (vv_status a))), (''created_at'', Str (pg (vv_created_at a))),
           (''uploaded_at'', opt_str (map_option pg (vv_uploaded_at a))), (''url'', Str (vv_url a))])"

definition user_record :: "(time \<Rightarrow> string) \<Rightarrow> app_config \<Rightarrow> db \<Rightarrow> user \<Rightarrow> js" where
  "user_record pg cfg s u =
     Obj (app_user_entries (mapToAppUser (user_brief_js u)) @
       [(''rate'', Str (numeric_text (seller_rate s (u_id u)))), (''contactInfo'', opt_str (u_contact_info u)),
        (''avatar'', avatar_js pg (buildAvatarFile cfg s u))])"

definition fetchUsers :: "(time \<Rightarrow> string) \<Rightarrow> app_config \<Rightarrow> db \<Rightarrow> int list \<Rightarrow> js list" where
  "fetchUsers pg cfg s ids =
     map (user_record pg cfg s) (filter (\<lambda>u. u_id u \<in> set ids \<and> u_deleted_at u = None) (users s))"

text \<open>The owner's columns come from an outer join, so a deleted owner (or one with an empty name) is \<open>null\<close>.\<close>

definition product_record :: "(time \<Rightarrow> string) \<Rightarrow> app_config \<Rightarrow> db \<Rightarrow> listing \<Rightarrow> js" where
  "product_record pg cfg s p =
     Obj [(''id'', Str (show_int (p_id p))), (''name'', Str (p_name p)), (''price'', Str (numeric_text (p_price p))),
       (''status'', Str (listing_status_text (p_status p))), (''city'', Str (p_city p)),
       (''created_at'', Str (pg (p_created_at p))),
       (''owner'', case live_user s (p_owner_id p) of
          None \<Rightarrow> Null
        | Some u \<Rightarrow> if u_name u = [] then Null else user_record pg cfg s u)]"

definition fetchProducts :: "(time \<Rightarrow> string) \<Rightarrow> app_config \<Rightarrow> db \<Rightarrow> int list \<Rightarrow> js list" where
  "fetchProducts pg cfg s ids =
     map (product_record pg cfg s) (filter (\<lambda>p. p_id p \<in> set ids \<and> p_deleted_at p = None) (products s))"

definition message_record :: "(time \<Rightarrow> string) \<Rightarrow> message \<Rightarrow> js" where
  "message_record pg m =
     Obj [(''id'', Str (show_int (m_id m))), (''message_text'', Str (m_message_text m)), (''sent_at'', Str (pg (m_sent_at m))),
       (''read_at'', opt_str (map_option pg (m_read_at m)))]"

definition fetchMessages :: "(time \<Rightarrow> string) \<Rightarrow> db \<Rightarrow> int list \<Rightarrow> js list" where
  "fetchMessages pg s ids = map (message_record pg) (filter (\<lambda>m. m_id m \<in> set ids) (messages s))"

definition conversation_record :: "(time \<Rightarrow> string) \<Rightarrow> conversation \<Rightarrow> js" where
  "conversation_record pg c = Obj [(''id'', Str (show_int (c_id c))), (''created_at'', Str (pg (c_created_at c)))]"

definition fetchConversations :: "(time \<Rightarrow> string) \<Rightarrow> db \<Rightarrow> int list \<Rightarrow> js list" where
  "fetchConversations pg s ids =
     map (conversation_record pg) (filter (\<lambda>c. c_id c \<in> set ids) (conversations s))"

definition file_record :: "(time \<Rightarrow> string) \<Rightarrow> app_config \<Rightarrow> file_row \<Rightarrow> js" where
  "file_record pg cfg f =
     Obj [(''id'', Str (show_int (f_id f))), (''purpose'', Str (file_purpose_text (f_purpose f))),
       (''object_key'', Str (f_object_key f)), (''mime_type'', opt_str (f_mime_type f)),
       (''status'', Str (file_status_text (f_status f))), (''created_at'', Str (pg (f_created_at f))),
       (''uploaded_at'', opt_str (map_option pg (f_uploaded_at f))),
       (''url'', Str (buildReadUrl cfg (f_object_key f) (coalesce (f_mime_type f) [])))]"

definition fetchFiles :: "(time \<Rightarrow> string) \<Rightarrow> app_config \<Rightarrow> db \<Rightarrow> int list \<Rightarrow> js list" where
  "fetchFiles pg cfg s ids = map (file_record pg cfg) (filter (\<lambda>f. f_id f \<in> set ids) (files s))"

text \<open>
  The ids of a query are sent as the text of a \<open>bigint[]\<close>. JavaScript prints an integer up to \<open>2 ^ 53\<close> exactly, a larger
  one with the fewest significant digits that read back as the same double (of two such the closer one, then the even
  one) and zeros behind them, and from \<open>10 ^ 21\<close> on with an exponent. \<open>sql_id\<close> is the number PostgreSQL reads there.
\<close>

definition printed_at :: "nat \<Rightarrow> nat \<Rightarrow> nat option" where
  "printed_at n p =
     (let q = n div 10 ^ p; lo = q * 10 ^ p; hi = lo + 10 ^ p;
          below = (to_double (int lo) = int n); above = (to_double (int hi) = int n)
      in if below \<and> above then Some (if n - lo < hi - n \<or> n - lo = hi - n \<and> even q then lo else hi)
         else if below then Some lo else if above then Some hi else None)"

definition sql_id :: "int \<Rightarrow> int" where
  "sql_id i =
     (if i < 2 ^ 53 then i
      else case List.map_filter (printed_at (nat i)) (rev [0..<21]) of [] \<Rightarrow> i | x # _ \<Rightarrow> int x)"

text \<open>An exponent is no \<open>bigint\<close> (\<open>22P02\<close>), and neither is a number beyond 64 bits (\<open>22003\<close>).\<close>

definition id_error :: "int \<Rightarrow> string option" where
  "id_error i =
     (if 10 ^ 21 \<le> i then Some ''22P02'' else if 2 ^ 63 - 1 < sql_id i then Some ''22003'' else None)"

definition bigint_ids :: "int list \<Rightarrow> int list result" where
  "bigint_ids ids =
     (case List.map_filter id_error ids of code # _ \<Rightarrow> Inl (SqlError code) | [] \<Rightarrow> Inr (map sql_id ids))"

text \<open>The table \<open>categories\<close> was dropped by the migration \<open>0022\<close>: selecting from it is an error.\<close>

definition fetchCategories :: "int list \<Rightarrow> js list result" where
  "fetchCategories ids = Inl (SqlError ''42P01'')"

definition fetch_records :: "(time \<Rightarrow> string) \<Rightarrow> app_config \<Rightarrow> db \<Rightarrow> entity_type option \<Rightarrow> int list \<Rightarrow> js list result" where
  "fetch_records pg cfg s entity ids =
     (if ids = [] then Inr []
      else (case entity of
          Some E_user \<Rightarrow> map_sum id (fetchUsers pg cfg s) (bigint_ids ids)
        | Some E_category \<Rightarrow> fetchCategories ids
        | Some E_product \<Rightarrow> map_sum id (fetchProducts pg cfg s) (bigint_ids ids)
        | Some E_message \<Rightarrow> map_sum id (fetchMessages pg s) (bigint_ids ids)
        | Some E_conversation \<Rightarrow> map_sum id (fetchConversations pg s) (bigint_ids ids)
        | Some E_file \<Rightarrow> map_sum id (fetchFiles pg cfg s) (bigint_ids ids)
        | None \<Rightarrow> Inr []))"

text \<open>The rows under \<open>Number(item.id)\<close>.\<close>

definition row_number :: "js \<Rightarrow> int option" where
  "row_number item = map_option to_double (to_integer (js_toNumber (field item ''id'')))"

definition resolver_map :: "js list \<Rightarrow> int \<Rightarrow> js option" where
  "resolver_map records i = map_of (rev (map (\<lambda>item. (row_number item, item)) records)) (Some i)"

text \<open>
  \<open>Promise.all\<close> over the entity types found. It answers with whichever failure comes first in time; here that is the
  one of the first kind in the order of the payload.
\<close>

definition rejections :: "'a result list \<Rightarrow> http_error list" where
  "rejections rs = List.map_filter (\<lambda>r. case r of Inl e \<Rightarrow> Some e | Inr _ \<Rightarrow> None) rs"

definition resolveEntities ::
  "(time \<Rightarrow> string) \<Rightarrow> app_config \<Rightarrow> db \<Rightarrow> entity_type option list \<Rightarrow> (entity_type option \<Rightarrow> int list) \<Rightarrow>
   (entity_type option \<Rightarrow> int \<Rightarrow> js option) result" where
  "resolveEntities pg cfg s kinds ids =
     (case rejections (map (\<lambda>entity. fetch_records pg cfg s entity (ids entity)) kinds) of
        e # _ \<Rightarrow> Inl e
      | [] \<Rightarrow> Inr (\<lambda>entity. case fetch_records pg cfg s entity (ids entity) of
          Inl e \<Rightarrow> (\<lambda>_. None) | Inr records \<Rightarrow> resolver_map records))"

section \<open>Rewriting the payload\<close>

definition has_own :: "(string \<times> js) list \<Rightarrow> string \<Rightarrow> bool" where
  "has_own kvs key \<longleftrightarrow> key \<in> set (map fst kvs)"

text \<open>\<open>out[key] = v\<close> for a key \<open>out\<close> does not have: assigning \<open>__proto__\<close> sets the prototype and makes no property.\<close>

definition add_property :: "(string \<times> js) list \<Rightarrow> string \<Rightarrow> js \<Rightarrow> (string \<times> js) list" where
  "add_property out key v = (if key = ''__proto__'' then out else out @ [(key, v)])"

definition fk_value :: "(entity_type option \<Rightarrow> int \<Rightarrow> js option) \<Rightarrow> fk_rule \<Rightarrow> js \<Rightarrow> js" where
  "fk_value m rule v = (case fk_toPositiveInt v of None \<Rightarrow> Null | Some i \<Rightarrow> coalesce (m (fk_entity rule) i) Null)"

fun transformNode :: "(entity_type option \<Rightarrow> int \<Rightarrow> js option) \<Rightarrow> js \<Rightarrow> js"
  and transform_items :: "(entity_type option \<Rightarrow> int \<Rightarrow> js option) \<Rightarrow> js list \<Rightarrow> js list"
  and transform_entries ::
    "(entity_type option \<Rightarrow> int \<Rightarrow> js option) \<Rightarrow> string list \<Rightarrow> (string \<times> js) list \<Rightarrow> (string \<times> js) list \<Rightarrow> (string \<times> js) list" where
  "transformNode m (Arr xs) = Arr (transform_items m xs)"
| "transformNode m (Obj kvs) = Obj (transform_entries m (map fst kvs) [] kvs)"
| "transformNode m Undefined = Undefined"
| "transformNode m Null = Null"
| "transformNode m (Bool b) = Bool b"
| "transformNode m (Num n) = Num n"
| "transformNode m (Str t) = Str t"
| "transform_items m [] = []"
| "transform_items m (x # xs) = transformNode m x # transform_items m xs"
| "transform_entries m keys out [] = out"
| "transform_entries m keys out ((key, v) # rest) =
     (case applicable_rule keys key of
        Some rule \<Rightarrow>
          let outputKey = coalesce (fk_outputKey rule) (deriveOutputKey key) in
          transform_entries m keys (if has_own out outputKey then out else add_property out outputKey (fk_value m rule v)) rest
      | None \<Rightarrow>
          transform_entries m keys (if has_own out key then out else add_property out key (transformNode m v)) rest)"

definition expand :: "(time \<Rightarrow> string) \<Rightarrow> app_config \<Rightarrow> db \<Rightarrow> js \<Rightarrow> js result" where
  "expand pg cfg s payload =
     (case resolveEntities pg cfg s (collectKinds payload) (collectIds payload) of
        Inl e \<Rightarrow> Inl e
      | Inr maps \<Rightarrow> Inr (transformNode maps payload))"


section \<open>The batch against single look-ups\<close>

definition fk_lookup :: "(time \<Rightarrow> string) \<Rightarrow> app_config \<Rightarrow> db \<Rightarrow> entity_type option \<Rightarrow> int \<Rightarrow> js option" where
  "fk_lookup pg cfg s entity i =
     (case entity of
        Some E_user \<Rightarrow> map_option (user_record pg cfg s) (live_user s i)
      | Some E_product \<Rightarrow> map_option (product_record pg cfg s) (live_listing s i)
      | Some E_message \<Rightarrow> map_option (message_record pg) (row_by m_id i (messages s))
      | Some E_conversation \<Rightarrow> map_option (conversation_record pg) (row_by c_id i (conversations s))
      | Some E_file \<Rightarrow> map_option (file_record pg cfg) (row_by f_id i (files s))
      | _ \<Rightarrow> None)"

definition fk_keys :: "db \<Rightarrow> bool" where
  "fk_keys s \<longleftrightarrow>
     distinct (map u_id (users s)) \<and> distinct (map p_id (products s)) \<and> distinct (map m_id (messages s)) \<and>
     distinct (map c_id (conversations s)) \<and> distinct (map f_id (files s))"

text \<open>Every id the rewriting looks up was collected.\<close>

lemma transform_cong:
  "(\<And>e i. (e, i) \<in> set (fk_walk node) \<Longrightarrow> m e i = m' e i) \<Longrightarrow> transformNode m node = transformNode m' node"
  "(\<And>e i. (e, i) \<in> set (fk_walk_items items) \<Longrightarrow> m e i = m' e i) \<Longrightarrow> transform_items m items = transform_items m' items"
  "(\<And>e i. (e, i) \<in> set (fk_walk_entries keys kvs) \<Longrightarrow> m e i = m' e i) \<Longrightarrow>
    transform_entries m keys out kvs = transform_entries m' keys out kvs"
proof (induction node and items and keys kvs arbitrary: and and out rule: fk_walk_fk_walk_items_fk_walk_entries.induct)
  case (7 keys key v rest)
  have val: "fk_value m rule v = fk_value m' rule v" if "applicable_rule keys key = Some rule" for rule
    using 7(3) [of "fk_entity rule"] that by (auto simp: fk_value_def fk_id_def split: option.split)
  have "transformNode m v = transformNode m' v" by (rule 7(1)) (simp add: 7(3))
  moreover have "transform_entries m keys out' rest = transform_entries m' keys out' rest" for out'
    by (rule 7(2)) (simp add: 7(3))
  ultimately show ?case using val by (simp add: Let_def split: option.split)
qed simp_all

text \<open>Doubles are fixed by the rounding, so the printed form of an id reads back as the id.\<close>

lemma bit_length_bounds: "0 < n \<Longrightarrow> 2 ^ (bit_length n - 1) \<le> n \<and> n < 2 ^ bit_length n \<and> 0 < bit_length n"
proof (induction n rule: bit_length.induct)
  case (1 n)
  show ?case
  proof (cases "n = 1")
    case False
    then have half: "0 < n div 2" using 1(2) by auto
    have len: "bit_length n = Suc (bit_length (n div 2))" using 1(2) by (simp add: bit_length.simps [of n])
    have ih: "2 ^ (bit_length (n div 2) - 1) \<le> n div 2" "n div 2 < 2 ^ bit_length (n div 2)" "0 < bit_length (n div 2)"
      using 1 half by simp_all
    have "2 ^ bit_length (n div 2) = 2 * (2 ^ (bit_length (n div 2) - 1) :: nat)"
      using ih(3) by (cases "bit_length (n div 2)") simp_all
    then show ?thesis using ih by (simp add: len) linarith
  qed (simp add: bit_length.simps)
qed

lemma bit_length_unique: "2 ^ l \<le> n \<Longrightarrow> n < 2 ^ Suc l \<Longrightarrow> bit_length n = Suc l"
proof -
  assume lo: "2 ^ l \<le> n" and hi: "n < 2 ^ Suc l"
  have "0 < (2 ^ l :: nat)" by simp
  then have "0 < n" using lo by linarith
  note b = bit_length_bounds [OF this]
  have "2 ^ l < (2 ^ bit_length n :: nat)" using lo b by linarith
  then have "l < bit_length n" by (rule power_less_imp_less_exp [rotated]) simp
  moreover have "2 ^ (bit_length n - 1) < (2 ^ Suc l :: nat)" using hi b by linarith
  then have "bit_length n - 1 < Suc l" by (rule power_less_imp_less_exp [rotated]) simp
  ultimately show ?thesis by simp
qed

lemma to_double_nat:
  "to_double (int n) =
     (if n < 2 ^ 53 then int n
      else min (int ((n div 2 ^ (bit_length n - 53) + (if round_up n (bit_length n - 53) then 1 else 0)) *
        2 ^ (bit_length n - 53))) js_infinity)"
proof -
  have "int n < int (2 ^ 53) \<longleftrightarrow> n < 2 ^ 53" by (rule of_nat_less_iff)
  then have "int n < 2 ^ 53 \<longleftrightarrow> n < 2 ^ 53" by (simp only: of_nat_power of_nat_numeral)
  then show ?thesis unfolding to_double_def Let_def nat_int by (simp only:)
qed

lemma to_double_exact:
  assumes "2 ^ 52 \<le> m" "m < 2 ^ 53" and n: "n = m * 2 ^ k"
  shows "to_double (int n) = min (int n) js_infinity"
proof (cases "n < 2 ^ 53")
  case True
  then have "int n < int (2 ^ 53)" by (simp only: of_nat_less_iff)
  moreover have "int (2 ^ 53) \<le> js_infinity" by (simp add: js_infinity_def)
  ultimately show ?thesis using True by (simp add: to_double_nat)
next
  case False
  have "bit_length n = Suc (52 + k)"
    by (rule bit_length_unique) (use assms in \<open>simp_all add: power_add\<close>)
  then have len: "bit_length n - 53 = k" by simp
  have "n mod 2 ^ k = 0" "n div 2 ^ k * 2 ^ k = n" by (simp_all add: n)
  then show ?thesis using False unfolding to_double_nat len by (simp only: round_up_def Let_def) simp
qed

lemma to_double_idem: "to_double (to_double i) = to_double i"
proof (cases "i < 2 ^ 53")
  case False
  define n where "n = nat i"
  have n: "2 ^ 53 \<le> n" using False by (simp add: n_def)
  then have pos: "0 < n" by simp
  define k where "k = bit_length n - 53"
  define m where "m = n div 2 ^ k + (if round_up n k then 1 else 0)"
  have td: "to_double i = min (int (m * 2 ^ k)) js_infinity"
    using False by (simp add: to_double_def n_def k_def m_def Let_def)
  have len: "53 \<le> bit_length n - 1"
  proof (rule ccontr)
    assume "\<not> 53 \<le> bit_length n - 1"
    then have "bit_length n \<le> 53" by simp
    then have "(2::nat) ^ bit_length n \<le> 2 ^ 53" by (rule power_increasing) simp
    then show False using bit_length_bounds [OF pos] n by linarith
  qed
  then have split: "bit_length n = 53 + k" by (simp add: k_def)
  have "2 ^ (52 + k) \<le> n" "n < 2 ^ (53 + k)"
    using bit_length_bounds [OF pos] by (simp_all add: split)
  then have q: "2 ^ 52 \<le> n div 2 ^ k" "n div 2 ^ k < 2 ^ 53"
    by (simp_all add: less_eq_div_iff_mult_less_eq div_less_iff_less_mult power_add)
  then have cases: "m < 2 ^ 53 \<or> m = 2 ^ 53" "2 ^ 52 \<le> m" by (auto simp: m_def)
  have inf: "to_double js_infinity = js_infinity"
    using to_double_exact [of "2 ^ 52" "2 ^ 1024" 972] by (simp add: js_infinity_def)
  have "to_double (int (m * 2 ^ k)) = min (int (m * 2 ^ k)) js_infinity"
  proof (cases "m < 2 ^ 53")
    case True
    then show ?thesis using cases(2) to_double_exact by blast
  next
    case False
    then have "m * 2 ^ k = 2 ^ 52 * 2 ^ Suc k" using cases(1) by simp
    then show ?thesis by (rule to_double_exact [rotated 2]) simp_all
  qed
  then show ?thesis unfolding td using inf by (auto simp: min_def)
qed (simp add: to_double_def)

lemma to_double_sql_id:
  assumes "to_double i = i" shows "to_double (sql_id i) = i"
proof (cases "i < 2 ^ 53")
  case False
  have "to_double (int x) = i" if "printed_at (nat i) p = Some x" for p x
    using that False by (auto simp: printed_at_def Let_def split: if_splits)
  moreover have "List.map_filter (printed_at (nat i)) ps = x # xs \<Longrightarrow> \<exists>p. printed_at (nat i) p = Some x" for ps x xs
    by (induction ps) (auto simp: map_filter_simps split: option.splits)
  ultimately have "List.map_filter (printed_at (nat i)) (rev [0..<21]) = x # xs \<Longrightarrow> to_double (int x) = i" for x xs
    by blast
  then show ?thesis using False assms by (auto simp: sql_id_def split: list.split)
qed (use assms in \<open>simp add: sql_id_def\<close>)

lemma to_double_pos: "0 < i \<Longrightarrow> 0 < to_double i"
proof (cases "i < 2 ^ 53")
  case False
  assume "0 < i"
  define n where "n = nat i"
  have n: "2 ^ 53 \<le> n" using False by (simp add: n_def)
  then have pos: "0 < n" by simp
  have "(2::nat) ^ (bit_length n - 53) \<le> 2 ^ (bit_length n - 1)" by simp
  then have "2 ^ (bit_length n - 53) \<le> n" using bit_length_bounds [OF pos] by linarith
  then have "0 < n div 2 ^ (bit_length n - 53)" by (simp add: div_greater_zero_iff)
  then show ?thesis using False by (simp add: to_double_def n_def Let_def js_infinity_def)
qed (simp add: to_double_def)

lemma fk_walk_pos:
  "\<forall>(e, i) \<in> set (fk_walk node). 0 < i \<and> to_double i = i"
  "\<forall>(e, i) \<in> set (fk_walk_items items). 0 < i \<and> to_double i = i"
  "\<forall>(e, i) \<in> set (fk_walk_entries keys kvs). 0 < i \<and> to_double i = i"
  by (induction node and items and keys kvs rule: fk_walk_fk_walk_items_fk_walk_entries.induct)
    (auto simp: fk_id_def fk_toPositiveInt_def to_double_idem to_double_pos split: option.splits js.splits if_splits)

lemma collectIds_iff: "i \<in> set (collectIds payload e) \<longleftrightarrow> (e, i) \<in> set (fk_walk payload)"
  by (force simp: collectIds_def)

lemma map_of_rev_distinct: "distinct (map fst xs) \<Longrightarrow> map_of (rev xs) = map_of xs"
proof (induction xs)
  case (Cons x xs)
  then have "map_of xs (fst x) = None" by (simp add: map_of_eq_None_iff)
  with Cons show ?case by (auto simp: fun_eq_iff map_add_def split: option.split)
qed simp

lemma resolver_rows:
  assumes dist: "distinct (map key rows)" and ids: "\<forall>j \<in> set ids. 0 < j \<and> to_double j = j" and i: "i \<in> set ids"
    and number: "\<And>r. 0 < key r \<Longrightarrow> row_number (f r) = Some (to_double (key r))"
  shows "resolver_map (map f (filter (\<lambda>r. key r \<in> set (map sql_id ids) \<and> P r) rows)) i =
    map_option f (find (\<lambda>r. key r = sql_id i \<and> P r) rows)"
proof -
  let ?rows = "filter (\<lambda>r. key r \<in> set (map sql_id ids) \<and> P r) rows"
  let ?kvs = "map (\<lambda>r. (Some (to_double (key r)), f r)) ?rows"
  have reads: "to_double (sql_id j) = j" if "j \<in> set ids" for j using ids that to_double_sql_id by simp
  have pos: "0 < sql_id j" if "j \<in> set ids" for j
  proof (rule ccontr)
    assume "\<not> 0 < sql_id j"
    then have "to_double (sql_id j) = sql_id j" by (simp add: to_double_def)
    then show False using reads [OF that] ids that \<open>\<not> 0 < sql_id j\<close> by auto
  qed
  have "map (\<lambda>item. (row_number item, item)) (map f ?rows) = ?kvs" using pos number by auto
  moreover have "distinct (map fst ?kvs)"
    using dist reads by (auto simp: distinct_map inj_on_def comp_def)
  moreover have "map_of ?kvs (Some i) = map_option f (find (\<lambda>r. key r = sql_id i \<and> P r) rows)"
    using i reads by (induction rows) auto
  ultimately show ?thesis by (simp only: resolver_map_def map_of_rev_distinct)
qed

lemma user_record_id: "0 < u_id u \<Longrightarrow> row_number (user_record pg cfg s u) = Some (to_double (u_id u))"
  by (simp add: row_number_def user_record_def app_user_entries_def field_def mapToAppUser_def user_brief_js_def
      toNumber_def js_toNumber_def orElse_def nullish_def js_Number_show)

lemma record_ids:
  "0 < p_id p \<Longrightarrow> row_number (product_record pg cfg s p) = Some (to_double (p_id p))"
  "0 < m_id m \<Longrightarrow> row_number (message_record pg m) = Some (to_double (m_id m))"
  "0 < c_id c \<Longrightarrow> row_number (conversation_record pg c) = Some (to_double (c_id c))"
  "0 < f_id f \<Longrightarrow> row_number (file_record pg cfg f) = Some (to_double (f_id f))"
  by (simp_all add: row_number_def product_record_def message_record_def conversation_record_def file_record_def
      field_def js_toNumber_def js_Number_show)

lemma bigint_ids_ok: "\<forall>i \<in> set ids. id_error i = None \<Longrightarrow> bigint_ids ids = Inr (map sql_id ids)"
proof -
  assume "\<forall>i \<in> set ids. id_error i = None"
  then have "List.map_filter id_error ids = []" by (auto simp: map_filter_def filter_empty_conv)
  then show ?thesis by (simp add: bigint_ids_def)
qed

lemma bigint_ids_fails: "bigint_ids ids = Inl e \<Longrightarrow> \<exists>i \<in> set ids. \<exists>code. id_error i = Some code \<and> e = SqlError code"
  by (induction ids) (auto simp: bigint_ids_def map_filter_simps split: option.splits list.splits)

text \<open>What makes the query for a key fail: the missing table, or an id that is no \<open>bigint\<close>.\<close>

definition fk_failure :: "entity_type option \<times> int \<Rightarrow> string option" where
  "fk_failure p =
     (case fst p of None \<Rightarrow> None | Some E_category \<Rightarrow> Some ''42P01'' | Some _ \<Rightarrow> id_error (snd p))"

lemma bigint_ids_bad: "i \<in> set ids \<Longrightarrow> id_error i = Some c \<Longrightarrow> \<exists>e. bigint_ids ids = Inl e"
  by (induction ids) (auto simp: bigint_ids_def map_filter_simps split: option.split list.split)

lemma fetch_fails_code:
  "fetch_records pg cfg s entity ids = Inl e \<Longrightarrow>
   \<exists>i \<in> set ids. \<exists>code. fk_failure (entity, i) = Some code \<and> e = SqlError code"
  using bigint_ids_fails [of ids e]
  by (cases ids; cases "bigint_ids ids")
    (auto simp: fetch_records_def fk_failure_def fetchCategories_def split: option.splits entity_type.splits)

lemma fetch_fails:
  assumes "i \<in> set ids" "fk_failure (entity, i) = Some c"
  shows "\<exists>e. fetch_records pg cfg s entity ids = Inl e"
proof -
  have ne: "ids \<noteq> []" using assms(1) by auto
  show ?thesis
  proof (cases "entity = Some E_category")
    case False
    then obtain e where "bigint_ids ids = Inl e"
      using assms bigint_ids_bad [OF assms(1)] by (auto simp: fk_failure_def split: option.splits entity_type.splits)
    then show ?thesis
      using ne False assms(2) by (cases entity) (auto simp: fetch_records_def fk_failure_def split: entity_type.split)
  qed (use ne in \<open>simp add: fetch_records_def fetchCategories_def\<close>)
qed

lemma fetch_fails_iff:
  "(\<exists>e. fetch_records pg cfg s entity ids = Inl e) \<longleftrightarrow> (\<exists>i \<in> set ids. fk_failure (entity, i) \<noteq> None)"
  using fetch_fails_code [of pg cfg s entity ids] fetch_fails [of _ ids entity] by blast

lemma resolved_is_lookup:
  assumes "fk_keys s" and ids: "\<forall>j \<in> set ids. 0 < j \<and> to_double j = j" and i: "i \<in> set ids"
    and fine: "\<forall>j \<in> set ids. fk_failure (entity, j) = None"
  shows "(case fetch_records pg cfg s entity ids of Inl e \<Rightarrow> (\<lambda>_. None) | Inr records \<Rightarrow> resolver_map records) i =
    fk_lookup pg cfg s entity (sql_id i)"
proof -
  have ne: "ids \<noteq> []" using i by auto
  note rows = resolver_rows [OF _ ids i]
  have users: "resolver_map (fetchUsers pg cfg s (map sql_id ids)) i = fk_lookup pg cfg s (Some E_user) (sql_id i)"
    using assms(1) rows [of u_id "users s" "user_record pg cfg s" "\<lambda>u. u_deleted_at u = None"] user_record_id
    by (simp add: fk_keys_def fetchUsers_def fk_lookup_def live_user_def)
  have listings: "resolver_map (fetchProducts pg cfg s (map sql_id ids)) i = fk_lookup pg cfg s (Some E_product) (sql_id i)"
    using assms(1) rows [of p_id "products s" "product_record pg cfg s" "\<lambda>p. p_deleted_at p = None"] record_ids(1)
    by (simp add: fk_keys_def fetchProducts_def fk_lookup_def live_listing_def)
  have sent: "resolver_map (fetchMessages pg s (map sql_id ids)) i = fk_lookup pg cfg s (Some E_message) (sql_id i)"
    using assms(1) rows [of m_id "messages s" "message_record pg" "\<lambda>_. True"] record_ids(2)
    by (simp add: fk_keys_def fetchMessages_def fk_lookup_def row_by_def)
  have talks: "resolver_map (fetchConversations pg s (map sql_id ids)) i =
      fk_lookup pg cfg s (Some E_conversation) (sql_id i)"
    using assms(1) rows [of c_id "conversations s" "conversation_record pg" "\<lambda>_. True"] record_ids(3)
    by (simp add: fk_keys_def fetchConversations_def fk_lookup_def row_by_def)
  have stored: "resolver_map (fetchFiles pg cfg s (map sql_id ids)) i = fk_lookup pg cfg s (Some E_file) (sql_id i)"
    using assms(1) rows [of f_id "files s" "file_record pg cfg" "\<lambda>_. True"] record_ids(4)
    by (simp add: fk_keys_def fetchFiles_def fk_lookup_def row_by_def)
  have none: "resolver_map [] i = fk_lookup pg cfg s None (sql_id i)" by (simp add: resolver_map_def fk_lookup_def)
  have "entity \<noteq> Some E_category" using fine i by (auto simp: fk_failure_def)
  moreover have "bigint_ids ids = Inr (map sql_id ids)" if "entity \<noteq> None"
    using fine that \<open>entity \<noteq> Some E_category\<close>
    by (intro bigint_ids_ok) (auto simp: fk_failure_def split: entity_type.splits)
  ultimately show ?thesis
    using ne users listings sent talks stored none
    by (cases entity) (auto simp: fetch_records_def split: entity_type.split)
qed

text \<open>The error codes a payload can run into.\<close>

definition fk_failures :: "js \<Rightarrow> string list" where
  "fk_failures payload = List.map_filter fk_failure (fk_walk payload)"

lemma fk_failures_iff: "code \<in> set (fk_failures payload) \<longleftrightarrow> (\<exists>p \<in> set (fk_walk payload). fk_failure p = Some code)"
  by (force simp: fk_failures_def map_filter_def)

lemma collectKinds_iff: "entity \<in> set (collectKinds payload) \<longleftrightarrow> (\<exists>i. (entity, i) \<in> set (fk_walk payload))"
  by (force simp: collectKinds_def)

lemma rejections_Nil: "rejections rs = [] \<longleftrightarrow> (\<forall>r \<in> set rs. \<forall>e. r \<noteq> Inl e)"
  by (auto simp: rejections_def map_filter_def filter_empty_conv split: sum.splits)

lemma rejections_Cons: "rejections rs = e # es \<Longrightarrow> Inl e \<in> set rs"
  by (induction rs) (auto simp: rejections_def map_filter_simps split: sum.splits)

lemma fk_expansion_lookup:
  assumes "fk_keys s"
  shows "if fk_failures payload = []
    then expand pg cfg s payload = Inr (transformNode (\<lambda>entity i. fk_lookup pg cfg s entity (sql_id i)) payload)
    else \<exists>code \<in> set (fk_failures payload). expand pg cfg s payload = Inl (SqlError code)"
proof -
  let ?fetch = "\<lambda>entity. fetch_records pg cfg s entity (collectIds payload entity)"
  let ?maps = "\<lambda>entity. case ?fetch entity of Inl e \<Rightarrow> (\<lambda>_. None) | Inr records \<Rightarrow> resolver_map records"
  have fails: "(\<exists>e. ?fetch entity = Inl e) \<longleftrightarrow> (\<exists>i. (entity, i) \<in> set (fk_walk payload) \<and> fk_failure (entity, i) \<noteq> None)"
    for entity
    unfolding fetch_fails_iff by (auto simp: collectIds_iff)
  have none: "rejections (map ?fetch (collectKinds payload)) = [] \<longleftrightarrow> fk_failures payload = []"
  proof -
    have "rejections (map ?fetch (collectKinds payload)) = [] \<longleftrightarrow>
        (\<forall>entity \<in> set (collectKinds payload). \<not> (\<exists>e. ?fetch entity = Inl e))"
      by (auto simp: rejections_Nil)
    also have "\<dots> \<longleftrightarrow> fk_failures payload = []"
      unfolding fails by (fastforce simp: fk_failures_def map_filter_def filter_empty_conv collectKinds_iff)
    finally show ?thesis .
  qed
  show ?thesis
  proof (cases "rejections (map ?fetch (collectKinds payload))")
    case (Cons e es)
    from rejections_Cons [OF this] obtain entity where "?fetch entity = Inl e" by auto
    from fetch_fails_code [OF this] obtain i code
      where i: "i \<in> set (collectIds payload entity)" "fk_failure (entity, i) = Some code" and code: "e = SqlError code"
      by blast
    from i have "code \<in> set (fk_failures payload)" unfolding collectIds_iff fk_failures_iff by blast
    then show ?thesis using Cons none code by (auto simp: expand_def resolveEntities_def)
  next
    case Nil
    then have fine: "fk_failures payload = []" using none by simp
    have "transformNode ?maps payload = transformNode (\<lambda>entity i. fk_lookup pg cfg s entity (sql_id i)) payload"
    proof (rule transform_cong(1))
      fix e i
      assume walk: "(e, i) \<in> set (fk_walk payload)"
      have "\<forall>j \<in> set (collectIds payload e). 0 < j \<and> to_double j = j"
        using fk_walk_pos(1) [of payload] by (auto simp: collectIds_iff)
      moreover have "i \<in> set (collectIds payload e)" using walk by (simp add: collectIds_iff)
      moreover have "\<forall>j \<in> set (collectIds payload e). fk_failure (e, j) = None"
        using fine by (auto simp: collectIds_iff fk_failures_def map_filter_def filter_empty_conv)
      ultimately show "?maps e i = fk_lookup pg cfg s e (sql_id i)" by (rule resolved_is_lookup [OF assms])
    qed
    then show ?thesis using Nil fine by (simp add: expand_def resolveEntities_def)
  qed
qed

text \<open>
  C32: Collecting the ids of a payload, fetching the rows of each kind in one query and rewriting the payload
  from the tables of the answers gives what looking every single foreign key up would give, ids being the
  doubles JavaScript makes of them. It fails exactly when some key of the payload cannot be asked for: the id of
  a category (the table is gone, \<open>42P01\<close>), or an id PostgreSQL does not read as a \<open>bigint\<close> (\<open>22P02\<close>, \<open>22003\<close>); the
  failure is then that of one such key, whatever else the payload holds.
\<close>

theorem fk_expansion_batched:
  assumes "fk_keys s"
  shows "if \<exists>(entity, i) \<in> set (fk_walk payload). entity = Some E_category \<or>
        entity \<noteq> None \<and> (10 ^ 21 \<le> i \<or> 2 ^ 63 - 1 < sql_id i)
    then \<exists>code \<in> {''42P01'', ''22P02'', ''22003''}. expand pg cfg s payload = Inl (SqlError code) \<and>
      (\<exists>key \<in> set (fk_walk payload). fk_failure key = Some code)
    else expand pg cfg s payload = Inr (transformNode (\<lambda>entity i. fk_lookup pg cfg s entity (sql_id i)) payload)"
proof -
  have codes: "fk_failure key = Some code \<Longrightarrow> code \<in> {''42P01'', ''22P02'', ''22003''}" for key code
    by (auto simp: fk_failure_def id_error_def split: option.splits entity_type.splits if_splits)
  have "(\<lambda>(entity, i). entity = Some E_category \<or> entity \<noteq> None \<and> (10 ^ 21 \<le> i \<or> 2 ^ 63 - 1 < sql_id i)) =
      (\<lambda>key. fk_failure key \<noteq> None)"
    by (auto simp: fun_eq_iff fk_failure_def id_error_def split: option.split entity_type.split)
  then have "(\<exists>(entity, i) \<in> set (fk_walk payload). entity = Some E_category \<or>
        entity \<noteq> None \<and> (10 ^ 21 \<le> i \<or> 2 ^ 63 - 1 < sql_id i)) \<longleftrightarrow>
      (\<exists>key \<in> set (fk_walk payload). fk_failure key \<noteq> None)" by (simp only:)
  also have "\<dots> \<longleftrightarrow> fk_failures payload \<noteq> []"
    by (auto simp: fk_failures_def map_filter_def filter_empty_conv)
  finally have unusable: "(\<exists>(entity, i) \<in> set (fk_walk payload). entity = Some E_category \<or>
        entity \<noteq> None \<and> (10 ^ 21 \<le> i \<or> 2 ^ 63 - 1 < sql_id i)) \<longleftrightarrow> fk_failures payload \<noteq> []" .
  show ?thesis
  proof (cases "fk_failures payload = []")
    case False
    then obtain code where "code \<in> set (fk_failures payload)" and answer: "expand pg cfg s payload = Inl (SqlError code)"
      using fk_expansion_lookup [OF assms, of payload pg cfg] by auto
    then obtain key where "key \<in> set (fk_walk payload)" "fk_failure key = Some code" unfolding fk_failures_iff by blast
    then show ?thesis unfolding unusable using False answer codes by metis
  next
    case True
    then show ?thesis unfolding unusable using fk_expansion_lookup [OF assms, of payload pg cfg] by simp
  qed
qed

theorem fk_expansion_batched_witness:
  "expand (\<lambda>_. ''t'') sample_config sample_db (Obj [(''sender_id'', Str ''2''), (''text'', Str ''hi''), (''product_id'', Str ''9'')]) =
     Inr (Obj [(''sender'', user_record (\<lambda>_. ''t'') sample_config sample_db (sample_user 2 False)), (''text'', Str ''hi''),
       (''product'', Null)]) \<and>
   expand (\<lambda>_. ''t'') sample_config sample_db (Obj [(''user_id'', Num (whole (10 ^ 30)))]) = Inl (SqlError ''22P02'')"
proof
  let ?p = "Obj [(''sender_id'', Str ''2''), (''text'', Str ''hi''), (''product_id'', Str ''9'')]"
  have keys: "fk_keys sample_db" by (simp add: fk_keys_def sample_db_def sample_user_def sample_file_def empty_db_def)
  have walk: "fk_walk ?p = [(Some E_user, 2), (Some E_product, 9)]" by code_simp
  let ?k = "[''sender_id'', ''text'', ''product_id'']"
  have rules: "applicable_rule ?k ''sender_id'' = Some (plain_rule E_user)" "applicable_rule ?k ''text'' = None"
    "applicable_rule ?k ''product_id'' = Some (plain_rule E_product)"
    "deriveOutputKey ''sender_id'' = ''sender''" "deriveOutputKey ''product_id'' = ''product''"
    "fk_toPositiveInt (Str ''2'') = Some 2" "fk_toPositiveInt (Str ''9'') = Some 9"
    by code_simp+
  have rows: "live_user sample_db 2 = Some (sample_user 2 False)" "live_listing sample_db 9 = None"
    by (simp_all add: live_user_def live_listing_def sample_db_def sample_user_def empty_db_def)
  have ids: "sql_id 2 = 2" "sql_id 9 = 9" by (simp_all add: sql_id_def)
  have "transformNode (\<lambda>e i. fk_lookup (\<lambda>_. ''t'') sample_config sample_db e (sql_id i)) ?p =
      Obj [(''sender'', user_record (\<lambda>_. ''t'') sample_config sample_db (sample_user 2 False)), (''text'', Str ''hi''), (''product'', Null)]"
    using rules by (simp add: Let_def plain_rule_def has_own_def add_property_def fk_value_def fk_lookup_def rows ids)
  then show "expand (\<lambda>_. ''t'') sample_config sample_db ?p = Inr (Obj [(''sender'', user_record (\<lambda>_. ''t'') sample_config sample_db
      (sample_user 2 False)), (''text'', Str ''hi''), (''product'', Null)])"
    using fk_expansion_batched [OF keys, of ?p "\<lambda>_. ''t''" sample_config] by (simp only: walk) (simp add: ids)
  let ?bad = "Obj [(''user_id'', Num (whole (10 ^ 30)))]"
  have "to_double (10 ^ 30) = 1000000000000000019884624838656"
    by (simp add: to_double_def bit_length.simps [of "numeral w" for w] bit_length.simps [of "Suc 0"]
        bit_length.simps [of 0] round_up_def Let_def js_infinity_def)
  moreover have "applicable_rule [''user_id''] ''user_id'' = Some (plain_rule E_user)" by code_simp
  ultimately have bad: "fk_walk ?bad = [(Some E_user, 1000000000000000019884624838656)]"
    by (simp add: fk_id_def fk_toPositiveInt_def plain_rule_def js_infinity_def)
  then show "expand (\<lambda>_. ''t'') sample_config sample_db ?bad = Inl (SqlError ''22P02'')"
    using fk_expansion_batched [OF keys, of ?bad "\<lambda>_. ''t''" sample_config]
    by (simp only: bad) (simp add: fk_failure_def id_error_def)
qed

end
