(* ===== verification/HttpLayer.thy ===== *)
theory HttpLayer
  imports FkExpansion
begin

text \<open>
  What surrounds the handlers: the log sanitizer (\<open>src/common/logging/logging.utils.ts\<close>), the logger
  (\<open>app-logger.service.ts\<close>), the envelope of an answer (\<open>src/common/interceptors/http-response-envelope.interceptor.ts\<close>),
  the request log (\<open>logging.interceptor.ts\<close>), the error answers over HTTP (\<open>src/common/filters/http-exception.filter.ts\<close>)
  and over sockets (\<open>src/chat/chat-ws-exception.filter.ts\<close>), the correlation id and the throttler's bypass.
  The length of a text is its number of characters.
\<close>

section \<open>Own properties\<close>

text \<open>\<open>{...base, [key]: v}\<close> defines an own property whatever the key.\<close>

definition set_own :: "(string \<times> js) list \<Rightarrow> string \<times> js \<Rightarrow> (string \<times> js) list" where
  "set_own out e =
     (if has_own out (fst e) then map (\<lambda>d. if fst d = fst e then e else d) out else out @ [e])"

definition spread :: "(string \<times> js) list \<Rightarrow> (string \<times> js) list \<Rightarrow> (string \<times> js) list" where
  "spread base kvs = foldl set_own base kvs"

definition num :: "nat \<Rightarrow> js" where
  "num n = Num (whole (int n))"

section \<open>The log sanitizer\<close>

definition SENSITIVE_KEYS :: "string list" where
  "SENSITIVE_KEYS =
     [''password'', ''token'', ''authorization'', ''secret'', ''otp'', ''ssn'', ''refreshtoken'', ''accesstoken'']"

definition MAX_STRING_LENGTH :: nat where "MAX_STRING_LENGTH = 300"
definition MAX_ARRAY_LENGTH :: nat where "MAX_ARRAY_LENGTH = 20"
definition MAX_OBJECT_KEYS :: nat where "MAX_OBJECT_KEYS = 30"
definition MAX_DEPTH :: nat where "MAX_DEPTH = 4"

definition normalized_key :: "string \<Rightarrow> string" where
  "normalized_key key = filter (\<lambda>c. c \<noteq> CHR ''_'' \<and> c \<noteq> CHR ''-'') (lower key)"

definition sensitive :: "string \<Rightarrow> bool" where
  "sensitive key \<longleftrightarrow> normalized_key key \<in> set SENSITIVE_KEYS"

definition truncated :: "nat \<Rightarrow> string" where
  "truncated n = ''[truncated:'' @ show_nat n @ '']''"

definition sanitized_text :: "string \<Rightarrow> string" where
  "sanitized_text t =
     (if MAX_STRING_LENGTH < length t
      then take MAX_STRING_LENGTH t @ ''...'' @ truncated (length t - MAX_STRING_LENGTH) else t)"

text \<open>The recursion ends because of the depth, whatever the value.\<close>

function sanitizeForLog :: "js \<Rightarrow> nat \<Rightarrow> js" where
  "sanitizeForLog value depth =
     (case value of
        Str t \<Rightarrow> Str (sanitized_text t)
      | Arr xs \<Rightarrow>
          if MAX_DEPTH \<le> depth then Str ''[depth-limited]''
          else Arr (map (\<lambda>item. sanitizeForLog item (depth + 1)) (take MAX_ARRAY_LENGTH xs) @
            (if MAX_ARRAY_LENGTH < length xs then [Str (truncated (length xs - MAX_ARRAY_LENGTH))] else []))
      | Obj kvs \<Rightarrow>
          if MAX_DEPTH \<le> depth then Str ''[depth-limited]''
          else Obj (foldl (\<lambda>out (key, v). add_property out key v) []
            (map (\<lambda>(key, raw). (key, if sensitive key then Str ''[REDACTED]'' else sanitizeForLog raw (depth + 1)))
               (take MAX_OBJECT_KEYS kvs)))
      | _ \<Rightarrow> value)"
  by pat_completeness auto

termination by (relation "measure (\<lambda>(value, depth). MAX_DEPTH - depth)") auto

definition type_name :: "js \<Rightarrow> string" where
  "type_name v =
     (case v of Undefined \<Rightarrow> ''undefined'' | Bool _ \<Rightarrow> ''boolean'' | Num _ \<Rightarrow> ''number'' | Str _ \<Rightarrow> ''string'' | _ \<Rightarrow> ''object'')"

definition payloadShape :: "js \<Rightarrow> js" where
  "payloadShape value =
     (case value of
        Undefined \<Rightarrow> Undefined
      | Null \<Rightarrow> Null
      | Arr xs \<Rightarrow> Obj [(''type'', Str ''array''), (''length'', num (length xs))]
      | Obj kvs \<Rightarrow> Obj (foldl (\<lambda>out (key, v). add_property out key v) []
          (map (\<lambda>(key, child). (key, Str (case child of
             Arr xs \<Rightarrow> ''array('' @ show_nat (length xs) @ '')''
           | Null \<Rightarrow> ''null''
           | _ \<Rightarrow> type_name child))) kvs))
      | _ \<Rightarrow> Obj [(''type'', Str (type_name value))])"

section \<open>The logger\<close>

datatype log_level = Level_error | Level_warn | Level_log | Level_debug | Level_verbose

fun log_level_text :: "log_level \<Rightarrow> string" where
  "log_level_text Level_error = ''error''"
| "log_level_text Level_warn = ''warn''"
| "log_level_text Level_log = ''log''"
| "log_level_text Level_debug = ''debug''"
| "log_level_text Level_verbose = ''verbose''"

definition level_order :: "string list" where
  "level_order = [''error'', ''warn'', ''log'', ''debug'', ''verbose'']"

definition index_of :: "string \<Rightarrow> string list \<Rightarrow> nat" where
  "index_of x xs = length (takeWhile (\<lambda>y. y \<noteq> x) xs)"

definition isLevelEnabled :: "log_level \<Rightarrow> string \<Rightarrow> bool" where
  "isLevelEnabled level configured =
     (let configuredLevel = (if configured \<in> set level_order then configured else ''log'')
      in index_of (log_level_text level) level_order \<le> index_of configuredLevel level_order)"

text \<open>
  A line of the log: the channel of the Nest logger and the record, whose printing as JSON is left out. The
  input is an object, with its \<open>meta\<close> apart.
\<close>

definition log_channel :: "log_level \<Rightarrow> log_level" where
  "log_channel level = (if level = Level_verbose then Level_debug else level)"

definition log_write ::
  "app_config \<Rightarrow> string \<Rightarrow> js \<Rightarrow> log_level \<Rightarrow> (string \<times> js) list \<Rightarrow> js option \<Rightarrow> (log_level \<times> js) option" where
  "log_write cfg timestamp contextId level input meta =
     (if \<not> isLevelEnabled level (logLevel cfg) then None
      else
        let requestId = orElse (field (Obj input) ''requestId'') contextId
        in Some (log_channel level, Obj (spread
          [(''timestamp'', Str timestamp), (''level'', Str (log_level_text level)), (''env'', Str (nodeEnv cfg)),
           (''requestId'', requestId)]
          (input @ [(''meta'', case meta of None \<Rightarrow> Undefined | Some m \<Rightarrow> sanitizeForLog m 0)]))))"

section \<open>The envelope of an answer\<close>

definition isAlreadyEnveloped :: "js \<Rightarrow> bool" where
  "isAlreadyEnveloped payload =
     (case payload of
        Obj kvs \<Rightarrow>
          (case field payload ''success'' of Bool _ \<Rightarrow> True | _ \<Rightarrow> False) \<and>
          (case field payload ''statusCode'' of Num _ \<Rightarrow> True | _ \<Rightarrow> False) \<and>
          has_own kvs ''data''
      | _ \<Rightarrow> False)"

definition normalizeData :: "js \<Rightarrow> js" where
  "normalizeData payload =
     (case payload of
        Obj [(singleKey, v)] \<Rightarrow>
          (case v of Obj kvs \<Rightarrow> Obj (set_own kvs (singleKey, v)) | _ \<Rightarrow> v)
      | _ \<Rightarrow> payload)"

definition envelope :: "nat option \<Rightarrow> js \<Rightarrow> js" where
  "envelope statusCode payload =
     (if isAlreadyEnveloped payload then payload
      else Obj [(''success'', Bool True), (''statusCode'', num (coalesce statusCode 200)), (''data'', normalizeData payload)])"

section \<open>Exceptions\<close>

datatype http_class =
  Class_BadRequest | Class_Unauthorized | Class_Forbidden | Class_NotFound | Class_Conflict | Class_ServiceUnavailable
  | Class_other nat

fun class_status :: "http_class \<Rightarrow> nat" where
  "class_status Class_BadRequest = 400"
| "class_status Class_Unauthorized = 401"
| "class_status Class_Forbidden = 403"
| "class_status Class_NotFound = 404"
| "class_status Class_Conflict = 409"
| "class_status Class_ServiceUnavailable = 503"
| "class_status (Class_other n) = n"

fun class_name :: "http_class \<Rightarrow> string" where
  "class_name Class_BadRequest = ''BadRequestException''"
| "class_name Class_Unauthorized = ''UnauthorizedException''"
| "class_name Class_Forbidden = ''ForbiddenException''"
| "class_name Class_NotFound = ''NotFoundException''"
| "class_name Class_Conflict = ''ConflictException''"
| "class_name Class_ServiceUnavailable = ''ServiceUnavailableException''"
| "class_name (Class_other n) = ''HttpException''"

text \<open>
  What a filter is handed: an \<open>HttpException\<close> of a class with its response and message, a \<open>WsException\<close> with
  its error, or anything else thrown, with its name.
\<close>

datatype exception = Http_exception http_class js string | Ws_exception js | Other_exception string

definition exception_body :: "nat \<Rightarrow> string \<Rightarrow> js" where
  "exception_body status message = Obj [(''message'', Str message), (''statusCode'', num status)]"

text \<open>The exceptions of the handlers.\<close>

fun thrown :: "http_error \<Rightarrow> exception" where
  "thrown (BadRequest m) = Http_exception Class_BadRequest (exception_body 400 m) m"
| "thrown (Unauthorized m) = Http_exception Class_Unauthorized (exception_body 401 m) m"
| "thrown (Forbidden m) = Http_exception Class_Forbidden (exception_body 403 m) m"
| "thrown (NotFound m) = Http_exception Class_NotFound (exception_body 404 m) m"
| "thrown (Conflict m) = Http_exception Class_Conflict (exception_body 409 m) m"
| "thrown (ServiceUnavailable m) = Http_exception Class_ServiceUnavailable (exception_body 503 m) m"
| "thrown (SqlError code) = Other_exception ''error''"
| "thrown (PlainError m) = Other_exception ''Error''"

text \<open>\<open>Array.prototype.join(', ')\<close>.\<close>

definition join_messages :: "js list \<Rightarrow> string" where
  "join_messages xs = join '', '' (map (\<lambda>x. if nullish x then [] else js_String x) xs)"

section \<open>Error answers over HTTP\<close>

record http_request =
  rq_method :: string
  rq_url :: string
  rq_originalUrl :: string
  rq_ip :: js
  rq_sub :: js
  rq_query :: js
  rq_body :: js

definition exception_status :: "exception \<Rightarrow> nat" where
  "exception_status e = (case e of Http_exception c _ _ \<Rightarrow> class_status c | _ \<Rightarrow> 500)"

definition exception_message :: "exception \<Rightarrow> js" where
  "exception_message e =
     (case (case e of Http_exception _ response _ \<Rightarrow> response | _ \<Rightarrow> Obj [(''message'', Str ''Internal server error'')]) of
        Str t \<Rightarrow> Str t
      | errorBody \<Rightarrow>
          (case field errorBody ''message'' of
             Arr xs \<Rightarrow> Str (join_messages xs)
           | m \<Rightarrow> orElse m (Str ''Unknown error'')))"

definition exception_type :: "exception \<Rightarrow> string" where
  "exception_type e = (case e of Http_exception c _ _ \<Rightarrow> class_name c | Ws_exception _ \<Rightarrow> ''WsException'' | Other_exception n \<Rightarrow> n)"

definition numeric_sub :: "js \<Rightarrow> js" where
  "numeric_sub v = (case v of Num n \<Rightarrow> Num n | _ \<Rightarrow> Null)"

definition http_catch_log :: "js \<Rightarrow> http_request \<Rightarrow> exception \<Rightarrow> log_level \<times> (string \<times> js) list \<times> js" where
  "http_catch_log requestId rq e =
     (if 500 \<le> exception_status e then Level_error else Level_warn,
      [(''service'', Str ''http''), (''protocol'', Str ''http''), (''routeOrEvent'', Str (rq_method rq @ '' '' @ rq_url rq)),
       (''message'', Str ''HTTP request failed''), (''correlationId'', requestId), (''requestId'', requestId),
       (''userId'', numeric_sub (rq_sub rq)), (''statusCode'', num (exception_status e))],
      Obj [(''method'', Str (rq_method rq)), (''path'', Str (rq_url rq)), (''errorMessage'', exception_message e),
       (''exceptionType'', Str (exception_type e)), (''query'', sanitizeForLog (rq_query rq) 0)])"

definition http_catch :: "string \<Rightarrow> http_request \<Rightarrow> exception \<Rightarrow> nat \<times> js" where
  "http_catch timestamp rq e =
     (let status = exception_status e in
      (status, Obj [(''success'', Bool False), (''statusCode'', num status), (''data'', Null),
        (''error'', Obj [(''code'', num status), (''message'', exception_message e), (''timestamp'', Str timestamp),
          (''path'', Str (rq_url rq))])]))"

section \<open>The request log\<close>

definition request_started_log :: "app_config \<Rightarrow> js \<Rightarrow> http_request \<Rightarrow> (string \<times> js) list \<times> js" where
  "request_started_log cfg requestId rq =
     ([(''service'', Str ''http''), (''protocol'', Str ''http''),
       (''routeOrEvent'', Str (rq_method rq @ '' '' @ rq_originalUrl rq)), (''message'', Str ''HTTP request started''),
       (''correlationId'', requestId), (''requestId'', requestId), (''userId'', numeric_sub (rq_sub rq))],
      Obj [(''method'', Str (rq_method rq)), (''path'', Str (rq_originalUrl rq)), (''clientIp'', rq_ip rq),
       (''body'', if logHttpBody cfg then sanitizeForLog (rq_body rq) 0 else Undefined)])"

definition request_completed_log :: "js \<Rightarrow> http_request \<Rightarrow> nat \<Rightarrow> int \<Rightarrow> js \<Rightarrow> (string \<times> js) list \<times> js" where
  "request_completed_log requestId rq statusCode durationMs contentLength =
     ([(''service'', Str ''http''), (''protocol'', Str ''http''),
       (''routeOrEvent'', Str (rq_method rq @ '' '' @ rq_originalUrl rq)), (''message'', Str ''HTTP request completed''),
       (''correlationId'', requestId), (''requestId'', requestId), (''userId'', numeric_sub (rq_sub rq)),
       (''statusCode'', num statusCode), (''durationMs'', Num (whole durationMs))],
      Obj [(''method'', Str (rq_method rq)), (''path'', Str (rq_originalUrl rq)),
       (''responseBytes'', case contentLength of Str t \<Rightarrow> Num (js_Number t) | v \<Rightarrow> v)])"

definition correlation_id :: "string option \<Rightarrow> string \<Rightarrow> string" where
  "correlation_id header uuid = coalesce header uuid"

definition shouldSkip :: "app_config \<Rightarrow> bool" where
  "shouldSkip cfg \<longleftrightarrow> nodeEnv cfg = ''development'' \<and> throttleDevBypass cfg"

text \<open>A request from the handler's result to the answer: expansion, then the envelope; an exception on the way is caught.\<close>

definition answer ::
  "(time \<Rightarrow> string) \<Rightarrow> app_config \<Rightarrow> db \<Rightarrow> string \<Rightarrow> http_request \<Rightarrow> nat \<Rightarrow> js result \<Rightarrow> nat \<times> js" where
  "answer pg cfg s timestamp rq status r =
     (case (case r of Inl e \<Rightarrow> Inl e | Inr data \<Rightarrow> expand pg cfg s data) of
        Inl e \<Rightarrow> http_catch timestamp rq (thrown e)
      | Inr data \<Rightarrow> (status, envelope (Some status) data))"


section \<open>What the log never holds\<close>

definition log_text :: "string \<Rightarrow> bool" where
  "log_text t \<longleftrightarrow> length t \<le> 300 \<or> (\<exists>n. drop 300 t = ''...[truncated:'' @ show_nat n @ '']'') \<or>
     (\<exists>n. t = ''[truncated:'' @ show_nat n @ '']'')"

text \<open>The names that are masked, in any case and with any dashes and underscores; \<open>newPassword\<close> is none of them.\<close>

definition secret_name :: "string \<Rightarrow> bool" where
  "secret_name key \<longleftrightarrow> filter (\<lambda>c. c \<notin> {CHR ''_'', CHR ''-''}) (lower key) \<in>
     {''password'', ''token'', ''authorization'', ''secret'', ''otp'', ''ssn'', ''refreshtoken'', ''accesstoken''}"

lemma sensitive_secret: "sensitive key = secret_name key"
  by (simp add: sensitive_def secret_name_def normalized_key_def SENSITIVE_KEYS_def)

text \<open>A value with everything under such a name taken out.\<close>

fun blank_secrets :: "js \<Rightarrow> js"
  and blank_items :: "js list \<Rightarrow> js list"
  and blank_entries :: "(string \<times> js) list \<Rightarrow> (string \<times> js) list" where
  "blank_secrets (Arr xs) = Arr (blank_items xs)"
| "blank_secrets (Obj kvs) = Obj (blank_entries kvs)"
| "blank_secrets (Str t) = Str t"
| "blank_secrets (Num n) = Num n"
| "blank_secrets (Bool b) = Bool b"
| "blank_secrets Null = Null"
| "blank_secrets Undefined = Undefined"
| "blank_items [] = []"
| "blank_items (x # xs) = blank_secrets x # blank_items xs"
| "blank_entries [] = []"
| "blank_entries ((key, v) # rest) = (key, if secret_name key then Null else blank_secrets v) # blank_entries rest"

lemma blank_items_map: "blank_items xs = map blank_secrets xs"
  by (induction xs) simp_all

lemma blank_entries_map: "blank_entries kvs = map (\<lambda>(key, v). (key, if secret_name key then Null else blank_secrets v)) kvs"
  by (induction kvs) auto

text \<open>Values of depth at most \<open>n\<close> with bounded parts and every sensitive property masked.\<close>

fun log_safe :: "nat \<Rightarrow> js \<Rightarrow> bool" where
  "log_safe n (Str t) = log_text t"
| "log_safe 0 (Arr xs) = False"
| "log_safe 0 (Obj kvs) = False"
| "log_safe (Suc n) (Arr xs) = (length xs \<le> 21 \<and> list_all (log_safe n) xs)"
| "log_safe (Suc n) (Obj kvs) =
     (length kvs \<le> 30 \<and> list_all (\<lambda>(k, v). (secret_name k \<longrightarrow> v = Str ''[REDACTED]'') \<and> log_safe n v) kvs)"
| "log_safe n _ = True"

text \<open>Values within the limits and without a sensitive property.\<close>

fun log_plain :: "nat \<Rightarrow> js \<Rightarrow> bool" where
  "log_plain n (Str t) = (length t \<le> 300)"
| "log_plain 0 (Arr xs) = False"
| "log_plain 0 (Obj kvs) = False"
| "log_plain (Suc n) (Arr xs) = (length xs \<le> 20 \<and> list_all (log_plain n) xs)"
| "log_plain (Suc n) (Obj kvs) =
     (length kvs \<le> 30 \<and> ''__proto__'' \<notin> set (map fst kvs) \<and>
      list_all (\<lambda>(k, v). \<not> secret_name k \<and> log_plain n v) kvs)"
| "log_plain n _ = True"

lemmas log_limits = MAX_DEPTH_def MAX_ARRAY_LENGTH_def MAX_OBJECT_KEYS_def MAX_STRING_LENGTH_def

lemma added_properties:
  "foldl (\<lambda>out (k, v). add_property out k v) out kvs = out @ filter (\<lambda>e. fst e \<noteq> ''__proto__'') kvs"
  by (induction kvs arbitrary: out) (auto simp: add_property_def)

lemma sanitized_log_text: "log_text (sanitized_text t)"
  by (auto simp: log_text_def sanitized_text_def log_limits truncated_def)

lemma sanitize_safe: "log_safe (4 - d) (sanitizeForLog v d)"
proof (induction v d rule: sanitizeForLog.induct)
  case (1 v d)
  show ?case
  proof (cases v)
    case (Arr xs)
    show ?thesis
    proof (cases "d < 4")
      case True
      then obtain n where n: "4 - d = Suc n" "4 - Suc d = n" by (cases "4 - d") auto
      have "list_all (log_safe n) (map (\<lambda>item. sanitizeForLog item (Suc d)) (take 20 xs))"
        using 1(1) [OF Arr] True n(2) by (simp add: list_all_iff log_limits)
      then show ?thesis using Arr True n
        by (auto simp: log_limits log_text_def truncated_def)
    next
      case False
      then show ?thesis using Arr by (simp add: log_limits log_text_def)
    qed
  next
    case (Obj kvs)
    show ?thesis
    proof (cases "d < 4")
      case True
      then obtain n where n: "4 - d = Suc n" "4 - Suc d = n" by (cases "4 - d") auto
      have "log_safe n (sanitizeForLog raw (Suc d))" if "(k, raw) \<in> set (take 30 kvs)" "\<not> sensitive k" for k raw
        using 1(2) [OF Obj, of "(k, raw)" k raw] that True n(2) by (simp add: log_limits)
      then show ?thesis using Obj True n
        by (auto simp: log_limits added_properties list_all_iff log_text_def sensitive_secret intro: order_trans [OF length_filter_le])
    next
      case False
      then show ?thesis using Obj by (simp add: log_limits log_text_def)
    qed
  qed (simp_all add: sanitized_log_text)
qed


lemma sanitize_plain: "log_plain (4 - d) v \<Longrightarrow> sanitizeForLog v d = v"
proof (induction v d rule: sanitizeForLog.induct)
  case (1 v d)
  show ?case
  proof (cases v)
    case (Arr xs)
    then obtain n where n: "4 - d = Suc n" "4 - Suc d = n" using 1(3) by (cases "4 - d") auto
    then have "map (\<lambda>item. sanitizeForLog item (Suc d)) xs = xs"
      using 1(1) [OF Arr] 1(3) Arr by (intro map_idI) (auto simp: list_all_iff log_limits)
    then show ?thesis using Arr n 1(3) by (simp add: log_limits)
  next
    case (Obj kvs)
    then obtain n where n: "4 - d = Suc n" "4 - Suc d = n" using 1(3) by (cases "4 - d") auto
    have plain: "length kvs \<le> 30" "''__proto__'' \<notin> set (map fst kvs)"
      "\<And>k raw. (k, raw) \<in> set kvs \<Longrightarrow> \<not> secret_name k \<and> log_plain n raw"
      using 1(3) Obj n by (auto simp: list_all_iff)
    have "sanitizeForLog raw (Suc d) = raw" if "(k, raw) \<in> set kvs" for k raw
      using 1(2) [OF Obj, of "(k, raw)" k raw] plain that n by (simp add: log_limits sensitive_secret)
    then have "map (\<lambda>(key, raw). (key, if sensitive key then Str ''[REDACTED]'' else sanitizeForLog raw (d + 1))) kvs = kvs"
      using plain(3) by (intro map_idI) (auto simp: sensitive_secret)
    moreover have "filter (\<lambda>e. fst e \<noteq> ''__proto__'') kvs = kvs" using plain(2) by (force simp: filter_id_conv)
    moreover have "\<not> 4 \<le> d" using n(1) by linarith
    ultimately show ?thesis using Obj plain(1) by (simp add: log_limits added_properties)
  qed (use 1(3) in \<open>simp_all add: sanitized_text_def log_limits\<close>)
qed

lemma sanitize_blank: "sanitizeForLog (blank_secrets v) d = sanitizeForLog v d"
proof (induction v d rule: sanitizeForLog.induct)
  case (1 v d)
  show ?case
  proof (cases v)
    case (Arr xs)
    show ?thesis
    proof (cases "MAX_DEPTH \<le> d")
      case False
      have "map (\<lambda>x. sanitizeForLog (blank_secrets x) (d + 1)) (take MAX_ARRAY_LENGTH xs) =
          map (\<lambda>x. sanitizeForLog x (d + 1)) (take MAX_ARRAY_LENGTH xs)"
        using 1(1) [OF Arr False] by simp
      then show ?thesis using Arr False by (simp add: blank_items_map take_map comp_def)
    qed (simp add: Arr)
  next
    case (Obj kvs)
    show ?thesis
    proof (cases "MAX_DEPTH \<le> d")
      case False
      have same: "map (\<lambda>(key, raw). (key, if sensitive key then Str ''[REDACTED]'' else sanitizeForLog raw (d + 1)))
            (map (\<lambda>(key, v). (key, if secret_name key then Null else blank_secrets v)) (take MAX_OBJECT_KEYS kvs)) =
          map (\<lambda>(key, raw). (key, if sensitive key then Str ''[REDACTED]'' else sanitizeForLog raw (d + 1)))
            (take MAX_OBJECT_KEYS kvs)"
        using 1(2) [OF Obj False] by (auto simp: sensitive_secret)
      show ?thesis by (simp add: Obj False blank_entries_map take_map same del: map_map)
    qed (simp add: Obj)
  qed simp_all
qed

lemma sanitize_other_password:
  "key \<in> {''newPassword'', ''oldPassword'', ''confirmPassword''} \<Longrightarrow> length t \<le> 300 \<Longrightarrow>
   sanitizeForLog (Obj [(key, Str t)]) 0 = Obj [(key, Str t)]"
proof -
  assume key: "key \<in> {''newPassword'', ''oldPassword'', ''confirmPassword''}" and t: "length t \<le> 300"
  have "\<not> secret_name ''newPassword''" "\<not> secret_name ''oldPassword''" "\<not> secret_name ''confirmPassword''"
    by code_simp+
  then have "log_plain (4 - 0) (Obj [(key, Str t)])" using key t by (auto simp: eval_nat_numeral)
  then show ?thesis by (rule sanitize_plain)
qed

text \<open>
  C33: Whatever a request carries, what the sanitizer hands to the log has at most four levels, twenty items and a
  marker to an array and thirty properties to an object, and a text of it is at most three hundred characters
  long or ends there with the marker of what is left out. A property is masked when its name, in lower case and
  without dashes and underscores, is one of the eight \<open>password\<close>, \<open>token\<close>, \<open>authorization\<close>, \<open>secret\<close>, \<open>otp\<close>, \<open>ssn\<close>,
  \<open>refreshtoken\<close> and \<open>accesstoken\<close>, and its value leaves no trace: the log is the same whatever stood there.
  Values within the limits and without such a name are logged as they are, and so are \<open>newPassword\<close>,
  \<open>oldPassword\<close> and \<open>confirmPassword\<close>, the fields of the requests that change a password. (The URL is not
  handed to the sanitizer at all.)
\<close>

theorem sanitize_bounded:
  "log_safe 4 (sanitizeForLog v 0) \<and>
   sanitizeForLog (blank_secrets v) 0 = sanitizeForLog v 0 \<and>
   (log_plain 4 v \<longrightarrow> sanitizeForLog v 0 = v) \<and>
   (key \<in> {''newPassword'', ''oldPassword'', ''confirmPassword''} \<and> length t \<le> 300 \<longrightarrow>
      sanitizeForLog (Obj [(key, Str t)]) 0 = Obj [(key, Str t)])"
  using sanitize_safe [of 0 v] sanitize_blank [of v 0] sanitize_plain [of 0 v] sanitize_other_password [of key t] by simp

theorem sanitize_bounded_witness:
  "sanitizeForLog (Obj [(''q'', Str ''lamp''), (''page'', Arr [Bool True, Null])]) 0 =
     Obj [(''q'', Str ''lamp''), (''page'', Arr [Bool True, Null])] \<and>
   sanitizeForLog (Obj [(''newPassword'', Str ''hunter22'')]) 0 = Obj [(''newPassword'', Str ''hunter22'')]"
proof -
  let ?v = "Obj [(''q'', Str ''lamp''), (''page'', Arr [Bool True, Null])]"
  have "\<not> secret_name ''q''" "\<not> secret_name ''page''" by code_simp+
  then have "log_plain 4 ?v" by (simp add: eval_nat_numeral)
  then show ?thesis using sanitize_bounded [of ?v "''newPassword''" "''hunter22''"] by simp
qed

section \<open>Every answer is an envelope\<close>

lemma enveloped: "isAlreadyEnveloped (envelope n v)"
  by (simp add: envelope_def isAlreadyEnveloped_def field_def has_own_def num_def)

definition public_message :: "http_error \<Rightarrow> string" where
  "public_message e =
     (case e of
        BadRequest m \<Rightarrow> m | Unauthorized m \<Rightarrow> m | Forbidden m \<Rightarrow> m | NotFound m \<Rightarrow> m | Conflict m \<Rightarrow> m
      | ServiceUnavailable m \<Rightarrow> m | SqlError _ \<Rightarrow> ''Internal server error'' | PlainError _ \<Rightarrow> ''Internal server error'')"

lemma caught:
  "http_catch timestamp rq (thrown e) = (http_status e,
     Obj [(''success'', Bool False), (''statusCode'', num (http_status e)), (''data'', Null),
       (''error'', Obj [(''code'', num (http_status e)), (''message'', Str (public_message e)),
         (''timestamp'', Str timestamp), (''path'', Str (rq_url rq))])])"
  by (cases e) (simp_all add: http_catch_def exception_status_def exception_message_def exception_body_def field_def
      public_message_def orElse_def nullish_def Let_def)

text \<open>
  C31: Every answer over HTTP is an envelope with \<open>success\<close>, \<open>statusCode\<close> and \<open>data\<close>. A handler that succeeds is
  answered with its own status and its expanded result, unless the expansion fails; an exception is answered
  with its status, \<open>success\<close> false, no data and its message; and of a database error or any other unexpected
  one the client learns nothing but \<open>Internal server error\<close>.
\<close>

theorem answer_enveloped:
  assumes "fk_keys s"
  shows "isAlreadyEnveloped (snd (answer pg cfg s timestamp rq status r)) \<and>
    (case r of
       Inl e \<Rightarrow> answer pg cfg s timestamp rq status r = (http_status e,
         Obj [(''success'', Bool False), (''statusCode'', num (http_status e)), (''data'', Null),
           (''error'', Obj [(''code'', num (http_status e)), (''message'', Str (public_message e)),
             (''timestamp'', Str timestamp), (''path'', Str (rq_url rq))])])
     | Inr payload \<Rightarrow>
         if fk_failures payload \<noteq> []
         then answer pg cfg s timestamp rq status r = (500,
           Obj [(''success'', Bool False), (''statusCode'', num 500), (''data'', Null),
             (''error'', Obj [(''code'', num 500), (''message'', Str ''Internal server error''),
               (''timestamp'', Str timestamp), (''path'', Str (rq_url rq))])])
         else answer pg cfg s timestamp rq status r =
           (status, envelope (Some status) (transformNode (\<lambda>entity i. fk_lookup pg cfg s entity (sql_id i)) payload)))"
proof (cases r)
  case (Inl e)
  then show ?thesis
    by (simp add: answer_def caught) (simp add: isAlreadyEnveloped_def field_def has_own_def num_def)
next
  case (Inr payload)
  show ?thesis
  proof (cases "fk_failures payload = []")
    case True
    then show ?thesis using Inr fk_expansion_lookup [OF assms, of payload pg cfg] by (simp add: answer_def enveloped)
  next
    case False
    then obtain code where "expand pg cfg s payload = Inl (SqlError code)"
      using fk_expansion_lookup [OF assms, of payload pg cfg] by auto
    then have "answer pg cfg s timestamp rq status r = http_catch timestamp rq (thrown (SqlError code))"
      using Inr by (simp add: answer_def)
    then show ?thesis using Inr False unfolding caught
      by (simp add: public_message_def) (simp add: isAlreadyEnveloped_def field_def has_own_def num_def)
  qed
qed

theorem answer_enveloped_witness:
  "answer (\<lambda>_. ''t'') sample_config sample_db ''now''
     \<lparr>rq_method = ''GET'', rq_url = ''/x'', rq_originalUrl = ''/x'', rq_ip = Undefined, rq_sub = Undefined,
      rq_query = Obj [], rq_body = Undefined\<rparr> 200 (Inr (Obj [(''count'', num 3)])) =
   (200, Obj [(''success'', Bool True), (''statusCode'', num 200), (''data'', num 3)])"
proof -
  have keys: "fk_keys sample_db" by (simp add: fk_keys_def sample_db_def sample_user_def sample_file_def empty_db_def)
  have rule: "applicable_rule [''count''] ''count'' = None" by code_simp
  have walk: "fk_failures (Obj [(''count'', num 3)]) = []"
    using rule by (simp add: fk_failures_def fk_id_def num_def map_filter_simps)
  have "transformNode m (Obj [(''count'', num 3)]) = Obj [(''count'', num 3)]" for m
    using rule by (simp add: num_def has_own_def add_property_def)
  then show ?thesis
    using answer_enveloped [OF keys, of "\<lambda>_. ''t''" sample_config "''now''" _ 200 "Inr (Obj [(''count'', num 3)])"] walk
    by (simp add: envelope_def isAlreadyEnveloped_def field_def normalizeData_def num_def)
qed

end
