(* ===== verification/ChatErrors.thy ===== *)
theory ChatErrors
  imports HttpLayer
begin

text \<open>
  What a socket is told when an event fails: \<open>ChatWsExceptionFilter\<close> (\<open>src/chat/chat-ws-exception.filter.ts\<close>) and
  the flattening of validation errors in \<open>src/chat/chat.gateway.ts\<close>. A normalized error is the list of the
  properties the code returns.
\<close>

section \<open>Validation errors\<close>

datatype validation_error =
  ValidationError (ve_property: string) (ve_constraints: "(string \<times> string) list option") (ve_value: js)
    (ve_children: "validation_error list")

definition error_details :: "string \<Rightarrow> js \<Rightarrow> (string \<times> string) list option \<Rightarrow> js list" where
  "error_details field_path v constraints =
     map (\<lambda>(rule, message). Obj [(''field'', Str field_path), (''rule'', Str rule), (''message'', Str message), (''value'', v)])
       (coalesce constraints [])"

fun flatten_walk :: "string \<Rightarrow> validation_error list \<Rightarrow> js list" where
  "flatten_walk parentPath [] = []"
| "flatten_walk parentPath (ValidationError p cs v children # errs) =
     (let field_path = (if parentPath = [] then p else parentPath @ ''.'' @ p)
      in error_details field_path v cs @ flatten_walk field_path children @ flatten_walk parentPath errs)"

definition flattenValidationErrors :: "validation_error list \<Rightarrow> js list" where
  "flattenValidationErrors errors = flatten_walk [] errors"

text \<open>The exception the gateway's validation pipe throws.\<close>

definition validation_exception :: "validation_error list \<Rightarrow> exception" where
  "validation_exception errors =
     Ws_exception (Obj [(''code'', Str ''VALIDATION_ERROR''), (''message'', Str ''Invalid payload''),
       (''details'', Arr (flattenValidationErrors errors))])"

section \<open>Normalizing an error\<close>

definition is_obj :: "js \<Rightarrow> bool" where
  "is_obj v \<longleftrightarrow> (case v of Obj _ \<Rightarrow> True | Arr _ \<Rightarrow> True | _ \<Rightarrow> False)"

definition message_or :: "js \<Rightarrow> string \<Rightarrow> js" where
  "message_or m fallback = (case m of Arr xs \<Rightarrow> Str (join_messages xs) | Str t \<Rightarrow> Str t | _ \<Rightarrow> Str fallback)"

definition extractBadRequestDetails :: "js \<Rightarrow> js \<times> js" where
  "extractBadRequestDetails response =
     (case response of
        Str t \<Rightarrow> (Str t, Undefined)
      | _ \<Rightarrow>
          if \<not> is_obj response then (Str ''Invalid payload'', Undefined)
          else (message_or (field response ''message'') ''Invalid payload'',
            case field response ''details'' of Arr xs \<Rightarrow> Arr xs | _ \<Rightarrow> Undefined))"

definition extractForbiddenDetails :: "js \<Rightarrow> js \<times> js \<times> js" where
  "extractForbiddenDetails response =
     (case response of
        Str t \<Rightarrow> (Str t, Undefined, Undefined)
      | _ \<Rightarrow>
          if \<not> is_obj response then (Str ''Forbidden'', Undefined, Undefined)
          else (message_or (field response ''message'') ''Forbidden'',
            case field response ''reason'' of Str t \<Rightarrow> Str t | _ \<Rightarrow> Undefined,
            if is_obj (field response ''context'') then field response ''context'' else Undefined))"

definition text_or :: "string \<Rightarrow> string \<Rightarrow> js" where
  "text_or t fallback = Str (if t = [] then fallback else t)"

definition error_entries :: "js \<Rightarrow> string \<Rightarrow> js \<Rightarrow> (string \<times> js) list \<Rightarrow> string \<Rightarrow> string \<Rightarrow> nat \<Rightarrow> (string \<times> js) list" where
  "error_entries code event message more_entries correlationId timestamp statusCode =
     [(''code'', code), (''event'', Str event), (''message'', message)] @ more_entries @
     [(''correlationId'', Str correlationId), (''timestamp'', Str timestamp), (''statusCode'', num statusCode)]"

definition internal_error :: "string" where
  "internal_error = ''Internal server error''"

definition normalizeError :: "string \<Rightarrow> exception \<Rightarrow> string \<Rightarrow> string \<Rightarrow> (string \<times> js) list" where
  "normalizeError timestamp e event correlationId =
     (case e of
        Ws_exception wsError \<Rightarrow>
          if is_obj wsError
          then error_entries (orElse (field wsError ''code'') (Str ''INTERNAL_ERROR'')) event
            (orElse (field wsError ''message'') (Str internal_error)) [(''details'', field wsError ''details'')]
            correlationId timestamp (if field wsError ''code'' = Str ''VALIDATION_ERROR'' then 400 else 500)
          else error_entries (Str ''INTERNAL_ERROR'') event
            (case wsError of Str t \<Rightarrow> Str t | _ \<Rightarrow> Str internal_error) [] correlationId timestamp 500
      | Http_exception Class_BadRequest response _ \<Rightarrow>
          (let (message, details) = extractBadRequestDetails response in
           error_entries (Str ''VALIDATION_ERROR'') event message [(''details'', details)] correlationId timestamp 400)
      | Http_exception Class_Unauthorized _ m \<Rightarrow>
          error_entries (Str ''UNAUTHORIZED'') event (text_or m ''Unauthorized'') [] correlationId timestamp 401
      | Http_exception Class_Forbidden response _ \<Rightarrow>
          (let (message, reason, context) = extractForbiddenDetails response in
           error_entries (Str ''FORBIDDEN'') event message [(''reason'', reason), (''context'', context)]
             correlationId timestamp 403)
      | Http_exception Class_NotFound _ m \<Rightarrow>
          error_entries (Str ''NOT_FOUND'') event (text_or m ''Not found'') [] correlationId timestamp 404
      | _ \<Rightarrow> error_entries (Str ''INTERNAL_ERROR'') event (Str internal_error) [] correlationId timestamp 500)"

section \<open>The answer to the socket\<close>

definition exposeSafeContext :: "string \<Rightarrow> js \<Rightarrow> js \<Rightarrow> js" where
  "exposeSafeContext event code context =
     (if event \<noteq> ''message.send'' \<or> code \<noteq> Str ''FORBIDDEN'' \<or> \<not> is_obj context then Undefined
      else Obj (case toPositiveInt (field context ''conversationId'') of
          None \<Rightarrow> [] | Some conversationId \<Rightarrow> [(''conversationId'', Num (whole conversationId))]))"

definition int_js :: "int option \<Rightarrow> js" where
  "int_js v = (case v of None \<Rightarrow> Null | Some n \<Rightarrow> Num (whole n))"

definition extractConversationId :: "js \<Rightarrow> js \<Rightarrow> js" where
  "extractConversationId payload context =
     (case (if is_obj payload then toPositiveInt (field payload ''conversationId'') else None) of
        Some n \<Rightarrow> Num (whole n)
      | None \<Rightarrow> int_js (toPositiveInt (field context ''conversationId'')))"

definition extractParticipantIds :: "js \<Rightarrow> js" where
  "extractParticipantIds context =
     (case (toPositiveInt (field context ''userAId''), toPositiveInt (field context ''userBId'')) of
        (Some a, Some b) \<Rightarrow> Arr [Num (whole a), Num (whole b)]
      | _ \<Rightarrow> Undefined)"

definition ws_correlation_id :: "string option \<Rightarrow> string \<Rightarrow> string" where
  "ws_correlation_id header uuid = (if falsy header then uuid else the header)"

definition chat_error :: "string \<Rightarrow> string \<Rightarrow> exception \<Rightarrow> string \<Rightarrow> js" where
  "chat_error timestamp correlationId e event =
     (let normalized = normalizeError timestamp e event correlationId in
      Obj [(''success'', Bool False),
        (''error'', Obj (set_own normalized (''context'',
           exposeSafeContext event (field (Obj normalized) ''code'') (field (Obj normalized) ''context''))))])"

definition chat_exception :: "string \<Rightarrow> string \<Rightarrow> exception \<Rightarrow> string \<Rightarrow> js \<Rightarrow> js" where
  "chat_exception timestamp correlationId e event payload =
     (let normalized = Obj (normalizeError timestamp e event correlationId) in
      Obj [(''status'', Str ''error''), (''message'', field normalized ''message''),
        (''cause'', Obj [(''pattern'', Str event), (''data'', payload), (''code'', field normalized ''code''),
           (''correlationId'', Str correlationId)])])"

definition first_details :: "js \<Rightarrow> nat \<times> js" where
  "first_details details = (case details of Arr xs \<Rightarrow> (length xs, Arr (take 5 xs)) | v \<Rightarrow> (0, Undefined))"

definition chat_error_log ::
  "app_config \<Rightarrow> string \<Rightarrow> string \<Rightarrow> string \<Rightarrow> string \<Rightarrow> js \<Rightarrow> exception \<Rightarrow> string \<Rightarrow> js \<Rightarrow> log_level \<times> (string \<times> js) list \<times> js" where
  "chat_error_log cfg timestamp correlationId namespace socketId userSub e event payload =
     (let normalized = Obj (normalizeError timestamp e event correlationId);
          context = field normalized ''context'';
          (detailsCount, details) = first_details (field normalized ''details'')
      in (if 500 \<le> (case to_integer (js_toNumber (field normalized ''statusCode'')) of Some n \<Rightarrow> n | None \<Rightarrow> 0)
          then Level_error else Level_warn,
          [(''service'', Str ''chat-ws''), (''protocol'', Str ''ws''), (''routeOrEvent'', Str event),
           (''message'', Str ''WebSocket event failed''), (''correlationId'', Str correlationId),
           (''requestId'', Str correlationId), (''userId'', numeric_sub userSub),
           (''statusCode'', field normalized ''statusCode'')],
          Obj [(''namespace'', Str namespace), (''socketId'', Str socketId),
           (''payload'', if logWsPayload cfg then sanitizeForLog payload 0 else Undefined),
           (''payloadShape'', payloadShape payload), (''code'', field normalized ''code''),
           (''reason'', field normalized ''reason''), (''conversationId'', extractConversationId payload context),
           (''participantIds'', extractParticipantIds context), (''detailsCount'', num detailsCount),
           (''details'', details), (''exceptionType'', Str (exception_type e))]))"


section \<open>What a client learns\<close>

definition ws_code :: "http_error \<Rightarrow> string" where
  "ws_code e =
     (case e of
        BadRequest _ \<Rightarrow> ''VALIDATION_ERROR'' | Unauthorized _ \<Rightarrow> ''UNAUTHORIZED'' | Forbidden _ \<Rightarrow> ''FORBIDDEN''
      | NotFound _ \<Rightarrow> ''NOT_FOUND'' | _ \<Rightarrow> ''INTERNAL_ERROR'')"

definition safe_context :: "js \<Rightarrow> bool" where
  "safe_context v \<longleftrightarrow>
     (case v of
        Undefined \<Rightarrow> True
      | Obj kvs \<Rightarrow> kvs = [] \<or> (map fst kvs = [''conversationId''] \<and> toPositiveInt (snd (hd kvs)) \<noteq> None)
      | _ \<Rightarrow> False)"

lemma exposed_safe: "safe_context (exposeSafeContext event code context)"
  by (auto simp: exposeSafeContext_def safe_context_def split: option.split dest: toPositiveInt_pos)

lemma field_set_own: "k \<notin> set (map fst kvs) \<or> distinct (map fst kvs) \<Longrightarrow> field (Obj (set_own kvs (k, v))) k = v"
proof (cases "k \<in> set (map fst kvs)")
  case False
  then show ?thesis by (simp add: field_def set_own_def has_own_def)
next
  case True
  moreover assume "k \<notin> set (map fst kvs) \<or> distinct (map fst kvs)"
  ultimately have "distinct (map fst kvs)" by simp
  let ?f = "\<lambda>d. if fst d = k then (k, v) else d"
  have "map fst (map ?f kvs) = map fst kvs" by auto
  then have "distinct (map fst (rev (map ?f kvs)))" using \<open>distinct (map fst kvs)\<close> by (metis distinct_rev rev_map)
  moreover have "(k, v) \<in> set (rev (map ?f kvs))" using True by force
  ultimately have "map_of (rev (map ?f kvs)) k = Some v" by (rule map_of_is_SomeI)
  then show ?thesis using True by (simp add: field_def set_own_def has_own_def)
qed

lemma normalized_distinct: "distinct (map fst (normalizeError timestamp e event correlationId))"
  by (simp add: normalizeError_def error_entries_def split: exception.split http_class.split prod.split)

definition ws_message :: "http_error \<Rightarrow> string" where
  "ws_message e =
     (case e of
        BadRequest m \<Rightarrow> m
      | Unauthorized m \<Rightarrow> if m = [] then ''Unauthorized'' else m
      | Forbidden m \<Rightarrow> m
      | NotFound m \<Rightarrow> if m = [] then ''Not found'' else m
      | _ \<Rightarrow> internal_error)"

definition ws_status :: "http_error \<Rightarrow> nat" where
  "ws_status e =
     (case e of BadRequest _ \<Rightarrow> 400 | Unauthorized _ \<Rightarrow> 401 | Forbidden _ \<Rightarrow> 403 | NotFound _ \<Rightarrow> 404 | _ \<Rightarrow> 500)"

lemma normalized_thrown:
  "field (Obj (normalizeError timestamp (thrown e) event correlationId)) ''code'' = Str (ws_code e)"
  "field (Obj (normalizeError timestamp (thrown e) event correlationId)) ''message'' = Str (ws_message e)"
  "field (Obj (normalizeError timestamp (thrown e) event correlationId)) ''statusCode'' = num (ws_status e)"
  by (cases e; simp add: normalizeError_def exception_body_def extractBadRequestDetails_def extractForbiddenDetails_def
      is_obj_def message_or_def text_or_def error_entries_def field_def ws_code_def ws_message_def ws_status_def)+

lemma field_set_own_other: "k \<noteq> k' \<Longrightarrow> field (Obj (set_own kvs (k, v))) k' = field (Obj kvs) k'"
proof -
  assume ne: "k \<noteq> k'"
  have "map_of (map (\<lambda>d. if fst d = k then (k, v) else d) xs) k' = map_of xs k'" for xs :: "(string \<times> js) list"
    using ne by (induction xs) auto
  then show ?thesis using ne by (simp add: field_def set_own_def rev_map)
qed

text \<open>
  C30: When an event of the chat fails, whatever is thrown, the error sent back carries as context at most the
  id of the conversation, never the ids of its participants. The exceptions of the handlers are reported with
  their code, status and message; a database error, like every other unexpected one, only as internal.
\<close>

theorem ws_error_private:
  "safe_context (field (field (chat_error timestamp correlationId x event) ''error'') ''context'') \<and>
   field (field (chat_error timestamp correlationId (thrown e) event) ''error'') ''code'' = Str (ws_code e) \<and>
   field (field (chat_error timestamp correlationId (thrown e) event) ''error'') ''message'' = Str (ws_message e) \<and>
   field (field (chat_error timestamp correlationId (thrown e) event) ''error'') ''statusCode'' = num (ws_status e) \<and>
   field (chat_exception timestamp correlationId (thrown e) event payload) ''message'' = Str (ws_message e) \<and>
   field (field (chat_exception timestamp correlationId (thrown e) event payload) ''cause'') ''data'' = payload"
proof -
  have err: "field (chat_error timestamp correlationId y event) ''error'' = Obj (set_own (normalizeError timestamp y event correlationId)
      (''context'', exposeSafeContext event (field (Obj (normalizeError timestamp y event correlationId)) ''code'')
         (field (Obj (normalizeError timestamp y event correlationId)) ''context'')))" for y
    unfolding chat_error_def Let_def field_def [of "Obj [_, _]"] by simp
  have exc: "field (chat_exception timestamp correlationId y event payload) ''message'' =
        field (Obj (normalizeError timestamp y event correlationId)) ''message''"
      "field (field (chat_exception timestamp correlationId y event payload) ''cause'') ''data'' = payload" for y
    unfolding chat_exception_def Let_def by (simp_all add: field_def [of "Obj [_, _, _]"] field_def [of "Obj [_, _, _, _]"])
  show ?thesis
    unfolding err exc
    by (simp add: field_set_own normalized_distinct exposed_safe field_set_own_other normalized_thrown)
qed

end
