(* ===== verification/ProdSeeder.thy ===== *)
theory ProdSeeder
  imports Accounts
begin

text \<open>
  The production seeder (\<open>src/prod/prod-seeder.ts\<close>, run in one transaction by
  \<open>scripts/seed-prod.ts\<close>): the primary administrator and the category taxonomy. Its table
  \<open>categories\<close> comes from migration 0001 and is dropped by migration 0022, so it is an optional
  part of the state: \<open>None\<close> is a database with every migration applied.
\<close>

section \<open>The categories table\<close>

record category =
  cat_id :: int
  cat_parent_id :: "int option"
  cat_name :: string
  cat_created_at :: time

record categories =
  cat_next :: int
  cat_rows :: "category list"

type_synonym prod_state = "db \<times> categories option"

text \<open>The key of the unique index \<open>categories_sibling_name_unique_idx\<close>.\<close>

definition sibling_key :: "int option \<Rightarrow> string \<Rightarrow> int \<times> string" where
  "sibling_key parentId name = (coalesce parentId 0, lower name)"

definition sibling :: "int option \<Rightarrow> string \<Rightarrow> category list \<Rightarrow> category option" where
  "sibling parentId name rows =
     find (\<lambda>c. sibling_key (cat_parent_id c) (cat_name c) = sibling_key parentId name) rows"

record category_node =
  cn_name :: string
  cn_children :: "string list"

definition CATEGORY_TAXONOMY :: "category_node list" where
  "CATEGORY_TAXONOMY =
    [\<lparr>cn_name = ''Real Estate'', cn_children = [''All'', ''Apartment For Rent'', ''Apartment For Sale'',
        ''Houses'', ''Lands'', ''Commercial Real Estate For Rent'', ''Commercial Real Estate For Sale'', ''Other'']\<rparr>,
     \<lparr>cn_name = ''Vehicles'', cn_children = [''All'', ''Cars For Sale'', ''Cars For Rent'',
        ''Spare Parts And Accessories'', ''Motor Cycles'', ''Bicycles'', ''Trucks And Heavy Vehicles'']\<rparr>,
     \<lparr>cn_name = ''Electronics'', cn_children = [''All'', ''Smartphones'', ''Tablets'', ''Laptops And Computers'',
        ''Accessories'', ''Speakers And Headphones'', ''Cameras'', ''Smart Watches And Wearables'',
        ''Monitors And TVs'', ''Other'']\<rparr>,
     \<lparr>cn_name = ''Home And Decor'', cn_children = [''All'', ''Furniture'', ''Office Furniture'',
        ''Kitchen And Dining'', ''Bedding And Bath'', ''Home Decor'', ''Home Tools'', ''Lighting'', ''Other'']\<rparr>,
     \<lparr>cn_name = ''Clothing And Fashion'', cn_children = [''All'', ''Men Clothing'', ''Women Clothing'',
        ''Kids Clothing'', ''Shoes'', ''Men Accessories'', ''Women Accessories And Makeup'',
        ''Jewelry And Watches'', ''Other'']\<rparr>,
     \<lparr>cn_name = ''Services'', cn_children = [''All'', ''Maintenance And Repairs'', ''Transportation And Moving'',
        ''Personal Services'', ''Cars Services'', ''Home Services'', ''Lessons And Tutoring'', ''Other'']\<rparr>]"

section \<open>Seeding\<close>

text \<open>
  \<open>INSERT ... ON CONFLICT DO NOTHING\<close>: the identity value is drawn first, then the check constraint,
  the unique index and, for a row that goes in, the reference to the parent are looked at.
\<close>

definition insert_category :: "string \<Rightarrow> int option \<Rightarrow> (prod_state, int option) handler" where
  "insert_category name parentId = (\<lambda>(s, table).
     (case table of
        None \<Rightarrow> (Inl (SqlError ''42P01''), (s, None))
      | Some t \<Rightarrow>
          let i = cat_next t; t1 = t\<lparr>cat_next := i + 1\<rparr>
          in if parentId = Some i then (Inl (SqlError ''23514''), (s, Some t1))
             else if sibling parentId name (cat_rows t) \<noteq> None then (Inr None, (s, Some t1))
             else if (case parentId of None \<Rightarrow> False | Some p \<Rightarrow> \<not> has_key cat_id p (cat_rows t))
             then (Inl (SqlError ''23503''), (s, Some t1))
             else (Inr (Some i), (s, Some (t1\<lparr>cat_rows := cat_rows t @
               [\<lparr>cat_id = i, cat_parent_id = parentId, cat_name = name, cat_created_at = clock s\<rparr>]\<rparr>)))))"

definition upsertCategory :: "string \<Rightarrow> int option \<Rightarrow> (prod_state, int \<times> bool) handler" where
  "upsertCategory name parentId =
     bind_h (insert_category name parentId)
       (\<lambda>inserted (s, table).
          (case inserted of
             Some i \<Rightarrow> (Inr (i, True), (s, table))
           | None \<Rightarrow>
               (case Option.bind table (\<lambda>t. sibling parentId name (cat_rows t)) of
                  None \<Rightarrow> (Inl (PlainError (''Failed to resolve category \"'' @ name @ ''\"'')), (s, table))
                | Some c \<Rightarrow> (Inr (cat_id c, False), (s, table)))))"

record category_counts =
  cc_created :: nat
  cc_reused :: nat

definition count_category :: "bool \<Rightarrow> category_counts \<Rightarrow> category_counts" where
  "count_category created n =
     (if created then n\<lparr>cc_created := cc_created n + 1\<rparr> else n\<lparr>cc_reused := cc_reused n + 1\<rparr>)"

fun seed_children :: "int \<Rightarrow> string list \<Rightarrow> category_counts \<Rightarrow> (prod_state, category_counts) handler" where
  "seed_children parent [] n st = (Inr n, st)"
| "seed_children parent (child # children) n st =
     bind_h (upsertCategory child (Some parent))
       (\<lambda>(i, created). seed_children parent children (count_category created n)) st"

fun seed_nodes :: "category_node list \<Rightarrow> category_counts \<Rightarrow> (prod_state, category_counts) handler" where
  "seed_nodes [] n st = (Inr n, st)"
| "seed_nodes (parent # nodes) n st =
     bind_h (upsertCategory (cn_name parent) None)
       (\<lambda>(i, created). bind_h (seed_children i (cn_children parent) (count_category created n)) (seed_nodes nodes)) st"

definition seedCategories :: "(prod_state, category_counts) handler" where
  "seedCategories = seed_nodes CATEGORY_TAXONOMY \<lparr>cc_created = 0, cc_reused = 0\<rparr>"

definition parseProdSeedInput :: "env \<Rightarrow> admin_seed_input result" where
  "parseProdSeedInput env = parseAdminSeedInput env"

record prod_seed_summary =
  ps_action :: string
  ps_id :: int
  ps_email :: "string option"
  ps_phone :: "string option"
  ps_categories :: category_counts

text \<open>\<open>hash\<close> of bcrypt is the parameter \<open>hash_of\<close>.\<close>

definition runProdSeed :: "(string \<Rightarrow> string) \<Rightarrow> admin_seed_input \<Rightarrow> (prod_state, prod_seed_summary) handler" where
  "runProdSeed hash_of input =
     (\<lambda>(s, table).
        let passwordHash = hash_of (si_password input) in
        (case seedAdminUser (si_email input) (si_phone input) passwordHash s of
           (Inl e, s1) \<Rightarrow> (Inl e, (s1, table))
         | (Inr admin, s1) \<Rightarrow>
             bind_h seedCategories
               (\<lambda>n st. (Inr \<lparr>ps_action = (if sa_created admin then ''created'' else ''updated''), ps_id = sa_id admin,
                   ps_email = sa_email admin, ps_phone = sa_phone admin, ps_categories = n\<rparr>, st)) (s1, table)))"

text \<open>
  \<open>main\<close> of \<open>scripts/seed-prod.ts\<close>: the run is one transaction; a failure rolls the rows of both
  tables back and keeps what the identity sequences have given out.
\<close>

definition rolled_back :: "prod_state \<Rightarrow> prod_state \<Rightarrow> prod_state" where
  "rolled_back st st' =
     ((fst st)\<lparr>seqs := seqs (fst st')\<rparr>,
      (case (snd st, snd st') of
         (Some t, Some t') \<Rightarrow> Some (t\<lparr>cat_next := cat_next t'\<rparr>)
       | _ \<Rightarrow> snd st))"

definition seed_prod :: "env \<Rightarrow> (string \<Rightarrow> string) \<Rightarrow> (prod_state, prod_seed_summary) handler" where
  "seed_prod env hash_of st =
     (if falsy (env ''DATABASE_URL'') then (Inl (PlainError ''DATABASE_URL is required''), st)
      else (case parseProdSeedInput env of
              Inl e \<Rightarrow> (Inl e, st)
            | Inr input \<Rightarrow>
                (case runProdSeed hash_of input st of
                   (Inl e, st') \<Rightarrow> (Inl e, rolled_back st st')
                 | (Inr summary, st') \<Rightarrow> (Inr summary, st'))))"

text \<open>\<open>main\<close> of \<open>scripts/seed-admin.ts\<close>: the administrator alone, in one transaction.\<close>

definition seed_admin :: "env \<Rightarrow> (string \<Rightarrow> string) \<Rightarrow> (db, seeded_admin) handler" where
  "seed_admin env hash_of s =
     (if falsy (env ''DATABASE_URL'') then (Inl (PlainError ''DATABASE_URL is required''), s)
      else (case parseAdminSeedInput env of
              Inl e \<Rightarrow> (Inl e, s)
            | Inr input \<Rightarrow>
                with_transaction (seedAdminUser (si_email input) (si_phone input) (hash_of (si_password input))) s))"

section \<open>Seeding a table\<close>

text \<open>A well-formed table: ids are fresh, positive keys.\<close>

definition categories_inv :: "categories \<Rightarrow> bool" where
  "categories_inv t \<longleftrightarrow> pk cat_id (cat_next t) (cat_rows t) \<and> (\<forall>c \<in> set (cat_rows t). 0 < cat_id c) \<and> 0 < cat_next t"

definition grown :: "categories \<Rightarrow> categories \<Rightarrow> bool" where
  "grown t t' \<longleftrightarrow> (\<exists>new. cat_rows t' = cat_rows t @ new)"

lemma grown_refl [simp]: "grown t t" by (simp add: grown_def)

lemma grown_trans: "grown t t' \<Longrightarrow> grown t' t'' \<Longrightarrow> grown t t''"
  by (auto simp: grown_def)

lemma sibling_append: "sibling p n (xs @ ys) = (case sibling p n xs of None \<Rightarrow> sibling p n ys | r \<Rightarrow> r)"
  by (induction xs) (simp_all add: sibling_def)

lemma sibling_grown: "grown t t' \<Longrightarrow> sibling p n (cat_rows t) = Some c \<Longrightarrow> sibling p n (cat_rows t') = Some c"
  by (auto simp: grown_def sibling_append)

lemma sibling_mem: "sibling p n rows = Some c \<Longrightarrow> c \<in> set rows"
  by (auto simp: sibling_def dest: find_SomeD)

text \<open>One category: it is there afterwards, and was added exactly when it was missing.\<close>

lemma upsertCategory_effect:
  assumes inv: "categories_inv t" and parent: "case p of None \<Rightarrow> True | Some i \<Rightarrow> has_key cat_id i (cat_rows t)"
  obtains t' c where
    "upsertCategory name p (s, Some t) = (Inr (cat_id c, sibling p name (cat_rows t) = None), (s, Some t'))"
    "sibling p name (cat_rows t') = Some c" "categories_inv t'" "grown t t'"
    "length (cat_rows t') = length (cat_rows t) + of_bool (sibling p name (cat_rows t) = None)"
proof -
  have keys: "i \<noteq> cat_next t" if "has_key cat_id i (cat_rows t)" for i
    using inv that by (auto simp: categories_inv_def pk_def has_key_iff)
  let ?t1 = "t\<lparr>cat_next := cat_next t + 1\<rparr>"
  have inv1: "categories_inv ?t1" using inv by (auto simp: categories_inv_def pk_def)
  show thesis
  proof (cases "sibling p name (cat_rows t)")
    case (Some c)
    then show thesis
      using parent keys inv1
      by (intro that [of c ?t1])
        (auto simp: upsertCategory_def bind_h_def insert_category_def Let_def grown_def split: option.splits)
  next
    case None
    let ?c = "\<lparr>cat_id = cat_next t, cat_parent_id = p, cat_name = name, cat_created_at = clock s\<rparr>"
    have "categories_inv (?t1\<lparr>cat_rows := cat_rows t @ [?c]\<rparr>)"
      using inv by (auto simp: categories_inv_def pk_def)
    moreover have found: "sibling p name (cat_rows t @ [?c]) = Some ?c"
      using None by (simp add: sibling_append) (simp add: sibling_def)
    ultimately show thesis
      using parent keys None found
      by (intro that [of ?c "?t1\<lparr>cat_rows := cat_rows t @ [?c]\<rparr>"])
        (auto simp: upsertCategory_def bind_h_def insert_category_def Let_def grown_def split: option.splits)
  qed
qed

text \<open>A node is seeded when it and its children are in the table.\<close>

definition node_seeded :: "category list \<Rightarrow> category_node \<Rightarrow> bool" where
  "node_seeded rows node \<longleftrightarrow>
     (case sibling None (cn_name node) rows of
        None \<Rightarrow> False
      | Some c \<Rightarrow> list_all (\<lambda>child. sibling (Some (cat_id c)) child rows \<noteq> None) (cn_children node))"

lemma node_seeded_grown:
  assumes "grown t t'" "node_seeded (cat_rows t) node"
  shows "node_seeded (cat_rows t') node"
proof -
  obtain c where c: "sibling None (cn_name node) (cat_rows t) = Some c"
    and kids: "list_all (\<lambda>k. sibling (Some (cat_id c)) k (cat_rows t) \<noteq> None) (cn_children node)"
    using assms(2) by (auto simp: node_seeded_def split: option.splits)
  have "sibling (Some (cat_id c)) k (cat_rows t') \<noteq> None" if "k \<in> set (cn_children node)" for k
    using kids that sibling_grown [OF assms(1)] by (auto simp: list_all_iff)
  then show ?thesis using sibling_grown [OF assms(1) c] by (simp add: node_seeded_def list_all_iff)
qed

text \<open>
  What a loop over \<open>m\<close> names does: every name is counted once, the created ones are the rows added, and
  nothing is created when all were there.
\<close>

definition seeded_by :: "nat \<Rightarrow> bool \<Rightarrow> category_counts \<Rightarrow> categories \<Rightarrow> category_counts \<Rightarrow> categories \<Rightarrow> bool" where
  "seeded_by m present n t n' t' \<longleftrightarrow>
     categories_inv t' \<and> grown t t' \<and> cc_created n' + cc_reused n' = cc_created n + cc_reused n + m \<and>
     length (cat_rows t') + cc_created n = length (cat_rows t) + cc_created n' \<and>
     (present \<longrightarrow> cc_created n' = cc_created n)"

lemma seeded_by_0: "categories_inv t \<Longrightarrow> seeded_by 0 b n t n t"
  by (simp add: seeded_by_def)

lemma seeded_by_trans:
  "seeded_by m b n t n' t' \<Longrightarrow> seeded_by m' b' n' t' n'' t'' \<Longrightarrow> seeded_by (m + m') (b \<and> b') n t n'' t''"
  by (auto simp: seeded_by_def intro: grown_trans)

lemma seeded_by_one:
  assumes "categories_inv t'" "grown t t'" "length (cat_rows t') = length (cat_rows t) + of_bool created"
  shows "seeded_by 1 (\<not> created) n t (count_category created n) t'"
  using assms by (auto simp: seeded_by_def count_category_def)

lemma seed_children_effect:
  assumes "categories_inv t" "has_key cat_id p (cat_rows t)"
  obtains n' t' where "seed_children p names n (s, Some t) = (Inr n', (s, Some t'))"
    "seeded_by (length names) (list_all (\<lambda>c. sibling (Some p) c (cat_rows t) \<noteq> None) names) n t n' t'"
    "list_all (\<lambda>c. sibling (Some p) c (cat_rows t') \<noteq> None) names"
  using assms
proof (induction names arbitrary: t n thesis)
  case Nil
  then show ?case using seeded_by_0 by simp
next
  case (Cons name names)
  have parent: "case Some p of None \<Rightarrow> True | Some i \<Rightarrow> has_key cat_id i (cat_rows t)" using Cons.prems(3) by simp
  let ?new = "sibling (Some p) name (cat_rows t) = None"
  obtain t1 c where one: "upsertCategory name (Some p) (s, Some t) = (Inr (cat_id c, ?new), (s, Some t1))"
    "sibling (Some p) name (cat_rows t1) = Some c" "categories_inv t1" "grown t t1"
    "length (cat_rows t1) = length (cat_rows t) + of_bool ?new"
    by (rule upsertCategory_effect [OF Cons.prems(2) parent])
  have "has_key cat_id p (cat_rows t1)" using Cons.prems(3) one(4) by (auto simp: grown_def has_key_iff)
  then obtain n' t' where rest: "seed_children p names (count_category ?new n) (s, Some t1) = (Inr n', (s, Some t'))"
    "seeded_by (length names) (list_all (\<lambda>c. sibling (Some p) c (cat_rows t1) \<noteq> None) names) (count_category ?new n) t1 n' t'"
    "list_all (\<lambda>c. sibling (Some p) c (cat_rows t') \<noteq> None) names"
    using Cons.IH [OF _ one(3)] by blast
  note both = seeded_by_trans [OF seeded_by_one [OF one(3-5)] rest(2)]
  show ?case
  proof (rule Cons.prems(1))
    show "seed_children p (name # names) n (s, Some t) = (Inr n', (s, Some t'))"
      using one(1) rest(1) by (simp add: bind_h_def)
    have "list_all (\<lambda>c. sibling (Some p) c (cat_rows t1) \<noteq> None) names"
      if "list_all (\<lambda>c. sibling (Some p) c (cat_rows t) \<noteq> None) names"
      using that sibling_grown [OF one(4)] by (auto simp: list_all_iff)
    then show "seeded_by (length (name # names))
        (list_all (\<lambda>c. sibling (Some p) c (cat_rows t) \<noteq> None) (name # names)) n t n' t'"
      using both by (auto simp: seeded_by_def)
    have "grown t1 t'" using rest(2) by (simp add: seeded_by_def)
    then have "sibling (Some p) name (cat_rows t') = Some c" using one(2) by (rule sibling_grown)
    then show "list_all (\<lambda>c. sibling (Some p) c (cat_rows t') \<noteq> None) (name # names)"
      using rest(3) by simp
  qed
qed

definition taxonomy_size :: "category_node list \<Rightarrow> nat" where
  "taxonomy_size nodes = sum_list (map (\<lambda>node. 1 + length (cn_children node)) nodes)"

lemma seed_nodes_effect:
  assumes "categories_inv t"
  obtains n' t' where "seed_nodes nodes n (s, Some t) = (Inr n', (s, Some t'))"
    "seeded_by (taxonomy_size nodes) (list_all (node_seeded (cat_rows t)) nodes) n t n' t'"
    "list_all (node_seeded (cat_rows t')) nodes"
  using assms
proof (induction nodes arbitrary: t n thesis)
  case Nil
  then show ?case using seeded_by_0 by (simp add: taxonomy_size_def)
next
  case (Cons node nodes)
  let ?new = "sibling None (cn_name node) (cat_rows t) = None"
  let ?n1 = "count_category ?new n"
  obtain t1 c where one: "upsertCategory (cn_name node) None (s, Some t) = (Inr (cat_id c, ?new), (s, Some t1))"
    "sibling None (cn_name node) (cat_rows t1) = Some c" "categories_inv t1" "grown t t1"
    "length (cat_rows t1) = length (cat_rows t) + of_bool ?new"
    using Cons.prems(2) by (rule upsertCategory_effect) auto
  have key: "has_key cat_id (cat_id c) (cat_rows t1)" using sibling_mem [OF one(2)] by (auto simp: has_key_iff)
  let ?kids = "\<lambda>t. list_all (\<lambda>k. sibling (Some (cat_id c)) k (cat_rows t) \<noteq> None) (cn_children node)"
  obtain n2 t2 where two: "seed_children (cat_id c) (cn_children node) ?n1 (s, Some t1) = (Inr n2, (s, Some t2))"
    "seeded_by (length (cn_children node)) (?kids t1) ?n1 t1 n2 t2" "?kids t2"
    by (rule seed_children_effect [OF one(3) key])
  have inv2: "categories_inv t2" and g2: "grown t1 t2" using two(2) by (simp_all add: seeded_by_def)
  obtain n' t' where rest: "seed_nodes nodes n2 (s, Some t2) = (Inr n', (s, Some t'))"
    "seeded_by (taxonomy_size nodes) (list_all (node_seeded (cat_rows t2)) nodes) n2 t2 n' t'"
    "list_all (node_seeded (cat_rows t')) nodes"
    using Cons.IH [OF _ inv2] by blast
  have g3: "grown t2 t'" using rest(2) by (simp add: seeded_by_def)
  have here: "node_seeded (cat_rows t2) node"
    using sibling_grown [OF g2 one(2)] two(3) by (simp add: node_seeded_def)
  note all = seeded_by_trans [OF seeded_by_trans [OF seeded_by_one [OF one(3-5)] two(2)] rest(2)]
  show ?case
  proof (rule Cons.prems(1))
    show "seed_nodes (node # nodes) n (s, Some t) = (Inr n', (s, Some t'))"
      using one(1) two(1) rest(1) by (simp add: bind_h_def)
    show "list_all (node_seeded (cat_rows t')) (node # nodes)"
      using rest(3) node_seeded_grown [OF g3 here] by simp
    have "\<not> ?new \<and> ?kids t1 \<and> list_all (node_seeded (cat_rows t2)) nodes"
      if pres: "list_all (node_seeded (cat_rows t)) (node # nodes)"
    proof (intro conjI)
      obtain d where d: "sibling None (cn_name node) (cat_rows t) = Some d" using pres
        by (auto simp: node_seeded_def split: option.splits)
      then have "d = c" using sibling_grown [OF one(4)] one(2) by fastforce
      then show "?kids t1"
        using pres d sibling_grown [OF one(4)] by (fastforce simp: node_seeded_def list_all_iff)
      show "\<not> ?new" using d by simp
      show "list_all (node_seeded (cat_rows t2)) nodes"
        using pres node_seeded_grown [OF grown_trans [OF one(4) g2]] by (simp add: list_all_iff)
    qed
    then show "seeded_by (taxonomy_size (node # nodes)) (list_all (node_seeded (cat_rows t)) (node # nodes)) n t n' t'"
      using all by (auto simp: seeded_by_def taxonomy_size_def)
  qed
qed

text \<open>The categories part of the seeder never touches the accounts, and without the table it fails at once.\<close>

lemma seedCategories_no_table: "seedCategories (s, None) = (Inl (SqlError ''42P01''), (s, None))"
  by (simp add: seedCategories_def CATEGORY_TAXONOMY_def bind_h_def upsertCategory_def insert_category_def)

text \<open>C35: seeding the categories of a well-formed table succeeds, counts each of the 57 taxonomy entries
  once as created or reused, keeps every row, adds exactly the created ones and leaves the whole taxonomy in
  the table under its parents; seeding again creates nothing and changes no row. On the schema of today,
  without the table, a production seeding fails and no row of the accounts is changed.\<close>

theorem prod_seed_idempotent:
  assumes "categories_inv t"
  shows "(\<exists>n t'. seedCategories (s, Some t) = (Inr n, (s, Some t')) \<and> cc_created n + cc_reused n = 57 \<and>
        (\<exists>new. cat_rows t' = cat_rows t @ new \<and> length new = cc_created n) \<and>
        list_all (node_seeded (cat_rows t')) CATEGORY_TAXONOMY \<and>
        (\<exists>t''. seedCategories (s, Some t') = (Inr \<lparr>cc_created = 0, cc_reused = 57\<rparr>, (s, Some t'')) \<and>
           cat_rows t'' = cat_rows t')) \<and>
     (\<not> is_ok (fst (seed_prod env hash_of (s, None))) \<and>
        (\<exists>q. snd (seed_prod env hash_of (s, None)) = (s\<lparr>seqs := q\<rparr>, None)))"
proof
  have size: "taxonomy_size CATEGORY_TAXONOMY = 57" by code_simp
  let ?z = "\<lparr>cc_created = 0, cc_reused = 0\<rparr>"
  obtain n t1 where one: "seedCategories (s, Some t) = (Inr n, (s, Some t1))"
    "seeded_by 57 (list_all (node_seeded (cat_rows t)) CATEGORY_TAXONOMY) ?z t n t1"
    "list_all (node_seeded (cat_rows t1)) CATEGORY_TAXONOMY"
    by (rule seed_nodes_effect [OF assms, of CATEGORY_TAXONOMY ?z s, folded seedCategories_def, unfolded size])
  have inv1: "categories_inv t1" using one(2) by (simp add: seeded_by_def)
  obtain n2 t2 where two: "seedCategories (s, Some t1) = (Inr n2, (s, Some t2))"
    "seeded_by 57 (list_all (node_seeded (cat_rows t1)) CATEGORY_TAXONOMY) ?z t1 n2 t2"
    by (rule seed_nodes_effect [OF inv1, of CATEGORY_TAXONOMY ?z s, folded seedCategories_def, unfolded size])
  have "n2 = \<lparr>cc_created = 0, cc_reused = 57\<rparr>" and "cat_rows t2 = cat_rows t1"
    using two(2) one(3) by (auto simp: seeded_by_def grown_def intro: category_counts.equality)
  then show "\<exists>n t'. seedCategories (s, Some t) = (Inr n, (s, Some t')) \<and> cc_created n + cc_reused n = 57 \<and>
        (\<exists>new. cat_rows t' = cat_rows t @ new \<and> length new = cc_created n) \<and>
        list_all (node_seeded (cat_rows t')) CATEGORY_TAXONOMY \<and>
        (\<exists>t''. seedCategories (s, Some t') = (Inr \<lparr>cc_created = 0, cc_reused = 57\<rparr>, (s, Some t'')) \<and>
           cat_rows t'' = cat_rows t')"
    using one two(1) by (auto simp: seeded_by_def grown_def)
  have run: "\<exists>e x. runProdSeed hash_of input (s, None) = (Inl e, (x, None))" for input
    by (auto simp: runProdSeed_def Let_def bind_h_def seedCategories_no_table split: prod.split sum.split)
  show "\<not> is_ok (fst (seed_prod env hash_of (s, None))) \<and>
      (\<exists>q. snd (seed_prod env hash_of (s, None)) = (s\<lparr>seqs := q\<rparr>, None))"
  proof (cases "parseProdSeedInput env")
    case (Inl e)
    then show ?thesis by (auto simp: seed_prod_def intro!: exI [of _ "seqs s"])
  next
    case (Inr input)
    obtain e x where "runProdSeed hash_of input (s, None) = (Inl e, (x, None))" using run by blast
    then show ?thesis
      using Inr by (auto simp: seed_prod_def rolled_back_def intro: exI [of _ "seqs s"] exI [of _ "seqs x"])
  qed
qed

section \<open>Witness\<close>

definition sample_categories :: categories where
  "sample_categories = \<lparr>cat_next = 3,
     cat_rows = [\<lparr>cat_id = 1, cat_parent_id = None, cat_name = ''vehicles'', cat_created_at = 1\<rparr>,
                 \<lparr>cat_id = 2, cat_parent_id = Some 1, cat_name = ''ALL'', cat_created_at = 1\<rparr>]\<rparr>"

theorem prod_seed_idempotent_witness:
  "\<exists>n t'. seedCategories (sample_db, Some sample_categories) = (Inr n, (sample_db, Some t')) \<and>
     cc_created n + cc_reused n = 57 \<and> list_all (node_seeded (cat_rows t')) CATEGORY_TAXONOMY"
proof -
  have "categories_inv sample_categories" by code_simp
  from prod_seed_idempotent [OF this] show ?thesis by blast
qed

end
