(* ===== verification/SeedClient.thy ===== *)
theory SeedClient
  imports Accounts
begin

text \<open>
  The HTTP client of the development seeder (\<open>SeedApiClient\<close> of \<open>src/dev/dev-seeder.ts\<close>): its input
  (\<open>parseDevSeedInput\<close>), the reading of untyped answers, and \<open>request\<close> with its retries and its log.
  The world outside (fetch with its abort timer, the clock, \<open>JSON.parse\<close>, the socket library and the
  file system) is a record of parameters over an unknown state \<open>'w\<close>.
\<close>

section \<open>Input\<close>

definition DEV_PROFILE :: string where "DEV_PROFILE = ''medium''"
definition DEFAULT_BASE_URL :: string where "DEFAULT_BASE_URL = ''http://localhost''"
definition DEFAULT_TIMEOUT_MS :: int where "DEFAULT_TIMEOUT_MS = 12000"
definition RETRYABLE_STATUSES :: "nat list" where "RETRYABLE_STATUSES = [429, 500, 502, 503, 504]"
definition RETRY_ATTEMPTS :: nat where "RETRY_ATTEMPTS = 4"
definition EMPTY_SHA256 :: string where
  "EMPTY_SHA256 = ''e3b0c44298fc1c149afbf4c8996fb92427ae41e4649b934ca495991b7852b855''"

record dev_seed_input =
  di_baseUrl :: string
  di_adminPhone :: string
  di_adminPassword :: string
  di_profile :: string
  di_timeoutMs :: num_value

text \<open>\<open>!Number.isFinite(v) || v < lo || v > hi\<close> is false.\<close>

definition within :: "int \<Rightarrow> int \<Rightarrow> num_value \<Rightarrow> bool" where
  "within lo hi v = (case v of Dec m k \<Rightarrow> lo * 10 ^ k \<le> m \<and> m \<le> hi * 10 ^ k | _ \<Rightarrow> False)"

definition drop_slash :: "string \<Rightarrow> string" where
  "drop_slash s = (if s \<noteq> [] \<and> last s = CHR ''/'' then butlast s else s)"

datatype seed_error =
    ApiError string nat js string
  | SeedError string

definition parseDevSeedInput :: "env \<Rightarrow> seed_error + dev_seed_input" where
  "parseDevSeedInput env =
     (let baseUrl = drop_slash (trim (coalesce (env ''BASE_URL'') DEFAULT_BASE_URL));
          adminPhone = trim (coalesce (env ''ADMIN_PHONE'') []);
          adminPassword = coalesce (env ''ADMIN_PASSWORD'') [];
          profile = trim (coalesce (env ''SEED_PROFILE'') DEV_PROFILE);
          timeoutMs = js_Number (trim (coalesce (env ''SEED_TIMEOUT_MS'') (show_int DEFAULT_TIMEOUT_MS)))
      in if \<not> starts_with baseUrl ''http://'' \<and> \<not> starts_with baseUrl ''https://''
         then Inl (SeedError ''BASE_URL must start with http:// or https://'')
         else if adminPhone = [] then Inl (SeedError ''ADMIN_PHONE is required'')
         else if \<not> ADMIN_PHONE_REGEX adminPhone
         then Inl (SeedError ''ADMIN_PHONE must be a valid E.164-like phone number'')
         else if adminPassword = [] then Inl (SeedError ''ADMIN_PASSWORD is required'')
         else if length adminPassword < 8 \<or> 64 < length adminPassword \<or> \<not> ADMIN_PASSWORD_REGEX adminPassword
         then Inl (SeedError ''ADMIN_PASSWORD must be 8-64 chars and contain letters and numbers'')
         else if profile \<noteq> DEV_PROFILE
         then Inl (SeedError (''SEED_PROFILE must be \"'' @ DEV_PROFILE @ ''\" for this version''))
         else if \<not> within 1000 120000 timeoutMs
         then Inl (SeedError ''SEED_TIMEOUT_MS must be a number between 1000 and 120000'')
         else Inr \<lparr>di_baseUrl = baseUrl, di_adminPhone = adminPhone, di_adminPassword = adminPassword,
                di_profile = DEV_PROFILE, di_timeoutMs = timeoutMs\<rparr>)"

section \<open>Reading answers\<close>

definition ensureString :: "js \<Rightarrow> string" where
  "ensureString v = (case v of Str t \<Rightarrow> t | _ \<Rightarrow> [])"

text \<open>\<open>value && typeof value === 'object'\<close>: an array is an object too.\<close>

definition is_object :: "js \<Rightarrow> bool" where
  "is_object v = (case v of Obj _ \<Rightarrow> True | Arr _ \<Rightarrow> True | _ \<Rightarrow> False)"

definition getObject :: "js \<Rightarrow> js" where
  "getObject v = (if is_object v then v else Obj [])"

definition has_keys :: "js \<Rightarrow> bool" where
  "has_keys v = (case v of Obj kvs \<Rightarrow> kvs \<noteq> [] | Arr xs \<Rightarrow> xs \<noteq> [] | _ \<Rightarrow> False)"

definition getResponseData :: "js \<Rightarrow> js" where
  "getResponseData v =
     (let root = getObject v; nested = getObject (field root ''data'') in if has_keys nested then nested else root)"

definition toArray :: "js \<Rightarrow> js list" where
  "toArray v = (case v of Arr xs \<Rightarrow> filter is_object xs | _ \<Rightarrow> [])"

text \<open>\<open>Number(v)\<close> when it is an integer above zero.\<close>

definition positive_id :: "js \<Rightarrow> int option" where
  "positive_id v = (case to_integer (js_toNumber v) of Some n \<Rightarrow> if 0 < n then Some n else None | None \<Rightarrow> None)"

section \<open>The client\<close>

datatype http_method = GET | POST | PATCH | DELETE

fun method_text :: "http_method \<Rightarrow> string" where
  "method_text GET = ''GET''"
| "method_text POST = ''POST''"
| "method_text PATCH = ''PATCH''"
| "method_text DELETE = ''DELETE''"

record http_call =
  hc_method :: http_method
  hc_url :: string
  hc_headers :: "(string \<times> string) list"
  hc_body :: "js option"
  hc_timeout :: num_value

text \<open>
  What \<open>await fetch(...)\<close> and \<open>await response.text()\<close> come to: a status and a text, or a failure with
  its message and the status known by then (0 when the fetch itself failed or was aborted).
\<close>

datatype fetch_outcome =
    Replied nat string
  | Failed nat string

datatype 'w outside = Outside
  (net_fetch: "http_call \<Rightarrow> 'w \<Rightarrow> fetch_outcome \<times> 'w")
  (net_now: "'w \<Rightarrow> int")
  (net_iso: "'w \<Rightarrow> string")
  (net_sleep: "int \<Rightarrow> 'w \<Rightarrow> 'w")
  (net_json: "string \<Rightarrow> js option")
  (net_connect: "string \<Rightarrow> string \<Rightarrow> 'w \<Rightarrow> (string + nat) \<times> 'w")
  (net_emit: "nat \<Rightarrow> string \<Rightarrow> js \<Rightarrow> 'w \<Rightarrow> (string + js) \<times> 'w")
  (net_disconnect: "nat \<Rightarrow> 'w \<Rightarrow> 'w")

record api_call_log =
  al_method :: http_method
  al_path :: string
  al_statusCode :: nat
  al_durationMs :: int
  al_attempts :: nat
  al_retried :: bool
  al_requestBody :: "js option"
  al_responseBody :: js

record request_options =
  ro_token :: string
  ro_body :: "js option"
  ro_expected :: "nat list"
  ro_retryable :: bool

text \<open>The defaults of the options; a missing token is the empty text, which is not sent either.\<close>

definition plain :: request_options where
  "plain = \<lparr>ro_token = [], ro_body = None, ro_expected = [200, 201], ro_retryable = True\<rparr>"

record 'w client =
  cl_baseUrl :: string
  cl_timeout :: num_value
  cl_logs :: "api_call_log list"
  cl_world :: 'w

type_synonym ('s, 'a) seeding = "'s \<Rightarrow> (seed_error + 'a) \<times> 's"

definition isRetryableStatus :: "nat \<Rightarrow> bool" where
  "isRetryableStatus statusCode \<longleftrightarrow> statusCode \<in> set RETRYABLE_STATUSES"

definition delayMs :: "nat \<Rightarrow> int" where
  "delayMs attempt = 250 * 2 ^ (attempt - 1)"

definition parsed_body :: "'w outside \<Rightarrow> string \<Rightarrow> js" where
  "parsed_body net raw =
     (if raw = [] then Obj []
      else case net_json net raw of Some v \<Rightarrow> v | None \<Rightarrow> Obj [(''raw'', Str raw)])"

definition call_of :: "('w, 'm) client_scheme \<Rightarrow> http_method \<Rightarrow> string \<Rightarrow> request_options \<Rightarrow> http_call" where
  "call_of c m endpoint opts =
     \<lparr>hc_method = m, hc_url = cl_baseUrl c @ endpoint,
      hc_headers = (''Content-Type'', ''application/json'') #
        (if ro_token opts = [] then [] else [(''Authorization'', ''Bearer '' @ ro_token opts)]),
      hc_body = ro_body opts, hc_timeout = cl_timeout c\<rparr>"

definition network_failure :: "http_method \<Rightarrow> string \<Rightarrow> string \<Rightarrow> seed_error" where
  "network_failure m endpoint message =
     SeedError (''Network failure on '' @ method_text m @ '' '' @ endpoint @ '': '' @ message)"

text \<open>The loop of \<open>request\<close>; \<open>attempts\<close> have been made.\<close>

function request_from ::
  "'w outside \<Rightarrow> http_method \<Rightarrow> string \<Rightarrow> request_options \<Rightarrow> nat \<Rightarrow> string \<Rightarrow>
     (('w, 'm) client_scheme, nat \<times> js) seeding" where
  "request_from net m endpoint opts attempts lastNetworkError c =
     (if attempts < RETRY_ATTEMPTS then
        let n = attempts + 1;
            start = net_now net (cl_world c);
            (outcome, w) = net_fetch net (call_of c m endpoint opts) (cl_world c);
            entry = (\<lambda>status body. \<lparr>al_method = m, al_path = endpoint, al_statusCode = status,
              al_durationMs = net_now net w - start, al_attempts = n, al_retried = 1 < n,
              al_requestBody = ro_body opts, al_responseBody = body\<rparr>);
            logged = (\<lambda>status body. c\<lparr>cl_logs := cl_logs c @ [entry status body], cl_world := w\<rparr>);
            slept = (\<lambda>c. c\<lparr>cl_world := net_sleep net (delayMs n) (cl_world c)\<rparr>)
        in (case outcome of
              Replied status raw \<Rightarrow>
                let body = parsed_body net raw; c1 = logged status body
                in if status \<in> set (ro_expected opts) then (Inr (status, body), c1)
                   else if ro_retryable opts \<and> n < RETRY_ATTEMPTS \<and> isRetryableStatus status
                   then request_from net m endpoint opts n lastNetworkError (slept c1)
                   else (Inl (ApiError (''HTTP '' @ show_nat status @ '' on '' @ method_text m @ '' '' @ endpoint)
                           status body endpoint), c1)
            | Failed status message \<Rightarrow>
                let c1 = logged status (Obj [(''error'', Str message)])
                in if \<not> ro_retryable opts \<or> RETRY_ATTEMPTS \<le> n then (Inl (network_failure m endpoint message), c1)
                   else request_from net m endpoint opts n message (slept c1))
      else (Inl (network_failure m endpoint lastNetworkError), c))"
  by pat_completeness auto

termination
  by (relation "measure (\<lambda>(net, m, endpoint, opts, attempts, message, c). RETRY_ATTEMPTS - attempts)") auto

declare request_from.simps [simp del]

definition request ::
  "'w outside \<Rightarrow> http_method \<Rightarrow> string \<Rightarrow> request_options \<Rightarrow> (('w, 'm) client_scheme, nat \<times> js) seeding" where
  "request net m endpoint opts = request_from net m endpoint opts 0 []"

section \<open>What a request does\<close>

definition network_error :: "api_call_log \<Rightarrow> bool" where
  "network_error a \<longleftrightarrow> (\<exists>message. al_responseBody a = Obj [(''error'', Str message)])"

lemma isRetryable_iff: "isRetryableStatus n \<longleftrightarrow> n \<in> {429, 500, 502, 503, 504}"
  by (auto simp: isRetryableStatus_def RETRYABLE_STATUSES_def)

text \<open>An attempt after which the request goes on.\<close>

definition retried_attempt :: "request_options \<Rightarrow> api_call_log \<Rightarrow> bool" where
  "retried_attempt opts a \<longleftrightarrow> ro_retryable opts \<and>
     (network_error a \<or>
      al_statusCode a \<notin> set (ro_expected opts) \<and> al_statusCode a \<in> {429, 500, 502, 503, 504})"

text \<open>What the answer says of the last attempt; \<open>final\<close> tells that no attempt is left.\<close>

fun answer_of :: "request_options \<Rightarrow> bool \<Rightarrow> api_call_log \<Rightarrow> seed_error + nat \<times> js \<Rightarrow> bool" where
  "answer_of opts final a (Inr (status, body)) \<longleftrightarrow>
     status \<in> set (ro_expected opts) \<and> al_statusCode a = status \<and> al_responseBody a = body"
| "answer_of opts final a (Inl (ApiError message status body endpoint)) \<longleftrightarrow>
     status \<notin> set (ro_expected opts) \<and> al_statusCode a = status \<and> al_responseBody a = body \<and>
     endpoint = al_path a \<and> (\<not> ro_retryable opts \<or> final \<or> status \<notin> {429, 500, 502, 503, 504})"
| "answer_of opts final a (Inl (SeedError message)) \<longleftrightarrow> network_error a \<and> (\<not> ro_retryable opts \<or> final)"

definition attempts_made ::
  "request_options \<Rightarrow> nat \<Rightarrow> api_call_log list \<Rightarrow> seed_error + nat \<times> js \<Rightarrow> bool" where
  "attempts_made opts attempts new x \<longleftrightarrow>
     new \<noteq> [] \<and> attempts + length new \<le> RETRY_ATTEMPTS \<and> (\<not> ro_retryable opts \<longrightarrow> length new = 1) \<and>
     map al_attempts new = [attempts + 1 ..< attempts + 1 + length new] \<and>
     list_all (retried_attempt opts) (butlast new) \<and>
     answer_of opts (attempts + length new = RETRY_ATTEMPTS) (last new) x"

lemma attempts_made_one:
  assumes "attempts < RETRY_ATTEMPTS" "al_attempts a = attempts + 1"
    "answer_of opts (attempts + 1 = RETRY_ATTEMPTS) a x"
  shows "attempts_made opts attempts [a] x"
  using assms by (simp add: attempts_made_def)

lemma attempts_made_Cons:
  assumes "attempts_made opts (attempts + 1) new x" "retried_attempt opts a" "al_attempts a = attempts + 1"
  shows "attempts_made opts attempts (a # new) x"
  using assms by (auto simp: attempts_made_def retried_attempt_def upt_conv_Cons Suc_le_eq)

lemma request_from_attempts:
  assumes "attempts < RETRY_ATTEMPTS" and "request_from net m endpoint opts attempts failure c = (x, c')"
  shows "\<exists>new. cl_logs c' = cl_logs c @ new \<and> attempts_made opts attempts new x \<and>
     list_all (\<lambda>a. al_method a = m \<and> al_path a = endpoint \<and> al_requestBody a = ro_body opts) new"
  using assms
proof (induction "RETRY_ATTEMPTS - attempts" arbitrary: attempts failure c rule: less_induct)
  case less
  obtain outcome w where fetch: "net_fetch net (call_of c m endpoint opts) (cl_world c) = (outcome, w)" by fastforce
  let ?n = "attempts + 1"
  define entry where "entry = (\<lambda>status body. \<lparr>al_method = m, al_path = endpoint, al_statusCode = status,
      al_durationMs = net_now net w - net_now net (cl_world c), al_attempts = ?n, al_retried = 1 < ?n,
      al_requestBody = ro_body opts, al_responseBody = body\<rparr>)"
  define logged where "logged = (\<lambda>status body. c\<lparr>cl_logs := cl_logs c @ [entry status body], cl_world := w\<rparr>)"
  define slept where "slept = (\<lambda>c :: ('a, 'b) client_scheme. c\<lparr>cl_world := net_sleep net (delayMs ?n) (cl_world c)\<rparr>)"
  have sel [simp]: "al_method (entry s b) = m" "al_path (entry s b) = endpoint" "al_requestBody (entry s b) = ro_body opts"
    "al_statusCode (entry s b) = s" "al_responseBody (entry s b) = b" "al_attempts (entry s b) = ?n"
    "cl_logs (logged s b) = cl_logs c @ [entry s b]" "cl_logs (slept d) = cl_logs d" for s b d
    by (simp_all add: entry_def logged_def slept_def)
  have step: "request_from net m endpoint opts attempts failure c =
      (case outcome of
         Replied status raw \<Rightarrow>
           let body = parsed_body net raw
           in if status \<in> set (ro_expected opts) then (Inr (status, body), logged status body)
              else if ro_retryable opts \<and> ?n < RETRY_ATTEMPTS \<and> isRetryableStatus status
              then request_from net m endpoint opts ?n failure (slept (logged status body))
              else (Inl (ApiError (''HTTP '' @ show_nat status @ '' on '' @ method_text m @ '' '' @ endpoint)
                      status body endpoint), logged status body)
       | Failed status message \<Rightarrow>
           let c1 = logged status (Obj [(''error'', Str message)])
           in if \<not> ro_retryable opts \<or> RETRY_ATTEMPTS \<le> ?n then (Inl (network_failure m endpoint message), c1)
              else request_from net m endpoint opts ?n message (slept c1))"
    using less.prems(1) fetch unfolding entry_def logged_def slept_def
    by (subst request_from.simps) (simp only: Let_def if_True case_prod_conv)
  have IH: "\<exists>new. cl_logs c' = cl_logs d @ new \<and> attempts_made opts ?n new x \<and>
     list_all (\<lambda>a. al_method a = m \<and> al_path a = endpoint \<and> al_requestBody a = ro_body opts) new"
    if "request_from net m endpoint opts ?n why d = (x, c')" "?n < RETRY_ATTEMPTS" for why d
    using less.hyps [of ?n, OF _ that(2,1)] less.prems(1) by simp
  have go_on: "\<exists>new. cl_logs c' = cl_logs c @ new \<and> attempts_made opts attempts new x \<and>
     list_all (\<lambda>a. al_method a = m \<and> al_path a = endpoint \<and> al_requestBody a = ro_body opts) new"
    if "retried_attempt opts (entry s b)"
      "\<exists>new. cl_logs c' = cl_logs (slept (logged s b)) @ new \<and> attempts_made opts ?n new x \<and>
        list_all (\<lambda>a. al_method a = m \<and> al_path a = endpoint \<and> al_requestBody a = ro_body opts) new" for s b
    using that(2) attempts_made_Cons [OF _ that(1)] by force
  have stop: ?case if "attempts_made opts attempts [entry s b] x" "c' = logged s b" for s b
    using that by (intro exI [of _ "[entry s b]"]) simp
  show ?case
  proof (cases outcome)
    case (Replied status raw)
    let ?b = "parsed_body net raw"
    consider (expected) "status \<in> set (ro_expected opts)"
      | (again) "status \<notin> set (ro_expected opts)" "ro_retryable opts" "?n < RETRY_ATTEMPTS" "isRetryableStatus status"
      | (refused) "status \<notin> set (ro_expected opts)" "\<not> (ro_retryable opts \<and> ?n < RETRY_ATTEMPTS \<and> isRetryableStatus status)"
      by blast
    then show ?thesis
    proof cases
      case expected
      then have "x = Inr (status, ?b)" "c' = logged status ?b" using less.prems(2) step Replied by (simp_all add: Let_def)
      then show ?thesis using less.prems(1) expected by (intro stop attempts_made_one) simp_all
    next
      case again
      then have "request_from net m endpoint opts ?n failure (slept (logged status ?b)) = (x, c')"
        using less.prems(2) step Replied by (simp add: Let_def)
      from go_on [OF _ IH [OF this again(3)]] show ?thesis using again by (simp add: retried_attempt_def isRetryable_iff)
    next
      case refused
      then have "x = Inl (ApiError (''HTTP '' @ show_nat status @ '' on '' @ method_text m @ '' '' @ endpoint)
          status ?b endpoint)" "c' = logged status ?b"
        using less.prems(2) unfolding step Replied
        by (simp_all only: fetch_outcome.case Let_def if_not_P [OF refused(1)] if_not_P [OF refused(2)] if_False prod.inject)
      then show ?thesis using less.prems(1) refused by (intro stop attempts_made_one) (auto simp: isRetryable_iff)
    qed
  next
    case (Failed status message)
    let ?b = "Obj [(''error'', Str message)]"
    have err: "network_error (entry status ?b)" by (simp add: network_error_def)
    show ?thesis
    proof (cases "\<not> ro_retryable opts \<or> RETRY_ATTEMPTS \<le> ?n")
      case True
      then have "x = Inl (network_failure m endpoint message)" "c' = logged status ?b"
        using less.prems(2) step Failed by (simp_all add: Let_def)
      then show ?thesis using less.prems(1) err True by (intro stop attempts_made_one) (auto simp: network_failure_def)
    next
      case False
      then have "request_from net m endpoint opts ?n message (slept (logged status ?b)) = (x, c')"
        using less.prems(2) step Failed by (simp add: Let_def)
      from go_on [OF _ IH [OF this]] show ?thesis using False err by (simp add: retried_attempt_def)
    qed
  qed
qed

text \<open>A request touches the log and the world only.\<close>

lemma request_from_more:
  fixes c :: "('w, 'm) client_scheme"
  shows "client.more (snd (request_from net m endpoint opts attempts failure c)) = client.more c"
proof (induction "RETRY_ATTEMPTS - attempts" arbitrary: attempts failure c rule: less_induct)
  case less
  have IH: "client.more (snd (request_from net m endpoint opts (attempts + 1) why d)) = client.more d"
    if "attempts < RETRY_ATTEMPTS" for why and d :: "('w, 'm) client_scheme"
    using less [of "attempts + 1" why d] that by simp
  show ?case
  proof (cases "attempts < RETRY_ATTEMPTS")
    case True
    then show ?thesis
      by (subst request_from.simps) (auto simp: Let_def IH [OF True, simplified] split: prod.split fetch_outcome.split)
  next
    case False
    then show ?thesis by (subst request_from.simps) simp
  qed
qed

lemma request_calls:
  assumes "request net m endpoint opts c = (x, c')"
  obtains new where "cl_logs c' = cl_logs c @ new" "attempts_made opts 0 new x"
    "list_all (\<lambda>a. al_method a = m \<and> al_path a = endpoint \<and> al_requestBody a = ro_body opts) new"
proof -
  have "0 < RETRY_ATTEMPTS" by (simp add: RETRY_ATTEMPTS_def)
  from request_from_attempts [OF this assms [unfolded request_def]] show thesis using that by blast
qed

text \<open>Whatever the network does, a request of the seeder returns after between one and four attempts,
  and after exactly one when it is not retryable. It logs each attempt once, numbered from 1; every attempt
  but the last failed on the network or with status 429, 500, 502, 503 or 504. An answer is the expected status and the
  body of the last attempt; an API error carries its unexpected status, which is not retryable unless the
  attempts are used up; and any other error is a network failure of the last attempt.\<close>

theorem request_attempts:
  assumes "request net m endpoint opts c = (x, c')"
  shows "\<exists>new. cl_logs c' = cl_logs c @ new \<and> 1 \<le> length new \<and> length new \<le> 4 \<and>
     (\<not> ro_retryable opts \<longrightarrow> length new = 1) \<and> map al_attempts new = [1 ..< length new + 1] \<and>
     list_all (\<lambda>a. al_method a = m \<and> al_path a = endpoint \<and> al_requestBody a = ro_body opts) new \<and>
     list_all (retried_attempt opts) (butlast new) \<and> answer_of opts (length new = 4) (last new) x"
  using assms
  by (rule request_calls) (auto simp: attempts_made_def RETRY_ATTEMPTS_def Suc_le_eq)

section \<open>A scripted network\<close>

text \<open>The replies to come, one per call; the clock stands still.\<close>

definition scripted :: "fetch_outcome list outside" where
  "scripted = Outside
     (\<lambda>call w. case w of [] \<Rightarrow> (Failed 0 ''fetch failed'', []) | r # rest \<Rightarrow> (r, rest))
     (\<lambda>w. 0) (\<lambda>w. ''2026-01-01T00:00:00.000Z'') (\<lambda>ms w. w) (\<lambda>t. None)
     (\<lambda>url token w. (Inr 0, w)) (\<lambda>sock event v w. (Inr (Obj []), w)) (\<lambda>sock w. w)"

definition sample_client :: "fetch_outcome list \<Rightarrow> fetch_outcome list client" where
  "sample_client w = \<lparr>cl_baseUrl = ''http://localhost'', cl_timeout = whole 12000, cl_logs = [], cl_world = w\<rparr>"

definition sample_request :: "(fetch_outcome list client, nat \<times> js) seeding" where
  "sample_request = request scripted GET ''/health/live'' plain"

theorem request_attempts_witness:
  "\<exists>c'. sample_request (sample_client [Failed 0 ''reset'', Replied 503 [], Replied 200 ''ok'']) =
       (Inr (200, Obj [(''raw'', Str ''ok'')]), c') \<and>
     al_statusCode (last (cl_logs c')) = 200 \<and> map al_attempts (cl_logs c') = [1 ..< length (cl_logs c') + 1] \<and>
     list_all (retried_attempt plain) (butlast (cl_logs c'))"
proof -
  let ?c = "sample_client [Failed 0 ''reset'', Replied 503 [], Replied 200 ''ok'']"
  have "fst (sample_request ?c) = Inr (200, Obj [(''raw'', Str ''ok'')])" by code_simp
  then obtain c' where run: "sample_request ?c = (Inr (200, Obj [(''raw'', Str ''ok'')]), c')"
    by (metis prod.collapse)
  have "cl_logs ?c = []" by (simp add: sample_client_def)
  with request_attempts [OF run [unfolded sample_request_def]] show ?thesis using run by auto
qed

end
