(* ===== verification/DevFixtures.thy ===== *)
theory DevFixtures
  imports SeedClient Listings
begin

text \<open>The rows the development seeder puts into a running system (\<open>src/dev/dev-seeder.ts\<close>).\<close>

record seed_user =
  su_key :: string
  su_name :: string
  su_phone :: string
  su_password :: string
  su_city :: string
  su_address :: string

definition seed_user_row :: "string \<Rightarrow> string \<Rightarrow> string \<Rightarrow> string \<Rightarrow> string \<Rightarrow> string \<Rightarrow> seed_user" where
  "seed_user_row key name phone password city address =
     \<lparr>su_key = key, su_name = name, su_phone = phone, su_password = password, su_city = city, su_address = address\<rparr>"

definition DEV_USERS :: "seed_user list" where
  "DEV_USERS =
    [seed_user_row ''user01'' ''DEV User 01'' ''+201550000101'' ''DevUser01123'' ''Cairo'' ''Nasr City Block A'',
     seed_user_row ''user02'' ''DEV User 02'' ''+201550000102'' ''DevUser02123'' ''Giza'' ''Dokki District 2'',
     seed_user_row ''user03'' ''DEV User 03'' ''+201550000103'' ''DevUser03123'' ''Alexandria'' ''Sidi Gaber Area'',
     seed_user_row ''user04'' ''DEV User 04'' ''+201550000104'' ''DevUser04123'' ''Mansoura'' ''University Street 4'',
     seed_user_row ''user05'' ''DEV User 05'' ''+201550000105'' ''DevUser05123'' ''Tanta'' ''Central Market Road'',
     seed_user_row ''user06'' ''DEV User 06'' ''+201550000106'' ''DevUser06123'' ''Ismailia'' ''Canal View 6'',
     seed_user_row ''user07'' ''DEV User 07'' ''+201550000107'' ''DevUser07123'' ''Asyut'' ''El Gomhoureya Street 7'',
     seed_user_row ''user08'' ''DEV User 08'' ''+201550000108'' ''DevUser08123'' ''Luxor'' ''Karnak Road 8'']"

record category_def =
  cd_key :: string
  cd_name :: string
  cd_parentKey :: "string option"

definition category_row :: "string \<Rightarrow> string \<Rightarrow> string option \<Rightarrow> category_def" where
  "category_row key name parentKey = \<lparr>cd_key = key, cd_name = name, cd_parentKey = parentKey\<rparr>"

definition DEV_CATEGORIES :: "category_def list" where
  "DEV_CATEGORIES =
    [category_row ''root-electronics'' ''[DEV] Electronics'' None,
     category_row ''root-fashion'' ''[DEV] Fashion'' None,
     category_row ''root-home'' ''[DEV] Home'' None,
     category_row ''leaf-phones'' ''[DEV] Mobile Phones'' (Some ''root-electronics''),
     category_row ''leaf-laptops'' ''[DEV] Laptops'' (Some ''root-electronics''),
     category_row ''leaf-men'' ''[DEV] Men Clothing'' (Some ''root-fashion''),
     category_row ''leaf-women'' ''[DEV] Women Clothing'' (Some ''root-fashion''),
     category_row ''leaf-furniture'' ''[DEV] Furniture'' (Some ''root-home''),
     category_row ''leaf-appliances'' ''[DEV] Appliances'' (Some ''root-home'')]"

definition PRODUCT_STATUS_MATRIX :: "(string \<times> string list) list" where
  "PRODUCT_STATUS_MATRIX =
    [(''user01'', [''available'', ''sold'', ''archived'']),
     (''user02'', [''available'', ''available'', ''sold'']),
     (''user03'', [''available'', ''available'', ''archived'']),
     (''user04'', [''available'', ''sold'', ''available'']),
     (''user05'', [''available'', ''available'', ''archived'']),
     (''user06'', [''sold'', ''available'', ''available'']),
     (''user07'', [''archived'', ''available'', ''sold'']),
     (''user08'', [''available'', ''available'', ''sold''])]"

record rating_def =
  rd_key :: string
  rd_raterKey :: string
  rd_ratedKey :: string
  rd_value :: int
  rd_comment :: string

definition rating_row :: "string \<Rightarrow> string \<Rightarrow> string \<Rightarrow> int \<Rightarrow> string \<Rightarrow> rating_def" where
  "rating_row key rater rated v comment =
     \<lparr>rd_key = key, rd_raterKey = rater, rd_ratedKey = rated, rd_value = v, rd_comment = comment\<rparr>"

definition RATING_DEFS :: "rating_def list" where
  "RATING_DEFS =
    [rating_row ''rate-01'' ''user01'' ''user02'' 5 ''[DEV-SEED:rate-01] Great buyer'',
     rating_row ''rate-02'' ''user02'' ''user01'' 4 ''[DEV-SEED:rate-02] Smooth trade'',
     rating_row ''rate-03'' ''user03'' ''user04'' 5 ''[DEV-SEED:rate-03] Excellent seller'',
     rating_row ''rate-04'' ''user04'' ''user03'' 3 ''[DEV-SEED:rate-04] Item acceptable'',
     rating_row ''rate-05'' ''user05'' ''user06'' 4 ''[DEV-SEED:rate-05] Good communication'',
     rating_row ''rate-06'' ''user06'' ''user05'' 5 ''[DEV-SEED:rate-06] Fast payment'',
     rating_row ''rate-07'' ''user07'' ''user08'' 2 ''[DEV-SEED:rate-07] Late responses'',
     rating_row ''rate-08'' ''user08'' ''user07'' 4 ''[DEV-SEED:rate-08] Resolved quickly'',
     rating_row ''rate-09'' ''user01'' ''user03'' 5 ''[DEV-SEED:rate-09] Trusted seller'',
     rating_row ''rate-10'' ''user02'' ''user04'' 4 ''[DEV-SEED:rate-10] Good quality'',
     rating_row ''rate-11'' ''user03'' ''user05'' 3 ''[DEV-SEED:rate-11] Average experience'',
     rating_row ''rate-12'' ''user04'' ''user06'' 5 ''[DEV-SEED:rate-12] Highly recommended'']"

text \<open>Key and two parties: conversations, blocks; a favourite names a product.\<close>

record pair_def =
  pd_key :: string
  pd_first :: string
  pd_second :: string

definition pair_row :: "string \<Rightarrow> string \<Rightarrow> string \<Rightarrow> pair_def" where
  "pair_row key a b = \<lparr>pd_key = key, pd_first = a, pd_second = b\<rparr>"

definition CONVERSATION_DEFS :: "pair_def list" where
  "CONVERSATION_DEFS =
    [pair_row ''chat-01'' ''user01'' ''user02'', pair_row ''chat-02'' ''user03'' ''user04'',
     pair_row ''chat-03'' ''user05'' ''user06'', pair_row ''chat-04'' ''user07'' ''user08'',
     pair_row ''chat-05'' ''user01'' ''user05'', pair_row ''chat-06'' ''user02'' ''user06'']"

definition BLOCK_DEFS :: "pair_def list" where
  "BLOCK_DEFS = [pair_row ''block-01'' ''user07'' ''user08'', pair_row ''block-02'' ''user08'' ''user07'']"

definition FAVORITE_DEFS :: "pair_def list" where
  "FAVORITE_DEFS =
    [pair_row ''fav-01'' ''user01'' ''user03-product-1'', pair_row ''fav-02'' ''user02'' ''user04-product-2'',
     pair_row ''fav-03'' ''user03'' ''user05-product-3'', pair_row ''fav-04'' ''user04'' ''user01-product-2'',
     pair_row ''fav-05'' ''user05'' ''user02-product-1'', pair_row ''fav-06'' ''user06'' ''user03-product-2'']"

record report_def =
  rp_key :: string
  rp_reporterKey :: string
  rp_reportedKey :: string
  rp_reason :: string
  rp_targetStatus :: string

definition report_row :: "string \<Rightarrow> string \<Rightarrow> string \<Rightarrow> string \<Rightarrow> string \<Rightarrow> report_def" where
  "report_row key reporter reported reason status =
     \<lparr>rp_key = key, rp_reporterKey = reporter, rp_reportedKey = reported, rp_reason = reason, rp_targetStatus = status\<rparr>"

definition REPORT_DEFS :: "report_def list" where
  "REPORT_DEFS =
    [report_row ''report-01'' ''user01'' ''user07'' ''[DEV-SEED:report-01] Repeated abusive language in chat'' ''open'',
     report_row ''report-02'' ''user02'' ''user08'' ''[DEV-SEED:report-02] Suspicious listing details mismatch'' ''reviewing'',
     report_row ''report-03'' ''user03'' ''user07'' ''[DEV-SEED:report-03] Spam behavior observed in marketplace'' ''resolved'',
     report_row ''report-04'' ''user04'' ''user08'' ''[DEV-SEED:report-04] Item authenticity concern raised'' ''rejected'',
     report_row ''report-05'' ''user05'' ''user07'' ''[DEV-SEED:report-05] Harassing follow-up messages'' ''resolved'',
     report_row ''report-06'' ''user06'' ''user08'' ''[DEV-SEED:report-06] Payment proof appears manipulated'' ''reviewing'']"

record status_target =
  st_key :: string
  st_status :: string
  st_warningMessage :: string

definition USER_STATUS_TARGETS :: "status_target list" where
  "USER_STATUS_TARGETS =
    [\<lparr>st_key = ''user07'', st_status = ''paused'',
       st_warningMessage = ''[DEV-SEED:warning-user07] Account paused due to repeated conduct violations''\<rparr>,
     \<lparr>st_key = ''user08'', st_status = ''banned'',
       st_warningMessage = ''[DEV-SEED:warning-user08] Account banned due to severe policy breach''\<rparr>]"

section \<open>Products\<close>

record product_def =
  pr_key :: string
  pr_ownerKey :: string
  pr_categoryKey :: string
  pr_name :: string
  pr_description :: string
  pr_price :: int
  pr_city :: string
  pr_addressText :: string
  pr_status :: string

definition leafCycle :: "string list" where
  "leafCycle = [''leaf-phones'', ''leaf-laptops'', ''leaf-men'', ''leaf-women'', ''leaf-furniture'', ''leaf-appliances'']"

definition product_def_of :: "seed_user \<Rightarrow> string \<Rightarrow> nat \<Rightarrow> nat \<Rightarrow> nat \<Rightarrow> product_def" where
  "product_def_of user status i globalIndex categoryIndex =
     (let key = su_key user @ ''-product-'' @ show_nat (i + 1); tag = ''[DEV-SEED:'' @ key @ '']'' in
      \<lparr>pr_key = key, pr_ownerKey = su_key user, pr_categoryKey = leafCycle ! (categoryIndex mod length leafCycle),
       pr_name = tag @ '' Marketplace Item '' @ show_nat globalIndex,
       pr_description = tag @ '' Deterministic seeded listing for '' @ su_key user,
       pr_price = 100 + int globalIndex * 13, pr_city = su_city user,
       pr_addressText = tag @ '' '' @ su_address user, pr_status = status\<rparr>)"

text \<open>The two loops, with the counters \<open>globalIndex\<close> and \<open>categoryIndex\<close> running through both.\<close>

fun product_defs_of :: "seed_user \<Rightarrow> string list \<Rightarrow> nat \<Rightarrow> nat \<Rightarrow> nat \<Rightarrow> product_def list" where
  "product_defs_of user [] i globalIndex categoryIndex = []"
| "product_defs_of user (status # statuses) i globalIndex categoryIndex =
     product_def_of user status i (globalIndex + 1) categoryIndex #
     product_defs_of user statuses (i + 1) (globalIndex + 1) (categoryIndex + 1)"

fun build_products :: "seed_user list \<Rightarrow> nat \<Rightarrow> nat \<Rightarrow> product_def list" where
  "build_products [] globalIndex categoryIndex = []"
| "build_products (user # others) globalIndex categoryIndex =
     product_defs_of user (take 3 (coalesce (map_of PRODUCT_STATUS_MATRIX (su_key user)) [])) 0 globalIndex categoryIndex @
     build_products others (globalIndex + 3) (categoryIndex + 3)"

definition buildProductDefs :: "product_def list" where
  "buildProductDefs = build_products DEV_USERS 0 0"

definition PRODUCT_CATEGORY_LABELS_BY_LEAF_KEY :: "(string \<times> (string \<times> string option)) list" where
  "PRODUCT_CATEGORY_LABELS_BY_LEAF_KEY =
    [(''leaf-phones'', (''electronics'', Some ''smartphones'')),
     (''leaf-laptops'', (''electronics'', Some ''laptopsAndComputers'')),
     (''leaf-men'', (''clothingAndFashion'', Some ''menClothing'')),
     (''leaf-women'', (''clothingAndFashion'', Some ''womenClothing'')),
     (''leaf-furniture'', (''homeAndDecor'', Some ''furniture'')),
     (''leaf-appliances'', (''homeAndDecor'', Some ''homeTools''))]"

text \<open>Three products for every user, and labels the listings component accepts.\<close>

lemma buildProductDefs_length: "length buildProductDefs = 24"
  by code_simp

lemma seeded_labels_allowed:
  "list_all (\<lambda>(leaf, category, subcategory). is_ok (assertCategoryPair category subcategory False))
     PRODUCT_CATEGORY_LABELS_BY_LEAF_KEY"
  by code_simp

end
