(* ===== verification/DevSeeder.thy ===== *)
theory DevSeeder
  imports DevFixtures "HOL-Library.AList" "HOL-Library.Sublist"
begin

text \<open>
  The development seeder (\<open>runDevSeed\<close> of \<open>src/dev/dev-seeder.ts\<close>): the calls it makes, one after another,
  with the answers read as untyped JSON. The state is the client with the map of the entities met so far;
  the first exception ends the run. The writing of the log files at the end is a parameter.
\<close>

section \<open>State\<close>

datatype entity_state = Created | Reused | Updated

record entity_record =
  er_id :: int
  er_state :: entity_state

type_synonym entities = "(string \<times> entity_record) list"

record 'w seeder = "'w client" +
  em_users :: entities
  em_categories :: entities
  em_products :: entities
  em_conversations :: entities
  em_reports :: entities
  em_warnings :: entities
  em_blocks :: entities
  em_favorites :: entities

type_synonym ('w, 'a) run = "('w seeder, 'a) seeding"

definition createEmptyEntityMap :: "'w client \<Rightarrow> 'w seeder" where
  "createEmptyEntityMap c =
     \<lparr>cl_baseUrl = cl_baseUrl c, cl_timeout = cl_timeout c, cl_logs = cl_logs c, cl_world = cl_world c,
      em_users = [], em_categories = [], em_products = [], em_conversations = [], em_reports = [],
      em_warnings = [], em_blocks = [], em_favorites = []\<rparr>"

record session_of =
  ss_def :: seed_user
  ss_id :: int
  ss_accessToken :: string
  ss_refreshToken :: string
  ss_created :: bool

type_synonym sessions = "(string \<times> session_of) list"

section \<open>Sequencing\<close>

definition give :: "'a \<Rightarrow> ('s, 'a) seeding" where
  "give a s = (Inr a, s)"

definition refuse :: "string \<Rightarrow> ('s, 'a) seeding" where
  "refuse message s = (Inl (SeedError message), s)"

definition and_then :: "('s, 'a) seeding \<Rightarrow> ('a \<Rightarrow> ('s, 'b) seeding) \<Rightarrow> ('s, 'b) seeding" where
  "and_then m k s = (case m s of (Inl e, s') \<Rightarrow> (Inl e, s') | (Inr a, s') \<Rightarrow> k a s')"

text \<open>A loop that carries a value; a loop that carries none is one over \<open>()\<close>.\<close>

fun loop_over :: "('x \<Rightarrow> 'a \<Rightarrow> ('s, 'a) seeding) \<Rightarrow> 'x list \<Rightarrow> 'a \<Rightarrow> ('s, 'a) seeding" where
  "loop_over body [] a = give a"
| "loop_over body (x # xs) a = and_then (body x a) (loop_over body xs)"

definition each :: "('x \<Rightarrow> ('s, unit) seeding) \<Rightarrow> 'x list \<Rightarrow> ('s, unit) seeding" where
  "each body xs = loop_over (\<lambda>x u. body x) xs ()"

definition put :: "string \<Rightarrow> int \<Rightarrow> entity_state \<Rightarrow> entities \<Rightarrow> entities" where
  "put key i st = AList.update key \<lparr>er_id = i, er_state = st\<rparr>"

text \<open>\<open>sessions[key]\<close>, dereferenced at once.\<close>

definition session_for :: "sessions \<Rightarrow> string \<Rightarrow> ('s, session_of) seeding" where
  "session_for sessions key =
     (case map_of sessions key of
        None \<Rightarrow> refuse ''Cannot read properties of undefined''
      | Some x \<Rightarrow> give x)"

text \<open>A call, down to the data of its answer.\<close>

definition call :: "'w outside \<Rightarrow> http_method \<Rightarrow> string \<Rightarrow> string \<Rightarrow> js option \<Rightarrow> nat \<Rightarrow> ('w, js) run" where
  "call net m endpoint token body expected =
     and_then (request net m endpoint (plain\<lparr>ro_token := token, ro_body := body, ro_expected := [expected]\<rparr>))
       (\<lambda>(status, v). give (getResponseData v))"

definition call_once :: "'w outside \<Rightarrow> http_method \<Rightarrow> string \<Rightarrow> js option \<Rightarrow> nat \<Rightarrow> ('w, js) run" where
  "call_once net m endpoint body expected =
     and_then (request net m endpoint (plain\<lparr>ro_body := body, ro_expected := [expected], ro_retryable := False\<rparr>))
       (\<lambda>(status, v). give (getResponseData v))"

definition id_or :: "js \<Rightarrow> string \<Rightarrow> ('s, int) seeding" where
  "id_or v message = (case positive_id v of None \<Rightarrow> refuse message | Some i \<Rightarrow> give i)"

section \<open>Preflight\<close>

definition performPreflightChecks :: "'w outside \<Rightarrow> dev_seed_input \<Rightarrow> ('w, string \<times> int) run" where
  "performPreflightChecks net input =
     and_then (call_once net GET ''/health/live'' None 200) (\<lambda>_.
     and_then (call_once net GET ''/health/ready'' None 200) (\<lambda>_ s.
       (case call_once net POST ''/auth/login''
               (Some (Obj [(''phone'', Str (di_adminPhone input)), (''password'', Str (di_adminPassword input))])) 201 s of
          (Inl (ApiError message status body path), s') \<Rightarrow>
            if status = 401
            then refuse ''Admin login failed. Seed admin first with `npm run seed:admin`.'' s'
            else (Inl (ApiError message status body path), s')
        | (Inl e, s') \<Rightarrow> (Inl e, s')
        | (Inr loginBody, s') \<Rightarrow>
            let adminToken = ensureString (field loginBody ''accessToken'')
            in (case positive_id (field (getObject (field loginBody ''user'')) ''id'') of
                  Some adminUserId \<Rightarrow>
                    if adminToken = [] then refuse ''Admin login response missing access token or user id'' s'
                    else (Inr (adminToken, adminUserId), s')
                | None \<Rightarrow> refuse ''Admin login response missing access token or user id'' s'))))"

section \<open>Users\<close>

text \<open>The session in a login or verification answer.\<close>

definition session_in :: "seed_user \<Rightarrow> bool \<Rightarrow> js \<Rightarrow> session_of option" where
  "session_in user created body =
     (let accessToken = ensureString (field body ''accessToken''); refreshToken = ensureString (field body ''refreshToken'') in
      case positive_id (field (getObject (field body ''user'')) ''id'') of
        None \<Rightarrow> None
      | Some i \<Rightarrow>
          if accessToken = [] \<or> refreshToken = [] then None
          else Some \<lparr>ss_def = user, ss_id = i, ss_accessToken = accessToken, ss_refreshToken = refreshToken,
                 ss_created = created\<rparr>)"

definition register_user :: "'w outside \<Rightarrow> seed_user \<Rightarrow> bool \<Rightarrow> ('w, session_of) run" where
  "register_user net user requireOtpVisibility =
     and_then (call net POST ''/auth/register'' []
         (Some (Obj [(''name'', Str (su_name user)), (''phone'', Str (su_phone user)), (''password'', Str (su_password user))])) 201)
       (\<lambda>registerBody.
          let otp = ensureString (field registerBody ''otp'')
          in if requireOtpVisibility \<and> otp = []
             then refuse ''OTP_DEV_MODE check failed: /auth/register did not return otp. Set OTP_DEV_MODE=true on server.''
             else if otp = []
             then refuse (''Registration OTP missing for '' @ su_key user @ ''. Ensure OTP_DEV_MODE=true on server.'')
             else and_then (call net POST ''/auth/register/verify'' []
                      (Some (Obj [(''phone'', Str (su_phone user)), (''otp'', Str otp)])) 201)
                    (\<lambda>body. (case session_in user True body of
                        None \<Rightarrow> refuse (''Invalid register verify response for '' @ su_key user)
                      | Some x \<Rightarrow> give x)))"

text \<open>
  The login is tried first. The \<open>catch\<close> rethrows API errors other than 401 only: a network failure or an
  unusable answer goes on to the registration as well.
\<close>

definition ensureUser :: "'w outside \<Rightarrow> seed_user \<Rightarrow> bool \<Rightarrow> ('w, session_of) run" where
  "ensureUser net user requireOtpVisibility s =
     (case call_once net POST ''/auth/login''
             (Some (Obj [(''phone'', Str (su_phone user)), (''password'', Str (su_password user))])) 201 s of
        (Inl (ApiError message status body path), s') \<Rightarrow>
          if status \<noteq> 401 then (Inl (ApiError message status body path), s')
          else register_user net user requireOtpVisibility s'
      | (Inl (SeedError message), s') \<Rightarrow> register_user net user requireOtpVisibility s'
      | (Inr body, s') \<Rightarrow>
          (case session_in user False body of
             None \<Rightarrow> register_user net user requireOtpVisibility s'
           | Some x \<Rightarrow> (Inr x, s')))"

definition upsertProfile :: "'w outside \<Rightarrow> session_of \<Rightarrow> ('w, unit) run" where
  "upsertProfile net session =
     and_then (call net PATCH ''/me'' (ss_accessToken session)
         (Some (Obj [(''name'', Str (su_name (ss_def session))),
                     (''contactInfo'', Str (''dev.seed+'' @ su_key (ss_def session) @ ''@example.test''))])) 200)
       (\<lambda>_. give ())"

section \<open>Categories\<close>

definition same_category :: "category_def \<Rightarrow> int option \<Rightarrow> js \<Rightarrow> bool" where
  "same_category category parentId row \<longleftrightarrow>
     lower (ensureString (field row ''name'')) = lower (cd_name category) \<and>
     (let v = field row ''parent_id''
      in if nullish v then parentId = None
         else parentId \<noteq> None \<and> to_integer (js_toNumber v) = parentId)"

definition note_category ::
  "category_def \<Rightarrow> (string \<times> int) list \<Rightarrow> entity_state \<Rightarrow> int \<Rightarrow> ('w, (string \<times> int) list) run" where
  "note_category category idsByKey st i s =
     (Inr (AList.update (cd_key category) i idsByKey),
      s\<lparr>em_categories := put (cd_key category) i st (em_categories s)\<rparr>)"

definition existing_category ::
  "'w outside \<Rightarrow> category_def \<Rightarrow> int option \<Rightarrow> (string \<times> int) list \<Rightarrow> ('w, (string \<times> int) list) run" where
  "existing_category net category parentId idsByKey =
     and_then (call net GET ''/categories'' [] None 200) (\<lambda>listed.
       (case find (same_category category parentId) (toArray (field listed ''categories'')) of
          None \<Rightarrow> refuse (''Failed to resolve existing category for '' @ cd_key category)
        | Some row \<Rightarrow>
            and_then (id_or (field row ''id'') (''Invalid existing category id for '' @ cd_key category))
              (note_category category idsByKey Reused)))"

text \<open>One category; the parents come first, so the id of a parent is known when a child is made.\<close>

definition upsert_category :: "'w outside \<Rightarrow> string \<Rightarrow> category_def \<Rightarrow> (string \<times> int) list \<Rightarrow> ('w, (string \<times> int) list) run" where
  "upsert_category net adminToken category idsByKey s =
     (let parentId = Option.bind (cd_parentKey category) (map_of idsByKey)
      in case call net POST ''/admin/categories'' adminToken
               (Some (Obj ((''name'', Str (cd_name category)) #
                 (case parentId of None \<Rightarrow> [] | Some p \<Rightarrow> [(''parentId'', Num (whole p))])))) 201 s of
           (Inr data, s') \<Rightarrow>
             and_then (id_or (field (getObject (field data ''category'')) ''id'') (''Invalid category response for '' @ cd_key category))
               (note_category category idsByKey Created) s'
         | (Inl (SeedError message), s') \<Rightarrow> (Inl (SeedError message), s')
         | (Inl (ApiError message status body path), s') \<Rightarrow>
             if status \<noteq> 409 then (Inl (ApiError message status body path), s')
             else existing_category net category parentId idsByKey s')"

definition upsertCategories :: "'w outside \<Rightarrow> string \<Rightarrow> ('w, (string \<times> int) list) run" where
  "upsertCategories net adminToken = loop_over (upsert_category net adminToken) DEV_CATEGORIES []"

section \<open>Products\<close>

definition createUploadedProductImage :: "'w outside \<Rightarrow> string \<Rightarrow> string \<Rightarrow> ('w, int) run" where
  "createUploadedProductImage net token key =
     and_then (call net POST ''/files/upload-intent'' token
         (Some (Obj [(''ownerType'', Str ''product''), (''purpose'', Str ''product_image''),
                     (''filename'', Str (key @ ''.jpg'')), (''mimeType'', Str ''image/jpeg''),
                     (''fileSizeBytes'', Num (whole 1024))])) 201) (\<lambda>intent.
     and_then (id_or (field (getObject (field intent ''file'')) ''id'')
         (''Upload intent response missing file id for '' @ key)) (\<lambda>fileId.
     and_then (call net PATCH (''/files/'' @ show_int fileId @ ''/mark-uploaded'') token
         (Some (Obj [(''checksumSha256'', Str EMPTY_SHA256)])) 200) (\<lambda>_.
       give fileId)))"

definition product_body :: "product_def \<Rightarrow> string \<times> string option \<Rightarrow> int \<Rightarrow> js" where
  "product_body d labels imageFileId =
     Obj [(''category'', Str (fst labels)), (''subcategory'', opt_str (snd labels)), (''name'', Str (pr_name d)),
       (''description'', Str (pr_description d)), (''price'', Num (whole (pr_price d))), (''city'', Str (pr_city d)),
       (''addressText'', Str (pr_addressText d)), (''imageFileIds'', Arr [Num (whole imageFileId)])]"

definition set_product_status :: "'w outside \<Rightarrow> string \<Rightarrow> int \<Rightarrow> string \<Rightarrow> ('w, unit) run" where
  "set_product_status net token productId status =
     and_then (call net PATCH (''/products/'' @ show_int productId @ ''/status'') token
         (Some (Obj [(''status'', Str status)])) 200) (\<lambda>_. give ())"

definition note_product :: "string \<Rightarrow> int \<Rightarrow> entity_state \<Rightarrow> ('w, unit) run" where
  "note_product key i st s = (Inr (), s\<lparr>em_products := put key i st (em_products s)\<rparr>)"

definition upsert_product ::
  "'w outside \<Rightarrow> (string \<times> (string \<times> string option)) list \<Rightarrow> session_of \<Rightarrow> js list \<Rightarrow> product_def \<Rightarrow> ('w, unit) run" where
  "upsert_product net categoryLabels session existingItems d =
     (let token = ss_accessToken session; existing = find (\<lambda>row. ensureString (field row ''name'') = pr_name d) existingItems in
      case map_of categoryLabels (pr_categoryKey d) of
        None \<Rightarrow> refuse (''Missing category labels for '' @ pr_key d)
      | Some labels \<Rightarrow>
          if fst labels = [] then refuse (''Missing category labels for '' @ pr_key d)
          else and_then (createUploadedProductImage net token (pr_key d)) (\<lambda>imageFileId.
            (case existing of
               None \<Rightarrow>
                 and_then (call net POST ''/products'' token (Some (product_body d labels imageFileId)) 201) (\<lambda>created.
                 and_then (id_or (field (getObject (field created ''product'')) ''id'')
                     (''Created product missing id for '' @ pr_key d)) (\<lambda>productId.
                 and_then (if pr_status d \<noteq> ''available'' then set_product_status net token productId (pr_status d)
                           else give ()) (\<lambda>_.
                   note_product (pr_key d) productId Created)))
             | Some row \<Rightarrow>
                 and_then (id_or (field row ''id'') (''Existing product missing id for '' @ pr_key d)) (\<lambda>productId.
                 and_then (call net PATCH (''/products/'' @ show_int productId) token
                     (Some (product_body d labels imageFileId)) 200) (\<lambda>_.
                   if ensureString (field row ''status'') \<noteq> pr_status d
                   then and_then (set_product_status net token productId (pr_status d))
                          (\<lambda>_. note_product (pr_key d) productId Updated)
                   else note_product (pr_key d) productId Reused)))))"

text \<open>\<open>defsByOwner\<close>: the definitions grouped by their owner, owners in the order they first occur.\<close>

fun defs_by_owner :: "product_def list \<Rightarrow> (string \<times> product_def list) list \<Rightarrow> (string \<times> product_def list) list" where
  "defs_by_owner [] groups = groups"
| "defs_by_owner (d # ds) groups =
     defs_by_owner ds (AList.update (pr_ownerKey d) (coalesce (map_of groups (pr_ownerKey d)) [] @ [d]) groups)"

definition upsertProducts ::
  "'w outside \<Rightarrow> sessions \<Rightarrow> (string \<times> (string \<times> string option)) list \<Rightarrow> ('w, unit) run" where
  "upsertProducts net sessions categoryLabels =
     each (\<lambda>(ownerKey, defs).
       and_then (session_for sessions ownerKey) (\<lambda>session.
       and_then (call net GET ''/my/products?limit=100&offset=0'' (ss_accessToken session) None 200) (\<lambda>listing.
         each (upsert_product net categoryLabels session (toArray (field listing ''items''))) defs)))
       (defs_by_owner buildProductDefs [])"

section \<open>Blocks, favourites and ratings\<close>

text \<open>The ids of a list, as the sets \<open>existingByBlocker\<close> and \<open>existingByUser\<close> hold them.\<close>

definition listed_ids :: "js \<Rightarrow> string \<Rightarrow> int list" where
  "listed_ids data key = List.map_filter (\<lambda>row. positive_id (field row ''id'')) (toArray (field data key))"

definition known_ids ::
  "'w outside \<Rightarrow> string \<Rightarrow> string \<Rightarrow> string \<Rightarrow> string \<Rightarrow> (string \<times> int list) list \<Rightarrow> ('w, (string \<times> int list) list) run" where
  "known_ids net endpoint listKey token key known =
     (if map_of known key \<noteq> None then give known
      else and_then (call net GET endpoint token None 200)
        (\<lambda>data. give (AList.update key (listed_ids data listKey) known)))"

definition note_block :: "string \<Rightarrow> int \<Rightarrow> entity_state \<Rightarrow> ('w, unit) run" where
  "note_block key i st s = (Inr (), s\<lparr>em_blocks := put key i st (em_blocks s)\<rparr>)"

definition note_favorite :: "string \<Rightarrow> int \<Rightarrow> entity_state \<Rightarrow> ('w, unit) run" where
  "note_favorite key i st s = (Inr (), s\<lparr>em_favorites := put key i st (em_favorites s)\<rparr>)"

text \<open>
  Post \<open>item\<close> under \<open>path\<close> unless \<open>key\<close> is known to have it, and remember it then.
\<close>

definition post_missing ::
  "'w outside \<Rightarrow> string \<Rightarrow> string \<Rightarrow> string \<Rightarrow> int \<Rightarrow> (int \<Rightarrow> entity_state \<Rightarrow> ('w, unit) run) \<Rightarrow>
     (string \<times> int list) list \<Rightarrow> ('w, (string \<times> int list) list) run" where
  "post_missing net path token key item note_as known =
     (if item \<in> set (coalesce (map_of known key) [])
      then and_then (note_as item Reused) (\<lambda>_. give known)
      else and_then (call net POST (path @ show_int item) token None 201) (\<lambda>_.
           and_then (note_as item Created) (\<lambda>_.
             give (AList.update key (coalesce (map_of known key) [] @ [item]) known))))"

definition upsert_block ::
  "'w outside \<Rightarrow> sessions \<Rightarrow> pair_def \<Rightarrow> (string \<times> int list) list \<Rightarrow> ('w, (string \<times> int list) list) run" where
  "upsert_block net sessions d known =
     and_then (session_for sessions (pd_first d)) (\<lambda>blocker.
     and_then (known_ids net ''/blocks'' ''users'' (ss_accessToken blocker) (pd_first d) known) (\<lambda>known.
     and_then (session_for sessions (pd_second d)) (\<lambda>blocked.
       post_missing net ''/blocks/'' (ss_accessToken blocker) (pd_first d) (ss_id blocked)
         (note_block (pd_key d)) known)))"

definition upsertBlocks :: "'w outside \<Rightarrow> sessions \<Rightarrow> ('w, unit) run" where
  "upsertBlocks net sessions = and_then (loop_over (upsert_block net sessions) BLOCK_DEFS []) (\<lambda>_. give ())"

definition resolveProductId :: "string \<Rightarrow> ('w, int) run" where
  "resolveProductId productKey s =
     (case map_of (em_products s) productKey of
        None \<Rightarrow> refuse (''Missing product id for '' @ productKey) s
      | Some record \<Rightarrow> if er_id record \<le> 0 then refuse (''Missing product id for '' @ productKey) s
          else (Inr (er_id record), s))"

definition upsert_favorite ::
  "'w outside \<Rightarrow> sessions \<Rightarrow> pair_def \<Rightarrow> (string \<times> int list) list \<Rightarrow> ('w, (string \<times> int list) list) run" where
  "upsert_favorite net sessions d known =
     and_then (resolveProductId (pd_second d)) (\<lambda>productId.
     and_then (session_for sessions (pd_first d)) (\<lambda>session.
     and_then (known_ids net ''/favorites?limit=100&offset=0'' ''items'' (ss_accessToken session) (pd_first d) known) (\<lambda>known.
       post_missing net ''/favorites/'' (ss_accessToken session) (pd_first d) productId
         (note_favorite (pd_key d)) known)))"

definition upsertFavorites :: "'w outside \<Rightarrow> sessions \<Rightarrow> ('w, unit) run" where
  "upsertFavorites net sessions = and_then (loop_over (upsert_favorite net sessions) FAVORITE_DEFS []) (\<lambda>_. give ())"

definition upsertRatings :: "'w outside \<Rightarrow> sessions \<Rightarrow> ('w, unit) run" where
  "upsertRatings net sessions =
     each (\<lambda>d.
       and_then (session_for sessions (rd_raterKey d)) (\<lambda>rater.
       and_then (session_for sessions (rd_ratedKey d)) (\<lambda>rated.
       and_then (call net POST ''/ratings'' (ss_accessToken rater)
           (Some (Obj [(''ratedUserId'', Num (whole (ss_id rated))), (''ratingValue'', Num (whole (rd_value d))),
                       (''comment'', Str (rd_comment d))])) 201) (\<lambda>_. give ()))))
       RATING_DEFS"

section \<open>Conversations\<close>

definition connectChatSocket :: "'w outside \<Rightarrow> string \<Rightarrow> string \<Rightarrow> ('w, nat) run" where
  "connectChatSocket net baseUrl token s =
     (case net_connect net (baseUrl @ ''/chat'') token (cl_world s) of
        (Inl message, w) \<Rightarrow> refuse message (s\<lparr>cl_world := w\<rparr>)
      | (Inr sock, w) \<Rightarrow> (Inr sock, s\<lparr>cl_world := w\<rparr>))"

definition wsEmitWithAck :: "'w outside \<Rightarrow> nat \<Rightarrow> string \<Rightarrow> js \<Rightarrow> ('w, js) run" where
  "wsEmitWithAck net sock event payload s =
     (case net_emit net sock event payload (cl_world s) of
        (Inl message, w) \<Rightarrow> refuse message (s\<lparr>cl_world := w\<rparr>)
      | (Inr response, w) \<Rightarrow> (Inr (Obj [(''data'', response)]), s\<lparr>cl_world := w\<rparr>))"

definition hang_up :: "'w outside \<Rightarrow> nat \<Rightarrow> nat \<Rightarrow> 'w seeder \<Rightarrow> 'w seeder" where
  "hang_up net socketA socketB s =
     s\<lparr>cl_world := net_disconnect net socketB (net_disconnect net socketA (cl_world s))\<rparr>"

definition chat_text :: "string \<Rightarrow> nat \<Rightarrow> string" where
  "chat_text chatKey i =
     ''[DEV-SEED:'' @ chatKey @ '':m'' @ show_nat i @ ''] Deterministic chat message '' @ show_nat i"

text \<open>One message, with the count of messages sent and the id of the last one.\<close>

definition seed_message ::
  "'w outside \<Rightarrow> int \<Rightarrow> string \<Rightarrow> string list \<Rightarrow> session_of \<Rightarrow> session_of \<Rightarrow> nat \<Rightarrow> nat \<Rightarrow> nat \<Rightarrow> nat \<times> int \<Rightarrow> ('w, nat \<times> int) run" where
  "seed_message net conversationId chatKey existingByText first second socketA socketB i acc =
     (let sender = (if i mod 2 = 1 then first else second);
          senderSocket = (if su_key (ss_def sender) = su_key (ss_def first) then socketA else socketB)
      in if chat_text chatKey i \<in> set existingByText then give acc
         else and_then (wsEmitWithAck net senderSocket ''message.send''
                  (Obj [(''conversationId'', Num (whole conversationId)), (''text'', Str (chat_text chatKey i))]))
                (\<lambda>response.
                  give (fst acc + 1,
                    coalesce (positive_id (field (getObject (field (getObject (field response ''data'')) ''message'')) ''id''))
                      (snd acc))))"

definition conversation_messages ::
  "'w outside \<Rightarrow> int \<Rightarrow> string \<Rightarrow> string list \<Rightarrow> session_of \<Rightarrow> session_of \<Rightarrow> nat \<Rightarrow> nat \<Rightarrow> ('w, nat) run" where
  "conversation_messages net conversationId chatKey existingByText first second socketA socketB =
     (let join_body = Obj [(''conversationId'', Num (whole conversationId))] in
      and_then (wsEmitWithAck net socketA ''conversation.join'' join_body) (\<lambda>_.
      and_then (wsEmitWithAck net socketB ''conversation.join'' join_body) (\<lambda>_.
      and_then (loop_over (seed_message net conversationId chatKey existingByText first second socketA socketB)
          [1 ..< 7] (0, 0)) (\<lambda>(seeded, lastMessageId).
        if 0 < lastMessageId
        then and_then (wsEmitWithAck net socketA ''message.read'' (Obj [(''messageId'', Num (whole lastMessageId))]))
               (\<lambda>_. give seeded)
        else give seeded))))"

text \<open>The \<open>finally\<close> hangs both sockets up; the first one stays open when the second cannot connect.\<close>

definition seedConversationMessages ::
  "'w outside \<Rightarrow> string \<Rightarrow> int \<Rightarrow> string \<Rightarrow> session_of \<Rightarrow> session_of \<Rightarrow> ('w, nat) run" where
  "seedConversationMessages net baseUrl conversationId chatKey first second =
     and_then (call net GET (''/chat/conversations/'' @ show_int conversationId @ ''/messages?limit=100'')
         (ss_accessToken first) None 200) (\<lambda>history.
     let existingByText = map (\<lambda>m. ensureString (field m ''message_text'')) (toArray (field history ''messages'')) in
     and_then (connectChatSocket net baseUrl (ss_accessToken first)) (\<lambda>socketA.
     and_then (connectChatSocket net baseUrl (ss_accessToken second)) (\<lambda>socketB s.
       (case conversation_messages net conversationId chatKey existingByText first second socketA socketB s of
          (x, s') \<Rightarrow> (x, hang_up net socketA socketB s')))))"

definition upsertConversations :: "'w outside \<Rightarrow> string \<Rightarrow> sessions \<Rightarrow> ('w, nat) run" where
  "upsertConversations net baseUrl sessions =
     loop_over (\<lambda>d total.
       and_then (session_for sessions (pd_first d)) (\<lambda>first.
       and_then (session_for sessions (pd_second d)) (\<lambda>second.
       and_then (call net POST ''/chat/conversations'' (ss_accessToken first)
           (Some (Obj [(''participantId'', Num (whole (ss_id second)))])) 201) (\<lambda>created.
       and_then (id_or (field (getObject (field created ''conversation'')) ''id'')
           (''Conversation id missing for '' @ pd_key d)) (\<lambda>conversationId.
       and_then (\<lambda>s. (Inr (), s\<lparr>em_conversations := put (pd_key d) conversationId
           (if map_of (em_conversations s) (pd_key d) \<noteq> None then Reused else Created) (em_conversations s)\<rparr>)) (\<lambda>_.
       and_then (seedConversationMessages net baseUrl conversationId (pd_key d) first second) (\<lambda>seeded.
         give (total + seeded))))))))
       CONVERSATION_DEFS 0"

section \<open>Reports and moderation\<close>

text \<open>
  The report of a definition: among all reports, among the reporter's own, or a new one. Whichever it is,
  \<open>report\<close> is an object at the end, so the state of an unchanged one is always \<open>reused\<close>.
\<close>

definition find_report :: "report_def \<Rightarrow> js \<Rightarrow> js option" where
  "find_report d rows = find (\<lambda>row. ensureString (field row ''reason'') = rp_reason d) (toArray rows)"

definition report_for :: "'w outside \<Rightarrow> sessions \<Rightarrow> js \<Rightarrow> report_def \<Rightarrow> ('w, js) run" where
  "report_for net sessions allReports d =
     (case find_report d allReports of
        Some report \<Rightarrow> give report
      | None \<Rightarrow>
          and_then (session_for sessions (rp_reporterKey d)) (\<lambda>reporter.
          and_then (call net GET ''/reports/me'' (ss_accessToken reporter) None 200) (\<lambda>mine.
            (case find_report d (field mine ''reports'') of
               Some report \<Rightarrow> give report
             | None \<Rightarrow>
                 and_then (session_for sessions (rp_reportedKey d)) (\<lambda>target.
                 and_then (call net POST ''/reports'' (ss_accessToken reporter)
                     (Some (Obj [(''reportedUserId'', Num (whole (ss_id target))), (''reason'', Str (rp_reason d))])) 201)
                   (\<lambda>created. give (getObject (field created ''report'')))))))) "

definition note_report :: "string \<Rightarrow> int \<Rightarrow> entity_state \<Rightarrow> ('w, unit) run" where
  "note_report key i st s = (Inr (), s\<lparr>em_reports := put key i st (em_reports s)\<rparr>)"

definition upsert_report :: "'w outside \<Rightarrow> string \<Rightarrow> sessions \<Rightarrow> js \<Rightarrow> report_def \<Rightarrow> ('w, unit) run" where
  "upsert_report net adminToken sessions allReports d =
     and_then (report_for net sessions allReports d) (\<lambda>report.
     and_then (id_or (field report ''id'') (''Invalid report id for '' @ rp_key d)) (\<lambda>reportId.
       if ensureString (field report ''status'') \<noteq> rp_targetStatus d
       then and_then (call net PATCH (''/admin/reports/'' @ show_int reportId) adminToken
                (Some (Obj [(''status'', Str (rp_targetStatus d))])) 200)
              (\<lambda>_. note_report (rp_key d) reportId Updated)
       else note_report (rp_key d) reportId Reused))"

definition note_warning :: "string \<Rightarrow> int \<Rightarrow> entity_state \<Rightarrow> ('w, unit) run" where
  "note_warning key i st s = (Inr (), s\<lparr>em_warnings := put key i st (em_warnings s)\<rparr>)"

definition status_in :: "js list \<Rightarrow> int \<Rightarrow> string" where
  "status_in rows userId =
     (case find (\<lambda>row. to_integer (js_toNumber (field row ''id'')) = Some userId) rows of
        None \<Rightarrow> [] | Some row \<Rightarrow> ensureString (field row ''status''))"

definition moderate_user :: "'w outside \<Rightarrow> string \<Rightarrow> sessions \<Rightarrow> js list \<Rightarrow> status_target \<Rightarrow> ('w, unit) run" where
  "moderate_user net adminToken sessions adminUsers target =
     and_then (session_for sessions (st_key target)) (\<lambda>session.
       if status_in adminUsers (ss_id session) \<noteq> st_status target
       then and_then (call net PATCH (''/admin/users/'' @ show_int (ss_id session) @ ''/status'') adminToken
                (Some (Obj [(''status'', Str (st_status target))])) 200) (\<lambda>_.
            and_then (call net POST ''/admin/warnings'' adminToken
                (Some (Obj [(''targetUserId'', Num (whole (ss_id session))), (''message'', Str (st_warningMessage target))])) 201)
              (\<lambda>warning. (case positive_id (field (getObject (field warning ''warning'')) ''id'') of
                 None \<Rightarrow> give ()
               | Some warningId \<Rightarrow> note_warning (st_key target) warningId Created)))
       else note_warning (st_key target) (ss_id session) Reused)"

definition upsertReportsAndModeration :: "'w outside \<Rightarrow> string \<Rightarrow> int \<Rightarrow> sessions \<Rightarrow> ('w, unit) run" where
  "upsertReportsAndModeration net adminToken adminUserId sessions =
     and_then (call net GET ''/admin/reports'' adminToken None 200) (\<lambda>adminReports.
     and_then (each (upsert_report net adminToken sessions (field adminReports ''reports'')) REPORT_DEFS) (\<lambda>_.
     and_then (call net GET ''/admin/users?limit=100&offset=0'' adminToken None 200) (\<lambda>adminUsersRes.
     and_then (each (moderate_user net adminToken sessions (toArray (field adminUsersRes ''users''))) USER_STATUS_TARGETS) (\<lambda>_.
     and_then (call net GET ''/admin/admins'' adminToken None 200) (\<lambda>_ s.
       (Inr (), snd (request net POST (''/admin/admins/'' @ show_int adminUserId)
          \<lparr>ro_token = adminToken, ro_body = Some (Obj []), ro_expected = [409], ro_retryable = False\<rparr> s)))))))"

section \<open>The summary and the whole run\<close>

record seed_summary =
  sm_runAt :: string
  sm_baseUrl :: string
  sm_profile :: string
  sm_users :: nat
  sm_categories :: nat
  sm_products :: "nat \<times> nat \<times> nat \<times> nat"
  sm_conversations :: "nat \<times> nat"
  sm_ratings :: nat
  sm_reports :: "nat \<times> (string \<times> nat) list"
  sm_blocks :: nat
  sm_favorites :: nat
  sm_userStatuses :: "(string \<times> nat) list"

text \<open>How many rows of a list have a text that starts with a tag.\<close>

definition tagged :: "js \<Rightarrow> string \<Rightarrow> string \<Rightarrow> js list" where
  "tagged rows key tag = filter (\<lambda>row. starts_with (ensureString (field row key)) tag) (toArray rows)"

definition with_status :: "string \<Rightarrow> js list \<Rightarrow> nat" where
  "with_status status rows = length (filter (\<lambda>row. ensureString (field row ''status'') = status) rows)"

definition count_products :: "'w outside \<Rightarrow> session_of \<Rightarrow> nat \<times> nat \<times> nat \<Rightarrow> ('w, nat \<times> nat \<times> nat) run" where
  "count_products net session counts =
     and_then (call net GET ''/my/products?limit=100&offset=0'' (ss_accessToken session) None 200) (\<lambda>mine.
       let items = tagged (field mine ''items'') ''name'' ''[DEV-SEED:''; (available, sold, archived) = counts
       in give (available + with_status ''available'' items, sold + with_status ''sold'' items,
            archived + with_status ''archived'' items))"

definition count_reports :: "'w outside \<Rightarrow> string \<Rightarrow> string \<Rightarrow> (string \<times> nat) list \<Rightarrow> ('w, (string \<times> nat) list) run" where
  "count_reports net adminToken status counts =
     and_then (call net GET (''/admin/reports?status='' @ status) adminToken None 200) (\<lambda>reports.
       give (AList.update status (length (tagged (field reports ''reports'') ''reason'' ''[DEV-SEED:report-'')) counts))"

definition count_ratings :: "'w outside \<Rightarrow> session_of \<Rightarrow> nat \<Rightarrow> ('w, nat) run" where
  "count_ratings net session n =
     and_then (call net GET (''/ratings/'' @ show_int (ss_id session)) [] None 200) (\<lambda>ratings.
       give (n + length (tagged (field ratings ''ratings'') ''comment'' ''[DEV-SEED:rate-'')))"

definition count_block :: "'w outside \<Rightarrow> sessions \<Rightarrow> pair_def \<Rightarrow> nat \<times> (string \<times> int list) list \<Rightarrow> ('w, nat \<times> (string \<times> int list) list) run" where
  "count_block net sessions d acc =
     and_then (session_for sessions (pd_first d)) (\<lambda>blocker.
     and_then (known_ids net ''/blocks'' ''users'' (ss_accessToken blocker) (pd_first d) (snd acc)) (\<lambda>known.
     and_then (session_for sessions (pd_second d)) (\<lambda>blocked.
       give (fst acc + of_bool (ss_id blocked \<in> set (coalesce (map_of known (pd_first d)) [])), known))))"

definition count_favorites :: "'w outside \<Rightarrow> session_of \<Rightarrow> nat \<Rightarrow> ('w, nat) run" where
  "count_favorites net session n =
     and_then (call net GET ''/favorites?limit=100&offset=0'' (ss_accessToken session) None 200) (\<lambda>favorites.
       give (n + length (tagged (field favorites ''items'') ''name'' ''[DEV-SEED:'')))"

definition count_statuses :: "session_of list \<Rightarrow> js list \<Rightarrow> (string \<times> nat) list" where
  "count_statuses all rows =
     map (\<lambda>status. (status, length (filter (\<lambda>x. status_in rows (ss_id x) = status) all)))
       [''active'', ''paused'', ''banned'']"

definition collectSummary :: "'w outside \<Rightarrow> string \<Rightarrow> sessions \<Rightarrow> nat \<Rightarrow> dev_seed_input \<Rightarrow> ('w, seed_summary) run" where
  "collectSummary net adminToken sessions totalSeededMessages input =
     (let all = map snd sessions; statuses = [''open'', ''reviewing'', ''resolved'', ''rejected''] in
     and_then (call net GET ''/categories'' [] None 200) (\<lambda>categoriesRes.
     and_then (loop_over (count_products net) all (0, 0, 0)) (\<lambda>(available, sold, archived).
     and_then (loop_over (count_reports net adminToken) statuses (map (\<lambda>status. (status, 0)) statuses)) (\<lambda>byStatus.
     and_then (loop_over (count_ratings net) all 0) (\<lambda>ratings.
     and_then (loop_over (count_block net sessions) BLOCK_DEFS (0, [])) (\<lambda>(blocks, _).
     and_then (loop_over (count_favorites net) all 0) (\<lambda>favorites.
     and_then (call net GET ''/admin/users?limit=100&offset=0'' adminToken None 200) (\<lambda>usersRes s.
       (Inr \<lparr>sm_runAt = net_iso net (cl_world s), sm_baseUrl = di_baseUrl input, sm_profile = di_profile input,
          sm_users = length sessions,
          sm_categories = length (tagged (field categoriesRes ''categories'') ''name'' ''[DEV]''),
          sm_products = (available + sold + archived, available, sold, archived),
          sm_conversations = (length CONVERSATION_DEFS, totalSeededMessages), sm_ratings = ratings,
          sm_reports = (sum_list (map snd byStatus), byStatus), sm_blocks = blocks, sm_favorites = favorites,
          sm_userStatuses = count_statuses all (toArray (field usersRes ''users''))\<rparr>, s)))))))))"

text \<open>The first user also checks that the server hands out the one-time codes.\<close>

definition seed_user_session :: "'w outside \<Rightarrow> nat \<times> seed_user \<Rightarrow> sessions \<Rightarrow> ('w, sessions) run" where
  "seed_user_session net entry sessions =
     (case entry of (i, user) \<Rightarrow>
        and_then (ensureUser net user (i = 0)) (\<lambda>session.
        and_then (\<lambda>s. (Inr (), s\<lparr>em_users := put (su_key user) (ss_id session)
            (if ss_created session then Created else Reused) (em_users s)\<rparr>)) (\<lambda>_.
        and_then (upsertProfile net session) (\<lambda>_.
          give (AList.update (su_key user) session sessions)))))"

definition label_of :: "string \<Rightarrow> string \<times> string option" where
  "label_of key = coalesce (map_of PRODUCT_CATEGORY_LABELS_BY_LEAF_KEY key) (''services'', Some ''personalServices'')"

text \<open>\<open>store\<close> stands for \<open>writeArtifacts\<close>: it writes the three log files and answers their directory.\<close>

definition seed_rows ::
  "'w outside \<Rightarrow> (seed_summary \<Rightarrow> ('w, string) run) \<Rightarrow> dev_seed_input \<Rightarrow> string \<times> int \<Rightarrow> ('w, string \<times> seed_summary) run" where
  "seed_rows net store input admin =
     (let (adminToken, adminUserId) = admin in
     and_then (loop_over (seed_user_session net) (enumerate 0 DEV_USERS) []) (\<lambda>sessions.
     and_then (upsertCategories net adminToken) (\<lambda>categoryIds.
     and_then (upsertProducts net sessions (map (\<lambda>(key, _). (key, label_of key)) categoryIds)) (\<lambda>_.
     and_then (upsertBlocks net sessions) (\<lambda>_.
     and_then (upsertFavorites net sessions) (\<lambda>_.
     and_then (upsertRatings net sessions) (\<lambda>_.
     and_then (upsertConversations net (di_baseUrl input) sessions) (\<lambda>totalSeededMessages.
     and_then (upsertReportsAndModeration net adminToken adminUserId sessions) (\<lambda>_.
     and_then (collectSummary net adminToken sessions totalSeededMessages input) (\<lambda>summary.
     and_then (store summary) (\<lambda>logDir. give (logDir, summary))))))))))))"

definition runDevSeed ::
  "'w outside \<Rightarrow> (seed_summary \<Rightarrow> ('w, string) run) \<Rightarrow> dev_seed_input \<Rightarrow> ('w, string \<times> seed_summary) run" where
  "runDevSeed net store input = and_then (performPreflightChecks net input) (seed_rows net store input)"

definition new_seeder :: "dev_seed_input \<Rightarrow> 'w \<Rightarrow> 'w seeder" where
  "new_seeder input w =
     createEmptyEntityMap \<lparr>cl_baseUrl = di_baseUrl input, cl_timeout = di_timeoutMs input, cl_logs = [], cl_world = w\<rparr>"

text \<open>\<open>main\<close> of \<open>scripts/seed-dev.ts\<close>.\<close>

definition seed_dev ::
  "'w outside \<Rightarrow> (seed_summary \<Rightarrow> ('w, string) run) \<Rightarrow> env \<Rightarrow> 'w \<Rightarrow> (seed_error + string \<times> seed_summary) \<times> 'w" where
  "seed_dev net store env w =
     (case parseDevSeedInput env of
        Inl e \<Rightarrow> (Inl e, w)
      | Inr input \<Rightarrow> (case runDevSeed net store input (new_seeder input w) of (x, s) \<Rightarrow> (x, cl_world s)))"

section \<open>Runs\<close>

lemma give_simps [simp]: "give a s = (Inr a, s)" "refuse m s = (Inl (SeedError m), s)"
  by (simp_all add: give_def refuse_def)

lemma and_then_cases:
  assumes "and_then m k s = (x, s'')"
  obtains (failed) e where "m s = (Inl e, s'')" "x = Inl e"
    | (went_on) a s' where "m s = (Inr a, s')" "k a s' = (x, s'')"
  using assms by (auto simp: and_then_def split: prod.splits sum.splits)

text \<open>The log only grows.\<close>

definition log_grows :: "('w, 'a) run \<Rightarrow> bool" where
  "log_grows m \<longleftrightarrow> (\<forall>s. prefix (cl_logs s) (cl_logs (snd (m s))))"

named_theorems grows \<open>operations that only add to the log\<close>

lemma grows_give [grows]: "log_grows (give a)" "log_grows (refuse msg)" "log_grows (id_or v msg)"
    "log_grows (session_for sessions key)" "log_grows (resolveProductId key)"
  by (auto simp: log_grows_def id_or_def session_for_def resolveProductId_def split: option.split)

lemma grows_note [grows]:
  "log_grows (note_product k i st)" "log_grows (note_block k i st)" "log_grows (note_favorite k i st)"
  "log_grows (note_report k i st)" "log_grows (note_warning k i st)"
  "log_grows (\<lambda>s. (Inr (), s\<lparr>em_users := f s\<rparr>))" "log_grows (\<lambda>s. (Inr (), s\<lparr>em_categories := f s\<rparr>))"
  "log_grows (\<lambda>s. (Inr (), s\<lparr>em_conversations := f s\<rparr>))"
  by (simp_all add: log_grows_def note_product_def note_block_def note_favorite_def note_report_def note_warning_def)

lemma grows_and_then [grows]: "log_grows m \<Longrightarrow> (\<And>a. log_grows (k a)) \<Longrightarrow> log_grows (and_then m k)"
  unfolding log_grows_def and_then_def
  by (auto split: prod.split sum.split) (metis prefix_order.trans snd_conv)+

lemma grows_loop [grows]: "(\<And>x a. log_grows (body x a)) \<Longrightarrow> log_grows (loop_over body xs a)"
  by (induction xs arbitrary: a) (auto intro: grows)

lemma grows_each [grows]: "(\<And>x. log_grows (body x)) \<Longrightarrow> log_grows (each body xs)"
  unfolding each_def by (rule grows_loop)

lemma grows_request [grows]: "log_grows (request net m endpoint opts)"
proof -
  have "prefix (cl_logs s) (cl_logs (snd (request net m endpoint opts s)))" for s :: "'a seeder"
    using request_calls [OF prod.collapse [symmetric], of net m endpoint opts s] by (metis prefixI)
  then show ?thesis by (simp add: log_grows_def)
qed

lemma grows_if [grows]: "log_grows m \<Longrightarrow> log_grows m' \<Longrightarrow> log_grows (if b then m else m')"
  by simp

lemma grows_option [grows]:
  "log_grows m \<Longrightarrow> (\<And>a. log_grows (f a)) \<Longrightarrow> log_grows (case v of None \<Rightarrow> m | Some a \<Rightarrow> f a)"
  by (cases v) auto

lemma grows_pair [grows]: "(\<And>a b. log_grows (f a b)) \<Longrightarrow> log_grows (case p of (a, b) \<Rightarrow> f a b)"
  by (cases p) auto

lemma grows_Let [grows]: "log_grows (f v) \<Longrightarrow> log_grows (let x = v in f x)"
  by (simp add: Let_def)

lemma grows_call [grows]: "log_grows (call net m endpoint token body n)" "log_grows (call_once net m endpoint body n)"
  unfolding call_def call_once_def by (intro grows)+

text \<open>A call whose exceptions are looked at goes on from where the call ended.\<close>

lemma grows_caught:
  assumes "log_grows m" and "\<And>x. log_grows (k x)"
  shows "log_grows (\<lambda>s. case m s of (x, s') \<Rightarrow> k x s')"
  using assms unfolding log_grows_def by (auto split: prod.split) (metis prefix_order.trans snd_conv)

lemma grows_fail [grows]: "log_grows (\<lambda>s. (x, s))"
  by (simp add: log_grows_def)

lemma grows_users [grows]: "log_grows (seed_user_session net entry sessions)"
proof -
  have reg: "log_grows (register_user net user b)" for user b
    unfolding register_user_def by (intro grows)
  have eq: "ensureUser net user b = (\<lambda>s.
      case call_once net POST ''/auth/login''
        (Some (Obj [(''phone'', Str (su_phone user)), (''password'', Str (su_password user))])) 201 s of (x, s') \<Rightarrow>
      (case x of
         Inl (ApiError message status body path) \<Rightarrow>
           if status \<noteq> 401 then (\<lambda>s. (Inl (ApiError message status body path), s)) else register_user net user b
       | Inl (SeedError message) \<Rightarrow> register_user net user b
       | Inr body \<Rightarrow> (case session_in user False body of None \<Rightarrow> register_user net user b | Some v \<Rightarrow> give v)) s')"
    for user b
    by (rule ext) (simp add: ensureUser_def split: prod.split sum.split seed_error.split option.split)
  have ens: "log_grows (ensureUser net user b)" for user b
    unfolding eq
    by (rule grows_caught) (auto intro!: grows reg split: sum.split seed_error.split)
  show ?thesis
    unfolding seed_user_session_def upsertProfile_def by (intro grows ens)
qed

lemma grows_upsert_category [grows]: "log_grows (upsert_category net adminToken category ids)"
proof -
  have marks [grows]: "log_grows (note_category category ids st i)" for st i
    by (simp add: log_grows_def note_category_def)
  have old: "log_grows (existing_category net category parent ids)" for parent
    unfolding existing_category_def by (intro grows)
  have eq: "upsert_category net adminToken category ids = (\<lambda>s.
      case call net POST ''/admin/categories'' adminToken
        (Some (Obj ((''name'', Str (cd_name category)) #
          (case Option.bind (cd_parentKey category) (map_of ids) of
             None \<Rightarrow> [] | Some p \<Rightarrow> [(''parentId'', Num (whole p))])))) 201 s of (x, s') \<Rightarrow>
      (case x of
         Inr data \<Rightarrow>
           and_then (id_or (field (getObject (field data ''category'')) ''id'')
               (''Invalid category response for '' @ cd_key category)) (note_category category ids Created)
       | Inl (SeedError message) \<Rightarrow> (\<lambda>s. (Inl (SeedError message), s))
       | Inl (ApiError message status body path) \<Rightarrow>
           if status \<noteq> 409 then (\<lambda>s. (Inl (ApiError message status body path), s))
           else existing_category net category (Option.bind (cd_parentKey category) (map_of ids)) ids) s')"
    by (rule ext) (simp only: upsert_category_def Let_def split: prod.split sum.split seed_error.split if_split, simp)
  show ?thesis
    unfolding eq
    by (rule grows_caught) (auto intro!: grows old split: sum.split seed_error.split)
qed

lemma grows_products [grows]: "log_grows (upsertProducts net sessions labels)"
  unfolding upsertProducts_def upsert_product_def createUploadedProductImage_def set_product_status_def
  by (intro grows)

lemma grows_marks [grows]: "log_grows (upsertBlocks net sessions)" "log_grows (upsertFavorites net sessions)"
    "log_grows (upsertRatings net sessions)" "log_grows (known_ids net endpoint listKey token key known)"
  unfolding upsertBlocks_def upsertFavorites_def upsertRatings_def upsert_block_def upsert_favorite_def
    known_ids_def post_missing_def
  by (intro grows)+

lemma grows_sockets [grows]: "log_grows (connectChatSocket net url token)" "log_grows (wsEmitWithAck net sock event v)"
  by (simp_all add: log_grows_def connectChatSocket_def wsEmitWithAck_def split: prod.split sum.split)

lemma grows_conversations [grows]: "log_grows (upsertConversations net url sessions)"
proof -
  have msgs: "log_grows (conversation_messages net i key texts a b sockA sockB)" for i key texts a b sockA sockB
    unfolding conversation_messages_def seed_message_def by (intro grows)
  have "log_grows (\<lambda>s. case conversation_messages net i key texts a b sockA sockB s of
      (x, s') \<Rightarrow> (\<lambda>s. (x, hang_up net sockA sockB s)) s')" for i key texts a b sockA sockB
    by (rule grows_caught [OF msgs]) (simp add: log_grows_def hang_up_def)
  then have talk: "log_grows (seedConversationMessages net url i key a b)" for i key a b
    unfolding seedConversationMessages_def by (intro grows) simp
  show ?thesis
    unfolding upsertConversations_def by (intro grows talk)
qed

lemma grows_moderation [grows]: "log_grows (upsertReportsAndModeration net adminToken adminUserId sessions)"
proof -
  have "log_grows (\<lambda>s. (Inr (), snd (request net m endpoint opts s)))" for m endpoint opts
    using grows_request [of net m endpoint opts] by (simp add: log_grows_def)
  then show ?thesis
    unfolding upsertReportsAndModeration_def upsert_report_def report_for_def moderate_user_def by (intro grows)
qed

lemma grows_summary [grows]: "log_grows (collectSummary net adminToken sessions n input)"
proof -
  have last: "log_grows (\<lambda>s. (Inr (f s), s))" for f :: "'a seeder \<Rightarrow> seed_summary"
    by (simp add: log_grows_def)
  show ?thesis
    unfolding collectSummary_def count_products_def count_reports_def count_ratings_def count_block_def count_favorites_def
    by (intro grows last)
qed

lemma grows_seed_rows:
  assumes "\<And>v. log_grows (store v)"
  shows "log_grows (seed_rows net store input admin)"
  unfolding seed_rows_def upsertCategories_def by (intro grows assms)

section \<open>The preflight guards the run\<close>

definition preflight_calls :: "(http_method \<times> string) list" where
  "preflight_calls = [(GET, ''/health/live''), (GET, ''/health/ready''), (POST, ''/auth/login'')]"

definition called :: "'w seeder \<Rightarrow> (http_method \<times> string) list" where
  "called s = map (\<lambda>a. (al_method a, al_path a)) (cl_logs s)"

definition noted :: "'w seeder \<Rightarrow> entities list" where
  "noted s = [em_users s, em_categories s, em_products s, em_conversations s, em_reports s, em_warnings s,
     em_blocks s, em_favorites s]"

text \<open>A call that is not retried: one more entry in the log.\<close>

lemma call_once_effect:
  assumes "call_once net m endpoint body n s = (x, s')"
  obtains a where "cl_logs s' = cl_logs s @ [a]" "al_method a = m" "al_path a = endpoint" "noted s' = noted s"
    "(\<exists>v. x = Inr v) \<Longrightarrow> al_statusCode a = n"
proof -
  let ?opts = "plain\<lparr>ro_body := body, ro_expected := [n], ro_retryable := False\<rparr>"
  obtain y where req: "request net m endpoint ?opts s = (y, s')"
    and x: "x = (case y of Inl e \<Rightarrow> Inl e | Inr (status, v) \<Rightarrow> Inr (getResponseData v))"
    using assms by (auto simp: call_once_def and_then_def split: prod.splits sum.splits)
  have "client.more s' = client.more s"
    using request_from_more [of net m endpoint ?opts 0 "[]" s] req by (simp add: request_def)
  then have same: "noted s' = noted s" by (cases s; cases s') (simp add: noted_def)
  from req show thesis
  proof (rule request_calls)
    fix new
    assume new: "cl_logs s' = cl_logs s @ new" "attempts_made ?opts 0 new y"
      "list_all (\<lambda>a. al_method a = m \<and> al_path a = endpoint \<and> al_requestBody a = ro_body ?opts) new"
    then have "length new = 1" by (simp add: attempts_made_def)
    then obtain a where a: "new = [a]" by (auto simp: length_Suc_conv)
    have "al_statusCode a = n" if "\<exists>v. x = Inr v"
      using that x new(2) a by (auto simp: attempts_made_def plain_def split: sum.splits)
    then show thesis using that new a same by auto
  qed
qed

definition admin_credentials :: "dev_seed_input \<Rightarrow> js" where
  "admin_credentials input =
     Obj [(''phone'', Str (di_adminPhone input)), (''password'', Str (di_adminPassword input))]"

text \<open>After the login, the preflight makes no further call, and succeeds only when the login did.\<close>

lemma preflight_login:
  assumes "performPreflightChecks net input s = (x, s')"
  obtains (live) e where "call_once net GET ''/health/live'' None 200 s = (Inl e, s')" "x = Inl e"
    | (ready) v s1 e where "call_once net GET ''/health/live'' None 200 s = (Inr v, s1)"
        "call_once net GET ''/health/ready'' None 200 s1 = (Inl e, s')" "x = Inl e"
    | (login) v s1 u s2 y where "call_once net GET ''/health/live'' None 200 s = (Inr v, s1)"
        "call_once net GET ''/health/ready'' None 200 s1 = (Inr u, s2)"
        "call_once net POST ''/auth/login'' (Some (admin_credentials input)) 201 s2 = (y, s')"
        "\<forall>e. y = Inl e \<longrightarrow> (\<exists>e'. x = Inl e')"
  using assms unfolding performPreflightChecks_def admin_credentials_def [symmetric]
  by (elim and_then_cases)
    (auto simp: Let_def split: prod.splits sum.splits seed_error.splits option.splits if_splits)

lemma preflight_effect:
  assumes "performPreflightChecks net input s = (x, s')"
  obtains new where "cl_logs s' = cl_logs s @ new" "noted s' = noted s"
    "prefix (map (\<lambda>a. (al_method a, al_path a)) new) preflight_calls"
    "\<And>v. x = Inr v \<Longrightarrow> map (\<lambda>a. (al_method a, al_path a)) new = preflight_calls \<and> map al_statusCode new = [200, 200, 201]"
  using assms
proof (cases rule: preflight_login)
  case (live e)
  from live(1) show ?thesis
    by (rule call_once_effect) (rule that, auto simp: live preflight_calls_def)
next
  case (ready v s1 e)
  obtain a where a: "cl_logs s1 = cl_logs s @ [a]" "al_method a = GET" "al_path a = ''/health/live''" "noted s1 = noted s"
    by (rule call_once_effect [OF ready(1)])
  from ready(2) show ?thesis
    by (rule call_once_effect) (rule that, auto simp: a ready preflight_calls_def)
next
  case (login v s1 u s2 y)
  obtain a where a: "cl_logs s1 = cl_logs s @ [a]" "al_method a = GET" "al_path a = ''/health/live''"
      "noted s1 = noted s" "al_statusCode a = 200"
    by (rule call_once_effect [OF login(1)]) blast
  obtain b where b: "cl_logs s2 = cl_logs s1 @ [b]" "al_method b = GET" "al_path b = ''/health/ready''"
      "noted s2 = noted s1" "al_statusCode b = 200"
    by (rule call_once_effect [OF login(2)]) blast
  from login(3) show ?thesis
  proof (rule call_once_effect)
    fix c
    assume c: "cl_logs s' = cl_logs s2 @ [c]" "al_method c = POST" "al_path c = ''/auth/login''" "noted s' = noted s2"
      "(\<exists>v. y = Inr v) \<Longrightarrow> al_statusCode c = 201"
    have "\<exists>v. y = Inr v" if "x = Inr v" for v using login(4) that by (cases y) auto
    then show ?thesis
      using a b c by (intro that [of "[a, b, c]"]) (auto simp: preflight_calls_def)
  qed
qed

text \<open>Nothing of the system is touched before the administrator is known. A run of the development
  seeder begins with the two health probes and the login, each tried once; either it ends there with an
  error and an empty map of entities, or all three were answered as expected and the calls of the seeding
  come after them.\<close>

theorem dev_seed_needs_admin:
  assumes "\<forall>v. log_grows (store v)" and "runDevSeed net store input (new_seeder input w) = (x, s')"
  shows "(\<exists>e. x = Inl e) \<and> prefix (called s') preflight_calls \<and> list_all (\<lambda>m. m = []) (noted s') \<or>
     prefix preflight_calls (called s') \<and> map al_statusCode (take 3 (cl_logs s')) = [200, 200, 201]"
proof -
  let ?s = "new_seeder input w"
  have init: "cl_logs ?s = []" "list_all (\<lambda>m. m = []) (noted ?s)"
    by (simp_all add: new_seeder_def createEmptyEntityMap_def noted_def)
  from assms(2) show ?thesis
    unfolding runDevSeed_def
  proof (cases rule: and_then_cases)
    case (failed e)
    then show ?thesis
      using init by (auto simp: called_def elim!: preflight_effect)
  next
    case (went_on a s1)
    obtain new where new: "cl_logs s1 = new" "map (\<lambda>a. (al_method a, al_path a)) new = preflight_calls"
        "map al_statusCode new = [200, 200, 201]"
      using preflight_effect [OF went_on(1)] init(1) by (metis append_Nil)
    have "log_grows (seed_rows net store input a)" using assms(1) by (intro grows_seed_rows) blast
    then have "prefix (cl_logs s1) (cl_logs s')" using went_on(2) by (metis log_grows_def snd_conv)
    then obtain more where more: "cl_logs s' = new @ more" by (auto simp: new(1) prefix_def)
    have "length new = 3" using new(3) by (metis length_map length_Cons list.size(3) numeral_3_eq_3)
    then show ?thesis using new more by (simp add: called_def)
  qed
qed

definition sample_input :: dev_seed_input where
  "sample_input = \<lparr>di_baseUrl = ''http://localhost'', di_adminPhone = ''+201000000000'',
     di_adminPassword = ''secret123'', di_profile = DEV_PROFILE, di_timeoutMs = whole 12000\<rparr>"

text \<open>A server whose login refuses the administrator.\<close>

theorem dev_seed_needs_admin_witness:
  "\<exists>e s'. runDevSeed scripted (\<lambda>_. give ''logs'') sample_input
       (new_seeder sample_input [Replied 200 [], Replied 200 [], Replied 401 []]) = (Inl e, s') \<and>
     prefix (called s') preflight_calls \<and> list_all (\<lambda>m. m = []) (noted s')"
proof -
  let ?run = "runDevSeed scripted (\<lambda>_. give ''logs'') sample_input
    (new_seeder sample_input [Replied 200 [], Replied 200 [], Replied 401 []])"
  obtain x s' where run: "?run = (x, s')" by fastforce
  have "map al_statusCode (cl_logs (snd ?run)) = [200, 200, 401]" by code_simp
  then have st: "map al_statusCode (cl_logs s') = [200, 200, 401]" using run by simp
  have "\<forall>v. log_grows ((\<lambda>_. give ''logs'') v)" by (simp add: grows)
  from dev_seed_needs_admin [OF this run] show ?thesis
    using run st by (auto simp: take_map [symmetric])
qed

end
