(* ===== verification/ApiList.thy ===== *)
theory ApiList
  imports JsValue
begin

text \<open>
  The generator of the API list (\<open>scripts/lib/api-list-generator.ts\<close>): the operations of an OpenAPI document
  as a sorted list, the description of their schemas, and the Markdown text. \<open>localeCompare\<close>, whose order
  comes from the collation tables of the run-time, is the parameter \<open>loc\<close>. Objects of the document are lists
  of properties with distinct keys. The extraction of socket events from gateway sources, a matter of
  regular expressions, is represented by its bracket scanners only.
\<close>

section \<open>The document\<close>

datatype schema = Schema
  (sc_ref: "string option")
  (sc_type: "string option")
  (sc_format: "string option")
  (sc_description: "string option")
  (sc_example: js)
  (sc_enum: "js list option")
  (sc_required: "string list option")
  (sc_properties: "(string \<times> schema) list option")
  (sc_items: "schema option")
  (sc_additionalProperties: "(bool + schema) option")
  (sc_allOf: "schema list option")
  (sc_oneOf: "schema list option")
  (sc_anyOf: "schema list option")

type_synonym media = "(string \<times> schema option) list"

record documented_response =
  dr_content :: "media option"
  dr_description :: "string option"

record operation =
  op_operationId :: "string option"
  op_summary :: "string option"
  op_tags :: "string list option"
  op_security :: "js list option"
  op_content :: "media option"
  op_responses :: "(string \<times> documented_response) list option"

record open_api =
  oa_paths :: "(string \<times> (string \<times> operation) list) list option"
  oa_security :: "js list option"
  oa_schemas :: "(string \<times> schema) list option"

record response_schema =
  rs_status :: string
  rs_schema :: "schema option"
  rs_description :: "string option"

datatype api_auth = Auth_bearer | Auth_public

record rest_item =
  ri_module :: string
  ri_name :: string
  ri_method :: string
  ri_path :: string
  ri_auth :: api_auth
  ri_summary :: string
  ri_requestSchema :: "schema option"
  ri_responseSchemas :: "response_schema list"
  ri_notes :: string

record ws_item =
  wi_module :: string
  wi_name :: string
  wi_event :: string
  wi_channel :: string
  wi_auth :: api_auth
  wi_summary :: string
  wi_requestShapeRef :: string
  wi_responseShapeRef :: string
  wi_notes :: string

section \<open>JavaScript pieces\<close>

text \<open>A text that counts as true, and \<open>a || b\<close> of texts.\<close>

definition truthy :: "string option \<Rightarrow> bool" where
  "truthy t \<longleftrightarrow> t \<noteq> None \<and> t \<noteq> Some []"

definition text_or :: "string option \<Rightarrow> string \<Rightarrow> string" where
  "text_or t fallback = (if truthy t then the t else fallback)"

definition some_items :: "'a list option \<Rightarrow> 'a list" where
  "some_items xs = (case xs of None \<Rightarrow> [] | Some ys \<Rightarrow> ys)"

definition upper_char :: "char \<Rightarrow> char" where
  "upper_char c = (let n = (of_char c :: nat) in if 97 \<le> n \<and> n \<le> 122 then char_of (n - 32) else c)"

definition upper :: "string \<Rightarrow> string" where
  "upper s = map upper_char s"

text \<open>\<open>Array.prototype.sort\<close> with a comparison: a stable sort.\<close>

fun insert_cmp :: "('a \<Rightarrow> 'a \<Rightarrow> int) \<Rightarrow> 'a \<Rightarrow> 'a list \<Rightarrow> 'a list" where
  "insert_cmp cmp x [] = [x]"
| "insert_cmp cmp x (y # ys) = (if cmp x y \<le> 0 then x # y # ys else y # insert_cmp cmp x ys)"

definition sort_cmp :: "('a \<Rightarrow> 'a \<Rightarrow> int) \<Rightarrow> 'a list \<Rightarrow> 'a list" where
  "sort_cmp cmp xs = foldr (insert_cmp cmp) xs []"

lemma set_insert_cmp [simp]: "set (insert_cmp cmp x ys) = insert x (set ys)"
  by (induction ys) auto

lemma length_insert_cmp [simp]: "length (insert_cmp cmp x ys) = Suc (length ys)"
  by (induction ys) auto

lemma distinct_map_insert_cmp:
  "distinct (map f (insert_cmp cmp x ys)) \<longleftrightarrow> distinct (map f (x # ys))"
  by (induction ys) auto

lemma set_sort_cmp [simp]: "set (sort_cmp cmp xs) = set xs"
  by (induction xs) (simp_all add: sort_cmp_def)

lemma length_sort_cmp [simp]: "length (sort_cmp cmp xs) = length xs"
  by (induction xs) (simp_all add: sort_cmp_def)

lemma distinct_map_sort_cmp [simp]: "distinct (map f (sort_cmp cmp xs)) = distinct (map f xs)"
proof (induction xs)
  case Nil
  then show ?case by (simp add: sort_cmp_def)
next
  case (Cons x xs)
  have "set (foldr (insert_cmp cmp) xs []) = set xs" using set_sort_cmp [of cmp xs] by (simp add: sort_cmp_def)
  then show ?case using Cons by (simp add: sort_cmp_def distinct_map_insert_cmp)
qed

text \<open>\<open>a || b || c\<close> of comparisons: the first that is not zero.\<close>

fun first_nonzero :: "int list \<Rightarrow> int" where
  "first_nonzero [] = 0"
| "first_nonzero (n # ns) = (if n \<noteq> 0 then n else first_nonzero ns)"

definition escapePipes :: "string \<Rightarrow> string" where
  "escapePipes v = concat (map (\<lambda>c. if c = CHR ''|'' then [CHR 0x5C, c] else [c]) v)"

text \<open>\<open>groupBy\<close>: groups in the order their keys first occur.\<close>

fun groupBy :: "('a \<Rightarrow> string) \<Rightarrow> 'a list \<Rightarrow> (string \<times> 'a list) list \<Rightarrow> (string \<times> 'a list) list" where
  "groupBy key [] groups = groups"
| "groupBy key (x # xs) groups =
     groupBy key xs
       (if map_of groups (key x) \<noteq> None
        then map (\<lambda>(k, g). (k, if k = key x then g @ [x] else g)) groups
        else groups @ [(key x, [x])])"

section \<open>Reading the operations\<close>

text \<open>\<open>/^2\d\d$/.test(status) || status === 'default'\<close>.\<close>

definition isSuccessStatus :: "string \<Rightarrow> bool" where
  "isSuccessStatus status \<longleftrightarrow>
     (length status = 3 \<and> hd status = CHR ''2'' \<and> list_all is_digit status) \<or> status = ''default''"

definition pick_schema :: "media \<Rightarrow> schema option" where
  "pick_schema content =
     (case List.map_filter (\<lambda>mediaType. Option.bind (map_of content mediaType) (\<lambda>s. s))
             (''application/json'' # map fst content) of
        [] \<Rightarrow> None | s # _ \<Rightarrow> Some s)"

definition pickRequestSchema :: "operation \<Rightarrow> schema option" where
  "pickRequestSchema op = (case op_content op of None \<Rightarrow> None | Some content \<Rightarrow> pick_schema content)"

definition compare_status :: "(string \<Rightarrow> string \<Rightarrow> int) \<Rightarrow> string \<Rightarrow> string \<Rightarrow> int" where
  "compare_status loc a b =
     (let aScore = (if isSuccessStatus a then 0 else 1); bScore = (if isSuccessStatus b then 0 else 1)
      in if aScore \<noteq> bScore then aScore - bScore else loc a b)"

definition pickResponseSchemas :: "(string \<Rightarrow> string \<Rightarrow> int) \<Rightarrow> operation \<Rightarrow> response_schema list" where
  "pickResponseSchemas loc op =
     (let responses = some_items (op_responses op); statuses = sort_cmp (compare_status loc) (map fst responses)
      in map (\<lambda>status.
           let r = map_of responses status
           in \<lparr>rs_status = status,
               rs_schema = Option.bind (Option.bind r dr_content) pick_schema,
               rs_description = Option.bind r dr_description\<rparr>) statuses)"

definition operation_id :: "operation \<Rightarrow> string" where
  "operation_id op = (case op_operationId op of None \<Rightarrow> [] | Some i \<Rightarrow> i)"

definition method_path :: "string \<Rightarrow> string \<Rightarrow> string" where
  "method_path m apiPath = m @ '' '' @ apiPath"

definition dedup_key :: "string \<Rightarrow> string \<times> operation \<Rightarrow> string" where
  "dedup_key apiPath entry = operation_id (snd entry) @ ''|'' @ upper (fst entry) @ ''|'' @ apiPath"

definition rest_item_of :: "(string \<Rightarrow> string \<Rightarrow> int) \<Rightarrow> open_api \<Rightarrow> string \<Rightarrow> string \<times> operation \<Rightarrow> rest_item" where
  "rest_item_of loc doc apiPath entry =
     (let m = upper (fst entry); op = snd entry; operationId = operation_id op;
          named = (if operationId \<noteq> [] then operationId else method_path m apiPath)
      in \<lparr>ri_module = (case some_items (op_tags op) of [] \<Rightarrow> ''Untagged'' | t # _ \<Rightarrow> t),
          ri_name = named, ri_method = m, ri_path = apiPath,
          ri_auth = (if some_items (op_security op) \<noteq> [] \<or> op_security op = None \<and> some_items (oa_security doc) \<noteq> []
                     then Auth_bearer else Auth_public),
          ri_summary = text_or (map_option trim (op_summary op)) named,
          ri_requestSchema = pickRequestSchema op, ri_responseSchemas = pickResponseSchemas loc op, ri_notes = []\<rparr>)"

text \<open>The two loops with the set \<open>dedup\<close> of keys seen.\<close>

fun collect_methods ::
  "(string \<Rightarrow> string \<Rightarrow> int) \<Rightarrow> open_api \<Rightarrow> string \<Rightarrow> (string \<times> operation) list \<Rightarrow> rest_item list \<times> string list \<Rightarrow>
     rest_item list \<times> string list" where
  "collect_methods loc doc apiPath [] acc = acc"
| "collect_methods loc doc apiPath (entry # entries) (items, dedup) =
     collect_methods loc doc apiPath entries
       (if dedup_key apiPath entry \<in> set dedup then (items, dedup)
        else (items @ [rest_item_of loc doc apiPath entry], dedup @ [dedup_key apiPath entry]))"

fun collect_paths ::
  "(string \<Rightarrow> string \<Rightarrow> int) \<Rightarrow> open_api \<Rightarrow> (string \<times> (string \<times> operation) list) list \<Rightarrow> rest_item list \<times> string list \<Rightarrow>
     rest_item list \<times> string list" where
  "collect_paths loc doc [] acc = acc"
| "collect_paths loc doc ((apiPath, methods) # paths) acc =
     collect_paths loc doc paths (collect_methods loc doc apiPath methods acc)"

definition compare_rest :: "(string \<Rightarrow> string \<Rightarrow> int) \<Rightarrow> rest_item \<Rightarrow> rest_item \<Rightarrow> int" where
  "compare_rest loc a b =
     first_nonzero [loc (ri_module a) (ri_module b), loc (ri_path a) (ri_path b), loc (ri_method a) (ri_method b)]"

definition parseRestApisFromOpenApi :: "(string \<Rightarrow> string \<Rightarrow> int) \<Rightarrow> open_api \<Rightarrow> rest_item list" where
  "parseRestApisFromOpenApi loc doc =
     sort_cmp (compare_rest loc) (fst (collect_paths loc doc (some_items (oa_paths doc)) ([], [])))"

text \<open>The list is the operations of the document, each key once, the first of a key kept.\<close>

definition all_operations :: "open_api \<Rightarrow> (string \<times> string \<times> operation) list" where
  "all_operations doc = concat (map (\<lambda>(apiPath, methods). map (Pair apiPath) methods) (some_items (oa_paths doc)))"

definition entry_key :: "string \<times> string \<times> operation \<Rightarrow> string" where
  "entry_key e = dedup_key (fst e) (snd e)"

fun firsts :: "string list \<Rightarrow> (string \<times> string \<times> operation) list \<Rightarrow> (string \<times> string \<times> operation) list" where
  "firsts seen [] = []"
| "firsts seen (e # es) =
     (if entry_key e \<in> set seen then firsts seen es else e # firsts (seen @ [entry_key e]) es)"

lemma firsts_spec:
  "set (map entry_key (firsts seen es)) = set (map entry_key es) - set seen \<and>
   distinct (map entry_key (firsts seen es)) \<and> set (firsts seen es) \<subseteq> set es"
  by (induction seen es rule: firsts.induct) auto

lemma firsts_append: "firsts seen (xs @ ys) = firsts seen xs @ firsts (seen @ map entry_key (firsts seen xs)) ys"
  by (induction seen xs rule: firsts.induct) auto

lemma collect_methods_eq:
  "collect_methods loc doc apiPath entries (items, dedup) =
     (let new = firsts dedup (map (Pair apiPath) entries)
      in (items @ map (\<lambda>e. rest_item_of loc doc (fst e) (snd e)) new, dedup @ map entry_key new))"
  by (induction entries arbitrary: items dedup) (auto simp: Let_def entry_key_def)

lemma collect_paths_eq:
  "collect_paths loc doc paths (items, dedup) =
     (let new = firsts dedup (concat (map (\<lambda>(apiPath, methods). map (Pair apiPath) methods) paths))
      in (items @ map (\<lambda>e. rest_item_of loc doc (fst e) (snd e)) new, dedup @ map entry_key new))"
  by (induction paths arbitrary: items dedup)
     (auto simp: Let_def collect_methods_eq firsts_append)

lemma parseRestApis_eq:
  "parseRestApisFromOpenApi loc doc =
     sort_cmp (compare_rest loc) (map (\<lambda>e. rest_item_of loc doc (fst e) (snd e)) (firsts [] (all_operations doc)))"
  by (simp add: parseRestApisFromOpenApi_def collect_paths_eq all_operations_def Let_def)

text \<open>Nothing documented is left out: every operation is represented by an item of an operation with its key.\<close>

lemma parseRestApis_complete:
  assumes "(apiPath, entry) \<in> set (all_operations doc)"
  shows "\<exists>e \<in> set (all_operations doc). entry_key e = entry_key (apiPath, entry) \<and>
     rest_item_of loc doc (fst e) (snd e) \<in> set (parseRestApisFromOpenApi loc doc)"
proof -
  have "entry_key (apiPath, entry) \<in> set (map entry_key (firsts [] (all_operations doc)))"
    using assms firsts_spec [of "[]" "all_operations doc"] by force
  then obtain e where "e \<in> set (firsts [] (all_operations doc))" "entry_key e = entry_key (apiPath, entry)" by auto
  then show ?thesis
    using firsts_spec [of "[]" "all_operations doc"] by (auto simp: parseRestApis_eq)
qed

section \<open>Schemas\<close>

definition last_segment :: "string \<Rightarrow> string" where
  "last_segment s = rev (takeWhile (\<lambda>c. c \<noteq> CHR ''/'') (rev s))"

definition resolveSchema :: "open_api option \<Rightarrow> schema \<Rightarrow> schema" where
  "resolveSchema doc schema =
     (if \<not> truthy (sc_ref schema) then schema
      else let schemaName = last_segment (the (sc_ref schema)) in
        if schemaName = [] then schema
        else (case Option.bind (Option.bind doc oa_schemas) (\<lambda>ss. map_of ss schemaName) of
                None \<Rightarrow> schema | Some resolved \<Rightarrow> resolved))"

lemma size_some_items:
  "x \<in> set (some_items (sc_oneOf s)) \<or> x \<in> set (some_items (sc_anyOf s)) \<or> x \<in> set (some_items (sc_allOf s)) \<or>
     sc_items s = Some x \<Longrightarrow> size x < size s"
  by (cases s) (auto simp: some_items_def split: option.splits dest!: size_list_estimation' [where f = size, OF _ order_refl])

function schemaTypeLabel :: "schema \<Rightarrow> string" where
  "schemaTypeLabel schema =
     (if truthy (sc_ref schema)
      then (let l = last_segment (the (sc_ref schema)) in if l \<noteq> [] then l else ''ref'')
      else if some_items (sc_oneOf schema) \<noteq> []
      then ''oneOf<'' @ join '' | '' (map schemaTypeLabel (some_items (sc_oneOf schema))) @ ''>''
      else if some_items (sc_anyOf schema) \<noteq> []
      then ''anyOf<'' @ join '' | '' (map schemaTypeLabel (some_items (sc_anyOf schema))) @ ''>''
      else if some_items (sc_allOf schema) \<noteq> []
      then ''allOf<'' @ join '' & '' (map schemaTypeLabel (some_items (sc_allOf schema))) @ ''>''
      else if sc_type schema = Some ''array''
      then ''array<'' @ (case sc_items schema of None \<Rightarrow> ''unknown'' | Some s \<Rightarrow> schemaTypeLabel s) @ ''>''
      else if sc_type schema = Some ''object'' then ''object''
      else if truthy (sc_type schema)
      then (if truthy (sc_format schema) then the (sc_type schema) @ ''('' @ the (sc_format schema) @ '')''
            else the (sc_type schema))
      else ''unknown'')"
  by pat_completeness auto

termination
  by (relation "measure size") (auto simp: size_some_items)

declare schemaTypeLabel.simps [simp del]

definition schemaLabel :: "schema option \<Rightarrow> string" where
  "schemaLabel schema =
     (case schema of
        None \<Rightarrow> ''-''
      | Some s \<Rightarrow>
          if truthy (sc_ref s) then (let l = last_segment (the (sc_ref s)) in if l \<noteq> [] then l else the (sc_ref s))
          else if sc_oneOf s \<noteq> None then ''oneOf('' @ show_nat (length (some_items (sc_oneOf s))) @ '')''
          else if sc_anyOf s \<noteq> None then ''anyOf('' @ show_nat (length (some_items (sc_anyOf s))) @ '')''
          else if sc_allOf s \<noteq> None then ''allOf('' @ show_nat (length (some_items (sc_allOf s))) @ '')''
          else if sc_type s = Some ''array''
          then ''array<'' @ (case sc_items s of None \<Rightarrow> ''unknown'' | Some i \<Rightarrow> schemaTypeLabel i) @ ''>''
          else (case sc_type s of None \<Rightarrow> ''inline/unknown'' | Some ty \<Rightarrow> ty))"

text \<open>\<open>JSON.stringify\<close> of a parsed JSON value.\<close>

definition json_char :: "char \<Rightarrow> string" where
  "json_char c =
     (let n = (of_char c :: nat) in
      if c = CHR 0x22 \<or> c = CHR 0x5C then [CHR 0x5C, c]
      else if n = 8 then [CHR 0x5C, CHR ''b''] else if n = 9 then [CHR 0x5C, CHR ''t'']
      else if n = 10 then [CHR 0x5C, CHR ''n''] else if n = 12 then [CHR 0x5C, CHR ''f'']
      else if n = 13 then [CHR 0x5C, CHR ''r'']
      else if n < 32 then [CHR 0x5C] @ ''u00'' @ [if n < 16 then CHR ''0'' else CHR ''1'',
        (let d = n mod 16 in if d < 10 then char_of (48 + d) else char_of (87 + d))]
      else [c])"

definition json_string :: "string \<Rightarrow> string" where
  "json_string s = [CHR 0x22] @ concat (map json_char s) @ [CHR 0x22]"

fun json_text :: "js \<Rightarrow> string" where
  "json_text (Bool b) = (if b then ''true'' else ''false'')"
| "json_text (Num v) = (if is_finite v then num_text v else ''null'')"
| "json_text (Str s) = json_string s"
| "json_text (Arr xs) = ''['' @ join '','' (map json_text xs) @ '']''"
| "json_text (Obj kvs) = ''{'' @ join '','' (map (\<lambda>(k, v). json_string k @ '':'' @ json_text v) kvs) @ ''}''"
| "json_text _ = ''null''"

definition formatExample :: "js \<Rightarrow> string" where
  "formatExample example = (case example of Undefined \<Rightarrow> ''-'' | Str s \<Rightarrow> s | _ \<Rightarrow> json_text example)"

record schema_field =
  sf_name :: string
  sf_type :: string
  sf_required :: bool
  sf_description :: string
  sf_enumValues :: string
  sf_example :: string

definition plain_field :: "string \<Rightarrow> string \<Rightarrow> string \<Rightarrow> schema_field" where
  "plain_field name type description =
     \<lparr>sf_name = name, sf_type = type, sf_required = False, sf_description = description, sf_enumValues = ''-'', sf_example = ''-''\<rparr>"

definition property_field :: "open_api option \<Rightarrow> string list \<Rightarrow> string \<times> schema \<Rightarrow> schema_field" where
  "property_field doc required entry =
     (let prop = resolveSchema doc (snd entry) in
      \<lparr>sf_name = fst entry, sf_type = schemaTypeLabel prop, sf_required = (fst entry \<in> set required),
       sf_description = text_or (sc_description prop) [],
       sf_enumValues = (if some_items (sc_enum prop) \<noteq> [] then join '', '' (map js_String (some_items (sc_enum prop))) else ''-''),
       sf_example = formatExample (sc_example prop)\<rparr>)"

text \<open>The fields of a schema that is not composed of others.\<close>

definition own_fields :: "open_api option \<Rightarrow> schema \<Rightarrow> schema_field list" where
  "own_fields doc resolved =
     (let fields = map (property_field doc (some_items (sc_required resolved))) (some_items (sc_properties resolved))
      in if fields \<noteq> [] then fields
         else (case sc_additionalProperties resolved of
                 Some (Inr s) \<Rightarrow> [plain_field ''[key: string]'' (schemaTypeLabel (resolveSchema doc s)) ''Dictionary value type'']
               | _ \<Rightarrow> []))"

definition variants :: "open_api option \<Rightarrow> schema list \<Rightarrow> string" where
  "variants doc ss = join '' | '' (map (\<lambda>s. schemaTypeLabel (resolveSchema doc s)) ss)"

definition array_field :: "schema_field \<Rightarrow> schema_field" where
  "array_field f = f\<lparr>sf_name := ''[]'' @ sf_name f\<rparr>"

text \<open>
  The recursion follows references, so it may not end; \<open>None\<close> is a call stack of the given depth used up,
  as JavaScript throws then.
\<close>

fun flattenSchemaFields :: "open_api option \<Rightarrow> nat \<Rightarrow> schema \<Rightarrow> schema_field list option" where
  "flattenSchemaFields doc 0 schema = None"
| "flattenSchemaFields doc (Suc depth) schema =
     (let resolved = resolveSchema doc schema in
      if some_items (sc_allOf resolved) \<noteq> []
      then map_option concat (those (map (flattenSchemaFields doc depth) (some_items (sc_allOf resolved))))
      else if some_items (sc_oneOf resolved) \<noteq> []
      then Some [plain_field ''(oneOf)'' (variants doc (some_items (sc_oneOf resolved))) ''One of the listed schema variants.'']
      else if some_items (sc_anyOf resolved) \<noteq> []
      then Some [plain_field ''(anyOf)'' (variants doc (some_items (sc_anyOf resolved))) ''Any of the listed schema variants.'']
      else (case (if sc_type resolved = Some ''array'' then sc_items resolved else None) of
              Some item \<Rightarrow>
                map_option (map array_field) (flattenSchemaFields doc depth item)
            | None \<Rightarrow> Some (own_fields doc resolved)))"

text \<open>The schemas a description goes on with.\<close>

definition components_of :: "open_api option \<Rightarrow> schema \<Rightarrow> schema list" where
  "components_of doc schema =
     (let r = resolveSchema doc schema in
      if some_items (sc_allOf r) \<noteq> [] then some_items (sc_allOf r)
      else if some_items (sc_oneOf r) \<noteq> [] \<or> some_items (sc_anyOf r) \<noteq> [] then []
      else if sc_type r = Some ''array'' then (case sc_items r of None \<Rightarrow> [] | Some s \<Rightarrow> [s])
      else [])"

lemma those_None_iff: "those xs = None \<longleftrightarrow> None \<in> set xs"
  by (induction xs) (auto split: option.split)

lemma flatten_step:
  "flattenSchemaFields doc (Suc n) s = None \<longleftrightarrow> (\<exists>t \<in> set (components_of doc s). flattenSchemaFields doc n t = None)"
proof -
  have list: "those (map (flattenSchemaFields doc n) ts) = None \<longleftrightarrow> (\<exists>t \<in> set ts. flattenSchemaFields doc n t = None)"
    for ts unfolding those_None_iff by force
  show ?thesis
    unfolding flattenSchemaFields.simps components_of_def Let_def
    by (cases "sc_items (resolveSchema doc s)") (simp_all only: list if_split map_option_is_None option.case, simp_all, (use list in blast)+)
qed

lemma those_map_more:
  assumes "those (map f ts) = Some gs" and "\<And>t g. t \<in> set ts \<Longrightarrow> f t = Some g \<Longrightarrow> h t = Some g"
  shows "those (map h ts) = Some gs"
  using assms by (induction ts arbitrary: gs) (auto split: option.splits)

lemma flatten_more: "flattenSchemaFields doc n s = Some fs \<Longrightarrow> flattenSchemaFields doc (n + k) s = Some fs"
proof (induction n arbitrary: s fs)
  case 0
  then show ?case by simp
next
  case (Suc n)
  have "those (map (flattenSchemaFields doc (n + k)) ts) = Some gs"
    if "those (map (flattenSchemaFields doc n) ts) = Some gs" for ts gs
    using that Suc.IH by (rule those_map_more)
  then show ?case
    using Suc by (auto simp: Let_def split: option.splits if_splits)
qed

text \<open>A description that never ends goes on for ever with some component.\<close>

lemma flatten_unbounded:
  assumes "\<And>n. flattenSchemaFields doc n s = None"
  obtains t where "t \<in> set (components_of doc s)" "\<And>n. flattenSchemaFields doc n t = None"
proof -
  have "\<exists>t \<in> set (components_of doc s). \<forall>n. flattenSchemaFields doc n t = None"
  proof (rule ccontr)
    assume "\<not> ?thesis"
    then obtain d where d: "\<And>t. t \<in> set (components_of doc s) \<Longrightarrow> flattenSchemaFields doc (d t) t \<noteq> None" by metis
    let ?n = "sum_list (map d (components_of doc s))"
    have "flattenSchemaFields doc ?n t \<noteq> None" if "t \<in> set (components_of doc s)" for t
    proof -
      have "d t \<le> ?n" using that by (simp add: member_le_sum_list)
      then show ?thesis using d [OF that] flatten_more [of doc "d t" t _ "?n - d t"] by auto
    qed
    then have "flattenSchemaFields doc (Suc ?n) s \<noteq> None" unfolding flatten_step by blast
    then show False using assms by (rule notE)
  qed
  then show thesis using that by blast
qed

lemma flatten_ends_iff:
  "(\<exists>depth fields. flattenSchemaFields doc depth schema = Some fields) \<longleftrightarrow>
     \<not> (\<exists>chain. chain 0 = schema \<and> (\<forall>i. chain (Suc i) \<in> set (components_of doc (chain i))))"
proof
  assume "\<exists>depth fields. flattenSchemaFields doc depth schema = Some fields"
  then obtain n where "flattenSchemaFields doc n schema \<noteq> None" by auto
  then have "\<not> (\<exists>chain. chain 0 = schema \<and> (\<forall>i. chain (Suc i) \<in> set (components_of doc (chain i))))"
  proof (induction n arbitrary: schema)
    case 0
    then show ?case by simp
  next
    case (Suc n)
    show ?case
    proof
      assume "\<exists>chain. chain 0 = schema \<and> (\<forall>i. chain (Suc i) \<in> set (components_of doc (chain i)))"
      then obtain chain where c: "chain 0 = schema" "\<And>i. chain (Suc i) \<in> set (components_of doc (chain i))" by blast
      have "flattenSchemaFields doc n (chain 1) \<noteq> None" using Suc.prems c(2) [of 0] c(1) unfolding flatten_step by auto
      from Suc.IH [OF this] show False using c(2) by (auto dest!: spec [of _ "\<lambda>i. chain (Suc i)"])
    qed
  qed
  then show "\<not> (\<exists>chain. chain 0 = schema \<and> (\<forall>i. chain (Suc i) \<in> set (components_of doc (chain i))))" .
next
  assume no: "\<not> (\<exists>chain. chain 0 = schema \<and> (\<forall>i. chain (Suc i) \<in> set (components_of doc (chain i))))"
  show "\<exists>depth fields. flattenSchemaFields doc depth schema = Some fields"
  proof (rule ccontr)
    assume "\<not> ?thesis"
    then have none: "\<forall>n. flattenSchemaFields doc n schema = None" by auto
    let ?P = "\<lambda>s. \<forall>n. flattenSchemaFields doc n s = None"
    have "\<exists>chain. chain 0 = schema \<and> (\<forall>i. ?P (chain i) \<and> chain (Suc i) \<in> set (components_of doc (chain i)))"
      using dependent_nat_choice [of "\<lambda>i s. ?P s \<and> (i = 0 \<longrightarrow> s = schema)" "\<lambda>i s t. t \<in> set (components_of doc s)"]
        none flatten_unbounded [of doc] by (metis nat.distinct(1))
    then show False using no by blast
  qed
qed

text \<open>The description of a schema ends, with some depth of calls, exactly when no chain of components
  (members of \<open>allOf\<close>, items of arrays, references resolved) goes on for ever from it; and it does not
  depend on the depth: whenever two depths give the fields, they give the same.\<close>

theorem flatten_terminates:
  "((\<exists>depth fs. flattenSchemaFields doc depth schema = Some fs) \<longleftrightarrow>
      \<not> (\<exists>chain. chain 0 = schema \<and> (\<forall>i. chain (Suc i) \<in> set (components_of doc (chain i))))) \<and>
   (flattenSchemaFields doc d1 schema = Some fs1 \<longrightarrow> flattenSchemaFields doc d2 schema = Some fs2 \<longrightarrow> fs1 = fs2)"
proof (intro conjI impI flatten_ends_iff)
  assume "flattenSchemaFields doc d1 schema = Some fs1" "flattenSchemaFields doc d2 schema = Some fs2"
  from this [THEN flatten_more, of d2] this [THEN flatten_more, of d1] show "fs1 = fs2"
    by (simp add: add.commute)
qed

section \<open>The text\<close>

definition code :: "string \<Rightarrow> string" where
  "code s = ''`'' @ s @ ''`''"

definition table_row :: "string list \<Rightarrow> string" where
  "table_row cells = ''| '' @ join '' | '' (map escapePipes cells) @ '' |''"

text \<open>\<open>renderSchemaBlock\<close> with \<open>describeSchema\<close>; \<open>depth\<close> is the depth of calls there is room for.\<close>

definition renderSchemaBlock :: "open_api option \<Rightarrow> nat \<Rightarrow> schema \<Rightarrow> string \<Rightarrow> string list option" where
  "renderSchemaBlock doc depth schema fallbackTitle =
     (let resolved = resolveSchema doc schema; label = schemaLabel (Some schema);
          title = (if label \<noteq> [] then label else fallbackTitle)
      in map_option (\<lambda>fields.
           [''- Shape: '' @ code title, ''- Type: '' @ code (schemaTypeLabel resolved)] @
           (if truthy (sc_description resolved) then [''- Description: '' @ the (sc_description resolved)] else []) @
           (if fields = [] then [''- Fields: _No object fields documented._'', []]
            else [[], ''| Field | Type | Required | Enum | Example | Description |'', ''|---|---|---|---|---|---|''] @
              map (\<lambda>f. table_row [sf_name f, sf_type f, if sf_required f then ''yes'' else ''no'', sf_enumValues f,
                sf_example f, sf_description f]) fields @ [[]]))
         (flattenSchemaFields doc depth resolved))"

text \<open>The dash of a status line, in UTF-8.\<close>

definition long_dash :: string where
  "long_dash = [CHR 0xE2, CHR 0x80, CHR 0x94]"

definition auth_text :: "api_auth \<Rightarrow> string" where
  "auth_text a = (case a of Auth_bearer \<Rightarrow> ''bearer'' | Auth_public \<Rightarrow> ''public'')"

definition render_response :: "open_api option \<Rightarrow> nat \<Rightarrow> response_schema \<Rightarrow> string list option" where
  "render_response doc depth r =
     map_option (Cons (''- Status: '' @ code (rs_status r) @
         (if truthy (rs_description r) then '' '' @ long_dash @ '' '' @ the (rs_description r) else [])))
       (case rs_schema r of
          Some s \<Rightarrow> renderSchemaBlock doc depth s (''Response '' @ rs_status r)
        | None \<Rightarrow> Some [''  - _No response body._'', []])"

definition render_rest_item :: "open_api option \<Rightarrow> nat \<Rightarrow> rest_item \<Rightarrow> string list option" where
  "render_rest_item doc depth item =
     (let successResponses = filter (\<lambda>r. isSuccessStatus (rs_status r)) (ri_responseSchemas item);
          errorResponses = filter (\<lambda>r. \<not> isSuccessStatus (rs_status r)) (ri_responseSchemas item)
      in case (case ri_requestSchema item of
                 None \<Rightarrow> Some [''_No request body._'', []]
               | Some s \<Rightarrow> renderSchemaBlock doc depth s ''Request body'',
               those (map (render_response doc depth) successResponses)) of
           (Some request, Some responses) \<Rightarrow>
             Some ([''#### '' @ ri_method item @ '' '' @ ri_path item, [],
                    ''- Name: '' @ code (ri_name item), ''- Auth: '' @ code (auth_text (ri_auth item)),
                    ''- Summary: '' @ ri_summary item] @
                   (if ri_notes item \<noteq> [] then [''- Notes: '' @ ri_notes item] else []) @
                   [[], ''**Request**'', []] @ request @ [''**Success Response**'', []] @
                   (if successResponses = [] then [''_No documented success response body._'', []] else concat responses) @
                   [''**Error Responses**'', []] @
                   (if errorResponses = [] then [''_No documented error responses._'', []]
                    else [''| Status | Description | Body |'', ''|---|---|---|''] @
                      map (\<lambda>r. ''| '' @ rs_status r @ '' | '' @
                        escapePipes (case rs_description r of None \<Rightarrow> ''-'' | Some d \<Rightarrow> d) @ '' | '' @
                        escapePipes (schemaLabel (rs_schema r)) @ '' |'') errorResponses @ [[]]))
         | _ \<Rightarrow> None)"

definition sorted_groups :: "(string \<Rightarrow> string \<Rightarrow> int) \<Rightarrow> (string \<times> 'a list) list \<Rightarrow> (string \<times> 'a list) list" where
  "sorted_groups loc groups = sort_cmp (\<lambda>a b. loc (fst a) (fst b)) groups"

definition render_rest_group :: "open_api option \<Rightarrow> nat \<Rightarrow> string \<times> rest_item list \<Rightarrow> string list option" where
  "render_rest_group doc depth grp =
     map_option (\<lambda>blocks.
         [''### '' @ fst grp, [], ''| Method | Path | Auth | Summary |'', ''|---|---|---|---|''] @
         map (\<lambda>i. ''| '' @ ri_method i @ '' | '' @ escapePipes (ri_path i) @ '' | '' @ auth_text (ri_auth i) @ '' | '' @
           escapePipes (ri_summary i) @ '' |'') (snd grp) @ [[]] @ concat blocks)
       (those (map (render_rest_item doc depth) (snd grp)))"

definition render_ws_item :: "ws_item \<Rightarrow> string list" where
  "render_ws_item i =
     [''#### Event '' @ code (wi_event i), [], ''- Handler: '' @ code (wi_name i), ''- Channel: '' @ code (wi_channel i),
      ''- Auth: '' @ code (auth_text (wi_auth i)), ''- Summary: '' @ wi_summary i] @
     (if wi_notes i \<noteq> [] then [''- Notes: '' @ wi_notes i] else []) @
     [[], ''**Request Payload**'', [],
      ''- Shape: '' @ code (if wi_requestShapeRef i \<noteq> [] then wi_requestShapeRef i else ''-''), [],
      ''**Response Payload / Emitted Events**'', [],
      ''- Shape: '' @ code (if wi_responseShapeRef i \<noteq> [] then wi_responseShapeRef i else ''ack payload''), []]"

definition render_ws_group :: "string \<times> ws_item list \<Rightarrow> string list" where
  "render_ws_group grp =
     [''### '' @ fst grp, [], ''| Event | Channel | Auth | Summary |'', ''|---|---|---|---|''] @
     map (\<lambda>i. ''| '' @ escapePipes (wi_event i) @ '' | '' @ escapePipes (wi_channel i) @ '' | '' @ auth_text (wi_auth i) @
       '' | '' @ escapePipes (wi_summary i) @ '' |'') (snd grp) @ [[]] @ concat (map render_ws_item (snd grp))"

definition renderApiListMarkdown ::
  "(string \<Rightarrow> string \<Rightarrow> int) \<Rightarrow> nat \<Rightarrow> rest_item list \<Rightarrow> ws_item list \<Rightarrow> open_api option \<Rightarrow> string option" where
  "renderApiListMarkdown loc depth restItems wsItems doc =
     (let restGroups = groupBy ri_module restItems []; wsGroups = groupBy wi_module wsItems [] in
      map_option (\<lambda>blocks.
          join [CHR 0x0A]
            ([''# API List'', [],
              ''Generated from `openapi.json` (REST) and `src/**/*.gateway.ts` (WebSocket).'', [], ''## REST APIs'', []] @
             (if restGroups = [] then [''_No REST APIs found._'', []] else concat blocks) @
             [''## WebSocket APIs'', []] @
             (if wsGroups = [] then [''_No WebSocket APIs found._'', []]
              else concat (map render_ws_group (sorted_groups loc wsGroups)))) @ [CHR 0x0A])
        (those (map (render_rest_group doc depth) (sorted_groups loc restGroups))))"

section \<open>Scanning a source text\<close>

text \<open>\<open>findMatchingParen\<close> and \<open>findMatchingBrace\<close> from index \<open>i\<close> on.\<close>

fun find_matching :: "char \<Rightarrow> char \<Rightarrow> string \<Rightarrow> int \<Rightarrow> nat \<Rightarrow> nat option" where
  "find_matching opening closing [] depth i = None"
| "find_matching opening closing (c # s) depth i =
     (if c = opening then find_matching opening closing s (depth + 1) (i + 1)
      else if c = closing then
        (if depth - 1 = 0 then Some i else find_matching opening closing s (depth - 1) (i + 1))
      else find_matching opening closing s depth (i + 1))"

definition findMatchingParen :: "string \<Rightarrow> nat \<Rightarrow> nat option" where
  "findMatchingParen source i = find_matching (CHR ''('') (CHR '')'') (drop i source) 0 i"

definition findMatchingBrace :: "string \<Rightarrow> nat \<Rightarrow> nat option" where
  "findMatchingBrace source i = find_matching (CHR ''{'') (CHR ''}'') (drop i source) 0 i"

record scan_state =
  sn_angle :: nat
  sn_brace :: nat
  sn_bracket :: nat
  sn_paren :: nat
  sn_inString :: "char option"

text \<open>\<open>findMethodBodyBrace\<close>: the first brace outside every bracket and text; \<open>prev\<close> is the character before.\<close>

fun find_body :: "string \<Rightarrow> char option \<Rightarrow> scan_state \<Rightarrow> nat \<Rightarrow> nat option" where
  "find_body [] prev st i = None"
| "find_body (c # s) prev st i =
     (case sn_inString st of
        Some q \<Rightarrow>
          find_body s (Some c) (if c = q \<and> prev \<noteq> Some (CHR 0x5C) then st\<lparr>sn_inString := None\<rparr> else st) (i + 1)
      | None \<Rightarrow>
          if c \<in> {CHR 0x22, CHR 0x27, CHR ''`''} then find_body s (Some c) (st\<lparr>sn_inString := Some c\<rparr>) (i + 1)
          else if c = CHR ''<'' then find_body s (Some c) (st\<lparr>sn_angle := sn_angle st + 1\<rparr>) (i + 1)
          else if c = CHR ''>'' then find_body s (Some c) (st\<lparr>sn_angle := sn_angle st - 1\<rparr>) (i + 1)
          else if c = CHR ''('' then find_body s (Some c) (st\<lparr>sn_paren := sn_paren st + 1\<rparr>) (i + 1)
          else if c = CHR '')'' then find_body s (Some c) (st\<lparr>sn_paren := sn_paren st - 1\<rparr>) (i + 1)
          else if c = CHR ''['' then find_body s (Some c) (st\<lparr>sn_bracket := sn_bracket st + 1\<rparr>) (i + 1)
          else if c = CHR '']'' then find_body s (Some c) (st\<lparr>sn_bracket := sn_bracket st - 1\<rparr>) (i + 1)
          else if c = CHR ''{'' then
            (if sn_angle st = 0 \<and> sn_paren st = 0 \<and> sn_bracket st = 0 \<and> sn_brace st = 0 then Some i
             else find_body s (Some c) (st\<lparr>sn_brace := sn_brace st + 1\<rparr>) (i + 1))
          else if c = CHR ''}'' then find_body s (Some c) (st\<lparr>sn_brace := sn_brace st - 1\<rparr>) (i + 1)
          else find_body s (Some c) st (i + 1))"

definition findMethodBodyBrace :: "string \<Rightarrow> nat \<Rightarrow> nat option" where
  "findMethodBodyBrace source fromIndex =
     find_body (drop fromIndex source) (if 0 < fromIndex then Some (source ! (fromIndex - 1)) else None)
       \<lparr>sn_angle = 0, sn_brace = 0, sn_bracket = 0, sn_paren = 0, sn_inString = None\<rparr> fromIndex"

text \<open>The scanner stops at the first closing bracket that balances what was opened.\<close>

definition balance :: "char \<Rightarrow> char \<Rightarrow> string \<Rightarrow> int" where
  "balance opening closing s =
     int (length (filter (\<lambda>c. c = opening) s)) - int (length (filter (\<lambda>c. c = closing) s))"

definition closes_at :: "char \<Rightarrow> char \<Rightarrow> string \<Rightarrow> int \<Rightarrow> nat \<Rightarrow> bool" where
  "closes_at opening closing s depth k \<longleftrightarrow>
     k < length s \<and> s ! k = closing \<and> depth + balance opening closing (take (k + 1) s) = 0"

lemma find_matching_iff:
  assumes "opening \<noteq> closing"
  shows "find_matching opening closing s depth i = Some j \<longleftrightarrow>
     (\<exists>k. j = i + k \<and> closes_at opening closing s depth k \<and> (\<forall>l < k. \<not> closes_at opening closing s depth l))"
proof (induction s arbitrary: depth i)
  case Nil
  then show ?case by (simp add: closes_at_def)
next
  case (Cons c s)
  let ?d = "depth + (if c = opening then 1 else if c = closing then - 1 else 0)"
  have suc: "closes_at opening closing (c # s) depth (Suc k) \<longleftrightarrow> closes_at opening closing s ?d k" for k
    using assms by (auto simp: closes_at_def balance_def)
  have zero: "closes_at opening closing (c # s) depth 0 \<longleftrightarrow> c = closing \<and> depth - 1 = 0"
    using assms by (auto simp: closes_at_def balance_def)
  show ?case
  proof (cases "c = closing \<and> depth - 1 = 0")
    case True
    then show ?thesis using zero assms by (auto intro: exI [of _ 0]) (metis gr0I)
  next
    case False
    then have first: "\<not> closes_at opening closing (c # s) depth 0" using zero by blast
    have "find_matching opening closing (c # s) depth i = find_matching opening closing s ?d (i + 1)"
      using False assms by auto
    also have "\<dots> = Some j \<longleftrightarrow>
        (\<exists>k. j = i + 1 + k \<and> closes_at opening closing s ?d k \<and> (\<forall>l < k. \<not> closes_at opening closing s ?d l))"
      using Cons.IH False assms by (cases "c = opening"; cases "c = closing") auto
    also have "\<dots> \<longleftrightarrow> (\<exists>k. j = i + k \<and> closes_at opening closing (c # s) depth k \<and>
        (\<forall>l < k. \<not> closes_at opening closing (c # s) depth l))"
    proof
      assume "\<exists>k. j = i + 1 + k \<and> closes_at opening closing s ?d k \<and> (\<forall>l < k. \<not> closes_at opening closing s ?d l)"
      then obtain k where k: "j = i + Suc k" "closes_at opening closing s ?d k" "\<And>l. l < k \<Longrightarrow> \<not> closes_at opening closing s ?d l"
        by auto
      have "\<not> closes_at opening closing (c # s) depth l" if "l < Suc k" for l
        using that k(3) suc first by (cases l) auto
      then show "\<exists>k. j = i + k \<and> closes_at opening closing (c # s) depth k \<and> (\<forall>l < k. \<not> closes_at opening closing (c # s) depth l)"
        using k(1,2) suc by blast
    next
      assume "\<exists>k. j = i + k \<and> closes_at opening closing (c # s) depth k \<and> (\<forall>l < k. \<not> closes_at opening closing (c # s) depth l)"
      then obtain k where k: "j = i + k" "closes_at opening closing (c # s) depth k"
          "\<And>l. l < k \<Longrightarrow> \<not> closes_at opening closing (c # s) depth l"
        by auto
      then obtain m where m: "k = Suc m" using first by (cases k) auto
      have "\<not> closes_at opening closing s ?d l" if "l < m" for l using k(3) [of "Suc l"] that m suc by simp
      then show "\<exists>k. j = i + 1 + k \<and> closes_at opening closing s ?d k \<and> (\<forall>l < k. \<not> closes_at opening closing s ?d l)"
        using k(1,2) m suc by (intro exI [of _ m]) simp
    qed
    finally show ?thesis .
  qed
qed

section \<open>Witness\<close>

text \<open>A schema composed of itself, and an object with one property.\<close>

definition self_ref :: schema where
  "self_ref = Schema (Some ''#/components/schemas/Node'') None None None Undefined None None None None None None None None"

definition node_schema :: schema where
  "node_schema = Schema None None None None Undefined None None None None None (Some [self_ref]) None None"

definition flat_schema :: schema where
  "flat_schema = Schema None (Some ''object'') None None Undefined None (Some [''id''])
     (Some [(''id'', Schema None (Some ''integer'') None None (Num (whole 7)) None None None None None None None None)])
     None None None None None"

definition sample_doc :: open_api where
  "sample_doc = \<lparr>oa_paths = None, oa_security = None, oa_schemas = Some [(''Node'', node_schema), (''Item'', flat_schema)]\<rparr>"

theorem flatten_terminates_witness:
  "(\<forall>n. flattenSchemaFields (Some sample_doc) n self_ref = None) \<and>
   map_option (map sf_name) (flattenSchemaFields (Some sample_doc) 1 flat_schema) = Some [''id''] \<and>
   \<not> (\<exists>chain. chain 0 = flat_schema \<and> (\<forall>i. chain (Suc i) \<in> set (components_of (Some sample_doc) (chain i))))"
proof -
  have "components_of (Some sample_doc) self_ref = [self_ref]" by code_simp
  then have "\<exists>chain. chain 0 = self_ref \<and> (\<forall>i. chain (Suc i) \<in> set (components_of (Some sample_doc) (chain i)))"
    by (intro exI [of _ "\<lambda>_. self_ref"]) simp
  then have cyclic: "\<forall>n. flattenSchemaFields (Some sample_doc) n self_ref = None"
    using flatten_terminates [THEN conjunct1, of "Some sample_doc" self_ref] by auto
  have names: "map_option (map sf_name) (flattenSchemaFields (Some sample_doc) 1 flat_schema) = Some [''id'']"
    by code_simp
  then have "flattenSchemaFields (Some sample_doc) 1 flat_schema \<noteq> None" by (metis option.distinct(1) option.simps(8))
  then have "\<exists>n fs. flattenSchemaFields (Some sample_doc) n flat_schema = Some fs" by (metis not_None_eq)
  then show ?thesis
    using cyclic names flatten_terminates [THEN conjunct1, of "Some sample_doc" flat_schema] by blast
qed

end
