(* ===== verification/Races.thy ===== *)
theory Races
  imports Faults
begin

text \<open>
  What two requests on one fault can do to it, statement by statement (\<open>fault_statement\<close> of theory \<open>Faults\<close>):
  \<open>cancelFault\<close> of \<open>KayanService\<close> reads the status in one statement and writes it in another, with no transaction
  around them, so an administrator's requests may be served in between.
\<close>

text \<open>An accepted request served without interruption, other changes being under way.\<close>

lemma advance_uninterrupted:
  assumes ok: "is_ok (fst (adminUpdateFaultStatus admin i st (ru_db r)))" and k: "ru_open r k = None"
  shows "fault_statement\<^sup>*\<^sup>* r (r\<lparr>ru_db := snd (adminUpdateFaultStatus admin i st (ru_db r)),
    ru_overlapped := mark_overlap (ru_open r) i (ru_overlapped r)\<rparr>)"
proof -
  let ?s = "ru_db r"
  let ?c = "\<lparr>ch_item = i, ch_status = st, ch_by = sub admin, ch_cancel = False, ch_written = False\<rparr>"
  let ?r1 = "begin_change k ?c r"
  let ?u = "advance_fault_update i st ?s"
  let ?r2 = "written_change k ?c ?u ?r1"
  have check: "advance_fault_check ?s i st = Inr ()"
    using ok by (cases "advance_fault_check ?s i st") (simp_all add: adminUpdateFaultStatus_def)
  then have run: "adminUpdateFaultStatus admin i st ?s = bind_h (insert_fault_history i st (sub admin))
      (\<lambda>_ s2. (getFaultForUser s2 0 i True, s2)) ?u"
    by (simp add: adminUpdateFaultStatus_def)
  obtain x s' where ins: "insert_fault_history i st (sub admin) ?u = (x, s')" by fastforce
  then have x: "x = Inr ()" and s': "snd (adminUpdateFaultStatus admin i st ?s) = s'"
    using ok unfolding run by (cases x; simp add: bind_h_def)+
  have "fault_statement r ?r1" by (rule fault_statement.advance [OF check k])
  moreover have "fault_statement ?r1 ?r2"
    using fault_statement.update [of ?r1 k ?c] by (simp add: begin_change_def)
  moreover have "fault_statement ?r2 (recorded_change k s' ?r2)"
    using fault_statement.history [of ?r2 k "?c\<lparr>ch_written := True\<rparr>" s'] ins x
    by (simp add: written_change_def begin_change_def)
  moreover have "(ru_open r)(k := None) = ru_open r" using k by (simp add: fun_upd_idem)
  then have "recorded_change k s' ?r2 = r\<lparr>ru_db := s', ru_overlapped := mark_overlap (ru_open r) i (ru_overlapped r)\<rparr>"
    by (simp add: recorded_change_def written_change_def begin_change_def)
  ultimately show ?thesis unfolding s' by (metis converse_rtranclp_into_rtranclp r_into_rtranclp)
qed

lemma admin_run_uninterrupted:
  "admin_run admin i sts (ru_db r) = (xs, s') \<Longrightarrow> list_all id xs \<Longrightarrow> ru_open r k = None \<Longrightarrow>
   \<exists>X. fault_statement\<^sup>*\<^sup>* r (r\<lparr>ru_db := s', ru_overlapped := X\<rparr>)"
proof (induction sts arbitrary: r xs)
  case Nil
  then have "r\<lparr>ru_db := s', ru_overlapped := ru_overlapped r\<rparr> = r" by simp
  then show ?case by (metis rtranclp.rtrancl_refl)
next
  case (Cons st sts)
  obtain x s1 where one: "adminUpdateFaultStatus admin i st (ru_db r) = (x, s1)" by fastforce
  obtain ys where rest: "admin_run admin i sts s1 = (ys, s')" "xs = is_ok x # ys"
    using Cons.prems(1) one by (auto split: prod.splits)
  let ?r1 = "r\<lparr>ru_db := s1, ru_overlapped := mark_overlap (ru_open r) i (ru_overlapped r)\<rparr>"
  have "fault_statement\<^sup>*\<^sup>* r ?r1"
    using advance_uninterrupted [of admin i st r k] one rest(2) Cons.prems(2,3) by simp
  moreover obtain X where "fault_statement\<^sup>*\<^sup>* ?r1 (?r1\<lparr>ru_db := s', ru_overlapped := X\<rparr>)"
    using Cons.IH [of ?r1 ys] rest Cons.prems(2,3) by auto
  ultimately show ?case by (auto intro: rtranclp_trans)
qed

text \<open>
  The cancellation decided on the old status overwrites a fault an administrator finishes in the meantime: nothing
  is left under way and nothing broke off, and the history holds a move the transition table forbids.
\<close>

definition late_cancel :: "fault_status change" where
  "late_cancel = \<lparr>ch_item = 1, ch_status = Fault_CANCELLED, ch_by = sub sample_customer, ch_cancel = True, ch_written = False\<rparr>"

definition finished_db :: db where
  "finished_db = snd (admin_run sample_admin 1 (way_to_finish Fault_RECEIVED) fault_db)"

definition raced_db :: db where
  "raced_db = snd (insert_fault_history 1 Fault_CANCELLED (sub sample_customer) (cancel_fault_update 1 finished_db))"

lemma cancelFault_race:
  "\<exists>r. fault_statement\<^sup>*\<^sup>* (idle_run empty_db) r \<and> ru_open r = Map.empty \<and> ru_broken r = {} \<and>
     fault_status_of (ru_db r) 1 = Some Fault_CANCELLED \<and>
     fault_log (ru_db r) 1 =
       [Fault_RECEIVED, Fault_ASSIGNED, Fault_ON_THE_WAY, Fault_IN_PROGRESS, Fault_FINISHED, Fault_CANCELLED] \<and>
     \<not> fault_legal Fault_FINISHED Fault_CANCELLED"
proof -
  let ?r1 = "begin_change 0 late_cancel (idle_run fault_db)"
  have "cancel_fault_check fault_db sample_customer 1 = Inr ()" by code_simp
  then have "fault_statement (idle_run fault_db) ?r1"
    unfolding late_cancel_def by (intro fault_statement.cancel) (simp_all add: idle_run_def)
  moreover have "fst (admin_run sample_admin 1 (way_to_finish Fault_RECEIVED) fault_db) = [True, True, True, True]" by code_simp
  then obtain X where "fault_statement\<^sup>*\<^sup>* ?r1 (?r1\<lparr>ru_db := finished_db, ru_overlapped := X\<rparr>)"
    using admin_run_uninterrupted [of sample_admin 1 "way_to_finish Fault_RECEIVED" ?r1 "[True, True, True, True]" finished_db 1]
    by (auto simp: run_defs finished_db_def prod_eq_iff)
  moreover let ?r2 = "?r1\<lparr>ru_db := finished_db, ru_overlapped := X\<rparr>"
  let ?r3 = "written_change 0 late_cancel (cancel_fault_update 1 finished_db) ?r2"
  have "fault_statement ?r2 ?r3"
    using fault_statement.update [of ?r2 0 late_cancel] by (simp add: run_defs late_cancel_def)
  moreover have "fst (insert_fault_history 1 Fault_CANCELLED (sub sample_customer) (cancel_fault_update 1 finished_db)) = Inr ()"
    by code_simp
  then have "fault_statement ?r3 (recorded_change 0 raced_db ?r3)"
    using fault_statement.history [of ?r3 0 "late_cancel\<lparr>ch_written := True\<rparr>" raced_db]
    by (simp add: run_defs late_cancel_def raced_db_def prod_eq_iff)
  ultimately have "fault_statement\<^sup>*\<^sup>* (idle_run empty_db) (recorded_change 0 raced_db ?r3)"
    using fault_db_run by (meson rtranclp.rtrancl_into_rtrancl rtranclp_trans)
  moreover have "fault_status_of raced_db 1 = Some Fault_CANCELLED"
    "fault_log raced_db 1 =
       [Fault_RECEIVED, Fault_ASSIGNED, Fault_ON_THE_WAY, Fault_IN_PROGRESS, Fault_FINISHED, Fault_CANCELLED]"
    "\<not> fault_legal Fault_FINISHED Fault_CANCELLED"
    by code_simp+
  ultimately show ?thesis
    by (intro exI [of _ "recorded_change 0 raced_db ?r3"]) (simp add: run_defs)
qed

end
