(* ===== verification/Validation.thy ===== *)
theory Validation
  imports Listings Ratings Accounts Auth
begin

text \<open>
  What a request must look like: the DTO classes as tables of their properties, with the type each declares and the
  decorators above it, and the validators the program writes itself (\<open>product-taxonomy.validators.ts\<close>,
  \<open>IsNotAfter\<close>). The library that interprets the decorators (class-validator, class-transformer, Nest's
  \<open>ValidationPipe\<close> as \<open>main.ts\<close> configures it) is a parameter, and what its documentation says of the decorators used
  here is the hypothesis \<open>documented\<close>.
\<close>

section \<open>Decorators\<close>

text \<open>The type of a property, as the compiler records it for the conversion; a union of literals is a string.\<close>

datatype ts_type = Ty_string | Ty_number | Ty_boolean | Ty_array | Ty_object

text \<open>The conditions see the object and the value; the checks are skipped when one fails.\<close>

datatype condition = IsOptional | ValidateIf "js \<Rightarrow> js \<Rightarrow> bool"

text \<open>
  \<open>Each\<close> is the option \<open>{ each: true }\<close>; \<open>Registered\<close> is a validator registered by the program, on the object and the
  value. \<open>Property name type typed conditions checks\<close> is a property; \<open>typed\<close> says that \<open>@Type(() => Number)\<close> stands
  above it.
\<close>

datatype check =
    IsString | IsNotEmpty | IsInt | IsNumber | IsBoolean | IsArray | IsObject | IsEmail | IsDateString
  | MinValue num_value | MaxValue num_value | Length nat nat | ArrayMaxSize nat
  | IsEnum "string list" | IsIn "string list" | Matches "string \<Rightarrow> bool"
  | Each check | ValidateNested "property list" | Registered "js \<Rightarrow> js \<Rightarrow> bool"
and property = Property string ts_type bool "condition list" "check list"

fun name_of :: "property \<Rightarrow> string" where
  "name_of (Property n _ _ _ _) = n"

fun type_of :: "property \<Rightarrow> ts_type" where
  "type_of (Property _ ty _ _ _) = ty"

section \<open>Validators of the program\<close>

text \<open>The regular expression \<open>/^(?=.*[A-Za-z])(?=.*\d).+$/\<close>: no line terminator, a letter and a digit.\<close>

definition is_letter :: "char \<Rightarrow> bool" where
  "is_letter c \<longleftrightarrow> (let n = (of_char c :: nat) in 65 \<le> n \<and> n \<le> 90 \<or> 97 \<le> n \<and> n \<le> 122)"

definition line_terminator :: "char \<Rightarrow> bool" where
  "line_terminator c \<longleftrightarrow> (let n = (of_char c :: nat) in n = 10 \<or> n = 13)"

definition letters_and_digits :: "string \<Rightarrow> bool" where
  "letters_and_digits s \<longleftrightarrow> list_ex is_letter s \<and> list_ex is_digit s \<and> \<not> list_ex line_terminator s"

definition IsValidProductCategory :: check where
  "IsValidProductCategory = Registered (\<lambda>_ x. case x of Str t \<Rightarrow> isValidCategory t | _ \<Rightarrow> False)"

definition IsValidSubcategoryForCategory :: "string \<Rightarrow> bool \<Rightarrow> check" where
  "IsValidSubcategoryForCategory categoryField allowAll = Registered (\<lambda>obj x.
     if nullish x then True
     else (case x of
         Str t \<Rightarrow>
           (case field obj categoryField of
              Str category \<Rightarrow>
                if \<not> isValidSubcategory category t then False
                else if \<not> allowAll \<and> t = ''all'' then False
                else True
            | _ \<Rightarrow> True)
       | _ \<Rightarrow> False))"

text \<open>\<open>new Date(a) <= new Date(b)\<close> compares the two times; \<open>date\<close> gives the time of a text, \<open>NaN\<close> if it has none.\<close>

fun num_le :: "num_value \<Rightarrow> num_value \<Rightarrow> bool" where
  "num_le (Dec m k) (Dec n l) \<longleftrightarrow> m * 10 ^ l \<le> n * 10 ^ k"
| "num_le _ _ \<longleftrightarrow> False"

definition IsNotAfter :: "(string \<Rightarrow> num_value) \<Rightarrow> string \<Rightarrow> check" where
  "IsNotAfter date siblingProperty = Registered (\<lambda>obj x.
     case (x, field obj siblingProperty) of (Str t, Str related) \<Rightarrow> num_le (date related) (date t) | _ \<Rightarrow> True)"

section \<open>The classes\<close>

text \<open>\<open>createOffsetPaginationQueryDto\<close>; its default limit only goes into the description.\<close>

definition createOffsetPaginationQueryDto :: "num_value \<Rightarrow> num_value option \<Rightarrow> property list" where
  "createOffsetPaginationQueryDto maxLimit maxOffset =
     [Property ''page'' Ty_number True [IsOptional] [IsInt, MinValue (whole 1)],
      Property ''limit'' Ty_number True [IsOptional] [IsInt, MinValue (whole 1), MaxValue maxLimit],
      Property ''offset'' Ty_number True [IsOptional]
        ([IsInt, MinValue (whole 0)] @ (case maxOffset of None \<Rightarrow> [] | Some m \<Rightarrow> [MaxValue m]))]"

text \<open>The texts of the enumerations of \<open>kayan.dto.ts\<close>.\<close>

definition OrderStatus :: "string list" where
  "OrderStatus = [''received'', ''ready_to_ship'', ''on_the_way'', ''cancelled'', ''delivered'']"

definition FaultStatus :: "string list" where
  "FaultStatus = [''received'', ''assigned'', ''on_the_way'', ''in_progress'', ''finished'', ''cancelled'']"

definition ServiceStatus :: "string list" where
  "ServiceStatus = [''not_started'', ''in_progress'', ''cancelled'', ''finished'']"

definition FaultSeverity :: "string list" where
  "FaultSeverity = [''normal'', ''high'', ''urgent'', ''emergent'']"

definition ServiceType :: "string list" where
  "ServiceType = [''designing'', ''maintenance'', ''renewal'']"

definition ItemType :: "string list" where
  "ItemType = [''order'', ''fault'', ''service'']"

definition ProductAvailabilityFilter :: "string list" where
  "ProductAvailabilityFilter = [''active'', ''inactive'', ''all'']"

definition SortDirection :: "string list" where
  "SortDirection = [''asc'', ''desc'']"

definition ProductSortBy :: "string list" where
  "ProductSortBy = [''createdAt'', ''price'']"

definition OrderSortBy :: "string list" where
  "OrderSortBy = [''createdAt'']"

definition FaultSortBy :: "string list" where
  "FaultSortBy = [''createdAt'', ''severity'']"

definition ServiceSortBy :: "string list" where
  "ServiceSortBy = [''createdAt'']"

text \<open>The classes, file by file; \<open>extends\<close> puts the properties of the parent in front.\<close>

definition IdParamDto :: "property list" where
  "IdParamDto =
     [Property ''id'' Ty_number True [] [IsInt, MinValue (whole 1)]]"

definition KayanListPaginationQueryDto :: "property list" where
  "KayanListPaginationQueryDto = createOffsetPaginationQueryDto (whole 100) None"

definition KayanFollowupPaginationQueryDto :: "property list" where
  "KayanFollowupPaginationQueryDto = createOffsetPaginationQueryDto (whole 100) None"

definition ProductItemDto :: "property list" where
  "ProductItemDto =
     [Property ''productId'' Ty_number False [] [IsInt, MinValue (whole 1)],
      Property ''quantity'' Ty_number False [] [IsInt, MinValue (whole 1)]]"

definition AdminCreateProductDto :: "property list" where
  "AdminCreateProductDto =
     [Property ''title'' Ty_string False [] [IsString, IsNotEmpty],
      Property ''description'' Ty_string False [] [IsString, IsNotEmpty],
      Property ''amount'' Ty_number False [] [IsInt, MinValue (whole 0)],
      Property ''price'' Ty_number True [] [MinValue (whole 0)],
      Property ''details'' Ty_object False [IsOptional] [IsObject],
      Property ''imageFileIds'' Ty_array False [IsOptional] [IsArray, Each IsInt],
      Property ''fileIds'' Ty_array False [IsOptional] [IsArray, Each IsInt]]"

definition AdminUpdateProductDto :: "property list" where
  "AdminUpdateProductDto =
     [Property ''title'' Ty_string False [IsOptional] [IsString, IsNotEmpty],
      Property ''description'' Ty_string False [IsOptional] [IsString, IsNotEmpty],
      Property ''amount'' Ty_number False [IsOptional] [IsInt, MinValue (whole 0)],
      Property ''price'' Ty_number True [IsOptional] [MinValue (whole 0)],
      Property ''details'' Ty_object False [IsOptional] [IsObject],
      Property ''imageFileIds'' Ty_array False [IsOptional] [IsArray, Each IsInt],
      Property ''fileIds'' Ty_array False [IsOptional] [IsArray, Each IsInt],
      Property ''isActive'' Ty_boolean False [IsOptional] [IsBoolean]]"

definition ListProductsQueryDto :: "property list" where
  "ListProductsQueryDto =
     KayanListPaginationQueryDto @ [Property ''query'' Ty_string False [IsOptional] [IsString, IsNotEmpty],
      Property ''minPrice'' Ty_number True [IsOptional] [MinValue (whole 0)],
      Property ''maxPrice'' Ty_number True [IsOptional] [MinValue (whole 0)],
      Property ''fromDate'' Ty_string False [IsOptional] [IsDateString],
      Property ''toDate'' Ty_string False [IsOptional] [IsDateString],
      Property ''availability'' Ty_string False [IsOptional] [IsEnum ProductAvailabilityFilter],
      Property ''sortBy'' Ty_string False [IsOptional] [IsEnum ProductSortBy],
      Property ''sortDirection'' Ty_string False [IsOptional] [IsEnum SortDirection],
      Property ''minRate'' Ty_number True [IsOptional] [IsInt, MinValue (whole 1), MaxValue (whole 5)],
      Property ''maxRate'' Ty_number True [IsOptional] [IsInt, MinValue (whole 1), MaxValue (whole 5)]]"

definition CreateOrderDto :: "property list" where
  "CreateOrderDto =
     [Property ''deliveryAddress'' Ty_string False [] [IsString, IsNotEmpty],
      Property ''items'' Ty_array False [] [IsArray, Each (ValidateNested ProductItemDto)]]"

definition UpdateOrderAddressDto :: "property list" where
  "UpdateOrderAddressDto =
     [Property ''deliveryAddress'' Ty_string False [] [IsString, IsNotEmpty]]"

definition AdminUpdateOrderStatusDto :: "property list" where
  "AdminUpdateOrderStatusDto =
     [Property ''status'' Ty_string False [] [IsEnum OrderStatus]]"

definition ListOrdersQueryDto :: "property list" where
  "ListOrdersQueryDto =
     KayanListPaginationQueryDto @ [Property ''status'' Ty_string False [IsOptional] [IsEnum OrderStatus],
      Property ''fromDate'' Ty_string False [IsOptional] [IsDateString],
      Property ''toDate'' Ty_string False [IsOptional] [IsDateString],
      Property ''sortBy'' Ty_string False [IsOptional] [IsEnum OrderSortBy],
      Property ''sortDirection'' Ty_string False [IsOptional] [IsEnum SortDirection]]"

definition CreateCartItemDto :: "property list" where
  "CreateCartItemDto =
     [Property ''productId'' Ty_number False [] [IsInt, MinValue (whole 1)],
      Property ''quantity'' Ty_number False [] [IsInt, MinValue (whole 1)]]"

definition UpdateCartItemDto :: "property list" where
  "UpdateCartItemDto =
     [Property ''quantity'' Ty_number False [] [IsInt, MinValue (whole 1)]]"

definition CheckoutCartDto :: "property list" where
  "CheckoutCartDto =
     [Property ''deliveryAddress'' Ty_string False [] [IsString, IsNotEmpty]]"

definition CreateFaultDto :: "property list" where
  "CreateFaultDto =
     [Property ''title'' Ty_string False [] [IsString, IsNotEmpty],
      Property ''description'' Ty_string False [] [IsString, IsNotEmpty],
      Property ''severity'' Ty_string False [] [IsEnum FaultSeverity],
      Property ''address'' Ty_string False [] [IsString, IsNotEmpty],
      Property ''imageFileIds'' Ty_array False [IsOptional] [IsArray, Each IsInt]]"

definition UpdateFaultDto :: "property list" where
  "UpdateFaultDto =
     [Property ''title'' Ty_string False [IsOptional] [IsString, IsNotEmpty],
      Property ''description'' Ty_string False [IsOptional] [IsString, IsNotEmpty],
      Property ''severity'' Ty_string False [IsOptional] [IsEnum FaultSeverity],
      Property ''address'' Ty_string False [IsOptional] [IsString, IsNotEmpty],
      Property ''imageFileIds'' Ty_array False [IsOptional] [IsArray, Each IsInt]]"

definition AdminUpdateFaultStatusDto :: "property list" where
  "AdminUpdateFaultStatusDto =
     [Property ''status'' Ty_string False [] [IsEnum FaultStatus]]"

definition ListMyFaultsQueryDto :: "property list" where
  "ListMyFaultsQueryDto =
     KayanListPaginationQueryDto @ [Property ''status'' Ty_string False [IsOptional] [IsEnum FaultStatus],
      Property ''severity'' Ty_string False [IsOptional] [IsEnum FaultSeverity],
      Property ''fromDate'' Ty_string False [IsOptional] [IsDateString],
      Property ''toDate'' Ty_string False [IsOptional] [IsDateString],
      Property ''sortBy'' Ty_string False [IsOptional] [IsEnum FaultSortBy],
      Property ''sortDirection'' Ty_string False [IsOptional] [IsEnum SortDirection]]"

definition CreateServiceOrderDto :: "property list" where
  "CreateServiceOrderDto =
     [Property ''serviceType'' Ty_string False [] [IsEnum ServiceType],
      Property ''description'' Ty_string False [] [IsString, IsNotEmpty],
      Property ''address'' Ty_string False [] [IsString, IsNotEmpty]]"

definition UpdateServiceOrderDto :: "property list" where
  "UpdateServiceOrderDto =
     [Property ''description'' Ty_string False [IsOptional] [IsString, IsNotEmpty],
      Property ''address'' Ty_string False [IsOptional] [IsString, IsNotEmpty]]"

definition AdminUpdateServiceStatusDto :: "property list" where
  "AdminUpdateServiceStatusDto =
     [Property ''status'' Ty_string False [] [IsEnum ServiceStatus]]"

definition ListServicesQueryDto :: "property list" where
  "ListServicesQueryDto =
     KayanListPaginationQueryDto @ [Property ''serviceType'' Ty_string False [IsOptional] [IsEnum ServiceType],
      Property ''fromDate'' Ty_string False [IsOptional] [IsDateString],
      Property ''toDate'' Ty_string False [IsOptional] [IsDateString],
      Property ''sortBy'' Ty_string False [IsOptional] [IsEnum ServiceSortBy],
      Property ''sortDirection'' Ty_string False [IsOptional] [IsEnum SortDirection]]"

definition CreateFollowupStepDto :: "property list" where
  "CreateFollowupStepDto =
     [Property ''itemType'' Ty_string False [] [IsEnum ItemType],
      Property ''itemId'' Ty_number False [] [IsInt, MinValue (whole 1)],
      Property ''title'' Ty_string False [] [IsString, IsNotEmpty],
      Property ''stepImageFileId'' Ty_number False [IsOptional] [IsInt, MinValue (whole 1)],
      Property ''sortOrder'' Ty_number False [IsOptional] [IsInt, MinValue (whole 0)]]"

definition CreateFollowupStepBodyDto :: "property list" where
  "CreateFollowupStepBodyDto =
     [Property ''title'' Ty_string False [] [IsString, IsNotEmpty],
      Property ''stepImageFileId'' Ty_number False [IsOptional] [IsInt, MinValue (whole 1)],
      Property ''sortOrder'' Ty_number False [IsOptional] [IsInt, MinValue (whole 0)]]"

definition UpdateFollowupStepDto :: "property list" where
  "UpdateFollowupStepDto =
     [Property ''title'' Ty_string False [IsOptional] [IsString, IsNotEmpty],
      Property ''stepImageFileId'' Ty_number False [IsOptional] [IsInt, MinValue (whole 1)],
      Property ''sortOrder'' Ty_number False [IsOptional] [IsInt, MinValue (whole 0)]]"

definition CreateGalleryItemDto :: "property list" where
  "CreateGalleryItemDto =
     [Property ''title'' Ty_string False [] [IsString, IsNotEmpty],
      Property ''description'' Ty_string False [] [IsString, IsNotEmpty],
      Property ''imageFileIds'' Ty_array False [IsOptional] [IsArray, Each IsInt]]"

definition UpdateGalleryItemDto :: "property list" where
  "UpdateGalleryItemDto =
     [Property ''title'' Ty_string False [IsOptional] [IsString, IsNotEmpty],
      Property ''description'' Ty_string False [IsOptional] [IsString, IsNotEmpty],
      Property ''isActive'' Ty_boolean False [IsOptional] [IsBoolean],
      Property ''imageFileIds'' Ty_array False [IsOptional] [IsArray, Each IsInt]]"

definition CreateItemRatingDto :: "property list" where
  "CreateItemRatingDto =
     [Property ''itemType'' Ty_string False [] [IsEnum ItemType],
      Property ''itemId'' Ty_number False [ValidateIf (\<lambda>dto _. field dto ''itemType'' \<noteq> Str ''order'')] [IsInt, MinValue (whole 1)],
      Property ''orderId'' Ty_number False [ValidateIf (\<lambda>dto _. field dto ''itemType'' = Str ''order'')] [IsInt, MinValue (whole 1)],
      Property ''productId'' Ty_number False [ValidateIf (\<lambda>dto _. field dto ''itemType'' = Str ''order'')] [IsInt, MinValue (whole 1)],
      Property ''ratingValue'' Ty_number False [] [IsInt, MinValue (whole 1), MaxValue (whole 5)],
      Property ''comment'' Ty_string False [IsOptional] [IsString, MinValue (whole 1), MaxValue (whole 2000)]]"

definition CreateFollowupConversationDto :: "property list" where
  "CreateFollowupConversationDto =
     [Property ''itemType'' Ty_string False [] [IsEnum ItemType],
      Property ''itemId'' Ty_number False [] [IsInt, MinValue (whole 1)],
      Property ''adminId'' Ty_number False [IsOptional] [IsInt, MinValue (whole 1)]]"

definition CreateFollowupConversationBodyDto :: "property list" where
  "CreateFollowupConversationBodyDto =
     [Property ''adminId'' Ty_number False [IsOptional] [IsInt, MinValue (whole 1)]]"

definition SendFollowupMessageDto :: "property list" where
  "SendFollowupMessageDto =
     [Property ''messageText'' Ty_string False [] [IsString, IsNotEmpty]]"

definition ProductIdParamDto :: "property list" where
  "ProductIdParamDto =
     [Property ''id'' Ty_number True [] [IsInt, MinValue (whole 1)]]"

definition CartItemIdParamDto :: "property list" where
  "CartItemIdParamDto =
     [Property ''id'' Ty_number True [] [IsInt, MinValue (whole 1)]]"

definition OrderIdParamDto :: "property list" where
  "OrderIdParamDto =
     [Property ''id'' Ty_number True [] [IsInt, MinValue (whole 1)]]"

definition FaultIdParamDto :: "property list" where
  "FaultIdParamDto =
     [Property ''id'' Ty_number True [] [IsInt, MinValue (whole 1)]]"

definition ServiceIdParamDto :: "property list" where
  "ServiceIdParamDto =
     [Property ''id'' Ty_number True [] [IsInt, MinValue (whole 1)]]"

definition GalleryIdParamDto :: "property list" where
  "GalleryIdParamDto =
     [Property ''id'' Ty_number True [] [IsInt, MinValue (whole 1)]]"

definition FollowupScopeParamDto :: "property list" where
  "FollowupScopeParamDto =
     [Property ''itemType'' Ty_string False [] [IsEnum ItemType],
      Property ''itemId'' Ty_number True [] [IsInt, MinValue (whole 1)]]"

definition FollowupConversationMessagesParamDto :: "property list" where
  "FollowupConversationMessagesParamDto =
     FollowupScopeParamDto @ [Property ''id'' Ty_number True [] [IsInt, MinValue (whole 1)]]"

definition FollowupStepParamDto :: "property list" where
  "FollowupStepParamDto =
     FollowupScopeParamDto @ [Property ''id'' Ty_number True [] [IsInt, MinValue (whole 1)]]"

definition ListGalleryQueryDto :: "property list" where
  "ListGalleryQueryDto =
     KayanListPaginationQueryDto @ [Property ''query'' Ty_string False [IsOptional] [IsString, IsNotEmpty]]"

definition ListFollowupStepsQueryDto :: "property list" where
  "ListFollowupStepsQueryDto =
     KayanFollowupPaginationQueryDto"

definition GetItemReviewsQueryDto :: "property list" where
  "GetItemReviewsQueryDto =
     KayanListPaginationQueryDto @ [Property ''itemType'' Ty_string False [] [IsEnum ItemType]]"

definition ItemIdParamDto :: "property list" where
  "ItemIdParamDto =
     [Property ''itemId'' Ty_number True [] [IsInt, MinValue (whole 1)]]"

definition ListAdminFaultsQueryDto :: "property list" where
  "ListAdminFaultsQueryDto =
     KayanListPaginationQueryDto @ [Property ''status'' Ty_string False [IsOptional] [IsEnum FaultStatus],
      Property ''severity'' Ty_string False [IsOptional] [IsEnum FaultSeverity],
      Property ''fromDate'' Ty_string False [IsOptional] [IsDateString],
      Property ''toDate'' Ty_string False [IsOptional] [IsDateString],
      Property ''sortBy'' Ty_string False [IsOptional] [IsEnum FaultSortBy],
      Property ''sortDirection'' Ty_string False [IsOptional] [IsEnum SortDirection]]"

definition RequestRegistrationOtpDto :: "property list" where
  "RequestRegistrationOtpDto =
     [Property ''name'' Ty_string False [] [IsString, IsNotEmpty, Length 2 150],
      Property ''email'' Ty_string False [] [IsEmail],
      Property ''phone'' Ty_string False [] [IsString, IsNotEmpty, Length 7 32],
      Property ''password'' Ty_string False [] [IsString, Length 8 64, Matches letters_and_digits],
      Property ''address'' Ty_string False [IsOptional] [IsString, Length 1 500]]"

definition VerifyRegistrationOtpDto :: "property list" where
  "VerifyRegistrationOtpDto =
     [Property ''email'' Ty_string False [] [IsEmail],
      Property ''otp'' Ty_string False [] [IsString, Length 4 8]]"

definition ResendRegistrationOtpDto :: "property list" where
  "ResendRegistrationOtpDto =
     [Property ''email'' Ty_string False [] [IsEmail]]"

definition LoginDto :: "property list" where
  "LoginDto =
     [Property ''email'' Ty_string False [] [IsEmail],
      Property ''password'' Ty_string False [] [IsString, Length 8 64]]"

definition RefreshTokenDto :: "property list" where
  "RefreshTokenDto =
     [Property ''refreshToken'' Ty_string False [] [IsString]]"

definition LogoutDto :: "property list" where
  "LogoutDto =
     [Property ''refreshToken'' Ty_string False [] [IsString, IsNotEmpty]]"

definition RequestPasswordResetOtpDto :: "property list" where
  "RequestPasswordResetOtpDto =
     [Property ''email'' Ty_string False [] [IsEmail]]"

definition ResetPasswordDto :: "property list" where
  "ResetPasswordDto =
     [Property ''email'' Ty_string False [] [IsEmail],
      Property ''otp'' Ty_string False [] [IsString, Length 4 8],
      Property ''newPassword'' Ty_string False [] [IsString, Length 8 64, Matches letters_and_digits],
      Property ''confirmPassword'' Ty_string False [] [IsString, Length 8 64]]"

definition UpdateProfileDto :: "property list" where
  "UpdateProfileDto =
     [Property ''name'' Ty_string False [IsOptional] [IsString, Length 2 150],
      Property ''avatarFileId'' Ty_number False [IsOptional] [IsNumber],
      Property ''contactInfo'' Ty_string False [IsOptional] [IsString, Length 1 255],
      Property ''phone'' Ty_string False [IsOptional] [IsString, Length 7 32],
      Property ''address'' Ty_string False [IsOptional] [IsString, Length 1 500]]"

definition ChangePasswordDto :: "property list" where
  "ChangePasswordDto =
     [Property ''oldPassword'' Ty_string False [] [IsString, Length 8 64],
      Property ''newPassword'' Ty_string False [] [IsString, Length 8 64, Matches letters_and_digits]]"

definition GetPublicUserQueryDtoBase :: "property list" where
  "GetPublicUserQueryDtoBase = createOffsetPaginationQueryDto (whole 50) None"

definition GetPublicUserQueryDto :: "property list" where
  "GetPublicUserQueryDto =
     GetPublicUserQueryDtoBase"

definition ListUsersQueryDtoBase :: "property list" where
  "ListUsersQueryDtoBase = createOffsetPaginationQueryDto (whole 100) (Some (whole 10000))"

definition ListUsersQueryDto :: "property list" where
  "ListUsersQueryDto =
     ListUsersQueryDtoBase @ [Property ''status'' Ty_string False [IsOptional] [IsEnum [''active'', ''paused'', ''banned'']],
      Property ''q'' Ty_string False [IsOptional] [IsString, Length 1 100]]"

definition ListUserListingsQueryDtoBase :: "property list" where
  "ListUserListingsQueryDtoBase = createOffsetPaginationQueryDto (whole 100) (Some (whole 10000))"

definition ListUserListingsQueryDto :: "property list" where
  "ListUserListingsQueryDto =
     ListUserListingsQueryDtoBase @ [Property ''status'' Ty_string False [IsOptional] [IsEnum [''available'', ''sold'']]]"

definition ListAdminPaginationQueryDtoBase :: "property list" where
  "ListAdminPaginationQueryDtoBase = createOffsetPaginationQueryDto (whole 100) (Some (whole 10000))"

definition ListAdminPaginationQueryDto :: "property list" where
  "ListAdminPaginationQueryDto =
     ListAdminPaginationQueryDtoBase"

definition UpdateUserStatusDto :: "property list" where
  "UpdateUserStatusDto =
     [Property ''status'' Ty_string False [] [IsEnum [''active'', ''paused'', ''banned'']]]"

definition CreateWarningDto :: "property list" where
  "CreateWarningDto =
     [Property ''targetUserId'' Ty_number False [] [IsInt, MinValue (whole 1)],
      Property ''message'' Ty_string False [] [IsString, Length 2 2000]]"

definition CreateProductDto :: "property list" where
  "CreateProductDto =
     [Property ''category'' Ty_string False [] [IsString, IsValidProductCategory],
      Property ''subcategory'' Ty_string False [IsOptional, ValidateIf (\<lambda>_ x. x \<noteq> Null)] [IsString, IsValidSubcategoryForCategory ''category'' False],
      Property ''name'' Ty_string False [] [IsString, Length 1 255],
      Property ''description'' Ty_string False [] [IsString, Length 1 5000],
      Property ''price'' Ty_number False [] [IsNumber, MinValue (whole 0), MaxValue (Dec 999999999999 2)],
      Property ''city'' Ty_string False [] [IsString, Length 1 255],
      Property ''addressText'' Ty_string False [] [IsString, Length 1 1000],
      Property ''details'' Ty_object False [IsOptional] [IsObject],
      Property ''imageFileIds'' Ty_array False [IsOptional] [IsArray, ArrayMaxSize 10, Each IsNumber],
      Property ''isNegotiable'' Ty_boolean False [IsOptional] [IsBoolean],
      Property ''preferredContactMethod'' Ty_string False [IsOptional] [IsEnum [''phone'', ''chat'', ''both'']]]"

definition UpdateProductDto :: "property list" where
  "UpdateProductDto =
     [Property ''category'' Ty_string False [IsOptional] [IsString, IsValidProductCategory],
      Property ''subcategory'' Ty_string False [IsOptional, ValidateIf (\<lambda>_ x. x \<noteq> Null)] [IsString, IsValidSubcategoryForCategory ''category'' False],
      Property ''name'' Ty_string False [IsOptional] [IsString, Length 1 255],
      Property ''description'' Ty_string False [IsOptional] [IsString, Length 1 5000],
      Property ''price'' Ty_number False [IsOptional] [IsNumber, MinValue (whole 0), MaxValue (Dec 999999999999 2)],
      Property ''city'' Ty_string False [IsOptional] [IsString, Length 1 255],
      Property ''addressText'' Ty_string False [IsOptional] [IsString, Length 1 1000],
      Property ''details'' Ty_object False [IsOptional] [IsObject],
      Property ''imageFileIds'' Ty_array False [IsOptional] [IsArray, ArrayMaxSize 10, Each IsNumber],
      Property ''isNegotiable'' Ty_boolean False [IsOptional] [IsBoolean],
      Property ''preferredContactMethod'' Ty_string False [IsOptional] [IsEnum [''phone'', ''chat'', ''both'']]]"

definition UpdateProductStatusDto :: "property list" where
  "UpdateProductStatusDto =
     [Property ''status'' Ty_string False [] [IsEnum [''available'', ''sold'', ''archived'']]]"

definition SearchProductsDtoBase :: "property list" where
  "SearchProductsDtoBase = createOffsetPaginationQueryDto (whole 100) None"

definition SearchProductsDto :: "(string \<Rightarrow> num_value) \<Rightarrow> property list" where
  "SearchProductsDto date =
     SearchProductsDtoBase @ [Property ''category'' Ty_string False [IsOptional] [IsString, IsValidProductCategory],
      Property ''subcategory'' Ty_string False [IsOptional] [IsString, IsEnum PRODUCT_SUBCATEGORIES, IsValidSubcategoryForCategory ''category'' True],
      Property ''minPrice'' Ty_number False [IsOptional] [IsNumber, MinValue (whole 0)],
      Property ''maxPrice'' Ty_number False [IsOptional] [IsNumber, MinValue (whole 0)],
      Property ''fromDate'' Ty_string False [IsOptional] [IsDateString],
      Property ''toDate'' Ty_string False [IsOptional] [IsDateString, IsNotAfter date ''fromDate''],
      Property ''minRate'' Ty_number False [IsOptional] [IsNumber, MinValue (whole 0), MaxValue (whole 5)],
      Property ''city'' Ty_string False [IsOptional] [IsString],
      Property ''addressText'' Ty_string False [IsOptional] [IsString],
      Property ''q'' Ty_string False [IsOptional] [IsString],
      Property ''sortBy'' Ty_string False [IsOptional] [IsEnum [''price'', ''address'', ''rate'', ''created'']],
      Property ''sortDir'' Ty_string False [IsOptional] [IsEnum [''asc'', ''desc'']]]"

definition ListMyProductsDto :: "(string \<Rightarrow> num_value) \<Rightarrow> property list" where
  "ListMyProductsDto date =
     SearchProductsDto date @ [Property ''status'' Ty_string False [IsOptional] [IsEnum [''available'', ''sold'', ''archived'']]]"

definition CreateRatingDto :: "property list" where
  "CreateRatingDto =
     [Property ''ratedUserId'' Ty_number False [] [IsInt, MinValue (whole 1)],
      Property ''ratingValue'' Ty_number False [] [IsInt, MinValue (whole 1), MaxValue (whole 5)],
      Property ''comment'' Ty_string False [IsOptional] [IsString, Length 1 2000]]"

definition UserIdParamDto :: "property list" where
  "UserIdParamDto =
     [Property ''userId'' Ty_number True [] [IsInt, MinValue (whole 1)]]"

definition CreateUploadIntentDto :: "property list" where
  "CreateUploadIntentDto =
     [Property ''ownerType'' Ty_string False [] [IsEnum [''user'', ''product'', ''message'']],
      Property ''ownerId'' Ty_number False [IsOptional] [IsNumber, MinValue (whole 1)],
      Property ''purpose'' Ty_string False [] [IsEnum [''avatar'', ''product_image'', ''chat_attachment'', ''document'']],
      Property ''filename'' Ty_string False [] [IsString, Length 1 255],
      Property ''mimeType'' Ty_string False [] [IsIn [''image/jpeg'', ''image/png'', ''image/webp'', ''image/gif'', ''video/mp4'', ''video/quicktime'', ''video/webm'', ''video/x-msvideo'', ''audio/mpeg'', ''audio/wav'', ''audio/ogg'', ''audio/webm'', ''application/pdf'', ''application/msword'', ''application/vnd.openxmlformats-officedocument.wordprocessingml.document'', ''application/vnd.ms-excel'', ''application/vnd.openxmlformats-officedocument.spreadsheetml.sheet'', ''application/zip'']],
      Property ''fileSizeBytes'' Ty_number False [IsOptional] [IsNumber, MinValue (whole 0), MaxValue (whole (50 * 1024 * 1024))]]"

definition MarkUploadedDto :: "property list" where
  "MarkUploadedDto =
     [Property ''checksumSha256'' Ty_string False [IsOptional] [IsString, Length 64 64]]"

definition CreateConversationDto :: "property list" where
  "CreateConversationDto =
     [Property ''participantId'' Ty_number False [] [IsNumber, MinValue (whole 1)],
      Property ''productId'' Ty_number False [IsOptional] [IsNumber, MinValue (whole 1)]]"

definition ListConversationsDtoBase :: "property list" where
  "ListConversationsDtoBase = createOffsetPaginationQueryDto (whole 100) None"

definition ListConversationsDto :: "property list" where
  "ListConversationsDto =
     ListConversationsDtoBase @ [Property ''scope'' Ty_string False [IsOptional] [IsEnum [''all'', ''buy'', ''sell'']]]"

definition ListMessagesDto :: "property list" where
  "ListMessagesDto =
     [Property ''limit'' Ty_number False [IsOptional] [IsNumber, MinValue (whole 1), MaxValue (whole 100)],
      Property ''before'' Ty_string False [IsOptional] [IsDateString]]"

definition JoinConversationDto :: "property list" where
  "JoinConversationDto =
     [Property ''conversationId'' Ty_number False [] [IsInt, MinValue (whole 1)]]"

definition SendMessageDto :: "property list" where
  "SendMessageDto =
     [Property ''conversationId'' Ty_number False [] [IsInt, MinValue (whole 1)],
      Property ''text'' Ty_string False [] [IsString, Length 1 4000]]"

definition MarkMessageReadDto :: "property list" where
  "MarkMessageReadDto =
     [Property ''messageId'' Ty_number False [] [IsInt, MinValue (whole 1)]]"

section \<open>The library\<close>

text \<open>
  \<open>vd_holds check object value\<close> is the outcome of one decorator, \<open>vd_convert\<close> the conversion of a body to an instance of
  a class, and \<open>vd_pipe\<close> the pipe: the instance, or nothing when the answer is 400.
\<close>

record validation =
  vd_holds :: "check \<Rightarrow> js \<Rightarrow> js \<Rightarrow> bool"
  vd_convert :: "property list \<Rightarrow> js \<Rightarrow> js"
  vd_pipe :: "property list \<Rightarrow> js \<Rightarrow> js option"

fun condition_holds :: "js \<Rightarrow> js \<Rightarrow> condition \<Rightarrow> bool" where
  "condition_holds obj x IsOptional \<longleftrightarrow> \<not> nullish x"
| "condition_holds obj x (ValidateIf p) \<longleftrightarrow> p obj x"

fun property_ok :: "(check \<Rightarrow> js \<Rightarrow> js \<Rightarrow> bool) \<Rightarrow> js \<Rightarrow> property \<Rightarrow> bool" where
  "property_ok holds obj (Property n _ _ cs checks) \<longleftrightarrow>
     (list_all (condition_holds obj (field obj n)) cs \<longrightarrow> list_all (\<lambda>c. holds c obj (field obj n)) checks)"

fun own_keys :: "js \<Rightarrow> string list" where
  "own_keys (Obj kvs) = map fst kvs"
| "own_keys _ = []"

text \<open>\<open>whitelist\<close> with \<open>forbidNonWhitelisted\<close>: a property the class does not declare is refused.\<close>

definition valid_instance :: "(check \<Rightarrow> js \<Rightarrow> js \<Rightarrow> bool) \<Rightarrow> property list \<Rightarrow> js \<Rightarrow> bool" where
  "valid_instance holds cls obj \<longleftrightarrow>
     list_all (property_ok holds obj) cls \<and> list_all (\<lambda>k. k \<in> set (map name_of cls)) (own_keys obj)"

text \<open>\<open>enableImplicitConversion\<close> on the primitive types.\<close>

fun converted :: "ts_type \<Rightarrow> js \<Rightarrow> js" where
  "converted Ty_string x = (if nullish x then x else Str (js_String x))"
| "converted Ty_number x = (if nullish x then x else Num (js_toNumber x))"
| "converted _ x = x"

definition documented :: "validation \<Rightarrow> bool" where
  "documented v \<longleftrightarrow>
     (\<forall>cls body. vd_pipe v cls body =
        (if valid_instance (vd_holds v) cls (vd_convert v cls body) then Some (vd_convert v cls body) else None)) \<and>
     (\<forall>cls kvs. list_all (\<lambda>(k, _). list_ex (\<lambda>p. name_of p = k \<and> type_of p \<in> {Ty_string, Ty_number}) cls) kvs \<longrightarrow>
        vd_convert v cls (Obj kvs) =
          Obj (map (\<lambda>(k, x). (k, case find (\<lambda>p. name_of p = k) cls of None \<Rightarrow> x | Some p \<Rightarrow> converted (type_of p) x)) kvs)) \<and>
     (\<forall>obj x. vd_holds v IsString obj x = (\<exists>t. x = Str t)) \<and>
     (\<forall>obj x. vd_holds v IsInt obj x = (\<exists>a n. x = Num a \<and> to_integer a = Some n)) \<and>
     (\<forall>m obj x. vd_holds v (MinValue m) obj x \<or> vd_holds v (MaxValue m) obj x \<longrightarrow> (\<exists>a. x = Num a)) \<and>
     (\<forall>m obj a. is_finite a \<longrightarrow> vd_holds v (MinValue m) obj (Num a) = num_le m a) \<and>
     (\<forall>m obj a. is_finite a \<longrightarrow> vd_holds v (MaxValue m) obj (Num a) = num_le a m) \<and>
     (\<forall>lo hi obj x. vd_holds v (Length lo hi) obj x = (\<exists>t. x = Str t \<and> lo \<le> length t \<and> length t \<le> hi)) \<and>
     (\<forall>p obj x. vd_holds v (Matches p) obj x = (\<exists>t. x = Str t \<and> p t)) \<and>
     (\<forall>xs obj x. vd_holds v (IsEnum xs) obj x = (\<exists>t. x = Str t \<and> List.member xs t)) \<and>
     (\<forall>p obj x. vd_holds v (Registered p) obj x = p obj x)"


lemma documentedD:
  assumes "documented v"
  shows "vd_holds v IsString obj x = (\<exists>t. x = Str t)"
    "vd_holds v IsInt obj x = (\<exists>a n. x = Num a \<and> to_integer a = Some n)"
    "vd_holds v (MinValue m) obj x \<Longrightarrow> \<exists>a. x = Num a" "vd_holds v (MaxValue m) obj x \<Longrightarrow> \<exists>a. x = Num a"
    "is_finite a \<Longrightarrow> vd_holds v (MinValue m) obj (Num a) = num_le m a"
    "is_finite a \<Longrightarrow> vd_holds v (MaxValue m) obj (Num a) = num_le a m"
    "vd_holds v (Length lo hi) obj x = (\<exists>t. x = Str t \<and> lo \<le> length t \<and> length t \<le> hi)"
    "vd_holds v (Matches p) obj x = (\<exists>t. x = Str t \<and> p t)"
    "vd_holds v (IsEnum xs) obj x = (\<exists>t. x = Str t \<and> List.member xs t)"
    "vd_holds v (Registered f) obj x = f obj x"
  using assms unfolding documented_def by simp_all

lemma accepted:
  assumes "documented v"
  shows "vd_pipe v cls body = Some obj \<longleftrightarrow> obj = vd_convert v cls body \<and> valid_instance (vd_holds v) cls obj"
  using assms unfolding documented_def by simp metis

lemma accepted_check:
  assumes "documented v" and "vd_pipe v cls body = Some obj" and "Property n ty typed cs checks \<in> set cls"
    and "list_all (condition_holds obj (field obj n)) cs" and "c \<in> set checks"
  shows "vd_holds v c obj (field obj n)"
  using assms by (fastforce simp: accepted valid_instance_def list_all_iff)

lemma convert_typed:
  assumes "documented v"
    and "list_all (\<lambda>(k, _). list_ex (\<lambda>p. name_of p = k \<and> type_of p \<in> {Ty_string, Ty_number}) cls) kvs"
  shows "vd_convert v cls (Obj kvs) =
    Obj (map (\<lambda>(k, x). (k, case find (\<lambda>p. name_of p = k) cls of None \<Rightarrow> x | Some p \<Rightarrow> converted (type_of p) x)) kvs)"
  using assms unfolding documented_def by simp

text \<open>The arguments a method receives: an absent property is \<open>undefined\<close>.\<close>

definition int_of :: "js \<Rightarrow> int option" where
  "int_of x = (case x of Num a \<Rightarrow> to_integer a | _ \<Rightarrow> None)"

definition text_of :: "js \<Rightarrow> string option" where
  "text_of x = (case x of Str t \<Rightarrow> Some t | _ \<Rightarrow> None)"

definition page_query_of :: "js \<Rightarrow> page_query" where
  "page_query_of obj = \<lparr>pq_page = int_of (field obj ''page''), pq_limit = int_of (field obj ''limit''),
     pq_offset = int_of (field obj ''offset'')\<rparr>"

definition item_rating_of :: "js \<Rightarrow> create_item_rating_dto" where
  "item_rating_of obj = \<lparr>
     nir_itemType = (if field obj ''itemType'' = Str ''order'' then Item_ORDER
       else if field obj ''itemType'' = Str ''fault'' then Item_FAULT else Item_SERVICE),
     nir_itemId = int_of (field obj ''itemId''), nir_orderId = int_of (field obj ''orderId''),
     nir_productId = int_of (field obj ''productId''),
     nir_ratingValue = coalesce (int_of (field obj ''ratingValue'')) 0,
     nir_comment = text_of (field obj ''comment'')\<rparr>"

section \<open>Integers in range\<close>

lemma to_integer_Dec: "to_integer a = Some n \<Longrightarrow> \<exists>k. a = Dec (n * 10 ^ k) k"
  by (auto simp: to_integer_def split: num_value.split_asm if_split_asm)

lemma num_le_integer:
  assumes "to_integer a = Some n"
  shows "is_finite a" "num_le (whole m) a \<longleftrightarrow> m \<le> n" "num_le a (whole m) \<longleftrightarrow> n \<le> m"
  using to_integer_Dec [OF assms] by (auto simp: whole_def is_finite_def)

lemma int_in_range:
  assumes v: "documented v" and "vd_holds v IsInt obj x"
  obtains a n where "x = Num a" "int_of x = Some n"
    "\<And>m. vd_holds v (MinValue (whole m)) obj x \<longleftrightarrow> m \<le> n"
    "\<And>m. vd_holds v (MaxValue (whole m)) obj x \<longleftrightarrow> n \<le> m"
proof -
  obtain a n where x: "x = Num a" "to_integer a = Some n" using assms documentedD(2) [OF v] by auto
  then show thesis
    using that [of a n] documentedD(5,6) [OF v num_le_integer(1) [OF x(2)]] num_le_integer(2,3) [OF x(2)]
    by (simp add: int_of_def)
qed

section \<open>Paging\<close>

lemma num_nullish [simp]: "\<not> nullish (Num a)" "\<not> nullish (Str t)" "int_of (Num a) = to_integer a"
  "int_of Undefined = None" "int_of Null = None"
  by (simp_all add: nullish_def int_of_def)

lemma int_of_number: "int_of x = Some n \<Longrightarrow> \<exists>a. x = Num a \<and> to_integer a = Some n"
  by (auto simp: int_of_def split: js.split_asm)

lemma optional_int:
  assumes v: "documented v" and pipe: "vd_pipe v cls body = Some obj"
    and p: "Property k ty typed [IsOptional] (IsInt # checks) \<in> set cls" and n: "int_of (field obj k) = Some n"
  shows "MinValue (whole m) \<in> set checks \<Longrightarrow> m \<le> n" "MaxValue (whole m) \<in> set checks \<Longrightarrow> n \<le> m"
proof -
  obtain a where a: "field obj k = Num a" "to_integer a = Some n" using int_of_number [OF n] by blast
  have c: "list_all (condition_holds obj (field obj k)) [IsOptional]" by (simp add: a)
  note holds = accepted_check [OF v pipe p c] and le = num_le_integer [OF a(2)]
  show "m \<le> n" if "MinValue (whole m) \<in> set checks"
    using holds [of "MinValue (whole m)"] that documentedD(5) [OF v le(1)] le(2) by (simp add: a)
  show "n \<le> m" if "MaxValue (whole m) \<in> set checks"
    using holds [of "MaxValue (whole m)"] that documentedD(6) [OF v le(1)] le(3) by (simp add: a)
qed

lemma page_query_accepted:
  assumes v: "documented v" and pipe: "vd_pipe v cls body = Some obj"
    and sub: "set (createOffsetPaginationQueryDto (whole maxLimit) maxOffset) \<subseteq> set cls"
  shows "valid_page_query maxLimit (page_query_of obj)"
    "maxOffset = Some (whole cap) \<Longrightarrow> pq_offset (page_query_of obj) = Some k \<Longrightarrow> k \<le> cap"
proof -
  note int = optional_int [OF v pipe]
  have "1 \<le> n" if "int_of (field obj ''page'') = Some n" for n
    by (rule int(1) [OF _ that]) (use sub in \<open>auto simp: createOffsetPaginationQueryDto_def\<close>)
  moreover have "1 \<le> n" if "int_of (field obj ''limit'') = Some n" for n
    by (rule int(1) [OF _ that]) (use sub in \<open>auto simp: createOffsetPaginationQueryDto_def\<close>)
  moreover have "n \<le> maxLimit" if "int_of (field obj ''limit'') = Some n" for n
    by (rule int(2) [OF _ that]) (use sub in \<open>auto simp: createOffsetPaginationQueryDto_def\<close>)
  moreover have "0 \<le> n" if "int_of (field obj ''offset'') = Some n" for n
    by (rule int(1) [OF _ that]) (use sub in \<open>auto simp: createOffsetPaginationQueryDto_def\<close>)
  ultimately show "valid_page_query maxLimit (page_query_of obj)"
    by (simp add: valid_page_query_def page_query_of_def)
  show "k \<le> cap" if "maxOffset = Some (whole cap)" "pq_offset (page_query_of obj) = Some k"
  proof (rule int(2))
    show "int_of (field obj ''offset'') = Some k" using that(2) by (simp add: page_query_of_def)
    show "Property ''offset'' Ty_number True [IsOptional] (IsInt # [MinValue (whole 0), MaxValue (whole cap)]) \<in> set cls"
      using sub that(1) by (auto simp: createOffsetPaginationQueryDto_def)
  qed simp
qed

text \<open>Every class of a list query, with its page limit and the cap on its offset.\<close>

definition list_dtos :: "(string \<Rightarrow> num_value) \<Rightarrow> (property list \<times> int \<times> int option) list" where
  "list_dtos date =
     [(ListProductsQueryDto, 100, None), (ListOrdersQueryDto, 100, None), (ListMyFaultsQueryDto, 100, None),
      (ListAdminFaultsQueryDto, 100, None), (ListServicesQueryDto, 100, None), (ListGalleryQueryDto, 100, None),
      (ListFollowupStepsQueryDto, 100, None), (GetItemReviewsQueryDto, 100, None),
      (GetPublicUserQueryDto, 50, None), (ListConversationsDto, 100, None),
      (SearchProductsDto date, 100, None), (ListMyProductsDto date, 100, None),
      (ListUsersQueryDto, 100, Some 10000), (ListUserListingsQueryDto, 100, Some 10000),
      (ListAdminPaginationQueryDto, 100, Some 10000)]"

lemma list_dtos_paged:
  assumes "(cls, maxLimit, cap) \<in> set (list_dtos date)"
  shows "set (createOffsetPaginationQueryDto (whole maxLimit) (map_option whole cap)) \<subseteq> set cls \<and> 1 \<le> maxLimit"
  using assms
  by (auto simp: list_dtos_def ListProductsQueryDto_def ListOrdersQueryDto_def ListMyFaultsQueryDto_def
    ListAdminFaultsQueryDto_def ListServicesQueryDto_def ListGalleryQueryDto_def ListFollowupStepsQueryDto_def
    GetItemReviewsQueryDto_def GetPublicUserQueryDto_def ListConversationsDto_def SearchProductsDto_def
    ListMyProductsDto_def ListUsersQueryDto_def ListUserListingsQueryDto_def ListAdminPaginationQueryDto_def
    KayanListPaginationQueryDto_def KayanFollowupPaginationQueryDto_def GetPublicUserQueryDtoBase_def
    ListConversationsDtoBase_def SearchProductsDtoBase_def ListUsersQueryDtoBase_def
    ListUserListingsQueryDtoBase_def ListAdminPaginationQueryDtoBase_def)

text \<open>
  C38: Whatever list is asked for, an accepted query yields a page of at least one and at most the declared number of
  rows (100, for a public profile 50), at an offset that is not negative; an offset given outright is within the
  cap of its class.
\<close>

theorem pages_bounded:
  assumes v: "documented v" and cls: "(cls, maxLimit, cap) \<in> set (list_dtos date)"
    and pipe: "vd_pipe v cls body = Some obj" and "1 \<le> d"
    and "resolveOffsetPagination (page_query_of obj) (Some d) maxLimit = (lim, off)"
  shows "1 \<le> lim \<and> lim \<le> maxLimit \<and> 0 \<le> off \<and>
    (\<forall>k c. cap = Some c \<longrightarrow> pq_offset (page_query_of obj) = Some k \<longrightarrow> off = k \<and> k \<le> c)"
proof -
  have sub: "set (createOffsetPaginationQueryDto (whole maxLimit) (map_option whole cap)) \<subseteq> set cls" and "1 \<le> maxLimit"
    using list_dtos_paged [OF cls] by simp_all
  moreover note page_query_accepted [OF v pipe sub]
  ultimately show ?thesis
    using resolve_bounds [of maxLimit "page_query_of obj" d lim off] assms(4,5)
    by (auto simp: resolveOffsetPagination_def Let_def)
qed

text \<open>
  The cap on the offset of the administrators' lists does not cap it: the query \<open>page=p\<close> is accepted for every
  \<open>p\<close> from 1 and reads from row \<open>(p - 1) * 20\<close> on.
\<close>

theorem offset_cap_by_page:
  assumes v: "documented v" and "1 \<le> p"
  shows "\<exists>obj. vd_pipe v ListUsersQueryDto (Obj [(''page'', Str (show_int p))]) = Some obj \<and>
    resolveOffsetPagination (page_query_of obj) (Some default_page_size) 100 = (20, (p - 1) * 20)"
proof -
  let ?obj = "Obj [(''page'', Num (whole p))]"
  have conv: "vd_convert v ListUsersQueryDto (Obj [(''page'', Str (show_int p))]) = ?obj"
    using assms(2) by (subst convert_typed [OF v])
      (simp_all add: ListUsersQueryDto_def ListUsersQueryDtoBase_def createOffsetPaginationQueryDto_def nullish_def js_Number_show js_toNumber_def)
  have f: "field ?obj ''page'' = Num (whole p)" "k \<noteq> ''page'' \<Longrightarrow> field ?obj k = Undefined" for k
    by (simp_all add: field_def)
  have le: "is_finite (whole p)" "num_le (whole 1) (whole p)"
    using num_le_integer [OF to_integer_whole [of p]] assms(2) by simp_all
  have "valid_instance (vd_holds v) ListUsersQueryDto ?obj"
    using documentedD(2,5) [OF v] le
    by (simp add: valid_instance_def ListUsersQueryDto_def ListUsersQueryDtoBase_def createOffsetPaginationQueryDto_def f)
       (simp add: nullish_def)
  then have "vd_pipe v ListUsersQueryDto (Obj [(''page'', Str (show_int p))]) = Some ?obj"
    by (simp add: accepted [OF v] conv)
  moreover have "resolveOffsetPagination (page_query_of ?obj) (Some default_page_size) 100 = (20, (p - 1) * 20)"
    using assms(2) by (simp add: page_query_of_def f resolveOffsetPagination_def default_page_size_def)
  ultimately show ?thesis by blast
qed

section \<open>Ratings\<close>

fun rating_comment :: "rating \<Rightarrow> string option" where
  "rating_comment (Product_rating r) = pr_comment r"
| "rating_comment (Item_rating r) = ir_comment r"

lemma createItemRating_comment: "fst (createItemRating user dto s) = Inr r \<Longrightarrow> rating_comment r = nir_comment dto"
  by (auto simp: createItemRating_def insert_product_rating_def insert_item_rating_def Let_def
    split: if_split_asm sum.split_asm prod.split_asm option.split_asm)

text \<open>
  C37: A rating that passes the validation has the ids its type needs and a value from 1 to 5, and never a comment: the
  property is declared a string and checked with \<open>@Min(1) @Max(2000)\<close>, which hold of numbers only. So no rating
  stored by a request has one.
\<close>

theorem rating_comment_refused:
  assumes v: "documented v" and pipe: "vd_pipe v CreateItemRatingDto body = Some obj"
  shows "nir_comment (item_rating_of obj) = None \<and>
    1 \<le> nir_ratingValue (item_rating_of obj) \<and> nir_ratingValue (item_rating_of obj) \<le> 5 \<and>
    (if nir_itemType (item_rating_of obj) = Item_ORDER
     then nir_orderId (item_rating_of obj) \<noteq> None \<and> nir_productId (item_rating_of obj) \<noteq> None
     else nir_itemId (item_rating_of obj) \<noteq> None) \<and>
    (case fst (createItemRating user (item_rating_of obj) s) of Inl _ \<Rightarrow> True | Inr r \<Rightarrow> rating_comment r = None)"
proof -
  note check = accepted_check [OF v pipe, unfolded CreateItemRatingDto_def]
  have "nullish (field obj ''comment'')"
  proof (rule ccontr)
    assume "\<not> nullish (field obj ''comment'')"
    then have "vd_holds v IsString obj (field obj ''comment'')"
      "vd_holds v (MinValue (whole 1)) obj (field obj ''comment'')"
      using check [of "''comment''" Ty_string False "[IsOptional]"] by simp_all
    then show False using documentedD(1,3) [OF v] by fastforce
  qed
  then have comment: "nir_comment (item_rating_of obj) = None"
    by (auto simp: item_rating_of_def nullish_def text_of_def)
  have "vd_holds v c obj (field obj ''ratingValue'')" if "c \<in> {IsInt, MinValue (whole 1), MaxValue (whole 5)}" for c
    using check [of "''ratingValue''" Ty_number False "[]"] that by auto
  then obtain n where "int_of (field obj ''ratingValue'') = Some n" "1 \<le> n" "n \<le> 5"
    using int_in_range [OF v, of obj "field obj ''ratingValue''"] by (metis insertCI)
  then have stars: "1 \<le> nir_ratingValue (item_rating_of obj)" "nir_ratingValue (item_rating_of obj) \<le> 5"
    by (simp_all add: item_rating_of_def)
  have int: "int_of (field obj k) \<noteq> None"
    if "Property k Ty_number False cs [IsInt, MinValue (whole 1)] \<in> set CreateItemRatingDto"
      and "list_all (condition_holds obj (field obj k)) cs" for k cs
    using accepted_check [OF v pipe that, of IsInt] documentedD(2) [OF v] by (auto simp: int_of_def)
  have "if field obj ''itemType'' = Str ''order''
      then int_of (field obj ''orderId'') \<noteq> None \<and> int_of (field obj ''productId'') \<noteq> None
      else int_of (field obj ''itemId'') \<noteq> None"
  proof (cases "field obj ''itemType'' = Str ''order''")
    case True
    let ?if = "[ValidateIf (\<lambda>dto _. field dto ''itemType'' = Str ''order'')]"
    have "int_of (field obj ''orderId'') \<noteq> None" "int_of (field obj ''productId'') \<noteq> None"
      by (rule int [where cs = ?if]; simp add: CreateItemRatingDto_def True)+
    then show ?thesis by (simp add: True)
  next
    case False
    have "int_of (field obj ''itemId'') \<noteq> None"
      by (rule int [where cs = "[ValidateIf (\<lambda>dto _. field dto ''itemType'' \<noteq> Str ''order'')]"])
         (simp_all add: CreateItemRatingDto_def False)
    then show ?thesis by (simp add: False)
  qed
  then have "if nir_itemType (item_rating_of obj) = Item_ORDER
     then nir_orderId (item_rating_of obj) \<noteq> None \<and> nir_productId (item_rating_of obj) \<noteq> None
     else nir_itemId (item_rating_of obj) \<noteq> None"
    by (simp add: item_rating_of_def split: if_splits)
  moreover have "case fst (createItemRating user (item_rating_of obj) s) of Inl _ \<Rightarrow> True | Inr r \<Rightarrow> rating_comment r = None"
    using createItemRating_comment [of user "item_rating_of obj" s] comment by (simp split: sum.split)
  ultimately show ?thesis using comment stars by blast
qed

section \<open>Searches\<close>

lemma text_of_str: "text_of x = Some t \<longleftrightarrow> x = Str t"
  by (auto simp: text_of_def split: js.split)

text \<open>
  A search that passes the validation is never refused by the service: what the decorators of
  \<open>SearchProductsDto\<close> accept of category and subcategory, \<open>assertSearchCategoryPair\<close> accepts too.
\<close>

theorem searches_never_refused:
  assumes v: "documented v" and cls: "cls \<in> {SearchProductsDto date, ListMyProductsDto date}"
    and pipe: "vd_pipe v cls query = Some obj"
    and dto: "sl_category dto = text_of (field obj ''category'')" "sl_subcategory dto = text_of (field obj ''subcategory'')"
  shows "is_ok (searchProducts tx s dto) \<and> is_ok (listMyProducts tx s user dto)"
proof -
  have sub: "set (SearchProductsDto date) \<subseteq> set cls" using cls by (auto simp: ListMyProductsDto_def)
  note check = accepted_check [OF v pipe subsetD [OF sub], unfolded SearchProductsDto_def]
  have pair: "isValidCategory c \<and> isValidSubcategory c t"
    if c: "field obj ''category'' = Str c" and t: "field obj ''subcategory'' = Str t" for c t
  proof
    have "vd_holds v IsValidProductCategory obj (field obj ''category'')"
      using check [where n = "''category''" and ty = Ty_string and typed = False and cs = "[IsOptional]" and
        checks = "[IsString, IsValidProductCategory]"] c by simp
    then show "isValidCategory c" by (simp add: IsValidProductCategory_def documentedD(10) [OF v] c)
    have "vd_holds v (IsValidSubcategoryForCategory ''category'' True) obj (field obj ''subcategory'')"
      using check [where n = "''subcategory''" and ty = Ty_string and typed = False and cs = "[IsOptional]" and
        checks = "[IsString, IsEnum PRODUCT_SUBCATEGORIES, IsValidSubcategoryForCategory ''category'' True]"] t by simp
    then show "isValidSubcategory c t"
      by (simp add: IsValidSubcategoryForCategory_def documentedD(10) [OF v] c t split: if_splits)
  qed
  have "is_ok (assertSearchCategoryPair (sl_category dto) (sl_subcategory dto))"
  proof (cases "sl_category dto = None \<or> sl_subcategory dto = None")
    case True
    then show ?thesis by (auto simp: assertSearchCategoryPair_def falsy_def)
  next
    case False
    then obtain c t where ct: "sl_category dto = Some c" "sl_subcategory dto = Some t" by auto
    then have "isValidCategory c" "isValidSubcategory c t" using pair dto text_of_str by metis+
    then show ?thesis by (simp add: assertSearchCategoryPair_def assertCategoryPair_def ct)
  qed
  then show ?thesis by (auto simp: searchProducts_def listMyProducts_def is_ok_def split: sum.split_asm)
qed

section \<open>Passwords\<close>

definition password_dtos :: "(property list \<times> string) list" where
  "password_dtos = [(RequestRegistrationOtpDto, ''password''), (ResetPasswordDto, ''newPassword''),
     (ChangePasswordDto, ''newPassword'')]"

text \<open>
  C39: Nobody is shut out by the validation: a password accepted when it is set, at registration, at a reset or at a
  change, has 8 to 64 characters with a letter and a digit, and a login with it is accepted.
\<close>

theorem password_fits_login:
  assumes v: "documented v" and cls: "(cls, k) \<in> set password_dtos" and pipe: "vd_pipe v cls body = Some obj"
  shows "\<exists>t. field obj k = Str t \<and> 8 \<le> length t \<and> length t \<le> 64 \<and> letters_and_digits t \<and>
    (let attempt = Obj [(''email'', Str e), (''password'', Str t)] in
      vd_pipe v LoginDto attempt = (if vd_holds v IsEmail attempt (Str e) then Some attempt else None))"
proof -
  have "Property k Ty_string False [] [IsString, Length 8 64, Matches letters_and_digits] \<in> set cls"
    using cls by (auto simp: password_dtos_def RequestRegistrationOtpDto_def ResetPasswordDto_def ChangePasswordDto_def)
  from accepted_check [OF v pipe this]
  have "vd_holds v (Length 8 64) obj (field obj k)" "vd_holds v (Matches letters_and_digits) obj (field obj k)" by simp_all
  then obtain t where t: "field obj k = Str t" "8 \<le> length t" "length t \<le> 64" "letters_and_digits t"
    by (auto simp: documentedD(7,8) [OF v])
  let ?attempt = "Obj [(''email'', Str e), (''password'', Str t)]"
  have "vd_convert v LoginDto ?attempt = ?attempt"
    by (subst convert_typed [OF v]) (simp_all add: LoginDto_def nullish_def)
  moreover have "field ?attempt ''email'' = Str e" "field ?attempt ''password'' = Str t" by (simp_all add: field_def)
  ultimately have "vd_pipe v LoginDto ?attempt = (if vd_holds v IsEmail ?attempt (Str e) then Some ?attempt else None)"
    using t documentedD(1,7) [OF v] v unfolding documented_def
    by (simp add: valid_instance_def LoginDto_def)
  then show ?thesis using t by (auto simp: Let_def)
qed

section \<open>Example\<close>

text \<open>A library that does what is documented, to see that the hypotheses can hold.\<close>

definition on_text :: "(string \<Rightarrow> bool) \<Rightarrow> js \<Rightarrow> bool" where
  "on_text p x \<longleftrightarrow> (case x of Str t \<Rightarrow> p t | _ \<Rightarrow> False)"

definition on_number :: "(num_value \<Rightarrow> bool) \<Rightarrow> js \<Rightarrow> bool" where
  "on_number p x \<longleftrightarrow> (case x of Num a \<Rightarrow> p a | _ \<Rightarrow> False)"

lemma on_text_iff [simp]: "on_text p x \<longleftrightarrow> (\<exists>t. x = Str t \<and> p t)" "on_number q x \<longleftrightarrow> (\<exists>a. x = Num a \<and> q a)"
  by (simp_all add: on_text_def on_number_def split: js.split)

definition sample_holds :: "check \<Rightarrow> js \<Rightarrow> js \<Rightarrow> bool" where
  "sample_holds c obj x \<longleftrightarrow>
     (case c of
        IsString \<Rightarrow> on_text (\<lambda>_. True) x
      | IsInt \<Rightarrow> on_number (\<lambda>a. to_integer a \<noteq> None) x
      | MinValue m \<Rightarrow> on_number (num_le m) x
      | MaxValue m \<Rightarrow> on_number (\<lambda>a. num_le a m) x
      | Length lo hi \<Rightarrow> on_text (\<lambda>t. lo \<le> length t \<and> length t \<le> hi) x
      | Matches p \<Rightarrow> on_text p x
      | IsEnum xs \<Rightarrow> on_text (List.member xs) x
      | IsEmail \<Rightarrow> on_text (\<lambda>t. List.member t (CHR ''@'')) x
      | Registered p \<Rightarrow> p obj x
      | _ \<Rightarrow> False)"

fun sample_convert :: "property list \<Rightarrow> js \<Rightarrow> js" where
  "sample_convert cls (Obj kvs) =
     Obj (map (\<lambda>(k, x). (k, case find (\<lambda>p. name_of p = k) cls of None \<Rightarrow> x | Some p \<Rightarrow> converted (type_of p) x)) kvs)"
| "sample_convert cls x = x"

definition sample_validation :: validation where
  "sample_validation = \<lparr>vd_holds = sample_holds, vd_convert = sample_convert,
     vd_pipe = (\<lambda>cls body. let obj = sample_convert cls body in
       if valid_instance sample_holds cls obj then Some obj else None)\<rparr>"

lemma sample_documented: "documented sample_validation"
  by (simp add: documented_def sample_validation_def sample_holds_def [abs_def] Let_def) (auto split: num_value.split)

theorem pages_bounded_witness:
  "resolveOffsetPagination (page_query_of (Obj [(''limit'', Num (whole 5)), (''offset'', Num (whole 10))])) (Some 20) 100 =
     (5, 10) \<and> (10 :: int) \<le> 10000"
proof -
  let ?body = "Obj [(''limit'', Str ''5''), (''offset'', Str ''10'')]"
  let ?obj = "Obj [(''limit'', Num (whole 5)), (''offset'', Num (whole 10))]"
  have pipe: "vd_pipe sample_validation ListUsersQueryDto ?body = Some ?obj" by code_simp
  have cls: "(ListUsersQueryDto, 100, Some 10000) \<in> set (list_dtos (\<lambda>_. NaN))" by (simp add: list_dtos_def)
  have res: "resolveOffsetPagination (page_query_of ?obj) (Some 20) 100 = (5, 10)"
    by (simp add: resolveOffsetPagination_def page_query_of_def field_def)
  show ?thesis
    using pages_bounded [OF sample_documented cls pipe _ res] res by simp
qed

theorem offset_cap_by_page_witness:
  "\<exists>obj. vd_pipe sample_validation ListUsersQueryDto (Obj [(''page'', Str (show_int 502))]) = Some obj \<and>
    resolveOffsetPagination (page_query_of obj) (Some default_page_size) 100 = (20, 10020)"
  using offset_cap_by_page [OF sample_documented, of 502] by simp

definition sample_rating_body :: js where
  "sample_rating_body = Obj [(''itemType'', Str ''order''), (''orderId'', Num (whole 1)), (''productId'', Num (whole 2)),
     (''ratingValue'', Num (whole 4))]"

theorem rating_comment_refused_witness:
  "vd_pipe sample_validation CreateItemRatingDto sample_rating_body = Some sample_rating_body \<and>
   nir_comment (item_rating_of sample_rating_body) = None"
proof -
  have pipe: "vd_pipe sample_validation CreateItemRatingDto sample_rating_body = Some sample_rating_body" by code_simp
  show ?thesis using rating_comment_refused [OF sample_documented pipe] pipe by blast
qed

theorem searches_never_refused_witness:
  "is_ok (searchProducts \<lparr>tx_matches = (\<lambda>_ _. True), tx_rank = (\<lambda>_. 0)\<rparr> sample_db
     \<lparr>pq_page = None, pq_limit = None, pq_offset = None, sl_category = Some ''vehicles'', sl_subcategory = Some ''all'',
      sl_minPrice = None, sl_maxPrice = None, sl_fromDate = None, sl_toDate = None, sl_minRate = None, sl_city = None,
      sl_addressText = None, sl_q = None, sl_sortBy = None, sl_sortDir = None, sl_status = None\<rparr>)"
proof -
  let ?obj = "Obj [(''category'', Str ''vehicles''), (''subcategory'', Str ''all'')]"
  have pipe: "vd_pipe sample_validation (SearchProductsDto (\<lambda>_. NaN)) ?obj = Some ?obj" by code_simp
  show ?thesis
    by (rule conjunct1 [OF searches_never_refused [OF sample_documented insertI1 pipe]])
       (simp_all add: field_def text_of_def)
qed

theorem password_fits_login_witness:
  "vd_pipe sample_validation LoginDto (Obj [(''email'', Str ''a@b''), (''password'', Str ''secret12'')]) =
     Some (Obj [(''email'', Str ''a@b''), (''password'', Str ''secret12'')])"
proof -
  let ?body = "Obj [(''oldPassword'', Str ''secret34''), (''newPassword'', Str ''secret12'')]"
  have pipe: "vd_pipe sample_validation ChangePasswordDto ?body = Some ?body" by code_simp
  have cls: "(ChangePasswordDto, ''newPassword'') \<in> set password_dtos" by (simp add: password_dtos_def)
  have f: "field ?body ''newPassword'' = Str ''secret12''" by (simp add: field_def)
  have e: "vd_holds sample_validation IsEmail obj (Str ''a@b'')" for obj by (simp add: sample_validation_def sample_holds_def)
  show ?thesis using password_fits_login [OF sample_documented cls pipe, of "''a@b''"] by (auto simp: f e Let_def)
qed

end
