(* ===== verification/Controllers.thy ===== *)
theory Controllers
  imports Shop Faults Services Followups Gallery Ratings Auth Listings Accounts Files Gateway
begin

text \<open>
  The controllers (\<open>src/**/*.controller.ts\<close>): which method of which service a request reaches, with which
  arguments. A request is a constructor of the controller's type with the validated parameters, query and body;
  an answer is the value the service returns. The state of the whole server is Redis beside the hub of the
  chat, which holds the database; what every request shares (configuration, cryptography, mail, full-text
  search, SHA-1, socket.io) is the record \<open>world\<close>, and what one request draws is \<open>draws\<close>.
\<close>

section \<open>The server\<close>

record 'h server =
  sv_redis :: redis
  sv_hub :: "'h hub"

record 'h world =
  w_crypto :: "string crypto"
  w_cfg :: app_config
  w_mail :: "string \<Rightarrow> string \<Rightarrow> mail_reply"
  w_search :: text_search
  w_sha1 :: "string \<Rightarrow> string"
  w_io :: "'h socket_io"

record draws = randoms +
  rnd_object :: string

definition sv_db :: "'h server \<Rightarrow> db" where
  "sv_db sv = hb_db (sv_hub sv)"

definition set_db :: "db \<Rightarrow> 'h server \<Rightarrow> 'h server" where
  "set_db s sv = sv\<lparr>sv_hub := (sv_hub sv)\<lparr>hb_db := s\<rparr>\<rparr>"

text \<open>A method of a service that reads, or changes the database, both stores of authentication, or the hub.\<close>

definition on_read :: "(db \<Rightarrow> 'a) \<Rightarrow> ('a \<Rightarrow> 'b) \<Rightarrow> ('h server, 'b) handler" where
  "on_read f k sv = (Inr (k (f (sv_db sv))), sv)"

definition on_get :: "(db \<Rightarrow> 'a result) \<Rightarrow> ('a \<Rightarrow> 'b) \<Rightarrow> ('h server, 'b) handler" where
  "on_get f k sv = (map_sum id k (f (sv_db sv)), sv)"

definition on_db :: "(db, 'a) handler \<Rightarrow> ('a \<Rightarrow> 'b) \<Rightarrow> ('h server, 'b) handler" where
  "on_db m k sv = (case m (sv_db sv) of (x, s') \<Rightarrow> (map_sum id k x, set_db s' sv))"

definition on_auth :: "(auth_state, 'a) handler \<Rightarrow> ('a \<Rightarrow> 'b) \<Rightarrow> ('h server, 'b) handler" where
  "on_auth m k sv =
     (case m (sv_redis sv, sv_db sv) of (x, (r', s')) \<Rightarrow> (map_sum id k x, (set_db s' sv)\<lparr>sv_redis := r'\<rparr>))"

definition on_hub :: "('h hub, 'a) handler \<Rightarrow> ('a \<Rightarrow> 'b) \<Rightarrow> ('h server, 'b) handler" where
  "on_hub m k sv = (case m (sv_hub sv) of (x, h') \<Rightarrow> (map_sum id k x, sv\<lparr>sv_hub := h'\<rparr>))"

text \<open>
  \<open>@CurrentUser()\<close> hands over \<open>request.user\<close>, which only a guard sets; reading a field of an absent one is a
  \<open>TypeError\<close>.
\<close>

definition with_user :: "auth_user option \<Rightarrow> (auth_user \<Rightarrow> ('s, 'a) handler) \<Rightarrow> ('s, 'a) handler" where
  "with_user current m s =
     (case current of None \<Rightarrow> (Inl (PlainError ''Cannot read properties of undefined''), s) | Some user \<Rightarrow> m user s)"

section \<open>Accounts and sessions\<close>

datatype auth_request =
    Auth_requestRegistrationOtp registration_dto
  | Auth_resendRegistrationOtp string
  | Auth_verifyRegistrationOtp string string
  | Auth_login string string
  | Auth_requestPasswordResetOtp string
  | Auth_resetPassword string string string string
  | Auth_refresh string
  | Auth_logout string

datatype auth_reply =
    Otp_reply otp_answer
  | Signed_in "app_user \<times> string token_pair"
  | Token_reply "string token_pair"
  | Logged_out

fun AuthController :: "'h world \<Rightarrow> draws \<Rightarrow> auth_request \<Rightarrow> ('h server, auth_reply) handler" where
  "AuthController w d (Auth_requestRegistrationOtp dto) =
     on_auth (requestRegistrationOtp (w_crypto w) (w_cfg w) (w_mail w) (randoms.truncate d) dto) Otp_reply"
| "AuthController w d (Auth_resendRegistrationOtp email) =
     on_auth (resendRegistrationOtp (w_crypto w) (w_cfg w) (w_mail w) (randoms.truncate d) email) Otp_reply"
| "AuthController w d (Auth_verifyRegistrationOtp email otp) =
     on_auth (verifyRegistrationOtp (w_crypto w) (w_cfg w) (randoms.truncate d) email otp) Signed_in"
| "AuthController w d (Auth_login email password) =
     on_auth (login (w_crypto w) (w_cfg w) (randoms.truncate d) email password) Signed_in"
| "AuthController w d (Auth_requestPasswordResetOtp email) =
     on_auth (requestPasswordResetOtp (w_crypto w) (w_cfg w) (w_mail w) (randoms.truncate d) email) Otp_reply"
| "AuthController w d (Auth_resetPassword email otp newPassword confirmPassword) =
     on_auth (resetPassword (w_crypto w) (w_cfg w) (randoms.truncate d) email otp newPassword confirmPassword) Token_reply"
| "AuthController w d (Auth_refresh tok) =
     on_auth (refresh (w_crypto w) (w_cfg w) (randoms.truncate d) tok) Token_reply"
| "AuthController w d (Auth_logout tok) =
     on_auth (\<lambda>st. (Inr (), logout (w_crypto w) (w_cfg w) tok st)) (\<lambda>_. Logged_out)"

datatype users_request =
    Users_getMe
  | Users_updateMe update_profile
  | Users_changePassword string string
  | Users_deleteAvatar
  | Users_deleteMe

datatype users_reply = Profile_reply profile | Users_done string

fun UsersController :: "'h world \<Rightarrow> draws \<Rightarrow> auth_user \<Rightarrow> users_request \<Rightarrow> ('h server, users_reply) handler" where
  "UsersController w d user Users_getMe = on_get (\<lambda>s. getMe (w_cfg w) s user) Profile_reply"
| "UsersController w d user (Users_updateMe dto) = on_db (updateMe (w_cfg w) user dto) Profile_reply"
| "UsersController w d user (Users_changePassword oldPassword newPassword) =
     on_db (changePassword (w_crypto w) (randoms.truncate d) user oldPassword newPassword) Users_done"
| "UsersController w d user Users_deleteAvatar = on_db (deleteAvatar (w_cfg w) user) Profile_reply"
| "UsersController w d user Users_deleteMe = on_db (deleteMe user) Users_done"

datatype public_users_request = Users_getPublicProfile int page_query

fun PublicUsersController :: "'h world \<Rightarrow> public_users_request \<Rightarrow> ('h server, public_profile) handler" where
  "PublicUsersController w (Users_getPublicProfile userId query) =
     on_get (\<lambda>s. getPublicProfile (w_cfg w) s userId query) id"

datatype admin_request =
    Admin_listUsers list_users_query
  | Admin_getUserDetails int
  | Admin_listUserListings int page_query "listing_status option"
  | Admin_listAdmins page_query
  | Admin_promoteAdmin int
  | Admin_demoteAdmin int
  | Admin_updateUserStatus int user_status
  | Admin_deleteUser int
  | Admin_createWarning int string

datatype admin_reply =
    Users_list "(admin_user \<times> int) list"
  | User_details "admin_user \<times> user_status \<times> int option \<times> string option"
  | User_listings "(listing \<times> int option) list"
  | Admins_list "admin_user list"
  | Admin_changed "admin_user \<times> int"
  | Status_changed admin_user
  | User_deleted string
  | Warning_created admin_warning

fun AdminController :: "auth_user \<Rightarrow> admin_request \<Rightarrow> ('h server, admin_reply) handler" where
  "AdminController admin (Admin_listUsers query) = on_read (\<lambda>s. listUsers s query) Users_list"
| "AdminController admin (Admin_getUserDetails userId) = on_get (\<lambda>s. getUserDetails s userId) User_details"
| "AdminController admin (Admin_listUserListings userId query status) =
     on_get (\<lambda>s. listUserListings s userId query status) User_listings"
| "AdminController admin (Admin_listAdmins query) = on_read (\<lambda>s. listAdmins s query) Admins_list"
| "AdminController admin (Admin_promoteAdmin userId) = on_db (promoteAdmin admin userId) Admin_changed"
| "AdminController admin (Admin_demoteAdmin userId) = on_db (demoteAdmin admin userId) Admin_changed"
| "AdminController admin (Admin_updateUserStatus userId status) =
     on_auth (updateUserStatus admin userId status) Status_changed"
| "AdminController admin (Admin_deleteUser userId) = on_auth (deleteUser admin userId) User_deleted"
| "AdminController admin (Admin_createWarning targetUserId message') =
     on_db (createWarning admin targetUserId message') Warning_created"

section \<open>The shop\<close>

datatype products_request = Kayan_listProducts list_products_query | Kayan_getProduct int

datatype products_reply = Products_list "product_detail list" | Product_reply product_detail

fun KayanProductsController :: "products_request \<Rightarrow> ('h server, products_reply) handler" where
  "KayanProductsController (Kayan_listProducts query) = on_get (\<lambda>s. listProducts s query) Products_list"
| "KayanProductsController (Kayan_getProduct productId) = on_get (\<lambda>s. getProduct s productId) Product_reply"

datatype cart_request =
    Cart_listCart
  | Cart_addCartItem int int
  | Cart_updateCartItem int int
  | Cart_deleteCartItem int
  | Cart_checkoutCart string

datatype cart_reply = Cart_reply "cart_line list" | Cart_done string | Cart_order order_view

fun CartController :: "auth_user \<Rightarrow> cart_request \<Rightarrow> ('h server, cart_reply) handler" where
  "CartController user Cart_listCart = on_read (\<lambda>s. listCart s user) Cart_reply"
| "CartController user (Cart_addCartItem productId quantity) = on_db (addCartItem user productId quantity) Cart_reply"
| "CartController user (Cart_updateCartItem cartItemId quantity) =
     on_db (updateCartItem user cartItemId quantity) Cart_reply"
| "CartController user (Cart_deleteCartItem cartItemId) = on_db (deleteCartItem user cartItemId) Cart_done"
| "CartController user (Cart_checkoutCart deliveryAddress) = on_db (checkoutCart user deliveryAddress) Cart_order"

datatype orders_request =
    Orders_createOrder create_order_dto
  | Orders_listMyOrders list_orders_query
  | Orders_getOrder int
  | Orders_updateOrderAddress int string
  | Orders_cancelOrder int

datatype orders_reply = Order_reply order_view | Orders_list "order_view list"

fun OrdersController :: "auth_user \<Rightarrow> orders_request \<Rightarrow> ('h server, orders_reply) handler" where
  "OrdersController user (Orders_createOrder dto) = on_db (createOrder user dto) Order_reply"
| "OrdersController user (Orders_listMyOrders query) = on_read (\<lambda>s. listMyOrders s user query) Orders_list"
| "OrdersController user (Orders_getOrder orderId) =
     on_get (\<lambda>s. getOrderForUser s (sub user) orderId False) Order_reply"
| "OrdersController user (Orders_updateOrderAddress orderId deliveryAddress) =
     on_db (updateOrderAddress user orderId deliveryAddress) Order_reply"
| "OrdersController user (Orders_cancelOrder orderId) = on_db (cancelOrder user orderId) Order_reply"

section \<open>Faults, service orders, follow-ups\<close>

type_synonym fault_answer = "fault_view \<times> asset_view list"
type_synonym gallery_answer = "gallery_view \<times> asset_view list"

datatype faults_request =
    Faults_createFault create_fault_dto
  | Faults_updateFault int update_fault_dto
  | Faults_listMyFaults list_faults_query
  | Faults_getFault int
  | Faults_cancelFault int

datatype faults_reply = Fault_reply fault_answer | Faults_list "fault_answer list"

fun FaultsController :: "auth_user \<Rightarrow> faults_request \<Rightarrow> ('h server, faults_reply) handler" where
  "FaultsController user (Faults_createFault dto) = on_db (createFault user dto) Fault_reply"
| "FaultsController user (Faults_updateFault faultId dto) = on_db (updateFault user faultId dto) Fault_reply"
| "FaultsController user (Faults_listMyFaults query) = on_read (\<lambda>s. listMyFaults s user query) Faults_list"
| "FaultsController user (Faults_getFault faultId) =
     on_get (\<lambda>s. getFaultForUser s (sub user) faultId False) Fault_reply"
| "FaultsController user (Faults_cancelFault faultId) = on_db (cancelFault user faultId) Fault_reply"

datatype services_request =
    Services_createService create_service_dto
  | Services_listServices list_services_query
  | Services_updateService int update_service_dto
  | Services_listMyServices list_services_query
  | Services_getService int
  | Services_cancelService int

datatype services_reply = Service_reply service_order | Services_list "service_order list \<times> int"

fun ServicesController :: "auth_user \<Rightarrow> services_request \<Rightarrow> ('h server, services_reply) handler" where
  "ServicesController user (Services_createService dto) = on_db (createService user dto) Service_reply"
| "ServicesController user (Services_listServices query) = on_read (\<lambda>s. publicListServices s query) Services_list"
| "ServicesController user (Services_updateService serviceId dto) =
     on_db (updateService user serviceId dto) Service_reply"
| "ServicesController user (Services_listMyServices query) =
     on_read (\<lambda>s. listMyServices s user query) Services_list"
| "ServicesController user (Services_getService serviceId) =
     on_get (\<lambda>s. getServiceForUser s (sub user) serviceId False) Service_reply"
| "ServicesController user (Services_cancelService serviceId) = on_db (cancelService user serviceId) Service_reply"

datatype followups_request =
    Followups_listFollowupSteps item_type int page_query
  | Followups_createConversation item_type int "int option"
  | Followups_listMessages item_type int int
  | Followups_sendMessage item_type int int string

datatype followups_reply =
    Steps_list "followup_step list \<times> int"
  | Followup_opened followup_conversation
  | Followup_messages "followup_message list"
  | Followup_sent followup_message

fun FollowupsController :: "auth_user \<Rightarrow> followups_request \<Rightarrow> ('h server, followups_reply) handler" where
  "FollowupsController user (Followups_listFollowupSteps itemType itemId query) =
     on_get (\<lambda>s. listFollowupSteps s user itemType itemId query) Steps_list"
| "FollowupsController user (Followups_createConversation itemType itemId adminId) =
     on_db (createFollowupConversation user
       \<lparr>nfc_itemType = itemType, nfc_itemId = itemId, nfc_adminId = adminId\<rparr>) Followup_opened"
| "FollowupsController user (Followups_listMessages itemType itemId conversationId) =
     on_get (\<lambda>s. listFollowupMessages s user conversationId (Some (itemType, itemId))) Followup_messages"
| "FollowupsController user (Followups_sendMessage itemType itemId conversationId messageText) =
     on_db (sendFollowupMessage user conversationId messageText (Some (itemType, itemId))) Followup_sent"

section \<open>Gallery, ratings, listings, health\<close>

datatype gallery_request = Gallery_listGallery list_gallery_query

fun GalleryController :: "gallery_request \<Rightarrow> ('h server, gallery_answer list \<times> int) handler" where
  "GalleryController (Gallery_listGallery query) = on_read (\<lambda>s. listGallery s query) id"

datatype ratings_request = Ratings_createItemRating create_item_rating_dto | Ratings_getItemReviews int item_type page_query

datatype ratings_reply = Rating_created rating | Reviews_list "item_rating list \<times> int"

fun KayanRatingsController :: "auth_user option \<Rightarrow> ratings_request \<Rightarrow> ('h server, ratings_reply) handler" where
  "KayanRatingsController current (Ratings_createItemRating dto) =
     with_user current (\<lambda>user. on_db (createItemRating user dto) Rating_created)"
| "KayanRatingsController current (Ratings_getItemReviews itemId itemType query) =
     on_read (\<lambda>s. getItemReviews s itemId itemType query) Reviews_list"

datatype summary_request = Ratings_getUserRatingSummary int

fun RatingsController :: "summary_request \<Rightarrow> ('h server, int \<times> int \<times> user_rating list) handler" where
  "RatingsController (Ratings_getUserRatingSummary userId) = on_read (\<lambda>s. getUserRatingSummary s userId) id"

datatype listings_request = Listings_listMyProducts search_listings | Listings_searchProducts search_listings

fun ProductsController ::
  "'h world \<Rightarrow> auth_user option \<Rightarrow> listings_request \<Rightarrow> ('h server, listing_view list) handler" where
  "ProductsController w current (Listings_listMyProducts query) =
     with_user current (\<lambda>user. on_get (\<lambda>s. listMyProducts (w_search w) s user query) id)"
| "ProductsController w current (Listings_searchProducts query) = on_get (\<lambda>s. searchProducts (w_search w) s query) id"

text \<open>The health probe runs \<open>SELECT 1\<close>; a database that cannot be reached is not a state of the model.\<close>

datatype health_request = Health_live | Health_ready

fun HealthController :: "health_request \<Rightarrow> ('h server, string) handler" where
  "HealthController Health_live = on_read (\<lambda>_. ''ok'') id"
| "HealthController Health_ready = on_read (\<lambda>_. ''ok'') id"

section \<open>Administration of the shop\<close>

datatype kayan_admin_request =
    Manage_createProduct admin_create_product
  | Manage_updateProduct int admin_update_product
  | Manage_deleteProduct int
  | Manage_listOrders list_orders_query
  | Manage_updateOrderStatus int order_status
  | Manage_listFaults list_faults_query
  | Manage_updateFaultStatus int fault_status
  | Manage_listServices list_services_query
  | Manage_updateServiceStatus int service_status
  | Manage_createStep item_type int string "int option" "int option"
  | Manage_updateStep item_type int int update_step_dto
  | Manage_deleteStep item_type int int
  | Manage_listGallery list_gallery_query
  | Manage_createGalleryItem create_gallery_dto
  | Manage_updateGalleryItem int update_gallery_dto
  | Manage_deleteGalleryItem int

datatype kayan_admin_reply =
    Product_managed product_detail
  | Managed string
  | All_orders "order_view list \<times> int"
  | Order_managed order_view
  | All_faults "fault_answer list \<times> int"
  | Fault_managed fault_answer
  | All_services "(service_order \<times> service_brief) list \<times> int"
  | Service_managed service_order
  | Step_managed followup_step
  | All_gallery "gallery_answer list \<times> int"
  | Gallery_managed gallery_answer

text \<open>
  The scope in the path of a step (\<open>:itemType/:itemId\<close>) is validated, but the update and the deletion of a
  step do not use it.
\<close>

fun KayanAdminController :: "auth_user \<Rightarrow> kayan_admin_request \<Rightarrow> ('h server, kayan_admin_reply) handler" where
  "KayanAdminController admin (Manage_createProduct dto) = on_db (adminCreateProduct admin dto) Product_managed"
| "KayanAdminController admin (Manage_updateProduct productId dto) =
     on_db (adminUpdateProduct admin productId dto) Product_managed"
| "KayanAdminController admin (Manage_deleteProduct productId) = on_db (adminDeleteProduct admin productId) Managed"
| "KayanAdminController admin (Manage_listOrders query) = on_read (\<lambda>s. adminListOrders s query) All_orders"
| "KayanAdminController admin (Manage_updateOrderStatus orderId status) =
     on_db (adminUpdateOrderStatus admin orderId status) Order_managed"
| "KayanAdminController admin (Manage_listFaults query) = on_read (\<lambda>s. adminListFaults s query) All_faults"
| "KayanAdminController admin (Manage_updateFaultStatus faultId status) =
     on_db (adminUpdateFaultStatus admin faultId status) Fault_managed"
| "KayanAdminController admin (Manage_listServices query) = on_read (\<lambda>s. adminListServices s query) All_services"
| "KayanAdminController admin (Manage_updateServiceStatus serviceId status) =
     on_db (adminUpdateServiceStatus admin serviceId status) Service_managed"
| "KayanAdminController admin (Manage_createStep itemType itemId title stepImageFileId sortOrder) =
     on_db (adminCreateFollowupStep admin
       \<lparr>nst_itemType = itemType, nst_itemId = itemId, nst_title = title,
         nst_stepImageFileId = stepImageFileId, nst_sortOrder = sortOrder\<rparr>) Step_managed"
| "KayanAdminController admin (Manage_updateStep itemType itemId stepId dto) =
     on_db (adminUpdateFollowupStep stepId dto) Step_managed"
| "KayanAdminController admin (Manage_deleteStep itemType itemId stepId) = on_db (adminDeleteFollowupStep stepId) Managed"
| "KayanAdminController admin (Manage_listGallery query) = on_read (\<lambda>s. adminListGallery s query) All_gallery"
| "KayanAdminController admin (Manage_createGalleryItem dto) = on_db (adminCreateGalleryItem admin dto) Gallery_managed"
| "KayanAdminController admin (Manage_updateGalleryItem galleryId dto) =
     on_db (adminUpdateGalleryItem admin galleryId dto) Gallery_managed"
| "KayanAdminController admin (Manage_deleteGalleryItem galleryId) =
     on_db (adminDeleteGalleryItem admin galleryId) Managed"

section \<open>Files and chat\<close>

datatype files_request =
    Files_createUploadIntent create_upload_intent_dto
  | Files_markUploaded int "string option"
  | Files_getFile int

datatype files_reply =
    Intent_reply "file_answer \<times> upload_intent"
  | Uploaded_reply file_answer
  | File_reply "file_row \<times> string"

fun FilesController :: "'h world \<Rightarrow> draws \<Rightarrow> auth_user \<Rightarrow> files_request \<Rightarrow> ('h server, files_reply) handler" where
  "FilesController w d user (Files_createUploadIntent dto) =
     on_db (createUploadIntent (w_sha1 w) (w_cfg w) (rnd_object d) user dto) Intent_reply"
| "FilesController w d user (Files_markUploaded fileId checksum) = on_db (markUploaded user fileId checksum) Uploaded_reply"
| "FilesController w d user (Files_getFile fileId) = on_get (\<lambda>s. getFile (w_cfg w) s user fileId) File_reply"

datatype chat_request =
    Chat_createConversation int "int option"
  | Chat_listConversations "chat_scope option" page_query
  | Chat_getConversation int
  | Chat_listMessages int "int option" "time option"

datatype chat_reply =
    Conversation_reply conversation_view
  | Conversations_list "conversation_view list"
  | Messages_list "message list"

fun ChatController :: "'h world \<Rightarrow> auth_user \<Rightarrow> chat_request \<Rightarrow> ('h server, chat_reply) handler" where
  "ChatController w user (Chat_createConversation participantId productId) =
     on_hub (createConversation (w_io w) user participantId productId) Conversation_reply"
| "ChatController w user (Chat_listConversations scope query) =
     on_read (\<lambda>s. listConversations s (sub user) (coalesce scope Scope_all) query) Conversations_list"
| "ChatController w user (Chat_getConversation conversationId) =
     on_get (\<lambda>s. getConversationById s (sub user) conversationId) Conversation_reply"
| "ChatController w user (Chat_listMessages conversationId lim before) =
     on_get (\<lambda>s. listMessages s (sub user) conversationId (coalesce lim 20) before) Messages_list"

end
