(* ===== verification/Frames.thy ===== *)
theory Frames
  imports Controllers
begin

text \<open>
  What each operation leaves alone. The tables fall into the parts whose correctness is proved apart; \<open>outside P\<close>
  relates two states that differ, as far as the parts are concerned, in those of \<open>P\<close> only, with no user lost and
  no identity sequence turned back.
\<close>

named_theorems frames \<open>what a handler writes\<close>

datatype part = Accounts_part | Shop_part | Faults_part | Services_part | Ratings_part | Chat_part | Legacy_part

text \<open>The marketplace listings with their images, and the ratings between users.\<close>

definition legacy_tables :: "db \<Rightarrow> listing list \<times> product_image list \<times> user_rating list" where
  "legacy_tables s = (products s, product_images s, user_ratings s)"

fun same :: "part \<Rightarrow> db \<Rightarrow> db \<Rightarrow> bool" where
  "same Accounts_part s s' \<longleftrightarrow> users s' = users s"
| "same Shop_part s s' \<longleftrightarrow> shop_tables s' = shop_tables s"
| "same Faults_part s s' \<longleftrightarrow> fault_tables s' = fault_tables s"
| "same Services_part s s' \<longleftrightarrow> service_tables s' = service_tables s"
| "same Ratings_part s s' \<longleftrightarrow> rating_tables s' = rating_tables s"
| "same Chat_part s s' \<longleftrightarrow> conversations s' = conversations s \<and> messages s' = messages s"
| "same Legacy_part s s' \<longleftrightarrow> legacy_tables s' = legacy_tables s"

definition outside :: "part set \<Rightarrow> db \<Rightarrow> db \<Rightarrow> bool" where
  "outside P s s' \<longleftrightarrow> (\<forall>c. c \<notin> P \<longrightarrow> same c s s') \<and> (\<forall>t. seqs s t \<le> seqs s' t) \<and>
     (\<forall>i. has_key u_id i (users s) \<longrightarrow> has_key u_id i (users s'))"

definition writes :: "part set \<Rightarrow> (db, 'a) handler \<Rightarrow> bool" where
  "writes P m \<longleftrightarrow> (\<forall>s. outside P s (snd (m s)))"

lemma all_parts: "(\<forall>c. Q c) \<longleftrightarrow> Q Accounts_part \<and> Q Shop_part \<and> Q Faults_part \<and> Q Services_part \<and>
  Q Ratings_part \<and> Q Chat_part \<and> Q Legacy_part"
proof (intro iffI allI)
  fix c
  assume "Q Accounts_part \<and> Q Shop_part \<and> Q Faults_part \<and> Q Services_part \<and>
    Q Ratings_part \<and> Q Chat_part \<and> Q Legacy_part"
  then show "Q c" by (cases c) simp_all
qed simp

lemma outside_refl [simp, frames]: "outside P s s"
  by (simp add: outside_def all_parts)

lemma same_trans: "same c s s' \<Longrightarrow> same c s' s'' \<Longrightarrow> same c s s''"
  by (cases c) simp_all

lemma outside_trans:
  assumes "outside P s s'" and "outside P s' s''"
  shows "outside P s s''"
  unfolding outside_def
proof (intro conjI allI impI)
  show "same c s s''" if "c \<notin> P" for c
    using assms that same_trans unfolding outside_def by blast
  show "seqs s t \<le> seqs s'' t" for t
    using assms order_trans [of "seqs s t" "seqs s' t" "seqs s'' t"] unfolding outside_def by blast
  show "has_key u_id i (users s'')" if "has_key u_id i (users s)" for i
    using assms that unfolding outside_def by blast
qed

lemma writesD: "writes P m \<Longrightarrow> m s = (x, s') \<Longrightarrow> outside P s s'"
  unfolding writes_def by (metis snd_conv)

lemma writesI: "(\<And>s x s'. m s = (x, s') \<Longrightarrow> outside P s s') \<Longrightarrow> writes P m"
  unfolding writes_def by (metis prod.collapse)

lemma writes_bind [frames]:
  assumes "writes P m" and "\<And>a. writes P (k a)"
  shows "writes P (bind_h m k)"
proof (rule writesI)
  fix s y s''
  assume run: "bind_h m k s = (y, s'')"
  obtain x s' where m: "m s = (x, s')" by fastforce
  then have "outside P s s'" by (rule writesD [OF assms(1)])
  with run m show "outside P s s''"
    by (cases x) (auto simp: bind_h_def elim!: outside_trans dest: writesD [OF assms(2)])
qed

lemma writes_for_each [frames]:
  assumes "\<And>x. writes P (f x)"
  shows "writes P (for_each f xs)"
proof (induction xs)
  case Nil
  then show ?case by (simp add: writes_def)
next
  case (Cons x xs)
  show ?case
  proof (rule writesI)
    fix s y s''
    assume run: "for_each f (x # xs) s = (y, s'')"
    obtain z s' where f: "f x s = (z, s')" by fastforce
    then have "outside P s s'" by (rule writesD [OF assms])
    with run f show "outside P s s''"
      by (cases z) (auto elim!: outside_trans dest: writesD [OF Cons.IH])
  qed
qed

lemma outside_seqs: "outside P s s' \<Longrightarrow> outside P s (s\<lparr>seqs := seqs s'\<rparr>)"
  by (simp add: outside_def all_parts shop_tables_def fault_tables_def service_tables_def rating_tables_def legacy_tables_def)

lemma writes_transaction [frames]:
  assumes "writes P m"
  shows "writes P (with_transaction m)"
proof (rule writesI)
  fix s y s''
  assume run: "with_transaction m s = (y, s'')"
  obtain x s' where m: "m s = (x, s')" by fastforce
  then have "outside P s s'" by (rule writesD [OF assms])
  then show "outside P s s''"
    using run m by (cases x) (auto simp: with_transaction_def intro: outside_seqs)
qed

lemmas frame_leaf = writes_def outside_def all_parts Let_def shop_tables_def fault_tables_def service_tables_def rating_tables_def legacy_tables_def

lemma outside_then: "outside P s s' \<Longrightarrow> writes P m \<Longrightarrow> outside P s (snd (m s'))"
  unfolding writes_def using outside_trans by blast

lemma writes_answer [frames]: "writes P (\<lambda>s. (g s, s))"
  by (simp add: writes_def)

lemma writes_sync_if [frames]: "(\<And>xs. writes P (m xs)) \<Longrightarrow> writes P (sync_if m v)"
  by (auto simp: sync_if_def writes_def split: option.split)

lemma has_user_update:
  "(\<And>u. u_id (f u) = u_id u) \<Longrightarrow> has_key u_id i (update_where p f t) \<longleftrightarrow> has_key u_id i t"
  by (simp add: has_key_iff update_where_image)


section \<open>The shop\<close>

lemma shop_inserts [frames]:
  "writes {Shop_part} (insert_order i a)" "writes {Shop_part} (insert_order_history i st u)"
  "writes {Shop_part} (insert_order_item ord p q c)" "writes {Shop_part} (insert_product i dto)"
  "writes {Shop_part} (insert_product_asset ty p i n)"
  by (simp_all add: frame_leaf insert_order_def insert_order_history_def insert_order_item_def insert_product_def
    insert_product_asset_def)

lemma shop_updates [frames]:
  "writes {Shop_part} (sql_update_products b f)" "writes {Shop_part} (update_cart_quantity i q)"
  "writes {Shop_part} (deleteCartItem user i)"
  by (simp_all add: frame_leaf sql_update_products_def update_cart_quantity_def deleteCartItem_def)

lemma upsert_cart_writes [frames]: "writes {Shop_part} (upsert_cart_item i p q)"
  by (simp add: frame_leaf upsert_cart_item_def split: option.split)

lemma shop_writes [frames]:
  "outside {Shop_part} s (sql_update_order i f s)" "outside {Shop_part} s (clear_cart i s)"
  "outside {Shop_part} s (clear_product_assets ty p s)"
  by (simp_all add: frame_leaf sql_update_order_def clear_cart_def clear_product_assets_def)

lemma take_stock_writes [frames]: "writes {Shop_part} (take_stock p q)"
  unfolding writes_def take_stock_def using shop_updates(1) by (simp add: writes_def)

lemma sync_products_writes [frames]: "writes {Shop_part} (syncProductAssets ty p xs)"
proof -
  have "writes {Shop_part} (for_each (\<lambda>(i, f). insert_product_asset ty p f (int i)) (enumerate 0 xs))"
    by (rule writes_for_each) (simp add: split_beta shop_inserts)
  from outside_then [OF shop_writes(3) this] show ?thesis by (simp add: writes_def syncProductAssets_def)
qed

lemma place_item_writes [frames]: "writes {Shop_part} (place_item i item)"
  unfolding writes_def
proof
  fix s
  obtain p q where item: "item = (p, q)" by fastforce
  have step: "writes {Shop_part} (bind_h (insert_order_item i p q c) (\<lambda>_. bind_h (take_stock p q) (\<lambda>_ s. (Inr (), s))))"
    for c by (intro frames)
  show "outside {Shop_part} s (snd (place_item i item s))"
  proof (cases "live_product s p")
    case None
    then show ?thesis by (simp add: place_item_def item)
  next
    case (Some r)
    then show ?thesis using step [of "cp_price r"] by (simp add: place_item_def item writes_def)
  qed
qed

lemma create_record_writes [frames]: "writes {Shop_part} (createOrderRecord user a items)"
  unfolding createOrderRecord_def by (intro frames)

lemma createOrder_writes [frames]: "writes {Shop_part} (createOrder user dto)"
proof -
  have "writes {Shop_part} (with_transaction (createOrderRecord user a items))" for a items by (intro frames)
  then show ?thesis by (simp add: writes_def createOrder_def)
qed

lemma checkoutCart_writes [frames]: "writes {Shop_part} (checkoutCart user a)"
  unfolding checkoutCart_def
proof (rule writes_transaction, unfold writes_def, rule allI)
  fix s
  have "writes {Shop_part} (bind_h (createOrderRecord user a items) (\<lambda>order s'. (Inr order, clear_cart (sub user) s')))"
    for items by (intro frames) (auto simp: writes_def intro: frames)
  then show "outside {Shop_part} s (snd (let cart = cart_lines s (sub user) in
      if cart = [] then (Inl (BadRequest ''Cart is empty''), s)
      else bind_h (createOrderRecord user a cart) (\<lambda>order s'. (Inr order, clear_cart (sub user) s')) s))"
    by (simp add: writes_def Let_def)
qed

lemma cart_handlers [frames]:
  "writes {Shop_part} (addCartItem user p q)" "writes {Shop_part} (updateCartItem user i q)"
proof -
  have a: "writes {Shop_part} (bind_h (upsert_cart_item (sub user) p q) (\<lambda>_ s'. (Inr (listCart s' user), s')))"
    and b: "writes {Shop_part} (bind_h (update_cart_quantity i q) (\<lambda>_ s'. (Inr (listCart s' user), s')))"
    by (intro frames)+
  show "writes {Shop_part} (addCartItem user p q)"
    using a by (simp add: writes_def addCartItem_def split: sum.split)
  show "writes {Shop_part} (updateCartItem user i q)"
    using b by (simp add: writes_def updateCartItem_def split: sum.split option.split)
qed

lemma order_moved_writes:
  "outside {Shop_part} s (snd (bind_h (insert_order_history i st u) (\<lambda>_ s2. (g s2, s2)) (sql_update_order i f s)))"
proof -
  have "writes {Shop_part} (bind_h (insert_order_history i st u) (\<lambda>_ s2. (g s2, s2)))" by (intro frames)
  from outside_then [OF shop_writes(1) this] show ?thesis .
qed

lemma order_handlers [frames]:
  "writes {Shop_part} (updateOrderAddress user i a)" "writes {Shop_part} (cancelOrder user i)"
  "writes {Shop_part} (adminUpdateOrderStatus admin i st)"
  by (simp_all add: writes_def updateOrderAddress_def cancelOrder_def adminUpdateOrderStatus_def order_moved_writes
    shop_writes Let_def split: option.split)

lemma product_handlers [frames]:
  "writes {Shop_part} (adminCreateProduct admin ndto)" "writes {Shop_part} (adminUpdateProduct admin i dto)"
  "writes {Shop_part} (adminDeleteProduct admin i)"
proof -
  show "writes {Shop_part} (adminCreateProduct admin ndto)" unfolding adminCreateProduct_def by (intro frames)
  have stmt: "writes {Shop_part} (\<lambda>s. sql_update_products b (f s) s)" for b f
    using shop_updates(1) by (simp add: writes_def)
  have "writes {Shop_part} (if (n :: nat) = 0 then (\<lambda>s. (Inl (NotFound ''Product not found''), s)) else
      bind_h (sync_if (syncProductAssets Asset_image i) (uc_imageFileIds dto)) (\<lambda>_.
      bind_h (sync_if (syncProductAssets Asset_file i) (uc_fileIds dto)) (\<lambda>_ s. (getProductWithAssets s i, s))))" for n
    by (cases "n = 0") (simp_all del: if_split, (intro frames)+)
  then show "writes {Shop_part} (adminUpdateProduct admin i dto)"
    unfolding adminUpdateProduct_def by (intro writes_transaction writes_bind stmt)
  show "writes {Shop_part} (adminDeleteProduct admin i)"
    by (rule writesI) (auto simp: adminDeleteProduct_def split: prod.split_asm sum.split_asm if_split_asm dest: writesD [OF shop_updates(1)])
qed

section \<open>Faults and service orders\<close>

lemma fault_statements [frames]:
  "writes {Faults_part} (insert_fault i ndto)" "writes {Faults_part} (insert_fault_history i st u)"
  "writes {Faults_part} (insert_fault_asset i x n)"
  by (simp_all add: frame_leaf insert_fault_def insert_fault_history_def insert_fault_asset_def)

lemma fault_updates [frames]:
  "outside {Faults_part} s (sql_update_fault i f s)" "outside {Faults_part} s (clear_fault_assets i s)"
  by (simp_all add: frame_leaf sql_update_fault_def clear_fault_assets_def)

lemma sync_faults_writes [frames]: "writes {Faults_part} (syncFaultAssets i xs)"
proof -
  have "writes {Faults_part} (for_each (\<lambda>(n, f). insert_fault_asset i f (int n)) (enumerate 0 xs))"
    by (rule writes_for_each) (simp add: split_beta fault_statements)
  from outside_then [OF fault_updates(2) this] have "writes {Faults_part} (rewriteFaultAssets i xs)"
    by (simp add: writes_def rewriteFaultAssets_def)
  then show ?thesis unfolding syncFaultAssets_def assertValidFaultImageFiles_def
    by (intro writes_bind writes_for_each writes_answer)
qed

lemma fault_moved_writes:
  "outside {Faults_part} s (snd (bind_h (insert_fault_history i st u) (\<lambda>_ s2. (g s2, s2)) (sql_update_fault i f s)))"
  by (rule outside_then [OF fault_updates(1)]) (intro frames)

lemma fault_handlers [frames]:
  "writes {Faults_part} (createFault user ndto)" "writes {Faults_part} (updateFault user i dto)"
  "writes {Faults_part} (cancelFault user i)" "writes {Faults_part} (adminUpdateFaultStatus admin i st)"
proof -
  show "writes {Faults_part} (createFault user ndto)" unfolding createFault_def by (intro frames)
  have "outside {Faults_part} s (snd (bind_h (sync_if (syncFaultAssets i) v) (\<lambda>_ s2. (g s2, s2)) (sql_update_fault i f s)))"
    for s v f and g :: "db \<Rightarrow> (fault_view \<times> asset_view list) result"
    by (rule outside_then [OF fault_updates(1)]) (intro frames)
  then show "writes {Faults_part} (updateFault user i dto)"
    unfolding updateFault_def by (intro writes_transaction) (simp add: writes_def Let_def split: option.split)
  show "writes {Faults_part} (cancelFault user i)" "writes {Faults_part} (adminUpdateFaultStatus admin i st)"
    by (simp_all add: writes_def cancelFault_statements advanceFault_statements fault_moved_writes Let_def
      split: option.split sum.split)
qed

lemma service_statements [frames]:
  "writes {Services_part} (insert_service i ndto)" "writes {Services_part} (insert_service_history i st u)"
  "outside {Services_part} s (sql_update_service i f s)"
  by (simp_all add: frame_leaf insert_service_def insert_service_history_def sql_update_service_def)

lemma service_moved_writes:
  "outside {Services_part} s (snd (bind_h (insert_service_history i st u) (\<lambda>_ s2. (g s2, s2)) (sql_update_service i f s)))"
  by (rule outside_then [OF service_statements(3)]) (intro frames)

lemma service_handlers [frames]:
  "writes {Services_part} (createService user ndto)" "writes {Services_part} (updateService user i dto)"
  "writes {Services_part} (cancelService user i)" "writes {Services_part} (adminUpdateServiceStatus admin i st)"
proof -
  show "writes {Services_part} (createService user ndto)" unfolding createService_def by (intro frames)
  show "writes {Services_part} (updateService user i dto)" "writes {Services_part} (cancelService user i)"
    "writes {Services_part} (adminUpdateServiceStatus admin i st)"
    by (simp_all add: writes_def updateService_def cancelService_statements advanceService_statements
      service_moved_writes service_statements(3) Let_def split: option.split)
qed

section \<open>Follow-ups, gallery, ratings\<close>

lemma followup_handlers [frames]:
  "writes {} (adminCreateFollowupStep admin ndto)" "writes {} (adminUpdateFollowupStep i dto)"
  "writes {} (adminDeleteFollowupStep i)" "writes {} (createFollowupConversation user cdto)"
  "writes {} (sendFollowupMessage user i body scope)"
proof -
  show "writes {} (adminCreateFollowupStep admin ndto)"
    by (simp add: frame_leaf adminCreateFollowupStep_def split: sum.split option.split)
  show "writes {} (adminUpdateFollowupStep i dto)" "writes {} (adminDeleteFollowupStep i)"
    by (simp_all add: frame_leaf adminUpdateFollowupStep_def adminDeleteFollowupStep_def split: option.split)
  have "writes {} (upsert_followup_conversation k i u a)" for k i u a
    by (simp add: frame_leaf upsert_followup_conversation_def split: option.split)
  then show "writes {} (createFollowupConversation user cdto)"
    by (simp add: writes_def createFollowupConversation_def split: sum.split option.split)
  show "writes {} (sendFollowupMessage user i body scope)"
    by (simp add: frame_leaf sendFollowupMessage_def split: sum.split)
qed

lemma gallery_statements [frames]:
  "writes {} (insert_gallery_item i ndto)" "writes {} (insert_gallery_asset i x n)"
  "writes {} (sql_update_gallery a i f)" "outside {} s (clear_gallery_assets i s)"
  by (simp_all add: frame_leaf insert_gallery_item_def insert_gallery_asset_def sql_update_gallery_def
    clear_gallery_assets_def)

lemma sync_gallery_writes [frames]: "writes {} (syncGalleryAssets i xs)"
proof -
  have "writes {} (for_each (\<lambda>(n, f). insert_gallery_asset i f (int n)) (enumerate 0 xs))"
    by (rule writes_for_each) (simp add: split_beta gallery_statements)
  from outside_then [OF gallery_statements(4) this] show ?thesis by (simp add: writes_def syncGalleryAssets_def)
qed

lemma gallery_handlers [frames]:
  "writes {} (adminCreateGalleryItem admin ndto)" "writes {} (adminUpdateGalleryItem admin i dto)"
  "writes {} (adminDeleteGalleryItem admin i)"
proof -
  show "writes {} (adminCreateGalleryItem admin ndto)" unfolding adminCreateGalleryItem_def by (intro frames)
  have "writes {} (if (n :: nat) = 0 then (\<lambda>s. (Inl (NotFound ''Gallery item not found''), s)) else
      bind_h (sync_if (syncGalleryAssets i) (ug_imageFileIds dto)) (\<lambda>_ s. (getGalleryItemWithExecutor s i, s)))" for n
    by (cases "n = 0") (simp_all del: if_split, (intro frames)+)
  then show "writes {} (adminUpdateGalleryItem admin i dto)"
    unfolding adminUpdateGalleryItem_def by (intro writes_transaction writes_bind gallery_statements(3))
  show "writes {} (adminDeleteGalleryItem admin i)"
    by (rule writesI) (auto simp: adminDeleteGalleryItem_def split: prod.split_asm sum.split_asm if_split_asm
      dest: writesD [OF gallery_statements(3)])
qed

lemma rating_statements:
  "writes {Ratings_part} (insert_product_rating u i p v c)" "writes {Ratings_part} (insert_item_rating u k i v c)"
  by (simp_all add: frame_leaf insert_product_rating_def insert_item_rating_def split: option.split)

lemma createItemRating_writes [frames]: "writes {Ratings_part} (createItemRating user dto)"
  by (rule writesI) (auto simp: createItemRating_def split: prod.split_asm sum.split_asm if_split_asm
    dest: writesD [OF rating_statements(1)] writesD [OF rating_statements(2)])

section \<open>Accounts\<close>

lemma update_live_user_writes:
  "(\<And>u. u_id (f u) = u_id u) \<Longrightarrow> outside {Accounts_part} s (update_live_user i f s)"
  by (simp add: frame_leaf update_live_user_def has_user_update)

lemma logAdminAction_writes: "outside P s (logAdminAction i a j s)"
  by (simp add: frame_leaf logAdminAction_def)

lemma user_setters [simp]:
  "u_id (profile_set dto now u) = u_id u" "u_id (retire now u) = u_id u" "u_id (set_admin b now u) = u_id u"
  "u_id (set_status st now u) = u_id u" "u_id (set_password h now u) = u_id u"
  by (simp_all add: profile_set_def retire_def set_admin_def set_status_def set_password_def)

lemma logged_user_update:
  "(\<And>u. u_id (f u) = u_id u) \<Longrightarrow> outside {Accounts_part} s (logAdminAction i a j (update_live_user k f s))"
  using outside_trans [OF update_live_user_writes logAdminAction_writes] by blast

lemma account_handlers [frames]:
  "writes {Accounts_part} (updateMe cfg user dto)" "writes {Accounts_part} (changePassword c rnd user old new)"
  "writes {Accounts_part} (deleteAvatar cfg user)" "writes {Accounts_part} (deleteMe user)"
  "writes {Accounts_part} (promoteAdmin admin i)" "writes {Accounts_part} (demoteAdmin admin i)"
  by (simp_all add: writes_def updateMe_def changePassword_def deleteAvatar_def deleteMe_def promoteAdmin_def
    demoteAdmin_def update_live_user_writes logged_user_update Let_def split: option.split)

lemma seedAdminUser_writes [frames]: "writes {Accounts_part} (seedAdminUser email phone h)"
proof -
  have id: "u_id (admin_set email phone h t u) = u_id u" for t u by (simp add: admin_set_def)
  have "outside {Accounts_part} s (s\<lparr>users := update_where p (admin_set email phone h t) (users s)\<rparr>)" for s p t
    by (simp add: frame_leaf has_user_update id)
  then have set: "writes {Accounts_part} (seed_update email phone h i b)" for i b
    by (simp add: writes_def seed_update_def Let_def split: option.split)
  have "outside {Accounts_part} s ((bump T_users s)\<lparr>users := users s @ [u]\<rparr>)" for s u
    by (simp add: frame_leaf has_key_def)
  from outside_then [OF this set] show ?thesis using set
    by (auto simp: writes_def seedAdminUser_def Let_def split: option.split)
qed

lemma createWarning_writes [frames]: "writes {} (createWarning admin i body)"
proof -
  have "outside {} s (bump T_admin_warnings s)" "outside {} s ((bump T_admin_warnings s)\<lparr>admin_warnings := ws\<rparr>)" for s ws
    by (simp_all add: frame_leaf)
  then show ?thesis using outside_trans [OF _ logAdminAction_writes]
    by (simp add: writes_def createWarning_def Let_def split: sum.split)
qed

section \<open>Files and chat\<close>

lemma file_handlers [frames]:
  "writes {} (createUploadIntent sha cfg r user dto)" "writes {} (markUploaded user i checksum)"
proof -
  have "writes {} (insert_file user dto key)" for key by (simp add: frame_leaf insert_file_def)
  then show "writes {} (createUploadIntent sha cfg r user dto)"
    by (auto simp: writes_def createUploadIntent_def Let_def split: prod.split sum.split dest: writesD) (metis snd_conv)+
  show "writes {} (markUploaded user i checksum)" by (simp add: frame_leaf markUploaded_def split: option.split)
qed

lemma chat_statements:
  "writes {Chat_part} (insert_conversation a b p)" "writes {Chat_part} (insert_message i u body)"
  by (simp_all add: frame_leaf insert_conversation_def insert_message_def)

lemma chat_handlers [frames]:
  "writes {Chat_part} (getOrCreateConversation u v p)" "writes {Chat_part} (chat_sendMessage u i body)"
  "writes {Chat_part} (chat_markRead u i)"
proof -
  have row: "outside {Chat_part} s (s\<lparr>conversations := cs\<rparr>)" for s cs by (simp add: frame_leaf)
  show "writes {Chat_part} (getOrCreateConversation u v p)"
    by (rule writesI) (auto simp: getOrCreateConversation_def Let_def row
      split: if_split_asm sum.split_asm option.split_asm prod.split_asm dest: writesD [OF chat_statements(1)])
  have msg: "outside {Chat_part} s (s'\<lparr>conversations := cs\<rparr>)" if "outside {Chat_part} s s'" for s s' cs
    using outside_trans [OF that row] .
  show "writes {Chat_part} (chat_sendMessage u i body)"
    by (rule writesI) (auto simp: chat_sendMessage_def Let_def msg
      split: if_split_asm sum.split_asm prod.split_asm dest: writesD [OF chat_statements(2)])
  show "writes {Chat_part} (chat_markRead u i)"
    by (simp add: frame_leaf chat_markRead_def split: option.split sum.split)
qed

section \<open>Registration and sessions\<close>

definition auth_writes :: "part set \<Rightarrow> (auth_state, 'a) handler \<Rightarrow> bool" where
  "auth_writes P m \<longleftrightarrow> (\<forall>st. outside P (snd st) (snd (snd (m st))))"

lemma auth_writesI:
  "(\<And>r s x r' s'. m (r, s) = (x, (r', s')) \<Longrightarrow> outside P s s') \<Longrightarrow> auth_writes P m"
  unfolding auth_writes_def by (metis prod.collapse)

lemma auth_writesD: "auth_writes P m \<Longrightarrow> m st = (x, st') \<Longrightarrow> outside P (snd st) (snd st')"
  unfolding auth_writes_def by (metis snd_conv)

lemma auth_writes_transaction [frames]:
  assumes "auth_writes P m"
  shows "auth_writes P (auth_transaction m)"
proof (rule auth_writesI)
  fix r s y r'' s''
  assume run: "auth_transaction m (r, s) = (y, (r'', s''))"
  obtain x r' s' where m: "m (r, s) = (x, (r', s'))" by (metis prod.exhaust)
  then have "outside P s s'" using auth_writesD [OF assms] by fastforce
  then show "outside P s s''"
    using run m by (cases x) (auto simp: auth_transaction_def intro: outside_seqs)
qed

lemma otp_writes:
  "auth_writes {} (console_startVerification c cfg rnd u email p)"
  "auth_writes {} (console_checkVerification c cfg email p code)"
  by (simp_all add: auth_writes_def frame_leaf console_startVerification_def console_checkVerification_def
    incrementOtpAttempts_def upsert_otp_attempts_def clearOtpAttempts_def split: option.split prod.split)

lemma verification_writes [frames]:
  "auth_writes {} (startVerification c cfg mail rnd u email p)"
  "auth_writes {} (checkVerification c cfg email p code)"
proof -
  have "auth_writes {} (resend_startVerification c cfg mail rnd u email p)"
    by (rule auth_writesI) (auto simp: resend_startVerification_def
      split: prod.split_asm sum.split_asm option.split_asm if_split_asm mail_reply.split_asm
      dest: auth_writesD [OF otp_writes(1)])
  then show "auth_writes {} (startVerification c cfg mail rnd u email p)"
    by (simp add: startVerification_def resolveOtpVerificationProvider_def otp_writes)
  show "auth_writes {} (checkVerification c cfg email p code)"
    by (simp add: checkVerification_def resolveOtpVerificationProvider_def resend_checkVerification_def otp_writes)
qed

lemma token_writes [frames]:
  "auth_writes {} (saveRefreshTokenJti j i ttl)" "outside {} (snd st) (snd (snd (consumeRefreshTokenJti j st)))"
  "outside {} (snd st) (snd (revokeRefreshTokenJti j st))"
  by (cases st; simp add: auth_writes_def frame_leaf saveRefreshTokenJti_def upsert_refresh_token_def
    consumeRefreshTokenJti_def revokeRefreshTokenJti_def split: prod.split)+

lemma outside_more: "outside {} s s' \<Longrightarrow> outside P s s'"
  by (simp add: outside_def)

lemma generateTokens_writes [frames]: "auth_writes {} (generateTokens c cfg rnd i e a v)"
  by (rule auth_writesI) (auto simp: generateTokens_def Let_def split: prod.split_asm sum.split_asm
    dest: auth_writesD [OF token_writes(1)])

lemma registration_writes [frames]:
  "auth_writes {} (requestRegistrationOtp c cfg mail rnd dto)" "auth_writes {} (resendRegistrationOtp c cfg mail rnd email)"
  "auth_writes {} (requestPasswordResetOtp c cfg mail rnd email)"
proof -
  note started = auth_writesD [OF verification_writes(1)]
  have "writes {} (upsert_pending dto h t)" for h t
    by (simp add: frame_leaf upsert_pending_def)
  then have pending: "upsert_pending dto h t s = (x, s') \<Longrightarrow> outside {} s s'" for h t s x s'
    by (rule writesD)
  have "outside {} s s''"
    if "upsert_pending dto h t s = (x, s')" "startVerification c cfg mail rnd u e p (r, s') = (y, (r'', s''))"
    for h t s x s' u e p r y r'' s''
    using outside_trans [OF pending [OF that(1)]] started [OF that(2)] by simp
  then show "auth_writes {} (requestRegistrationOtp c cfg mail rnd dto)"
    by (intro auth_writesI) (auto simp: requestRegistrationOtp_def
      split: if_split_asm sum.split_asm prod.split_asm option.split_asm dest: pending)
  show "auth_writes {} (resendRegistrationOtp c cfg mail rnd email)"
    by (rule auth_writesI) (auto simp: resendRegistrationOtp_def
      split: if_split_asm sum.split_asm prod.split_asm dest: started)
  show "auth_writes {} (requestPasswordResetOtp c cfg mail rnd email)"
    by (rule auth_writesI) (auto simp: requestPasswordResetOtp_def
      split: if_split_asm sum.split_asm prod.split_asm option.split_asm dest: started)
qed

lemma session_writes [frames]:
  "auth_writes {} (login c cfg rnd email password)" "auth_writes {} (refresh c cfg rnd tok)"
  "outside {} (snd st) (snd (logout c cfg tok st))"
proof -
  note issued = auth_writesD [OF generateTokens_writes]
  show "auth_writes {} (login c cfg rnd email password)"
    by (rule auth_writesI) (auto simp: login_def split: if_split_asm sum.split_asm prod.split_asm option.split_asm dest: issued)
  have consumed: "outside {} s s'" if "consumeRefreshTokenJti j (r, s) = (v, (r', s'))" for j r s v r' s'
    using token_writes(2) [of "(r, s)" j] that by simp
  have "outside {} s s''"
    if "consumeRefreshTokenJti j (r, s) = (v, (r', s'))" "generateTokens c cfg rnd i e a w (r', s') = (y, (r'', s''))"
    for j r s v r' s' i e a w y r'' s''
    using outside_trans [OF consumed [OF that(1)]] issued [OF that(2)] by simp
  then show "auth_writes {} (refresh c cfg rnd tok)"
    by (intro auth_writesI) (auto simp: refresh_def
      split: if_split_asm sum.split_asm prod.split_asm option.split_asm dest: consumed)
  show "outside {} (snd st) (snd (logout c cfg tok st))"
    by (simp add: logout_def token_writes split: option.split)
qed

lemma new_account_writes [frames]:
  "auth_writes {Accounts_part} (verifyRegistrationOtp c cfg rnd email otp)"
  "auth_writes {Accounts_part} (resetPassword c cfg rnd email otp new confirm)"
proof -
  note issued = outside_more [OF auth_writesD [OF generateTokens_writes]]
  note checked = outside_more [OF auth_writesD [OF verification_writes(2)]]
  have "writes {Accounts_part} (insert_user p)" for p
    by (simp add: frame_leaf insert_user_def has_key_def)
  then have user: "insert_user p s = (x, s') \<Longrightarrow> outside {Accounts_part} s s'" for p s x s'
    by (rule writesD)
  have "outside {Accounts_part} s s''"
    if "insert_user p s = (x, s')" "generateTokens c cfg rnd i e a v (r, s'\<lparr>pending_registrations := ps\<rparr>) = (y, (r'', s''))"
    for p s x s' i e a v r ps y r'' s''
  proof -
    have "outside {Accounts_part} s' (s'\<lparr>pending_registrations := ps\<rparr>)" by (simp add: frame_leaf)
    then show ?thesis using outside_trans [OF user [OF that(1)]] outside_trans [OF _ issued [OF that(2)]] by simp
  qed
  then have promote: "auth_writes {Accounts_part} (promote_pending c cfg rnd email)"
    by (intro auth_writesI) (auto simp: promote_pending_def Let_def
      split: sum.split_asm prod.split_asm option.split_asm dest: user)
  have "outside {Accounts_part} s s''"
    if "generateTokens c cfg rnd i e a v (r, s\<lparr>users := update_where p (set_password h t) (users s)\<rparr>) = (y, (r'', s''))"
    for s i e a v r p h t y r'' s''
  proof -
    have "outside {Accounts_part} s (s\<lparr>users := update_where p (set_password h t) (users s)\<rparr>)"
      by (simp add: frame_leaf has_user_update)
    then show ?thesis using outside_trans [OF _ issued [OF that]] by simp
  qed
  then have reset: "auth_writes {Accounts_part} (reset_account c cfg rnd email new)"
    by (intro auth_writesI) (auto simp: reset_account_def Let_def split: option.split_asm if_split_asm)
  have both: "outside {Accounts_part} s s''"
    if "checkVerification c cfg email p otp (r, s) = (x, st')" "auth_transaction m st' = (y, (r'', s''))"
      "auth_writes {Accounts_part} m" for r s x st' p y r'' s'' and m :: "(auth_state, 'b) handler"
    using outside_trans [OF checked [OF that(1)]] auth_writesD [OF auth_writes_transaction [OF that(3)] that(2)] by simp
  show "auth_writes {Accounts_part} (verifyRegistrationOtp c cfg rnd email otp)"
    by (rule auth_writesI) (auto simp: verifyRegistrationOtp_def split: sum.split_asm prod.split_asm
      dest: checked both [OF _ _ promote])
  show "auth_writes {Accounts_part} (resetPassword c cfg rnd email otp new confirm)"
    by (rule auth_writesI) (auto simp: resetPassword_def split: sum.split_asm prod.split_asm if_split_asm
      dest: checked both [OF _ _ reset])
qed

lemma drop_status_key_writes: "drop_status_key i a (r, s) = (x, (r', s')) \<Longrightarrow> s' = s"
  by (auto simp: drop_status_key_def split: prod.split_asm sum.split_asm)

lemma moderation_writes [frames]:
  "auth_writes {Accounts_part} (updateUserStatus admin i st)" "auth_writes {Accounts_part} (deleteUser admin i)"
  by (rule auth_writesI; auto simp: updateUserStatus_def deleteUser_def logged_user_update
    split: option.split_asm dest!: drop_status_key_writes)+

end
