(* ===== verification/Routes.thy ===== *)
theory Routes
  imports Controllers
begin

text \<open>
  The HTTP surface of the server: the routes the controllers declare with their guards and throttles
  (decorators of \<open>src/**/*.controller.ts\<close>), the guards (\<open>src/common/guards\<close>), and a request that passes
  them. What is shown: a URL built from a route selects that route, a request changes the state only when it
  is public or authorized, and reading requests change nothing.
\<close>

section \<open>Declarations\<close>

datatype verb = GET | POST | PATCH | DELETE

datatype guard = JwtAuthGuard | OptionalJwtAuthGuard | AdminGuard

text \<open>A path is the list of its segments; a parameter starts with a colon. A throttle is (limit, milliseconds).\<close>

record route =
  ro_verb :: verb
  ro_path :: "string list"
  ro_method :: string
  ro_guards :: "guard list"
  ro_throttle :: "(nat \<times> nat) option"

record controller =
  ct_name :: string
  ct_path :: "string list"
  ct_guards :: "guard list"
  ct_routes :: "route list"

definition at_path :: "verb \<Rightarrow> string list \<Rightarrow> string \<Rightarrow> route" where
  "at_path v path name = \<lparr>ro_verb = v, ro_path = path, ro_method = name, ro_guards = [], ro_throttle = None\<rparr>"

definition useGuards :: "guard list \<Rightarrow> route \<Rightarrow> route" where
  "useGuards gs r = r\<lparr>ro_guards := gs\<rparr>"

definition throttle :: "nat \<Rightarrow> nat \<Rightarrow> route \<Rightarrow> route" where
  "throttle lim ttl r = r\<lparr>ro_throttle := Some (lim, ttl)\<rparr>"

definition AuthController_routes :: controller where
  "AuthController_routes = \<lparr>ct_name = ''AuthController'', ct_path = [''auth''], ct_guards = [], ct_routes =
     [throttle 5 60000 (at_path POST [''register''] ''requestRegistrationOtp''),
      throttle 3 60000 (at_path POST [''register'', ''resend-otp''] ''resendRegistrationOtp''),
      at_path POST [''register'', ''verify''] ''verifyRegistrationOtp'',
      throttle 10 60000 (at_path POST [''login''] ''login''),
      throttle 5 60000 (at_path POST [''password'', ''request-otp''] ''requestPasswordResetOtp''),
      throttle 5 60000 (at_path POST [''password'', ''reset''] ''resetPassword''),
      at_path POST [''refresh''] ''refresh'',
      useGuards [JwtAuthGuard] (at_path POST [''logout''] ''logout'')]\<rparr>"

definition UsersController_routes :: controller where
  "UsersController_routes = \<lparr>ct_name = ''UsersController'', ct_path = [''me''], ct_guards = [JwtAuthGuard], ct_routes =
     [at_path GET [] ''getMe'', at_path PATCH [] ''updateMe'', at_path PATCH [''password''] ''changePassword'',
      at_path DELETE [''avatar''] ''deleteAvatar'', at_path DELETE [] ''deleteMe'']\<rparr>"

definition PublicUsersController_routes :: controller where
  "PublicUsersController_routes = \<lparr>ct_name = ''PublicUsersController'', ct_path = [''users''], ct_guards = [], ct_routes =
     [useGuards [OptionalJwtAuthGuard] (at_path GET ['':id''] ''getPublicProfile'')]\<rparr>"

definition ProductsController_routes :: controller where
  "ProductsController_routes = \<lparr>ct_name = ''ProductsController'', ct_path = [], ct_guards = [], ct_routes =
     [useGuards [JwtAuthGuard] (at_path GET [''my'', ''products''] ''listMyProducts''),
      throttle 60 60000 (useGuards [OptionalJwtAuthGuard] (at_path GET [''search'', ''products''] ''searchProducts''))]\<rparr>"

definition KayanProductsController_routes :: controller where
  "KayanProductsController_routes = \<lparr>ct_name = ''KayanProductsController'', ct_path = [''products''], ct_guards = [], ct_routes =
     [useGuards [OptionalJwtAuthGuard] (at_path GET [] ''listProducts''),
      useGuards [OptionalJwtAuthGuard] (at_path GET ['':id''] ''getProduct'')]\<rparr>"

definition FilesController_routes :: controller where
  "FilesController_routes = \<lparr>ct_name = ''FilesController'', ct_path = [''files''], ct_guards = [JwtAuthGuard], ct_routes =
     [at_path POST [''upload-intent''] ''createUploadIntent'',
      at_path PATCH ['':id'', ''mark-uploaded''] ''markUploaded'', at_path GET ['':id''] ''getFile'']\<rparr>"

definition ChatController_routes :: controller where
  "ChatController_routes = \<lparr>ct_name = ''ChatController'', ct_path = [''chat''], ct_guards = [JwtAuthGuard], ct_routes =
     [at_path POST [''conversations''] ''createConversation'', at_path GET [''conversations''] ''listConversations'',
      at_path GET [''conversations'', '':id''] ''getConversation'',
      at_path GET [''conversations'', '':id'', ''messages''] ''listMessages'']\<rparr>"

definition RatingsController_routes :: controller where
  "RatingsController_routes = \<lparr>ct_name = ''RatingsController'', ct_path = [''ratings'', ''summary''], ct_guards = [], ct_routes =
     [at_path GET ['':userId''] ''getUserRatingSummary'']\<rparr>"

definition KayanRatingsController_routes :: controller where
  "KayanRatingsController_routes = \<lparr>ct_name = ''KayanRatingsController'', ct_path = [''ratings''], ct_guards = [], ct_routes =
     [useGuards [JwtAuthGuard] (at_path POST [] ''createItemRating''),
      useGuards [OptionalJwtAuthGuard] (at_path GET [''items'', '':itemId''] ''getItemReviews'')]\<rparr>"

definition AdminController_routes :: controller where
  "AdminController_routes =
    \<lparr>ct_name = ''AdminController'', ct_path = [''admin''], ct_guards = [JwtAuthGuard, AdminGuard], ct_routes =
     [at_path GET [''users''] ''listUsers'', at_path GET [''users'', '':id''] ''getUserDetails'',
      at_path GET [''users'', '':id'', ''listings''] ''listUserListings'', at_path GET [''admins''] ''listAdmins'',
      at_path POST [''admins'', '':id''] ''promoteAdmin'', at_path DELETE [''admins'', '':id''] ''demoteAdmin'',
      at_path PATCH [''users'', '':id'', ''status''] ''updateUserStatus'', at_path DELETE [''users'', '':id''] ''deleteUser'',
      at_path POST [''warnings''] ''createWarning'']\<rparr>"

definition KayanAdminController_routes :: controller where
  "KayanAdminController_routes =
    \<lparr>ct_name = ''KayanAdminController'', ct_path = [''admin''], ct_guards = [JwtAuthGuard, AdminGuard], ct_routes =
     [at_path POST [''products''] ''createProduct'', at_path PATCH [''products'', '':id''] ''updateProduct'',
      at_path DELETE [''products'', '':id''] ''deleteProduct'', at_path GET [''orders''] ''listOrders'',
      at_path PATCH [''orders'', '':id'', ''status''] ''updateOrderStatus'', at_path GET [''faults''] ''listFaults'',
      at_path PATCH [''faults'', '':id'', ''status''] ''updateFaultStatus'', at_path GET [''services''] ''listServices'',
      at_path PATCH [''services'', '':id'', ''status''] ''updateServiceStatus'',
      at_path POST [''followups'', '':itemType'', '':itemId'', ''steps''] ''createStep'',
      at_path PATCH [''followups'', '':itemType'', '':itemId'', ''steps'', '':id''] ''updateStep'',
      at_path DELETE [''followups'', '':itemType'', '':itemId'', ''steps'', '':id''] ''deleteStep'',
      at_path GET [''gallery''] ''listGallery'', at_path POST [''gallery''] ''createGalleryItem'',
      at_path PATCH [''gallery'', '':id''] ''updateGalleryItem'', at_path DELETE [''gallery'', '':id''] ''deleteGalleryItem'']\<rparr>"

definition OrdersController_routes :: controller where
  "OrdersController_routes = \<lparr>ct_name = ''OrdersController'', ct_path = [''orders''], ct_guards = [JwtAuthGuard], ct_routes =
     [at_path POST [] ''createOrder'', at_path GET [''me''] ''listMyOrders'', at_path GET ['':id''] ''getOrder'',
      at_path PATCH ['':id'', ''address''] ''updateOrderAddress'', at_path POST ['':id'', ''cancel''] ''cancelOrder'']\<rparr>"

definition CartController_routes :: controller where
  "CartController_routes = \<lparr>ct_name = ''CartController'', ct_path = [''cart''], ct_guards = [JwtAuthGuard], ct_routes =
     [at_path GET [] ''listCart'', at_path POST [''items''] ''addCartItem'', at_path PATCH [''items'', '':id''] ''updateCartItem'',
      at_path DELETE [''items'', '':id''] ''deleteCartItem'', at_path POST [''checkout''] ''checkoutCart'']\<rparr>"

definition FaultsController_routes :: controller where
  "FaultsController_routes = \<lparr>ct_name = ''FaultsController'', ct_path = [''faults''], ct_guards = [JwtAuthGuard], ct_routes =
     [at_path POST [] ''createFault'', at_path PATCH ['':id''] ''updateFault'', at_path GET [''me''] ''listMyFaults'',
      at_path GET ['':id''] ''getFault'', at_path POST ['':id'', ''cancel''] ''cancelFault'']\<rparr>"

definition ServicesController_routes :: controller where
  "ServicesController_routes = \<lparr>ct_name = ''ServicesController'', ct_path = [''services''], ct_guards = [JwtAuthGuard], ct_routes =
     [at_path POST [] ''createService'', at_path GET [] ''listServices'', at_path PATCH ['':id''] ''updateService'',
      at_path GET [''me''] ''listMyServices'', at_path GET ['':id''] ''getService'', at_path POST ['':id'', ''cancel''] ''cancelService'']\<rparr>"

definition FollowupsController_routes :: controller where
  "FollowupsController_routes = \<lparr>ct_name = ''FollowupsController'', ct_path = [''followups''], ct_guards = [JwtAuthGuard], ct_routes =
     [at_path GET ['':itemType'', '':itemId'', ''steps''] ''listFollowupSteps'',
      at_path POST ['':itemType'', '':itemId'', ''chat'', ''conversations''] ''createConversation'',
      at_path GET ['':itemType'', '':itemId'', ''chat'', ''conversations'', '':id'', ''messages''] ''listMessages'',
      at_path POST ['':itemType'', '':itemId'', ''chat'', ''conversations'', '':id'', ''messages''] ''sendMessage'']\<rparr>"

definition GalleryController_routes :: controller where
  "GalleryController_routes = \<lparr>ct_name = ''GalleryController'', ct_path = [''gallery''], ct_guards = [], ct_routes =
     [useGuards [OptionalJwtAuthGuard] (at_path GET [] ''listGallery'')]\<rparr>"

definition HealthController_routes :: controller where
  "HealthController_routes = \<lparr>ct_name = ''HealthController'', ct_path = [''health''], ct_guards = [], ct_routes =
     [at_path GET [''live''] ''live'', at_path GET [''ready''] ''ready'']\<rparr>"

text \<open>The controllers in the order in which \<open>app.module.ts\<close> imports their modules.\<close>

definition controllers :: "controller list" where
  "controllers =
     [AuthController_routes, UsersController_routes, PublicUsersController_routes, ProductsController_routes,
      KayanProductsController_routes, FilesController_routes, ChatController_routes, RatingsController_routes,
      KayanRatingsController_routes, AdminController_routes, KayanAdminController_routes, OrdersController_routes,
      CartController_routes, FaultsController_routes, ServicesController_routes, FollowupsController_routes,
      GalleryController_routes, HealthController_routes]"

section \<open>Requests\<close>

fun item_type_text :: "item_type \<Rightarrow> string" where
  "item_type_text Item_ORDER = ''order''"
| "item_type_text Item_FAULT = ''fault''"
| "item_type_text Item_SERVICE = ''service''"

text \<open>The method a request calls, and the parameters in its path.\<close>

fun auth_call :: "auth_request \<Rightarrow> string \<times> (string \<times> string) list" where
  "auth_call (Auth_requestRegistrationOtp _) = (''requestRegistrationOtp'', [])"
| "auth_call (Auth_resendRegistrationOtp _) = (''resendRegistrationOtp'', [])"
| "auth_call (Auth_verifyRegistrationOtp _ _) = (''verifyRegistrationOtp'', [])"
| "auth_call (Auth_login _ _) = (''login'', [])"
| "auth_call (Auth_requestPasswordResetOtp _) = (''requestPasswordResetOtp'', [])"
| "auth_call (Auth_resetPassword _ _ _ _) = (''resetPassword'', [])"
| "auth_call (Auth_refresh _) = (''refresh'', [])"
| "auth_call (Auth_logout _) = (''logout'', [])"

fun users_call :: "users_request \<Rightarrow> string \<times> (string \<times> string) list" where
  "users_call Users_getMe = (''getMe'', [])"
| "users_call (Users_updateMe _) = (''updateMe'', [])"
| "users_call (Users_changePassword _ _) = (''changePassword'', [])"
| "users_call Users_deleteAvatar = (''deleteAvatar'', [])"
| "users_call Users_deleteMe = (''deleteMe'', [])"

fun public_users_call :: "public_users_request \<Rightarrow> string \<times> (string \<times> string) list" where
  "public_users_call (Users_getPublicProfile i _) = (''getPublicProfile'', [(''id'', show_int i)])"

fun listings_call :: "listings_request \<Rightarrow> string \<times> (string \<times> string) list" where
  "listings_call (Listings_listMyProducts _) = (''listMyProducts'', [])"
| "listings_call (Listings_searchProducts _) = (''searchProducts'', [])"

fun products_call :: "products_request \<Rightarrow> string \<times> (string \<times> string) list" where
  "products_call (Kayan_listProducts _) = (''listProducts'', [])"
| "products_call (Kayan_getProduct i) = (''getProduct'', [(''id'', show_int i)])"

fun files_call :: "files_request \<Rightarrow> string \<times> (string \<times> string) list" where
  "files_call (Files_createUploadIntent _) = (''createUploadIntent'', [])"
| "files_call (Files_markUploaded i _) = (''markUploaded'', [(''id'', show_int i)])"
| "files_call (Files_getFile i) = (''getFile'', [(''id'', show_int i)])"

fun chat_call :: "chat_request \<Rightarrow> string \<times> (string \<times> string) list" where
  "chat_call (Chat_createConversation _ _) = (''createConversation'', [])"
| "chat_call (Chat_listConversations _ _) = (''listConversations'', [])"
| "chat_call (Chat_getConversation i) = (''getConversation'', [(''id'', show_int i)])"
| "chat_call (Chat_listMessages i _ _) = (''listMessages'', [(''id'', show_int i)])"

fun summary_call :: "summary_request \<Rightarrow> string \<times> (string \<times> string) list" where
  "summary_call (Ratings_getUserRatingSummary i) = (''getUserRatingSummary'', [(''userId'', show_int i)])"

fun ratings_call :: "ratings_request \<Rightarrow> string \<times> (string \<times> string) list" where
  "ratings_call (Ratings_createItemRating _) = (''createItemRating'', [])"
| "ratings_call (Ratings_getItemReviews i _ _) = (''getItemReviews'', [(''itemId'', show_int i)])"

fun admin_call :: "admin_request \<Rightarrow> string \<times> (string \<times> string) list" where
  "admin_call (Admin_listUsers _) = (''listUsers'', [])"
| "admin_call (Admin_getUserDetails i) = (''getUserDetails'', [(''id'', show_int i)])"
| "admin_call (Admin_listUserListings i _ _) = (''listUserListings'', [(''id'', show_int i)])"
| "admin_call (Admin_listAdmins _) = (''listAdmins'', [])"
| "admin_call (Admin_promoteAdmin i) = (''promoteAdmin'', [(''id'', show_int i)])"
| "admin_call (Admin_demoteAdmin i) = (''demoteAdmin'', [(''id'', show_int i)])"
| "admin_call (Admin_updateUserStatus i _) = (''updateUserStatus'', [(''id'', show_int i)])"
| "admin_call (Admin_deleteUser i) = (''deleteUser'', [(''id'', show_int i)])"
| "admin_call (Admin_createWarning _ _) = (''createWarning'', [])"

fun kayan_admin_call :: "kayan_admin_request \<Rightarrow> string \<times> (string \<times> string) list" where
  "kayan_admin_call (Manage_createProduct _) = (''createProduct'', [])"
| "kayan_admin_call (Manage_updateProduct i _) = (''updateProduct'', [(''id'', show_int i)])"
| "kayan_admin_call (Manage_deleteProduct i) = (''deleteProduct'', [(''id'', show_int i)])"
| "kayan_admin_call (Manage_listOrders _) = (''listOrders'', [])"
| "kayan_admin_call (Manage_updateOrderStatus i _) = (''updateOrderStatus'', [(''id'', show_int i)])"
| "kayan_admin_call (Manage_listFaults _) = (''listFaults'', [])"
| "kayan_admin_call (Manage_updateFaultStatus i _) = (''updateFaultStatus'', [(''id'', show_int i)])"
| "kayan_admin_call (Manage_listServices _) = (''listServices'', [])"
| "kayan_admin_call (Manage_updateServiceStatus i _) = (''updateServiceStatus'', [(''id'', show_int i)])"
| "kayan_admin_call (Manage_createStep k j _ _ _) = (''createStep'', [(''itemType'', item_type_text k), (''itemId'', show_int j)])"
| "kayan_admin_call (Manage_updateStep k j i _) = (''updateStep'', [(''itemType'', item_type_text k), (''itemId'', show_int j), (''id'', show_int i)])"
| "kayan_admin_call (Manage_deleteStep k j i) = (''deleteStep'', [(''itemType'', item_type_text k), (''itemId'', show_int j), (''id'', show_int i)])"
| "kayan_admin_call (Manage_listGallery _) = (''listGallery'', [])"
| "kayan_admin_call (Manage_createGalleryItem _) = (''createGalleryItem'', [])"
| "kayan_admin_call (Manage_updateGalleryItem i _) = (''updateGalleryItem'', [(''id'', show_int i)])"
| "kayan_admin_call (Manage_deleteGalleryItem i) = (''deleteGalleryItem'', [(''id'', show_int i)])"

fun orders_call :: "orders_request \<Rightarrow> string \<times> (string \<times> string) list" where
  "orders_call (Orders_createOrder _) = (''createOrder'', [])"
| "orders_call (Orders_listMyOrders _) = (''listMyOrders'', [])"
| "orders_call (Orders_getOrder i) = (''getOrder'', [(''id'', show_int i)])"
| "orders_call (Orders_updateOrderAddress i _) = (''updateOrderAddress'', [(''id'', show_int i)])"
| "orders_call (Orders_cancelOrder i) = (''cancelOrder'', [(''id'', show_int i)])"

fun cart_call :: "cart_request \<Rightarrow> string \<times> (string \<times> string) list" where
  "cart_call Cart_listCart = (''listCart'', [])"
| "cart_call (Cart_addCartItem _ _) = (''addCartItem'', [])"
| "cart_call (Cart_updateCartItem i _) = (''updateCartItem'', [(''id'', show_int i)])"
| "cart_call (Cart_deleteCartItem i) = (''deleteCartItem'', [(''id'', show_int i)])"
| "cart_call (Cart_checkoutCart _) = (''checkoutCart'', [])"

fun faults_call :: "faults_request \<Rightarrow> string \<times> (string \<times> string) list" where
  "faults_call (Faults_createFault _) = (''createFault'', [])"
| "faults_call (Faults_updateFault i _) = (''updateFault'', [(''id'', show_int i)])"
| "faults_call (Faults_listMyFaults _) = (''listMyFaults'', [])"
| "faults_call (Faults_getFault i) = (''getFault'', [(''id'', show_int i)])"
| "faults_call (Faults_cancelFault i) = (''cancelFault'', [(''id'', show_int i)])"

fun services_call :: "services_request \<Rightarrow> string \<times> (string \<times> string) list" where
  "services_call (Services_createService _) = (''createService'', [])"
| "services_call (Services_listServices _) = (''listServices'', [])"
| "services_call (Services_updateService i _) = (''updateService'', [(''id'', show_int i)])"
| "services_call (Services_listMyServices _) = (''listMyServices'', [])"
| "services_call (Services_getService i) = (''getService'', [(''id'', show_int i)])"
| "services_call (Services_cancelService i) = (''cancelService'', [(''id'', show_int i)])"

fun followups_call :: "followups_request \<Rightarrow> string \<times> (string \<times> string) list" where
  "followups_call (Followups_listFollowupSteps k j _) = (''listFollowupSteps'', [(''itemType'', item_type_text k), (''itemId'', show_int j)])"
| "followups_call (Followups_createConversation k j _) = (''createConversation'', [(''itemType'', item_type_text k), (''itemId'', show_int j)])"
| "followups_call (Followups_listMessages k j i) = (''listMessages'', [(''itemType'', item_type_text k), (''itemId'', show_int j), (''id'', show_int i)])"
| "followups_call (Followups_sendMessage k j i _) = (''sendMessage'', [(''itemType'', item_type_text k), (''itemId'', show_int j), (''id'', show_int i)])"

fun gallery_call :: "gallery_request \<Rightarrow> string \<times> (string \<times> string) list" where
  "gallery_call (Gallery_listGallery _) = (''listGallery'', [])"

fun health_call :: "health_request \<Rightarrow> string \<times> (string \<times> string) list" where
  "health_call Health_live = (''live'', [])"
| "health_call Health_ready = (''ready'', [])"

datatype request =
    To_auth auth_request
  | To_users users_request
  | To_public_users public_users_request
  | To_listings listings_request
  | To_products products_request
  | To_files files_request
  | To_chat chat_request
  | To_summary summary_request
  | To_ratings ratings_request
  | To_admin admin_request
  | To_kayan_admin kayan_admin_request
  | To_orders orders_request
  | To_cart cart_request
  | To_faults faults_request
  | To_services services_request
  | To_followups followups_request
  | To_gallery gallery_request
  | To_health health_request

text \<open>The controller a request goes to, with the method and the parameters.\<close>

fun call :: "request \<Rightarrow> controller \<times> string \<times> (string \<times> string) list" where
  "call (To_auth q) = (AuthController_routes, auth_call q)"
| "call (To_users q) = (UsersController_routes, users_call q)"
| "call (To_public_users q) = (PublicUsersController_routes, public_users_call q)"
| "call (To_listings q) = (ProductsController_routes, listings_call q)"
| "call (To_products q) = (KayanProductsController_routes, products_call q)"
| "call (To_files q) = (FilesController_routes, files_call q)"
| "call (To_chat q) = (ChatController_routes, chat_call q)"
| "call (To_summary q) = (RatingsController_routes, summary_call q)"
| "call (To_ratings q) = (KayanRatingsController_routes, ratings_call q)"
| "call (To_admin q) = (AdminController_routes, admin_call q)"
| "call (To_kayan_admin q) = (KayanAdminController_routes, kayan_admin_call q)"
| "call (To_orders q) = (OrdersController_routes, orders_call q)"
| "call (To_cart q) = (CartController_routes, cart_call q)"
| "call (To_faults q) = (FaultsController_routes, faults_call q)"
| "call (To_services q) = (ServicesController_routes, services_call q)"
| "call (To_followups q) = (FollowupsController_routes, followups_call q)"
| "call (To_gallery q) = (GalleryController_routes, gallery_call q)"
| "call (To_health q) = (HealthController_routes, health_call q)"

definition route_of :: "request \<Rightarrow> route option" where
  "route_of q = (let (c, name, ps) = call q in find (\<lambda>r. ro_method r = name) (ct_routes c))"

definition guards_of :: "request \<Rightarrow> guard list" where
  "guards_of q = ct_guards (fst (call q)) @ (case route_of q of None \<Rightarrow> [] | Some r \<Rightarrow> ro_guards r)"

definition verb_of :: "request \<Rightarrow> verb" where
  "verb_of q = (case route_of q of None \<Rightarrow> GET | Some r \<Rightarrow> ro_verb r)"

section \<open>Guards\<close>

text \<open>
  A guard sees the bearer token of the request and \<open>request.user\<close>, and sets the latter. \<open>handleRequest\<close> of the
  optional guard turns every failure into no user.
\<close>

definition jwt_guard :: "'h world \<Rightarrow> db \<Rightarrow> string option \<Rightarrow> auth_user result" where
  "jwt_guard w s tok =
     (case tok of
        None \<Rightarrow> Inl (Unauthorized ''Unauthorized'')
      | Some t \<Rightarrow> map_sum id auth_user.truncate (authenticate (w_crypto w) (w_cfg w) s t))"

fun run_guard :: "'h world \<Rightarrow> db \<Rightarrow> string option \<Rightarrow> guard \<Rightarrow> auth_user option \<Rightarrow> auth_user option result" where
  "run_guard w s tok JwtAuthGuard current = map_sum id Some (jwt_guard w s tok)"
| "run_guard w s tok OptionalJwtAuthGuard current =
     Inr (case jwt_guard w s tok of Inl _ \<Rightarrow> None | Inr user \<Rightarrow> Some user)"
| "run_guard w s tok AdminGuard current =
     (case current of
        None \<Rightarrow> Inl (Forbidden ''Admin privileges required'')
      | Some user \<Rightarrow> map_sum id Some (adminGuard s user))"

fun run_guards :: "'h world \<Rightarrow> db \<Rightarrow> string option \<Rightarrow> guard list \<Rightarrow> auth_user option \<Rightarrow> auth_user option result" where
  "run_guards w s tok [] current = Inr current"
| "run_guards w s tok (g # gs) current =
     (case run_guard w s tok g current of Inl e \<Rightarrow> Inl e | Inr current' \<Rightarrow> run_guards w s tok gs current')"

section \<open>A request\<close>

datatype reply =
    Auth_reply auth_reply
  | Users_reply users_reply
  | Public_profile_reply public_profile
  | Listings_reply "listing_view list"
  | Products_reply products_reply
  | Files_reply files_reply
  | Chat_reply chat_reply
  | Summary_reply "int \<times> int \<times> user_rating list"
  | Ratings_reply ratings_reply
  | Admin_reply admin_reply
  | Kayan_admin_reply kayan_admin_reply
  | Orders_reply orders_reply
  | Cart_controller_reply cart_reply
  | Faults_reply faults_reply
  | Services_reply services_reply
  | Followups_reply followups_reply
  | Gallery_reply "gallery_answer list \<times> int"
  | Health_reply string

definition reply_with :: "('a \<Rightarrow> 'b) \<Rightarrow> ('s, 'a) handler \<Rightarrow> ('s, 'b) handler" where
  "reply_with k m s = (case m s of (x, s') \<Rightarrow> (map_sum id k x, s'))"

fun handle :: "'h world \<Rightarrow> draws \<Rightarrow> auth_user option \<Rightarrow> request \<Rightarrow> ('h server, reply) handler" where
  "handle w d current (To_auth q) = reply_with Auth_reply (AuthController w d q)"
| "handle w d current (To_users q) = reply_with Users_reply (with_user current (\<lambda>u. UsersController w d u q))"
| "handle w d current (To_public_users q) = reply_with Public_profile_reply (PublicUsersController w q)"
| "handle w d current (To_listings q) = reply_with Listings_reply (ProductsController w current q)"
| "handle w d current (To_products q) = reply_with Products_reply (KayanProductsController q)"
| "handle w d current (To_files q) = reply_with Files_reply (with_user current (\<lambda>u. FilesController w d u q))"
| "handle w d current (To_chat q) = reply_with Chat_reply (with_user current (\<lambda>u. ChatController w u q))"
| "handle w d current (To_summary q) = reply_with Summary_reply (RatingsController q)"
| "handle w d current (To_ratings q) = reply_with Ratings_reply (KayanRatingsController current q)"
| "handle w d current (To_admin q) = reply_with Admin_reply (with_user current (\<lambda>u. AdminController u q))"
| "handle w d current (To_kayan_admin q) =
     reply_with Kayan_admin_reply (with_user current (\<lambda>u. KayanAdminController u q))"
| "handle w d current (To_orders q) = reply_with Orders_reply (with_user current (\<lambda>u. OrdersController u q))"
| "handle w d current (To_cart q) = reply_with Cart_controller_reply (with_user current (\<lambda>u. CartController u q))"
| "handle w d current (To_faults q) = reply_with Faults_reply (with_user current (\<lambda>u. FaultsController u q))"
| "handle w d current (To_services q) = reply_with Services_reply (with_user current (\<lambda>u. ServicesController u q))"
| "handle w d current (To_followups q) = reply_with Followups_reply (with_user current (\<lambda>u. FollowupsController u q))"
| "handle w d current (To_gallery q) = reply_with Gallery_reply (GalleryController q)"
| "handle w d current (To_health q) = reply_with Health_reply (HealthController q)"

text \<open>Guards run before the validation of the parameters and before the method; the first refusal answers.\<close>

definition serve :: "'h world \<Rightarrow> draws \<Rightarrow> string option \<Rightarrow> request \<Rightarrow> ('h server, reply) handler" where
  "serve w d tok q sv =
     (case run_guards w (sv_db sv) tok (guards_of q) None of
        Inl e \<Rightarrow> (Inl e, sv)
      | Inr current \<Rightarrow> handle w d current q sv)"

section \<open>URLs\<close>

type_synonym parameters = "(string \<times> string) list"

definition is_param :: "string \<Rightarrow> bool" where
  "is_param seg \<longleftrightarrow> seg \<noteq> [] \<and> hd seg = CHR '':''"

text \<open>Matching of a path with a declared path, and the URL that fills the parameters of a declared path.\<close>

fun match_path :: "string list \<Rightarrow> string list \<Rightarrow> parameters option" where
  "match_path [] [] = Some []"
| "match_path (t # ts) (x # xs) =
     (if is_param t then map_option (Cons (tl t, x)) (match_path ts xs)
      else if t = x then match_path ts xs else None)"
| "match_path _ _ = None"

fun fill :: "string list \<Rightarrow> parameters \<Rightarrow> string list" where
  "fill [] ps = []"
| "fill (t # ts) ps = (if is_param t then coalesce (map_of ps (tl t)) [] else t) # fill ts ps"

text \<open>\<open>app.setGlobalPrefix('api')\<close>; the routes are tried in the order of their declaration.\<close>

definition endpoints :: "(controller \<times> route) list" where
  "endpoints = concat (map (\<lambda>c. map (Pair c) (ct_routes c)) controllers)"

definition full_path :: "controller \<times> route \<Rightarrow> string list" where
  "full_path e = ''api'' # ct_path (fst e) @ ro_path (snd e)"

fun first_match :: "(controller \<times> route) list \<Rightarrow> verb \<Rightarrow> string list \<Rightarrow> (string \<times> string \<times> parameters) option" where
  "first_match [] v url = None"
| "first_match (e # es) v url =
     (case (if ro_verb (snd e) = v then match_path (full_path e) url else None) of
        None \<Rightarrow> first_match es v url
      | Some ps \<Rightarrow> Some (ct_name (fst e), ro_method (snd e), ps))"

definition resolve :: "verb \<Rightarrow> string list \<Rightarrow> (string \<times> string \<times> parameters) option" where
  "resolve = first_match endpoints"

definition url_of :: "request \<Rightarrow> string list" where
  "url_of q = (let (c, name, ps) = call q in
     case route_of q of None \<Rightarrow> [] | Some r \<Rightarrow> fill (full_path (c, r)) ps)"

lemmas route_tables = AuthController_routes_def UsersController_routes_def PublicUsersController_routes_def
  ProductsController_routes_def KayanProductsController_routes_def FilesController_routes_def
  ChatController_routes_def RatingsController_routes_def KayanRatingsController_routes_def
  AdminController_routes_def KayanAdminController_routes_def OrdersController_routes_def
  CartController_routes_def FaultsController_routes_def ServicesController_routes_def
  FollowupsController_routes_def GalleryController_routes_def HealthController_routes_def
  at_path_def useGuards_def throttle_def

section \<open>No route hides another\<close>

text \<open>
  \<open>may_match u t\<close>: the declared path \<open>u\<close> may match a URL that fills \<open>t\<close>; the parameters other than the item
  type are numbers, which no literal segment looks like.
\<close>

definition id_text :: "string \<Rightarrow> bool" where
  "id_text x \<longleftrightarrow> x \<noteq> [] \<and> (hd x = CHR ''-'' \<or> is_digit (hd x))"

fun may_match :: "string list \<Rightarrow> string list \<Rightarrow> bool" where
  "may_match [] [] \<longleftrightarrow> True"
| "may_match (u # us) (t # ts) \<longleftrightarrow>
     (if (if is_param u then True else if is_param t then t = '':itemType'' \<or> id_text u else u = t)
      then may_match us ts else False)"
| "may_match _ _ \<longleftrightarrow> False"

definition shadows :: "verb \<times> string list \<Rightarrow> verb \<times> string list \<Rightarrow> bool" where
  "shadows x y \<longleftrightarrow> (if fst x = fst y then may_match (snd x) (snd y) else False)"

fun unambiguous :: "(verb \<times> string list) list \<Rightarrow> bool" where
  "unambiguous [] \<longleftrightarrow> True"
| "unambiguous (x # xs) \<longleftrightarrow> (if list_ex (shadows x) xs then False else unambiguous xs)"

definition declared :: "controller \<times> route \<Rightarrow> verb \<times> string list" where
  "declared e = (ro_verb (snd e), full_path e)"

text \<open>The parameters of a declared path, and values that fit it.\<close>

definition param_names :: "string list \<Rightarrow> string list" where
  "param_names ts = map tl (filter is_param ts)"

definition fits :: "string list \<Rightarrow> parameters \<Rightarrow> bool" where
  "fits ts ps \<longleftrightarrow> map fst ps = param_names ts \<and> distinct (map fst ps) \<and>
     list_all (\<lambda>(k, v). k = ''itemType'' \<or> id_text v) ps"

lemma id_text_show_int: "id_text (show_int i)"
proof -
  have "show_nat k \<noteq> [] \<and> is_digit (hd (show_nat k))" for k
    using all_digits_show_nat [of k] by (cases "show_nat k") (auto simp: all_digits_def)
  then show ?thesis by (auto simp: id_text_def show_int_def)
qed

lemma match_fill:
  assumes "match_path u (fill t ps) \<noteq> None"
    and "list_all (\<lambda>k. k = ''itemType'' \<or> id_text (coalesce (map_of ps k) [])) (param_names t)"
  shows "may_match u t"
  using assms
proof (induction u t rule: may_match.induct)
  case (2 u us t ts)
  then show ?case
    by (auto simp: param_names_def is_param_def split: if_split_asm) 
      (metis list.exhaust_sel)+
qed (simp_all)

lemma match_own:
  assumes "distinct (map fst ps @ map fst qs)" and "map fst qs = param_names t"
  shows "match_path t (fill t (ps @ qs)) = Some qs"
  using assms
proof (induction t arbitrary: ps qs)
  case Nil
  then show ?case by (simp add: param_names_def)
next
  case (Cons t ts)
  show ?case
  proof (cases "is_param t")
    case False
    then show ?thesis using Cons by (simp add: param_names_def)
  next
    case True
    with Cons.prems(2) obtain v qs' where qs: "qs = (tl t, v) # qs'" "map fst qs' = param_names ts"
      by (cases qs) (auto simp: param_names_def)
    have "map_of ps (tl t) = None"
      using Cons.prems(1) by (auto simp: qs map_of_eq_None_iff)
    then have v: "map_of (ps @ qs) (tl t) = Some v" by (simp add: qs map_add_def)
    have "match_path ts (fill ts ((ps @ [(tl t, v)]) @ qs')) = Some qs'"
      using Cons.prems(1) qs by (intro Cons.IH) auto
    then show ?thesis using True v by (simp add: qs coalesce_def)
  qed
qed

lemma first_match_own:
  assumes "unambiguous (map declared es)" and "e \<in> set es" and "fits (full_path e) ps"
  shows "first_match es (ro_verb (snd e)) (fill (full_path e) ps) = Some (ct_name (fst e), ro_method (snd e), ps)"
  using assms(1,2)
proof (induction es)
  case Nil
  then show ?case by simp
next
  case (Cons x es)
  let ?url = "fill (full_path e) ps"
  have own: "match_path (full_path e) ?url = Some ps"
    using assms(3) match_own [of "[]" ps "full_path e"] unfolding fits_def append_Nil list.map(1) by blast
  show ?case
  proof (cases "x = e")
    case True
    then show ?thesis using own by simp
  next
    case False
    with Cons.prems have e: "e \<in> set es" and rest: "unambiguous (map declared es)"
      and "\<not> shadows (declared x) (declared e)"
      by (auto simp: list_ex_iff split: if_split_asm)
    have names: "list_all (\<lambda>k. k = ''itemType'' \<or> id_text (coalesce (map_of ps k) [])) (param_names (full_path e))"
    proof -
      have "k = ''itemType'' \<or> id_text (coalesce (map_of ps k) [])" if "k \<in> fst ` set ps" for k
      proof -
        from that obtain v where v: "(k, v) \<in> set ps" by auto
        moreover have "distinct (map fst ps)" using assms(3) unfolding fits_def by blast
        ultimately have "map_of ps k = Some v" by simp
        then show ?thesis using v assms(3) by (auto simp: fits_def list_all_iff)
      qed
      then show ?thesis using assms(3) by (simp add: fits_def list_all_iff flip: set_map)
    qed
    have "match_path (full_path x) ?url = None" if "ro_verb (snd x) = ro_verb (snd e)"
    proof -
      have "\<not> may_match (full_path x) (full_path e)"
        using \<open>\<not> shadows _ _\<close> that by (simp add: shadows_def declared_def)
      then show ?thesis using match_fill [of "full_path x" "full_path e" ps] names by blast
    qed
    then show ?thesis using Cons.IH [OF rest e] by simp
  qed
qed

lemma controllers_call: "fst (call q) \<in> set controllers"
  by (cases q) (simp_all add: controllers_def)

lemma in_endpoints: "c \<in> set controllers \<Longrightarrow> r \<in> set (ct_routes c) \<Longrightarrow> (c, r) \<in> set endpoints"
  by (auto simp: endpoints_def)

definition own_route :: "request \<Rightarrow> bool" where
  "own_route q \<longleftrightarrow> (case route_of q of None \<Rightarrow> False | Some r \<Rightarrow> fits (full_path (fst (call q), r)) (snd (snd (call q))))"

lemmas fit_simps = own_route_def route_of_def route_tables full_path_def fits_def param_names_def is_param_def id_text_show_int

lemma own_route: "own_route q"
  by (cases q; rename_tac x; case_tac x; simp add: fit_simps)

lemma table_unambiguous: "unambiguous (map declared endpoints)"
  by (simp add: endpoints_def controllers_def route_tables declared_def full_path_def shadows_def is_param_def
    id_text_def is_digit_def)

text \<open>C36: every route can be reached: the URL of a request, made of the declared path with the parameters of the
  request in it, selects under its verb the controller and the method of the request and gives back its
  parameters; no route declared earlier takes it away.\<close>

theorem url_reaches_route:
  "resolve (verb_of q) (url_of q) = Some (ct_name (fst (call q)), fst (snd (call q)), snd (snd (call q)))"
proof -
  obtain c name ps where q: "call q = (c, name, ps)" by (metis prod.exhaust)
  obtain r where r: "route_of q = Some r" and fits: "fits (full_path (c, r)) ps"
    using own_route [of q] by (auto simp: own_route_def q split: option.split_asm)
  have m: "r \<in> set (ct_routes c)" "ro_method r = name"
    using r by (auto simp: route_of_def q dest: find_SomeD)
  have "(c, r) \<in> set endpoints" using in_endpoints m(1) controllers_call [of q] by (simp add: q)
  from first_match_own [OF table_unambiguous this fits] show ?thesis
    by (simp add: resolve_def verb_of_def url_of_def q r m(2))
qed


section \<open>Who may change the state\<close>

lemma guards_admin:
  "guards_of (To_admin q) = [JwtAuthGuard, AdminGuard]" "guards_of (To_kayan_admin q') = [JwtAuthGuard, AdminGuard]"
  by (cases q; simp add: guards_of_def route_of_def route_tables)
     (cases q'; simp add: guards_of_def route_of_def route_tables)

text \<open>The routes anyone may call: six of the authentication, and the readers.\<close>

fun open_route :: "request \<Rightarrow> bool" where
  "open_route (To_auth (Auth_logout _)) \<longleftrightarrow> False"
| "open_route (To_auth _) \<longleftrightarrow> True"
| "open_route (To_public_users _) \<longleftrightarrow> True"
| "open_route (To_listings (Listings_searchProducts _)) \<longleftrightarrow> True"
| "open_route (To_products _) \<longleftrightarrow> True"
| "open_route (To_summary _) \<longleftrightarrow> True"
| "open_route (To_ratings (Ratings_getItemReviews _ _ _)) \<longleftrightarrow> True"
| "open_route (To_gallery _) \<longleftrightarrow> True"
| "open_route (To_health _) \<longleftrightarrow> True"
| "open_route _ \<longleftrightarrow> False"

fun admin_route :: "request \<Rightarrow> bool" where
  "admin_route (To_admin _) \<longleftrightarrow> True"
| "admin_route (To_kayan_admin _) \<longleftrightarrow> True"
| "admin_route _ \<longleftrightarrow> False"

lemma guards_of_request:
  "guards_of q = (if admin_route q then [JwtAuthGuard, AdminGuard]
     else if open_route q then (if guards_of q = [OptionalJwtAuthGuard] then [OptionalJwtAuthGuard] else [])
     else [JwtAuthGuard])"
  by (cases q; rename_tac x; case_tac x; simp add: guards_of_def route_of_def route_tables)

lemma reads_only [simp]:
  "snd (on_read f k sv) = sv" "snd (on_get g k sv) = sv"
  by (simp_all add: on_read_def on_get_def)

lemma snd_reply_with [simp]: "snd (reply_with k m s) = snd (m s)"
  by (simp add: reply_with_def split: prod.split)

lemma with_user_simps [simp]:
  "with_user (Some u) m s = m u s" "snd (with_user None m s) = s"
  by (simp_all add: with_user_def)

text \<open>Reading requests, and the public requests outside \<open>/auth\<close>, leave the state alone.\<close>

lemma get_pure: "verb_of q = GET \<Longrightarrow> snd (handle w d cur q sv) = sv"
  by (cases cur; cases q; rename_tac x; case_tac x; simp add: verb_of_def route_of_def route_tables)

lemma open_pure: "open_route q \<Longrightarrow> snd (handle w d cur q sv) = sv \<or> (\<exists>x. q = To_auth x)"
  by (cases q; rename_tac x; case_tac x; simp)


lemma jwt_guard_cases:
  obtains (refused) e where "jwt_guard w s tok = Inl e" "http_status e = 401"
      "\<And>t x. tok = Some t \<Longrightarrow> authenticate (w_crypto w) (w_cfg w) s t \<noteq> Inr x"
  | (session) t x r where "tok = Some t" "authenticate (w_crypto w) (w_cfg w) s t = Inr x"
      "jwt_guard w s tok = Inr (auth_user.truncate x)" "live_user s (sub x) = Some r"
proof (cases tok)
  case None
  then show thesis by (intro refused) (auto simp: jwt_guard_def)
next
  case (Some t)
  show thesis
  proof (cases "authenticate (w_crypto w) (w_cfg w) s t")
    case (Inl e)
    then have "http_status e = 401"
      by (auto simp: authenticate_def validate_def split: option.split_asm if_split_asm)
    then show thesis using Inl Some by (intro refused) (auto simp: jwt_guard_def)
  next
    case (Inr x)
    then have "\<exists>r. live_user s (sub x) = Some r"
      by (auto simp: authenticate_def validate_def split: option.split_asm if_split_asm)
    then show thesis using session Inr Some by (auto simp: jwt_guard_def)
  qed
qed

lemma sub_truncate [simp]: "sub (auth_user.truncate x) = sub x"
  by (simp add: auth_user.defs)

lemma adminGuard_cases:
  obtains (refused) e where "adminGuard s u = Inl e" "http_status e = 403"
      "\<And>r. sub u \<noteq> 0 \<Longrightarrow> row_by u_id (sub u) (users s) = Some r \<Longrightarrow> \<not> u_is_admin r"
  | (admin) r where "adminGuard s u = Inr (u\<lparr>isAdmin := True\<rparr>)" "sub u \<noteq> 0"
      "row_by u_id (sub u) (users s) = Some r" "u_is_admin r"
  by (cases "adminGuard s u") (auto simp: adminGuard_def split: if_split_asm option.split_asm)

lemma serve_admin:
  "admin_route q \<Longrightarrow> serve w d tok q sv =
     (case jwt_guard w (sv_db sv) tok of
        Inl e \<Rightarrow> (Inl e, sv)
      | Inr u \<Rightarrow> (case adminGuard (sv_db sv) u of Inl e \<Rightarrow> (Inl e, sv) | Inr a \<Rightarrow> handle w d (Some a) q sv))"
  using guards_of_request [of q] by (simp add: serve_def split: sum.split)

lemma serve_closed:
  "\<not> admin_route q \<Longrightarrow> \<not> open_route q \<Longrightarrow> serve w d tok q sv =
     (case jwt_guard w (sv_db sv) tok of Inl e \<Rightarrow> (Inl e, sv) | Inr u \<Rightarrow> handle w d (Some u) q sv)"
  using guards_of_request [of q] by (simp add: serve_def split: sum.split)

lemma serve_open: "open_route q \<Longrightarrow> \<exists>cur. serve w d tok q sv = handle w d cur q sv"
proof -
  assume q: "open_route q"
  then have "\<not> admin_route q" by (cases q) auto
  then have "guards_of q = [OptionalJwtAuthGuard] \<or> guards_of q = []"
    using guards_of_request [of q] q by (auto split: if_split_asm)
  then show ?thesis by (auto simp: serve_def)
qed

text \<open>C4: every endpoint under \<open>/admin\<close> is closed to everyone but administrators: without a valid access token
  the answer is 401, with a token of an account whose row is not an administrator it is 403, whatever the token
  claims; in both cases nothing changes.\<close>

theorem admin_refused:
  assumes "admin_route q"
    and "\<forall>t x r. tok = Some t \<and> authenticate (w_crypto w) (w_cfg w) (sv_db sv) t = Inr x \<and>
           row_by u_id (sub x) (users (sv_db sv)) = Some r \<longrightarrow> \<not> u_is_admin r"
  shows "\<exists>e. serve w d tok q sv = (Inl e, sv) \<and>
    http_status e = (if \<exists>t x. tok = Some t \<and> authenticate (w_crypto w) (w_cfg w) (sv_db sv) t = Inr x then 403 else 401)"
proof (rule jwt_guard_cases [of w "sv_db sv" tok])
  fix e
  assume "jwt_guard w (sv_db sv) tok = Inl e" "http_status e = 401"
    "\<And>t x. tok = Some t \<Longrightarrow> authenticate (w_crypto w) (w_cfg w) (sv_db sv) t \<noteq> Inr x"
  then show ?thesis by (auto simp: serve_admin [OF assms(1)])
next
  fix t x r
  assume session: "tok = Some t" "authenticate (w_crypto w) (w_cfg w) (sv_db sv) t = Inr x"
    "jwt_guard w (sv_db sv) tok = Inr (auth_user.truncate x)"
  show ?thesis
  proof (rule adminGuard_cases [of "sv_db sv" "auth_user.truncate x"])
    fix e
    assume "adminGuard (sv_db sv) (auth_user.truncate x) = Inl e" "http_status e = 403"
    then show ?thesis using session by (auto simp: serve_admin [OF assms(1)])
  next
    fix r'
    assume "row_by u_id (sub (auth_user.truncate x)) (users (sv_db sv)) = Some r'" "u_is_admin r'"
    then show ?thesis using assms(2) session by auto
  qed
qed

text \<open>C3: nobody changes the state without a right to: a request after which the state differs is one of the public
  requests of \<open>/auth\<close>, or carries an access token that is valid for an account that is not deleted; under
  \<open>/admin\<close> the row of that account is an administrator.\<close>

theorem state_changes_authorized:
  assumes "snd (serve w d tok q sv) \<noteq> sv"
  shows "(\<exists>a. q = To_auth a \<and> open_route q) \<or>
    (\<exists>t x r. tok = Some t \<and> authenticate (w_crypto w) (w_cfg w) (sv_db sv) t = Inr x \<and>
       live_user (sv_db sv) (sub x) = Some r \<and>
       (if admin_route q then \<exists>a. row_by u_id (sub x) (users (sv_db sv)) = Some a \<and> u_is_admin a else True))"
proof (cases "open_route q")
  case True
  then obtain cur where "serve w d tok q sv = handle w d cur q sv" using serve_open by blast
  then show ?thesis using assms open_pure [OF True, of w d cur sv] True by auto
next
  case closed: False
  show ?thesis
  proof (rule jwt_guard_cases [of w "sv_db sv" tok])
    fix e
    assume "jwt_guard w (sv_db sv) tok = Inl e"
    then show ?thesis using assms closed by (cases "admin_route q") (simp_all add: serve_admin serve_closed)
  next
    fix t x r
    assume session: "tok = Some t" "authenticate (w_crypto w) (w_cfg w) (sv_db sv) t = Inr x"
      "jwt_guard w (sv_db sv) tok = Inr (auth_user.truncate x)" "live_user (sv_db sv) (sub x) = Some r"
    have "\<exists>a. row_by u_id (sub x) (users (sv_db sv)) = Some a \<and> u_is_admin a" if "admin_route q"
      by (rule adminGuard_cases [of "sv_db sv" "auth_user.truncate x"])
         (use assms session in \<open>auto simp: serve_admin [OF that]\<close>)
    then show ?thesis using session by auto
  qed
qed

text \<open>A \<open>GET\<close> changes nothing.\<close>

theorem get_changes_nothing: "verb_of q = GET \<Longrightarrow> snd (serve w d tok q sv) = sv"
  by (simp add: serve_def get_pure split: sum.split)

end
