(* ===== verification/Server.thy ===== *)
theory Server
  imports Frames Routes
begin

text \<open>
  The whole server over time: requests by anyone, socket events, the hourly clean-up, the administrator seed and
  the passage of time, in any order, each as one step. Every component's invariant holds in every state such a history reaches from
  an empty database, because a request changes the tables of its own component only (theory \<open>Frames\<close>).
\<close>

section \<open>Histories\<close>

text \<open>Validation of the bodies guarantees what a step assumes of a request: ids from 1.\<close>

fun valid_request :: "request \<Rightarrow> bool" where
  "valid_request (To_chat (Chat_createConversation participantId _)) \<longleftrightarrow> 0 < participantId"
| "valid_request _ \<longleftrightarrow> True"

definition on_sockets :: "('h hub \<Rightarrow> 'h hub) \<Rightarrow> 'h server \<Rightarrow> 'h server" where
  "on_sockets f sv = sv\<lparr>sv_hub := f (sv_hub sv)\<rparr>"

inductive server_step :: "'h world \<Rightarrow> 'h server \<Rightarrow> 'h server \<Rightarrow> bool" for w :: "'h world" where
  request: "valid_request q \<Longrightarrow> server_step w sv (snd (serve w d tok q sv))"
| connect: "hb_user (sv_hub sv) client = None \<Longrightarrow>
    server_step w sv (on_sockets (handleConnection (w_crypto w) (w_cfg w) (w_io w) authToken header client) sv)"
| disconnect: "server_step w sv (on_sockets (handleDisconnect (w_io w) client) sv)"
| init: "server_step w sv (on_sockets afterInit sv)"
| join: "server_step w sv (on_sockets (\<lambda>h. snd (joinConversation (w_io w) client i h)) sv)"
| send: "server_step w sv (on_sockets (\<lambda>h. snd (ws_sendMessage (w_io w) client i body h)) sv)"
| read: "server_step w sv (on_sockets (\<lambda>h. snd (ws_markRead (w_io w) client i h)) sv)"
| purge: "server_step w sv (set_db (purgeExpiredOtps (sv_db sv)) sv)"
| seed: "server_step w sv (set_db (snd (seedAdminUser email phone passwordHash (sv_db sv))) sv)"
| tick: "clock (sv_db sv) \<le> t \<Longrightarrow> server_step w sv (set_db ((sv_db sv)\<lparr>clock := t\<rparr>) sv)"

section \<open>The invariant\<close>

fun part_inv :: "db \<Rightarrow> part \<Rightarrow> db \<Rightarrow> bool" where
  "part_inv L Accounts_part s \<longleftrightarrow> accounts_inv s"
| "part_inv L Shop_part s \<longleftrightarrow> shop_inv s"
| "part_inv L Faults_part s \<longleftrightarrow> fault_desk.audited s"
| "part_inv L Services_part s \<longleftrightarrow> service_desk.audited s"
| "part_inv L Ratings_part s \<longleftrightarrow> rating_inv s"
| "part_inv L Chat_part s \<longleftrightarrow> chat_inv s"
| "part_inv L Legacy_part s \<longleftrightarrow> same Legacy_part L s"

definition server_inv :: "'h world \<Rightarrow> db \<Rightarrow> 'h server \<Rightarrow> bool" where
  "server_inv w L sv \<longleftrightarrow> (\<forall>c. part_inv L c (sv_db sv)) \<and> hub_inv (w_io w) (sv_hub sv)"

lemma outsideD:
  assumes "outside P s s'"
  shows "c \<notin> P \<Longrightarrow> same c s s'" "seqs s t \<le> seqs s' t" "has_key u_id i (users s) \<Longrightarrow> has_key u_id i (users s')"
  using assms by (auto simp: outside_def)

lemma part_inv_outside:
  assumes out: "outside P s s'" and "c \<notin> P" and inv: "part_inv L c s"
  shows "part_inv L c s'"
proof -
  have same: "same c s s'" by (rule outsideD(1) [OF out assms(2)])
  note grow = outsideD(2,3) [OF out]
  show ?thesis
  proof (cases c)
    case Accounts_part
    then show ?thesis
      using account_step_safe [OF account_step.elsewhere [of "(r, s')" "(r, s)" for r]] same grow inv
      by (simp add: safe_def)
  next
    case Shop_part
    then show ?thesis using shop_step_inv [OF shop_step.elsewhere, of s' s] same grow inv by simp
  next
    case Faults_part
    then show ?thesis using fault_step_audited [OF fault_step.elsewhere, of s' s] same grow inv by simp
  next
    case Services_part
    then show ?thesis using service_step_audited [OF service_step.elsewhere, of s' s] same grow inv by simp
  next
    case Ratings_part
    then show ?thesis using rating_step_keeps [OF rating_step.elsewhere, of s' s] same inv by simp
  next
    case Chat_part
    then show ?thesis using chat_inv_same [of s s'] same grow inv by simp
  next
    case Legacy_part
    then show ?thesis using same inv by simp
  qed
qed

lemma sv_db_set [simp]: "sv_db (set_db s sv) = s" "sv_hub (set_db s sv) = (sv_hub sv)\<lparr>hb_db := s\<rparr>"
  by (simp_all add: sv_db_def set_db_def)

lemma hub_inv_outside:
  assumes "socket_io_ok io" "hub_inv io h" "outside P (hb_db h) s'" "Chat_part \<notin> P"
  shows "hub_inv io (h\<lparr>hb_db := s'\<rparr>)"
  by (rule hub_step_inv [OF assms(1) hub_step.elsewhere [of s' h undefined undefined] assms(2)])
     (use outsideD(1) [OF assms(3,4)] outsideD(2,3) [OF assms(3)] in \<open>simp_all\<close>)

lemma server_inv_db:
  assumes "socket_io_ok (w_io w)" "server_inv w L sv" "outside P (sv_db sv) s'" "Chat_part \<notin> P"
    and "\<And>c. c \<in> P \<Longrightarrow> part_inv L c s'"
  shows "server_inv w L (set_db s' sv)"
  using assms part_inv_outside [OF assms(3)] hub_inv_outside [OF assms(1) _ _ assms(4), of "sv_hub sv" s']
  by (auto simp: server_inv_def sv_db_def)

section \<open>A request keeps the invariant\<close>

definition signed :: "auth_user \<Rightarrow> db \<Rightarrow> bool" where
  "signed user s \<longleftrightarrow> 0 < sub user \<and> has_key u_id (sub user) (users s)"

lemma server_inv_redis [simp]: "server_inv w L (sv\<lparr>sv_redis := r\<rparr>) = server_inv w L sv"
  by (simp add: server_inv_def sv_db_def)

lemma server_invD: "server_inv w L sv \<Longrightarrow> part_inv L c (sv_db sv)"
  by (simp add: server_inv_def)

lemma on_db_inv:
  assumes "socket_io_ok (w_io w)" "server_inv w L sv" "writes P m" "Chat_part \<notin> P"
    and "\<And>c. c \<in> P \<Longrightarrow> part_inv L c (snd (m (sv_db sv)))"
  shows "server_inv w L (snd (on_db m k sv))"
proof -
  have "outside P (sv_db sv) (snd (m (sv_db sv)))" using assms(3) by (simp add: writes_def)
  from server_inv_db [OF assms(1,2) this assms(4,5)] show ?thesis by (simp add: on_db_def split_beta)
qed

lemma on_auth_inv:
  assumes "socket_io_ok (w_io w)" "server_inv w L sv" "auth_writes P m" "Chat_part \<notin> P"
    and "\<And>c. c \<in> P \<Longrightarrow> part_inv L c (snd (snd (m (sv_redis sv, sv_db sv))))"
  shows "server_inv w L (snd (on_auth m k sv))"
proof -
  have "outside P (sv_db sv) (snd (snd (m (sv_redis sv, sv_db sv))))"
    using assms(3) unfolding auth_writes_def by (metis snd_conv)
  from server_inv_db [OF assms(1,2) this assms(4,5)] show ?thesis
    by (simp add: on_auth_def split_beta)
qed

lemma on_db_part:
  assumes "socket_io_ok (w_io w)" "server_inv w L sv" "writes {c} m" "c \<noteq> Chat_part" "part_inv L c (snd (m (sv_db sv)))"
  shows "server_inv w L (snd (on_db m k sv))"
  using assms by (intro on_db_inv [where P = "{c}"]) auto

lemma on_auth_part:
  assumes "socket_io_ok (w_io w)" "server_inv w L sv" "auth_writes {c} m" "c \<noteq> Chat_part"
    "part_inv L c (snd (snd (m (sv_redis sv, sv_db sv))))"
  shows "server_inv w L (snd (on_auth m k sv))"
  using assms by (intro on_auth_inv [where P = "{c}"]) auto

lemmas unchanged_parts = on_db_inv [where P = "{}", simplified] on_auth_inv [where P = "{}", simplified]

lemma shop_ops:
  assumes "signed user s" "shop_inv s"
  shows "shop_inv (snd (createOrder user dto s))" "shop_inv (snd (addCartItem user p q s))"
    "shop_inv (snd (updateCartItem user i q s))" "shop_inv (snd (deleteCartItem user i s))"
    "shop_inv (snd (checkoutCart user a s))" "shop_inv (snd (updateOrderAddress user i a s))"
    "shop_inv (snd (cancelOrder user i s))" "shop_inv (snd (adminUpdateOrderStatus user i st s))"
    "shop_inv (snd (adminCreateProduct user cdto s))" "shop_inv (snd (adminUpdateProduct user i udto s))"
    "shop_inv (snd (adminDeleteProduct user i s))"
  using shop_step_inv [OF shop_step.operation assms(2), of "Op_createOrder user dto"]
    shop_step_inv [OF shop_step.operation assms(2), of "Op_addCartItem user p q"]
    shop_step_inv [OF shop_step.operation assms(2), of "Op_updateCartItem user i q"]
    shop_step_inv [OF shop_step.operation assms(2), of "Op_deleteCartItem user i"]
    shop_step_inv [OF shop_step.operation assms(2), of "Op_checkoutCart user a"]
    shop_step_inv [OF shop_step.operation assms(2), of "Op_updateOrderAddress user i a"]
    shop_step_inv [OF shop_step.operation assms(2), of "Op_cancelOrder user i"]
    shop_step_inv [OF shop_step.operation assms(2), of "Op_adminUpdateOrderStatus user i st"]
    shop_step_inv [OF shop_step.operation assms(2), of "Op_adminCreateProduct user cdto"]
    shop_step_inv [OF shop_step.operation assms(2), of "Op_adminUpdateProduct user i udto"]
    shop_step_inv [OF shop_step.operation assms(2), of "Op_adminDeleteProduct user i"] assms(1)
  by (simp_all add: signed_def)

lemma fault_ops:
  assumes "signed user s" "fault_desk.audited s"
  shows "fault_desk.audited (snd (createFault user dto s))" "fault_desk.audited (snd (updateFault user i udto s))"
    "fault_desk.audited (snd (cancelFault user i s))" "fault_desk.audited (snd (adminUpdateFaultStatus user i st s))"
  using fault_step_audited [OF fault_step.create assms(2)] fault_step_audited [OF fault_step.edit assms(2)]
    fault_step_audited [OF fault_step.cancel assms(2)] fault_step_audited [OF fault_step.advance assms(2)] assms(1)
  by (simp_all add: signed_def)

lemma service_ops:
  assumes "signed user s" "service_desk.audited s"
  shows "service_desk.audited (snd (createService user dto s))" "service_desk.audited (snd (updateService user i udto s))"
    "service_desk.audited (snd (cancelService user i s))" "service_desk.audited (snd (adminUpdateServiceStatus user i st s))"
  using service_step_audited [OF service_step.create assms(2)] service_step_audited [OF service_step.edit assms(2)]
    service_step_audited [OF service_step.cancel assms(2)] service_step_audited [OF service_step.advance assms(2)] assms(1)
  by (simp_all add: signed_def)

lemma rating_op: "rating_inv s \<Longrightarrow> rating_inv (snd (createItemRating user dto s))"
  using rating_step_keeps [OF rating_step.rate_item] by blast

lemmas account_ops = account_safe [unfolded safe_def, THEN conjunct1]

lemma auth_inv:
  assumes "socket_io_ok (w_io w)" "server_inv w L sv"
  shows "server_inv w L (snd (AuthController w d q sv))"
proof -
  have "server_inv w L (snd (on_auth (\<lambda>st. (Inr (), logout (w_crypto w) (w_cfg w) tok st)) (\<lambda>_. Logged_out) sv))" for tok
    by (rule unchanged_parts(2) [OF assms]) (simp add: auth_writes_def frames)
  then show ?thesis using server_invD [OF assms(2), of Accounts_part]
    by (cases q) (simp_all add: frames account_ops unchanged_parts [OF assms] on_auth_part [OF assms, where c = Accounts_part])
qed

lemma users_inv:
  assumes "socket_io_ok (w_io w)" "server_inv w L sv"
  shows "server_inv w L (snd (UsersController w d user q sv))"
  using server_invD [OF assms(2), of Accounts_part]
  by (cases q) (simp_all add: frames assms(2) account_ops on_db_part [OF assms, where c = Accounts_part])

lemma admin_inv:
  assumes "socket_io_ok (w_io w)" "server_inv w L sv"
  shows "server_inv w L (snd (AdminController user q sv))"
  using server_invD [OF assms(2), of Accounts_part]
  by (cases q) (simp_all add: frames assms(2) account_ops unchanged_parts [OF assms]
    on_db_part [OF assms, where c = Accounts_part] on_auth_part [OF assms, where c = Accounts_part])

lemma cart_inv_request:
  assumes "socket_io_ok (w_io w)" "server_inv w L sv" "signed user (sv_db sv)"
  shows "server_inv w L (snd (CartController user q sv))"
  using server_invD [OF assms(2), of Shop_part]
  by (cases q) (simp_all add: frames assms(2) shop_ops [OF assms(3)] on_db_part [OF assms(1,2), where c = Shop_part])

lemma orders_inv_request:
  assumes "socket_io_ok (w_io w)" "server_inv w L sv" "signed user (sv_db sv)"
  shows "server_inv w L (snd (OrdersController user q sv))"
  using server_invD [OF assms(2), of Shop_part]
  by (cases q) (simp_all add: frames assms(2) shop_ops [OF assms(3)] on_db_part [OF assms(1,2), where c = Shop_part])

lemma faults_inv_request:
  assumes "socket_io_ok (w_io w)" "server_inv w L sv" "signed user (sv_db sv)"
  shows "server_inv w L (snd (FaultsController user q sv))"
  using server_invD [OF assms(2), of Faults_part]
  by (cases q) (simp_all add: frames assms(2) fault_ops [OF assms(3)] on_db_part [OF assms(1,2), where c = Faults_part])

lemma services_inv_request:
  assumes "socket_io_ok (w_io w)" "server_inv w L sv" "signed user (sv_db sv)"
  shows "server_inv w L (snd (ServicesController user q sv))"
  using server_invD [OF assms(2), of Services_part]
  by (cases q) (simp_all add: frames assms(2) service_ops [OF assms(3)] on_db_part [OF assms(1,2), where c = Services_part])

lemma followups_inv_request:
  assumes "socket_io_ok (w_io w)" "server_inv w L sv"
  shows "server_inv w L (snd (FollowupsController user q sv))"
  by (cases q) (simp_all add: frames assms(2) unchanged_parts [OF assms])

lemma files_inv_request:
  assumes "socket_io_ok (w_io w)" "server_inv w L sv"
  shows "server_inv w L (snd (FilesController w d user q sv))"
  by (cases q) (simp_all add: frames assms(2) unchanged_parts [OF assms])

lemma ratings_inv_request:
  assumes "socket_io_ok (w_io w)" "server_inv w L sv"
  shows "server_inv w L (snd (KayanRatingsController cur q sv))"
  using server_invD [OF assms(2), of Ratings_part]
  by (cases q; cases cur) (simp_all add: frames assms(2) rating_op on_db_part [OF assms, where c = Ratings_part])

lemma kayan_admin_inv_request:
  assumes "socket_io_ok (w_io w)" "server_inv w L sv" "signed user (sv_db sv)"
  shows "server_inv w L (snd (KayanAdminController user q sv))"
  using server_invD [OF assms(2), of Shop_part] server_invD [OF assms(2), of Faults_part]
    server_invD [OF assms(2), of Services_part]
  by (cases q) (simp_all add: frames assms(2) shop_ops [OF assms(3)] fault_ops [OF assms(3)] service_ops [OF assms(3)]
    unchanged_parts [OF assms(1,2)] on_db_part [OF assms(1,2), where c = Shop_part]
    on_db_part [OF assms(1,2), where c = Faults_part] on_db_part [OF assms(1,2), where c = Services_part])

text \<open>The hub: only the chat tables change, and the rooms.\<close>

lemma chat_db:
  "outside {Chat_part} (hb_db h) (hb_db (snd (createConversation io user v p h)))"
  "outside {Chat_part} (hb_db h) (hb_db (snd (ws_sendMessage io client i body h)))"
  "outside {Chat_part} (hb_db h) (hb_db (snd (ws_markRead io client i h)))"
  by (auto simp: createConversation_def ws_sendMessage_def ws_markRead_def join_and_emit_def emit_def Let_def
      emitConversationJoinedToParticipants_def
    split: prod.split sum.split option.split dest: writesD [OF chat_handlers(1)] writesD [OF chat_handlers(2)]
      writesD [OF chat_handlers(3)])

lemma quiet_db:
  "hb_db (handleConnection c cfg io a b client h) = hb_db h" "hb_db (handleDisconnect io client h) = hb_db h"
  "hb_db (afterInit h) = hb_db h" "hb_db (snd (joinConversation io client i h)) = hb_db h"
  by (simp_all add: handleConnection_def handleDisconnect_def registerUserSocket_def unregisterUserSocket_def
    afterInit_def joinConversation_def join_and_emit_def emit_def Let_def split: option.split sum.split)

lemma hub_inv_step:
  assumes "socket_io_ok (w_io w)" "server_inv w L sv" "hub_step c cfg (w_io w) (sv_hub sv) h'"
    and "outside {Chat_part} (sv_db sv) (hb_db h')"
  shows "server_inv w L (sv\<lparr>sv_hub := h'\<rparr>)"
proof -
  have hub: "hub_inv (w_io w) h'" using hub_step_inv [OF assms(1,3)] assms(2) by (simp add: server_inv_def)
  have "part_inv L c (hb_db h')" for c
    using part_inv_outside [OF assms(4)] server_invD [OF assms(2)] hub_invD(1) [OF hub] by (cases "c = Chat_part") auto
  with hub show ?thesis by (simp add: server_inv_def sv_db_def)
qed

lemma chat_inv_request:
  assumes "socket_io_ok (w_io w)" "server_inv w L sv" "signed user (sv_db sv)" "valid_request (To_chat q)"
  shows "server_inv w L (snd (ChatController w user q sv))"
proof (cases q)
  case (Chat_createConversation participantId productId)
  have "hub_step c cfg (w_io w) (sv_hub sv) (snd (createConversation (w_io w) user participantId productId (sv_hub sv)))"
    for c cfg
    using assms(3,4) Chat_createConversation by (intro hub_step.open_conversation) (auto simp: signed_def sv_db_def)
  from hub_inv_step [OF assms(1,2) this] show ?thesis
    by (simp add: Chat_createConversation on_hub_def split_beta sv_db_def chat_db(1))
qed (simp_all add: assms(2))

lemma jwt_signed:
  assumes "jwt_guard w s tok = Inr u"
  shows "signed u s"
proof (rule jwt_guard_cases [of w s tok])
  fix t x
  assume "authenticate (w_crypto w) (w_cfg w) s t = Inr x" "jwt_guard w s tok = Inr (auth_user.truncate x)"
  with assms show ?thesis
    by (auto simp: signed_def authenticate_def validate_def live_user_def has_key_iff
      split: option.split_asm if_split_asm dest!: toPositiveInt_pos find_SomeD)
qed (simp add: assms)

lemma readers:
  "snd (PublicUsersController w pq sv) = sv" "snd (ProductsController w cur lq sv) = sv"
  "snd (KayanProductsController kq sv) = sv" "snd (RatingsController rq sv) = sv"
  "snd (GalleryController gq sv) = sv" "snd (HealthController hq sv) = sv"
proof -
  show "snd (PublicUsersController w pq sv) = sv" by (cases pq) simp
  show "snd (ProductsController w cur lq sv) = sv" by (cases lq; cases cur) simp_all
  show "snd (KayanProductsController kq sv) = sv" by (cases kq) simp_all
  show "snd (RatingsController rq sv) = sv" by (cases rq) simp
  show "snd (GalleryController gq sv) = sv" by (cases gq) simp
  show "snd (HealthController hq sv) = sv" by (cases hq) simp_all
qed

lemma with_user_inv:
  assumes "server_inv w L sv" "\<And>u. cur = Some u \<Longrightarrow> server_inv w L (snd (m u sv))"
  shows "server_inv w L (snd (with_user cur m sv))"
  using assms by (cases cur) simp_all

lemma handle_inv:
  assumes "socket_io_ok (w_io w)" "server_inv w L sv" "valid_request q"
    and "\<And>u. cur = Some u \<Longrightarrow> signed u (sv_db sv)"
  shows "server_inv w L (snd (handle w d cur q sv))"
  using assms(3)
  by (cases q) (auto simp: readers assms intro!: with_user_inv auth_inv users_inv admin_inv cart_inv_request
    orders_inv_request faults_inv_request services_inv_request followups_inv_request files_inv_request
    ratings_inv_request kayan_admin_inv_request chat_inv_request)

lemma run_guards_signed:
  assumes "run_guards w s tok gs cur = Inr cur'" and "\<And>u. cur = Some u \<Longrightarrow> signed u s"
  shows "cur' = Some u \<Longrightarrow> signed u s"
  using assms
proof (induction gs arbitrary: cur)
  case (Cons g gs)
  obtain cur1 where g: "run_guard w s tok g cur = Inr cur1" and rest: "run_guards w s tok gs cur1 = Inr cur'"
    using Cons.prems(2) by (auto split: sum.split_asm)
  have "signed v s" if v: "cur1 = Some v" for v
  proof (cases g)
    case JwtAuthGuard
    then have "jwt_guard w s tok = Inr v" using g v by (cases "jwt_guard w s tok") auto
    then show ?thesis by (rule jwt_signed)
  next
    case OptionalJwtAuthGuard
    then have "jwt_guard w s tok = Inr v" using g v by (cases "jwt_guard w s tok") auto
    then show ?thesis by (rule jwt_signed)
  next
    case AdminGuard
    then obtain u where u: "cur = Some u" "map_sum id Some (adminGuard s u) = Inr (Some v)"
      using g v by (auto split: option.split_asm)
    then have "adminGuard s u = Inr v" by (cases "adminGuard s u") auto
    then have "sub v = sub u" by (auto simp: adminGuard_def split: if_split_asm option.split_asm)
    then show ?thesis using Cons.prems(3) [OF u(1)] by (simp add: signed_def)
  qed
  then show ?case using Cons.IH [OF Cons.prems(1) rest] by blast
qed simp

lemma serve_inv:
  assumes "socket_io_ok (w_io w)" "server_inv w L sv" "valid_request q"
  shows "server_inv w L (snd (serve w d tok q sv))"
proof (cases "run_guards w (sv_db sv) tok (guards_of q) None")
  case (Inl e)
  then show ?thesis by (simp add: serve_def assms(2))
next
  case (Inr cur)
  then show ?thesis using handle_inv [OF assms, of cur] run_guards_signed [OF Inr] by (simp add: serve_def)
qed

lemma server_step_inv:
  assumes "server_step w sv sv'" "socket_io_ok (w_io w)" "server_inv w L sv"
  shows "server_inv w L sv'"
  using assms
proof (cases rule: server_step.cases)
  case (request q d tok)
  then show ?thesis using serve_inv assms(2,3) by blast
next
  case (purge)
  have "outside {} (sv_db sv) (purgeExpiredOtps (sv_db sv))" by (simp add: frame_leaf purgeExpiredOtps_def)
  then show ?thesis using server_inv_db [OF assms(2,3)] purge by auto
next
  case (tick t)
  have "outside {} (sv_db sv) ((sv_db sv)\<lparr>clock := t\<rparr>)" by (simp add: frame_leaf)
  then show ?thesis using server_inv_db [OF assms(2,3)] tick by auto
next
  case (seed email phone h)
  then show ?thesis
    using on_db_part [OF assms(2,3) seedAdminUser_writes] account_ops server_invD [OF assms(3), of Accounts_part]
    by (simp add: on_db_def split_beta)
next
  case (connect client a b)
  show ?thesis unfolding connect(1) on_sockets_def
    by (rule hub_inv_step [OF assms(2,3) hub_step.connect [OF connect(2)]]) (simp add: quiet_db sv_db_def)
next
  case (disconnect client)
  show ?thesis unfolding disconnect on_sockets_def
    by (rule hub_inv_step [OF assms(2,3) hub_step.disconnect]) (simp add: quiet_db sv_db_def)
next
  case init
  show ?thesis unfolding init on_sockets_def
    by (rule hub_inv_step [OF assms(2,3) hub_step.init]) (simp add: quiet_db sv_db_def)
next
  case (join client i)
  show ?thesis unfolding join on_sockets_def
    by (rule hub_inv_step [OF assms(2,3) hub_step.join]) (simp add: quiet_db sv_db_def)
next
  case (send client i body)
  show ?thesis unfolding send on_sockets_def
    by (rule hub_inv_step [OF assms(2,3) hub_step.send]) (simp add: chat_db sv_db_def)
next
  case (read client i)
  show ?thesis unfolding read on_sockets_def
    by (rule hub_inv_step [OF assms(2,3) hub_step.read]) (simp add: chat_db sv_db_def)
qed

section \<open>Reachable states\<close>

definition fresh_server :: "'h world \<Rightarrow> 'h server \<Rightarrow> bool" where
  "fresh_server w sv \<longleftrightarrow> sv_db sv = empty_db \<and> hb_sockets (sv_hub sv) = Map.empty \<and> hb_user (sv_hub sv) = Map.empty \<and>
     hb_emitted (sv_hub sv) = [] \<and> (\<forall>r. io_members (w_io w) (hb_io (sv_hub sv)) r = [])"

lemma part_inv_empty: "part_inv empty_db c empty_db"
proof (cases c)
  case Shop_part
  then show ?thesis by (simp add: shop_inv_empty)
qed (simp_all add: accounts_inv_def users_inv_def unique_by_def
    fault_desk.audited_def fault_inv_def fault_status_of_def fault_log_def
    service_desk.audited_def service_inv_def service_status_of_def service_log_def
    rating_inv_def product_board.in_range_def item_board.in_range_def user_board.in_range_def
    product_board_def item_board_def user_board_def board_of_def chat_inv_def empty_db_def)

lemma fresh_inv: "fresh_server w sv \<Longrightarrow> server_inv w empty_db sv"
proof -
  have "chat_inv empty_db" using part_inv_empty [of Chat_part] by simp
  then show "fresh_server w sv \<Longrightarrow> server_inv w empty_db sv"
    by (auto simp: fresh_server_def server_inv_def part_inv_empty sv_db_def hub_inv_def rooms_private_def
      registry_agrees_def)
qed

lemma reachable_inv:
  assumes "socket_io_ok (w_io w)" and "(server_step w)\<^sup>*\<^sup>* sv sv'" and "server_inv w L sv"
  shows "server_inv w L sv'"
  using assms(2,3) by (induction rule: rtranclp_induct) (auto intro: server_step_inv [OF _ assms(1)])

text \<open>
  C2: From an empty database and without open sockets, whatever requests are made by whomever, whatever the sockets do, and
  whenever the clean-up or the seed runs: no product has negative stock; every order belongs to an existing
  account, and every line of an order to an existing order, with a quantity above zero and a price that is not
  negative; a customer's cart has at most one line for a product; ids of accounts are unique and no two accounts
  share a phone or, while live, an e-mail; every rating is between 1 and 5; two users have at most one
  conversation; and what the chat has emitted went to the participants only. (Requests are single steps here. The
  histories of tickets, which depend on the order of statements, are left to \<open>fault_history_legal\<close> and
  \<open>service_history_agrees\<close>.)
\<close>

theorem server_reachable:
  assumes "fresh_server w sv" and "socket_io_ok (w_io w)" and "(server_step w)\<^sup>*\<^sup>* sv sv'" and "s = sv_db sv'"
  shows "list_all (\<lambda>r. 0 \<le> cp_amount r) (catalog_products s) \<and>
    list_all (\<lambda>po. has_key u_id (po_user_id po) (users s)) (product_orders s) \<and>
    list_all (\<lambda>oi. has_key po_id (oi_order_id oi) (product_orders s) \<and> 0 < oi_quantity oi \<and> 0 \<le> oi_unit_price oi)
      (order_items s) \<and>
    distinct (map (\<lambda>ci. (ci_user_id ci, ci_product_id ci)) (cart_items s)) \<and>
    list_all (\<lambda>ci. 0 < ci_quantity ci) (cart_items s) \<and>
    distinct (map u_id (users s)) \<and> unique_by u_phone (users s) \<and> unique_by live_email (users s) \<and>
    (\<forall>k v. product_board s k = Some v \<longrightarrow> 1 \<le> v \<and> v \<le> 5) \<and>
    (\<forall>k v. item_board s k = Some v \<longrightarrow> 1 \<le> v \<and> v \<le> 5) \<and>
    distinct (map pair_of (conversations s)) \<and>
    list_all (emission_private s) (hb_emitted (sv_hub sv'))"
proof -
  have inv: "server_inv w empty_db sv'" using reachable_inv [OF assms(2,3) fresh_inv [OF assms(1)]] .
  note part = server_invD [OF inv, folded assms(4)]
  have "shop_inv s" "accounts_inv s" "rating_inv s" "chat_inv s"
    using part [of Shop_part] part [of Accounts_part] part [of Ratings_part] part [of Chat_part] by simp_all
  moreover have "list_all (emission_private s) (hb_emitted (sv_hub sv'))"
    using inv by (simp add: server_inv_def hub_inv_def sv_db_def assms(4))
  ultimately show ?thesis
    by (auto simp: list_all_iff shop_inv_def order_wf_def orders_inv_def cart_inv_def catalog_inv_def cp_check_def
      accounts_inv_def users_inv_def pk_def rating_inv_def product_board.in_range_def item_board.in_range_def chat_inv_def)
qed

text \<open>
  C40: The marketplace of the older interface is closed: from an empty database no request brings a listing, an
  image of one, or a rating between users into being, for no route leads to the operations that store them. So the
  listings found, one's own listings, and the summary of a user's ratings are empty for ever.
\<close>

theorem legacy_tables_frozen:
  assumes "fresh_server w sv" and "socket_io_ok (w_io w)" and "(server_step w)\<^sup>*\<^sup>* sv sv'" and "s = sv_db sv'"
  shows "products s = [] \<and> product_images s = [] \<and> user_ratings s = [] \<and>
    (case searchProducts tx s q of Inl _ \<Rightarrow> True | Inr found \<Rightarrow> found = []) \<and> getUserRatingSummary s i = (0, 0, [])"
proof -
  have "legacy_tables s = ([], [], [])"
    using server_invD [OF reachable_inv [OF assms(2,3) fresh_inv [OF assms(1)]], of Legacy_part]
    by (simp add: assms(4) legacy_tables_def empty_db_def)
  then show ?thesis 
    by (auto simp: legacy_tables_def searchProducts_def getUserRatingSummary_def listing_views_def paged_def page_def avg2_def
      split: sum.split prod.split)
qed


section \<open>Example\<close>

text \<open>
  An administrator is seeded into an empty database and puts a product on sale, with a token that is the text of the
  subject.
\<close>

definition sample_world :: "(string \<times> string) list world" where
  "sample_world = \<lparr>w_crypto = subject_crypto, w_cfg = sample_config, w_mail = (\<lambda>_ _. Mail_ok),
     w_search = \<lparr>tx_matches = (\<lambda>_ _. True), tx_rank = (\<lambda>_. 0)\<rparr>, w_sha1 = (\<lambda>s. s), w_io = sample_io\<rparr>"

definition sample_draws :: draws where
  "sample_draws = \<lparr>rnd_otp = 0, rnd_otp_salt = ''s'', rnd_bcrypt_salt = ''t'', rnd_jti = ''j'', rnd_object = ''o''\<rparr>"

definition new_server :: "(string \<times> string) list server" where
  "new_server = \<lparr>sv_redis = no_redis, sv_hub = \<lparr>hb_db = empty_db, hb_io = [], hb_server = False,
     hb_sockets = Map.empty, hb_user = Map.empty, hb_emitted = []\<rparr>\<rparr>"

definition seeded_server :: "(string \<times> string) list server" where
  "seeded_server = set_db (snd (seedAdminUser ''a@x.io'' None ''h'' (sv_db new_server))) new_server"

definition lamp :: admin_create_product where
  "lamp = \<lparr>nc_title = ''Lamp'', nc_description = ''LED'', nc_amount = 4, nc_price = Dec 250 2, nc_details = None,
     nc_imageFileIds = None, nc_fileIds = None\<rparr>"

definition lamp_request :: request where
  "lamp_request = To_kayan_admin (Manage_createProduct lamp)"

definition sample_server :: "(string \<times> string) list server" where
  "sample_server = snd (serve sample_world sample_draws (Some ''1'') lamp_request seeded_server)"

lemma new_server_fresh: "fresh_server sample_world new_server"
  by (simp add: fresh_server_def new_server_def sv_db_def sample_world_def sample_io_def)

lemma sample_world_io: "socket_io_ok (w_io sample_world)"
  using sample_io_ok by (simp add: sample_world_def)

lemma sample_server_steps: "(server_step sample_world)\<^sup>*\<^sup>* new_server sample_server"
proof -
  have "server_step sample_world new_server seeded_server"
    unfolding seeded_server_def by (rule server_step.seed)
  moreover have "server_step sample_world seeded_server sample_server"
    unfolding sample_server_def by (rule server_step.request) (simp add: lamp_request_def)
  ultimately show ?thesis by auto
qed

lemma sample_server_products:
  "map (\<lambda>r. (cp_title r, cp_amount r)) (catalog_products (sv_db sample_server)) = [(''Lamp'', 4)]"
proof -
  have admin: "admin_route lamp_request" by (simp add: lamp_request_def)
  have jwt: "jwt_guard sample_world (sv_db seeded_server) (Some ''1'') = Inr \<lparr>sub = 1, isAdmin = False\<rparr>" by code_simp
  have adm: "adminGuard (sv_db seeded_server) \<lparr>sub = 1, isAdmin = False\<rparr> = Inr \<lparr>sub = 1, isAdmin = True\<rparr>" by code_simp
  let ?made = "adminCreateProduct \<lparr>sub = 1, isAdmin = True\<rparr> lamp (sv_db seeded_server)"
  have made: "map (\<lambda>r. (cp_title r, cp_amount r)) (catalog_products (snd ?made)) = [(''Lamp'', 4)]" by code_simp
  have "snd (serve sample_world sample_draws (Some ''1'') lamp_request seeded_server) = set_db (snd ?made) seeded_server"
    by (simp only: serve_admin [OF admin] jwt adm sum.case)
       (simp add: lamp_request_def reply_with_def on_db_def split_beta)
  with made show ?thesis by (simp add: sample_server_def)
qed

theorem server_reachable_witness:
  "list_all (\<lambda>r. 0 \<le> cp_amount r) (catalog_products (sv_db sample_server)) \<and>
   map (\<lambda>r. (cp_title r, cp_amount r)) (catalog_products (sv_db sample_server)) = [(''Lamp'', 4)]"
  using server_reachable [OF new_server_fresh sample_world_io sample_server_steps refl] sample_server_products by simp

theorem legacy_tables_frozen_witness:
  "products (sv_db sample_server) = [] \<and>
   map (\<lambda>r. (cp_title r, cp_amount r)) (catalog_products (sv_db sample_server)) = [(''Lamp'', 4)]"
  using legacy_tables_frozen [OF new_server_fresh sample_world_io sample_server_steps refl] sample_server_products by simp

theorem admin_refused_witness:
  "\<exists>e. serve sample_world sample_draws (Some ''2'') lamp_request seeded_server = (Inl e, seeded_server) \<and> http_status e = 401"
proof -
  have "admin_route lamp_request" by (simp add: lamp_request_def)
  moreover have "\<not> is_ok (authenticate (w_crypto sample_world) (w_cfg sample_world) (sv_db seeded_server) ''2'')"
    by code_simp
  then have none: "authenticate (w_crypto sample_world) (w_cfg sample_world) (sv_db seeded_server) ''2'' \<noteq> Inr x" for x
    by (metis is_ok_simps)
  ultimately show ?thesis
    using admin_refused [of lamp_request "Some ''2''" sample_world seeded_server sample_draws] by auto
qed

theorem state_changes_authorized_witness:
  "\<exists>x r. authenticate (w_crypto sample_world) (w_cfg sample_world) (sv_db seeded_server) ''1'' = Inr x \<and>
     row_by u_id (sub x) (users (sv_db seeded_server)) = Some r \<and> u_is_admin r"
proof -
  have "catalog_products (sv_db seeded_server) = []" by code_simp
  then have "snd (serve sample_world sample_draws (Some ''1'') lamp_request seeded_server) \<noteq> seeded_server"
    using sample_server_products by (auto simp: sample_server_def)
  from state_changes_authorized [OF this] show ?thesis by (auto simp: lamp_request_def)
qed

end
