(* ===== verification/Spec2Isabelle.thy ===== *)
theory Spec2Isabelle
  imports Shop Faults Services Followups Gallery Ratings Config Auth Listings Accounts Files Gateway
    FkExpansion HttpLayer ChatErrors ProdSeeder DevSeeder ApiList Races Validation Server
begin

text \<open>
  A model of the Kayan Place back end, a NestJS server (TypeScript, under \<open>src/src\<close>) over PostgreSQL, with the
  theorems that make its parts correct. This theory gathers the others and documents the whole.

  The program. Clients talk HTTP and, for the chat, socket.io. A request passes a correlation id, a
  throttler, a guard that validates the access token, a validation pipe, a controller and one method of a
  service, which runs SQL, sometimes in one transaction. The answer has its foreign keys expanded, is put in
  an envelope and is logged; an exception goes to a filter. \<open>KayanService\<close> serves the shop (catalog, cart,
  orders), fault reports, service orders, follow-up conversations, the gallery and ratings. Around it stand
  accounts, registration and sessions (with an optional Redis in front of PostgreSQL), marketplace listings,
  uploads, the chat, the administration, the seeders, and the configuration they share.

  The model. Every service method is a function from its arguments and the state to a result and the next
  state (\<open>handler\<close> in \<open>Prelude\<close>); a result is \<open>Inl\<close> an exception or \<open>Inr\<close> a value. The state \<open>db\<close>
  of \<open>Schema\<close> has one list of rows for every table, in insertion order, the next value of every identity
  sequence and the clock (microseconds, the \<open>NOW()\<close> of the request). A statement is written out with the
  constraints of its table, and its violation is \<open>SqlError\<close> with the SQLSTATE PostgreSQL reports (23505,
  23503, 23514, 22003, 22P02, 42702, 42P01); an identity value is drawn even when the insertion then fails, and
  \<open>with_transaction\<close> rolls the rows back and keeps the sequences. An interleaving of requests is a sequence
  of steps: each component has a step relation whose rules are its operations, any other write to the
  database that leaves the component's tables alone, and the passage of time; what is proved of the
  reachable states holds for every order of completed operations. Where the code changes a status without a
  transaction, in fault reports and service orders, the histories are proved of a finer relation
  (\<open>fault_statement\<close>, \<open>service_statement\<close>): its steps are the single statements of requests, in any order, and
  a request may break off after any of them.

  The theories, with the code they model:

  \<^item> \<open>Prelude\<close>, \<open>TextOps\<close>, \<open>JsValue\<close>: exceptions (\<open>http_error\<close>), sequencing and loops of handlers,
    tables and primary keys; decimal text, \<open>LIKE\<close> patterns, \<open>escapeLike\<close> and \<open>resolveOffsetPagination\<close>
    (\<open>common/helpers\<close>); JavaScript values, \<open>Number(text)\<close>, \<open>toPositiveInt\<close> and \<open>mapToAppUser\<close>.
  \<^item> \<open>Schema\<close>, \<open>Samples\<close>: the tables of \<open>db/migrations\<close>, \<open>DatabaseService.withTransaction\<close>, the
    signed-in user; a populated database for the witnesses.
  \<^item> \<open>Workflow\<close> (locale \<open>ticket_desk\<close>): what orders, faults and service orders share, a history of statuses
    that follows a transition relation; interpreted as \<open>order_desk\<close>, \<open>fault_desk\<close>, \<open>service_desk\<close>. Its second
    part is the abstract \<open>ledger\<close>: what single statements may do to statuses and histories, and what then holds of
    a ticket no change of which overlapped another or broke off (\<open>ledger_ok\<close>). The statements of \<open>Faults\<close> and
    \<open>Services\<close> are shown to be steps of it.
  \<^item> \<open>Assets\<close> (locales \<open>asset_store\<close>, \<open>unique_asset_store\<close>): the attachment tables rewritten by
    \<open>syncProductAssets\<close>, \<open>syncGalleryAssets\<close>, \<open>syncFaultAssets\<close>; interpreted on all three.
  \<^item> \<open>Catalog\<close>, \<open>Orders\<close>, \<open>Shop\<close>: products on sale, cart and orders of \<open>kayan/kayan.service.ts\<close>, and their
    correctness: the invariant of every reachable state (no negative stock, every order has its items at the
    price paid), when an order succeeds, what it takes from the stock, conservation of pieces.
  \<^item> \<open>Faults\<close>, \<open>Services\<close>, \<open>Followups\<close>, \<open>Gallery\<close>, \<open>Ratings\<close>: the rest of \<open>KayanService\<close> and
    \<open>ratings/ratings.service.ts\<close>. \<open>rating_board\<close> and \<open>write_once_board\<close> are the contracts of the three rating
    tables. \<open>Faults\<close> also proves liveness: an open fault can be brought to its end in at most four requests.
  \<^item> \<open>Config\<close>: \<open>config/configuration.ts\<close>, with the order of the complaints about missing variables.
  \<^item> \<open>AuthStore\<close>, \<open>Otp\<close>, \<open>Auth\<close>: refresh tokens and attempt counters in PostgreSQL and Redis (locale
    \<open>token_store\<close>; Redis is shown not to change any answer), one-time codes of both providers (locale
    \<open>otp_verifier\<close>), registration, login, refresh, logout, password reset and the access-token check.
  \<^item> \<open>Accounts\<close>: \<open>users/users.service.ts\<close>, \<open>admin/admin.service.ts\<close> and \<open>admin/admin-seeder.ts\<close>; which
    operations end the sessions of an account, uniqueness of phones and e-mail addresses.
  \<^item> \<open>Listings\<close>, \<open>Files\<close>: the taxonomy and \<open>products/products.service.ts\<close>; \<open>files/files.service.ts\<close> with the
    Cloudinary uploader.
  \<^item> \<open>Chat\<close>, \<open>Gateway\<close>, \<open>ChatErrors\<close>: \<open>chat/chat.service.ts\<close>, the socket registry and the gateway with its
    rooms, and the exception filter of the sockets.
  \<^item> \<open>FkExpansion\<close>, \<open>HttpLayer\<close>: the expansion of foreign keys, the log sanitizer, the logger, the envelope,
    the exception filter and the pipeline they form (\<open>answer\<close>).
  \<^item> \<open>ProdSeeder\<close>, \<open>SeedClient\<close>, \<open>DevFixtures\<close>, \<open>DevSeeder\<close>: \<open>prod/prod-seeder.ts\<close> with
    \<open>scripts/seed-prod.ts\<close>, and \<open>dev/dev-seeder.ts\<close>: its HTTP client with retries, its rows and its run.

  \<^item> \<open>ApiList\<close>: \<open>scripts/lib/api-list-generator.ts\<close>, which turns the OpenAPI document into a Markdown list.
  \<^item> \<open>Validation\<close>: the request classes of every \<open>*.dto.ts\<close> as tables of properties and decorators, and the
    program's own validators: which requests reach a method (bounded pages, passwords, ratings without comment).
  \<^item> \<open>Controllers\<close>, \<open>Routes\<close>: the methods of the eighteen controllers over one server state; their routes,
    guards and throttles, the guards themselves, and \<open>serve\<close>, a request from its token to its answer. A URL
    selects the route it is made of, \<open>GET\<close> changes nothing, and nothing changes without a right to.
  \<^item> \<open>Frames\<close>, \<open>Server\<close>: which tables each operation may write, and from that the invariants of all components
    together, over histories of requests, socket events, clean-ups, seeds and time (\<open>server_step\<close>).
  \<^item> \<open>Races\<close>: a run of statements in which a cancellation overtakes an administrator and closes a fault twice.

  What the groups of lemmas show. For each component: an invariant of its tables kept by every operation
  (primary keys, references, column constraints, ranges), the effect of each operation on every branch,
  errors included, and an abstract view (the stock, the history of a ticket, the images of a row, the
  stored ratings, the live tokens, the members of a room) on which the operations act as simple functions.
  The numbered properties are few lines over these.

  Termination and fuel. The log sanitizer terminates by its depth limit, the loop of the seeder's client by
  the attempts left, the walk over a payload by the payload. The only definition with fuel is
  \<open>flattenSchemaFields\<close> of the API list, which in the code may not return; its fuel is the depth of the call
  stack, it suffices exactly when no chain of schema components is infinite, and more of it changes nothing.

  Parameters, with their documented behaviour as hypotheses where a property needs it: bcrypt, the JWT
  library, HMAC and random values (\<open>crypto\<close>, \<open>randoms\<close>), sending of mail, SHA-1, the full-text ranking and
  collation of PostgreSQL, its printing of timestamps, socket.io rooms (\<open>socket_io\<close>), the library that interprets the
  decorators of the DTO classes (\<open>validation\<close>), the network, clock and
  \<open>JSON.parse\<close> of the development seeder (\<open>outside\<close>). Where a hypothesis is needed, a concrete instance
  satisfies it in the witness.

  Modelling decisions. Ids are integers, stored prices and ratings are integers in hundredths with the range of
  their column (a price sent by an administrator is any number, rounded as its column rounds it); the ids of the
  foreign-key expansion are rounded to doubles as JavaScript holds them; JSON columns are opaque. The requests of \<open>Controllers\<close> carry the fields of validated objects. Ties of an
  \<open>ORDER BY\<close> keep the insertion order. The length of a text counts its characters, letter case is that of
  ASCII. JavaScript objects are lists of properties in insertion order; numbers are exact decimals. A
  \<open>BIGINT\<close> column is read as text, as the driver does, wherever the code compares or converts it. Outside the
  two statement relations a request is one step; so the properties of orders and of the whole server speak of
  requests handled one after another (or inside their transaction).

  Not modelled: Swagger descriptions and response DTOs (types without behaviour), what \<open>main.ts\<close> and
  \<open>app.module.ts\<close> configure in libraries (CORS, helmet, dependency injection), a database that cannot be reached
  (the health probe always finds it), the Redis adapter of socket.io and the counting of the throttler (library
  code; the declared limits are in the tables of \<open>Routes\<close>), the log files the development seeder writes, and under
  \<open>scripts\<close> the test harnesses and simulations, which exercise a running server, the image fetcher, and the regular
  expressions that find socket events in sources.
\<close>

end
